(* ===== verification/Prelude.thy ===== *)
theory Prelude
  imports Main "HOL-Library.Word" "HOL-Library.Monad_Syntax" "HOL-Library.Sublist"
begin

text \<open>
  Shared vocabulary of the development: the machine integers of the C code, the
  little-endian byte layout of \<open>qendian.h\<close>, checked reads of byte buffers, and the
  generic lemmas that the component theories use.

  A C buffer is a list of bytes. A read outside the buffer is undefined behaviour in C and
  is the value \<open>None\<close> here, so a function that may read past its buffer has an option
  result. Characters of C strings are HOL characters; a C string is the list of the
  characters before its terminating NUL.
\<close>

unbundle bit_operations_syntax

named_theorems layout_simps \<open>offsets and lengths of byte layouts\<close>
named_theorems rd_simps \<open>checked reads of concatenated buffers\<close>

type_synonym byte = "8 word"
type_synonym u16 = "16 word"
type_synonym u32 = "32 word"

section \<open>Little-endian fields (qendian.h)\<close>

text \<open>\<open>cpu_to_le16\<close> and \<open>cpu_to_le32\<close> followed by the store of the packed field.\<close>

definition le16 :: "u16 \<Rightarrow> byte list" where
  "le16 w = [ucast w, ucast (drop_bit 8 w)]"

definition le32 :: "u32 \<Rightarrow> byte list" where
  "le32 w = [ucast w, ucast (drop_bit 8 w), ucast (drop_bit 16 w), ucast (drop_bit 24 w)]"

text \<open>\<open>le16_to_cpu\<close> and \<open>le32_to_cpu\<close> of the bytes of a packed field.\<close>

definition of_le16 :: "byte \<Rightarrow> byte \<Rightarrow> u16" where
  "of_le16 a b = ucast a OR push_bit 8 (ucast b)"

definition of_le32 :: "byte \<Rightarrow> byte \<Rightarrow> byte \<Rightarrow> byte \<Rightarrow> u32" where
  "of_le32 a b c d =
     ucast a OR push_bit 8 (ucast b) OR push_bit 16 (ucast c) OR push_bit 24 (ucast d)"

lemma length_le16 [simp, layout_simps]: "length (le16 w) = 2"
  by (simp add: le16_def)

lemma length_le32 [simp, layout_simps]: "length (le32 w) = 4"
  by (simp add: le32_def)

lemma of_le16_le16 [simp]: "of_le16 (ucast w) (ucast (drop_bit 8 w)) = w"
  unfolding of_le16_def
  by (rule bit_word_eqI) (auto simp: bit_simps)

lemma of_le32_le32 [simp]:
  "of_le32 (ucast w) (ucast (drop_bit 8 w)) (ucast (drop_bit 16 w)) (ucast (drop_bit 24 w)) = w"
proof (rule bit_word_eqI)
  fix n assume n: "n < LENGTH(32)"
  then consider "n < 8" | "8 \<le> n" "n < 16" | "16 \<le> n" "n < 24" | "24 \<le> n" "n < 32"
    by force
  then show "bit (of_le32 (ucast w) (ucast (drop_bit 8 w)) (ucast (drop_bit 16 w))
      (ucast (drop_bit 24 w))) n = bit w n"
    by cases (auto simp: of_le32_def bit_simps)
qed

section \<open>Checked reads\<close>

definition rd8 :: "byte list \<Rightarrow> nat \<Rightarrow> byte option" where
  "rd8 b i = (if i < length b then Some (b ! i) else None)"

definition rd16 :: "byte list \<Rightarrow> nat \<Rightarrow> u16 option" where
  "rd16 b i = do { x \<leftarrow> rd8 b i; y \<leftarrow> rd8 b (i + 1); Some (of_le16 x y) }"

definition rd32 :: "byte list \<Rightarrow> nat \<Rightarrow> u32 option" where
  "rd32 b i = do { w \<leftarrow> rd8 b i; x \<leftarrow> rd8 b (i + 1); y \<leftarrow> rd8 b (i + 2); z \<leftarrow> rd8 b (i + 3);
     Some (of_le32 w x y z) }"

definition rdn :: "byte list \<Rightarrow> nat \<Rightarrow> nat \<Rightarrow> byte list option" where
  "rdn b i n = (if i + n \<le> length b then Some (take n (drop i b)) else None)"

lemma rd8_Some_iff: "(\<exists>x. rd8 b i = Some x) \<longleftrightarrow> i < length b"
  by (simp add: rd8_def)

lemma rd16_Some_iff: "(\<exists>x. rd16 b i = Some x) \<longleftrightarrow> i + 1 < length b"
  by (auto simp: rd16_def rd8_def bind_eq_Some_conv)

lemma rd32_Some_iff: "(\<exists>x. rd32 b i = Some x) \<longleftrightarrow> i + 3 < length b"
  by (auto simp: rd32_def rd8_def bind_eq_Some_conv)

lemma rd8_append2 [rd_simps]: "rd8 (xs @ ys) (length xs + i) = rd8 ys i"
  by (simp add: rd8_def)

lemma rd16_append2 [rd_simps]: "rd16 (xs @ ys) (length xs + i) = rd16 ys i"
  using rd8_append2 [of xs ys i] rd8_append2 [of xs ys "i + 1"] by (simp add: rd16_def)

lemma rd32_append2 [rd_simps]: "rd32 (xs @ ys) (length xs + i) = rd32 ys i"
  using rd8_append2 [of xs ys i] rd8_append2 [of xs ys "i + 1"]
    rd8_append2 [of xs ys "i + 2"] rd8_append2 [of xs ys "i + 3"]
  by (simp add: rd32_def add.assoc)

lemma rdn_append2 [rd_simps]: "rdn (xs @ ys) (length xs + i) n = rdn ys i n"
  by (simp add: rdn_def)

lemma rd8_Cons [rd_simps]: "rd8 (x # xs) 0 = Some x" "rd8 (x # xs) (Suc i) = rd8 xs i"
  by (simp_all add: rd8_def)

lemma rd16_le16 [rd_simps]: "rd16 (le16 w @ ys) 0 = Some w"
  by (simp add: rd16_def rd8_def le16_def)

lemma rd32_le32 [rd_simps]: "rd32 (le32 w @ ys) 0 = Some w"
  by (simp add: rd32_def rd8_def le32_def numeral_2_eq_2 numeral_3_eq_3)

lemma rd8_mono: "rd8 b i = Some x \<Longrightarrow> rd8 (b @ c) i = Some x"
  by (auto simp: rd8_def nth_append split: if_splits)

lemma rd16_mono: "rd16 b i = Some x \<Longrightarrow> rd16 (b @ c) i = Some x"
  by (auto simp: rd16_def bind_eq_Some_conv dest: rd8_mono)

lemma rd32_mono: "rd32 b i = Some x \<Longrightarrow> rd32 (b @ c) i = Some x"
  by (auto simp: rd32_def rd8_def nth_append bind_eq_Some_conv)

section \<open>C integers and strings\<close>

text \<open>The conversion of a wider signed value to a 32-bit \<open>int\<close> keeps the low 32 bits.\<close>

definition c_int :: "int \<Rightarrow> int" where
  "c_int v = signed_take_bit 31 v"

lemma c_int_id: "- (2 ^ 31) \<le> v \<Longrightarrow> v < 2 ^ 31 \<Longrightarrow> c_int v = v"
  by (simp add: c_int_def signed_take_bit_int_eq_self)

text \<open>The bytes of a C string, without its terminating NUL.\<close>

definition bytes_of :: "string \<Rightarrow> byte list" where
  "bytes_of s = map of_char s"

lemma length_bytes_of [simp, layout_simps]: "length (bytes_of s) = length s"
  by (simp add: bytes_of_def)

section \<open>Generic list lemmas\<close>

lemma takeWhile_all: "(\<forall>x \<in> set xs. P x) \<Longrightarrow> \<not> P y \<Longrightarrow> takeWhile P (xs @ y # ys) = xs"
  by (induction xs) auto

lemma dropWhile_all: "(\<forall>x \<in> set xs. P x) \<Longrightarrow> \<not> P y \<Longrightarrow> dropWhile P (xs @ y # ys) = y # ys"
  by (induction xs) auto

lemma suffix_dropWhile': "suffix (dropWhile P xs) xs"
  by (rule suffix_dropWhile)

section \<open>Event-driven components\<close>

text \<open>
  Every server and reader of the program is a handler that is called once per event. The
  contract \<open>stepper\<close> is what such a component promises of one invariant; the runs of the
  component then keep it. \<open>started_stepper\<close> adds the initial state.
\<close>

locale stepper =
  fixes step :: "'e \<Rightarrow> 's \<Rightarrow> 's"
    and inv :: "'s \<Rightarrow> bool"
  assumes step_inv: "inv s \<Longrightarrow> inv (step e s)"
begin

lemma run_inv: "inv s \<Longrightarrow> inv (fold step es s)"
  by (induction es arbitrary: s) (auto intro: step_inv)

lemma run_inv_prefix: "inv s \<Longrightarrow> es = es1 @ es2 \<Longrightarrow> inv (fold step es1 s)"
  by (rule run_inv)

end

locale started_stepper = stepper +
  fixes init :: "'s"
  assumes init_inv: "inv init"
begin

lemma reachable_inv: "inv (fold step es init)"
  by (rule run_inv) (rule init_inv)

end

end
