(* ===== verification/CLib.thy ===== *)
theory CLib
  imports Prelude
begin

text \<open>
  The parts of the C library that the parsers of the program rest on, for strings in the
  "C" locale: \<open>isspace\<close>, \<open>isdigit\<close>, \<open>strchr\<close>, \<open>strsep\<close>, \<open>strtol\<close>, \<open>strtoul\<close>, \<open>atoi\<close>,
  \<open>strncmp\<close>, \<open>strstr\<close>, \<open>tolower\<close>, \<open>strcasecmp\<close>, and the decimal output of \<open>printf("%d")\<close>. A string pointer that
  may be NULL is a \<open>string option\<close>; a pointer into a string is the rest of the string.
  \<open>long\<close> has 64 bits, as on the armv8 target of the firmware.
\<close>

definition isspace :: "char \<Rightarrow> bool" where
  "isspace c = (c \<in> set [CHR '' '', CHR 0x09, CHR 0x0A, CHR 0x0B, CHR 0x0C, CHR 0x0D])"

definition isdigit :: "char \<Rightarrow> bool" where
  "isdigit c = (48 \<le> (of_char c :: nat) \<and> (of_char c :: nat) \<le> 57)"

text \<open>\<open>strchr(s, c)\<close> for \<open>c \<noteq> '\0'\<close>: the rest of \<open>s\<close> from the first \<open>c\<close>.\<close>

definition strchr :: "string \<Rightarrow> char \<Rightarrow> string option" where
  "strchr s c = (case dropWhile (\<lambda>x. x \<noteq> c) s of [] \<Rightarrow> None | r \<Rightarrow> Some r)"

text \<open>\<open>strsep(&p, "d")\<close>: the token before the first \<open>d\<close> and the new value of \<open>p\<close>.\<close>

definition strsep :: "char \<Rightarrow> string option \<Rightarrow> string option \<times> string option" where
  "strsep d p = (case p of None \<Rightarrow> (None, None)
     | Some s \<Rightarrow> (Some (takeWhile (\<lambda>x. x \<noteq> d) s),
                 case dropWhile (\<lambda>x. x \<noteq> d) s of [] \<Rightarrow> None | _ # r \<Rightarrow> Some r))"

text \<open>\<open>strstr(s, t) != NULL\<close>, and \<open>strncmp(s, t, strlen(t)) == 0\<close> as \<open>prefix\<close>.\<close>

fun strstr :: "string \<Rightarrow> string \<Rightarrow> bool" where
  "strstr [] t = (t = [])"
| "strstr (c # s) t = (prefix t (c # s) \<or> strstr s t)"

text \<open>\<open>strcasecmp(s, t) == 0\<close>\<close>

definition tolower :: "char \<Rightarrow> char" where
  "tolower c = (let n = of_char c :: nat in if 65 \<le> n \<and> n \<le> 90 then char_of (n + 32) else c)"

definition strcaseeq :: "string \<Rightarrow> string \<Rightarrow> bool" where
  "strcaseeq s t \<longleftrightarrow> map tolower s = map tolower t"

section \<open>Number conversion\<close>

definition hexval :: "char \<Rightarrow> nat option" where
  "hexval c = (let n = (of_char c :: nat) in
     if 48 \<le> n \<and> n \<le> 57 then Some (n - 48)
     else if 97 \<le> n \<and> n \<le> 102 then Some (n - 87)
     else if 65 \<le> n \<and> n \<le> 70 then Some (n - 55) else None)"

definition isdig :: "nat \<Rightarrow> char \<Rightarrow> bool" where
  "isdig base c = (case hexval c of None \<Rightarrow> False | Some d \<Rightarrow> d < base)"

fun digits_val :: "nat \<Rightarrow> nat \<Rightarrow> string \<Rightarrow> nat" where
  "digits_val base acc [] = acc"
| "digits_val base acc (c # cs) =
     digits_val base (acc * base + (case hexval c of None \<Rightarrow> 0 | Some d \<Rightarrow> d)) cs"

text \<open>The optional sign, and the optional \<open>0x\<close> of base 16.\<close>

definition strto_sign :: "string \<Rightarrow> bool \<times> string" where
  "strto_sign s = (case s of [] \<Rightarrow> (False, [])
     | c # r \<Rightarrow> if c = CHR ''-'' then (True, r)
                else if c = CHR ''+'' then (False, r) else (False, s))"

definition strto_prefix :: "nat \<Rightarrow> string \<Rightarrow> string" where
  "strto_prefix base s = (case s of
       a # b # c # r \<Rightarrow> if base = 16 \<and> a = CHR ''0'' \<and> (b = CHR ''x'' \<or> b = CHR ''X'')
                          \<and> isdig 16 c then c # r else s
     | _ \<Rightarrow> s)"

text \<open>Sign, magnitude, and whether any digit was converted (\<open>end != nptr\<close>).\<close>

definition strto_scan :: "nat \<Rightarrow> string \<Rightarrow> bool \<times> nat \<times> bool" where
  "strto_scan base s =
     (let (neg, s2) = strto_sign (dropWhile isspace s);
          ds = takeWhile (isdig base) (strto_prefix base s2)
      in (neg, digits_val base 0 ds, ds \<noteq> []))"

definition strtol :: "nat \<Rightarrow> string \<Rightarrow> int \<times> bool" where
  "strtol base s = (let (neg, m, ok) = strto_scan base s in
     if \<not> ok then (0, False)
     else (max (- (2 ^ 63)) (min (2 ^ 63 - 1) (if neg then - int m else int m)), True))"

definition strtoul :: "nat \<Rightarrow> string \<Rightarrow> int \<times> bool" where
  "strtoul base s = (let (neg, m, ok) = strto_scan base s in
     if \<not> ok then (0, False)
     else if 2 ^ 64 \<le> m then (2 ^ 64 - 1, True)
     else ((if neg then - int m else int m) mod 2 ^ 64, True))"

lemma strtoul_code [code]:
  "strtoul base s = (case strto_scan base s of (neg, m, ok) \<Rightarrow> let v = int m in
     if \<not> ok then (0, False)
     else if 2 ^ 64 \<le> v then (2 ^ 64 - 1, True)
     else ((if neg then - v else v) mod 2 ^ 64, True))"
proof -
  have "(2 ^ 64 :: int) \<le> int m \<longleftrightarrow> 2 ^ 64 \<le> m" for m
    by (metis numeral_power_le_of_nat_cancel_iff)
  then show ?thesis by (simp add: strtoul_def Let_def split: prod.split)
qed

definition atoi :: "string \<Rightarrow> int" where
  "atoi s = c_int (fst (strtol 10 s))"

text \<open>\<open>printf("%u")\<close> and \<open>printf("%d")\<close>.\<close>

definition digit_char :: "nat \<Rightarrow> char" where
  "digit_char d = char_of (48 + d)"

fun dec_nat :: "nat \<Rightarrow> string" where
  "dec_nat n = (if n < 10 then [digit_char n] else dec_nat (n div 10) @ [digit_char (n mod 10)])"

declare dec_nat.simps [simp del]

definition dec_int :: "int \<Rightarrow> string" where
  "dec_int v = (if v < 0 then CHR ''-'' # dec_nat (nat (- v)) else dec_nat (nat v))"

section \<open>Printing and reading numbers back\<close>

lemma hexval_digit_char: "d < 10 \<Longrightarrow> hexval (digit_char d) = Some d"
  by (simp add: hexval_def digit_char_def Let_def)

lemma isdig_digit_char: "d < 10 \<Longrightarrow> isdig 10 (digit_char d)"
  by (simp add: isdig_def hexval_digit_char)

lemma digits_val_append:
  "digits_val base acc (xs @ ys) = digits_val base (digits_val base acc xs) ys"
  by (induction xs arbitrary: acc) auto

lemma dec_nat_digits: "c \<in> set (dec_nat n) \<Longrightarrow> isdig 10 c"
proof (induction n rule: dec_nat.induct)
  case (1 n)
  then show ?case
    by (subst (asm) (2) dec_nat.simps)
       (auto simp: isdig_digit_char split: if_splits)
qed

lemma dec_nat_nonempty [simp]: "dec_nat n \<noteq> []"
  by (subst dec_nat.simps) simp

lemma digits_val_dec_nat: "digits_val 10 0 (dec_nat n) = n"
proof (induction n rule: dec_nat.induct)
  case (1 n)
  show ?case
  proof (cases "n < 10")
    case True
    then show ?thesis by (simp add: dec_nat.simps [of n] hexval_digit_char)
  next
    case False
    with 1 show ?thesis
      by (simp add: dec_nat.simps [of n] digits_val_append hexval_digit_char)
  qed
qed

lemma isdig_not_special:
  assumes "isdig 10 c"
  shows "\<not> isspace c" "c \<noteq> CHR ''-''" "c \<noteq> CHR ''+''" "c \<noteq> CHR '',''" "c \<noteq> CHR 0x22" "c \<noteq> CHR '':''"
proof -
  have d: "48 \<le> (of_char c :: nat) \<and> (of_char c :: nat) \<le> 57"
    using assms by (auto simp: isdig_def hexval_def Let_def split: option.splits if_splits)
  have n: "\<And>x. (of_char x :: nat) < 48 \<or> 57 < (of_char x :: nat) \<Longrightarrow> c \<noteq> x"
    using d by force
  show "\<not> isspace c" "c \<noteq> CHR ''-''" "c \<noteq> CHR ''+''" "c \<noteq> CHR '',''" "c \<noteq> CHR 0x22" "c \<noteq> CHR '':''"
    by (auto simp: isspace_def dest: n [THEN notE, rotated, OF sym])
       (use d in auto)
qed

lemma takeWhile_dec_nat: "takeWhile (isdig 10) (dec_nat n) = dec_nat n"
  by (simp add: takeWhile_eq_all_conv dec_nat_digits)

lemma dec_nat_Cons: obtains c cs where "dec_nat n = c # cs" "isdig 10 c"
  using dec_nat_nonempty [of n] dec_nat_digits [of _ n] by (cases "dec_nat n") auto

lemma strto_prefix_10 [simp]: "strto_prefix 10 s = s"
  by (auto simp: strto_prefix_def split: list.splits)

lemma strto_scan_dec_int: "strto_scan 10 (dec_int v) = (v < 0, nat \<bar>v\<bar>, True)"
proof (cases "v < 0")
  case True
  then show ?thesis
    by (simp add: strto_scan_def dec_int_def strto_sign_def isspace_def Let_def
        takeWhile_dec_nat digits_val_dec_nat)
next
  case False
  obtain c cs where c: "dec_nat (nat v) = c # cs" "isdig 10 c" by (rule dec_nat_Cons)
  have "strto_sign (dropWhile isspace (dec_nat (nat v))) = (False, dec_nat (nat v))"
    using c by (simp add: strto_sign_def isdig_not_special)
  with False show ?thesis
    by (simp add: strto_scan_def dec_int_def Let_def takeWhile_dec_nat digits_val_dec_nat)
qed

lemma strtol_dec_int:
  "- (2 ^ 63) \<le> v \<Longrightarrow> v < 2 ^ 63 \<Longrightarrow> strtol 10 (dec_int v) = (v, True)"
  by (auto simp: strtol_def strto_scan_dec_int)

lemma atoi_dec_int:
  "- (2 ^ 31) \<le> v \<Longrightarrow> v < 2 ^ 31 \<Longrightarrow> atoi (dec_int v) = v"
  by (simp add: atoi_def strtol_dec_int c_int_id)

text \<open>The characters of a printed number end no token and open no quote.\<close>

lemma dec_int_chars:
  assumes "c \<in> set (dec_int v)"
  shows "\<not> isspace c" "c \<noteq> CHR '',''" "c \<noteq> CHR 0x22" "c \<noteq> CHR '':''"
proof -
  have "c = CHR ''-'' \<or> isdig 10 c"
    using assms by (auto simp: dec_int_def dest: dec_nat_digits split: if_splits)
  then show "\<not> isspace c" "c \<noteq> CHR '',''" "c \<noteq> CHR 0x22" "c \<noteq> CHR '':''"
    by (auto simp: isspace_def isdig_not_special dest: isdig_not_special)
qed

lemma dec_int_nonempty [simp]: "dec_int v \<noteq> []"
  by (simp add: dec_int_def)

text \<open>A printed number is never the single character \<open>-\<close>.\<close>

lemma dec_int_not_dash: "dec_int v \<noteq> [CHR ''-'']"
proof -
  obtain c cs where "dec_nat (nat v) = c # cs" "isdig 10 c" by (rule dec_nat_Cons)
  then show ?thesis by (auto simp: dec_int_def isdig_not_special)
qed

end
