(* ===== verification/AtTok.thy ===== *)
theory AtTok
  imports CLib
begin

text \<open>
  \<open>quectel-cm/src/at_tok.c\<close>: the tokenizer of AT response lines. The cursor \<open>char **p_cur\<close>
  is the rest of the line, or \<open>None\<close> for NULL; a function that updates the cursor returns
  the new one. An \<open>int *p_out\<close> that the code may leave unwritten is an option: \<open>None\<close> when
  the call does not write it.
\<close>

type_synonym cursor = "string option"

definition at_tok_start :: "cursor \<Rightarrow> int \<times> cursor" where
  "at_tok_start cur = (case cur of None \<Rightarrow> (- 1, None)
     | Some s \<Rightarrow> (case strchr s (CHR '':'') of None \<Rightarrow> (- 1, None) | Some r \<Rightarrow> (0, Some (tl r))))"

definition skipWhiteSpace :: "cursor \<Rightarrow> cursor" where
  "skipWhiteSpace cur = map_option (dropWhile isspace) cur"

definition skipNextComma :: "cursor \<Rightarrow> cursor" where
  "skipNextComma cur = (case cur of None \<Rightarrow> None
     | Some s \<Rightarrow> (case dropWhile (\<lambda>c. c \<noteq> CHR '','') s of [] \<Rightarrow> Some [] | _ # r \<Rightarrow> Some r))"

definition nextTok :: "cursor \<Rightarrow> string option \<times> cursor" where
  "nextTok cur = (case skipWhiteSpace cur of None \<Rightarrow> (None, None)
     | Some s \<Rightarrow>
         if s \<noteq> [] \<and> hd s = CHR 0x22
         then (let (ret, c) = strsep (CHR 0x22) (Some (tl s)) in (ret, skipNextComma c))
         else strsep (CHR '','') (Some s))"

definition at_tok_nextint_base :: "cursor \<Rightarrow> nat \<Rightarrow> bool \<Rightarrow> int \<times> cursor \<times> int option" where
  "at_tok_nextint_base cur base uns = (case cur of None \<Rightarrow> (- 1, None, None)
     | Some _ \<Rightarrow> (case nextTok cur of
          (None, cur') \<Rightarrow> (- 1, cur', None)
        | (Some ret, cur') \<Rightarrow>
            (let (l, conv) = (if uns then strtoul base ret else strtol base ret)
             in (if conv then 0 else - 1, cur', Some (c_int l)))))"

definition at_tok_nextint :: "cursor \<Rightarrow> int \<times> cursor \<times> int option" where
  "at_tok_nextint cur = at_tok_nextint_base cur 10 False"

definition at_tok_nexthexint :: "cursor \<Rightarrow> int \<times> cursor \<times> int option" where
  "at_tok_nexthexint cur = at_tok_nextint_base cur 16 True"

definition at_tok_nextbool :: "cursor \<Rightarrow> int \<times> cursor \<times> int option" where
  "at_tok_nextbool cur = (case at_tok_nextint cur of (ret, cur', result) \<Rightarrow>
     if ret < 0 then (- 1, cur', None)
     else (case result of None \<Rightarrow> (- 1, cur', None)
       | Some r \<Rightarrow> if \<not> (r = 0 \<or> r = 1) then (- 1, cur', None) else (ret, cur', Some r)))"

definition at_tok_nextstr :: "cursor \<Rightarrow> int \<times> cursor \<times> string option" where
  "at_tok_nextstr cur = (case cur of None \<Rightarrow> (- 1, None, None)
     | Some _ \<Rightarrow> (case nextTok cur of (ret, cur') \<Rightarrow> (0, cur', ret)))"

definition at_tok_hasmore :: "cursor \<Rightarrow> bool" where
  "at_tok_hasmore cur = (case cur of None \<Rightarrow> False | Some s \<Rightarrow> s \<noteq> [])"

definition at_tok_count :: "cursor \<Rightarrow> nat" where
  "at_tok_count in_line = (case in_line of None \<Rightarrow> 0
     | Some s \<Rightarrow> length (filter (\<lambda>c. c = CHR '','') s))"

text \<open>
  \<open>at_tok_scanf\<close>: the values stored through the variadic pointers, one entry per
  conversion that the loop reaches, \<open>None\<close> when the conversion stores nothing. The
  formats of the callers are literals that never end in a lone \<open>%\<close>.
\<close>

datatype tok_val = VInt int | VBool int | VStr string

definition scan_conv :: "char \<Rightarrow> cursor \<Rightarrow> int \<times> cursor \<times> tok_val option" where
  "scan_conv f cur =
     (if f = CHR ''d'' then (case at_tok_nextint cur of (e, c, v) \<Rightarrow> (e, c, map_option VInt v))
      else if f = CHR ''x'' then (case at_tok_nexthexint cur of (e, c, v) \<Rightarrow> (e, c, map_option VInt v))
      else if f = CHR ''b'' then (case at_tok_nextbool cur of (e, c, v) \<Rightarrow> (e, c, map_option VBool v))
      else if f = CHR ''s'' then (case at_tok_nextstr cur of (e, c, v) \<Rightarrow> (e, c, map_option VStr v))
      else (- 1, cur, None))"

definition is_dash :: "cursor \<Rightarrow> bool" where
  "is_dash cur = (case cur of Some (a # b # _) \<Rightarrow> a = CHR ''-'' \<and> b = CHR '','' | _ \<Rightarrow> False)"

fun scan_loop :: "string \<Rightarrow> cursor \<Rightarrow> nat \<Rightarrow> tok_val option list \<Rightarrow> nat \<times> tok_val option list" where
  "scan_loop [] cur n out = (n, out)"
| "scan_loop [p] cur n out = (n, out)"
| "scan_loop (p # f # ps) cur n out =
     (if p = CHR '','' \<or> p = CHR '' '' then scan_loop (f # ps) cur n out
      else if p \<noteq> CHR ''%'' then (n, out)
      else if \<not> at_tok_hasmore cur then (n, out)
      else if is_dash cur
      then scan_loop ps (map_option (drop 2) cur) (n + 1)
             (out @ [if f = CHR ''d'' then Some (VInt (- 1)) else None])
      else (case scan_conv f cur of (err, cur', v) \<Rightarrow>
        if err < 0 then (n, out @ [v]) else scan_loop ps cur' (n + 1) (out @ [v])))"

definition at_tok_scanf :: "cursor \<Rightarrow> string \<Rightarrow> nat \<times> tok_val option list" where
  "at_tok_scanf in_line fmt = (case in_line of None \<Rightarrow> (0, [])
     | Some s \<Rightarrow> (case at_tok_start (Some (take 1023 s)) of
         (err, line) \<Rightarrow> if err < 0 then (0, []) else scan_loop fmt line 0 []))"

section \<open>The cursor only moves forward\<close>

definition forward :: "cursor \<Rightarrow> cursor \<Rightarrow> bool" where
  "forward cur cur' = (case cur' of None \<Rightarrow> True
     | Some t \<Rightarrow> (case cur of None \<Rightarrow> False | Some s \<Rightarrow> suffix t s))"

lemma suffix_Cons_dropWhile: "dropWhile P s = x # r \<Longrightarrow> suffix r s"
  by (metis suffix_ConsD suffix_dropWhile)

lemma forward_trans: "forward a b \<Longrightarrow> forward b c \<Longrightarrow> forward a c"
  by (auto simp: forward_def split: option.splits)

lemma forward_skipWhiteSpace: "forward cur (skipWhiteSpace cur)"
  by (cases cur) (auto simp: forward_def skipWhiteSpace_def suffix_dropWhile)

lemma forward_skipNextComma: "forward cur (skipNextComma cur)"
  by (cases cur)
     (auto simp: forward_def skipNextComma_def dest: suffix_Cons_dropWhile split: list.splits)

lemma forward_strsep: "forward cur (snd (strsep d cur))"
  by (cases cur)
     (auto simp: forward_def strsep_def dest: suffix_Cons_dropWhile split: list.splits)

lemma forward_tl: "forward (Some s) (Some (tl s))"
  by (simp add: forward_def suffix_tl)

lemma forward_nextTok: "forward cur (snd (nextTok cur))"
proof (cases "skipWhiteSpace cur")
  case None
  then show ?thesis by (simp add: nextTok_def forward_def)
next
  case (Some s)
  have 1: "forward cur (Some s)" using forward_skipWhiteSpace [of cur] Some by simp
  have 2: "forward (Some s) (snd (nextTok cur))"
    using Some forward_tl [of s] forward_strsep [of "Some (tl s)" "CHR 0x22"]
      forward_skipNextComma [of "snd (strsep (CHR 0x22) (Some (tl s)))"] forward_strsep [of "Some s"]
    by (auto simp: nextTok_def split: prod.splits) (meson forward_trans)
  from 1 2 show ?thesis by (rule forward_trans)
qed

lemma nextTok_Some: "fst (nextTok (Some s)) \<noteq> None"
  by (auto simp: nextTok_def skipWhiteSpace_def strsep_def split: prod.splits)

section \<open>Tokens without quotes or commas\<close>

lemma skipWhiteSpace_tok:
  "s \<noteq> [] \<Longrightarrow> \<not> isspace (hd s) \<Longrightarrow> skipWhiteSpace (Some s) = Some s"
  by (cases s) (auto simp: skipWhiteSpace_def)

lemma nextTok_plain:
  assumes "t \<noteq> []" "\<forall>c \<in> set t. \<not> isspace c \<and> c \<noteq> CHR '','' \<and> c \<noteq> CHR 0x22"
  shows "nextTok (Some (t @ CHR '','' # rest)) = (Some t, Some rest)"
    and "nextTok (Some t) = (Some t, None)"
proof -
  have hd: "hd t \<in> set t" using assms(1) by simp
  have tw: "takeWhile (\<lambda>x. x \<noteq> CHR '','') t = t" "dropWhile (\<lambda>x. x \<noteq> CHR '','') t = []"
    using assms(2) by (auto simp: takeWhile_eq_all_conv dropWhile_eq_Nil_conv)
  have ws: "skipWhiteSpace (Some (t @ r)) = Some (t @ r)" for r
    using hd assms by (intro skipWhiteSpace_tok) auto
  show "nextTok (Some (t @ CHR '','' # rest)) = (Some t, Some rest)"
    using hd assms ws by (simp add: nextTok_def strsep_def takeWhile_all dropWhile_all)
  show "nextTok (Some t) = (Some t, None)"
    using hd assms ws [of "[]"]
    by (simp add: nextTok_def strsep_def tw del: dropWhile_eq_Nil_conv)
qed

lemma nextTok_quoted:
  assumes "CHR 0x22 \<notin> set t" "CHR '','' \<notin> set junk"
  shows "nextTok (Some (CHR 0x22 # t @ CHR 0x22 # junk @ CHR '','' # rest)) = (Some t, Some rest)"
proof -
  have "takeWhile (\<lambda>x. x \<noteq> CHR 0x22) (t @ CHR 0x22 # junk @ CHR '','' # rest) = t"
    "dropWhile (\<lambda>x. x \<noteq> CHR 0x22) (t @ CHR 0x22 # junk @ CHR '','' # rest)
       = CHR 0x22 # junk @ CHR '','' # rest"
    using assms(1) by (auto intro!: takeWhile_all dropWhile_all)
  moreover have "dropWhile (\<lambda>x. x \<noteq> CHR '','') (junk @ CHR '','' # rest) = CHR '','' # rest"
    using assms(2) by (auto intro!: dropWhile_all)
  ultimately show ?thesis
    by (simp add: nextTok_def skipWhiteSpace_def isspace_def strsep_def skipNextComma_def)
qed

section \<open>Lines of decimal fields\<close>

fun int_fields :: "int list \<Rightarrow> string" where
  "int_fields [] = []"
| "int_fields [v] = dec_int v"
| "int_fields (v # w # vs) = dec_int v @ CHR '','' # int_fields (w # vs)"

definition in_int_range :: "int \<Rightarrow> bool" where
  "in_int_range v = (- (2 ^ 31) \<le> v \<and> v < 2 ^ 31)"

definition d_format :: "nat \<Rightarrow> string" where
  "d_format k = concat (replicate k ''%d,'')"

lemma nextint_dec_int:
  assumes "in_int_range v"
  shows "at_tok_nextint (Some (dec_int v @ CHR '','' # rest)) = (0, Some rest, Some v)"
    and "at_tok_nextint (Some (dec_int v)) = (0, None, Some v)"
proof -
  have chars: "\<forall>c \<in> set (dec_int v). \<not> isspace c \<and> c \<noteq> CHR '','' \<and> c \<noteq> CHR 0x22"
    by (auto dest: dec_int_chars)
  have val: "strtol 10 (dec_int v) = (v, True)" "c_int v = v"
    using assms by (simp_all add: strtol_dec_int c_int_id in_int_range_def)
  show "at_tok_nextint (Some (dec_int v @ CHR '','' # rest)) = (0, Some rest, Some v)"
    using nextTok_plain(1) [OF _ chars] val by (simp add: at_tok_nextint_def at_tok_nextint_base_def)
  show "at_tok_nextint (Some (dec_int v)) = (0, None, Some v)"
    using nextTok_plain(2) [OF _ chars] val by (simp add: at_tok_nextint_def at_tok_nextint_base_def)
qed

lemma is_dash_dec_int: "\<not> is_dash (Some (dec_int v @ CHR '','' # rest))" "\<not> is_dash (Some (dec_int v))"
proof -
  obtain c cs where n: "\<And>k. \<exists>c cs. dec_nat k = c # cs \<and> isdig 10 c"
    by (metis dec_nat_Cons)
  have "\<exists>a b r. dec_int v = a # b # r \<and> b \<noteq> CHR '','' \<or> (\<exists>a. dec_int v = [a] \<and> a \<noteq> CHR ''-'')"
    using dec_int_chars(2) [of _ v] dec_int_not_dash [of v] dec_int_nonempty [of v]
    by (metis list.exhaust list.set_intros(1,2))
  then show "\<not> is_dash (Some (dec_int v @ CHR '','' # rest))" "\<not> is_dash (Some (dec_int v))"
    by (auto simp: is_dash_def split: list.splits)
qed

lemma scan_loop_ints:
  "vs \<noteq> [] \<Longrightarrow> \<forall>v \<in> set vs. in_int_range v \<Longrightarrow>
   scan_loop (d_format (length vs)) (Some (int_fields vs)) n out =
     (n + length vs, out @ map (\<lambda>v. Some (VInt v)) vs)"
proof (induction vs arbitrary: n out rule: int_fields.induct)
  case (2 v)
  then show ?case
    using is_dash_dec_int(2) [of v]
    by (simp add: d_format_def at_tok_hasmore_def scan_conv_def nextint_dec_int)
next
  case (3 v w vs)
  have d: "d_format (Suc (Suc (length vs))) = ''%d,'' @ d_format (Suc (length vs))"
    by (simp add: d_format_def)
  obtain ps where ps: "d_format (Suc (length vs)) = CHR ''%'' # ps"
    by (simp add: d_format_def)
  have "scan_loop (d_format (length (v # w # vs))) (Some (int_fields (v # w # vs))) n out =
    scan_loop (d_format (length (w # vs))) (Some (int_fields (w # vs))) (n + 1) (out @ [Some (VInt v)])"
    using 3(3) is_dash_dec_int(1) [of v]
    by (simp add: d ps at_tok_hasmore_def scan_conv_def nextint_dec_int)
  with 3 show ?case by simp
qed simp

section \<open>Bounds of the scanner\<close>

lemma scan_loop_counts:
  "scan_loop ps cur n out = (m, res) \<Longrightarrow>
   n \<le> m \<and> m \<le> n + length (filter (\<lambda>c. c = CHR ''%'') ps) \<and>
   length out + m \<le> length res + n \<and> length res + n \<le> length out + m + 1"
proof (induction ps cur n out rule: scan_loop.induct)
  case (3 p f ps cur n out)
  note IH = 3(1-3) and run = 3(4)
  show ?case
  proof (cases "p = CHR '','' \<or> p = CHR '' ''")
    case True
    then have "scan_loop (f # ps) cur n out = (m, res)" using run by simp
    from IH(1) [OF True this] True show ?thesis by auto
  next
    case sep: False
    show ?thesis
    proof (cases "p \<noteq> CHR ''%'' \<or> \<not> at_tok_hasmore cur")
      case True
      with sep run show ?thesis by auto
    next
      case more: False
      then have p: "\<not> p \<noteq> CHR ''%''" "\<not> \<not> at_tok_hasmore cur" by auto
      show ?thesis
      proof (cases "is_dash cur")
        case True
        have "scan_loop ps (map_option (drop 2) cur) (n + 1)
            (out @ [if f = CHR ''d'' then Some (VInt (- 1)) else None]) = (m, res)"
          using run sep p True by (simp split: if_splits)
        from IH(2) [OF sep p True this] p(1) show ?thesis by simp
      next
        case dash: False
        obtain e c v where sc: "scan_conv f cur = (e, c, v)" by (metis prod_cases3)
        show ?thesis
        proof (cases "e < 0")
          case True
          with run sep p dash sc show ?thesis by auto
        next
          case e: False
          have "scan_loop ps c (n + 1) (out @ [v]) = (m, res)"
            using run sep p dash sc e by simp
          from IH(3) [OF sep p dash sc [symmetric] refl e this] p(1) show ?thesis by simp
        qed
      qed
    qed
  qed
qed auto

section \<open>Properties\<close>

text \<open>
  No operation of the tokenizer moves the cursor backwards or out of
  the line: after \<open>at_tok_start\<close>, \<open>nextTok\<close> and the typed readers the cursor is NULL or a
  suffix of the line it was in.
\<close>

theorem at_tok_cursor_forward:
  "forward cur (snd (at_tok_start cur)) \<and> forward cur (snd (nextTok cur)) \<and>
   forward cur (fst (snd (at_tok_nextint_base cur base uns))) \<and>
   forward cur (fst (snd (at_tok_nextbool cur))) \<and> forward cur (fst (snd (at_tok_nextstr cur)))"
proof -
  have st: "forward cur (snd (at_tok_start cur))"
    by (cases cur)
       (auto simp: at_tok_start_def forward_def strchr_def dest: suffix_Cons_dropWhile
             split: list.splits)
  have ib: "forward cur (fst (snd (at_tok_nextint_base cur b u)))" for b u
    using forward_nextTok [of cur]
    by (cases "nextTok cur")
       (auto simp: at_tok_nextint_base_def forward_def split: option.splits prod.splits)
  have nb: "forward cur (fst (snd (at_tok_nextbool cur)))"
    using ib [of 10 False]
    by (auto simp: at_tok_nextbool_def at_tok_nextint_def split: prod.splits option.splits)
  have ns: "forward cur (fst (snd (at_tok_nextstr cur)))"
    using forward_nextTok [of cur]
    by (auto simp: at_tok_nextstr_def forward_def split: option.splits prod.splits)
  from st ib nb ns forward_nextTok show ?thesis by blast
qed

text \<open>
  A response line \<open>tag:v1,v2,...,vk\<close> whose fields were printed
  with \<open>%d\<close> from 32-bit integers is read back by \<open>at_tok_scanf\<close> with \<open>k\<close> conversions
  \<open>%d\<close>: it returns \<open>k\<close> and stores exactly \<open>v1, ..., vk\<close>, for every line that fits the
  1023 characters the scanner copies.
\<close>

theorem at_tok_scanf_int_roundtrip:
  assumes "vs \<noteq> []" "\<forall>v \<in> set vs. in_int_range v" "CHR '':'' \<notin> set tag"
    and "length (tag @ CHR '':'' # int_fields vs) \<le> 1023"
  shows "at_tok_scanf (Some (tag @ CHR '':'' # int_fields vs)) (d_format (length vs)) =
    (length vs, map (\<lambda>v. Some (VInt v)) vs)"
proof -
  have "dropWhile (\<lambda>x. x \<noteq> CHR '':'') (tag @ CHR '':'' # int_fields vs) = CHR '':'' # int_fields vs"
    using assms(3) by (intro dropWhile_all) auto
  then have "at_tok_start (Some (take 1023 (tag @ CHR '':'' # int_fields vs))) =
      (0, Some (int_fields vs))"
    using assms(4) by (simp add: at_tok_start_def strchr_def del: take_append)
  then show ?thesis
    using scan_loop_ints [OF assms(1,2), of 0 "[]"] by (simp add: at_tok_scanf_def)
qed

lemma at_tok_scanf_int_roundtrip_witness:
  "at_tok_scanf (Some ''+QCFG: 1,-20,0'') ''%d,%d,%d'' = (3, [Some (VInt 1), Some (VInt (- 20)), Some (VInt 0)])
   \<and> at_tok_scanf (Some (''+Q'' @ CHR '':'' # int_fields [7, - 20])) (d_format 2) =
     (2, [Some (VInt 7), Some (VInt (- 20))])"
proof
  show "at_tok_scanf (Some ''+QCFG: 1,-20,0'') ''%d,%d,%d'' =
      (3, [Some (VInt 1), Some (VInt (- 20)), Some (VInt 0)])"
    by code_simp
  have len: "length (''+Q'' @ CHR '':'' # int_fields [7, - 20]) \<le> 1023" by code_simp
  show "at_tok_scanf (Some (''+Q'' @ CHR '':'' # int_fields [7, - 20])) (d_format 2) =
      (2, [Some (VInt 7), Some (VInt (- 20))])"
    using at_tok_scanf_int_roundtrip [of "[7, - 20]" "''+Q''"] len
    by (simp add: in_int_range_def numeral_2_eq_2)
qed

text \<open>
  For any line and format, \<open>at_tok_scanf\<close> returns at most the number
  of \<open>%\<close> conversions of the format, and it attempts at most one conversion beyond those
  it counts (the one that failed), so it never consumes more variadic pointers than the
  format announces plus that one.
\<close>

theorem at_tok_scanf_counts:
  "case at_tok_scanf line fmt of (n, out) \<Rightarrow>
     n \<le> length (filter (\<lambda>c. c = CHR ''%'') fmt) \<and> n \<le> length out \<and> length out \<le> n + 1"
proof (cases line)
  case (Some s)
  obtain e c where st: "at_tok_start (Some (take 1023 s)) = (e, c)" by fastforce
  obtain n out where run: "scan_loop fmt c 0 [] = (n, out)" by fastforce
  from scan_loop_counts [OF run] Some st run show ?thesis by (simp add: at_tok_scanf_def)
qed (simp add: at_tok_scanf_def)

text \<open>
  A quoted field is returned without its quotes and with any
  commas it contains, and the cursor then stands after the comma that ends the field,
  whatever unquoted characters lie between.
\<close>

theorem at_tok_nextstr_quoted:
  assumes "CHR 0x22 \<notin> set t" "CHR '','' \<notin> set junk"
  shows "at_tok_nextstr (Some (CHR 0x22 # t @ CHR 0x22 # junk @ CHR '','' # rest)) =
    (0, Some rest, Some t)"
  by (simp add: at_tok_nextstr_def nextTok_quoted [OF assms])

lemma at_tok_nextstr_quoted_witness:
  "at_tok_nextstr (Some (CHR 0x22 # ''a,b'' @ CHR 0x22 # '' '' @ CHR '','' # ''c'')) =
    (0, Some ''c'', Some ''a,b'')"
  by (rule at_tok_nextstr_quoted) simp_all

end
