(* ===== verification/AtChannel.thy ===== *)
theory AtChannel
  imports AtTok
begin

text \<open>
  \<open>quectel-cm/src/atchannel.c\<close>: the AT command channel. A reader thread hands each line of
  the modem to \<open>processLine\<close>; a command thread writes a command and waits for the final
  response under \<open>cm_command_mutex\<close>. The file-scope variables of the code are the record
  \<open>at_chan\<close>; the calls that leave the component (the unsolicited handler, the writers that
  the reader thread calls, the condition variable) are logged in \<open>out\<close>.
\<close>

datatype ATCommandType = NO_RESULT | NUMERIC | SINGLELINE | MULTILINE

text \<open>\<open>p_intermediates\<close> is the linked list of \<open>ATLine\<close>, its head first.\<close>

record at_response =
  success :: int
  finalResponse :: "string option"
  p_intermediates :: "string list"

datatype at_out = Unsol string | UnsolSms string string | WriteRaw string | WriteCtrlZ string | CondSignal
  | CondWait int | OnTimeout | OnReaderClosed

text \<open>
  The prefix of \<open>NO_RESULT\<close> and \<open>NUMERIC\<close> commands is NULL in the code and never read; it
  is the empty string here.
\<close>

record at_chan =
  s_fd :: int
  s_atc_proxy :: bool
  s_unsolHandler :: bool
  s_type :: ATCommandType
  s_responsePrefix :: string
  s_smsPDU :: "string option"
  s_raw_data :: "string option"
  sp_response :: "at_response option"
  s_readerClosed :: bool
  s_onTimeout :: bool
  s_onReaderClosed :: bool
  out :: "at_out list"

definition emit :: "at_out \<Rightarrow> at_chan \<Rightarrow> at_chan" where
  "emit e c = c\<lparr>out := out c @ [e]\<rparr>"

section \<open>Classification of lines\<close>

fun strStartsWith :: "string \<Rightarrow> string \<Rightarrow> bool" where
  "strStartsWith (l # line) (p # pre) = (if l \<noteq> p then False else strStartsWith line pre)"
| "strStartsWith line pre = (pre = [])"

definition s_finalResponsesError :: "string list" where
  "s_finalResponsesError = [''ERROR'', ''+CMS ERROR:'', ''+CME ERROR:'', ''NO CARRIER'',
     ''NO ANSWER'', ''NO DIALTONE'', ''COMMAND NOT SUPPORT'']"

definition isFinalResponseError :: "string \<Rightarrow> bool" where
  "isFinalResponseError line = list_ex (strStartsWith line) s_finalResponsesError"

definition s_finalResponsesSuccess :: "string list" where
  "s_finalResponsesSuccess =
     [''OK'', ''+QIND: '' @ [CHR 0x22] @ ''FOTA'' @ [CHR 0x22, CHR '','', CHR 0x22] @ ''END''
        @ [CHR 0x22] @ '',0'', ''CONNECT'']"

definition isFinalResponseSuccess :: "string \<Rightarrow> bool" where
  "isFinalResponseSuccess line = list_ex (strStartsWith line) s_finalResponsesSuccess"

definition s_smsUnsoliciteds :: "string list" where
  "s_smsUnsoliciteds = [''+CMT:'', ''+CDS:'', ''+CBM:'', ''+CMTI:'']"

definition isSMSUnsolicited :: "string \<Rightarrow> bool" where
  "isSMSUnsolicited line = list_ex (strStartsWith line) s_smsUnsoliciteds"

section \<open>The reader thread\<close>

definition addIntermediate :: "string \<Rightarrow> at_response \<Rightarrow> at_response" where
  "addIntermediate line r = r\<lparr>p_intermediates := line # p_intermediates r\<rparr>"

definition handleFinalResponse :: "string \<Rightarrow> int \<Rightarrow> at_response \<Rightarrow> at_chan \<Rightarrow> at_chan" where
  "handleFinalResponse line succ r c =
     emit CondSignal (c\<lparr>sp_response := Some (r\<lparr>success := succ, finalResponse := Some line\<rparr>)\<rparr>)"

definition handleUnsolicited :: "string \<Rightarrow> at_chan \<Rightarrow> at_chan" where
  "handleUnsolicited line c = (if s_unsolHandler c then emit (Unsol line) c else c)"

definition proxyCopy :: "string \<Rightarrow> at_chan \<Rightarrow> at_chan" where
  "proxyCopy line c = (if s_atc_proxy c then handleUnsolicited line c else c)"

definition matches :: "at_chan \<Rightarrow> at_response \<Rightarrow> string \<Rightarrow> bool" where
  "matches c r line = (case s_type c of
       NO_RESULT \<Rightarrow> False
     | NUMERIC \<Rightarrow> p_intermediates r = [] \<and> (line \<noteq> [] \<and> isdigit (hd line))
     | SINGLELINE \<Rightarrow> p_intermediates r = [] \<and> strStartsWith line (s_responsePrefix c)
     | MULTILINE \<Rightarrow> strStartsWith line (s_responsePrefix c))"

definition processLine :: "string \<Rightarrow> at_chan \<Rightarrow> at_chan" where
  "processLine line c = (case sp_response c of
       None \<Rightarrow> handleUnsolicited line c
     | Some r \<Rightarrow>
        (case (s_raw_data c, line = ''CONNECT'') of
           (Some raw, True) \<Rightarrow> (emit (WriteRaw raw) c)\<lparr>s_raw_data := None\<rparr>
         | _ \<Rightarrow>
          if isFinalResponseSuccess line then handleFinalResponse line 1 r (proxyCopy line c)
          else if isFinalResponseError line then handleFinalResponse line 0 r (proxyCopy line c)
          else (case (s_smsPDU c, line = ''> '') of
             (Some pdu, True) \<Rightarrow> (emit (WriteCtrlZ pdu) c)\<lparr>s_smsPDU := None\<rparr>
           | _ \<Rightarrow> if matches c r line then c\<lparr>sp_response := Some (addIntermediate line r)\<rparr>
                  else handleUnsolicited line c)))"

definition onReaderClosed :: "at_chan \<Rightarrow> at_chan" where
  "onReaderClosed c =
     (if s_onReaderClosed c \<and> \<not> s_readerClosed c
      then emit OnReaderClosed (emit CondSignal (c\<lparr>s_readerClosed := True\<rparr>)) else c)"

definition at_close :: "at_chan \<Rightarrow> at_chan" where
  "at_close c = emit CondSignal (c\<lparr>s_fd := - 1, s_readerClosed := True\<rparr>)"

text \<open>\<open>at_open\<close>, when the reader thread was created.\<close>

definition at_open :: "int \<Rightarrow> bool \<Rightarrow> bool \<Rightarrow> at_chan \<Rightarrow> at_chan" where
  "at_open fd h proxy c = c\<lparr>s_fd := fd, s_unsolHandler := h, s_readerClosed := False,
     s_atc_proxy := proxy, s_responsePrefix := [], s_smsPDU := None, sp_response := None\<rparr>"

section \<open>Writing to the channel\<close>

text \<open>
  The results of successive \<open>write(2)\<close> calls are the environment: interrupted, failed, or
  the number of bytes taken (never more than offered). A writer that uses up the list is
  still blocked.
\<close>

datatype write_res = WEintr | WFail | Wrote nat

datatype writer = Done | Failed | Blocked

definition at_error_generic :: int where "at_error_generic = - 1"
definition at_error_command_pending :: int where "at_error_command_pending = - 2"
definition at_error_channel_closed :: int where "at_error_channel_closed = - 3"
definition at_error_timeout :: int where "at_error_timeout = - 4"
definition at_error_invalid_thread :: int where "at_error_invalid_thread = - 5"
definition at_error_invalid_response :: int where "at_error_invalid_response = - 6"

lemmas at_error_defs = at_error_generic_def at_error_command_pending_def
  at_error_channel_closed_def at_error_timeout_def at_error_invalid_thread_def
  at_error_invalid_response_def

text \<open>The loop \<open>while (cur < len)\<close>: what is still to be written, what was written.\<close>

fun write_loop :: "write_res list \<Rightarrow> string \<Rightarrow> string \<Rightarrow> writer \<times> string \<times> write_res list" where
  "write_loop env [] sent = (Done, sent, env)"
| "write_loop [] (c # cs) sent = (Blocked, sent, [])"
| "write_loop (WEintr # env) (c # cs) sent = write_loop env (c # cs) sent"
| "write_loop (WFail # env) (c # cs) sent = (Failed, sent, env)"
| "write_loop (Wrote n # env) (c # cs) sent =
     write_loop env (drop n (c # cs)) (sent @ take n (c # cs))"

text \<open>The single-byte loops after the string retry on \<open>EINTR\<close> and on 0.\<close>

fun write_byte :: "write_res list \<Rightarrow> char \<Rightarrow> string \<Rightarrow> writer \<times> string" where
  "write_byte [] b sent = (Blocked, sent)"
| "write_byte (WEintr # env) b sent = write_byte env b sent"
| "write_byte (WFail # env) b sent = (Failed, sent)"
| "write_byte (Wrote n # env) b sent = (if n = 0 then write_byte env b sent else (Done, sent @ [b]))"

definition writer_code :: "writer \<Rightarrow> int option" where
  "writer_code w = (case w of Done \<Rightarrow> Some 0 | Failed \<Rightarrow> Some at_error_generic | Blocked \<Rightarrow> None)"

definition cr :: char where "cr = CHR 0x0D"

text \<open>\<open>writeline\<close>: the return code (\<open>None\<close> when it has not returned) and the bytes sent.\<close>

definition writeline :: "write_res list \<Rightarrow> string \<Rightarrow> at_chan \<Rightarrow> int option \<times> string" where
  "writeline env s c =
     (if s_fd c < 0 \<or> s_readerClosed c then (Some at_error_channel_closed, [])
      else if length s < 63
      then (case write_loop env (s @ [cr]) [] of (w, sent, _) \<Rightarrow> (writer_code w, sent))
      else (case write_loop env s [] of
          (Done, sent, env') \<Rightarrow> (case write_byte env' cr sent of (w, sent') \<Rightarrow> (writer_code w, sent'))
        | (w, sent, _) \<Rightarrow> (writer_code w, sent)))"

definition writeCtrlZ :: "write_res list \<Rightarrow> string \<Rightarrow> at_chan \<Rightarrow> int option \<times> string" where
  "writeCtrlZ env s c =
     (if s_fd c < 0 \<or> s_readerClosed c then (Some at_error_channel_closed, [])
      else (case write_loop env s [] of
          (Done, sent, env') \<Rightarrow>
             (case write_byte env' (CHR 0x1A) sent of (w, sent') \<Rightarrow> (writer_code w, sent'))
        | (w, sent, _) \<Rightarrow> (writer_code w, sent)))"

section \<open>The command thread\<close>

definition clearPendingCommand :: "at_chan \<Rightarrow> at_chan" where
  "clearPendingCommand c = c\<lparr>sp_response := None, s_responsePrefix := [], s_smsPDU := None\<rparr>"

definition at_response_new :: at_response where
  "at_response_new = \<lparr>success = 0, finalResponse = None, p_intermediates = []\<rparr>"

fun rev_onto :: "string list \<Rightarrow> string list \<Rightarrow> string list" where
  "rev_onto [] acc = acc"
| "rev_onto (pcur # pnext) acc = rev_onto pnext (pcur # acc)"

definition reverseIntermediates :: "at_response \<Rightarrow> at_response" where
  "reverseIntermediates r = r\<lparr>p_intermediates := rev_onto (p_intermediates r) []\<rparr>"

text \<open>
  What happens while the command thread waits and the mutex is free: the reader thread
  processes a line or finds the channel closed, or another thread enters
  \<open>at_send_command_full_nolock\<close> and finds this command pending (lines 753-756 and the
  label \<open>error\<close>). A round is one call of \<open>pthread_cond_timeout_np\<close>: the events during it
  and whether it timed out.
\<close>

datatype rd_event = RdLine string | RdClosed | OtherCommand

definition rd_step :: "rd_event \<Rightarrow> at_chan \<Rightarrow> at_chan" where
  "rd_step e c = (case e of RdLine l \<Rightarrow> processLine l c | RdClosed \<Rightarrow> onReaderClosed c
     | OtherCommand \<Rightarrow> if sp_response c \<noteq> None then clearPendingCommand c else c)"

datatype wait_res = Woken | TimedOut | NullDeref | Waiting

fun wait_loop :: "int \<Rightarrow> (rd_event list \<times> bool) list \<Rightarrow> at_chan \<Rightarrow> wait_res \<times> at_chan" where
  "wait_loop t [] c = (case sp_response c of None \<Rightarrow> (NullDeref, c)
     | Some r \<Rightarrow> if finalResponse r \<noteq> None \<or> s_readerClosed c then (Woken, c) else (Waiting, c))"
| "wait_loop t ((evs, timedout) # rounds) c = (case sp_response c of None \<Rightarrow> (NullDeref, c)
     | Some r \<Rightarrow> if finalResponse r \<noteq> None \<or> s_readerClosed c then (Woken, c)
        else (let c' = fold rd_step evs (emit (CondWait t) c)
              in if timedout then (TimedOut, c') else wait_loop t rounds c'))"

datatype send_res = Returned int "at_response option" at_chan | Crashed | NotReturned

record at_env =
  env_write :: "write_res list"
  env_rounds :: "(rd_event list \<times> bool) list"

definition at_send_command_full_nolock ::
  "string option \<Rightarrow> ATCommandType \<Rightarrow> string \<Rightarrow> string option \<Rightarrow> int \<Rightarrow> bool \<Rightarrow> at_env \<Rightarrow> at_chan \<Rightarrow> send_res"
where
  "at_send_command_full_nolock command type responsePrefix smspdu timeoutMsec pp_out env c =
     (let t = (if timeoutMsec = 0 then 15000 else timeoutMsec) in
      if sp_response c \<noteq> None
      then Returned at_error_command_pending None (clearPendingCommand c)
      else (case (case command of None \<Rightarrow> Some 0 | Some s \<Rightarrow> fst (writeline (env_write env) s c)) of
        None \<Rightarrow> NotReturned
      | Some err \<Rightarrow>
          if err < 0 then Returned err None (clearPendingCommand c)
          else (case wait_loop t (env_rounds env)
                 (c\<lparr>s_type := type, s_responsePrefix := responsePrefix, s_smsPDU := smspdu,
                    sp_response := Some at_response_new\<rparr>) of
            (TimedOut, c') \<Rightarrow> Returned at_error_timeout None (clearPendingCommand c')
          | (Waiting, c') \<Rightarrow> NotReturned
          | (NullDeref, c') \<Rightarrow> Crashed
          | (Woken, c') \<Rightarrow>
              Returned (if s_readerClosed c' then at_error_channel_closed else 0)
                (if pp_out then map_option reverseIntermediates (sp_response c') else None)
                (clearPendingCommand (c'\<lparr>sp_response := None\<rparr>)))))"

definition at_send_command_full ::
  "bool \<Rightarrow> string option \<Rightarrow> ATCommandType \<Rightarrow> string \<Rightarrow> string option \<Rightarrow> int \<Rightarrow> bool \<Rightarrow> at_env \<Rightarrow> at_chan \<Rightarrow> send_res"
where
  "at_send_command_full in_reader command type responsePrefix smspdu timeoutMsec pp_out env c =
     (if in_reader then Returned at_error_invalid_thread None c
      else (case at_send_command_full_nolock command type responsePrefix smspdu timeoutMsec pp_out env c of
          Returned err r c' \<Rightarrow>
            Returned err r (if err = at_error_timeout \<and> s_onTimeout c' then emit OnTimeout c' else c')
        | x \<Rightarrow> x))"

definition at_send_command :: "bool \<Rightarrow> string \<Rightarrow> bool \<Rightarrow> at_env \<Rightarrow> at_chan \<Rightarrow> send_res" where
  "at_send_command ir command pp_out env c =
     at_send_command_full ir (Some command) NO_RESULT [] None 0 pp_out env c"

text \<open>The check that a successful command brought an intermediate response.\<close>

definition need_intermediate :: "send_res \<Rightarrow> send_res" where
  "need_intermediate x = (case x of
      Returned err (Some r) c \<Rightarrow>
        if err = 0 \<and> 0 < success r \<and> p_intermediates r = []
        then Returned at_error_invalid_response None c else x
    | _ \<Rightarrow> x)"

definition at_send_command_singleline ::
  "bool \<Rightarrow> string \<Rightarrow> string \<Rightarrow> bool \<Rightarrow> at_env \<Rightarrow> at_chan \<Rightarrow> send_res" where
  "at_send_command_singleline ir command responsePrefix pp_out env c =
     need_intermediate
       (at_send_command_full ir (Some command) SINGLELINE responsePrefix None 0 pp_out env c)"

definition at_send_command_numeric :: "bool \<Rightarrow> string \<Rightarrow> bool \<Rightarrow> at_env \<Rightarrow> at_chan \<Rightarrow> send_res" where
  "at_send_command_numeric ir command pp_out env c =
     need_intermediate (at_send_command_full ir (Some command) NUMERIC [] None 0 pp_out env c)"

definition at_send_command_sms ::
  "bool \<Rightarrow> string \<Rightarrow> string \<Rightarrow> string \<Rightarrow> bool \<Rightarrow> at_env \<Rightarrow> at_chan \<Rightarrow> send_res" where
  "at_send_command_sms ir command pdu responsePrefix pp_out env c =
     need_intermediate
       (at_send_command_full ir (Some command) SINGLELINE responsePrefix (Some pdu) 0 pp_out env c)"

definition at_send_command_multiline ::
  "bool \<Rightarrow> string \<Rightarrow> string \<Rightarrow> bool \<Rightarrow> at_env \<Rightarrow> at_chan \<Rightarrow> send_res" where
  "at_send_command_multiline ir command responsePrefix pp_out env c =
     at_send_command_full ir (Some command) MULTILINE responsePrefix None 0 pp_out env c"

definition at_send_command_raw ::
  "bool \<Rightarrow> string \<Rightarrow> string \<Rightarrow> string \<Rightarrow> bool \<Rightarrow> at_env \<Rightarrow> at_chan \<Rightarrow> send_res" where
  "at_send_command_raw ir command raw_data responsePrefix pp_out env c =
     at_send_command_full ir (Some command) SINGLELINE responsePrefix None 0 pp_out env
       (c\<lparr>s_raw_data := Some raw_data\<rparr>)"

text \<open>\<open>at_handshake\<close>: up to eight attempts, one environment per attempt.\<close>

fun handshake_loop :: "at_env list \<Rightarrow> int \<Rightarrow> at_chan \<Rightarrow> send_res" where
  "handshake_loop [] err c = Returned err None c"
| "handshake_loop (env # envs) err c =
     (case at_send_command_full_nolock (Some ''ATE0Q0V1'') NO_RESULT [] None 1000 False env c of
        Returned err' _ c' \<Rightarrow> if err' = 0 then Returned 0 None c' else handshake_loop envs err' c'
      | x \<Rightarrow> x)"

definition at_handshake :: "bool \<Rightarrow> at_env list \<Rightarrow> at_chan \<Rightarrow> send_res" where
  "at_handshake in_reader envs c =
     (if in_reader then Returned at_error_invalid_thread None c
      else handshake_loop (take 8 envs) 0 c)"

text \<open>\<open>at_get_cme_error\<close>; \<open>CME_ERROR_NON_CME\<close> is -1.\<close>

definition at_get_cme_error :: "at_response option \<Rightarrow> int" where
  "at_get_cme_error p = (case p of None \<Rightarrow> - 1
     | Some r \<Rightarrow> if 0 < success r then 0
        else (case finalResponse r of None \<Rightarrow> - 1
          | Some l \<Rightarrow> if \<not> strStartsWith l ''+CME ERROR:'' then - 1
             else (case at_tok_start (Some l) of (err, cur) \<Rightarrow>
               if err < 0 then - 1
               else (case at_tok_nextint cur of (err', _, v) \<Rightarrow>
                 if err' < 0 then - 1 else (case v of None \<Rightarrow> - 1 | Some ret \<Rightarrow> ret)))))"

section \<open>Lemmas on the writers\<close>

lemma write_loop_prefix:
  "write_loop env s sent = (w, res, env') \<Longrightarrow>
   prefix res (sent @ s) \<and> (w = Done \<longrightarrow> res = sent @ s)"
proof (induction env s sent arbitrary: w res env' rule: write_loop.induct)
  case (5 n env c cs sent)
  have "(sent @ take n (c # cs)) @ drop n (c # cs) = sent @ c # cs"
    by (metis append.assoc append_take_drop_id)
  with 5(1) [of w res env'] 5(2) show ?case by (metis write_loop.simps(5))
qed auto

lemma write_byte_prefix:
  "write_byte env b sent = (w, res) \<Longrightarrow>
   prefix res (sent @ [b]) \<and> (w = Done \<longrightarrow> res = sent @ [b])"
  by (induction env b sent arbitrary: w res rule: write_byte.induct) (auto split: if_splits)

lemma writer_code_0 [simp]: "writer_code w = Some 0 \<longleftrightarrow> w = Done"
  by (cases w) (simp_all add: writer_code_def at_error_defs)

lemma writeline_prefix:
  "case writeline env s c of (ret, sent) \<Rightarrow>
     prefix sent (s @ [cr]) \<and> (ret = Some 0 \<longrightarrow> sent = s @ [cr] \<and> 0 \<le> s_fd c \<and> \<not> s_readerClosed c)"
proof -
  obtain w sent env' where wl: "write_loop env (s @ [cr]) [] = (w, sent, env')" by (metis prod_cases3)
  obtain w1 sent1 env1 where wl1: "write_loop env s [] = (w1, sent1, env1)" by (metis prod_cases3)
  obtain w2 sent2 where wb: "write_byte env1 cr sent1 = (w2, sent2)" by fastforce
  note P = write_loop_prefix [OF wl] write_loop_prefix [OF wl1] write_byte_prefix [OF wb]
  have P1: "prefix sent1 (s @ [cr])" using P(2) by (simp add: prefix_prefix)
  have P2: "w1 = Done \<Longrightarrow> prefix sent2 (s @ [cr]) \<and> (w2 = Done \<longrightarrow> sent2 = s @ [cr])"
    using P(2,3) by simp
  show ?thesis
  proof (cases "s_fd c < 0 \<or> s_readerClosed c")
    case True
    then show ?thesis by (simp add: writeline_def at_error_defs)
  next
    case ready: False
    show ?thesis
    proof (cases "length s < 63")
      case True
      with ready P(1) show ?thesis by (simp add: writeline_def wl)
    next
      case False
      show ?thesis
        using ready False P1 P2 by (cases w1) (simp_all add: writeline_def wl1 wb)
    qed
  qed
qed

section \<open>Lemmas on the reader\<close>

lemma processLine_plain:
  "sp_response c = Some r \<Longrightarrow> \<not> isFinalResponseSuccess line \<Longrightarrow> \<not> isFinalResponseError line \<Longrightarrow>
   s_smsPDU c = None \<Longrightarrow> s_raw_data c = None \<Longrightarrow>
   processLine line c = (if matches c r line then c\<lparr>sp_response := Some (addIntermediate line r)\<rparr>
     else handleUnsolicited line c)"
  by (simp add: processLine_def)

lemma handleUnsolicited_frame [simp]:
  "sp_response (handleUnsolicited l c) = sp_response c"
  "s_type (handleUnsolicited l c) = s_type c"
  "s_responsePrefix (handleUnsolicited l c) = s_responsePrefix c"
  "s_smsPDU (handleUnsolicited l c) = s_smsPDU c"
  "s_raw_data (handleUnsolicited l c) = s_raw_data c"
  "s_readerClosed (handleUnsolicited l c) = s_readerClosed c"
  by (simp_all add: handleUnsolicited_def emit_def)

lemma proxyCopy_frame [simp]:
  "sp_response (proxyCopy l c) = sp_response c"
  "s_type (proxyCopy l c) = s_type c"
  "s_responsePrefix (proxyCopy l c) = s_responsePrefix c"
  "s_readerClosed (proxyCopy l c) = s_readerClosed c"
  by (simp_all add: proxyCopy_def)

lemma emit_frame [simp]:
  "sp_response (emit e c) = sp_response c" "s_type (emit e c) = s_type c"
  "s_responsePrefix (emit e c) = s_responsePrefix c" "s_smsPDU (emit e c) = s_smsPDU c"
  "s_raw_data (emit e c) = s_raw_data c" "s_readerClosed (emit e c) = s_readerClosed c"
  "s_fd (emit e c) = s_fd c" "s_onTimeout (emit e c) = s_onTimeout c"
  by (simp_all add: emit_def)

lemma clearPendingCommand_frame [simp]:
  "sp_response (clearPendingCommand c) = None" "s_readerClosed (clearPendingCommand c) = s_readerClosed c"
  by (simp_all add: clearPendingCommand_def)

lemma rev_onto_rev [simp]: "rev_onto xs acc = rev xs @ acc"
  by (induction xs arbitrary: acc) auto

text \<open>
  What the pending response may hold, by command type: the invariant that
  \<open>processLine\<close> keeps for \<open>ATCommandType\<close>'s documented meaning.
\<close>

definition response_ok :: "ATCommandType \<Rightarrow> string \<Rightarrow> at_response \<Rightarrow> bool" where
  "response_ok ty pre r = (case ty of
       NO_RESULT \<Rightarrow> p_intermediates r = []
     | NUMERIC \<Rightarrow> length (p_intermediates r) \<le> 1 \<and>
                  (\<forall>l \<in> set (p_intermediates r). l \<noteq> [] \<and> isdigit (hd l))
     | SINGLELINE \<Rightarrow> length (p_intermediates r) \<le> 1 \<and>
                  (\<forall>l \<in> set (p_intermediates r). strStartsWith l pre)
     | MULTILINE \<Rightarrow> (\<forall>l \<in> set (p_intermediates r). strStartsWith l pre))"

definition chan_inv :: "ATCommandType \<Rightarrow> string \<Rightarrow> at_chan \<Rightarrow> bool" where
  "chan_inv ty pre c = (case sp_response c of None \<Rightarrow> True
     | Some r \<Rightarrow> s_type c = ty \<and> s_responsePrefix c = pre \<and> response_ok ty pre r)"

lemma response_ok_add:
  "response_ok ty pre r \<Longrightarrow> s_type c = ty \<Longrightarrow> s_responsePrefix c = pre \<Longrightarrow> matches c r l \<Longrightarrow>
   response_ok ty pre (addIntermediate l r)"
  by (auto simp: response_ok_def matches_def addIntermediate_def split: ATCommandType.splits)

lemma response_ok_final [simp]:
  "response_ok ty pre (r\<lparr>success := s, finalResponse := f\<rparr>) = response_ok ty pre r"
  by (simp add: response_ok_def split: ATCommandType.splits)

lemma processLine_chan_inv: "chan_inv ty pre c \<Longrightarrow> chan_inv ty pre (processLine l c)"
  by (auto simp: chan_inv_def processLine_def handleFinalResponse_def response_ok_add
           split: option.splits bool.splits)

lemma chan_inv_emit [simp]: "chan_inv ty pre (emit e c) = chan_inv ty pre c"
  by (simp add: chan_inv_def split: option.splits)

lemma rd_step_chan_inv: "chan_inv ty pre c \<Longrightarrow> chan_inv ty pre (rd_step e c)"
proof (cases e)
  case (RdLine l)
  then show "chan_inv ty pre c \<Longrightarrow> ?thesis" by (simp add: rd_step_def processLine_chan_inv)
next
  case RdClosed
  then show "chan_inv ty pre c \<Longrightarrow> ?thesis"
    by (simp add: rd_step_def onReaderClosed_def chan_inv_def split: option.splits)
next
  case OtherCommand
  then show "chan_inv ty pre c \<Longrightarrow> ?thesis" by (simp add: rd_step_def chan_inv_def)
qed

interpretation reader: stepper rd_step "chan_inv ty pre"
  by unfold_locales (rule rd_step_chan_inv)

lemma wait_loop_chan_inv:
  "chan_inv ty pre c \<Longrightarrow> wait_loop t rounds c = (w, c') \<Longrightarrow> chan_inv ty pre c'"
proof (induction t rounds c rule: wait_loop.induct)
  case (1 t c)
  then show ?case by (auto split: option.splits if_splits)
next
  case (2 t evs timedout rounds c)
  let ?c = "fold rd_step evs (emit (CondWait t) c)"
  have c1: "chan_inv ty pre ?c" using 2(2) by (intro reader.run_inv) simp
  show ?case
  proof (cases "sp_response c")
    case None
    with 2(2,3) show ?thesis by simp
  next
    case (Some r)
    show ?thesis
    proof (cases "finalResponse r \<noteq> None \<or> s_readerClosed c \<or> timedout")
      case True
      with 2(2,3) Some c1 show ?thesis by (auto simp: Let_def split: if_splits)
    next
      case False
      with 2(3) Some have "wait_loop t rounds ?c = (w, c')" by (simp add: Let_def)
      with 2(1) [OF Some _ refl _ c1] False show ?thesis by simp
    qed
  qed
qed

lemma wait_loop_Woken:
  "wait_loop t rounds c = (Woken, c') \<Longrightarrow>
   \<exists>r. sp_response c' = Some r \<and> (finalResponse r \<noteq> None \<or> s_readerClosed c')"
  by (induction t rounds c rule: wait_loop.induct) (auto simp: Let_def split: option.splits if_splits)

section \<open>Collecting the lines of a reply\<close>

definition collecting :: "string \<Rightarrow> string list \<Rightarrow> at_chan \<Rightarrow> bool" where
  "collecting pre acc c = (s_type c = MULTILINE \<and> s_responsePrefix c = pre \<and> s_smsPDU c = None \<and>
     s_raw_data c = None \<and> \<not> s_readerClosed c \<and>
     sp_response c = Some \<lparr>success = 0, finalResponse = None, p_intermediates = acc\<rparr>)"

definition info_line :: "string \<Rightarrow> bool" where
  "info_line l = (\<not> isFinalResponseSuccess l \<and> \<not> isFinalResponseError l)"

lemma collecting_line:
  assumes "collecting pre acc c" "info_line l"
  shows "collecting pre (if strStartsWith l pre then l # acc else acc) (processLine l c)"
proof -
  from assms have "processLine l c = (if strStartsWith l pre
      then c\<lparr>sp_response := Some (addIntermediate l
             \<lparr>success = 0, finalResponse = None, p_intermediates = acc\<rparr>)\<rparr>
      else handleUnsolicited l c)"
    by (simp add: processLine_plain collecting_def info_line_def matches_def)
  with assms show ?thesis by (simp add: collecting_def addIntermediate_def)
qed

lemma collecting_lines:
  "collecting pre acc c \<Longrightarrow> \<forall>l \<in> set ls. info_line l \<Longrightarrow>
   collecting pre (rev (filter (\<lambda>l. strStartsWith l pre) ls) @ acc) (fold rd_step (map RdLine ls) c)"
proof (induction ls arbitrary: acc c)
  case (Cons l ls)
  from Cons.prems have "collecting pre (if strStartsWith l pre then l # acc else acc) (processLine l c)"
    by (intro collecting_line) auto
  from Cons.IH [OF this] Cons.prems show ?case
    by (simp add: rd_step_def split: if_splits)
qed simp

definition info_round :: "string list \<Rightarrow> rd_event list \<times> bool" where
  "info_round ls = (map RdLine ls, False)"

lemma collecting_rounds:
  "collecting pre acc c \<Longrightarrow> \<forall>ls \<in> set lss. \<forall>l \<in> set ls. info_line l \<Longrightarrow>
   \<exists>c'. collecting pre (rev (filter (\<lambda>l. strStartsWith l pre) (concat lss)) @ acc) c' \<and>
        wait_loop t (map info_round lss @ rounds) c = wait_loop t rounds c'"
proof (induction lss arbitrary: acc c)
  case Nil
  then show ?case by auto
next
  case (Cons ls lss)
  let ?c = "fold rd_step (map RdLine ls) (emit (CondWait t) c)"
  have "collecting pre acc (emit (CondWait t) c)" using Cons.prems(1) by (simp add: collecting_def)
  then have "collecting pre (rev (filter (\<lambda>l. strStartsWith l pre) ls) @ acc) ?c"
    using Cons.prems(2) by (intro collecting_lines) auto
  from Cons.IH [OF this] Cons.prems(2) obtain c' where c':
    "collecting pre (rev (filter (\<lambda>l. strStartsWith l pre) (concat (ls # lss))) @ acc) c'"
    "wait_loop t (map info_round lss @ rounds) ?c = wait_loop t rounds c'"
    by auto
  have "wait_loop t (map info_round (ls # lss) @ rounds) c = wait_loop t (map info_round lss @ rounds) ?c"
    using Cons.prems(1) by (simp add: collecting_def info_round_def Let_def)
  with c' show ?case by auto
qed

lemma collecting_final:
  assumes "collecting pre acc c" "\<forall>l \<in> set ls. info_line l" "isFinalResponseSuccess fin"
  shows "\<exists>c'. wait_loop t ((map RdLine (ls @ [fin]), False) # rounds) c = (Woken, c') \<and>
     \<not> s_readerClosed c' \<and>
     sp_response c' = Some \<lparr>success = 1, finalResponse = Some fin,
       p_intermediates = rev (filter (\<lambda>l. strStartsWith l pre) ls) @ acc\<rparr>"
proof -
  let ?c = "fold rd_step (map RdLine ls) (emit (CondWait t) c)"
  have "collecting pre acc (emit (CondWait t) c)" using assms(1) by (simp add: collecting_def)
  then have c1: "collecting pre (rev (filter (\<lambda>l. strStartsWith l pre) ls) @ acc) ?c"
    using assms(2) by (rule collecting_lines)
  have fold: "fold rd_step (map RdLine (ls @ [fin])) (emit (CondWait t) c) = processLine fin ?c"
    by (simp add: rd_step_def)
  have fin: "sp_response (processLine fin ?c) = Some \<lparr>success = 1, finalResponse = Some fin,
       p_intermediates = rev (filter (\<lambda>l. strStartsWith l pre) ls) @ acc\<rparr>"
    "\<not> s_readerClosed (processLine fin ?c)"
    using c1 assms(3) by (auto simp: collecting_def processLine_def handleFinalResponse_def)
  then have "wait_loop t rounds (processLine fin ?c) = (Woken, processLine fin ?c)"
    by (cases rounds) auto
  with fin assms(1) show ?thesis by (auto simp: collecting_def fold Let_def simp del: map_append fold_append)
qed

section \<open>Properties\<close>

text \<open>
  Property C26 (functional): a multi-line command on an open, idle channel returns 0 with
  exactly the lines that start with the given prefix, in the order in which the modem sent
  them, when the final response is a success. The lines may be spread over any number of
  waits of the command thread (the rounds \<open>lss\<close>) before the round that brings the final
  line. No command is pending afterwards.
\<close>

theorem at_send_command_multiline_reply:
  assumes idle: "sp_response c = None" "\<not> s_readerClosed c" "s_raw_data c = None"
    and wr: "fst (writeline (env_write env) command c) = Some 0"
    and env: "env_rounds env = map info_round lss @ (map RdLine (ls @ [fin]), False) # rounds"
    and info: "\<forall>ls \<in> set lss. \<forall>l \<in> set ls. info_line l" "\<forall>l \<in> set ls. info_line l"
    and fin: "isFinalResponseSuccess fin"
  shows "\<exists>c'. at_send_command_multiline False command pre True env c = Returned 0
      (Some \<lparr>success = 1, finalResponse = Some fin,
             p_intermediates = filter (\<lambda>l. strStartsWith l pre) (concat lss @ ls)\<rparr>) c'
    \<and> sp_response c' = None"
proof -
  let ?c = "c\<lparr>s_type := MULTILINE, s_responsePrefix := pre, s_smsPDU := None,
              sp_response := Some at_response_new\<rparr>"
  let ?f = "filter (\<lambda>l. strStartsWith l pre)"
  have "collecting pre [] ?c" using idle by (simp add: collecting_def at_response_new_def)
  from collecting_rounds [OF this info(1), of 15000 "(map RdLine (ls @ [fin]), False) # rounds"]
  obtain c1 where c1: "collecting pre (rev (?f (concat lss)) @ []) c1"
    "wait_loop 15000 (env_rounds env) ?c =
       wait_loop 15000 ((map RdLine (ls @ [fin]), False) # rounds) c1"
    unfolding env by blast
  from collecting_final [OF c1(1) info(2) fin, of 15000 rounds] obtain c2 where c2:
    "wait_loop 15000 ((map RdLine (ls @ [fin]), False) # rounds) c1 = (Woken, c2)"
    "\<not> s_readerClosed c2"
    "sp_response c2 = Some \<lparr>success = 1, finalResponse = Some fin,
       p_intermediates = rev (?f ls) @ rev (?f (concat lss)) @ []\<rparr>"
    by blast
  then show ?thesis
    using idle wr c1(2)
    by (simp add: at_send_command_multiline_def at_send_command_full_def Let_def at_error_defs
        at_send_command_full_nolock_def reverseIntermediates_def)
qed

definition chan0 :: at_chan where
  "chan0 = \<lparr>s_fd = 5, s_atc_proxy = False, s_unsolHandler = True, s_type = NO_RESULT,
     s_responsePrefix = [], s_smsPDU = None, s_raw_data = None, sp_response = None,
     s_readerClosed = False, s_onTimeout = False, s_onReaderClosed = False, out = []\<rparr>"

lemma at_send_command_multiline_reply_witness:
  "\<exists>c'. at_send_command_multiline False ''AT+CGACT?'' ''+CGACT:'' True
      \<lparr>env_write = [Wrote 4, WEintr, Wrote 100],
       env_rounds = map info_round [[''+CGACT: 1,1'', ''RING'']] @
         (map RdLine ([''+CGACT: 2,0''] @ [''OK'']), False) # []\<rparr> chan0 =
    Returned 0 (Some \<lparr>success = 1, finalResponse = Some ''OK'',
      p_intermediates = filter (\<lambda>l. strStartsWith l ''+CGACT:'')
        (concat [[''+CGACT: 1,1'', ''RING'']] @ [''+CGACT: 2,0''])\<rparr>) c' \<and> sp_response c' = None"
  by (rule at_send_command_multiline_reply [where lss = "[[''+CGACT: 1,1'', ''RING'']]"
        and rounds = "[]" and env = "\<lparr>env_write = [Wrote 4, WEintr, Wrote 100],
       env_rounds = map info_round [[''+CGACT: 1,1'', ''RING'']] @
         (map RdLine ([''+CGACT: 2,0''] @ [''OK'']), False) # []\<rparr>"])
     (simp_all add: chan0_def writeline_def writer_code_def cr_def info_line_def
        isFinalResponseSuccess_def isFinalResponseError_def s_finalResponsesSuccess_def
        s_finalResponsesError_def)

text \<open>
  Whatever the reader thread receives while a single-line command
  waits, a call that returns 0 with a successful response returns exactly one intermediate
  line, and that line starts with the requested prefix.
\<close>

theorem at_send_command_singleline_one_line:
  assumes ret: "at_send_command_singleline ir command pre True env c = Returned 0 (Some r) c'"
    and succ: "0 < success r"
  shows "\<exists>l. p_intermediates r = [l] \<and> strStartsWith l pre"
proof -
  obtain x where x: "at_send_command_full ir (Some command) SINGLELINE pre None 0 True env c = x"
    by blast
  from ret x have x1: "x = Returned 0 (Some r) c'" and ne: "p_intermediates r \<noteq> []"
    using succ by (auto simp: at_send_command_singleline_def need_intermediate_def at_error_defs
        split: send_res.splits option.splits if_splits)
  let ?c = "c\<lparr>s_type := SINGLELINE, s_responsePrefix := pre, s_smsPDU := None,
              sp_response := Some at_response_new\<rparr>"
  have inv: "chan_inv SINGLELINE pre ?c"
    by (simp add: chan_inv_def response_ok_def at_response_new_def)
  from x x1 obtain c2 r2 where w: "wait_loop 15000 (env_rounds env) ?c = (Woken, c2)"
    and r2: "sp_response c2 = Some r2" "r = reverseIntermediates r2"
    by (auto simp: at_send_command_full_def at_send_command_full_nolock_def Let_def at_error_defs
        split: send_res.splits option.splits if_splits prod.splits wait_res.splits)
  from wait_loop_chan_inv [OF inv w] r2 have "response_ok SINGLELINE pre r"
    by (auto simp: chan_inv_def response_ok_def reverseIntermediates_def)
  with ne show ?thesis by (cases "p_intermediates r") (auto simp: response_ok_def)
qed

lemma at_send_command_singleline_one_line_witness:
  "\<exists>l. p_intermediates \<lparr>success = 1, finalResponse = Some ''OK'', p_intermediates = [''+CPIN: READY'']\<rparr> = [l]
     \<and> strStartsWith l ''+CPIN:''"
proof -
  have "\<exists>c'. at_send_command_singleline False ''AT+CPIN?'' ''+CPIN:'' True
      \<lparr>env_write = [Wrote 100], env_rounds = [(map RdLine [''+CPIN: READY'', ''OK''], False)]\<rparr> chan0 =
    Returned 0 (Some \<lparr>success = 1, finalResponse = Some ''OK'', p_intermediates = [''+CPIN: READY'']\<rparr>) c'"
    by (simp add: at_send_command_singleline_def need_intermediate_def at_send_command_full_def
        at_send_command_full_nolock_def Let_def chan0_def writeline_def writer_code_def cr_def
        rd_step_def processLine_def emit_def isFinalResponseSuccess_def isFinalResponseError_def
        s_finalResponsesSuccess_def s_finalResponsesError_def at_error_defs matches_def
        addIntermediate_def at_response_new_def handleFinalResponse_def proxyCopy_def
        reverseIntermediates_def)
  then show ?thesis
    using at_send_command_singleline_one_line [of False "''AT+CPIN?''" "''+CPIN:''"] by fastforce
qed

text \<open>
  \<open>writeline\<close> never sends anything but a prefix of the command
  followed by one carriage return, whatever the partial writes, interruptions and
  failures of \<open>write\<close>, for commands below and above the 64-byte static buffer; when it
  returns 0 the whole command and the carriage return were sent.
\<close>

theorem writeline_sends_command:
  assumes "writeline env s c = (ret, sent)"
  shows "prefix sent (s @ [cr]) \<and>
    (ret = Some 0 \<longrightarrow> sent = s @ [cr] \<and> 0 \<le> s_fd c \<and> \<not> s_readerClosed c)"
proof -
  obtain x y where "writeline env s c = (x, y)" and "prefix y (s @ [cr]) \<and>
      (x = Some 0 \<longrightarrow> y = s @ [cr] \<and> 0 \<le> s_fd c \<and> \<not> s_readerClosed c)"
    using writeline_prefix [where env = env and s = s and c = c] by fastforce
  with assms show ?thesis by simp
qed


lemma writeline_sends_command_witness:
  "\<exists>sent. writeline [Wrote 2, WEintr, Wrote 9] ''AT+CSQ'' chan0 = (Some 0, sent) \<and>
     sent = ''AT+CSQ'' @ [cr]"
proof -
  obtain sent where "writeline [Wrote 2, WEintr, Wrote 9] ''AT+CSQ'' chan0 = (Some 0, sent)"
    by (simp add: writeline_def chan0_def writer_code_def)
  from this writeline_sends_command [OF this] show ?thesis by simp
qed

text \<open>
  A command issued while another one is pending is refused with
  \<open>AT_ERROR_COMMAND_PENDING\<close>, but the error path also clears the pending command: its
  response is freed, so the thread that waits for it dereferences a null \<open>sp_response\<close> as
  soon as it wakes up.
\<close>

theorem pending_command_is_destroyed:
  assumes "sp_response c = Some r" "finalResponse r = None" "\<not> s_readerClosed c"
  shows "at_send_command_full_nolock command ty pre pdu ms pp env c =
           Returned at_error_command_pending None (clearPendingCommand c) \<and>
         sp_response (clearPendingCommand c) = None \<and>
         fst (wait_loop t (([OtherCommand], False) # rounds) c) = NullDeref"
proof -
  have refused: "at_send_command_full_nolock command ty pre pdu ms pp env c =
           Returned at_error_command_pending None (clearPendingCommand c)"
    using assms by (simp add: at_send_command_full_nolock_def)
  have "fst (wait_loop t rounds (clearPendingCommand c')) = NullDeref" for c'
    by (cases rounds) auto
  then have "sp_response (clearPendingCommand c) = None \<and>
         fst (wait_loop t (([OtherCommand], False) # rounds) c) = NullDeref"
    using assms by (simp add: Let_def rd_step_def)
  with refused show ?thesis by blast
qed

lemma pending_command_is_destroyed_witness:
  "at_send_command_full_nolock (Some ''AT'') NO_RESULT [] None 0 False
      \<lparr>env_write = [], env_rounds = []\<rparr> (chan0\<lparr>sp_response := Some at_response_new\<rparr>) =
    Returned at_error_command_pending None (clearPendingCommand (chan0\<lparr>sp_response := Some at_response_new\<rparr>)) \<and>
   sp_response (clearPendingCommand (chan0\<lparr>sp_response := Some at_response_new\<rparr>)) = None \<and>
   fst (wait_loop 15000 (([OtherCommand], False) # [])
     (chan0\<lparr>sp_response := Some at_response_new\<rparr>)) = NullDeref"
  by (rule pending_command_is_destroyed [where r = at_response_new])
     (simp_all add: at_response_new_def chan0_def)

text \<open>
  The command functions leave no command behind. Whenever
  \<open>at_send_command_full_nolock\<close> returns, with any code, no response is pending, the prefix
  is cleared and no SMS body is left, so the next command is accepted.
\<close>

theorem at_send_leaves_channel_idle:
  assumes "at_send_command_full_nolock command ty pre pdu ms pp env c = Returned err r c'"
  shows "sp_response c' = None \<and> s_responsePrefix c' = [] \<and> s_smsPDU c' = None"
  using assms
  by (auto simp: at_send_command_full_nolock_def Let_def clearPendingCommand_def
      split: option.splits if_splits prod.splits wait_res.splits)

lemma at_send_leaves_channel_idle_witness:
  "\<exists>c'. at_send_command_full_nolock (Some ''AT'') NO_RESULT ''x'' None 0 False
      \<lparr>env_write = [WFail], env_rounds = []\<rparr> chan0 = Returned (- 1) None c' \<and>
     sp_response c' = None \<and> s_responsePrefix c' = [] \<and> s_smsPDU c' = None"
proof -
  have "\<exists>c'. at_send_command_full_nolock (Some ''AT'') NO_RESULT ''x'' None 0 False
      \<lparr>env_write = [WFail], env_rounds = []\<rparr> chan0 = Returned (- 1) None c'"
    by (simp add: at_send_command_full_nolock_def Let_def chan0_def writeline_def writer_code_def
        cr_def at_error_defs)
  with at_send_leaves_channel_idle show ?thesis by blast
qed

text \<open>
  \<open>at_get_cme_error\<close> recovers the code of a final response
  \<open>+CME ERROR: n\<close> for every 32-bit \<open>n\<close>, and answers \<open>CME_ERROR_NON_CME\<close> (-1) for a failed
  response with any other final line.
\<close>

theorem at_get_cme_error_code:
  assumes "success r \<le> 0" "finalResponse r = Some l"
    and "l = ''+CME ERROR: '' @ dec_int n \<and> in_int_range n \<or> \<not> strStartsWith l ''+CME ERROR:'' \<and> n = - 1"
  shows "at_get_cme_error (Some r) = n"
  using assms(3)
proof (elim disjE conjE)
  assume l: "l = ''+CME ERROR: '' @ dec_int n" and n: "in_int_range n"
  have "at_tok_nextint (Some (CHR '' '' # dec_int n)) = at_tok_nextint (Some (dec_int n))"
    by (simp add: at_tok_nextint_def at_tok_nextint_base_def nextTok_def skipWhiteSpace_def isspace_def)
  with l assms(1,2) nextint_dec_int(2) [OF n] show "at_get_cme_error (Some r) = n"
    by (simp add: at_get_cme_error_def at_tok_start_def strchr_def)
next
  assume "\<not> strStartsWith l ''+CME ERROR:''" "n = - 1"
  with assms(1,2) show "at_get_cme_error (Some r) = n" by (simp add: at_get_cme_error_def)
qed

lemma at_get_cme_error_code_witness:
  "at_get_cme_error (Some \<lparr>success = 0, finalResponse = Some (''+CME ERROR: '' @ dec_int 10),
      p_intermediates = []\<rparr>) = 10"
  by (rule at_get_cme_error_code [OF _ _ disjI1]) (simp_all add: in_int_range_def)

end
