(* ===== verification/AtReader.thy ===== *)
theory AtReader
  imports AtChannel
begin

text \<open>
  The reader thread of the AT channel (\<open>atchannel.c\<close>): \<open>readline\<close> splits the bytes of the
  modem into lines in a fixed buffer, \<open>readerLoop\<close> hands the lines to \<open>processLine\<close>, and
  \<open>writeraw\<close> is the writer of binary data. The buffer is kept as the array it is, with the
  position of the next character; a read or write outside of it is \<open>None\<close>.

  The main results: \<open>readline\<close> returns the next non-empty line however the modem's bytes
  were cut into reads, the loop terminates when the channel ends, and what it does to the
  channel is what \<open>processLine\<close> does to the lines of the stream.
\<close>

section \<open>The line buffer\<close>

definition MAX_AT_RESPONSE :: nat where "MAX_AT_RESPONSE = 4096"

definition nul :: char where "nul = CHR 0x00"
definition lf :: char where "lf = CHR 0x0A"

record line_buf =
  s_ATBuffer :: string
  s_ATBufferCur :: nat

definition newline :: "char \<Rightarrow> bool" where
  "newline c \<longleftrightarrow> c = cr \<or> c = lf"

text \<open>\<open>while (*cur == '\r' || *cur == '\n') cur++\<close> from index \<open>i\<close>.\<close>

definition skip_newlines :: "string \<Rightarrow> nat \<Rightarrow> nat option" where
  "skip_newlines b i = (let j = i + length (takeWhile newline (drop i b)) in if j < length b then Some j else None)"

definition findNextEOL :: "string \<Rightarrow> nat \<Rightarrow> nat option option" where
  "findNextEOL b i =
     (if take 3 (drop i b) = ''> '' @ [nul] then Some (Some (i + 2))
      else let j = i + length (takeWhile (\<lambda>c. c \<noteq> nul \<and> \<not> newline c) (drop i b)) in
        if j < length b then Some (if b ! j = nul then None else Some j) else None)"

text \<open>Stores into the array, and \<open>strlen\<close>.\<close>

definition put :: "nat \<Rightarrow> string \<Rightarrow> string \<Rightarrow> string option" where
  "put i s b = (if i + length s \<le> length b then Some (take i b @ s @ drop (i + length s) b) else None)"

definition strlen :: "string \<Rightarrow> nat \<Rightarrow> nat option" where
  "strlen b i = (let j = i + length (takeWhile (\<lambda>c. c \<noteq> nul) (drop i b)) in if j < length b then Some (j - i) else None)"

section \<open>\<open>readline\<close>\<close>

text \<open>
  The results of successive reads: bytes, at most as many as there is room for, or the end
  of the channel (end of file, an error, or the descriptor was closed). Interrupted calls
  are repeated. A call that uses up the list is still waiting.
\<close>

datatype read_res = Data string | ReadEnd

datatype line_res = Line string | NoLine | Waits

text \<open>A full line is in the buffer: a NUL replaces its end.\<close>

definition take_line :: "nat \<Rightarrow> line_buf \<Rightarrow> (line_res \<times> line_buf) option" where
  "take_line p_eol st = do {
     b \<leftarrow> put p_eol [nul] (s_ATBuffer st);
     Some (Line (take (p_eol - s_ATBufferCur st) (drop (s_ATBufferCur st) b)),
       st\<lparr>s_ATBuffer := b, s_ATBufferCur := p_eol + 1\<rparr>) }"

text \<open>The start of the read: position of the line end, if there is one, and of the read.\<close>

definition readline_start :: "line_buf \<Rightarrow> (nat option \<times> nat \<times> line_buf) option" where
  "readline_start st = (let b = s_ATBuffer st; cur = s_ATBufferCur st in
     if length b \<le> cur then None
     else if b ! cur = nul then do {
       b \<leftarrow> put 0 [nul] b;
       Some (None, 0, st\<lparr>s_ATBuffer := b, s_ATBufferCur := 0\<rparr>) }
     else do {
       cur \<leftarrow> skip_newlines b cur;
       eol \<leftarrow> findNextEOL b cur;
       (case eol of Some e \<Rightarrow> Some (Some e, 0, st\<lparr>s_ATBufferCur := cur\<rparr>)
        | None \<Rightarrow> do {
            len \<leftarrow> strlen b cur;
            b \<leftarrow> put 0 (take (len + 1) (drop cur b)) b;
            Some (None, len, st\<lparr>s_ATBuffer := b, s_ATBufferCur := 0\<rparr>) }) })"

fun read_loop :: "read_res list \<Rightarrow> nat \<Rightarrow> line_buf \<Rightarrow> (line_res \<times> line_buf \<times> read_res list) option" where
  "read_loop [] p_read st = Some (Waits, st, [])"
| "read_loop (r # env) p_read st = do {
     (p_read, st) \<leftarrow> (if MAX_AT_RESPONSE - p_read = 0 then do {
          b \<leftarrow> put 0 [nul] (s_ATBuffer st);
          Some (0, st\<lparr>s_ATBuffer := b, s_ATBufferCur := 0\<rparr>) }
        else Some (p_read, st));
     (case r of ReadEnd \<Rightarrow> Some (NoLine, st, env)
      | Data s \<Rightarrow> do {
          b \<leftarrow> put p_read s (s_ATBuffer st);
          b \<leftarrow> put (p_read + length s) [nul] b;
          cur \<leftarrow> skip_newlines b (s_ATBufferCur st);
          eol \<leftarrow> findNextEOL b cur;
          let st = st\<lparr>s_ATBuffer := b, s_ATBufferCur := cur\<rparr>;
          (case eol of None \<Rightarrow> read_loop env (p_read + length s) st
           | Some e \<Rightarrow> do { (l, st) \<leftarrow> take_line e st; Some (l, st, env) }) }) }"

definition readline :: "read_res list \<Rightarrow> line_buf \<Rightarrow> (line_res \<times> line_buf \<times> read_res list) option" where
  "readline env st = do {
     (eol, p_read, st) \<leftarrow> readline_start st;
     (case eol of Some e \<Rightarrow> do { (l, st) \<leftarrow> take_line e st; Some (l, st, env) }
      | None \<Rightarrow> read_loop env p_read st) }"

section \<open>Progress of \<open>readline\<close>\<close>

lemma put_length: "put i s b = Some b' \<Longrightarrow> length b' = length b \<and> i + length s \<le> length b"
  by (auto simp: put_def split: if_splits)

lemma skip_newlines_ge: "skip_newlines b i = Some j \<Longrightarrow> i \<le> j \<and> j < length b"
  by (auto simp: skip_newlines_def Let_def split: if_splits)

lemma findNextEOL_ge: "findNextEOL b i = Some (Some j) \<Longrightarrow> i \<le> j"
  by (auto simp: findNextEOL_def Let_def split: if_splits)

lemma take_line_progress:
  "take_line e st = Some (l, st') \<Longrightarrow> length (s_ATBuffer st') = length (s_ATBuffer st) \<and>
     s_ATBufferCur st' = e + 1 \<and> e < length (s_ATBuffer st)"
  by (auto simp: take_line_def bind_eq_Some_conv dest: put_length)

lemma read_loop_progress:
  "read_loop env p st = Some (l, st', env') \<Longrightarrow> length env' < length env \<or> l = Waits"
proof (induction env arbitrary: p st)
  case (Cons r env)
  show ?case
  proof (cases r)
    case ReadEnd
    with Cons.prems show ?thesis by (auto simp: bind_eq_Some_conv)
  next
    case (Data s)
    with Cons.prems obtain p1 st1 eol where
      "(case eol of None \<Rightarrow> read_loop env p1 st1 | Some e \<Rightarrow> do { (l, st) \<leftarrow> take_line e st1; Some (l, st, env) })
        = Some (l, st', env')"
      by (auto simp: bind_eq_Some_conv Let_def)
    then show ?thesis
    proof (cases eol)
      case None
      with \<open>(case eol of None \<Rightarrow> _ | Some e \<Rightarrow> _ e) = _\<close> have "read_loop env p1 st1 = Some (l, st', env')" by simp
      from Cons.IH [OF this] show ?thesis by auto
    qed (auto simp: bind_eq_Some_conv)
  qed
qed simp

lemma readline_start_line:
  assumes "readline_start st = Some (Some e, p, st1)"
  shows "\<exists>cur. skip_newlines (s_ATBuffer st) (s_ATBufferCur st) = Some cur \<and>
    findNextEOL (s_ATBuffer st) cur = Some (Some e) \<and> s_ATBuffer st1 = s_ATBuffer st"
proof -
  have "s_ATBuffer st ! s_ATBufferCur st \<noteq> nul" "\<not> length (s_ATBuffer st) \<le> s_ATBufferCur st"
    using assms by (auto simp: readline_start_def Let_def bind_eq_Some_conv split: if_splits)
  with assms obtain cur eol where c: "skip_newlines (s_ATBuffer st) (s_ATBufferCur st) = Some cur"
    "findNextEOL (s_ATBuffer st) cur = Some eol"
    "(case eol of Some e \<Rightarrow> Some (Some e, 0, st\<lparr>s_ATBufferCur := cur\<rparr>)
      | None \<Rightarrow> do { len \<leftarrow> strlen (s_ATBuffer st) cur;
                  b \<leftarrow> put 0 (take (Suc len) (drop cur (s_ATBuffer st))) (s_ATBuffer st);
                  Some (None, len, st\<lparr>s_ATBuffer := b, s_ATBufferCur := 0\<rparr>) }) = Some (Some e, p, st1)"
    by (auto simp: readline_start_def Let_def bind_eq_Some_conv)
  then show ?thesis by (cases eol) (auto simp: bind_eq_Some_conv)
qed

text \<open>A returned line has used up a read or characters of the buffer.\<close>

lemma readline_progress:
  assumes "readline env st = Some (Line l, st', env')"
  shows "length env' < length env \<or>
    length env' = length env \<and> length (s_ATBuffer st') - s_ATBufferCur st' < length (s_ATBuffer st) - s_ATBufferCur st"
proof -
  from assms obtain eol p st1 where start: "readline_start st = Some (eol, p, st1)" and
    rest: "(case eol of Some e \<Rightarrow> do { (l, st) \<leftarrow> take_line e st1; Some (l, st, env) } | None \<Rightarrow> read_loop env p st1)
      = Some (Line l, st', env')"
    by (auto simp: readline_def bind_eq_Some_conv)
  show ?thesis
  proof (cases eol)
    case None
    with rest show ?thesis by (auto dest: read_loop_progress)
  next
    case (Some e)
    with rest have t: "take_line e st1 = Some (Line l, st')" "env' = env" by (auto simp: bind_eq_Some_conv)
    from readline_start_line [OF start [unfolded Some]] obtain cur where
      c: "skip_newlines (s_ATBuffer st) (s_ATBufferCur st) = Some cur" "findNextEOL (s_ATBuffer st) cur = Some (Some e)"
        "s_ATBuffer st1 = s_ATBuffer st" by blast
    have "s_ATBufferCur st < e + 1" using skip_newlines_ge [OF c(1)] findNextEOL_ge [OF c(2)] by linarith
    with take_line_progress [OF t(1)] t(2) c(3) show ?thesis
      by (simp add: diff_less_mono2)
  qed
qed

section \<open>\<open>readerLoop\<close>\<close>

text \<open>
  The loop ends with the channel (\<open>ReaderDone\<close>) or waits for more bytes. Between two lines
  of an unsolicited short message nothing else is processed.
\<close>

datatype reader_res = ReaderDone at_chan | ReaderWaits at_chan

function (sequential) readerLoop :: "read_res list \<Rightarrow> line_buf \<Rightarrow> at_chan \<Rightarrow> reader_res option" where
  "readerLoop env st c = (case readline env st of
       None \<Rightarrow> None
     | Some (Waits, st1, env1) \<Rightarrow> Some (ReaderWaits c)
     | Some (NoLine, st1, env1) \<Rightarrow> Some (ReaderDone (onReaderClosed c))
     | Some (Line line, st1, env1) \<Rightarrow>
         if isSMSUnsolicited line then
           (case readline env1 st1 of
              None \<Rightarrow> None
            | Some (Waits, st2, env2) \<Rightarrow> Some (ReaderWaits c)
            | Some (NoLine, st2, env2) \<Rightarrow> Some (ReaderDone (onReaderClosed c))
            | Some (Line line2, st2, env2) \<Rightarrow>
                readerLoop env2 st2 (if s_unsolHandler c then emit (UnsolSms line line2) c else c))
         else readerLoop env1 st1 (processLine line c))"
  by pat_completeness auto
termination
  by (relation "measures [\<lambda>(env, st, c). length env, \<lambda>(env, st, c). length (s_ATBuffer st) - s_ATBufferCur st]")
    (auto dest!: readline_progress)

declare readerLoop.simps [simp del]

section \<open>\<open>writeraw\<close>\<close>

text \<open>
  Each turn polls and writes; a failed \<open>poll\<close> leaves the loop. \<open>written\<close> is read after the
  loop also when nothing was written (\<open>RawUninit\<close>).
\<close>

datatype raw_res = PollFailed | WroteRaw write_res

datatype raw_out = RawReturned int string | RawBlocked | RawUninit

fun raw_loop :: "raw_res list \<Rightarrow> string \<Rightarrow> string \<Rightarrow> bool \<Rightarrow> raw_out" where
  "raw_loop env [] sent init = (if init then RawReturned (int (length sent)) sent else RawUninit)"
| "raw_loop [] (x # s) sent init = RawBlocked"
| "raw_loop (PollFailed # env) (x # s) sent init = (if init then RawReturned (int (length sent)) sent else RawUninit)"
| "raw_loop (WroteRaw WEintr # env) (x # s) sent init = raw_loop env (x # s) sent init"
| "raw_loop (WroteRaw WFail # env) (x # s) sent init = RawReturned at_error_generic sent"
| "raw_loop (WroteRaw (Wrote n) # env) (x # s) sent init = raw_loop env (drop n (x # s)) (sent @ take n (x # s)) True"

definition writeraw :: "raw_res list \<Rightarrow> string \<Rightarrow> at_chan \<Rightarrow> raw_out" where
  "writeraw env s c =
     (if s_fd c < 0 \<or> s_readerClosed c then RawReturned at_error_channel_closed []
      else raw_loop env s [] False)"

section \<open>The reference: lines of a stream\<close>

text \<open>The first complete non-empty line of a text and what follows its end.\<close>

definition next_line :: "string \<Rightarrow> (string \<times> string) option" where
  "next_line s = (let t = dropWhile newline s in
     if list_ex newline t then Some (takeWhile (\<lambda>c. \<not> newline c) t, tl (dropWhile (\<lambda>c. \<not> newline c) t)) else None)"

lemma next_line_shorter: "next_line s = Some (l, r) \<Longrightarrow> length r < length s"
proof -
  assume "next_line s = Some (l, r)"
  then have r: "r = tl (dropWhile (\<lambda>c. \<not> newline c) (dropWhile newline s))" "list_ex newline (dropWhile newline s)"
    by (auto simp: next_line_def Let_def split: if_splits)
  then have "dropWhile (\<lambda>c. \<not> newline c) (dropWhile newline s) \<noteq> []" by (auto simp: list_ex_iff)
  with r(1) show ?thesis
    using length_dropWhile_le [of "\<lambda>c. \<not> newline c" "dropWhile newline s"] length_dropWhile_le [of newline s]
    by (cases "dropWhile (\<lambda>c. \<not> newline c) (dropWhile newline s)") auto
qed

text \<open>All complete lines of a text and the rest after the last of them.\<close>

function all_lines :: "string \<Rightarrow> string list \<times> string" where
  "all_lines s = (case next_line s of None \<Rightarrow> ([], s)
     | Some (l, r) \<Rightarrow> (case all_lines r of (ls, u) \<Rightarrow> (l # ls, u)))"
  by pat_completeness auto
termination by (relation "measure length") (auto dest: next_line_shorter)

declare all_lines.simps [simp del]

lemma next_line_None: "next_line s = None \<longleftrightarrow> \<not> list_ex newline (dropWhile newline s)"
  by (simp add: next_line_def Let_def)

lemma dropWhile_skip: "dropWhile newline (dropWhile newline s @ t) = dropWhile newline (s @ t)"
  by (induction s) auto

lemma next_line_skip: "next_line (dropWhile newline s @ t) = next_line (s @ t)"
  by (simp add: next_line_def dropWhile_skip)

lemma next_line_append: "next_line s = Some (l, r) \<Longrightarrow> next_line (s @ t) = Some (l, r @ t)"
proof -
  assume "next_line s = Some (l, r)"
  then have l: "l = takeWhile (\<lambda>c. \<not> newline c) (dropWhile newline s)"
    "r = tl (dropWhile (\<lambda>c. \<not> newline c) (dropWhile newline s))" and ex: "list_ex newline (dropWhile newline s)"
    by (auto simp: next_line_def Let_def split: if_splits)
  have "dropWhile newline (s @ t) = dropWhile newline s @ t"
    using ex by (induction s) auto
  moreover have "takeWhile (\<lambda>c. \<not> newline c) (u @ t) = takeWhile (\<lambda>c. \<not> newline c) u \<and>
    tl (dropWhile (\<lambda>c. \<not> newline c) (u @ t)) = tl (dropWhile (\<lambda>c. \<not> newline c) u) @ t" if "list_ex newline u" for u
    using that by (induction u) auto
  ultimately show ?thesis using l ex by (simp add: next_line_def list_ex_append)
qed

lemma next_line_prefix: "next_line (s @ t) = None \<Longrightarrow> next_line s = None"
  using next_line_append by (cases "next_line s") fastforce+

lemma all_lines_next: "next_line s = Some (l, r) \<Longrightarrow> all_lines s = (l # fst (all_lines r), snd (all_lines r))"
  by (subst all_lines.simps) (simp split: prod.split)

lemma all_lines_None: "next_line s = None \<Longrightarrow> all_lines s = ([], s)"
  by (subst all_lines.simps) simp

text \<open>What the reader does with the lines of a stream.\<close>

fun handle_lines :: "string list \<Rightarrow> at_chan \<Rightarrow> at_chan" where
  "handle_lines [] c = c"
| "handle_lines (l # ls) c = (if isSMSUnsolicited l
     then (case ls of [] \<Rightarrow> c | l2 # ls2 \<Rightarrow> handle_lines ls2 (if s_unsolHandler c then emit (UnsolSms l l2) c else c))
     else handle_lines ls (processLine l c))"

section \<open>What the buffer holds\<close>

text \<open>The characters from the current position to the next NUL are still to be split.\<close>

definition holds :: "string \<Rightarrow> line_buf \<Rightarrow> bool" where
  "holds t st \<longleftrightarrow> (\<exists>pre post. s_ATBuffer st = pre @ t @ nul # post \<and> length pre = s_ATBufferCur st) \<and>
     nul \<notin> set t \<and> length (s_ATBuffer st) = MAX_AT_RESPONSE"

lemma newline_nul [simp]: "\<not> newline nul"
  by (simp add: newline_def nul_def cr_def lf_def)

lemma holdsE:
  assumes "holds t st"
  obtains pre post where "s_ATBuffer st = pre @ t @ nul # post" "length pre = s_ATBufferCur st" "nul \<notin> set t"
    "length (pre @ t @ nul # post) = MAX_AT_RESPONSE"
proof -
  from assms obtain pre post where h: "s_ATBuffer st = pre @ t @ nul # post" "length pre = s_ATBufferCur st"
    "nul \<notin> set t" "length (s_ATBuffer st) = MAX_AT_RESPONSE"
    unfolding holds_def by blast
  from h(4) have "length (pre @ t @ nul # post) = MAX_AT_RESPONSE" by (simp only: h(1))
  with h(1-3) that show thesis by blast
qed

lemma holdsI:
  "s_ATBuffer st = pre @ t @ nul # post \<Longrightarrow> length pre = s_ATBufferCur st \<Longrightarrow> nul \<notin> set t \<Longrightarrow>
     length (pre @ t @ nul # post) = MAX_AT_RESPONSE \<Longrightarrow> holds t st"
  unfolding holds_def by auto

lemma skip_newlines_holds:
  assumes "holds t st"
  shows "skip_newlines (s_ATBuffer st) (s_ATBufferCur st) = Some (s_ATBufferCur st + length (takeWhile newline t))"
    "holds (dropWhile newline t) (st\<lparr>s_ATBufferCur := s_ATBufferCur st + length (takeWhile newline t)\<rparr>)"
proof -
  obtain pre post where h: "s_ATBuffer st = pre @ t @ nul # post" "length pre = s_ATBufferCur st" "nul \<notin> set t"
    "length (pre @ t @ nul # post) = MAX_AT_RESPONSE" using assms by (rule holdsE)
  have "drop (s_ATBufferCur st) (s_ATBuffer st) = t @ nul # post" by (simp add: h(1) h(2) [symmetric])
  moreover have "takeWhile newline (t @ nul # post) = takeWhile newline t"
    by (simp add: takeWhile_tail)
  moreover have "length (takeWhile newline t) \<le> length t" by (rule length_takeWhile_le)
  ultimately show "skip_newlines (s_ATBuffer st) (s_ATBufferCur st) = Some (s_ATBufferCur st + length (takeWhile newline t))"
    using h(1) h(2) by (simp add: skip_newlines_def Let_def)
  have len: "length (takeWhile newline t) + length (dropWhile newline t) = length t"
    by (metis length_append takeWhile_dropWhile_id)
  have "s_ATBuffer st = (pre @ takeWhile newline t) @ dropWhile newline t @ nul # post" by (simp add: h(1))
  moreover have "nul \<notin> set (dropWhile newline t)" using h(3) set_dropWhileD by fast
  ultimately show "holds (dropWhile newline t) (st\<lparr>s_ATBufferCur := s_ATBufferCur st + length (takeWhile newline t)\<rparr>)"
    using h(2,4) h(1) len by (intro holdsI [of _ "pre @ takeWhile newline t" _ post]) simp_all
qed

text \<open>Where the next line ends, if the leading newlines are skipped and it is no prompt.\<close>

lemma findNextEOL_holds:
  assumes t: "holds t st" and skipped: "dropWhile newline t = t" and prompt: "t \<noteq> ''> ''"
  shows "findNextEOL (s_ATBuffer st) (s_ATBufferCur st) =
    Some (if list_ex newline t then Some (s_ATBufferCur st + length (takeWhile (\<lambda>c. \<not> newline c) t)) else None)"
proof -
  obtain pre post where h: "s_ATBuffer st = pre @ t @ nul # post" "length pre = s_ATBufferCur st" "nul \<notin> set t"
    using t by (rule holdsE)
  have d: "drop (s_ATBufferCur st) (s_ATBuffer st) = t @ nul # post" by (simp add: h(1) h(2) [symmetric])
  have "take 3 (t @ nul # post) \<noteq> ''> '' @ [nul]"
  proof
    assume a: "take 3 (t @ nul # post) = ''> '' @ [nul]"
    consider "t = []" | x where "t = [x]" | x y where "t = [x, y]" | x y z u where "t = x # y # z # u"
      by (metis neq_Nil_conv)
    then show False using a h(3) prompt by cases (auto simp: nul_def eval_nat_numeral)
  qed
  moreover have "takeWhile (\<lambda>c. c \<noteq> nul \<and> \<not> newline c) (t @ nul # post) = takeWhile (\<lambda>c. \<not> newline c) t"
    using h(3) by (induction t) auto
  moreover have "length (takeWhile (\<lambda>c. \<not> newline c) t) \<le> length t" by (rule length_takeWhile_le)
  moreover have "(t @ nul # post) ! length (takeWhile (\<lambda>c. \<not> newline c) t) = nul \<longleftrightarrow> \<not> list_ex newline t"
    using h(3) by (induction t) auto
  moreover have "s_ATBuffer st ! (s_ATBufferCur st + i) = (t @ nul # post) ! i" for i
    by (simp add: h(1) h(2) [symmetric])
  moreover have "length (s_ATBuffer st) = s_ATBufferCur st + length (t @ nul # post)" by (simp add: h(1,2))
  ultimately show ?thesis by (simp add: findNextEOL_def d Let_def)
qed

text \<open>A complete line is taken out of the buffer.\<close>

lemma take_line_holds:
  assumes t: "holds t st" and ex: "list_ex newline t"
  shows "\<exists>st'. take_line (s_ATBufferCur st + length (takeWhile (\<lambda>c. \<not> newline c) t)) st =
      Some (Line (takeWhile (\<lambda>c. \<not> newline c) t), st') \<and> holds (tl (dropWhile (\<lambda>c. \<not> newline c) t)) st'"
proof -
  obtain pre post where h: "s_ATBuffer st = pre @ t @ nul # post" "length pre = s_ATBufferCur st" "nul \<notin> set t"
    "length (pre @ t @ nul # post) = MAX_AT_RESPONSE" using t by (rule holdsE)
  obtain l c r where split: "t = l @ c # r" "newline c" "\<forall>x\<in>set l. \<not> newline x"
    using split_list_first_propE [of t newline] ex unfolding list_ex_iff by metis
  have l: "takeWhile (\<lambda>c. \<not> newline c) t = l" "tl (dropWhile (\<lambda>c. \<not> newline c) t) = r"
    using split(2,3) unfolding split(1) by (simp_all add: takeWhile_append2 dropWhile_append2)
  let ?b = "(pre @ l @ [nul]) @ r @ nul # post"
  have "s_ATBuffer st = (pre @ l) @ c # (r @ nul # post)" by (simp add: h(1) split(1))
  then have put: "put (s_ATBufferCur st + length l) [nul] (s_ATBuffer st) = Some ?b"
    by (simp add: put_def h(2) [symmetric])
  have "take_line (s_ATBufferCur st + length l) st =
    Some (Line l, st\<lparr>s_ATBuffer := ?b, s_ATBufferCur := s_ATBufferCur st + length l + 1\<rparr>)"
    unfolding take_line_def put by (simp add: h(2) [symmetric])
  moreover have "holds r (st\<lparr>s_ATBuffer := ?b, s_ATBufferCur := s_ATBufferCur st + length l + 1\<rparr>)"
    using h split by (intro holdsI [of _ "pre @ l @ [nul]" r post]) auto
  ultimately show ?thesis unfolding l by blast
qed

text \<open>Reading bytes behind what the buffer holds.\<close>

lemma put_behind:
  assumes t: "holds t st" and room: "s_ATBufferCur st + length t + length s < MAX_AT_RESPONSE" and s: "nul \<notin> set s"
  shows "\<exists>b b'. put (s_ATBufferCur st + length t) s (s_ATBuffer st) = Some b \<and>
    put (s_ATBufferCur st + length t + length s) [nul] b = Some b' \<and> holds (t @ s) (st\<lparr>s_ATBuffer := b'\<rparr>)"
proof -
  obtain pre post where h: "s_ATBuffer st = pre @ t @ nul # post" "length pre = s_ATBufferCur st" "nul \<notin> set t"
    "length (pre @ t @ nul # post) = MAX_AT_RESPONSE" using t by (rule holdsE)
  let ?rest = "drop (length s) (nul # post)"
  have len: "length s < length (nul # post)" using room h(2,4) by simp
  then obtain x rest where rest: "?rest = x # rest" by (cases ?rest) auto
  have p1: "put (s_ATBufferCur st + length t) s (s_ATBuffer st) = Some (pre @ t @ s @ ?rest)"
    using len by (simp add: put_def h(1) h(2) [symmetric])
  have p2: "put (s_ATBufferCur st + length t + length s) [nul] (pre @ t @ s @ ?rest) = Some (pre @ t @ s @ nul # rest)"
    unfolding rest by (simp add: put_def h(2) [symmetric])
  have "length (x # rest) = length (nul # post) - length s" by (simp only: rest [symmetric] length_drop)
  then have "length (pre @ (t @ s) @ nul # rest) = MAX_AT_RESPONSE" using h(4) len by simp
  then have "holds (t @ s) (st\<lparr>s_ATBuffer := pre @ t @ s @ nul # rest\<rparr>)"
    using h(2,3) s by (intro holdsI [of _ pre "t @ s" rest]) auto
  with p1 p2 show ?thesis by blast
qed


section \<open>\<open>readline\<close> returns the next line\<close>

text \<open>
  What the chunks of a call need: the buffer has room for all of them, they hold no NUL
  (a C string cannot), and at no read the unfinished line is just the prompt \<open>"> "\<close>, which
  is returned as a line of its own.
\<close>

definition plain_reads :: "string \<Rightarrow> string list \<Rightarrow> bool" where
  "plain_reads t cs \<longleftrightarrow> length t + length (concat cs) < MAX_AT_RESPONSE \<and> nul \<notin> set (concat cs) \<and>
     (\<forall>k\<le>length cs. dropWhile newline (t @ concat (take k cs)) \<noteq> ''> '')"

lemma read_loop_step:
  assumes t: "holds t st" and room: "s_ATBufferCur st + length t + length s < MAX_AT_RESPONSE" and s: "nul \<notin> set s"
    and prompt: "dropWhile newline (t @ s) \<noteq> ''> ''"
  shows "next_line (t @ s) = Some (l, r) \<Longrightarrow>
      \<exists>st'. read_loop (Data s # env) (s_ATBufferCur st + length t) st = Some (Line l, st', env) \<and> holds r st'"
    "next_line (t @ s) = None \<Longrightarrow>
      \<exists>st'. read_loop (Data s # env) (s_ATBufferCur st + length t) st =
          read_loop env (s_ATBufferCur st' + length (dropWhile newline (t @ s))) st' \<and>
        holds (dropWhile newline (t @ s)) st' \<and>
        s_ATBufferCur st' + length (dropWhile newline (t @ s)) = s_ATBufferCur st + length t + length s"
proof -
  let ?p = "s_ATBufferCur st + length t" and ?u = "dropWhile newline (t @ s)"
  obtain b b' where b: "put ?p s (s_ATBuffer st) = Some b" "put (?p + length s) [nul] b = Some b'"
    "holds (t @ s) (st\<lparr>s_ATBuffer := b'\<rparr>)" using put_behind [OF t room s] by blast
  let ?cur = "s_ATBufferCur st + length (takeWhile newline (t @ s))" and ?st = "st\<lparr>s_ATBuffer := b'\<rparr>"
  have cur: "skip_newlines b' (s_ATBufferCur st) = Some ?cur" and h: "holds ?u (st\<lparr>s_ATBuffer := b', s_ATBufferCur := ?cur\<rparr>)"
    using skip_newlines_holds [OF b(3)] by simp_all
  let ?st' = "st\<lparr>s_ATBuffer := b', s_ATBufferCur := ?cur\<rparr>"
  have skipped: "dropWhile newline ?u = ?u" by (simp add: dropWhile_idem)
  have eol: "findNextEOL b' ?cur =
    Some (if list_ex newline ?u then Some (?cur + length (takeWhile (\<lambda>c. \<not> newline c) ?u)) else None)"
    using findNextEOL_holds [OF h skipped prompt] by simp
  have room': "MAX_AT_RESPONSE - ?p \<noteq> 0" using room by simp
  have len: "?cur + length ?u = ?p + length s"
  proof -
    have "length (takeWhile newline (t @ s)) + length ?u = length (t @ s)"
      by (metis length_append takeWhile_dropWhile_id)
    then show ?thesis by simp
  qed
  {
    assume "next_line (t @ s) = Some (l, r)"
    then have n: "list_ex newline ?u" "l = takeWhile (\<lambda>c. \<not> newline c) ?u" "r = tl (dropWhile (\<lambda>c. \<not> newline c) ?u)"
      by (auto simp: next_line_def Let_def split: if_splits)
    from take_line_holds [OF h n(1)] n(2,3) obtain st' where
      "take_line (?cur + length (takeWhile (\<lambda>c. \<not> newline c) ?u)) ?st' = Some (Line l, st')" "holds r st'" by auto
    with b(1,2) cur eol n(1) room' show "\<exists>st'. read_loop (Data s # env) ?p st = Some (Line l, st', env) \<and> holds r st'"
      by (simp add: Let_def)
  next
    assume "next_line (t @ s) = None"
    then have "\<not> list_ex newline ?u" by (simp add: next_line_None)
    with b(1,2) cur eol room' have "read_loop (Data s # env) ?p st = read_loop env (?p + length s) ?st'"
      by (simp add: Let_def)
    moreover have c: "s_ATBufferCur ?st' = ?cur" by simp
    ultimately show "\<exists>st'. read_loop (Data s # env) ?p st = read_loop env (s_ATBufferCur st' + length ?u) st' \<and>
        holds ?u st' \<and> s_ATBufferCur st' + length ?u = ?p + length s"
      using h by (intro exI [of _ ?st'] conjI) (simp_all only: c len)
  }
qed

lemma read_loop_line:
  "holds t st \<Longrightarrow> s_ATBufferCur st + length t + length (concat cs) < MAX_AT_RESPONSE \<Longrightarrow> nul \<notin> set (concat cs) \<Longrightarrow>
   \<forall>k\<le>length cs. dropWhile newline (t @ concat (take k cs)) \<noteq> ''> '' \<Longrightarrow> cs \<noteq> [] \<Longrightarrow>
   next_line (t @ concat (butlast cs)) = None \<Longrightarrow> next_line (t @ concat cs) = Some (l, r) \<Longrightarrow>
   \<exists>st'. read_loop (map Data cs @ env) (s_ATBufferCur st + length t) st = Some (Line l, st', env) \<and> holds r st'"
proof (induction cs arbitrary: t st)
  case (Cons s cs)
  have prompt: "dropWhile newline (t @ s) \<noteq> ''> ''" using Cons.prems(4) by (auto dest: spec [of _ 1])
  have room: "s_ATBufferCur st + length t + length s < MAX_AT_RESPONSE" "nul \<notin> set s" using Cons.prems(2,3) by auto
  show ?case
  proof (cases "cs = []")
    case True
    with read_loop_step(1) [OF Cons.prems(1) room prompt] Cons.prems(7) show ?thesis by simp
  next
    case False
    let ?u = "dropWhile newline (t @ s)"
    have "next_line ((t @ s) @ concat (butlast cs)) = None" using Cons.prems(6) False by simp
    then have none: "next_line (t @ s) = None" "next_line (?u @ concat (butlast cs)) = None"
      using next_line_prefix next_line_skip [of "t @ s" "concat (butlast cs)"] by auto
    from read_loop_step(2) [OF Cons.prems(1) room prompt none(1)] obtain st' where
      st': "read_loop (Data s # (map Data cs @ env)) (s_ATBufferCur st + length t) st =
        read_loop (map Data cs @ env) (s_ATBufferCur st' + length ?u) st'" "holds ?u st'"
        "s_ATBufferCur st' + length ?u = s_ATBufferCur st + length t + length s" by blast
    have "s_ATBufferCur st' + length ?u + length (concat cs) < MAX_AT_RESPONSE" using st'(3) Cons.prems(2) by simp
    moreover have "\<forall>k\<le>length cs. dropWhile newline (?u @ concat (take k cs)) \<noteq> ''> ''"
    proof (intro allI impI)
      fix k assume "k \<le> length cs"
      then have "dropWhile newline (t @ concat (take (Suc k) (s # cs))) \<noteq> ''> ''" using spec [OF Cons.prems(4), of "Suc k"] by simp
      then show "dropWhile newline (?u @ concat (take k cs)) \<noteq> ''> ''" by (simp add: dropWhile_skip)
    qed
    moreover have "next_line (?u @ concat cs) = Some (l, r)"
      using Cons.prems(7) next_line_skip [of "t @ s" "concat cs"] by simp
    ultimately have "\<exists>st1. read_loop (map Data cs @ env) (s_ATBufferCur st' + length ?u) st' = Some (Line l, st1, env) \<and> holds r st1"
      using Cons.IH [OF st'(2)] Cons.prems(3) False none(2) by simp
    with st'(1) show ?thesis by simp
  qed
qed simp

lemma holds_front:
  assumes t: "holds t st" and len: "length u \<le> length t" "nul \<notin> set u"
  shows "\<exists>b. put 0 (u @ [nul]) (s_ATBuffer st) = Some b \<and> holds u (st\<lparr>s_ATBuffer := b, s_ATBufferCur := 0\<rparr>)"
proof -
  obtain pre post where h: "s_ATBuffer st = pre @ t @ nul # post" "length pre = s_ATBufferCur st" "nul \<notin> set t"
    "length (pre @ t @ nul # post) = MAX_AT_RESPONSE" using t by (rule holdsE)
  let ?rest = "drop (length u + 1) (s_ATBuffer st)"
  have l: "length u + 1 \<le> length (s_ATBuffer st)" using len h(1) by simp
  then have p: "put 0 (u @ [nul]) (s_ATBuffer st) = Some ([] @ u @ nul # ?rest)" by (simp add: put_def)
  have "length ([] @ u @ nul # ?rest) = MAX_AT_RESPONSE" using l h(1,4) by simp
  then have "holds u (st\<lparr>s_ATBuffer := [] @ u @ nul # ?rest, s_ATBufferCur := 0\<rparr>)"
    using len(2) by (intro holdsI [of _ "[]" u ?rest]) auto
  with p show ?thesis by blast
qed

lemma readline_start_holds:
  assumes t: "holds t st" and prompt: "dropWhile newline t \<noteq> ''> ''"
  shows "next_line t = Some (l, r) \<Longrightarrow> \<exists>e st1. readline_start st = Some (Some e, 0, st1) \<and>
      (\<exists>st'. take_line e st1 = Some (Line l, st') \<and> holds r st')"
    "next_line t = None \<Longrightarrow> \<exists>st1. readline_start st = Some (None, length (dropWhile newline t), st1) \<and>
      holds (dropWhile newline t) st1 \<and> s_ATBufferCur st1 = 0"
proof -
  obtain pre post where h: "s_ATBuffer st = pre @ t @ nul # post" "length pre = s_ATBufferCur st" "nul \<notin> set t"
    using t by (rule holdsE)
  let ?u = "dropWhile newline t" and ?cur = "s_ATBufferCur st + length (takeWhile newline t)"
  let ?st = "st\<lparr>s_ATBufferCur := ?cur\<rparr>"
  have in_range: "\<not> length (s_ATBuffer st) \<le> s_ATBufferCur st" using h(1,2) by simp
  have first: "s_ATBuffer st ! s_ATBufferCur st = nul \<longleftrightarrow> t = []"
    using h(3) by (cases t) (auto simp: h(1) h(2) [symmetric] nth_append)
  note skip = skip_newlines_holds [OF t]
  have idem: "dropWhile newline ?u = ?u" by (simp add: dropWhile_idem)
  have eol: "findNextEOL (s_ATBuffer st) ?cur =
    Some (if list_ex newline ?u then Some (?cur + length (takeWhile (\<lambda>c. \<not> newline c) ?u)) else None)"
    using findNextEOL_holds [OF skip(2) idem prompt] by simp
  show "\<exists>e st1. readline_start st = Some (Some e, 0, st1) \<and> (\<exists>st'. take_line e st1 = Some (Line l, st') \<and> holds r st')"
    if "next_line t = Some (l, r)"
  proof -
    have n: "list_ex newline ?u" "l = takeWhile (\<lambda>c. \<not> newline c) ?u" "r = tl (dropWhile (\<lambda>c. \<not> newline c) ?u)"
      using that by (auto simp: next_line_def Let_def split: if_splits)
    then have "t \<noteq> []" by auto
    with first in_range skip(1) eol n(1) have
      "readline_start st = Some (Some (?cur + length (takeWhile (\<lambda>c. \<not> newline c) ?u)), 0, ?st)"
      by (simp add: readline_start_def Let_def)
    with take_line_holds [OF skip(2) n(1)] n(2,3) show ?thesis by auto
  qed
  show "\<exists>st1. readline_start st = Some (None, length ?u, st1) \<and> holds ?u st1 \<and> s_ATBufferCur st1 = 0"
    if "next_line t = None"
  proof (cases "t = []")
    case True
    with holds_front [OF t, of "[]"] first in_range show ?thesis
      by (auto simp: readline_start_def Let_def)
  next
    case False
    have none: "\<not> list_ex newline ?u" using that by (simp add: next_line_None)
    have nul: "nul \<notin> set ?u" "length ?u \<le> length t" using h(3) set_dropWhileD [of nul newline t] length_dropWhile_le by auto
    obtain pre2 post2 where h2: "s_ATBuffer st = pre2 @ ?u @ nul # post2" "length pre2 = ?cur"
      using skip(2) by (auto elim!: holdsE)
    have d: "drop ?cur (s_ATBuffer st) = ?u @ nul # post2" unfolding h2(1) by (simp add: h2(2) [symmetric])
    have tw: "takeWhile (\<lambda>c. c \<noteq> nul) (?u @ nul # post2) = ?u" using nul(1) by (auto simp: takeWhile_tail takeWhile_eq_all_conv)
    have "strlen (s_ATBuffer st) ?cur = Some (length ?u)"
      using h2 by (simp add: strlen_def d tw Let_def)
    moreover have "take (length ?u + 1) (drop ?cur (s_ATBuffer st)) = ?u @ [nul]" unfolding d by simp
    moreover obtain b where "put 0 (?u @ [nul]) (s_ATBuffer st) = Some b" "holds ?u (st\<lparr>s_ATBuffer := b, s_ATBufferCur := 0\<rparr>)"
      using holds_front [OF t nul(2,1)] by blast
    ultimately show ?thesis
      using False first in_range skip(1) eol none by (simp add: readline_start_def Let_def)
  qed
qed

lemma readline_line:
  assumes t: "holds t st" and plain: "plain_reads t cs"
    and none: "cs \<noteq> [] \<Longrightarrow> next_line (t @ concat (butlast cs)) = None" and line: "next_line (t @ concat cs) = Some (l, r)"
  shows "\<exists>st'. readline (map Data cs @ env) st = Some (Line l, st', env) \<and> holds r st'"
proof (cases "cs = []")
  case True
  have "dropWhile newline t \<noteq> ''> ''" using plain by (auto simp: plain_reads_def)
  with readline_start_holds(1) [OF t this] line True obtain e st1 st' where
    "readline_start st = Some (Some e, 0, st1)" "take_line e st1 = Some (Line l, st')" "holds r st'" by auto
  with True show ?thesis by (simp add: readline_def)
next
  case False
  let ?u = "dropWhile newline t"
  have "?u \<noteq> ''> ''" using plain by (auto simp: plain_reads_def)
  moreover have "next_line t = None" using none [OF False] next_line_prefix by blast
  ultimately obtain st1 where st1: "readline_start st = Some (None, length ?u, st1)" "holds ?u st1" "s_ATBufferCur st1 = 0"
    using readline_start_holds(2) [OF t] by blast
  have "\<exists>st'. read_loop (map Data cs @ env) (s_ATBufferCur st1 + length ?u) st1 = Some (Line l, st', env) \<and> holds r st'"
  proof (rule read_loop_line [OF st1(2)])
    show "s_ATBufferCur st1 + length ?u + length (concat cs) < MAX_AT_RESPONSE"
      using plain length_dropWhile_le [of newline t] unfolding plain_reads_def st1(3) by linarith
    show "\<forall>k\<le>length cs. dropWhile newline (?u @ concat (take k cs)) \<noteq> ''> ''"
      using plain by (simp add: plain_reads_def dropWhile_skip)
    show "nul \<notin> set (concat cs)" using plain unfolding plain_reads_def by blast
  qed (use False none line in \<open>simp_all add: next_line_skip\<close>)
  with st1 show ?thesis by (simp add: readline_def)
qed

text \<open>When no line gets complete, the reader waits and keeps what it has.\<close>

lemma read_loop_waits:
  "holds t st \<Longrightarrow> s_ATBufferCur st + length t + length (concat cs) < MAX_AT_RESPONSE \<Longrightarrow> nul \<notin> set (concat cs) \<Longrightarrow>
   \<forall>k\<le>length cs. dropWhile newline (t @ concat (take k cs)) \<noteq> ''> '' \<Longrightarrow> next_line (t @ concat cs) = None \<Longrightarrow>
   \<exists>st'. read_loop (map Data cs) (s_ATBufferCur st + length t) st = Some (Waits, st', [])"
proof (induction cs arbitrary: t st)
  case (Cons s cs)
  let ?u = "dropWhile newline (t @ s)"
  have prompt: "?u \<noteq> ''> ''" using Cons.prems(4) by (auto dest: spec [of _ 1])
  have room: "s_ATBufferCur st + length t + length s < MAX_AT_RESPONSE" "nul \<notin> set s" using Cons.prems(2,3) by auto
  have none: "next_line (t @ s) = None" "next_line (?u @ concat cs) = None"
    using Cons.prems(5) next_line_prefix [of "t @ s" "concat cs"] by (auto simp: next_line_skip)
  from read_loop_step(2) [OF Cons.prems(1) room prompt none(1)] obtain st' where
    st': "read_loop (Data s # map Data cs) (s_ATBufferCur st + length t) st =
      read_loop (map Data cs) (s_ATBufferCur st' + length ?u) st'" "holds ?u st'"
      "s_ATBufferCur st' + length ?u = s_ATBufferCur st + length t + length s" by blast
  have "s_ATBufferCur st' + length ?u + length (concat cs) < MAX_AT_RESPONSE" using st'(3) Cons.prems(2) by simp
  moreover have "\<forall>k\<le>length cs. dropWhile newline (?u @ concat (take k cs)) \<noteq> ''> ''"
  proof (intro allI impI)
    fix k assume "k \<le> length cs"
    then show "dropWhile newline (?u @ concat (take k cs)) \<noteq> ''> ''"
      using spec [OF Cons.prems(4), of "Suc k"] by (simp add: dropWhile_skip)
  qed
  ultimately show ?case using Cons.IH [OF st'(2)] Cons.prems(3) none(2) st'(1) by simp
qed simp

lemma readline_waits:
  assumes t: "holds t st" and plain: "plain_reads t cs" and none: "next_line (t @ concat cs) = None"
  shows "\<exists>st'. readline (map Data cs) st = Some (Waits, st', [])"
proof -
  let ?u = "dropWhile newline t"
  have "?u \<noteq> ''> ''" using plain by (auto simp: plain_reads_def)
  moreover have "next_line t = None" using none next_line_prefix by blast
  ultimately obtain st1 where st1: "readline_start st = Some (None, length ?u, st1)" "holds ?u st1" "s_ATBufferCur st1 = 0"
    using readline_start_holds(2) [OF t] by blast
  have "\<exists>st'. read_loop (map Data cs) (s_ATBufferCur st1 + length ?u) st1 = Some (Waits, st', [])"
  proof (rule read_loop_waits [OF st1(2)])
    show "s_ATBufferCur st1 + length ?u + length (concat cs) < MAX_AT_RESPONSE"
      using plain length_dropWhile_le [of newline t] unfolding plain_reads_def st1(3) by linarith
    show "\<forall>k\<le>length cs. dropWhile newline (?u @ concat (take k cs)) \<noteq> ''> ''"
      using plain by (simp add: plain_reads_def dropWhile_skip)
    show "nul \<notin> set (concat cs)" using plain unfolding plain_reads_def by blast
  qed (use none in \<open>simp add: next_line_skip\<close>)
  with st1 show ?thesis by (simp add: readline_def)
qed

section \<open>The reader loop handles the lines of the stream\<close>

text \<open>
  The chunks are smooth when at every point of the stream the unfinished line and the reads
  up to its end are as \<open>plain_reads\<close> asks.
\<close>

definition smooth :: "string \<Rightarrow> string list \<Rightarrow> bool" where
  "smooth t cs \<longleftrightarrow> (\<forall>a w b. cs = a @ w @ b \<longrightarrow>
     next_line (snd (all_lines (t @ concat a)) @ concat (butlast w)) = None \<longrightarrow>
     plain_reads (snd (all_lines (t @ concat a))) w)"

lemma smooth_rest:
  assumes s: "smooth t (cs1 @ cs2)" and n: "next_line (t @ concat cs1) = Some (l, r)"
  shows "smooth r cs2" "all_lines (t @ concat (cs1 @ cs2)) = (l # fst (all_lines (r @ concat cs2)), snd (all_lines (r @ concat cs2)))"
proof -
  have all: "all_lines (t @ concat (cs1 @ a)) = (l # fst (all_lines (r @ concat a)), snd (all_lines (r @ concat a)))" for a
    using all_lines_next [OF next_line_append [OF n, of "concat a"]] by simp
  then show "all_lines (t @ concat (cs1 @ cs2)) = (l # fst (all_lines (r @ concat cs2)), snd (all_lines (r @ concat cs2)))" .
  show "smooth r cs2"
    unfolding smooth_def
  proof (intro allI impI)
    fix a w b assume "cs2 = a @ w @ b" "next_line (snd (all_lines (r @ concat a)) @ concat (butlast w)) = None"
    then have "cs1 @ cs2 = (cs1 @ a) @ w @ b" "next_line (snd (all_lines (t @ concat (cs1 @ a))) @ concat (butlast w)) = None"
      by (simp_all only: all append_assoc snd_conv)
    with s [unfolded smooth_def] have "plain_reads (snd (all_lines (t @ concat (cs1 @ a)))) w" by blast
    then show "plain_reads (snd (all_lines (r @ concat a))) w" by (simp only: all snd_conv)
  qed
qed

lemma smooth_now: "smooth t (w @ b) \<Longrightarrow> next_line t = None \<Longrightarrow> next_line (t @ concat (butlast w)) = None \<Longrightarrow> plain_reads t w"
  unfolding smooth_def by (drule spec [of _ "[]"]) (simp add: all_lines_None)

lemma next_line_butlast: "next_line (u @ concat w) = None \<Longrightarrow> next_line (u @ concat (butlast w)) = None"
proof (cases w rule: rev_cases)
  case (snoc ys y)
  show "next_line (u @ concat w) = None \<Longrightarrow> ?thesis"
    using next_line_prefix [of "u @ concat ys" y] snoc by simp
qed simp

lemma plain_reads_none: "holds t st \<Longrightarrow> next_line t = Some lr \<Longrightarrow> plain_reads t []"
proof -
  assume t: "holds t st" and n: "next_line t = Some lr"
  from t obtain pre post where "length (pre @ t @ nul # post) = MAX_AT_RESPONSE" by (rule holdsE)
  moreover have "dropWhile newline t \<noteq> ''> ''"
  proof
    assume "dropWhile newline t = ''> ''"
    then have "next_line t = None" by (simp add: next_line_None newline_def cr_def lf_def)
    with n show False by simp
  qed
  ultimately show ?thesis by (simp add: plain_reads_def)
qed

lemma readline_in_stream:
  assumes t: "holds t st" and s: "smooth t cs" and n: "next_line (t @ concat cs) \<noteq> None"
  shows "\<exists>cs2 l r st'. readline (map Data cs) st = Some (Line l, st', map Data cs2) \<and> holds r st' \<and> smooth r cs2 \<and>
    length (r @ concat cs2) < length (t @ concat cs) \<and> fst (all_lines (t @ concat cs)) = l # fst (all_lines (r @ concat cs2))"
proof -
  let ?P = "\<lambda>k. next_line (t @ concat (take k cs)) \<noteq> None"
  define k where "k = (LEAST k. ?P k)"
  have "?P (length cs)" using n by simp
  then have k: "?P k" and least0: "\<And>j. j < k \<Longrightarrow> \<not> ?P j" unfolding k_def by (rule LeastI) (rule not_less_Least)
  have least: "next_line (t @ concat (take j cs)) = None" if "j < k" for j using least0 [OF that] by blast
  obtain l r where line: "next_line (t @ concat (take k cs)) = Some (l, r)" using k by force
  have split: "cs = take k cs @ drop k cs" by simp
  have "k \<le> length cs" using least [of "length cs"] n by (metis not_le take_all_iff order_refl)
  then have bl: "butlast (take k cs) = take (k - 1) cs" by (simp add: butlast_take)
  have plain: "plain_reads t (take k cs)"
  proof (cases "k = 0")
    case True
    with plain_reads_none [OF t] line show ?thesis by simp
  next
    case False
    then have "next_line t = None" "next_line (t @ concat (butlast (take k cs))) = None"
      using least [of 0] least [of "k - 1"] unfolding bl by auto
    with smooth_now [of t "take k cs" "drop k cs"] s show ?thesis by simp
  qed
  have none: "next_line (t @ concat (butlast (take k cs))) = None" if "take k cs \<noteq> []"
    using that least [of "k - 1"] unfolding bl by (cases k) auto
  obtain st' where st': "readline (map Data (take k cs) @ map Data (drop k cs)) st = Some (Line l, st', map Data (drop k cs))"
    "holds r st'" using readline_line [OF t plain none line] by blast
  have s': "smooth t (take k cs @ drop k cs)" using s by simp
  note rest = smooth_rest [OF s' line]
  have "length (r @ concat (drop k cs)) < length (t @ concat cs)"
    using next_line_shorter [OF line] arg_cong [OF split, of "\<lambda>x. length (concat x)"] by (simp add: concat_append del: append_take_drop_id)
  with st' rest show ?thesis
    by (intro exI [of _ "drop k cs"] exI [of _ l] exI [of _ r] exI [of _ st']) (simp add: map_append [symmetric] del: map_append)
qed

lemma readerLoop_stream:
  "holds t st \<Longrightarrow> smooth t cs \<Longrightarrow>
     readerLoop (map Data cs) st c = Some (ReaderWaits (handle_lines (fst (all_lines (t @ concat cs))) c))"
proof (induction "length (t @ concat cs)" arbitrary: t cs st c rule: less_induct)
  case less
  have waits: "\<exists>st'. readline (map Data w) st = Some (Waits, st', [])" if "holds u st" "smooth u w" "next_line (u @ concat w) = None" for u w st
    using readline_waits [OF that(1) smooth_now [of u w "[]"] that(3)] that(2) next_line_prefix [OF that(3)]
      next_line_butlast [OF that(3)] by simp
  show ?case
  proof (cases "next_line (t @ concat cs) = None")
    case True
    with waits [OF less.prems True] show ?thesis
      by (auto simp: readerLoop.simps [of "map Data cs"] all_lines_None)
  next
    case False
    from readline_in_stream [OF less.prems this] obtain cs2 l r st' where
      one: "readline (map Data cs) st = Some (Line l, st', map Data cs2)" "holds r st'" "smooth r cs2"
        "length (r @ concat cs2) < length (t @ concat cs)" "fst (all_lines (t @ concat cs)) = l # fst (all_lines (r @ concat cs2))"
      by blast
    show ?thesis
    proof (cases "isSMSUnsolicited l")
      case sms: False
      with one less.hyps [OF one(4,2,3)] show ?thesis by (simp add: readerLoop.simps [of "map Data cs"])
    next
      case sms: True
      show ?thesis
      proof (cases "next_line (r @ concat cs2) = None")
        case True
        with waits [OF one(2,3) True] sms one show ?thesis
          by (auto simp: readerLoop.simps [of "map Data cs"] all_lines_None)
      next
        case False
        from readline_in_stream [OF one(2,3) this] obtain cs3 l2 r2 st2 where
          two: "readline (map Data cs2) st' = Some (Line l2, st2, map Data cs3)" "holds r2 st2" "smooth r2 cs3"
            "length (r2 @ concat cs3) < length (r @ concat cs2)" "fst (all_lines (r @ concat cs2)) = l2 # fst (all_lines (r2 @ concat cs3))"
          by blast
        have "length (r2 @ concat cs3) < length (t @ concat cs)" using one(4) two(4) by simp
        from less.hyps [OF this two(2,3)] one two sms show ?thesis by (simp add: readerLoop.simps [of "map Data cs"])
      qed
    qed
  qed
qed

section \<open>Properties\<close>

text \<open>
  Property C27 (equivalence): \<open>readline\<close> returns the next complete non-empty line of the
  modem's output as the reference \<open>next_line\<close> finds it in the concatenation of what the
  buffer holds and the reads, however the output was cut into reads; it reads no further
  than to the end of that line, and the buffer then holds what follows.
\<close>

theorem readline_returns_next_line:
  assumes "holds t st" "plain_reads t cs"
    and "cs \<noteq> [] \<Longrightarrow> next_line (t @ concat (butlast cs)) = None" "next_line (t @ concat cs) = Some (l, r)"
  shows "\<exists>st'. readline (map Data cs @ env) st = Some (Line l, st', env) \<and> holds r st'"
  using assms by (rule readline_line)

text \<open>The buffer at the start of the program: a static array, all NUL.\<close>

definition empty_buf :: line_buf where
  "empty_buf = \<lparr>s_ATBuffer = replicate MAX_AT_RESPONSE nul, s_ATBufferCur = 0\<rparr>"

lemma empty_buf_holds: "holds [] empty_buf"
proof -
  have "MAX_AT_RESPONSE = Suc (MAX_AT_RESPONSE - 1)" by (simp add: MAX_AT_RESPONSE_def)
  then have "replicate MAX_AT_RESPONSE nul = nul # replicate (MAX_AT_RESPONSE - 1) nul"
    by (metis replicate_Suc)
  then show ?thesis by (intro holdsI [of _ "[]"]) (auto simp: empty_buf_def MAX_AT_RESPONSE_def)
qed

text \<open>Reads without the character \<open>>\<close> never look like a prompt.\<close>

lemma plain_without_prompt:
  assumes "length (t @ concat cs) < MAX_AT_RESPONSE" "nul \<notin> set (concat cs)" "CHR ''>'' \<notin> set (t @ concat cs)"
  shows "plain_reads t cs"
proof -
  have "dropWhile newline (t @ concat (take k cs)) \<noteq> ''> ''" for k
  proof
    assume "dropWhile newline (t @ concat (take k cs)) = ''> ''"
    then have "CHR ''>'' \<in> set (t @ concat (take k cs))"
      using set_dropWhileD [of "CHR ''>''" newline "t @ concat (take k cs)"] by simp
    then show False using assms(3) by (auto dest: in_set_takeD)
  qed
  then show ?thesis using assms(1,2) by (simp add: plain_reads_def)
qed

lemma readline_returns_next_line_witness:
  "\<exists>st'. readline [Data [cr, lf, CHR ''O''], Data [CHR ''K'', cr], Data ''x''] empty_buf = Some (Line ''OK'', st', [Data ''x'']) \<and>
     holds [] st'"
proof -
  let ?cs = "[[cr, lf, CHR ''O''], [CHR ''K'', cr]]"
  have plain: "plain_reads [] ?cs"
    by (rule plain_without_prompt) (simp_all add: MAX_AT_RESPONSE_def nul_def cr_def lf_def)
  have none: "next_line ([] @ concat (butlast ?cs)) = None" and line: "next_line ([] @ concat ?cs) = Some (''OK'', [])"
    by (simp_all add: next_line_def newline_def cr_def lf_def)
  from readline_returns_next_line [OF empty_buf_holds plain none line, of "[Data ''x'']"] show ?thesis by simp
qed

text \<open>
  Property C28 (refinement): the reader thread as a whole does to the channel what processing
  the lines of the modem's output one by one does, for every way the output arrives in reads
  that leaves room in the buffer and never ends in a bare prompt; lines that announce a
  short message take the following line with them.
\<close>

theorem reader_processes_lines:
  assumes "holds t st" "smooth t cs"
  shows "readerLoop (map Data cs) st c = Some (ReaderWaits (handle_lines (fst (all_lines (t @ concat cs))) c))"
  using assms by (rule readerLoop_stream)

text \<open>A short stream without the character \<open>>\<close> is smooth.\<close>

lemma all_lines_suffix: "\<exists>p. s = p @ snd (all_lines s)"
proof (induction s rule: all_lines.induct)
  case (1 s)
  show ?case
  proof (cases "next_line s")
    case None
    then show ?thesis by (simp add: all_lines_None)
  next
    case (Some lr)
    then obtain l r where n: "next_line s = Some (l, r)" by (cases lr) auto
    have "suffix r s"
    proof -
      have "r = tl (dropWhile (\<lambda>c. \<not> newline c) (dropWhile newline s))"
        using n by (auto simp: next_line_def Let_def split: if_splits)
      then show ?thesis by (simp add: suffix_dropWhile suffix_order.trans [OF suffix_tl] suffix_order.trans [OF suffix_dropWhile])
    qed
    moreover obtain p where "r = p @ snd (all_lines r)" using 1 n by blast
    ultimately have "suffix (snd (all_lines r)) s" by (metis suffixI suffix_order.trans)
    then show ?thesis by (simp add: all_lines_next [OF n] suffix_def)
  qed
qed

lemma short_stream_smooth:
  assumes l: "length (t @ concat cs) < MAX_AT_RESPONSE" "nul \<notin> set (t @ concat cs)" "CHR ''>'' \<notin> set (t @ concat cs)"
  shows "smooth t cs"
  unfolding smooth_def
proof (intro allI impI)
  fix a w b assume cs: "cs = a @ w @ b"
  let ?u = "snd (all_lines (t @ concat a))"
  obtain p where p: "t @ concat a = p @ ?u" using all_lines_suffix by blast
  have whole: "t @ concat cs = p @ ?u @ concat w @ concat b" using cs p by (metis append.assoc concat_append)
  show "plain_reads ?u w" by (rule plain_without_prompt) (use l in \<open>unfold whole, auto\<close>)
qed

definition idle_chan :: at_chan where
  "idle_chan = \<lparr>s_fd = 5, s_atc_proxy = False, s_unsolHandler = True, s_type = NO_RESULT, s_responsePrefix = [],
     s_smsPDU = None, s_raw_data = None, sp_response = None, s_readerClosed = False, s_onTimeout = True,
     s_onReaderClosed = True, out = []\<rparr>"

lemma reader_processes_lines_witness:
  "readerLoop (map Data [''RI'' @ [CHR ''N'', CHR ''G''], [cr, lf] @ ''+CMT: 1'', [cr] @ ''hi'' @ [cr]]) empty_buf idle_chan =
     Some (ReaderWaits (idle_chan\<lparr>out := [Unsol ''RING'', UnsolSms ''+CMT: 1'' ''hi'']\<rparr>))"
proof -
  let ?cs = "[''RI'' @ [CHR ''N'', CHR ''G''], [cr, lf] @ ''+CMT: 1'', [cr] @ ''hi'' @ [cr]]"
  have "smooth [] ?cs"
    by (rule short_stream_smooth) (simp_all add: MAX_AT_RESPONSE_def nul_def cr_def lf_def)
  moreover have "fst (all_lines ([] @ concat ?cs)) = [''RING'', ''+CMT: 1'', ''hi'']"
    by (simp add: all_lines.simps next_line_def newline_def cr_def lf_def)
  ultimately have "readerLoop (map Data ?cs) empty_buf idle_chan =
      Some (ReaderWaits (handle_lines [''RING'', ''+CMT: 1'', ''hi''] idle_chan))"
    using reader_processes_lines [OF empty_buf_holds, of ?cs idle_chan] by (simp only:)
  then show ?thesis
    by (simp add: isSMSUnsolicited_def s_smsUnsoliciteds_def processLine_def handleUnsolicited_def emit_def idle_chan_def)
qed

text \<open>
  After the prompt \<open>"> "\<close> the buffer's position stands one character
  behind the end of the data, so the reader takes the stale bytes of earlier output that
  are still there for new output, in front of what the modem sends next.
\<close>

theorem prompt_leaves_stale_bytes:
  assumes "holds [] st" "nul \<in> set (drop 3 (s_ATBuffer st))"
  shows "\<exists>st'. readline (Data ''> '' # env) st = Some (Line ''> '', st', env) \<and>
    holds (takeWhile (\<lambda>c. c \<noteq> nul) (drop 3 (s_ATBuffer st))) st'"
proof -
  let ?b = "s_ATBuffer st"
  have "dropWhile newline [] \<noteq> ''> ''" "next_line [] = None" by (simp_all add: next_line_None)
  from readline_start_holds(2) [OF assms(1) this] obtain st1 where
    st1: "readline_start st = Some (None, 0, st1)" "holds [] st1" "s_ATBufferCur st1 = 0" by auto
  have len: "length ?b = MAX_AT_RESPONSE" using assms(1) by (simp add: holds_def)
  have st1b: "s_ATBuffer st1 = nul # drop 1 ?b"
  proof -
    obtain pre post where "?b = pre @ [] @ nul # post" "length pre = s_ATBufferCur st" using assms(1) by (rule holdsE)
    then have "?b ! s_ATBufferCur st = nul" "s_ATBufferCur st < length ?b" by (simp_all add: nth_append)
    with st1(1) len show ?thesis by (auto simp: readline_start_def Let_def put_def MAX_AT_RESPONSE_def)
  qed
  let ?stale = "takeWhile (\<lambda>c. c \<noteq> nul) (drop 3 ?b)"
  obtain post where stale: "drop 3 ?b = ?stale @ nul # post"
  proof -
    have "dropWhile (\<lambda>c. c \<noteq> nul) (drop 3 ?b) \<noteq> []" using assms(2) by (auto simp: dropWhile_eq_Nil_conv)
    then obtain x post where x: "dropWhile (\<lambda>c. c \<noteq> nul) (drop 3 ?b) = x # post"
      by (cases "dropWhile (\<lambda>c. c \<noteq> nul) (drop 3 ?b)") auto
    have "x = nul" using hd_dropWhile [of "\<lambda>c. c \<noteq> nul" "drop 3 ?b"] x by simp
    moreover have "drop 3 ?b = ?stale @ x # post" unfolding x [symmetric] by (simp only: takeWhile_dropWhile_id)
    ultimately show thesis using that by blast
  qed
  let ?b' = "CHR ''>'' # CHR '' '' # nul # drop 3 ?b"
  have len4: "length ?b = 4096" "MAX_AT_RESPONSE \<noteq> 0" using len by (simp_all add: MAX_AT_RESPONSE_def)
  have p1: "put 0 ''> '' (s_ATBuffer st1) = Some (CHR ''>'' # CHR '' '' # drop (Suc (Suc 0)) ?b)"
    using len4 by (simp add: put_def st1b)
  have p2: "put (Suc (Suc 0)) [nul] (CHR ''>'' # CHR '' '' # drop (Suc (Suc 0)) ?b) = Some ?b'"
    using len4 by (simp add: put_def numeral_3_eq_3)
  have skip: "skip_newlines ?b' 0 = Some 0" by (simp add: skip_newlines_def newline_def cr_def lf_def)
  have eol: "findNextEOL ?b' 0 = Some (Some (Suc (Suc 0)))" by (simp add: findNextEOL_def numeral_3_eq_3)
  have p3: "put (Suc (Suc 0)) [nul] ?b' = Some ?b'" by (simp add: put_def numeral_3_eq_3)
  have line: "take_line (Suc (Suc 0)) (st1\<lparr>s_ATBuffer := ?b', s_ATBufferCur := 0\<rparr>) =
      Some (Line ''> '', st1\<lparr>s_ATBuffer := ?b', s_ATBufferCur := 3\<rparr>)"
    using p3 by (simp add: take_line_def numeral_3_eq_3)
  have "read_loop (Data ''> '' # env) 0 st1 = Some (Line ''> '', st1\<lparr>s_ATBuffer := ?b', s_ATBufferCur := 3\<rparr>, env)"
    using st1(3) p1 p2 skip eol line len4(2) by (simp add: Let_def)
  with st1(1) have "readline (Data ''> '' # env) st = Some (Line ''> '', st1\<lparr>s_ATBuffer := ?b', s_ATBufferCur := 3\<rparr>, env)"
    by (simp add: readline_def del: read_loop.simps)
  moreover have "holds ?stale (st1\<lparr>s_ATBuffer := ?b', s_ATBufferCur := 3\<rparr>)"
  proof (rule holdsI [of _ "CHR ''>'' # CHR '' '' # [nul]" _ post])
    have "length ([CHR ''>'', CHR '' '', nul] @ drop 3 ?b) = MAX_AT_RESPONSE" using len by (simp add: MAX_AT_RESPONSE_def)
    then show "length ([CHR ''>'', CHR '' '', nul] @ ?stale @ nul # post) = MAX_AT_RESPONSE" by (simp only: stale [symmetric])
    show "s_ATBuffer (st1\<lparr>s_ATBuffer := ?b', s_ATBufferCur := 3\<rparr>) = [CHR ''>'', CHR '' '', nul] @ ?stale @ nul # post"
      by (simp add: stale [symmetric])
    show "nul \<notin> set ?stale" by (auto dest: set_takeWhileD)
  qed simp
  ultimately show ?thesis by blast
qed

text \<open>After an earlier \<open>OK\<close>: the next line starts with its \<open>K\<close>.\<close>

lemma prompt_leaves_stale_bytes_witness:
  "\<exists>st'. readline [Data ''> '', Data ([CHR 0x0D])] \<lparr>s_ATBuffer = [cr, lf, CHR ''O'', CHR ''K'', nul, lf] @ replicate (MAX_AT_RESPONSE - 6) nul,
       s_ATBufferCur = 6\<rparr> = Some (Line ''> '', st', [Data [CHR 0x0D]]) \<and> holds ''K'' st'"
proof -
  let ?st = "\<lparr>s_ATBuffer = [cr, lf, CHR ''O'', CHR ''K'', nul, lf] @ replicate (MAX_AT_RESPONSE - 6) nul, s_ATBufferCur = 6\<rparr>"
  have "MAX_AT_RESPONSE - 6 = Suc (MAX_AT_RESPONSE - 7)" by (simp add: MAX_AT_RESPONSE_def)
  then have r: "replicate (MAX_AT_RESPONSE - 6) nul = nul # replicate (MAX_AT_RESPONSE - 7) nul"
    by (simp only: replicate_Suc)
  have "holds [] ?st"
    by (rule holdsI [of _ "[cr, lf, CHR ''O'', CHR ''K'', nul, lf]" _ "replicate (MAX_AT_RESPONSE - 7) nul"])
      (simp add: r, simp, simp, simp add: MAX_AT_RESPONSE_def)
  moreover have d: "drop 3 (s_ATBuffer ?st) = CHR ''K'' # nul # lf # nul # replicate (MAX_AT_RESPONSE - 7) nul"
    by (simp add: r)
  ultimately show ?thesis
    using prompt_leaves_stale_bytes [of ?st "[Data [CHR 0x0D]]"] by (simp add: d nul_def)
qed

end
