(* ===== verification/QmiMsg.thy ===== *)
theory QmiMsg
  imports Prelude
begin

text \<open>
  The QMI message format (\<open>QCQMI.h\<close>, \<open>QCQMUX.h\<close>) and the message routines of
  \<open>QMIThread.c\<close>: \<open>GetTLV\<close>, \<open>GetQMUXTransactionId\<close>, \<open>ComposeQMUXMsg\<close>, \<open>is_response\<close>.

  A message is the byte list of its memory block. Offsets in the packed \<open>QCQMIMSG\<close>:
  0 \<open>IFType\<close>, 1 \<open>Length\<close>, 3 \<open>CtlFlags\<close>, 4 \<open>QMIType\<close>, 5 \<open>ClientId\<close>; for a QMUX message
  6 \<open>CtlFlags\<close>, 7 \<open>TransactionId\<close>, 9 \<open>Type\<close>, 11 \<open>Length\<close>, 13 the TLVs (in a response the
  first one is the result TLV with \<open>QMUXResult\<close> at 16 and \<open>QMUXError\<close> at 18); for a
  control message 6 \<open>CtlFlags\<close>, 7 \<open>TransactionId\<close> (one byte), 8 \<open>QMICTLType\<close>, 10 \<open>Length\<close>,
  12 the TLVs.
\<close>

definition QMUX_TYPE_CTL :: byte where "QMUX_TYPE_CTL = 0x00"
definition QMUX_TYPE_WDS :: byte where "QMUX_TYPE_WDS = 0x01"
definition QMUX_TYPE_DMS :: byte where "QMUX_TYPE_DMS = 0x02"
definition QMUX_TYPE_NAS :: byte where "QMUX_TYPE_NAS = 0x03"
definition QMUX_TYPE_UIM :: byte where "QMUX_TYPE_UIM = 0x0B"
definition QMUX_TYPE_WDS_IPV6 :: byte where "QMUX_TYPE_WDS_IPV6 = 0x11"
definition QMUX_TYPE_WDS_ADMIN :: byte where "QMUX_TYPE_WDS_ADMIN = 0x1A"

lemmas qmux_types = QMUX_TYPE_CTL_def QMUX_TYPE_WDS_def QMUX_TYPE_DMS_def QMUX_TYPE_NAS_def
  QMUX_TYPE_UIM_def QMUX_TYPE_WDS_IPV6_def QMUX_TYPE_WDS_ADMIN_def

definition WDM_DEFAULT_BUFSIZE :: nat where "WDM_DEFAULT_BUFSIZE = 256"

section \<open>TLVs\<close>

definition tlv :: "byte \<Rightarrow> byte list \<Rightarrow> byte list" where
  "tlv t v = t # le16 (of_nat (length v)) @ v"

definition tlv8 :: "byte \<Rightarrow> byte \<Rightarrow> byte list" where
  "tlv8 t x = tlv t [x]"

definition tlv32 :: "byte \<Rightarrow> u32 \<Rightarrow> byte list" where
  "tlv32 t x = tlv t (le32 x)"

definition tlv_str :: "byte \<Rightarrow> string \<Rightarrow> byte list" where
  "tlv_str t s = tlv t (bytes_of s)"

lemma length_tlv [simp, layout_simps]: "length (tlv t v) = length v + 3"
  by (simp add: tlv_def)

definition enc_tlvs :: "(byte \<times> byte list) list \<Rightarrow> byte list" where
  "enc_tlvs ts = concat (map (\<lambda>(t, v). tlv t v) ts)"

lemma enc_tlvs_simps [simp]:
  "enc_tlvs [] = []" "enc_tlvs ((t, v) # ts) = tlv t v @ enc_tlvs ts"
  by (simp_all add: enc_tlvs_def)

section \<open>GetTLV\<close>

datatype tlv_res = TlvFound nat | TlvNull | TlvOutOfBounds

text \<open>
  The loop of \<open>GetTLV\<close> over the block \<open>m\<close> with \<open>pTLVHdr\<close> at offset \<open>pos\<close>. \<open>Length\<close> is the
  \<open>USHORT\<close> of the code and wraps. A header read outside the block ends the model with
  \<open>TlvOutOfBounds\<close>; the distance to the end of the block is therefore the measure.
\<close>

function GetTLV_loop :: "byte list \<Rightarrow> nat \<Rightarrow> u16 \<Rightarrow> nat \<Rightarrow> nat \<Rightarrow> tlv_res" where
  "GetTLV_loop m pos Length TLVFind TLVType =
     (if unat Length < 3 then TlvNull
      else (case (if 0x1000 < TLVType then Some (TLVFind + 1 + 0x1000 = TLVType)
                  else map_option (\<lambda>t. unat t = TLVType) (rd8 m pos)) of
          None \<Rightarrow> TlvOutOfBounds
        | Some found \<Rightarrow>
            if found then TlvFound pos
            else (case rd16 m (pos + 1) of
                None \<Rightarrow> TlvOutOfBounds
              | Some len \<Rightarrow>
                  GetTLV_loop m (pos + unat len + 3) (Length - (len + 3)) (TLVFind + 1) TLVType)))"
  by pat_completeness auto
termination
  by (relation "measure (\<lambda>(m, pos, _). length m - pos)")
     (auto simp: rd16_def rd8_def bind_eq_Some_conv split: if_splits)

declare GetTLV_loop.simps [simp del]

text \<open>\<open>GetTLV(&pResponse->MUXMsg.QMUXMsgHdr, type)\<close>: the header is at offset 9.\<close>

definition GetTLV :: "byte list \<Rightarrow> nat \<Rightarrow> tlv_res" where
  "GetTLV m TLVType = (case rd16 m 11 of None \<Rightarrow> TlvOutOfBounds
     | Some Length \<Rightarrow> GetTLV_loop m 13 Length 0 TLVType)"

section \<open>Composing requests\<close>

definition GetQMUXTransactionId :: "nat \<Rightarrow> u16 \<times> nat" where
  "GetQMUXTransactionId TransactionId =
     (let n = TransactionId + 1; n' = (if 0xFFFF < n then 1 else n) in (of_nat n', n'))"

text \<open>
  A \<open>CUSTOMQMUX\<close> callback writes the body of the message, the bytes after the four of
  \<open>QMUXMsgHdr\<close>, and returns the \<open>USHORT\<close> size of the message with that header.
\<close>

type_synonym custom = "u16 \<times> byte list"

text \<open>
  \<open>ComposeQMUXMsg\<close>: \<open>None\<close> when the callback or the final \<open>memcpy\<close> leaves the 256 bytes of
  \<open>QMIBuf\<close>; \<open>malloc\<close> succeeds.
\<close>

definition ComposeQMUXMsg ::
  "byte \<Rightarrow> u16 \<Rightarrow> custom option \<Rightarrow> nat \<Rightarrow> (byte list \<times> nat) option" where
  "ComposeQMUXMsg QMIType Type custom tid =
     (let (TransactionId, tid') = GetQMUXTransactionId tid;
          (ret, body) = (case custom of None \<Rightarrow> (4, []) | Some c \<Rightarrow> c);
          mlen = ret - 4;
          hlen = mlen + 4 + 3 + 6 - 1;
          Length = unat hlen + 1;
          buf = [0x01] @ le16 hlen @ [0x00, QMIType, 0x00] @ [0x00] @ le16 TransactionId
                @ le16 Type @ le16 mlen @ body
      in if WDM_DEFAULT_BUFSIZE < 13 + length body \<or> WDM_DEFAULT_BUFSIZE < Length then None
         else Some (take Length (buf @ replicate (WDM_DEFAULT_BUFSIZE - length buf) 0), tid'))"

definition is_response :: "byte list \<Rightarrow> byte list \<Rightarrow> bool option" where
  "is_response req rsp = do {
     qt \<leftarrow> rd8 req 4; pt \<leftarrow> rd8 rsp 4; qc \<leftarrow> rd8 req 5; pc \<leftarrow> rd8 rsp 5;
     if qt = pt \<and> qc = pc
     then (if qt = QMUX_TYPE_CTL
           then do { a \<leftarrow> rd8 req 7; b \<leftarrow> rd8 rsp 7; Some (a = b) }
           else do { a \<leftarrow> rd16 req 7; b \<leftarrow> rd16 rsp 7; Some (a = b) })
     else Some False }"

section \<open>GetTLV against the list of TLVs\<close>

text \<open>The specification: the offset of the first TLV with the type.\<close>

fun tlv_offset :: "nat \<Rightarrow> (byte \<times> byte list) list \<Rightarrow> nat \<Rightarrow> nat option" where
  "tlv_offset pos [] t = None"
| "tlv_offset pos ((t', v) # ts) t =
     (if unat t' = t then Some pos else tlv_offset (pos + length v + 3) ts t)"

definition of_offset :: "nat option \<Rightarrow> tlv_res" where
  "of_offset x = (case x of None \<Rightarrow> TlvNull | Some p \<Rightarrow> TlvFound p)"

lemma unat_of_nat_small: "n < 65536 \<Longrightarrow> unat (of_nat n :: u16) = n"
  by (simp add: unat_of_nat)

lemma rd_tlv:
  assumes "length v < 65536"
  shows "rd8 (pre @ tlv t v @ post) (length pre) = Some t"
    and "rd16 (pre @ tlv t v @ post) (length pre + 1) = Some (of_nat (length v))"
proof -
  show "rd8 (pre @ tlv t v @ post) (length pre) = Some t"
    using rd8_append2 [of pre "tlv t v @ post" 0] by (simp add: tlv_def rd_simps)
  have "rd16 (pre @ tlv t v @ post) (length pre + 1) =
      rd16 ((pre @ [t]) @ le16 (of_nat (length v)) @ v @ post) (length (pre @ [t]) + 0)"
    by (simp add: tlv_def)
  then show "rd16 (pre @ tlv t v @ post) (length pre + 1) = Some (of_nat (length v))"
    by (simp only: rd16_append2 rd16_le16)
qed

lemma GetTLV_loop_spec:
  "length (enc_tlvs ts) < 65536 \<Longrightarrow> t \<le> 0x1000 \<Longrightarrow>
   GetTLV_loop (pre @ enc_tlvs ts @ post) (length pre) (of_nat (length (enc_tlvs ts))) k t =
     of_offset (tlv_offset (length pre) ts t)"
proof (induction ts arbitrary: pre k)
  case Nil
  then show ?case by (subst GetTLV_loop.simps) (simp add: of_offset_def)
next
  case (Cons tv ts)
  obtain t' v where tv: "tv = (t', v)" by fastforce
  have lv: "length v < 65536" and lts: "length (enc_tlvs ts) < 65536"
    using Cons.prems tv by simp_all
  have tot: "unat (of_nat (length (enc_tlvs (tv # ts))) :: u16) = length v + 3 + length (enc_tlvs ts)"
    using Cons.prems(1) tv by (subst unat_of_nat_small) simp_all
  have len: "unat (of_nat (length v) :: u16) = length v" using lv by (rule unat_of_nat_small)
  have sub: "(of_nat (length (enc_tlvs (tv # ts))) :: u16) - (of_nat (length v) + 3) =
      of_nat (length (enc_tlvs ts))"
    by (simp add: tv)
  have IH: "GetTLV_loop ((pre @ tlv t' v) @ enc_tlvs ts @ post) (length (pre @ tlv t' v))
      (of_nat (length (enc_tlvs ts))) (k + 1) t =
      of_offset (tlv_offset (length (pre @ tlv t' v)) ts t)"
    using lts Cons.prems(2) by (rule Cons.IH)
  show ?case
    using IH Cons.prems(2) tot len sub rd_tlv [OF lv, of pre t' "enc_tlvs ts @ post"]
    by (subst GetTLV_loop.simps) (auto simp: tv of_offset_def add.assoc)
qed

definition rsp_msg :: "byte list \<Rightarrow> (byte \<times> byte list) list \<Rightarrow> byte list \<Rightarrow> byte list" where
  "rsp_msg hdr ts post = hdr @ le16 (of_nat (length (enc_tlvs ts))) @ enc_tlvs ts @ post"

lemma GetTLV_rsp_msg:
  assumes "length hdr = 11" "length (enc_tlvs ts) < 65536" "t \<le> 0x1000"
  shows "GetTLV (rsp_msg hdr ts post) t = of_offset (tlv_offset 13 ts t)"
proof -
  let ?pre = "hdr @ le16 (of_nat (length (enc_tlvs ts)))"
  have "rd16 (rsp_msg hdr ts post) 11 = Some (of_nat (length (enc_tlvs ts)))"
    using rd16_append2 [of hdr "le16 (of_nat (length (enc_tlvs ts))) @ enc_tlvs ts @ post" 0] assms(1)
    by (simp add: rsp_msg_def rd16_le16)
  moreover have "GetTLV_loop (?pre @ enc_tlvs ts @ post) (length ?pre)
      (of_nat (length (enc_tlvs ts))) 0 t = of_offset (tlv_offset (length ?pre) ts t)"
    using assms(2,3) by (rule GetTLV_loop_spec)
  ultimately show ?thesis using assms(1) by (simp add: GetTLV_def rsp_msg_def)
qed

lemma tlv_offset_value:
  "tlv_offset (length pre) ts t = Some p \<Longrightarrow>
   \<exists>t' v. (t', v) \<in> set ts \<and> unat t' = t \<and> rdn (pre @ enc_tlvs ts @ post) (p + 3) (length v) = Some v"
proof (induction ts arbitrary: pre)
  case (Cons tv ts)
  obtain t' v where tv: "tv = (t', v)" by fastforce
  show ?case
  proof (cases "unat t' = t")
    case True
    have "rdn (pre @ enc_tlvs (tv # ts) @ post) (length pre + 3) (length v) = Some v"
      using rdn_append2 [of pre "enc_tlvs (tv # ts) @ post" 3 "length v"]
      by (simp add: tv rdn_def tlv_def le16_def)
    with True Cons.prems tv show ?thesis by auto
  next
    case False
    with Cons.prems tv have "tlv_offset (length (pre @ tlv t' v)) ts t = Some p"
      by (simp add: add.assoc)
    from Cons.IH [OF this] tv show ?thesis by auto
  qed
qed simp

text \<open>The composed message in the form of \<open>rsp_msg\<close>.\<close>

lemma ComposeQMUXMsg_msg:
  assumes fits: "length (enc_tlvs ts) \<le> 243"
  shows "\<exists>m hdr. ComposeQMUXMsg qt ty (Some (4 + of_nat (length (enc_tlvs ts)), enc_tlvs ts)) tid =
      Some (m, snd (GetQMUXTransactionId tid)) \<and> m = rsp_msg hdr ts [] \<and> length hdr = 11 \<and>
    length m = 13 + length (enc_tlvs ts) \<and> rd16 m 1 = Some (of_nat (length m - 1)) \<and>
    rd8 m 4 = Some qt \<and> rd16 m 7 = Some (fst (GetQMUXTransactionId tid)) \<and> rd16 m 9 = Some ty"
proof -
  let ?n = "length (enc_tlvs ts)" and ?tid = "fst (GetQMUXTransactionId tid)"
  let ?h = "[0x01] @ le16 (of_nat (?n + 12)) @ [0x00, qt, 0x00] @ [0x00] @ le16 ?tid @ le16 ty"
  have h: "length ?h = 11" by simp
  let ?m = "rsp_msg ?h ts []"
  have unat: "unat (of_nat ?n + 12 :: u16) = ?n + 12"
    using unat_of_nat_small [of "?n + 12"] fits by simp
  have mlen: "(of_nat (4 + ?n) :: u16) - 4 = of_nat ?n"
      "(of_nat ?n :: u16) + 4 + 3 + 6 - 1 = of_nat (?n + 12)" by simp_all
  have unat': "unat (of_nat (?n + 12) :: u16) = ?n + 12" using unat by simp
  obtain i i' where tid: "GetQMUXTransactionId tid = (i, i')" by fastforce
  have buf: "([0x01] @ le16 (of_nat (?n + 12)) @ [0x00, qt, 0x00] @ [0x00] @ le16 i @ le16 ty
      @ le16 (of_nat ?n) @ enc_tlvs ts) = ?m"
    by (simp add: rsp_msg_def tid)
  have len: "length ?m = 13 + ?n" by (simp add: rsp_msg_def)
  have cut: "take (?n + 12 + 1) (?m @ z) = ?m" for z using len by simp
  have ok: "\<not> (WDM_DEFAULT_BUFSIZE < 13 + ?n \<or> WDM_DEFAULT_BUFSIZE < ?n + 12 + 1)"
    using fits by (simp add: WDM_DEFAULT_BUFSIZE_def)
  have c: "ComposeQMUXMsg qt ty (Some (of_nat (4 + ?n), enc_tlvs ts)) tid =
      Some (?m, snd (GetQMUXTransactionId tid))"
    unfolding ComposeQMUXMsg_def Let_def option.case(2) case_prod_conv mlen unat' tid snd_conv
      buf if_not_P [OF ok]
    by (simp only: cut [unfolded tid] tid snd_conv)
  have f: "rd16 ?m 1 = Some (of_nat (length ?m - 1))" "rd8 ?m 4 = Some qt"
      "rd16 ?m 7 = Some ?tid" "rd16 ?m 9 = Some ty"
    unfolding len by (simp_all add: rsp_msg_def rd16_def rd8_def le16_def add.commute
        nth_Cons')
  have "(4 + of_nat ?n :: u16) = of_nat (4 + ?n)" by simp
  with c h len f show ?thesis by metis
qed

section \<open>Transaction identifiers\<close>

fun tids :: "nat \<Rightarrow> nat \<Rightarrow> nat" where
  "tids n 0 = n"
| "tids n (Suc k) = snd (GetQMUXTransactionId (tids n k))"

lemma GetQMUXTransactionId_step:
  "n \<le> 65535 \<Longrightarrow> snd (GetQMUXTransactionId n) = n mod 65535 + 1"
  by (cases "n = 65535") (auto simp: GetQMUXTransactionId_def Let_def)

lemma tids_Suc: "n \<le> 65535 \<Longrightarrow> tids n (Suc k) = (n + k) mod 65535 + 1"
proof (induction k)
  case 0
  then show ?case by (simp add: GetQMUXTransactionId_step)
next
  case (Suc k)
  have le: "tids n (Suc k) \<le> 65535" using Suc by (simp add: Suc_le_eq del: tids.simps)
  have "tids n (Suc (Suc k)) = tids n (Suc k) mod 65535 + 1"
    using GetQMUXTransactionId_step [OF le] by simp
  also have "\<dots> = (n + Suc k) mod 65535 + 1"
    using Suc by (simp add: mod_Suc_eq del: tids.simps)
  finally show ?case .
qed

section \<open>Properties\<close>

text \<open>
  On a response whose TLV area is a list of TLVs and whose
  \<open>Length\<close> is the size of that area, \<open>GetTLV\<close> returns the offset of the first TLV with the
  requested type, or NULL when there is none, and never reads outside the block.
\<close>

theorem GetTLV_finds_first:
  assumes "length hdr = 11" "length (enc_tlvs ts) < 65536" "t \<le> 0x1000"
  shows "GetTLV (rsp_msg hdr ts post) t = of_offset (tlv_offset 13 ts t)"
  using assms by (rule GetTLV_rsp_msg)

lemma GetTLV_finds_first_witness:
  "GetTLV (rsp_msg (replicate 11 0) [(0x02, [0, 0, 0, 0]), (0x01, [0x02, 0])] []) 0x01 = TlvFound 20"
  using GetTLV_finds_first [where hdr = "replicate 11 0" and t = 1 and post = "[]"
      and ts = "[(0x02, [0, 0, 0, 0]), (0x01, [0x02, 0])]"]
  by (simp add: of_offset_def)

text \<open>
  \<open>GetTLV\<close> trusts the length of each TLV. When the only TLV of a
  message announces \<open>n > 0\<close> value bytes that the message does not hold, the \<open>USHORT\<close>
  counter wraps below zero and the search for another type runs past the end of the
  block instead of returning NULL.
\<close>

theorem GetTLV_truncated_overreads:
  assumes "length hdr = 11" "0 < n" "n \<le> 65533" "unat t' \<noteq> t" "t \<le> 0x1000"
  shows "GetTLV (hdr @ le16 3 @ t' # le16 (of_nat n)) t = TlvOutOfBounds"
proof -
  let ?m = "hdr @ le16 3 @ t' # le16 (of_nat n)"
  have len: "rd16 ?m 11 = Some 3"
    using rd16_append2 [of hdr "le16 3 @ t' # le16 (of_nat n)" 0] assms(1) by (simp add: rd16_le16)
  have t: "rd8 ?m 13 = Some t'"
    using rd8_append2 [of "hdr @ le16 3" "t' # le16 (of_nat n)" 0] assms(1) by (simp add: rd8_Cons)
  have l: "rd16 ?m 14 = Some (of_nat n)"
    using rd16_append2 [of "hdr @ le16 3 @ [t']" "le16 (of_nat n)" 0] rd16_le16 [of _ "[]"] assms(1)
    by simp
  have n: "unat (of_nat n :: u16) = n" using assms(3) by (intro unat_of_nat_small) simp
  have "(3 :: u16) - (of_nat n + 3) = of_nat (65536 - n)"
    using assms(3) by (simp add: of_nat_diff)
  then have wrap: "unat ((3 :: u16) - (of_nat n + 3)) = 65536 - n"
    using assms(2) by (simp add: unat_of_nat)
  have oob: "rd8 ?m (16 + n) = None" using assms(1) by (simp add: rd8_def)
  have "GetTLV_loop ?m (16 + n) ((3 :: u16) - (of_nat n + 3)) 1 t = TlvOutOfBounds"
    using wrap assms(3,5) oob by (subst GetTLV_loop.simps) simp
  moreover have "GetTLV_loop ?m 13 3 0 t = GetTLV_loop ?m (16 + n) ((3 :: u16) - (of_nat n + 3)) 1 t"
  proof -
    have three: "\<not> unat (3 :: u16) < 3" by simp
    show ?thesis
      using t l n assms(4,5) three
      by (subst GetTLV_loop.simps) (simp add: add.commute del: unat_numeral)
  qed
  ultimately show ?thesis by (simp add: GetTLV_def len)
qed

lemma GetTLV_truncated_overreads_witness:
  "GetTLV (replicate 11 0 @ le16 3 @ 0x10 # le16 (of_nat 1)) 0x01 = TlvOutOfBounds"
  by (rule GetTLV_truncated_overreads) simp_all

text \<open>
  A request composed from a list of TLVs that fits the buffer has
  the announced lengths (\<open>QMIHdr.Length\<close> is the size of the message less one), the
  service, message type and transaction identifier that were asked for, and \<open>GetTLV\<close>
  finds in it exactly the TLVs that were written.
\<close>

theorem ComposeQMUXMsg_roundtrip:
  assumes fits: "length (enc_tlvs ts) \<le> 243" and t: "t \<le> 0x1000"
  shows "\<exists>m. ComposeQMUXMsg qt ty (Some (4 + of_nat (length (enc_tlvs ts)), enc_tlvs ts)) tid =
      Some (m, snd (GetQMUXTransactionId tid)) \<and>
    length m = 13 + length (enc_tlvs ts) \<and> rd16 m 1 = Some (of_nat (length m - 1)) \<and>
    rd8 m 4 = Some qt \<and> rd16 m 7 = Some (fst (GetQMUXTransactionId tid)) \<and> rd16 m 9 = Some ty \<and>
    GetTLV m t = of_offset (tlv_offset 13 ts t)"
proof -
  obtain m hdr where m: "ComposeQMUXMsg qt ty (Some (4 + of_nat (length (enc_tlvs ts)), enc_tlvs ts)) tid =
      Some (m, snd (GetQMUXTransactionId tid))" "m = rsp_msg hdr ts []" "length hdr = 11"
    and f: "length m = 13 + length (enc_tlvs ts) \<and> rd16 m 1 = Some (of_nat (length m - 1)) \<and>
      rd8 m 4 = Some qt \<and> rd16 m 7 = Some (fst (GetQMUXTransactionId tid)) \<and> rd16 m 9 = Some ty"
    using ComposeQMUXMsg_msg [OF fits, of qt ty tid] by auto
  have "GetTLV m t = of_offset (tlv_offset 13 ts t)"
    using m(2,3) fits t by (simp add: GetTLV_rsp_msg)
  with m(1) f show ?thesis by blast
qed

lemma ComposeQMUXMsg_roundtrip_witness:
  "\<exists>m. ComposeQMUXMsg QMUX_TYPE_WDS 0x4D (Some (4 + of_nat (length (enc_tlvs [(0x01, [0x04])])),
      enc_tlvs [(0x01, [0x04])])) 0xFFFF = Some (m, snd (GetQMUXTransactionId 0xFFFF)) \<and>
    length m = 13 + length (enc_tlvs [(0x01, [0x04])]) \<and> rd16 m 1 = Some (of_nat (length m - 1)) \<and>
    rd8 m 4 = Some QMUX_TYPE_WDS \<and> rd16 m 7 = Some (fst (GetQMUXTransactionId 0xFFFF)) \<and>
    rd16 m 9 = Some 0x4D \<and> GetTLV m 1 = of_offset (tlv_offset 13 [(0x01, [0x04])] 1)"
  by (rule ComposeQMUXMsg_roundtrip) simp_all

text \<open>
  Transaction identifiers are never 0 and stay within 16 bits,
  and any 65535 consecutive requests carry pairwise different identifiers, so a response
  can only be attributed to the request it answers.
\<close>

theorem transaction_ids_distinct:
  assumes "n \<le> 65535" "i < j" "j < i + 65535"
  shows "1 \<le> tids n (Suc i) \<and> tids n (Suc i) \<le> 65535 \<and> tids n (Suc i) \<noteq> tids n (Suc j)"
proof -
  have "(n + i) mod 65535 \<noteq> (n + j) mod 65535"
  proof
    assume "(n + i) mod 65535 = (n + j) mod 65535"
    then have "65535 dvd (n + j) - (n + i)" using assms by (intro mod_eq_dvd_iff_nat [THEN iffD1]) auto
    then have "65535 dvd j - i" by simp
    with assms show False by (auto dest: dvd_imp_le)
  qed
  then show ?thesis
    using assms(1) mod_less_divisor [of 65535 "n + i"] by (simp add: tids_Suc Suc_le_eq del: tids.simps)
qed

lemma transaction_ids_distinct_witness:
  "1 \<le> tids 65534 (Suc 0) \<and> tids 65534 (Suc 0) \<le> 65535 \<and> tids 65534 (Suc 0) \<noteq> tids 65534 (Suc 1)"
  by (rule transaction_ids_distinct) simp_all

end
