(* ===== verification/QmiSlot.thy ===== *)
theory QmiSlot
  imports QmiMsg
begin

text \<open>
  The request slot of \<open>QMIThread.c\<close>: \<open>QmiThreadSendQMITimeout\<close>, \<open>QmiThreadRecvQMI\<close> and the
  timed wait \<open>pthread_cond_timeout_np\<close> of \<open>util.c\<close>.

  The main thread stores its request in \<open>s_pRequest\<close>, hands it to the device and waits; the
  reader thread calls \<open>QmiThreadRecvQMI\<close> for every message of the device (or with NULL when
  it stops), which fills \<open>s_pResponse\<close> or sends an event to the main thread. Both hold
  \<open>cm_command_mutex\<close>, so the reader runs only inside the rounds of the wait: a round is
  the list of calls of the reader and the return value of \<open>pthread_cond_timedwait\<close>, any
  value being possible (0 also stands for a spurious wake-up). \<open>None\<close> is a read outside
  the received block, or an environment that gives fewer rounds than the wait needs.
  \<open>malloc\<close> succeeds.
\<close>

definition EINVAL :: int where "EINVAL = 22"
definition ENODEV :: int where "ENODEV = 19"
definition ETIMEDOUT :: int where "ETIMEDOUT = 110"

section \<open>State\<close>

datatype ril_event =
    RIL_REQUEST_QUIT
  | RIL_INDICATE_DEVICE_CONNECTED
  | RIL_INDICATE_DEVICE_DISCONNECTED
  | RIL_UNSOL_RESPONSE_VOICE_NETWORK_STATE_CHANGED
  | RIL_UNSOL_DATA_CALL_LIST_CHANGED
  | MODEM_REPORT_RESET_EVENT
  | RIL_UNSOL_LOOPBACK_CONFIG_IND "byte list"

record qmi_slot =
  s_pRequest :: "byte list option"
  s_pResponse :: "byte list option"
  main_events :: "ril_event list"

definition send_event_to_main :: "ril_event \<Rightarrow> qmi_slot \<Rightarrow> qmi_slot" where
  "send_event_to_main e s = s\<lparr>main_events := main_events s @ [e]\<rparr>"

section \<open>The reader\<close>

text \<open>
  The event of a message that is no response; a message whose type is not read by the
  code is not read here either.
\<close>

definition recv_indication :: "byte list \<Rightarrow> ril_event option option" where
  "recv_indication m = do {
     qt \<leftarrow> rd8 m 4;
     if qt = QMUX_TYPE_CTL then do {
       ty \<leftarrow> rd16 m 8;
       Some (if ty = 0x0024 then Some MODEM_REPORT_RESET_EVENT else None) }
     else if qt = QMUX_TYPE_NAS then do {
       ty \<leftarrow> rd16 m 9;
       Some (if ty = 0x0024 \<or> ty = 0x004E
             then Some RIL_UNSOL_RESPONSE_VOICE_NETWORK_STATE_CHANGED else None) }
     else if qt = QMUX_TYPE_WDS then do {
       ty \<leftarrow> rd16 m 9;
       Some (if ty = 0x0022 then Some RIL_UNSOL_DATA_CALL_LIST_CHANGED else None) }
     else if qt = QMUX_TYPE_WDS_ADMIN then do {
       ty \<leftarrow> rd16 m 9;
       if ty = 0x002F
       then do { p \<leftarrow> rdn m 9 15; Some (Some (RIL_UNSOL_LOOPBACK_CONFIG_IND p)) }
       else Some None }
     else Some None }"

text \<open>The memory block of a message: \<open>QMIHdr.Length + 1\<close> bytes.\<close>

definition copy_msg :: "byte list \<Rightarrow> byte list option" where
  "copy_msg m = do { len \<leftarrow> rd16 m 1; rdn m 0 (unat len + 1) }"

text \<open>The result carries whether \<open>cm_command_cond\<close> is signalled.\<close>

definition QmiThreadRecvQMI :: "byte list option \<Rightarrow> qmi_slot \<Rightarrow> (qmi_slot \<times> bool) option" where
  "QmiThreadRecvQMI pResponse s = (case pResponse of
       None \<Rightarrow>
         Some (if s_pRequest s \<noteq> None then (s\<lparr>s_pRequest := None, s_pResponse := None\<rparr>, True)
               else (s, False))
     | Some m \<Rightarrow> do {
         resp \<leftarrow> (case s_pRequest s of None \<Rightarrow> Some False | Some q \<Rightarrow> is_response q m);
         if resp then do {
           c \<leftarrow> copy_msg m;
           Some (s\<lparr>s_pRequest := None, s_pResponse := Some c\<rparr>, True) }
         else do {
           ev \<leftarrow> recv_indication m;
           Some (case ev of None \<Rightarrow> s | Some e \<Rightarrow> send_event_to_main e s, False) } })"

fun recv_all :: "byte list option list \<Rightarrow> qmi_slot \<Rightarrow> qmi_slot option" where
  "recv_all [] s = Some s"
| "recv_all (m # ms) s = do { (s', _) \<leftarrow> QmiThreadRecvQMI m s; recv_all ms s' }"

section \<open>The wait\<close>

type_synonym wait_round = "byte list option list \<times> int"

fun cond_rounds ::
  "u32 \<Rightarrow> u32 \<Rightarrow> u32 \<Rightarrow> int \<Rightarrow> wait_round list \<Rightarrow> qmi_slot \<Rightarrow> (int \<times> qmi_slot) option" where
  "cond_rounds msecs t i ret [] s = (if i < msecs then None else Some (ret, s))"
| "cond_rounds msecs t i ret ((ms, r) # rs) s =
     (if i < msecs then do {
        s' \<leftarrow> recv_all ms s;
        if r \<noteq> ETIMEDOUT then Some (r, s') else cond_rounds msecs t (i + t) r rs s' }
      else Some (ret, s))"

definition pthread_cond_timeout_np ::
  "u32 \<Rightarrow> wait_round list \<Rightarrow> qmi_slot \<Rightarrow> (int \<times> qmi_slot) option" where
  "pthread_cond_timeout_np msecs rounds s =
     (if msecs \<noteq> 0 then
        let t = msecs div 4; t' = (if t = 0 then 1 else t)
        in cond_rounds msecs t' 0 0 rounds s
      else (case rounds of [] \<Rightarrow> None
            | (ms, r) # rs \<Rightarrow> do { s' \<leftarrow> recv_all ms s; Some (r, s') }))"

text \<open>
  \<open>QmiThreadSendQMITimeout\<close>: \<open>qmidev_send\<close> returns its result and the request, whose header
  it may complete in place (\<open>s_pRequest\<close> points to that block); \<open>want\<close> is
  \<open>ppResponse != NULL\<close>. The result is the return value, \<open>*ppResponse\<close> and the slot. A
  response that nobody wants is freed and \<open>s_pResponse\<close> reset.
\<close>

definition QmiThreadSendQMITimeout ::
  "(byte list \<Rightarrow> (int \<times> byte list) option) \<Rightarrow> byte list option \<Rightarrow> bool \<Rightarrow> u32 \<Rightarrow> wait_round list \<Rightarrow> qmi_slot
   \<Rightarrow> (int \<times> byte list option \<times> qmi_slot) option" where
  "QmiThreadSendQMITimeout qmidev_send pRequest want msecs rounds s = (case pRequest of
       None \<Rightarrow> Some (- EINVAL, None, s)
     | Some req \<Rightarrow> do {
         (ret, req') \<leftarrow> qmidev_send req;
         let s1 = s\<lparr>s_pRequest := Some req', s_pResponse := None\<rparr>;
         if ret = 0 then do {
              (w, s2) \<leftarrow> pthread_cond_timeout_np msecs rounds s1;
              Some (if w = 0 then
                      (case s_pResponse s2 of
                         Some r \<Rightarrow> if want then (0, Some r, s2)
                                   else (0, None, s2\<lparr>s_pResponse := None\<rparr>)
                       | None \<Rightarrow> (- EINVAL, None, s2))
                    else (w, None, s2)) }
            else Some (ret, None, s1) })"

section \<open>Lemmas\<close>

text \<open>
  What the slot can hold while \<open>req\<close> is served: the request and no response, or no request
  and the answer, a complete copy of a received message that answers \<open>req\<close>.
\<close>

definition answer_of :: "byte list \<Rightarrow> byte list option list \<Rightarrow> byte list \<Rightarrow> bool" where
  "answer_of req ms r \<longleftrightarrow>
     (\<exists>m. Some m \<in> set ms \<and> is_response req m = Some True \<and> copy_msg m = Some r)"

definition slot_ok :: "byte list \<Rightarrow> byte list option list \<Rightarrow> qmi_slot \<Rightarrow> bool" where
  "slot_ok req ms s \<longleftrightarrow>
     (s_pRequest s = Some req \<and> s_pResponse s = None) \<or>
     (s_pRequest s = None \<and> (\<forall>r. s_pResponse s = Some r \<longrightarrow> answer_of req ms r))"

lemma answer_of_mono: "answer_of req ms r \<Longrightarrow> set ms \<subseteq> set ms' \<Longrightarrow> answer_of req ms' r"
  unfolding answer_of_def by blast

lemma slot_ok_mono: "slot_ok req ms s \<Longrightarrow> set ms \<subseteq> set ms' \<Longrightarrow> slot_ok req ms' s"
  unfolding slot_ok_def using answer_of_mono by blast

lemma send_event_slot [simp]:
  "s_pRequest (send_event_to_main e s) = s_pRequest s"
  "s_pResponse (send_event_to_main e s) = s_pResponse s"
  by (simp_all add: send_event_to_main_def)

text \<open>The three outcomes of a call of the reader.\<close>

lemma RecvQMI_cases:
  assumes "QmiThreadRecvQMI p s = Some (s', sig)"
  obtains (flush) "p = None" "s_pRequest s \<noteq> None" "s' = s\<lparr>s_pRequest := None, s_pResponse := None\<rparr>" "sig"
  | (answer) m q c where "p = Some m" "s_pRequest s = Some q" "is_response q m = Some True"
      "copy_msg m = Some c" "s' = s\<lparr>s_pRequest := None, s_pResponse := Some c\<rparr>" "sig"
  | (other) "s_pRequest s' = s_pRequest s" "s_pResponse s' = s_pResponse s" "\<not> sig"
proof (cases p)
  case None
  with assms show ?thesis using flush other by (auto simp: QmiThreadRecvQMI_def split: if_splits)
next
  case (Some m)
  obtain resp where resp:
      "(case s_pRequest s of None \<Rightarrow> Some False | Some q \<Rightarrow> is_response q m) = Some resp"
    using assms Some by (auto simp: QmiThreadRecvQMI_def bind_eq_Some_conv)
  show ?thesis
  proof (cases resp)
    case True
    with resp obtain q where q: "s_pRequest s = Some q" "is_response q m = Some True"
      by (cases "s_pRequest s") auto
    with assms Some show ?thesis
      using answer by (auto simp: QmiThreadRecvQMI_def bind_eq_Some_conv)
  next
    case False
    with assms Some resp show ?thesis
      using other by (auto simp: QmiThreadRecvQMI_def bind_eq_Some_conv split: option.splits)
  qed
qed

lemma RecvQMI_slot_ok:
  assumes "QmiThreadRecvQMI p s = Some (s', sig)" "slot_ok req ms s"
  shows "slot_ok req (ms @ [p]) s'"
  using assms(1)
proof (cases rule: RecvQMI_cases)
  case flush
  then show ?thesis by (simp add: slot_ok_def)
next
  case (answer m q c)
  then have "q = req" using assms(2) by (auto simp: slot_ok_def)
  with answer show ?thesis by (auto simp: slot_ok_def answer_of_def)
next
  case other
  have "slot_ok req (ms @ [p]) s" using assms(2) by (rule slot_ok_mono) auto
  with other show ?thesis by (simp add: slot_ok_def)
qed

lemma recv_all_slot_ok:
  "recv_all ps s = Some s' \<Longrightarrow> slot_ok req ms s \<Longrightarrow> slot_ok req (ms @ ps) s'"
proof (induction ps arbitrary: s ms)
  case (Cons p ps)
  then obtain s1 sig where 1: "QmiThreadRecvQMI p s = Some (s1, sig)" "recv_all ps s1 = Some s'"
    by (auto simp: bind_eq_Some_conv)
  from RecvQMI_slot_ok [OF 1(1) Cons.prems(2)] have "slot_ok req (ms @ [p]) s1" .
  from Cons.IH [OF 1(2) this] show ?case by simp
qed simp

lemma cond_rounds_slot_ok:
  "cond_rounds msecs t i ret rounds s = Some (w, s') \<Longrightarrow> slot_ok req ms s \<Longrightarrow>
   slot_ok req (ms @ concat (map fst rounds)) s'"
proof (induction msecs t i ret rounds s arbitrary: ms rule: cond_rounds.induct)
  case (2 msecs t i ret ps r rs s)
  show ?case
  proof (cases "i < msecs")
    case True
    with "2.prems"(1) obtain s1 where s1: "recv_all ps s = Some s1"
      by (auto simp: bind_eq_Some_conv)
    have ok: "slot_ok req (ms @ ps) s1" using s1 "2.prems"(2) by (rule recv_all_slot_ok)
    show ?thesis
    proof (cases "r = ETIMEDOUT")
      case False
      with True s1 "2.prems"(1) have "s' = s1" by simp
      with ok show ?thesis by (auto elim: slot_ok_mono)
    next
      case timeout: True
      with True s1 "2.prems"(1) have "cond_rounds msecs t (i + t) r rs s1 = Some (w, s')" by simp
      from "2.IH" [OF True s1 _ this ok] timeout show ?thesis by simp
    qed
  next
    case False
    with "2.prems" show ?thesis by (auto elim: slot_ok_mono)
  qed
qed (auto split: if_splits)

lemma wait_slot_ok:
  assumes "pthread_cond_timeout_np msecs rounds s = Some (w, s')" "slot_ok req [] s"
  shows "slot_ok req (concat (map fst rounds)) s'"
proof (cases "msecs = 0")
  case True
  with assms(1) obtain ms r rs where r: "rounds = (ms, r) # rs" "recv_all ms s = Some s'"
    by (auto simp: pthread_cond_timeout_np_def bind_eq_Some_conv split: list.splits)
  from recv_all_slot_ok [OF r(2) assms(2)] have "slot_ok req ms s'" by simp
  with r(1) show ?thesis by (auto elim: slot_ok_mono)
next
  case False
  with assms(1) obtain t where "cond_rounds msecs t 0 0 rounds s = Some (w, s')"
    by (auto simp: pthread_cond_timeout_np_def Let_def)
  from cond_rounds_slot_ok [OF this assms(2)] show ?thesis by simp
qed


text \<open>A message long enough for every field that the reader looks at.\<close>

definition readable :: "byte list \<Rightarrow> bool" where
  "readable m \<longleftrightarrow> 24 \<le> length m \<and> (\<forall>len. rd16 m 1 = Some len \<longrightarrow> unat len < length m)"

lemma rd_readable:
  assumes "readable m"
  shows "i < 24 \<Longrightarrow> \<exists>x. rd8 m i = Some x" "i < 23 \<Longrightarrow> \<exists>x. rd16 m i = Some x"
    and "\<exists>c. copy_msg m = Some c"
proof -
  show rd: "i < 24 \<Longrightarrow> \<exists>x. rd8 m i = Some x" "i < 23 \<Longrightarrow> \<exists>x. rd16 m i = Some x" for i
    using assms by (simp_all add: readable_def rd8_Some_iff rd16_Some_iff)
  obtain len where "rd16 m 1 = Some len" using rd(2) [of 1] by auto
  then show "\<exists>c. copy_msg m = Some c"
    using assms by (simp add: copy_msg_def rdn_def readable_def Suc_le_eq)
qed

lemma recv_indication_total: "readable m \<Longrightarrow> \<exists>e. recv_indication m = Some e"
proof -
  assume m: "readable m"
  obtain qt a b where r: "rd8 m 4 = Some qt" "rd16 m 8 = Some a" "rd16 m 9 = Some b"
    using rd_readable(1) [OF m, of 4] rd_readable(2) [OF m, of 8] rd_readable(2) [OF m, of 9] by auto
  have "\<exists>p. rdn m 9 15 = Some p" using m by (simp add: rdn_def readable_def)
  then show ?thesis using r by (auto simp: recv_indication_def)
qed

lemma is_response_total:
  assumes "8 < length q" "readable m" shows "\<exists>b. is_response q m = Some b"
proof -
  have "\<exists>a. rd8 q 4 = Some a" "\<exists>a. rd8 q 5 = Some a" "\<exists>a. rd8 q 7 = Some a" "\<exists>a. rd16 q 7 = Some a"
    using assms(1) by (simp_all add: rd8_Some_iff rd16_Some_iff)
  moreover have "\<exists>a. rd8 m 4 = Some a" "\<exists>a. rd8 m 5 = Some a" "\<exists>a. rd8 m 7 = Some a"
      "\<exists>a. rd16 m 7 = Some a"
    using assms(2) by (simp_all add: rd_readable)
  ultimately show ?thesis by (auto simp: is_response_def)
qed

definition req_ok :: "qmi_slot \<Rightarrow> bool" where
  "req_ok s \<longleftrightarrow> (\<forall>q. s_pRequest s = Some q \<longrightarrow> 8 < length q)"

lemma RecvQMI_total:
  assumes "\<forall>m. p = Some m \<longrightarrow> readable m" "req_ok s"
  shows "\<exists>s' sig. QmiThreadRecvQMI p s = Some (s', sig) \<and> req_ok s'"
proof (cases p)
  case None
  with assms show ?thesis by (cases "s_pRequest s") (auto simp: QmiThreadRecvQMI_def req_ok_def)
next
  case (Some m)
  then have m: "readable m" using assms(1) by simp
  obtain e c where ec: "recv_indication m = Some e" "copy_msg m = Some c"
    using recv_indication_total [OF m] rd_readable(3) [OF m] by auto
  have "\<exists>b. (case s_pRequest s of None \<Rightarrow> Some False | Some q \<Rightarrow> is_response q m) = Some b"
    using is_response_total [OF _ m] assms(2) by (auto simp: req_ok_def split: option.split)
  with Some ec assms(2) show ?thesis
    by (auto simp: QmiThreadRecvQMI_def req_ok_def split: option.split)
qed

lemma recv_all_total:
  "\<forall>m. Some m \<in> set ms \<longrightarrow> readable m \<Longrightarrow> req_ok s \<Longrightarrow> \<exists>s'. recv_all ms s = Some s' \<and> req_ok s'"
proof (induction ms arbitrary: s)
  case (Cons p ms)
  obtain s1 sig where "QmiThreadRecvQMI p s = Some (s1, sig)" "req_ok s1"
    using RecvQMI_total [of p s] Cons.prems by auto
  with Cons show ?case by auto
qed simp

definition readable_env :: "wait_round list \<Rightarrow> bool" where
  "readable_env rounds \<longleftrightarrow> (\<forall>m. Some m \<in> set (concat (map fst rounds)) \<longrightarrow> readable m)"

lemma five_quarters: "12 \<le> n \<Longrightarrow> n \<le> 5 * (n div 4)" "4 * (n div 4) \<le> n" for n :: nat
  by presburger+

text \<open>Five rounds of a quarter of the time cover the whole time.\<close>

lemma cond_rounds_total:
  assumes "12 \<le> unat msecs" "unat msecs < 2 ^ 31" "t = msecs div 4"
  shows "\<lbrakk>k \<le> 5; unat i = k * unat t; 5 - k \<le> length rounds; readable_env rounds; req_ok s\<rbrakk> \<Longrightarrow>
    \<exists>w s'. cond_rounds msecs t i ret rounds s = Some (w, s')"
proof (induction rounds arbitrary: i k ret s)
  case Nil
  have "unat msecs \<le> 5 * unat t"
    using five_quarters(1) [OF assms(1)] assms(3) by (simp add: unat_div)
  then have "\<not> i < msecs" using Nil by (simp add: word_less_nat_alt)
  then show ?case by simp
next
  case (Cons rd rounds)
  obtain ms r where rd: "rd = (ms, r)" by fastforce
  have t: "unat t = unat msecs div 4" using assms(3) by (simp add: unat_div)
  show ?case
  proof (cases "i < msecs")
    case True
    have k: "k < 5"
    proof (rule ccontr)
      assume "\<not> k < 5"
      then have "k = 5" using Cons.prems(1) by simp
      then have "unat msecs \<le> unat i"
        using Cons.prems(2) t five_quarters(1) [OF assms(1)] by simp
      with True show False by (simp add: word_less_nat_alt)
    qed
    obtain s1 where s1: "recv_all ms s = Some s1" "req_ok s1"
      using recv_all_total [of ms s] Cons.prems(4,5) rd by (auto simp: readable_env_def)
    have "unat i + unat t < 2 ^ 32"
    proof -
      have "unat i < unat msecs" using True by (simp add: word_less_nat_alt)
      then show ?thesis using t five_quarters(2) [of "unat msecs"] assms(2) by simp
    qed
    then have i': "unat (i + t) = Suc k * unat t"
      using Cons.prems(2) by (simp add: unat_add_lem [THEN iffD1])
    have "\<exists>w s'. cond_rounds msecs t (i + t) r rounds s1 = Some (w, s')"
      using Cons.prems k rd s1(2) by (intro Cons.IH [OF _ i']) (auto simp: readable_env_def)
    with True s1(1) rd show ?thesis by (cases "r = ETIMEDOUT") simp_all
  qed (simp add: rd)
qed

text \<open>Messages that answer another request, or none, leave the slot as it is.\<close>

definition quiet :: "byte list \<Rightarrow> byte list option \<Rightarrow> bool" where
  "quiet req p \<longleftrightarrow> (\<exists>m. p = Some m \<and> readable m \<and> is_response req m = Some False)"

lemma recv_quiet:
  assumes "quiet req p" "s_pRequest s = Some req"
  shows "\<exists>s'. QmiThreadRecvQMI p s = Some (s', False) \<and> s_pRequest s' = Some req \<and> s_pResponse s' = s_pResponse s"
proof -
  from assms(1) obtain m where p: "p = Some m" and m: "readable m" and n: "is_response req m = Some False"
    by (auto simp: quiet_def)
  obtain e where "recv_indication m = Some e" using recv_indication_total [OF m] by blast
  then show ?thesis using assms(2) p n by (simp add: QmiThreadRecvQMI_def split: option.split)
qed

lemma recv_all_quiet:
  "\<forall>p \<in> set ps. quiet req p \<Longrightarrow> s_pRequest s = Some req \<Longrightarrow>
   \<exists>s'. recv_all ps s = Some s' \<and> s_pRequest s' = Some req \<and> s_pResponse s' = s_pResponse s"
proof (induction ps arbitrary: s)
  case (Cons p ps)
  obtain s1 where s1: "QmiThreadRecvQMI p s = Some (s1, False)" "s_pRequest s1 = Some req"
      "s_pResponse s1 = s_pResponse s"
    using recv_quiet [of req p s] Cons.prems by auto
  with Cons.IH [OF _ s1(2)] Cons.prems show ?case by auto
qed simp

lemma recv_all_append:
  "recv_all (ps @ qs) s = do { s1 \<leftarrow> recv_all ps s; recv_all qs s1 }"
  by (induction ps arbitrary: s) (auto split: prod.split bind_split simp: bind_eq_Some_conv)

text \<open>Once answered, the slot keeps its response until the next request.\<close>

lemma recv_all_answered:
  assumes "recv_all ps s = Some s'" "s_pRequest s = None"
  shows "s_pRequest s' = None \<and> s_pResponse s' = s_pResponse s"
  using assms
proof (induction ps arbitrary: s)
  case (Cons p ps)
  then obtain s1 sig where 1: "QmiThreadRecvQMI p s = Some (s1, sig)" "recv_all ps s1 = Some s'"
    by (auto simp: bind_eq_Some_conv)
  from 1(1) have "s_pRequest s1 = None \<and> s_pResponse s1 = s_pResponse s"
    by (cases rule: RecvQMI_cases) (simp_all add: Cons.prems(2))
  with Cons.IH [OF 1(2)] show ?case by simp
qed simp


lemma cond_rounds_answer:
  assumes req: "s_pRequest s = Some req"
    and last: "\<forall>p \<in> set pre. quiet req p" "readable m" "is_response req m = Some True"
      "\<forall>m. Some m \<in> set post \<longrightarrow> readable m"
    and t: "12 \<le> unat msecs" "unat msecs < 2 ^ 31" "t = msecs div 4"
  shows "\<lbrakk>\<forall>(ps, r) \<in> set early. r = ETIMEDOUT \<and> (\<forall>p \<in> set ps. quiet req p);
      k + length early < 4; unat i = k * unat t; s_pRequest s = Some req\<rbrakk> \<Longrightarrow>
    \<exists>s'. cond_rounds msecs t i ret (early @ (pre @ Some m # post, 0) # rest) s = Some (0, s') \<and>
      s_pRequest s' = None \<and> s_pResponse s' = copy_msg m"
proof (induction early arbitrary: k i ret s)
  case Nil
  have t4: "4 * unat t \<le> unat msecs" "0 < unat t"
    using five_quarters(2) [of "unat msecs"] t by (simp_all add: unat_div)
  have "k * unat t < 4 * unat t" using Nil.prems(2) t4(2) by simp
  then have i: "i < msecs"
    using less_le_trans [OF _ t4(1)] by (simp only: word_less_nat_alt Nil.prems(3))
  obtain s1 where s1: "recv_all pre s = Some s1" "s_pRequest s1 = Some req"
    using recv_all_quiet [OF last(1) Nil.prems(4)] by auto
  obtain c where c: "copy_msg m = Some c" using rd_readable(3) [OF last(2)] by blast
  let ?s2 = "s1\<lparr>s_pRequest := None, s_pResponse := Some c\<rparr>"
  have "QmiThreadRecvQMI (Some m) s1 = Some (?s2, True)"
    using s1(2) last(3) c by (simp add: QmiThreadRecvQMI_def)
  moreover obtain s3 where s3: "recv_all post ?s2 = Some s3"
    using recv_all_total [OF last(4), of ?s2] by (auto simp: req_ok_def)
  moreover have "s_pRequest s3 = None \<and> s_pResponse s3 = Some c"
    using recv_all_answered [OF s3] by simp
  ultimately show ?case using i s1(1) c by (simp add: recv_all_append ETIMEDOUT_def)
next
  case (Cons e early)
  obtain ps where e: "e = (ps, ETIMEDOUT)" "\<forall>p \<in> set ps. quiet req p" using Cons.prems(1) by auto
  have t4: "4 * unat t \<le> unat msecs" "0 < unat t"
    using five_quarters(2) [of "unat msecs"] t by (simp_all add: unat_div)
  have lt: "k * unat t < 4 * unat t" "Suc k * unat t \<le> 4 * unat t"
    using Cons.prems(2) t4(2) by (simp, intro mult_right_mono, simp_all)
  then have i: "i < msecs"
    using less_le_trans [OF _ t4(1)] by (simp only: word_less_nat_alt Cons.prems(3))
  have i': "unat (i + t) = Suc k * unat t"
  proof -
    have "unat i + unat t < 2 ^ LENGTH(32)"
      using order_trans [OF lt(2) t4(1)] t(2) Cons.prems(3) by simp
    then show ?thesis using Cons.prems(3) by (simp add: unat_add_lem [THEN iffD1])
  qed
  obtain s1 where s1: "recv_all ps s = Some s1" "s_pRequest s1 = Some req"
    using recv_all_quiet [OF e(2) Cons.prems(4)] by auto
  from Cons.IH [OF _ _ i' s1(2)] Cons.prems(1,2) show ?case using i e s1(1) by simp
qed

lemma SendQMI_slot:
  assumes "QmiThreadSendQMITimeout dev (Some req) want msecs rounds s = Some (ret, Some r, s')"
    and "dev req = Some (x, req')"
  shows "ret = 0 \<and> want \<and> s_pRequest s' = None \<and>
    (\<exists>m. Some m \<in> set (concat (map fst rounds)) \<and>
       is_response req' m = Some True \<and> copy_msg m = Some r)"
proof -
  note dev = assms(2)
  let ?s1 = "s\<lparr>s_pRequest := Some req', s_pResponse := None\<rparr>"
  have x: "x = 0" using assms by (auto simp: QmiThreadSendQMITimeout_def dev Let_def split: if_splits)
  with assms obtain w s2 where w: "pthread_cond_timeout_np msecs rounds ?s1 = Some (w, s2)"
    by (auto simp: QmiThreadSendQMITimeout_def dev Let_def bind_eq_Some_conv)
  have res: "w = 0" "ret = 0" "want" "s' = s2" "s_pResponse s2 = Some r"
    using assms x w by (auto simp: QmiThreadSendQMITimeout_def dev Let_def split: if_splits option.splits)
  have "slot_ok req' (concat (map fst rounds)) s2"
    using w by (rule wait_slot_ok) (simp add: slot_ok_def)
  with res dev show ?thesis by (auto simp: slot_ok_def answer_of_def)
qed

section \<open>Properties\<close>

text \<open>
  Property C23 (safety): whatever messages the device sends while a request is pending, in
  whatever order, a response that \<open>QmiThreadSendQMITimeout\<close> hands to its caller is the
  complete copy of a message that was received during the call and that answers this very
  request (same service, client and transaction); the return value is then 0 and the
  request slot is empty.
\<close>

theorem SendQMI_returns_matching_response:
  assumes "QmiThreadSendQMITimeout dev (Some req) want msecs rounds s = Some (ret, Some r, s')"
    and "dev req = Some (x, req')"
  shows "ret = 0 \<and> want \<and> s_pRequest s' = None \<and>
    (\<exists>m. Some m \<in> set (concat (map fst rounds)) \<and>
       is_response req' m = Some True \<and> copy_msg m = Some r)"
  using assms by (rule SendQMI_slot)

definition wds_req :: "byte list" where
  "wds_req = [0x01, 12, 0, 0, 0x01, 7, 0, 5, 0, 0x20, 0, 0, 0]"

definition wds_rsp :: "byte list" where
  "wds_rsp = [0x01, 23, 0, 0x80, 0x01, 7, 2, 5, 0, 0x20, 0, 11, 0, 2, 4, 0, 0, 0, 0, 0, 1, 1, 0, 9]"

definition nas_ind :: "byte list" where
  "nas_ind = [0x01, 23, 0, 0x80, 0x03, 9, 4, 0, 0, 0x4E, 0, 11, 0, 2, 4, 0, 0, 0, 0, 0, 1, 1, 0, 9]"

definition slot0 :: qmi_slot where
  "slot0 = \<lparr>s_pRequest = None, s_pResponse = None, main_events = []\<rparr>"

lemmas slot_eval = QmiThreadSendQMITimeout_def pthread_cond_timeout_np_def QmiThreadRecvQMI_def
  is_response_def recv_indication_def copy_msg_def rd8_def rd16_def rdn_def of_le16_def
  send_event_to_main_def wds_req_def wds_rsp_def nas_ind_def slot0_def ETIMEDOUT_def EINVAL_def
  qmux_types

lemma SendQMI_example:
  "QmiThreadSendQMITimeout (\<lambda>r. Some (0, r)) (Some wds_req) True 30000
     [([Some nas_ind], 110), ([Some wds_rsp], 0)] slot0 =
   Some (0, Some wds_rsp, slot0\<lparr>s_pResponse := Some wds_rsp,
     main_events := [RIL_UNSOL_RESPONSE_VOICE_NETWORK_STATE_CHANGED]\<rparr>)"
  by (simp add: slot_eval Let_def)


lemma SendQMI_returns_matching_response_witness:
  "is_response wds_req wds_rsp = Some True \<and> is_response wds_req nas_ind = Some False \<and>
   (\<exists>m. Some m \<in> set (concat (map fst [([Some nas_ind], 110), ([Some wds_rsp], 0 :: int)])) \<and>
       is_response wds_req m = Some True \<and> copy_msg m = Some wds_rsp)"
  using SendQMI_returns_matching_response [OF SendQMI_example] by (simp add: slot_eval)

text \<open>
  Property C24 (liveness): when the device answers the request in one of the first four
  quarters of the waiting time, every earlier message being an indication or an answer to
  another request, the caller gets the answer: the return value is 0 and the response is
  the complete received message.
\<close>

theorem SendQMI_delivers_answer:
  assumes dev: "dev req = Some (0, req')"
    and t: "12 \<le> unat msecs" "unat msecs < 2 ^ 31"
    and early: "\<forall>(ps, r) \<in> set early. r = ETIMEDOUT \<and> (\<forall>p \<in> set ps. quiet req' p)" "length early < 4"
    and last: "\<forall>p \<in> set pre. quiet req' p" "readable m" "is_response req' m = Some True"
      "\<forall>m. Some m \<in> set post \<longrightarrow> readable m"
  shows "\<exists>s'. QmiThreadSendQMITimeout dev (Some req) True msecs
      (early @ (pre @ Some m # post, 0) # rest) s = Some (0, copy_msg m, s')"
proof -
  let ?s1 = "s\<lparr>s_pRequest := Some req', s_pResponse := None\<rparr>"
  have "msecs \<noteq> 0" and "msecs div 4 \<noteq> 0"
    using t(1) by (auto simp: unat_div word_unat_eq_iff)
  moreover obtain s2 where
      "cond_rounds msecs (msecs div 4) 0 0 (early @ (pre @ Some m # post, 0) # rest) ?s1 = Some (0, s2)"
      "s_pResponse s2 = copy_msg m"
    using cond_rounds_answer [OF _ last t refl early(1), of ?s1 0 0 0 rest] early(2) by auto
  moreover obtain c where "copy_msg m = Some c" using rd_readable(3) [OF last(2)] by blast
  ultimately show ?thesis
    by (simp add: QmiThreadSendQMITimeout_def dev Let_def pthread_cond_timeout_np_def)
qed

lemma SendQMI_delivers_answer_witness:
  "\<exists>s'. QmiThreadSendQMITimeout (\<lambda>r. Some (0, r)) (Some wds_req) True 30000
     ([([Some nas_ind], ETIMEDOUT)] @ ([Some nas_ind] @ Some wds_rsp # [], 0) # []) slot0 =
     Some (0, copy_msg wds_rsp, s')"
  by (rule SendQMI_delivers_answer [where req' = wds_req])
    (simp_all add: quiet_def readable_def slot_eval)

text \<open>
  Property C25 (termination): a request with a time limit always returns. With a limit
  from 12 ms to 2^31 ms, five rounds of the timed wait are enough, whatever
  messages the device sends and whatever each round returns.
\<close>

theorem SendQMI_returns:
  assumes "8 < length req'" "12 \<le> unat msecs" "unat msecs < 2 ^ 31"
    "5 \<le> length rounds" "readable_env rounds"
    "dev req = Some (x, req')"
  shows "QmiThreadSendQMITimeout dev (Some req) want msecs rounds s \<noteq> None"
proof -
  note dev = assms(6)
  let ?s1 = "s\<lparr>s_pRequest := Some req', s_pResponse := None\<rparr>"
  have "msecs \<noteq> 0" and "msecs div 4 \<noteq> 0"
    using assms(2) by (auto simp: unat_div word_unat_eq_iff)
  moreover have "\<exists>w s2. cond_rounds msecs (msecs div 4) 0 0 rounds ?s1 = Some (w, s2)"
    using assms dev by (intro cond_rounds_total [of msecs _ 0]) (simp_all add: req_ok_def)
  ultimately show ?thesis
    by (auto simp: QmiThreadSendQMITimeout_def dev Let_def pthread_cond_timeout_np_def
        split: option.split)
qed

lemma SendQMI_returns_witness:
  "QmiThreadSendQMITimeout (\<lambda>r. Some (0, r)) (Some wds_req) True 30000
     (replicate 5 ([Some nas_ind], ETIMEDOUT)) slot0 \<noteq> None"
  by (rule SendQMI_returns [where req' = wds_req]) (simp_all add: wds_req_def readable_env_def readable_def nas_ind_def
      rd16_def rd8_def of_le16_def)

text \<open>
  An answer that arrives after its request has timed out is never
  taken for the answer of a later request to the same or another service: when every
  message received during the call answers an older request \<open>old\<close> with another
  transaction identifier, the call returns no response.
\<close>

theorem late_answer_not_delivered:
  assumes "\<forall>m. Some m \<in> set (concat (map fst rounds)) \<longrightarrow> is_response old m = Some True"
    and "rd8 old 4 = Some qt" "qt \<noteq> QMUX_TYPE_CTL" "rd16 old 7 \<noteq> rd16 req' 7"
    and "dev req = Some (x, req')"
    and "QmiThreadSendQMITimeout dev (Some req) want msecs rounds s = Some (ret, rsp, s')"
  shows "rsp = None"
proof (rule ccontr)
  assume "rsp \<noteq> None"
  then obtain r where "rsp = Some r" by blast
  with SendQMI_slot [OF assms(6) [unfolded this] assms(5)] obtain m where m:
    "is_response old m = Some True" "is_response req' m = Some True"
    using assms(1) by blast
  from m assms(2-4) show False by (auto simp: is_response_def bind_eq_Some_conv split: if_splits)
qed


definition wds_req2 :: "byte list" where
  "wds_req2 = [0x01, 12, 0, 0, 0x01, 7, 0, 6, 0, 0x20, 0, 0, 0]"

lemma late_example:
  "QmiThreadSendQMITimeout (\<lambda>r. Some (0, r)) (Some wds_req2) True 30000
     [([], 110), ([Some wds_rsp], 110), ([], 110), ([], 110)] slot0 =
   Some (110, None, slot0\<lparr>s_pRequest := Some wds_req2\<rparr>)"
  by (simp add: slot_eval wds_req2_def Let_def)

lemma late_answer_not_delivered_witness:
  "is_response wds_req wds_rsp = Some True \<and> (None :: byte list option) = None"
proof -
  have "(None :: byte list option) = None"
    by (rule late_answer_not_delivered [OF _ _ _ _ _ late_example, where old = wds_req and qt = 1
        and req' = wds_req2 and x = 0])
      (simp_all add: slot_eval wds_req2_def)
  then show ?thesis by (simp add: slot_eval)
qed

text \<open>
  A serving-system, system-info or packet-service indication that
  does not answer the pending request is reported to the main thread as exactly one event,
  after the earlier ones, and leaves the request and the response slot as they are.
\<close>

theorem indication_reported_once:
  assumes "(qt, ty, e) \<in> set [
      (QMUX_TYPE_NAS, 0x0024, RIL_UNSOL_RESPONSE_VOICE_NETWORK_STATE_CHANGED),
      (QMUX_TYPE_NAS, 0x004E, RIL_UNSOL_RESPONSE_VOICE_NETWORK_STATE_CHANGED),
      (QMUX_TYPE_WDS, 0x0022, RIL_UNSOL_DATA_CALL_LIST_CHANGED)]"
    and "rd8 m 4 = Some qt" "rd16 m 9 = Some ty"
    and "s_pRequest s = None \<or> (\<exists>q. s_pRequest s = Some q \<and> is_response q m = Some False)"
  shows "QmiThreadRecvQMI (Some m) s = Some (s\<lparr>main_events := main_events s @ [e]\<rparr>, False)"
proof -
  have ev: "recv_indication m = Some (Some e)"
    using assms(1-3) by (auto simp: recv_indication_def qmux_types)
  have "(case s_pRequest s of None \<Rightarrow> Some False | Some q \<Rightarrow> is_response q m) = Some False"
    using assms(4) by auto
  with ev show ?thesis by (simp add: QmiThreadRecvQMI_def send_event_to_main_def)
qed

lemma indication_reported_once_witness:
  "QmiThreadRecvQMI (Some nas_ind) (slot0\<lparr>s_pRequest := Some wds_req\<rparr>) =
   Some (slot0\<lparr>s_pRequest := Some wds_req,
     main_events := main_events (slot0\<lparr>s_pRequest := Some wds_req\<rparr>)
       @ [RIL_UNSOL_RESPONSE_VOICE_NETWORK_STATE_CHANGED]\<rparr>, False)"
  using indication_reported_once [where qt = QMUX_TYPE_NAS and ty = "0x004E" and m = nas_ind
      and e = RIL_UNSOL_RESPONSE_VOICE_NETWORK_STATE_CHANGED
      and s = "slot0\<lparr>s_pRequest := Some wds_req\<rparr>"]
  by (simp add: slot_eval)

end
