(* ===== verification/Profile.thy ===== *)
theory Profile
  imports Prelude
begin

text \<open>
  The profile of a connection, \<open>PROFILE_T\<close> of \<open>QMIThread.h\<close>: the user's settings, then what
  the program learns about the device and the call. Character arrays and pointers to
  strings are strings; a pointer that may be NULL is an option. The C type \<open>bool\<close> of the
  sources is an unsigned byte that only holds 0 and 1 and is a HOL \<open>bool\<close> here.
\<close>

text \<open>\<open>IPV4_T\<close> and \<open>IPV6_T\<close>: the addresses as the 32-bit values or bytes of the TLVs.\<close>

record IPV4_T =
  Address :: u32
  Gateway :: u32
  SubnetMask :: u32
  DnsPrimary :: u32
  DnsSecondary :: u32
  Mtu :: u32

record IPV6_T =
  Address6 :: "byte list"
  Gateway6 :: "byte list"
  SubnetMask6 :: "byte list"
  DnsPrimary6 :: "byte list"
  DnsSecondary6 :: "byte list"
  PrefixLengthIPAddr :: byte
  PrefixLengthGateway :: byte
  Mtu6 :: u32

text \<open>The part that \<open>parse_user_input\<close> fills.\<close>

record user_input =
  apn :: "string option"
  user :: "string option"
  pd :: "string option"
  auth :: int
  iptype :: int
  pincode :: "string option"
  proxy :: string
  pdp :: int
  profile_index :: int
  enable_bridge :: int
  enable_ipv4 :: bool
  enable_ipv6 :: bool
  no_dhcp :: bool
  logfile :: "string option"
  usblogfile :: "string option"
  expect_adapter :: string
  kill_pdp :: int
  replication_factor :: int

record usb_device_info =
  idVendor :: int
  idProduct :: int
  busnum :: int
  devnum :: int
  bNumInterfaces :: int

text \<open>The fields of \<open>RMNET_INFO\<close> that the program uses for the data format.\<close>

record RMNET_INFO =
  rmnet_size :: u32
  rmnet_rx_urb_size :: u32
  rmnet_ep_type :: u32
  rmnet_iface_id :: u32
  rmnet_qmap_version :: u32
  rmnet_dl_minimum_padding :: u32

text \<open>
  The part that the program fills, without the pointers to the operation tables (the
  tables are modelled as themselves) and the USB trace file.
\<close>

record PROFILE_T = user_input +
  qmichannel :: string
  usbnet_adapter :: string
  qmapnet_adapter :: string
  driver_name :: string
  qmap_mode :: int
  qmap_size :: int
  qmap_version :: int
  curIpFamily :: int
  rawIP :: int
  muxid :: int
  wda_client :: int
  udhcpc_ip :: u32
  ipv4 :: IPV4_T
  ipv6 :: IPV6_T
  PCSCFIpv4Addr1 :: u32
  PCSCFIpv4Addr2 :: u32
  PCSCFIpv6Addr1 :: "byte list"
  PCSCFIpv6Addr2 :: "byte list"
  reattach_flag :: bool
  hardware_interface :: int
  software_interface :: int
  usb_dev :: usb_device_info
  loopback_state :: bool
  BaseBandVersion :: string
  old_apn :: string
  old_user :: string
  old_pd :: string
  old_auth :: int
  old_iptype :: int
  rmnet_info :: RMNET_INFO
  bring_up_by_apn_name :: int
  bring_up_by_apn_type :: int
  apn_type :: int

definition IpFamilyV4 :: int where "IpFamilyV4 = 4"
definition IpFamilyV6 :: int where "IpFamilyV6 = 6"

end
