(* ===== verification/QmiWwan.thy ===== *)
theory QmiWwan
  imports QmiSlot Profile
begin

text \<open>
  The QMI device of the \<open>qmi_wwan\<close> driver, \<open>QmiWwanCM.c\<close>: control messages, the table of
  client identifiers, sending and reading. The environment of each request is one entry
  of \<open>env\<close>: what \<open>poll\<close> and \<open>write\<close> do, and the rounds of the wait (\<open>QmiSlot\<close>). \<open>sent\<close>
  lists the messages that were written completely. \<open>None\<close> is an out-of-range access or an
  environment without an entry.
\<close>

section \<open>State\<close>

text \<open>\<open>pollfds[0].revents & POLLOUT\<close>, the result of \<open>poll\<close>, and \<open>write\<close> by the size.\<close>

record send_io =
  pollout :: bool
  poll_ret :: int
  write_ret :: "nat \<Rightarrow> int"

record qmi_dev =
  cdc_wdm_fd :: bool
  qmiclientId :: "byte list"
  ctl_tid :: nat
  mux_tid :: nat
  slot :: qmi_slot
  sent :: "byte list list"
  env :: "(send_io \<times> wait_round list) list"

definition QMUX_TYPE_ALL :: nat where "QMUX_TYPE_ALL = 255"

section \<open>Control messages\<close>

definition GetQCTLTransactionId :: "nat \<Rightarrow> byte \<times> nat" where
  "GetQCTLTransactionId TransactionId =
     (let n = TransactionId + 1; n' = (if 0xFF < n then 1 else n) in (of_nat n', n'))"

text \<open>
  The callback returns the size of the message with its six-byte header and writes the
  bytes after that header.
\<close>

definition ComposeQCTLMsg :: "u16 \<Rightarrow> custom option \<Rightarrow> nat \<Rightarrow> (byte list \<times> nat) option" where
  "ComposeQCTLMsg QMICTLType custom tid =
     (let (TransactionId, tid') = GetQCTLTransactionId tid;
          (mlen, body) = (case custom of None \<Rightarrow> (0, []) | Some (ret, b) \<Rightarrow> (ret - 6, b));
          hlen = mlen + 6 + 6 - 1;
          Length = unat hlen + 1;
          buf = [0x01] @ le16 hlen @ [0x00, QMUX_TYPE_CTL, 0x00] @ [0x00, TransactionId]
                @ le16 QMICTLType @ le16 mlen @ body
      in if WDM_DEFAULT_BUFSIZE < 12 + length body \<or> WDM_DEFAULT_BUFSIZE < Length then None
         else Some (take Length (buf @ replicate (WDM_DEFAULT_BUFSIZE - length buf) 0), tid'))"

definition CtlGetVersionReq :: custom where
  "CtlGetVersionReq = (10, tlv8 0x01 0xFF)"

definition CtlGetClientIdReq :: "byte \<Rightarrow> custom" where
  "CtlGetClientIdReq QMIType = (10, tlv8 0x01 QMIType)"

definition CtlReleaseClientIdReq :: "byte \<Rightarrow> byte \<Rightarrow> custom" where
  "CtlReleaseClientIdReq QMIType ClientId = (11, tlv 0x01 [QMIType, ClientId])"

definition CtlLibQmiProxyOpenReq :: "string \<Rightarrow> custom" where
  "CtlLibQmiProxyOpenReq device_path =
     (9 + of_nat (length device_path), tlv_str 0x01 device_path)"

section \<open>Sending\<close>

definition QmiWwanSendQMI :: "qmi_dev \<Rightarrow> send_io \<Rightarrow> byte list \<Rightarrow> (int \<times> byte list) option" where
  "QmiWwanSendQMI d io pRequest =
     (if \<not> cdc_wdm_fd d then Some (- ENODEV, pRequest)
      else do {
        qt \<leftarrow> rd8 pRequest 4;
        if qt \<noteq> QMUX_TYPE_CTL \<and> length (qmiclientId d) \<le> unat qt then None else do {
        let req1 = (if qt \<noteq> QMUX_TYPE_CTL then pRequest[5 := qmiclientId d ! unat qt] else pRequest);
        if qt \<noteq> QMUX_TYPE_CTL \<and> qmiclientId d ! unat qt = 0 then Some (- ENODEV, req1)
        else do {
          let req2 = (if qt = QMUX_TYPE_WDS_IPV6 then req1[4 := QMUX_TYPE_WDS] else req1);
          len \<leftarrow> rd16 req2 1;
          Some (if pollout io then
                  let w = write_ret io (unat len + 1)
                  in (if w = int (unat len + 1) then 0 else w, req2)
                else (poll_ret io, req2)) } } })"

definition on_wire :: "qmi_dev \<Rightarrow> send_io \<Rightarrow> byte list option \<Rightarrow> byte list list" where
  "on_wire d io pRequest = (case pRequest of None \<Rightarrow> [] | Some r \<Rightarrow>
     (case QmiWwanSendQMI d io r of
        Some (ret, r') \<Rightarrow> if ret = 0 \<and> pollout io then [r'] else []
      | None \<Rightarrow> []))"

definition QmiSend ::
  "u32 \<Rightarrow> byte list option \<Rightarrow> bool \<Rightarrow> qmi_dev \<Rightarrow> (int \<times> byte list option \<times> qmi_dev) option" where
  "QmiSend msecs pRequest want d = (case env d of [] \<Rightarrow> None
     | (io, rounds) # es \<Rightarrow> do {
         (ret, rsp, sl) \<leftarrow>
           QmiThreadSendQMITimeout (QmiWwanSendQMI d io) pRequest want msecs rounds (slot d);
         Some (ret, rsp, d\<lparr>slot := sl, env := es, sent := sent d @ on_wire d io pRequest\<rparr>) })"

section \<open>Clients\<close>

definition QmiWwanGetClientID :: "byte \<Rightarrow> qmi_dev \<Rightarrow> (byte \<times> qmi_dev) option" where
  "QmiWwanGetClientID QMIType d = do {
     (req, tid) \<leftarrow> ComposeQCTLMsg 0x0022 (Some (CtlGetClientIdReq QMIType)) (ctl_tid d);
     (_, rsp, d1) \<leftarrow> QmiSend 30000 (Some req) True (d\<lparr>ctl_tid := tid\<rparr>);
     case rsp of None \<Rightarrow> Some (0, d1)
     | Some r \<Rightarrow> do {
         QMUXResult \<leftarrow> rd16 r 15; QMUXError \<leftarrow> rd16 r 17; ClientId \<leftarrow> rd8 r 23;
         if QMUXResult = 0 \<and> QMUXError = 0 then do {
           qt \<leftarrow> rd8 r 22;
           Some (if QMIType = qt then ClientId else 0, d1) }
         else Some (0, d1) } }"

definition QmiWwanReleaseClientID :: "byte \<Rightarrow> byte \<Rightarrow> qmi_dev \<Rightarrow> qmi_dev option" where
  "QmiWwanReleaseClientID QMIType ClientId d = do {
     (req, tid) \<leftarrow> ComposeQCTLMsg 0x0023 (Some (CtlReleaseClientIdReq QMIType ClientId)) (ctl_tid d);
     (_, _, d1) \<leftarrow> QmiSend 30000 (Some req) False (d\<lparr>ctl_tid := tid\<rparr>);
     Some d1 }"

definition libqmi_proxy_open :: "string \<Rightarrow> qmi_dev \<Rightarrow> (int \<times> qmi_dev) option" where
  "libqmi_proxy_open cdc_wdm d = do {
     (req, tid) \<leftarrow> ComposeQCTLMsg 0xFF00 (Some (CtlLibQmiProxyOpenReq cdc_wdm)) (ctl_tid d);
     (ret, rsp, d1) \<leftarrow> QmiSend 30000 (Some req) True (d\<lparr>ctl_tid := tid\<rparr>);
     if ret = 0 then (case rsp of None \<Rightarrow> Some (- 1, d1)
       | Some r \<Rightarrow> do {
           res \<leftarrow> rd16 r 15;
           if res \<noteq> 0 then Some (- 1, d1) else do {
             e \<leftarrow> rd16 r 17;
             Some (if e = 0 then 0 else - 1, d1) } })
     else Some (- 1, d1) }"

text \<open>At most \<open>n\<close> synchronisation requests, the next one only after a timeout.\<close>

fun sync_loop :: "nat \<Rightarrow> int \<Rightarrow> qmi_dev \<Rightarrow> (int \<times> qmi_dev) option" where
  "sync_loop 0 ret d = Some (ret, d)"
| "sync_loop (Suc n) ret d = do {
     (req, tid) \<leftarrow> ComposeQCTLMsg 0x0027 None (ctl_tid d);
     (ret', _, d1) \<leftarrow> QmiSend 1000 (Some req) False (d\<lparr>ctl_tid := tid\<rparr>);
     if ret' \<noteq> ETIMEDOUT then Some (ret', d1) else sync_loop n ret' d1 }"

text \<open>
  The scan of the version list: the last entry of the data-format service decides;
  \<open>n\<close> entries are left from entry \<open>i\<close> on.
\<close>

fun scan_versions :: "byte list \<Rightarrow> nat \<Rightarrow> nat \<Rightarrow> int \<Rightarrow> int option" where
  "scan_versions r 0 i v = Some v"
| "scan_versions r (Suc n) i v = do {
     qt \<leftarrow> rd8 r (23 + 5 * i);
     if qt = QMUX_TYPE_WDS_ADMIN then do {
       minor \<leftarrow> rd16 r (26 + 5 * i);
       scan_versions r n (i + 1) (if 16 < unat minor then 1 else 0) }
     else scan_versions r n (i + 1) v }"

definition get_qmap_version :: "byte list option \<Rightarrow> PROFILE_T \<Rightarrow> PROFILE_T option" where
  "get_qmap_version rsp p =
     (if qmap_mode p = 0 then Some p
      else case rsp of None \<Rightarrow> Some p
      | Some r \<Rightarrow> do {
          res \<leftarrow> rd16 r 15;
          if res \<noteq> 0 then Some p else do {
            e \<leftarrow> rd16 r 17;
            if e \<noteq> 0 then Some p else do {
              n \<leftarrow> rd8 r 22;
              v \<leftarrow> scan_versions r (unat n) 0 (qmap_version p);
              Some (p\<lparr>qmap_version := v\<rparr>) } } })"

definition get_client :: "byte \<Rightarrow> byte \<Rightarrow> qmi_dev \<Rightarrow> qmi_dev option" where
  "get_client entry QMIType d = do {
     (cid, d1) \<leftarrow> QmiWwanGetClientID QMIType d;
     Some (d1\<lparr>qmiclientId := (qmiclientId d1)[unat entry := cid]\<rparr>) }"

definition LIBQMI_PROXY :: string where "LIBQMI_PROXY = ''qmi-proxy''"

definition QmiWwanInit :: "PROFILE_T \<Rightarrow> qmi_dev \<Rightarrow> (int \<times> PROFILE_T \<times> qmi_dev) option" where
  "QmiWwanInit p d = do {
     (ret, d1) \<leftarrow> (if proxy p = LIBQMI_PROXY then libqmi_proxy_open (qmichannel p) d
                    else Some (0, d));
     if ret \<noteq> 0 then Some (ret, p, d1) else do {
     (ret, d2) \<leftarrow> (if proxy p = [] then sync_loop 10 0 d1 else Some (0, d1));
     if ret \<noteq> 0 then Some (ret, p, d2) else do {
     (req, tid) \<leftarrow> ComposeQCTLMsg 0x0021 (Some CtlGetVersionReq) (ctl_tid d2);
     (_, rsp, d3) \<leftarrow> QmiSend 30000 (Some req) True (d2\<lparr>ctl_tid := tid\<rparr>);
     p1 \<leftarrow> get_qmap_version rsp p;
     d4 \<leftarrow> get_client QMUX_TYPE_WDS QMUX_TYPE_WDS d3;
     d5 \<leftarrow> (if enable_ipv6 p1 then get_client QMUX_TYPE_WDS_IPV6 QMUX_TYPE_WDS d4 else Some d4);
     d6 \<leftarrow> get_client QMUX_TYPE_DMS QMUX_TYPE_DMS d5;
     d7 \<leftarrow> get_client QMUX_TYPE_NAS QMUX_TYPE_NAS d6;
     d8 \<leftarrow> get_client QMUX_TYPE_UIM QMUX_TYPE_UIM d7;
     d9 \<leftarrow> get_client QMUX_TYPE_WDS_ADMIN QMUX_TYPE_WDS_ADMIN d8;
     Some (0, p1\<lparr>wda_client := int (unat (qmiclientId d9 ! unat QMUX_TYPE_WDS_ADMIN))\<rparr>, d9) } } }"

text \<open>The loop of \<open>QmiWwanDeInit\<close> over the table entries \<open>is\<close>.\<close>

fun DeInit_loop :: "nat list \<Rightarrow> qmi_dev \<Rightarrow> qmi_dev option" where
  "DeInit_loop [] d = Some d"
| "DeInit_loop (i # is) d =
     (if qmiclientId d ! i \<noteq> 0 then do {
        d1 \<leftarrow> QmiWwanReleaseClientID
                (if unat QMUX_TYPE_WDS_IPV6 = i then QMUX_TYPE_WDS else of_nat i) (qmiclientId d ! i) d;
        DeInit_loop is (d1\<lparr>qmiclientId := (qmiclientId d1)[i := 0]\<rparr>) }
      else DeInit_loop is d)"

definition QmiWwanDeInit :: "qmi_dev \<Rightarrow> qmi_dev option" where
  "QmiWwanDeInit d = DeInit_loop [0..<length (qmiclientId d)] d"

section \<open>Lemmas\<close>

lemma ComposeQCTLMsg_ok:
  assumes "n + 12 \<le> 256" "length body = n"
  shows "ComposeQCTLMsg ty (Some (of_nat (6 + n), body)) tid =
    Some ([0x01] @ le16 (of_nat (n + 11)) @ [0x00, QMUX_TYPE_CTL, 0x00]
      @ [0x00, fst (GetQCTLTransactionId tid)] @ le16 ty @ le16 (of_nat n) @ body,
      snd (GetQCTLTransactionId tid))"
proof -
  obtain i i' where tid: "GetQCTLTransactionId tid = (i, i')" by fastforce
  have mlen: "(of_nat (6 + n) :: u16) - 6 = of_nat n" "(of_nat n :: u16) + 6 + 6 - 1 = of_nat (n + 11)"
    by simp_all
  have unat: "unat (of_nat (n + 11) :: u16) = n + 11"
    using assms(1) by (intro unat_of_nat_small) simp
  have ok: "\<not> (WDM_DEFAULT_BUFSIZE < 12 + length body \<or> WDM_DEFAULT_BUFSIZE < n + 11 + 1)"
    using assms by (simp add: WDM_DEFAULT_BUFSIZE_def)
  show ?thesis
    unfolding ComposeQCTLMsg_def Let_def tid option.case(2) case_prod_conv mlen unat if_not_P [OF ok]
      fst_conv snd_conv
    using assms(2) by (simp add: le16_def take_Cons')
qed

lemma QmiSend_dev:
  assumes "QmiSend msecs req want d = Some (ret, rsp, d')"
  shows "cdc_wdm_fd d' = cdc_wdm_fd d" "qmiclientId d' = qmiclientId d" "ctl_tid d' = ctl_tid d"
    "mux_tid d' = mux_tid d" "\<exists>e. env d = e # env d' \<and> sent d' = sent d @ on_wire d (fst e) req"
  using assms by (auto simp: QmiSend_def bind_eq_Some_conv split: list.splits)

lemma GetQCTLTransactionId_range:
  "fst (GetQCTLTransactionId n) = of_nat (snd (GetQCTLTransactionId n))"
  "n \<le> 255 \<Longrightarrow> 1 \<le> snd (GetQCTLTransactionId n) \<and> snd (GetQCTLTransactionId n) \<le> 255"
  by (auto simp: GetQCTLTransactionId_def Let_def)


lemmas compose_release = ComposeQCTLMsg_ok [of 5 "tlv 0x01 [t, c]" for t c, simplified]

definition release_msg :: "byte \<Rightarrow> byte \<times> byte \<Rightarrow> byte list" where
  "release_msg tid tc = [0x01] @ le16 16 @ [0x00, QMUX_TYPE_CTL, 0x00]
      @ [0x00, tid] @ le16 0x0023 @ le16 5 @ tlv 0x01 [fst tc, snd tc]"

lemma compose_release_msg:
  "ComposeQCTLMsg 0x0023 (Some (CtlReleaseClientIdReq t c)) tid =
     Some (release_msg (fst (GetQCTLTransactionId tid)) (t, c), snd (GetQCTLTransactionId tid))"
  by (simp add: CtlReleaseClientIdReq_def compose_release release_msg_def)

text \<open>An environment in which every message can be written at once.\<close>

definition io_ok :: "send_io \<Rightarrow> bool" where
  "io_ok io \<longleftrightarrow> pollout io \<and> (\<forall>n. write_ret io n = int n)"

lemma ctl_sent:
  assumes "cdc_wdm_fd d" "io_ok io" "rd8 m 4 = Some QMUX_TYPE_CTL" "2 < length m"
  shows "QmiWwanSendQMI d io m = Some (0, m)" "on_wire d io (Some m) = [m]"
proof -
  obtain len where "rd16 m 1 = Some len" using assms(4) rd16_Some_iff [of m 1] by auto
  with assms show "QmiWwanSendQMI d io m = Some (0, m)"
    by (simp add: QmiWwanSendQMI_def Let_def io_ok_def qmux_types)
  then show "on_wire d io (Some m) = [m]" using assms(2) by (simp add: on_wire_def io_ok_def)
qed

lemma release_sent:
  assumes "QmiWwanReleaseClientID t c d = Some d'" "cdc_wdm_fd d" "\<forall>e \<in> set (env d). io_ok (fst e)"
  shows "\<exists>tid. sent d' = sent d @ [release_msg tid (t, c)]"
    "qmiclientId d' = qmiclientId d" "cdc_wdm_fd d'" "\<forall>e \<in> set (env d'). io_ok (fst e)"
proof -
  let ?tid = "fst (GetQCTLTransactionId (ctl_tid d))"
  let ?m = "release_msg ?tid (t, c)" and ?d = "d\<lparr>ctl_tid := snd (GetQCTLTransactionId (ctl_tid d))\<rparr>"
  obtain ret rsp where "QmiSend 30000 (Some ?m) False ?d = Some (ret, rsp, d')"
    using assms(1) by (auto simp: QmiWwanReleaseClientID_def compose_release_msg bind_eq_Some_conv)
  note dev = QmiSend_dev [OF this]
  obtain e where e: "env d = e # env d'" "sent d' = sent d @ on_wire ?d (fst e) (Some ?m)"
    using dev(5) by auto
  have "on_wire ?d (fst e) (Some ?m) = [?m]"
    using assms(2,3) e(1) by (intro ctl_sent) (simp_all add: release_msg_def rd8_def le16_def)
  with e(2) have "sent d' = sent d @ [release_msg ?tid (t, c)]" by simp
  then show "\<exists>tid. sent d' = sent d @ [release_msg tid (t, c)]" by blast
  show "qmiclientId d' = qmiclientId d" "cdc_wdm_fd d'" "\<forall>e \<in> set (env d'). io_ok (fst e)"
    using dev(1,2) e(1) assms(2,3) by simp_all
qed

text \<open>The service that entry \<open>i\<close> of the table belongs to.\<close>

definition service_of :: "nat \<Rightarrow> byte" where
  "service_of i = (if unat QMUX_TYPE_WDS_IPV6 = i then QMUX_TYPE_WDS else of_nat i)"

lemma DeInit_loop_spec:
  "\<lbrakk>DeInit_loop is d = Some d'; cdc_wdm_fd d; \<forall>e \<in> set (env d). io_ok (fst e); distinct is;
    \<forall>i \<in> set is. i < length (qmiclientId d)\<rbrakk> \<Longrightarrow>
   (\<exists>tids. sent d' = sent d @ map2 release_msg tids
      (map (\<lambda>i. (service_of i, qmiclientId d ! i)) (filter (\<lambda>i. qmiclientId d ! i \<noteq> 0) is)) \<and>
      length tids = length (filter (\<lambda>i. qmiclientId d ! i \<noteq> 0) is)) \<and>
   length (qmiclientId d') = length (qmiclientId d) \<and>
   (\<forall>i < length (qmiclientId d). qmiclientId d' ! i = (if i \<in> set is then 0 else qmiclientId d ! i))"
proof (induction "is" arbitrary: d)
  case (Cons i "is")
  show ?case
  proof (cases "qmiclientId d ! i = 0")
    case True
    with Cons show ?thesis by auto
  next
    case False
    with Cons.prems(1) obtain d1 where
      rel: "QmiWwanReleaseClientID (service_of i) (qmiclientId d ! i) d = Some d1"
      and rest: "DeInit_loop is (d1\<lparr>qmiclientId := (qmiclientId d1)[i := 0]\<rparr>) = Some d'"
      by (auto simp: bind_eq_Some_conv service_of_def)
    note rs = release_sent [OF rel Cons.prems(2,3)]
    let ?ids = "(qmiclientId d)[i := 0]"
    have upd: "?ids ! x = qmiclientId d ! x" if "x \<in> set is" for x
      using that Cons.prems(4) by (cases "x = i") simp_all
    have same: "map (\<lambda>i. (service_of i, ?ids ! i)) (filter (\<lambda>i. qmiclientId d ! i \<noteq> 0) is) =
        map (\<lambda>i. (service_of i, qmiclientId d ! i)) (filter (\<lambda>i. qmiclientId d ! i \<noteq> 0) is)"
      "filter (\<lambda>i. ?ids ! i \<noteq> 0) is = filter (\<lambda>i. qmiclientId d ! i \<noteq> 0) is"
      using upd by (auto intro!: filter_cong map_cong)
    have IH: "(\<exists>tids. sent d' = sent d1 @ map2 release_msg tids
        (map (\<lambda>i. (service_of i, ?ids ! i)) (filter (\<lambda>i. ?ids ! i \<noteq> 0) is)) \<and>
        length tids = length (filter (\<lambda>i. ?ids ! i \<noteq> 0) is)) \<and>
      length (qmiclientId d') = length ?ids \<and>
      (\<forall>j < length ?ids. qmiclientId d' ! j = (if j \<in> set is then 0 else ?ids ! j))"
      using Cons.IH [OF rest] rs Cons.prems(4,5) by simp
    then obtain tids where tids: "sent d' = sent d1 @ map2 release_msg tids
        (map (\<lambda>i. (service_of i, qmiclientId d ! i)) (filter (\<lambda>i. qmiclientId d ! i \<noteq> 0) is))"
        "length tids = length (filter (\<lambda>i. qmiclientId d ! i \<noteq> 0) is)"
      unfolding same by blast
    obtain tid where tid: "sent d1 = sent d @ [release_msg tid (service_of i, qmiclientId d ! i)]"
      using rs(1) by blast
    have "\<exists>tids. sent d' = sent d @ map2 release_msg tids
        (map (\<lambda>i. (service_of i, qmiclientId d ! i)) (filter (\<lambda>i. qmiclientId d ! i \<noteq> 0) (i # is))) \<and>
        length tids = length (filter (\<lambda>i. qmiclientId d ! i \<noteq> 0) (i # is))"
      using tids tid False by (intro exI [of _ "tid # tids"]) simp
    moreover have "\<forall>j < length (qmiclientId d).
        qmiclientId d' ! j = (if j \<in> set (i # is) then 0 else qmiclientId d ! j)"
      using IH by (auto simp: nth_list_update)
    ultimately show ?thesis using IH by simp
  qed
qed simp


section \<open>Reading\<close>

text \<open>
  \<open>cm_recv_buf\<close> has 4096 bytes and keeps the bytes of earlier messages behind a shorter
  one. A \<open>read\<close> that fails is \<open>None\<close>.
\<close>

definition RECV_BUF :: nat where "RECV_BUF = 4096"

definition overwrite :: "nat \<Rightarrow> byte list \<Rightarrow> byte list \<Rightarrow> byte list" where
  "overwrite i d b = take i b @ d @ drop (i + length d) b"

text \<open>
  \<open>qmi_proxy_read\<close>: the header, then the rest that the header announces. The count of the
  second \<open>read\<close> is a \<open>size_t\<close>. The result is the return value and the buffer; \<open>None\<close> when
  the bytes of the second \<open>read\<close> do not fit the buffer.
\<close>

definition proxy_rest :: "u16 \<Rightarrow> 64 word" where
  "proxy_rest Length = of_nat (unat Length + 1) - 6"

definition qmi_proxy_read ::
  "byte list option \<Rightarrow> (64 word \<Rightarrow> byte list option) \<Rightarrow> byte list \<Rightarrow> (int \<times> byte list) option" where
  "qmi_proxy_read r1 r2 buf = (case r1 of
       None \<Rightarrow> Some (- 1, buf)
     | Some h \<Rightarrow>
         let buf1 = overwrite 0 h buf in
         if length h = 6 then do {
           len \<leftarrow> rd16 buf1 1;
           if unat len < length buf then
             (case r2 (proxy_rest len) of
                None \<Rightarrow> Some (6 - 1, buf1)
              | Some d \<Rightarrow> if length buf < 6 + length d then None
                          else Some (6 + int (length d), overwrite 6 d buf1))
           else Some (6, buf1) }
         else Some (int (length h), buf1))"

text \<open>
  One iteration of \<open>QmiWwanThread\<close>: what \<open>poll\<close> reports for the control descriptor and for
  the device: \<open>POLLHUP\<close> or \<open>POLLNVAL\<close>, \<open>POLLIN\<close>, and what the read then gives.
\<close>

datatype control_read = CtlQuit | CtlStop | CtlOther

datatype wwan_poll =
    PollTimeout
  | PollFailed
  | PollReady bool "control_read option" bool "(int \<times> byte list) option"

record wwan_thread =
  wait_for_request_quit :: bool
  running :: bool
  recv_buf :: "byte list"
  recvs :: "byte list option list"
  told_main :: "ril_event list"

definition QmiWwanThread_quit :: "wwan_thread \<Rightarrow> wwan_thread" where
  "QmiWwanThread_quit t = t\<lparr>running := False, recvs := recvs t @ [None],
     told_main := told_main t @ [RIL_INDICATE_DEVICE_DISCONNECTED]\<rparr>"

text \<open>The device part: \<open>rd\<close> is the result of the read and the buffer after it.\<close>

definition QmiWwanThread_data :: "int \<times> byte list \<Rightarrow> wwan_thread \<Rightarrow> wwan_thread" where
  "QmiWwanThread_data rd t =
     (let (nreads, b) = rd; t1 = t\<lparr>recv_buf := b\<rparr> in
      if nreads \<le> 0 then t1
      else (case rd16 b 1 of
              Some len \<Rightarrow> if nreads = int (unat len) + 1 then t1\<lparr>recvs := recvs t @ [Some b]\<rparr> else t1
            | None \<Rightarrow> t1))"

definition QmiWwanThread_step :: "wwan_poll \<Rightarrow> wwan_thread \<Rightarrow> wwan_thread" where
  "QmiWwanThread_step e t =
     (if \<not> running t then t else case e of
        PollTimeout \<Rightarrow>
          if wait_for_request_quit t then t\<lparr>recvs := recvs t @ [None]\<rparr> else QmiWwanThread_quit t
      | PollFailed \<Rightarrow> QmiWwanThread_quit t
      | PollReady chup cev dhup rd \<Rightarrow>
          if chup \<or> cev = Some CtlQuit then QmiWwanThread_quit t
          else let t1 = (if cev = Some CtlStop then t\<lparr>wait_for_request_quit := True\<rparr> else t) in
            if dhup then QmiWwanThread_quit t1
            else (case rd of None \<Rightarrow> t1 | Some r \<Rightarrow> QmiWwanThread_data r t1))"

text \<open>The thread after it has opened its device and said so.\<close>

definition QmiWwanThread_start :: "byte list \<Rightarrow> wwan_thread" where
  "QmiWwanThread_start buf = \<lparr>wait_for_request_quit = False, running = True, recv_buf = buf,
     recvs = [], told_main = [RIL_INDICATE_DEVICE_CONNECTED]\<rparr>"

text \<open>
  What a read returns: at most as many bytes as the buffer holds, in a buffer that keeps
  its size. Polls with another result do not occur.
\<close>

definition read_fits :: "wwan_poll \<Rightarrow> bool" where
  "read_fits e \<longleftrightarrow> (case e of PollReady _ _ _ (Some (n, b)) \<Rightarrow> n \<le> int (length b) \<and> length b = RECV_BUF
     | _ \<Rightarrow> True)"

definition thread_inv :: "wwan_thread \<Rightarrow> bool" where
  "thread_inv t \<longleftrightarrow>
     (\<forall>m. Some m \<in> set (recvs t) \<longrightarrow> readable m) \<and>
     (running t \<longrightarrow> RIL_INDICATE_DEVICE_DISCONNECTED \<notin> set (told_main t)) \<and>
     (\<not> running t \<longrightarrow> recvs t \<noteq> [] \<and> last (recvs t) = None \<and>
        count_list (told_main t) RIL_INDICATE_DEVICE_DISCONNECTED = 1)"

definition fitting_step :: "wwan_poll \<Rightarrow> wwan_thread \<Rightarrow> wwan_thread" where
  "fitting_step e t = (if read_fits e then QmiWwanThread_step e t else t)"

lemma quit_inv: "thread_inv t \<Longrightarrow> running t \<Longrightarrow> thread_inv (QmiWwanThread_quit t)"
  by (auto simp: thread_inv_def QmiWwanThread_quit_def count_list_0_iff)

lemma wait_inv: "thread_inv t \<Longrightarrow> thread_inv (t\<lparr>wait_for_request_quit := True\<rparr>)"
  by (simp add: thread_inv_def)

lemma data_inv:
  assumes "thread_inv t" "running t" "n \<le> int (length b)" "length b = RECV_BUF"
  shows "thread_inv (QmiWwanThread_data (n, b) t)"
proof -
  have "readable b" if "rd16 b 1 = Some len" "n = int (unat len) + 1" for len
  proof -
    have "int (unat len) + 1 \<le> int (length b)" using that(2) assms(3) by (simp only:)
    then have "unat len < length b" by linarith
    with that(1) assms(4) show ?thesis by (simp add: readable_def RECV_BUF_def)
  qed
  then show ?thesis
    using assms(1,2) by (auto simp: QmiWwanThread_data_def Let_def thread_inv_def split: option.split)
qed

lemma data_running [simp]: "running (QmiWwanThread_data r t) = running t"
  by (auto simp: QmiWwanThread_data_def Let_def split: option.split prod.split)

lemma step_thread_inv:
  assumes "thread_inv t" shows "thread_inv (fitting_step e t)"
proof (cases "running t \<and> read_fits e")
  case True
  then have run: "running t" and fits: "read_fits e" by simp_all
  show ?thesis
  proof (cases e)
    case PollTimeout
    with assms run quit_inv show ?thesis
      by (auto simp: fitting_step_def QmiWwanThread_step_def fits thread_inv_def)
  next
    case PollFailed
    with assms run fits show ?thesis
      by (simp add: fitting_step_def QmiWwanThread_step_def quit_inv)
  next
    case (PollReady chup cev dhup rd)
    define t1 where "t1 = (if cev = Some CtlStop then t\<lparr>wait_for_request_quit := True\<rparr> else t)"
    have t1: "thread_inv t1" "running t1" using assms run wait_inv by (auto simp: t1_def)
    have "thread_inv (case rd of None \<Rightarrow> t1 | Some r \<Rightarrow> QmiWwanThread_data r t1)"
      using t1 fits PollReady by (cases rd) (auto simp: read_fits_def intro: data_inv)
    with t1 assms run fits PollReady show ?thesis
      by (simp add: fitting_step_def QmiWwanThread_step_def quit_inv t1_def [symmetric] Let_def)
  qed
qed (use assms in \<open>auto simp: fitting_step_def QmiWwanThread_step_def\<close>)

interpretation wwan_reader: started_stepper fitting_step thread_inv "QmiWwanThread_start buf" for buf
proof
  show "thread_inv s \<Longrightarrow> thread_inv (fitting_step e s)" for e s by (rule step_thread_inv)
  show "thread_inv (QmiWwanThread_start buf)" by (simp add: thread_inv_def QmiWwanThread_start_def)
qed

lemma fold_fitting:
  "\<forall>e \<in> set es. read_fits e \<Longrightarrow> fold fitting_step es t = fold QmiWwanThread_step es t"
  by (induction es arbitrary: t) (simp_all add: fitting_step_def)


section \<open>Properties\<close>

text \<open>
  In every run of the reader thread, each message handed to
  \<open>QmiThreadRecvQMI\<close> is complete in the receive buffer; while the thread runs the main
  thread has not been told that the device is gone; and once it has stopped, for
  whatever reason, it has told so exactly once and its last call released a request the
  main thread may still be waiting for.
\<close>

theorem QmiWwanThread_runs:
  assumes "\<forall>e \<in> set es. read_fits e"
  shows "thread_inv (fold QmiWwanThread_step es (QmiWwanThread_start buf))"
  using wwan_reader.reachable_inv [of es buf] fold_fitting [OF assms] by simp

lemma QmiWwanThread_runs_witness:
  "thread_inv (fold QmiWwanThread_step
     [PollReady False None False (Some (24, nas_ind @ replicate (RECV_BUF - 24) 0)),
      PollReady False (Some CtlStop) False None, PollTimeout, PollReady False (Some CtlQuit) False None]
     (QmiWwanThread_start []))"
  by (rule QmiWwanThread_runs) (simp_all add: read_fits_def nas_ind_def RECV_BUF_def)

text \<open>
  \<open>QmiWwanDeInit\<close> with a device that accepts every message
  leaves no client behind: it sends one release request per client in table order,
  naming the service and the identifier, the IPv6 data client as a client of the data
  service, and clears the whole table.
\<close>

theorem DeInit_releases_all_clients:
  assumes "QmiWwanDeInit d = Some d'" "cdc_wdm_fd d" "\<forall>e \<in> set (env d). io_ok (fst e)"
  shows "(\<exists>tids. sent d' = sent d @ map2 release_msg tids
      (map (\<lambda>i. (service_of i, qmiclientId d ! i))
         (filter (\<lambda>i. qmiclientId d ! i \<noteq> 0) [0..<length (qmiclientId d)])) \<and>
      length tids = length (filter (\<lambda>i. qmiclientId d ! i \<noteq> 0) [0..<length (qmiclientId d)])) \<and>
    qmiclientId d' = replicate (length (qmiclientId d)) 0"
proof -
  note loop = DeInit_loop_spec [OF assms(1) [unfolded QmiWwanDeInit_def] assms(2,3)]
  have "qmiclientId d' = replicate (length (qmiclientId d)) 0"
    using loop by (intro nth_equalityI) simp_all
  with loop show ?thesis by simp
qed

definition io_good :: send_io where
  "io_good = \<lparr>pollout = True, poll_ret = 1, write_ret = int\<rparr>"

definition dev_two :: qmi_dev where
  "dev_two = \<lparr>cdc_wdm_fd = True, qmiclientId = [0, 7, 9], ctl_tid = 254, mux_tid = 0, slot = slot0,
     sent = [], env = replicate 2 (io_good, replicate 4 ([], ETIMEDOUT))\<rparr>"

lemma ctl_timeout:
  assumes "cdc_wdm_fd d" "rd8 m 4 = Some QMUX_TYPE_CTL" "2 < length m"
    and "env d = (io_good, replicate 4 ([], ETIMEDOUT)) # es"
  shows "QmiSend 30000 (Some m) want d = Some (ETIMEDOUT, None, d\<lparr>env := es, sent := sent d @ [m],
    slot := slot d\<lparr>s_pRequest := Some m, s_pResponse := None\<rparr>\<rparr>)"
proof -
  have four: "replicate 4 x = [x, x, x, x]" for x :: wait_round by (simp add: numeral_eq_Suc)
  have "io_ok io_good" by (simp add: io_ok_def io_good_def)
  note out = ctl_sent [OF assms(1) this assms(2,3)]
  show ?thesis
    unfolding QmiSend_def assms(4) list.case(2) case_prod_conv out QmiThreadSendQMITimeout_def
    by (simp add: out four pthread_cond_timeout_np_def Let_def ETIMEDOUT_def)
qed

lemma release_timeout:
  assumes "cdc_wdm_fd d" "env d = (io_good, replicate 4 ([], ETIMEDOUT)) # es"
  shows "\<exists>d'. QmiWwanReleaseClientID t c d = Some d' \<and> cdc_wdm_fd d' \<and> env d' = es \<and>
    qmiclientId d' = qmiclientId d"
  using ctl_timeout [of "d\<lparr>ctl_tid := snd (GetQCTLTransactionId (ctl_tid d))\<rparr>"
      "release_msg (fst (GetQCTLTransactionId (ctl_tid d))) (t, c)" es False] assms
  by (simp add: QmiWwanReleaseClientID_def compose_release_msg release_msg_def rd8_def le16_def)

lemma DeInit_example:
  "\<exists>d'. QmiWwanDeInit dev_two = Some d'"
proof -
  let ?e = "(io_good, replicate 4 ([], ETIMEDOUT))"
  have d: "cdc_wdm_fd dev_two" "env dev_two = ?e # [?e]" "qmiclientId dev_two = [0, 7, 9]"
    by (simp_all add: dev_two_def numeral_2_eq_2)
  obtain d1 where d1: "QmiWwanReleaseClientID 1 7 dev_two = Some d1" "cdc_wdm_fd d1"
      "env d1 = ?e # []" "qmiclientId d1 = [0, 7, 9]"
    using release_timeout [OF d(1,2), of 1 7] d(3) by auto
  let ?d1 = "d1\<lparr>qmiclientId := [0, 0, 9]\<rparr>"
  obtain d2 where d2: "QmiWwanReleaseClientID 2 9 ?d1 = Some d2"
    using release_timeout [of ?d1 "[]" 2 9] d1 by auto
  have "[0..<length (qmiclientId dev_two)] = [0, 1, 2]" by (simp add: d(3) upt_rec)
  then show ?thesis
    using d(3) d1 d2 by (simp add: QmiWwanDeInit_def qmux_types)
qed

lemma DeInit_releases_all_clients_witness:
  "\<exists>d' tids. QmiWwanDeInit dev_two = Some d' \<and> qmiclientId d' = [0, 0, 0] \<and>
     sent d' = map2 release_msg tids [(0x01, 7), (0x02, 9)]"
proof -
  obtain d' where d': "QmiWwanDeInit dev_two = Some d'" using DeInit_example by blast
  have "cdc_wdm_fd dev_two" "\<forall>e \<in> set (env dev_two). io_ok (fst e)"
    by (simp_all add: dev_two_def io_ok_def io_good_def)
  from DeInit_releases_all_clients [OF d' this] d' show ?thesis
    by (auto simp: dev_two_def service_of_def qmux_types upt_rec numeral_3_eq_3)
qed

lemma send_client:
  assumes "QmiWwanSendQMI d io q = Some (0, r)" "rd8 q 4 = Some qt" "qt \<noteq> QMUX_TYPE_CTL"
    "cdc_wdm_fd d" "5 < length q"
  shows "rd8 r 5 = Some (qmiclientId d ! unat qt)"
    "rd8 r 4 = Some (if qt = QMUX_TYPE_WDS_IPV6 then QMUX_TYPE_WDS else qt)"
proof -
  let ?r1 = "q[5 := qmiclientId d ! unat qt]"
  have r: "r = (if qt = QMUX_TYPE_WDS_IPV6 then ?r1[4 := QMUX_TYPE_WDS] else ?r1)"
    using assms by (auto simp: QmiWwanSendQMI_def Let_def bind_eq_Some_conv ENODEV_def split: if_splits)
  show "rd8 r 5 = Some (qmiclientId d ! unat qt)" using assms(5) by (simp add: r rd8_def)
  show "rd8 r 4 = Some (if qt = QMUX_TYPE_WDS_IPV6 then QMUX_TYPE_WDS else qt)"
    using assms(2,5) by (auto simp: r rd8_def split: if_splits)
qed

text \<open>
  The IPv4 and the IPv6 data client never get each other's answers.
  Both are sent to the data service; a message that answers the IPv4 request has the
  identifier of the IPv4 client, so it is no answer of a request of the IPv6 client.
\<close>

theorem families_do_not_mix:
  assumes "QmiWwanSendQMI d io4 q4 = Some (0, r4)" "rd8 q4 4 = Some QMUX_TYPE_WDS"
    and "QmiWwanSendQMI d io6 q6 = Some (0, r6)" "rd8 q6 4 = Some QMUX_TYPE_WDS_IPV6"
    and "cdc_wdm_fd d" "5 < length q4" "5 < length q6"
    and "qmiclientId d ! unat QMUX_TYPE_WDS \<noteq> qmiclientId d ! unat QMUX_TYPE_WDS_IPV6"
    and "is_response r4 m = Some True"
  shows "rd8 r6 4 = Some QMUX_TYPE_WDS \<and> is_response r6 m = Some False"
proof -
  have "rd8 r4 5 = Some (qmiclientId d ! unat QMUX_TYPE_WDS)"
    using send_client(1) [OF assms(1,2) _ assms(5,6)] by (simp add: qmux_types)
  moreover have "rd8 r6 5 = Some (qmiclientId d ! unat QMUX_TYPE_WDS_IPV6)"
    using send_client(1) [OF assms(3,4) _ assms(5,7)] by (simp add: qmux_types)
  moreover have "rd8 r6 4 = Some QMUX_TYPE_WDS"
    using send_client(2) [OF assms(3,4) _ assms(5,7)] by (simp add: qmux_types)
  moreover have "rd8 m 4 \<noteq> None \<and> rd8 m 5 = rd8 r4 5"
    using assms(9) by (auto simp: is_response_def bind_eq_Some_conv split: if_splits)
  ultimately show ?thesis using assms(8) by (auto simp: is_response_def)
qed


definition dev_46 :: qmi_dev where
  "dev_46 = dev_two\<lparr>qmiclientId := (replicate 255 0)[1 := 7, 17 := 8]\<rparr>"

definition wds6_req :: "byte list" where
  "wds6_req = [0x01, 12, 0, 0, 0x11, 0, 0, 6, 0, 0x20, 0, 0, 0]"

lemma families_do_not_mix_witness:
  "rd8 (wds6_req[5 := 8, 4 := 0x01]) 4 = Some QMUX_TYPE_WDS \<and>
   is_response (wds6_req[5 := 8, 4 := 0x01]) wds_rsp = Some False"
proof -
  have q4: "QmiWwanSendQMI dev_46 io_good wds_req = Some (0, wds_req)"
    by (simp add: QmiWwanSendQMI_def dev_46_def dev_two_def io_good_def wds_req_def rd8_def rd16_def
        of_le16_def qmux_types Let_def)
  have q6: "QmiWwanSendQMI dev_46 io_good wds6_req = Some (0, wds6_req[5 := 8, 4 := 0x01])"
    by (simp add: QmiWwanSendQMI_def dev_46_def dev_two_def io_good_def wds6_req_def rd8_def rd16_def
        of_le16_def qmux_types Let_def)
  show ?thesis
    by (rule families_do_not_mix [OF q4 _ q6])
      (simp_all add: slot_eval wds6_req_def dev_46_def dev_two_def)
qed


lemma overwrite_length [simp]:
  "i + length d \<le> length b \<Longrightarrow> length (overwrite i d b) = length b"
  by (simp add: overwrite_def)

lemma rd16_overwrite:
  "rd16 h (Suc 0) = Some x \<Longrightarrow> length h \<le> length b \<Longrightarrow> rd16 (overwrite 0 h b) (Suc 0) = Some x"
  by (simp add: overwrite_def rd16_mono)

lemma proxy_rest_unat: "5 \<le> unat l \<Longrightarrow> unat (proxy_rest l) = unat l - 5"
proof -
  assume l: "5 \<le> unat l"
  have "unat l < 65536" using unsigned_less [of l, where ?'a = nat] by simp
  moreover have "proxy_rest l = of_nat (unat l - 5)"
    using l unfolding proxy_rest_def by (simp add: of_nat_diff)
  ultimately show ?thesis by (simp add: unat_of_nat)
qed

lemma proxy_rest_wraps: "unat l < 5 \<Longrightarrow> RECV_BUF \<le> unat (proxy_rest l)"
proof -
  assume l: "unat l < 5"
  consider "unat l = 0" | "unat l = 1" | "unat l = 2" | "unat l = 3" | "unat l = 4"
    using l by linarith
  then show ?thesis by cases (simp_all add: proxy_rest_def RECV_BUF_def unsigned_minus_1_eq_mask mask_eq_exp_minus_1)
qed

text \<open>
  Reading a message from a proxy stays within the receive buffer
  when the announced length covers at least the header, and gives at most the announced
  message; so such a read satisfies what the reader thread needs of its reads.
\<close>

theorem proxy_read_in_buffer:
  assumes "length buf = RECV_BUF" "length h = 6" "rd16 h 1 = Some len" "5 \<le> unat len"
    and "\<forall>n d. r2 n = Some d \<longrightarrow> length d \<le> unat n"
  shows "\<exists>n b. qmi_proxy_read (Some h) r2 buf = Some (n, b) \<and> length b = RECV_BUF \<and>
    n \<le> max 6 (int (unat len) + 1) \<and> n \<le> int RECV_BUF"
proof -
  have h: "rd16 (overwrite 0 h buf) 1 = Some len" "length (overwrite 0 h buf) = RECV_BUF"
    using assms(1-3) by (simp_all add: rd16_overwrite RECV_BUF_def)
  show ?thesis
  proof (cases "unat len < length buf")
    case True
    show ?thesis
    proof (cases "r2 (proxy_rest len)")
      case None
      with True h assms(2) show ?thesis by (simp add: qmi_proxy_read_def RECV_BUF_def)
    next
      case (Some d)
      have "length d \<le> unat len - 5" using assms(4,5) Some by (metis proxy_rest_unat)
      then have d: "6 + length d \<le> unat len + 1" using assms(4) by simp
      have "6 + length d \<le> RECV_BUF" using d True assms(1) by simp
      have "int (6 + length d) \<le> int (unat len + 1)" "int 5 \<le> int (unat len)"
        using d assms(4) by (simp_all only: of_nat_le_iff)
      moreover have "6 + int (length d) \<le> int RECV_BUF"
        using \<open>6 + length d \<le> RECV_BUF\<close> by linarith
      ultimately show ?thesis using True Some h \<open>6 + length d \<le> RECV_BUF\<close> assms(1,2)
        by (simp add: qmi_proxy_read_def max_def)
    qed
  next
    case False
    with h assms(1,2) show ?thesis by (simp add: qmi_proxy_read_def RECV_BUF_def)
  qed
qed

lemma proxy_read_in_buffer_witness:
  "\<exists>n b. qmi_proxy_read (Some (take 6 nas_ind)) (\<lambda>_. Some (drop 6 nas_ind)) (replicate RECV_BUF 0)
     = Some (n, b) \<and> length b = RECV_BUF \<and> n \<le> max 6 (int (unat (23 :: u16)) + 1) \<and> n \<le> int RECV_BUF"
proof -
  have "\<exists>n b. qmi_proxy_read (Some (take 6 nas_ind))
      (\<lambda>c. if c = 18 then Some (drop 6 nas_ind) else None) (replicate RECV_BUF 0)
      = Some (n, b) \<and> length b = RECV_BUF \<and> n \<le> max 6 (int (unat (23 :: u16)) + 1) \<and> n \<le> int RECV_BUF"
    by (rule proxy_read_in_buffer) (simp_all add: nas_ind_def rd16_def rd8_def of_le16_def)
  then show ?thesis
    by (simp add: qmi_proxy_read_def proxy_rest_def overwrite_def nas_ind_def rd16_def rd8_def
        of_le16_def RECV_BUF_def split: if_splits)
qed

text \<open>
  A proxy message that announces fewer bytes than its own header makes
  the size of the second \<open>read\<close> wrap to almost 2^64, so the peer can write past the end
  of the receive buffer.
\<close>

theorem proxy_read_underflow:
  assumes "length buf = RECV_BUF" "length h = 6" "rd16 h 1 = Some len" "unat len < 5"
  shows "\<exists>d. length d \<le> unat (proxy_rest len) \<and> qmi_proxy_read (Some h) (\<lambda>_. Some d) buf = None"
proof -
  have h: "rd16 (overwrite 0 h buf) 1 = Some len" "unat len < length buf"
    using assms by (simp_all add: rd16_overwrite RECV_BUF_def)
  then have "qmi_proxy_read (Some h) (\<lambda>_. Some (replicate RECV_BUF 0)) buf = None"
    using assms(1,2) by (simp add: qmi_proxy_read_def)
  then show ?thesis using proxy_rest_wraps [OF assms(4)] by (intro exI [of _ "replicate RECV_BUF 0"]) simp
qed

lemma proxy_read_underflow_witness:
  "\<exists>d. length d \<le> unat (proxy_rest 0) \<and>
     qmi_proxy_read (Some [0x01, 0, 0, 0, 0, 0]) (\<lambda>_. Some d) (replicate RECV_BUF 0) = None"
  by (rule proxy_read_underflow) (simp_all add: rd16_def rd8_def of_le16_def)

text \<open>
  When \<open>poll\<close> times out, \<open>QmiWwanSendQMI\<close> returns the 0 of \<open>poll\<close>, the
  value for success, although nothing was written; the caller then waits for an answer
  that cannot come.
\<close>

theorem poll_timeout_reported_as_sent:
  assumes "cdc_wdm_fd d" "rd8 m 4 = Some QMUX_TYPE_CTL" "2 < length m" "\<not> pollout io" "poll_ret io = 0"
  shows "QmiWwanSendQMI d io m = Some (0, m) \<and> on_wire d io (Some m) = []"
proof -
  obtain len where "rd16 m 1 = Some len" using assms(3) rd16_Some_iff [of m 1] by auto
  with assms have "QmiWwanSendQMI d io m = Some (0, m)"
    by (simp add: QmiWwanSendQMI_def Let_def qmux_types)
  then show ?thesis using assms(4) by (simp add: on_wire_def)
qed

lemma poll_timeout_reported_as_sent_witness:
  "QmiWwanSendQMI dev_two (io_good\<lparr>pollout := False, poll_ret := 0\<rparr>) [1, 11, 0, 0, 0, 0] =
     Some (0, [1, 11, 0, 0, 0, 0]) \<and>
   on_wire dev_two (io_good\<lparr>pollout := False, poll_ret := 0\<rparr>) (Some [1, 11, 0, 0, 0, 0]) = []"
  by (rule poll_timeout_reported_as_sent) (simp_all add: dev_two_def rd8_def qmux_types)

text \<open>
  A client identifier other than 0 that \<open>QmiWwanGetClientID\<close>
  returns comes from an answer to this very request that reports success and names the
  requested service.
\<close>

theorem GetClientID_sound:
  assumes "QmiWwanGetClientID t d = Some (cid, d')" "cid \<noteq> 0"
  shows "\<exists>req r rounds io. ComposeQCTLMsg 0x0022 (Some (CtlGetClientIdReq t)) (ctl_tid d) = Some req \<and>
    hd (env d) = (io, rounds) \<and>
    (\<exists>m. Some m \<in> set (concat (map fst rounds)) \<and> is_response (fst req) m = Some True \<and>
       copy_msg m = Some r) \<and>
    rd16 r 15 = Some 0 \<and> rd16 r 17 = Some 0 \<and> rd8 r 22 = Some t \<and> rd8 r 23 = Some cid"
proof -
  let ?d = "\<lambda>tid. d\<lparr>ctl_tid := tid\<rparr>"
  obtain req tid ret rsp where req: "ComposeQCTLMsg 0x0022 (Some (CtlGetClientIdReq t)) (ctl_tid d) = Some (req, tid)"
    and send: "QmiSend 30000 (Some req) True (?d tid) = Some (ret, rsp, d')"
    and r: "case rsp of None \<Rightarrow> cid = 0 | Some r \<Rightarrow> rd16 r 15 = Some 0 \<and> rd16 r 17 = Some 0 \<and>
      rd8 r 22 = Some t \<and> rd8 r 23 = Some cid"
    using assms
    by (fastforce simp: QmiWwanGetClientID_def bind_eq_Some_conv split: option.splits if_splits)
  obtain r where rsp: "rsp = Some r" using r assms(2) by (cases rsp) auto
  obtain io rounds es sl where env: "env d = (io, rounds) # es"
    and slot: "QmiThreadSendQMITimeout (QmiWwanSendQMI (?d tid) io) (Some req) True 30000 rounds (slot d)
      = Some (ret, Some r, sl)"
    using send rsp by (fastforce simp: QmiSend_def bind_eq_Some_conv split: list.splits)
  obtain x req' where dev: "QmiWwanSendQMI (?d tid) io req = Some (x, req')"
    using slot by (auto simp: QmiThreadSendQMITimeout_def bind_eq_Some_conv)
  have "rd8 req 4 = Some QMUX_TYPE_CTL"
    using req by (simp add: CtlGetClientIdReq_def tlv8_def ComposeQCTLMsg_ok [of 4, simplified]
        rd8_def le16_def) (auto simp: rd8_def le16_def)
  then have "req' = req"
    using dev by (auto simp: QmiWwanSendQMI_def Let_def bind_eq_Some_conv qmux_types split: if_splits)
  with SendQMI_slot [OF slot dev] env req r rsp show ?thesis by auto
qed


definition cid_rsp :: "byte list" where
  "cid_rsp = [0x01, 23, 0, 0x80, 0, 0, 1, 255, 0x22, 0, 12, 0, 2, 4, 0, 0, 0, 0, 0, 1, 2, 0, 1, 7]"

definition dev_cid :: qmi_dev where
  "dev_cid = dev_two\<lparr>env := [(io_good, [([Some cid_rsp], 0)])]\<rparr>"

lemma cid_example: "\<exists>d'. QmiWwanGetClientID 1 dev_cid = Some (7, d')"
proof -
  have compose: "ComposeQCTLMsg 0x0022 (Some (CtlGetClientIdReq 1)) 254 =
      Some ([0x01, 15, 0, 0, 0, 0, 0, 255, 0x22, 0, 4, 0, 1, 1, 0, 1], 255)"
    using ComposeQCTLMsg_ok [where n = 4 and body = "tlv 1 [1]" and ty = "0x0022" and tid = 254]
    by (simp add: CtlGetClientIdReq_def tlv8_def tlv_def le16_def GetQCTLTransactionId_def qmux_types)
  show ?thesis
    unfolding QmiWwanGetClientID_def
    by (simp add: dev_cid_def dev_two_def compose QmiSend_def QmiWwanSendQMI_def slot_eval io_good_def
        Let_def cid_rsp_def)
qed

lemma GetClientID_sound_witness:
  "\<exists>req r. ComposeQCTLMsg 0x0022 (Some (CtlGetClientIdReq 1)) (ctl_tid dev_cid) = Some req \<and>
     is_response (fst req) cid_rsp = Some True \<and> copy_msg cid_rsp = Some r \<and> rd8 r 23 = Some 7"
proof -
  obtain d' where "QmiWwanGetClientID 1 dev_cid = Some (7, d')" using cid_example by blast
  from GetClientID_sound [OF this] show ?thesis by (auto simp: dev_cid_def)
qed

end
