(* ===== verification/QmiBuild.thy ===== *)
theory QmiBuild
  imports QmiMsg Profile
begin

text \<open>
  The \<open>CUSTOMQMUX\<close> callbacks of \<open>QMIThread.c\<close>, which write the body of a request. Each
  result is the size that the callback returns and the bytes it writes after the header
  of the message; a string that ends a body brings its terminating NUL, which the returned
  size leaves out.
\<close>

section \<open>The data call\<close>

definition qmux_body :: "byte list \<Rightarrow> custom" where
  "qmux_body b = (4 + of_nat (length b), b)"

text \<open>The credentials of the call; a CDMA network without any gets the default ones.\<close>

definition start_credentials :: "bool \<Rightarrow> PROFILE_T \<Rightarrow> string option \<times> string option \<times> int" where
  "start_credentials cdma p =
     (if cdma \<and> (user p = None \<or> user p = Some []) \<and> (pd p = None \<or> pd p = Some [])
      then (Some ''ctnet@mycdma.cn'', Some ''vnet.mobi'', 2) else (user p, pd p, auth p))"

definition opt_tlv :: "byte \<Rightarrow> string option \<Rightarrow> (byte \<times> byte list) list" where
  "opt_tlv t s = (case s of None \<Rightarrow> [] | Some x \<Rightarrow> [(t, bytes_of x)])"

text \<open>
  The TLVs of \<open>WdsStartNwInterfaceReq\<close> in the order of the code. The identifiers of the
  profile and the call are stored in single bytes.
\<close>

definition start_tlvs :: "bool \<Rightarrow> PROFILE_T \<Rightarrow> (byte \<times> byte list) list" where
  "start_tlvs cdma p =
     (case start_credentials cdma p of (profile_user, profile_pd, profile_auth) \<Rightarrow>
        [(0x30, [if cdma then 0x02 else 0x01])]
        @ (if cdma then [] else opt_tlv 0x14 (apn p))
        @ opt_tlv 0x17 profile_user
        @ opt_tlv 0x18 profile_pd
        @ (if profile_user \<noteq> None \<and> profile_pd \<noteq> None then [(0x16, [of_int profile_auth])] else [])
        @ [(0x19, [of_int (curIpFamily p)])]
        @ (if idProduct (usb_dev p) \<noteq> 0x0316
           then (if profile_index p \<noteq> 0 \<and> \<not> cdma then [(0x31, [of_int (profile_index p)])] else [])
           else (if bring_up_by_apn_name p \<noteq> 0 then [(0x3C, [of_int (bring_up_by_apn_name p)])] else [])
              @ (if bring_up_by_apn_type p \<noteq> 0 then [(0x3D, [of_int (bring_up_by_apn_type p)])] else [])
              @ (if apn_type p \<noteq> 0 then [(0x38, le32 (of_int (apn_type p)))] else [])))"

definition WdsStartNwInterfaceReq :: "bool \<Rightarrow> PROFILE_T \<Rightarrow> custom" where
  "WdsStartNwInterfaceReq cdma p = qmux_body (enc_tlvs (start_tlvs cdma p))"

definition WdsStopNwInterfaceReq :: "int \<Rightarrow> u32 \<Rightarrow> u32 \<Rightarrow> custom" where
  "WdsStopNwInterfaceReq fam h4 h6 =
     qmux_body (tlv32 0x01 (if fam = IpFamilyV4 then h4 else h6))"

definition WdsSetClientIPFamilyPref :: "byte \<Rightarrow> custom" where
  "WdsSetClientIPFamilyPref pref = qmux_body (tlv8 0x01 pref)"

definition WdsSetAutoConnect :: "byte \<Rightarrow> custom" where
  "WdsSetAutoConnect setting = qmux_body (tlv8 0x01 setting)"

definition WdsGetRuntimeSettingReq :: custom where
  "WdsGetRuntimeSettingReq = qmux_body (tlv32 0x10 0x6B10)"

section \<open>The data format\<close>

record QMAP_SETTING =
  rx_urb_size :: u32
  ep_type :: u32
  iface_id :: u32
  MuxId :: u32
  ul_data_aggregation_max_datagrams :: u32
  ul_data_aggregation_max_size :: u32
  dl_minimum_padding :: u32

definition WdsSetQMUXBindMuxDataPort :: "QMAP_SETTING \<Rightarrow> custom" where
  "WdsSetQMUXBindMuxDataPort s = qmux_body
     (tlv 0x10 (le32 (ep_type s) @ le32 (iface_id s)) @ tlv8 0x11 (ucast (MuxId s)) @ tlv32 0x13 1)"

definition WdaSetDataFormat :: "u32 \<Rightarrow> QMAP_SETTING \<Rightarrow> custom" where
  "WdaSetDataFormat version s =
     (if rx_urb_size s = 0 then qmux_body (tlv8 0x10 0 @ tlv32 0x11 1 @ tlv32 0x13 0)
      else let b = tlv8 0x10 0 @ tlv32 0x11 2 @ tlv32 0x12 version @ tlv32 0x13 version
             @ tlv32 0x15 (rx_urb_size s div 512) @ tlv32 0x16 (rx_urb_size s)
             @ tlv 0x17 (le32 (ep_type s) @ le32 (iface_id s))
        in if ul_data_aggregation_max_datagrams s = 0 then qmux_body b
           else qmux_body (b @ tlv32 0x19 (dl_minimum_padding s)
             @ tlv32 0x1B (ul_data_aggregation_max_datagrams s)
             @ tlv32 0x1C (ul_data_aggregation_max_size s)))"

section \<open>The SIM card\<close>

definition DmsUIMVerifyPinReqSend :: "string \<Rightarrow> custom" where
  "DmsUIMVerifyPinReqSend pin =
     (9 + of_nat (length pin),
      0x01 # le16 (of_nat (2 + length pin)) @ [0x01, of_nat (length pin)] @ bytes_of pin @ [0])"

definition UimVerifyPinReqSend :: "string \<Rightarrow> custom" where
  "UimVerifyPinReqSend pin =
     (14 + of_nat (length pin),
      tlv 0x01 [0x00, 0x00] @ 0x02 # le16 (of_nat (2 + length pin))
        @ [0x01, of_nat (length pin)] @ bytes_of pin @ [0])"

section \<open>Profiles\<close>

definition WdsGetProfileListReqSend :: custom where
  "WdsGetProfileListReqSend = (4, [])"

definition WdsCreateProfileSettingsReqSend :: "PROFILE_T \<Rightarrow> custom" where
  "WdsCreateProfileSettingsReqSend p = qmux_body (tlv8 0x01 0 @ tlv8 0x25 (of_int (pdp p)))"

definition WdsGetProfileSettingsReqSend :: "PROFILE_T \<Rightarrow> custom" where
  "WdsGetProfileSettingsReqSend p = qmux_body (tlv 0x01 [0, of_int (profile_index p)])"

definition modify_tlvs :: "PROFILE_T \<Rightarrow> (byte \<times> byte list) list" where
  "modify_tlvs p = [(0x01, [0, of_int (profile_index p)]), (0x11, [of_int (iptype p)])]
     @ opt_tlv 0x14 (apn p) @ opt_tlv 0x1B (user p) @ opt_tlv 0x1C (pd p)
     @ (if user p \<noteq> None \<and> pd p \<noteq> None then [(0x1D, [of_int (auth p)])] else [])"

text \<open>The NUL of the last string is past the returned size unless the last TLV follows it.\<close>

definition modify_nul :: "PROFILE_T \<Rightarrow> byte list" where
  "modify_nul p =
     (if user p \<noteq> None \<and> pd p \<noteq> None \<or> apn p = None \<and> user p = None \<and> pd p = None then [] else [0])"

definition WdsModifyProfileSettingsReq :: "PROFILE_T \<Rightarrow> custom" where
  "WdsModifyProfileSettingsReq p =
     (4 + of_nat (length (enc_tlvs (modify_tlvs p))), enc_tlvs (modify_tlvs p) @ modify_nul p)"

section \<open>Radio and loop back\<close>

definition DmsSetOperatingModeReq :: "byte \<Rightarrow> custom" where
  "DmsSetOperatingModeReq mode = qmux_body (tlv8 0x01 mode)"

definition UimSetCardSlotReq :: "byte \<Rightarrow> custom" where
  "UimSetCardSlotReq s = qmux_body (tlv8 0x01 s)"

text \<open>The two values are left to the caller; the buffer was cleared.\<close>

definition WdaSetLoopBackReq :: custom where
  "WdaSetLoopBackReq = qmux_body (tlv8 0x01 0 @ tlv32 0x10 0)"

section \<open>What a composed request says\<close>

lemma distinct_tlv_offset:
  assumes "(t, v) \<in> set ts" "distinct (map fst ts)"
  shows "\<exists>p. tlv_offset pos ts (unat t) = Some p"
  using assms(1) by (induction ts arbitrary: pos) (auto split: if_splits)

lemma fst_in_tlvs: "(t, v) \<in> set ts \<Longrightarrow> t \<in> fst ` set ts" by force

text \<open>In a request that was composed from distinct TLVs, each TLV is found with its value.\<close>

lemma ComposeQMUXMsg_found:
  assumes "length (enc_tlvs ts) \<le> 243" "distinct (map fst ts)"
  shows "\<exists>m. ComposeQMUXMsg qt ty (Some (qmux_body (enc_tlvs ts))) tid =
      Some (m, snd (GetQMUXTransactionId tid)) \<and>
    rd8 m 4 = Some qt \<and> rd16 m 9 = Some ty \<and> rd16 m 7 = Some (fst (GetQMUXTransactionId tid)) \<and>
    (\<forall>t v. (t, v) \<in> set ts \<longrightarrow>
       (\<exists>p. GetTLV m (unat t) = TlvFound p \<and> rdn m (p + 3) (length v) = Some v)) \<and>
    (\<forall>t. t \<notin> fst ` set ts \<longrightarrow> GetTLV m (unat t) = TlvNull)"
proof -
  obtain m hdr where m: "ComposeQMUXMsg qt ty (Some (qmux_body (enc_tlvs ts))) tid =
      Some (m, snd (GetQMUXTransactionId tid))" "m = rsp_msg hdr ts []" "length hdr = 11"
      "rd8 m 4 = Some qt" "rd16 m 9 = Some ty" "rd16 m 7 = Some (fst (GetQMUXTransactionId tid))"
    using ComposeQMUXMsg_msg [OF assms(1), of qt ty tid] unfolding qmux_body_def by auto
  have get: "GetTLV m (unat t) = of_offset (tlv_offset 13 ts (unat t))" for t :: byte
  proof -
    have "unat t \<le> 0x1000" using unsigned_less [of t, where ?'a = nat] by simp
    with m(2,3) assms(1) show ?thesis by (simp add: GetTLV_rsp_msg)
  qed
  have "\<exists>p. GetTLV m (unat t) = TlvFound p \<and> rdn m (p + 3) (length v) = Some v"
    if tv: "(t, v) \<in> set ts" for t v
  proof -
    obtain p where p: "tlv_offset 13 ts (unat t) = Some p"
      using distinct_tlv_offset [OF tv assms(2)] by blast
    let ?pre = "hdr @ le16 (of_nat (length (enc_tlvs ts)))"
    have "tlv_offset (length ?pre) ts (unat t) = Some p" using p m(3) by simp
    from tlv_offset_value [OF this, of "[]"] obtain t' v' where v':
      "(t', v') \<in> set ts" "unat t' = unat t" "rdn m (p + 3) (length v') = Some v'"
      using m(2) by (auto simp: rsp_msg_def)
    have "t' = t" using v'(2) by (simp add: word_unat_eq_iff)
    then have "v' = v" using v'(1) tv assms(2) by (auto dest: eq_key_imp_eq_value)
    with get [of t] p v'(3) show ?thesis by (simp add: of_offset_def)
  qed
  moreover have "GetTLV m (unat t) = TlvNull" if "t \<notin> fst ` set ts" for t
  proof -
    have "tlv_offset pos ts (unat t) = None" for pos
      using that by (induction ts arbitrary: pos) (auto simp: word_unat_eq_iff)
    with get [of t] show ?thesis by (simp add: of_offset_def)
  qed
  ultimately show ?thesis using m by blast
qed

end
