(* ===== verification/QmiReq.thy ===== *)
theory QmiReq
  imports QmiWwan QmiBuild
begin

text \<open>
  The requests of \<open>QMIThread.c\<close> (\<open>qmi_request_ops\<close>): data call, addresses, profile, SIM,
  registration, radio. Each composes a message, sends it over the device of \<open>QmiWwan\<close> and
  reads the answer. The file-scope variables are the record \<open>qmi_state\<close>. A result \<open>None\<close>
  is an access outside a message or array, the use of a pointer that is NULL or freed, or
  an environment without an entry for a request.
\<close>

section \<open>State and the common parts\<close>

record qmi_state =
  qdev :: qmi_dev
  WdsConnectionIPv4Handle :: u32
  WdsConnectionIPv6Handle :: u32
  s_is_cdma :: bool
  s_5g_type :: u32
  s_hdr_personality :: int
  s_9x07 :: bool
  g_qmap_version :: int
  driver_qmap :: "QMAP_SETTING list"

definition qmi_request_t ::
  "u32 \<Rightarrow> byte \<Rightarrow> u16 \<Rightarrow> custom option \<Rightarrow> qmi_state \<Rightarrow> (int \<times> byte list option \<times> qmi_state) option" where
  "qmi_request_t msecs QMIType Type custom q = do {
     (req, tid) \<leftarrow> ComposeQMUXMsg QMIType Type custom (mux_tid (qdev q));
     (err, rsp, d) \<leftarrow> QmiSend msecs (Some req) True ((qdev q)\<lparr>mux_tid := tid\<rparr>);
     Some (err, rsp, q\<lparr>qdev := d\<rparr>) }"

definition qmi_request ::
  "byte \<Rightarrow> u16 \<Rightarrow> custom option \<Rightarrow> qmi_state \<Rightarrow> (int \<times> byte list option \<times> qmi_state) option" where
  "qmi_request = qmi_request_t 30000"

text \<open>
  \<open>qmi_rsp_check_and_return\<close>: the value with which the caller returns, or the response
  to go on with.
\<close>

definition qmi_rsp_check_and_return :: "int \<Rightarrow> byte list option \<Rightarrow> (int + byte list) option" where
  "qmi_rsp_check_and_return err rsp =
     (if err < 0 then Some (Inl err)
      else (case rsp of None \<Rightarrow> Some (Inl err)
        | Some r \<Rightarrow> do {
            QMUXResult \<leftarrow> rd16 r 16; QMUXError \<leftarrow> rd16 r 18;
            Some (if QMUXResult \<noteq> 0 \<or> QMUXError \<noteq> 0 then Inl (int (unat QMUXError)) else Inr r) }))"

text \<open>The pointer that \<open>GetTLV\<close> returns.\<close>

definition tlv_get :: "byte list \<Rightarrow> nat \<Rightarrow> nat option option" where
  "tlv_get r t = (case GetTLV r t of TlvFound p \<Rightarrow> Some (Some p) | TlvNull \<Rightarrow> Some None
     | TlvOutOfBounds \<Rightarrow> None)"

text \<open>
  The schema of every request: send, check, and on success continue with the response.
\<close>

definition checked_request ::
  "byte \<Rightarrow> u16 \<Rightarrow> custom option \<Rightarrow> (int \<Rightarrow> qmi_state \<Rightarrow> 'r option)
   \<Rightarrow> (byte list \<Rightarrow> qmi_state \<Rightarrow> 'r option) \<Rightarrow> qmi_state \<Rightarrow> 'r option" where
  "checked_request QMIType Type custom fail k q = do {
     (err, rsp, q1) \<leftarrow> qmi_request QMIType Type custom q;
     c \<leftarrow> qmi_rsp_check_and_return err rsp;
     (case c of Inl e \<Rightarrow> fail e q1 | Inr r \<Rightarrow> k r q1) }"

definition wds_type :: "int \<Rightarrow> byte" where
  "wds_type fam = (if fam = IpFamilyV4 then QMUX_TYPE_WDS else QMUX_TYPE_WDS_IPV6)"

definition handle_of :: "int \<Rightarrow> qmi_state \<Rightarrow> u32" where
  "handle_of fam q = (if fam = IpFamilyV4 then WdsConnectionIPv4Handle q else WdsConnectionIPv6Handle q)"

definition set_handle :: "int \<Rightarrow> u32 \<Rightarrow> qmi_state \<Rightarrow> qmi_state" where
  "set_handle fam h q = (if fam = IpFamilyV4 then q\<lparr>WdsConnectionIPv4Handle := h\<rparr>
     else q\<lparr>WdsConnectionIPv6Handle := h\<rparr>)"

section \<open>The data call\<close>

definition QWDS_PKT_DATA_DISCONNECTED :: byte where "QWDS_PKT_DATA_DISCONNECTED = 1"
definition QWDS_PKT_DATA_CONNECTED :: byte where "QWDS_PKT_DATA_CONNECTED = 2"

text \<open>
  \<open>requestSetupDataCall\<close>. The reads of the call end reason on the error path only feed
  the log, but can leave the message.
\<close>

definition log_end_reason :: "byte list \<Rightarrow> unit option" where
  "log_end_reason r = do {
     t10 \<leftarrow> tlv_get r 0x10;
     _ \<leftarrow> (case t10 of None \<Rightarrow> Some 0 | Some p \<Rightarrow> rd16 r (p + 3));
     t11 \<leftarrow> tlv_get r 0x11;
     _ \<leftarrow> (case t11 of None \<Rightarrow> Some 0 | Some p \<Rightarrow> do { _ \<leftarrow> rd16 r (p + 3); rd16 r (p + 5) });
     Some () }"

definition requestSetupDataCall ::
  "PROFILE_T \<Rightarrow> int \<Rightarrow> qmi_state \<Rightarrow> (int \<times> PROFILE_T \<times> qmi_state) option" where
  "requestSetupDataCall p fam q = do {
     let p1 = p\<lparr>curIpFamily := fam\<rparr>;
     (err, rsp, q1) \<leftarrow> qmi_request_t 120000 (wds_type fam) 0x0020
                         (Some (WdsStartNwInterfaceReq (s_is_cdma q) p1)) q;
     if err < 0 then Some (err, p1, q1)
     else (case rsp of None \<Rightarrow> Some (err, p1, q1)
       | Some r \<Rightarrow> do {
           QMUXResult \<leftarrow> rd16 r 16; QMUXError \<leftarrow> rd16 r 18;
           if QMUXResult \<noteq> 0 \<or> QMUXError \<noteq> 0
           then do { _ \<leftarrow> log_end_reason r; Some (int (unat QMUXError), p1, q1) }
           else do { h \<leftarrow> rd32 r 23; Some (0, p1, set_handle fam h q1) } }) }"

definition requestQueryDataCall :: "byte \<Rightarrow> int \<Rightarrow> qmi_state \<Rightarrow> (int \<times> byte \<times> qmi_state) option" where
  "requestQueryDataCall status fam q =
     checked_request (wds_type fam) 0x0022 None (\<lambda>e q. Some (e, status, q))
       (\<lambda>r q. do {
          t \<leftarrow> tlv_get r 0x01;
          st \<leftarrow> (case t of None \<Rightarrow> Some QWDS_PKT_DATA_DISCONNECTED
             | Some p \<Rightarrow> do {
                 st \<leftarrow> rd8 r (p + 3); len \<leftarrow> rd16 r (p + 1);
                 if len = 2 then do {
                   rc \<leftarrow> rd8 r (p + 4);
                   Some (if rc = 1 then QWDS_PKT_DATA_DISCONNECTED else st) }
                 else Some st });
          Some (0, st, if st = QWDS_PKT_DATA_DISCONNECTED then set_handle fam 0 q else q) }) q"

definition requestDeactivateDefaultPDP :: "int \<Rightarrow> qmi_state \<Rightarrow> (int \<times> qmi_state) option" where
  "requestDeactivateDefaultPDP fam q =
     (if (fam = IpFamilyV4 \<or> fam = IpFamilyV6) \<and> handle_of fam q = 0 then Some (0, q)
      else checked_request (wds_type fam) 0x0021
        (Some (WdsStopNwInterfaceReq fam (WdsConnectionIPv4Handle q) (WdsConnectionIPv6Handle q)))
        (\<lambda>e q. Some (e, q)) (\<lambda>r q. Some (0, set_handle fam 0 q)) q)"

section \<open>Addresses\<close>

definition ipv4_zero :: IPV4_T where
  "ipv4_zero = \<lparr>Address = 0, Gateway = 0, SubnetMask = 0, DnsPrimary = 0, DnsSecondary = 0, Mtu = 0\<rparr>"

definition ipv6_zero :: IPV6_T where
  "ipv6_zero = \<lparr>Address6 = replicate 16 0, Gateway6 = replicate 16 0, SubnetMask6 = replicate 16 0,
     DnsPrimary6 = replicate 16 0, DnsSecondary6 = replicate 16 0, PrefixLengthIPAddr = 0,
     PrefixLengthGateway = 0, Mtu6 = 0\<rparr>"

text \<open>A TLV with a 32-bit value, applied to the profile when it is present.\<close>

definition with_u32 :: "byte list \<Rightarrow> nat \<Rightarrow> (u32 \<Rightarrow> 'a \<Rightarrow> 'a) \<Rightarrow> 'a \<Rightarrow> 'a option" where
  "with_u32 r t f x = do { p \<leftarrow> tlv_get r t;
     case p of None \<Rightarrow> Some x | Some p \<Rightarrow> do { v \<leftarrow> rd32 r (p + 3); Some (f v x) } }"

definition with_ip6 :: "byte list \<Rightarrow> nat \<Rightarrow> (byte list \<Rightarrow> 'a \<Rightarrow> 'a) \<Rightarrow> 'a \<Rightarrow> 'a option" where
  "with_ip6 r t f x = do { p \<leftarrow> tlv_get r t;
     case p of None \<Rightarrow> Some x | Some p \<Rightarrow> do { a \<leftarrow> rdn r (p + 3) 16; Some (f a x) } }"

definition with_ip6_prefix :: "byte list \<Rightarrow> nat \<Rightarrow> (byte list \<Rightarrow> byte \<Rightarrow> 'a \<Rightarrow> 'a) \<Rightarrow> 'a \<Rightarrow> 'a option" where
  "with_ip6_prefix r t f x = do { p \<leftarrow> tlv_get r t;
     case p of None \<Rightarrow> Some x
     | Some p \<Rightarrow> do { a \<leftarrow> rdn r (p + 3) 16; l \<leftarrow> rd8 r (p + 19); Some (f a l x) } }"

definition get_pcscf6 :: "byte list \<Rightarrow> PROFILE_T \<Rightarrow> PROFILE_T option" where
  "get_pcscf6 r p = do { t \<leftarrow> tlv_get r 0x2e;
     case t of None \<Rightarrow> Some p
     | Some i \<Rightarrow> do {
         n \<leftarrow> rd8 r (i + 3);
         if n = 1 then do { a \<leftarrow> rdn r (i + 4) 16; Some (p\<lparr>PCSCFIpv6Addr1 := a\<rparr>) }
         else if n = 2 then do { a \<leftarrow> rdn r (i + 4) 16; b \<leftarrow> rdn r (i + 20) 16;
           Some (p\<lparr>PCSCFIpv6Addr1 := a, PCSCFIpv6Addr2 := b\<rparr>) }
         else Some p } }"

definition get_pcscf4 :: "byte list \<Rightarrow> PROFILE_T \<Rightarrow> PROFILE_T option" where
  "get_pcscf4 r p = do { t \<leftarrow> tlv_get r 0x23;
     case t of None \<Rightarrow> Some p
     | Some i \<Rightarrow> do {
         n \<leftarrow> rd8 r (i + 3);
         if n = 1 then do { a \<leftarrow> rd32 r (i + 4); Some (p\<lparr>PCSCFIpv4Addr1 := a\<rparr>) }
         else if n = 2 then do { a \<leftarrow> rd32 r (i + 4); b \<leftarrow> rd32 r (i + 8);
           Some (p\<lparr>PCSCFIpv4Addr1 := a, PCSCFIpv4Addr2 := b\<rparr>) }
         else Some p } }"

definition parse_ipv4 :: "byte list \<Rightarrow> IPV4_T \<Rightarrow> IPV4_T option" where
  "parse_ipv4 r a = do {
     a \<leftarrow> with_u32 r 0x15 (\<lambda>v a. a\<lparr>DnsPrimary := v\<rparr>) a;
     a \<leftarrow> with_u32 r 0x16 (\<lambda>v a. a\<lparr>DnsSecondary := v\<rparr>) a;
     a \<leftarrow> with_u32 r 0x20 (\<lambda>v a. a\<lparr>Gateway := v\<rparr>) a;
     a \<leftarrow> with_u32 r 0x21 (\<lambda>v a. a\<lparr>SubnetMask := v\<rparr>) a;
     with_u32 r 0x1E (\<lambda>v a. a\<lparr>Address := v\<rparr>) a }"

definition parse_ipv6 :: "byte list \<Rightarrow> IPV6_T \<Rightarrow> IPV6_T option" where
  "parse_ipv6 r a = do {
     a \<leftarrow> with_ip6 r 0x27 (\<lambda>v a. a\<lparr>DnsPrimary6 := v\<rparr>) a;
     a \<leftarrow> with_ip6 r 0x28 (\<lambda>v a. a\<lparr>DnsSecondary6 := v\<rparr>) a;
     a \<leftarrow> with_ip6_prefix r 0x26 (\<lambda>v l a. a\<lparr>Gateway6 := v, PrefixLengthGateway := l\<rparr>) a;
     with_ip6_prefix r 0x25 (\<lambda>v l a. a\<lparr>Address6 := v, PrefixLengthIPAddr := l\<rparr>) a }"

text \<open>The part of \<open>requestGetIPAddress\<close> after the check of the response.\<close>

definition parse_runtime_settings :: "int \<Rightarrow> byte list \<Rightarrow> PROFILE_T \<Rightarrow> PROFILE_T option" where
  "parse_runtime_settings fam r p = do {
     p \<leftarrow> get_pcscf6 r p;
     p \<leftarrow> get_pcscf4 r p;
     a4 \<leftarrow> parse_ipv4 r (ipv4 p);
     a6 \<leftarrow> parse_ipv6 r (ipv6 p);
     (a4, a6) \<leftarrow> with_u32 r 0x29
        (\<lambda>v (a4, a6). if fam = IpFamilyV4 then (a4\<lparr>Mtu := v\<rparr>, a6) else (a4, a6\<lparr>Mtu6 := v\<rparr>)) (a4, a6);
     Some (p\<lparr>ipv4 := a4, ipv6 := a6\<rparr>) }"

definition requestGetIPAddress ::
  "PROFILE_T \<Rightarrow> int \<Rightarrow> qmi_state \<Rightarrow> (int \<times> PROFILE_T \<times> qmi_state) option" where
  "requestGetIPAddress p fam q =
     (let p1 = (if fam = IpFamilyV4 then p\<lparr>ipv4 := ipv4_zero\<rparr>
                else if fam = IpFamilyV6 then p\<lparr>ipv6 := ipv6_zero\<rparr> else p)
      in if (fam = IpFamilyV4 \<or> fam = IpFamilyV6) \<and> handle_of fam q = 0 then Some (0, p1, q)
         else checked_request (wds_type fam) 0x002D (Some WdsGetRuntimeSettingReq)
           (\<lambda>e q. Some (e, p1, q))
           (\<lambda>r q. do { p2 \<leftarrow> parse_runtime_settings fam r p1; Some (0, p2, q) }) q)"


section \<open>The data format\<close>

definition HARDWARE_PCIE :: int where "HARDWARE_PCIE = 5"
definition HARDWARE_USB :: int where "HARDWARE_USB = 6"
definition HARDWARE_IPA :: int where "HARDWARE_IPA = 7"

text \<open>
  The settings of \<open>requestSetEthMode\<close> with QMAP, before the message is sent: the profile,
  the settings, the version for the message, and whether the message is skipped.
\<close>

definition qmap_zero :: QMAP_SETTING where
  "qmap_zero = \<lparr>rx_urb_size = 0, ep_type = 0, iface_id = 0, MuxId = 0,
     ul_data_aggregation_max_datagrams = 0, ul_data_aggregation_max_size = 0, dl_minimum_padding = 0\<rparr>"

definition qmap_prepare :: "PROFILE_T \<Rightarrow> qmi_state \<Rightarrow> PROFILE_T \<times> QMAP_SETTING \<times> qmi_state \<times> bool" where
  "qmap_prepare p q =
     (if qmap_mode p = 0 then (p, qmap_zero, q, False)
      else
        let p = p\<lparr>rawIP := 1\<rparr>; q = q\<lparr>s_9x07 := True\<rparr>;
            s = qmap_zero\<lparr>MuxId := of_int (muxid p), rx_urb_size := of_int (qmap_size p)\<rparr>
        in if hardware_interface p = HARDWARE_IPA
           then (p, s\<lparr>ep_type := 4, iface_id := 1\<rparr>, q, True)
           else
             let s = (if hardware_interface p = HARDWARE_PCIE then s\<lparr>ep_type := 3, iface_id := 4\<rparr>
                      else s\<lparr>ep_type := 2, iface_id := (if idProduct (usb_dev p) = 0x0316 then 3 else 4)\<rparr>);
                 s = s\<lparr>ul_data_aggregation_max_datagrams := 11,
                       ul_data_aggregation_max_size := 8 * 1024, dl_minimum_padding := 0\<rparr>;
                 p = (if qmap_version p \<noteq> 0x09 then p\<lparr>qmap_version := 0x05\<rparr> else p);
                 q = q\<lparr>g_qmap_version := qmap_version p\<rparr>;
                 r = rmnet_info p;
                 (s, q) = (if rmnet_size r \<noteq> 0
                   then (s\<lparr>rx_urb_size := rmnet_rx_urb_size r, ep_type := rmnet_ep_type r,
                           iface_id := rmnet_iface_id r, dl_minimum_padding := rmnet_dl_minimum_padding r\<rparr>,
                         q\<lparr>g_qmap_version := sint (rmnet_qmap_version r)\<rparr>)
                   else (s, q))
             in (p, s, q, wda_client p = 0))"

text \<open>The answer of the modem to the data format, \<open>lines 842-877\<close>.\<close>

definition qmap_answer ::
  "byte list \<Rightarrow> PROFILE_T \<Rightarrow> QMAP_SETTING \<Rightarrow> qmi_state \<Rightarrow> (PROFILE_T \<times> QMAP_SETTING \<times> qmi_state) option" where
  "qmap_answer r p s q = do {
     (p, q) \<leftarrow> with_u32 r 0x11
        (\<lambda>v (p, q). (p\<lparr>rawIP := (if v = 2 then 1 else 0)\<rparr>, q\<lparr>s_9x07 := (v = 2)\<rparr>)) (p, q);
     t16 \<leftarrow> tlv_get r 0x16;
     s \<leftarrow> (case t16 of None \<Rightarrow> Some s
        | Some i \<Rightarrow> if qmap_mode p \<noteq> 0 then do { v \<leftarrow> rd32 r (i + 3); Some (s\<lparr>rx_urb_size := v\<rparr>) } else Some s);
     if ul_data_aggregation_max_datagrams s = 0 then Some (p, s, q)
     else do {
       s \<leftarrow> with_u32 r 0x17 (\<lambda>v s. s\<lparr>ul_data_aggregation_max_datagrams :=
              min (ul_data_aggregation_max_datagrams s) v\<rparr>) s;
       s \<leftarrow> with_u32 r 0x18 (\<lambda>v s. s\<lparr>ul_data_aggregation_max_size :=
              min (ul_data_aggregation_max_size s) v\<rparr>) s;
       s \<leftarrow> with_u32 r 0x1A (\<lambda>v s. s\<lparr>dl_minimum_padding := v\<rparr>) s;
       Some (p, s, if 1 < ul_data_aggregation_max_datagrams s
                   then q\<lparr>driver_qmap := driver_qmap q @ [s]\<rparr> else q) } }"

text \<open>
  From the label \<open>skip_WdaSetDataFormat\<close> on. The IPv4 preference is not checked, the IPv6
  one is.
\<close>

definition bind_mux ::
  "byte \<Rightarrow> PROFILE_T \<Rightarrow> QMAP_SETTING \<Rightarrow> (int \<Rightarrow> qmi_state \<Rightarrow> 'r option) \<Rightarrow> (qmi_state \<Rightarrow> 'r option)
   \<Rightarrow> qmi_state \<Rightarrow> 'r option" where
  "bind_mux qt p s fail k q =
     (if qmapnet_adapter p = [] then k q
      else checked_request qt 0x00A2 (Some (WdsSetQMUXBindMuxDataPort s)) fail (\<lambda>_. k) q)"

definition eth_auto_connect :: "PROFILE_T \<Rightarrow> qmi_state \<Rightarrow> (int \<times> PROFILE_T \<times> qmi_state) option" where
  "eth_auto_connect p q = do {
     (_, _, q) \<leftarrow> qmi_request QMUX_TYPE_WDS 0x0051 (Some (WdsSetAutoConnect 0)) q;
     Some (0, p, q) }"

definition eth_ipv6 :: "PROFILE_T \<Rightarrow> QMAP_SETTING \<Rightarrow> qmi_state \<Rightarrow> (int \<times> PROFILE_T \<times> qmi_state) option" where
  "eth_ipv6 p s q =
     (if enable_ipv6 p then
        bind_mux QMUX_TYPE_WDS_IPV6 p s (\<lambda>e q. Some (e, p, q))
          (checked_request QMUX_TYPE_WDS_IPV6 0x004D
             (Some (WdsSetClientIPFamilyPref 6)) (\<lambda>e q. Some (e, p, q)) (\<lambda>_. eth_auto_connect p)) q
      else eth_auto_connect p q)"

definition eth_families :: "PROFILE_T \<Rightarrow> QMAP_SETTING \<Rightarrow> qmi_state \<Rightarrow> (int \<times> PROFILE_T \<times> qmi_state) option" where
  "eth_families p s q =
     (if enable_ipv4 p then
        bind_mux QMUX_TYPE_WDS p s (\<lambda>e q. Some (e, p, q))
          (\<lambda>q. do {
             (_, _, q) \<leftarrow> qmi_request QMUX_TYPE_WDS 0x004D (Some (WdsSetClientIPFamilyPref 4)) q;
             eth_ipv6 p s q }) q
      else eth_ipv6 p s q)"

definition requestSetEthMode :: "PROFILE_T \<Rightarrow> qmi_state \<Rightarrow> (int \<times> PROFILE_T \<times> qmi_state) option" where
  "requestSetEthMode p q =
     (case qmap_prepare p q of (p, s, q, skip) \<Rightarrow>
        if skip then eth_families p s q
        else checked_request QMUX_TYPE_WDS_ADMIN 0x0020
          (Some (WdaSetDataFormat (of_int (g_qmap_version q)) s)) (\<lambda>e q. Some (e, p, q))
          (\<lambda>r q. do { (p, s, q) \<leftarrow> qmap_answer r p s q; eth_families p s q }) q)"

section \<open>The SIM card\<close>

datatype SIM_Status = SIM_ABSENT | SIM_NOT_READY | SIM_READY | SIM_PIN | SIM_PUK
  | SIM_NETWORK_PERSONALIZATION | SIM_BAD

definition requestGetPINStatus :: "SIM_Status \<Rightarrow> qmi_state \<Rightarrow> (int \<times> SIM_Status \<times> qmi_state) option" where
  "requestGetPINStatus st q =
     checked_request (if s_9x07 q then QMUX_TYPE_UIM else QMUX_TYPE_DMS) (if s_9x07 q then 0x002F else 0x002B)
       None (\<lambda>e q. Some (e, st, q))
       (\<lambda>r q. do {
          t \<leftarrow> tlv_get r 0x11;
          case t of None \<Rightarrow> Some (0, st, q)
          | Some i \<Rightarrow> do {
              s \<leftarrow> rd8 r (i + 3);
              Some (0, if s = 1 then SIM_PIN else if s = 4 then SIM_PUK else if s = 5 then SIM_BAD else st, q) } }) q"

text \<open>The walk over the applications, \<open>lines 997-1004\<close>: \<open>n\<close> further applications.\<close>

fun pin_state_at :: "byte list \<Rightarrow> nat \<Rightarrow> bool \<Rightarrow> nat \<Rightarrow> nat option" where
  "pin_state_at r 0 usim pin = Some pin"
| "pin_state_at r (Suc n) usim pin =
     (if usim then pin_state_at r n usim pin
      else do { aid \<leftarrow> rd8 r (pin + 13); pin_state_at r n usim (pin + 14 + unat aid) })"

text \<open>\<open>CardState\<close> and \<open>PIN1State\<close> of the card status TLV at offset \<open>i\<close>.\<close>

definition card_states :: "byte list \<Rightarrow> nat \<Rightarrow> (byte \<times> byte) option" where
  "card_states r i = do {
     aid \<leftarrow> rd8 r (i + 24); num \<leftarrow> rd8 r (i + 17);
     apptype \<leftarrow> (if 1 < unat num then rd8 r (i + 18) else Some 0);
     pin \<leftarrow> pin_state_at r (unat num - 1) (apptype = 0x02) (i + 25 + unat aid);
     cst \<leftarrow> rd8 r (i + 12);
     if cst = 0x01 then do {
       univ \<leftarrow> rd8 r pin;
       st \<leftarrow> (if univ = 1 then rd8 r (i + 13) else rd8 r (pin + 1));
       Some (cst, st) }
     else Some (cst, 0x01) }"

definition sim_status_of :: "byte \<Rightarrow> byte \<Rightarrow> SIM_Status" where
  "sim_status_of cst pin1 =
     (if cst = 0x01 \<and> (pin1 = 2 \<or> pin1 = 3) then SIM_READY
      else if cst = 0x01 then
        (if pin1 = 4 then SIM_PUK else if pin1 = 5 then SIM_BAD
         else if pin1 = 0 \<or> pin1 = 2 \<or> pin1 = 3 then SIM_READY
         else if pin1 = 1 then SIM_PIN else SIM_ABSENT)
      else SIM_ABSENT)"

text \<open>The log reads \<open>SIM_Status_String\<close>, which has no entry for \<open>SIM_BAD\<close>.\<close>

definition log_sim_status :: "SIM_Status \<Rightarrow> unit option" where
  "log_sim_status st = (if st = SIM_BAD then None else Some ())"

definition requestGetSIMStatus :: "SIM_Status \<Rightarrow> qmi_state \<Rightarrow> (int \<times> SIM_Status \<times> qmi_state) option" where
  "requestGetSIMStatus st q =
     checked_request (if s_9x07 q then QMUX_TYPE_UIM else QMUX_TYPE_DMS) (if s_9x07 q then 0x002F else 0x0044)
       None (\<lambda>e q. Some (e, st, q))
       (\<lambda>r q. do {
          (st1, q1) \<leftarrow>
            (if s_9x07 q then do {
               t \<leftarrow> tlv_get r 0x10;
               (cst, pin1) \<leftarrow> (case t of None \<Rightarrow> Some (0x01, 0x01) | Some i \<Rightarrow> card_states r i);
               Some (sim_status_of cst pin1, q) }
             else do {
               uim \<leftarrow> rd8 r 23;
               if uim = 0 then Some (SIM_READY, q)
               else if uim = 1 then do {
                 (_, st1, q1) \<leftarrow> requestGetPINStatus SIM_ABSENT q; Some (st1, q1) }
               else Some (SIM_ABSENT, q) });
          _ \<leftarrow> log_sim_status st1;
          Some (0, st1, q1) }) q"

definition requestEnterSimPin :: "string \<Rightarrow> qmi_state \<Rightarrow> (int \<times> qmi_state) option" where
  "requestEnterSimPin pin q =
     (if s_9x07 q
      then checked_request QMUX_TYPE_UIM 0x0026 (Some (UimVerifyPinReqSend pin))
             (\<lambda>e q. Some (e, q)) (\<lambda>_ q. Some (0, q)) q
      else checked_request QMUX_TYPE_DMS 0x0028 (Some (DmsUIMVerifyPinReqSend pin))
             (\<lambda>e q. Some (e, q)) (\<lambda>_ q. Some (0, q)) q)"

end
