(* ===== verification/ConnMgr.thy ===== *)
theory ConnMgr
  imports QmiReq CLib
begin

text \<open>
  The connection manager, \<open>main.c\<close>: the loop of \<open>qmi_main\<close> over the signals it sends itself
  and the events of the reader thread. The table of request functions is the record
  \<open>request_ops\<close>, whose functions work on the state of a transport \<open>'s\<close>; a function pointer
  that the code compares with NULL is an option. A result \<open>None\<close> is undefined behaviour or
  an environment that ends (no clock reading left).
\<close>

section \<open>The tables\<close>

datatype ops_table = qmi_request_ops | mbim_request_ops | atc_request_ops

type_synonym 's profile_op = "PROFILE_T \<Rightarrow> 's \<Rightarrow> (int \<times> PROFILE_T \<times> 's) option"

record 's request_ops =
  which_ops :: ops_table
  opBaseBandVersion :: "'s profile_op option"
  opSetEthMode :: "'s profile_op option"
  opSetLoopBackState :: "(byte \<Rightarrow> u32 \<Rightarrow> 's \<Rightarrow> (int \<times> 's) option) option"
  opGetSIMStatus :: "(SIM_Status \<Rightarrow> 's \<Rightarrow> (int \<times> SIM_Status \<times> 's) option) option"
  opEnterSimPin :: "(string \<Rightarrow> 's \<Rightarrow> (int \<times> 's) option) option"
  opSetProfile :: "(PROFILE_T \<Rightarrow> 's \<Rightarrow> (int \<times> 's) option) option"
  opGetProfile :: "'s profile_op option"
  opRegistrationState :: "byte \<Rightarrow> 's \<Rightarrow> (int \<times> byte \<times> 's) option"
  opSetupDataCall :: "PROFILE_T \<Rightarrow> int \<Rightarrow> 's \<Rightarrow> (int \<times> PROFILE_T \<times> 's) option"
  opQueryDataCall :: "byte \<Rightarrow> int \<Rightarrow> 's \<Rightarrow> (int \<times> byte \<times> 's) option"
  opDeactivateDefaultPDP :: "PROFILE_T \<Rightarrow> int \<Rightarrow> 's \<Rightarrow> (int \<times> 's) option"
  opGetIPAddress :: "PROFILE_T \<Rightarrow> int \<Rightarrow> 's \<Rightarrow> (int \<times> PROFILE_T \<times> 's) option"
  opGetICCID :: "('s \<Rightarrow> 's option) option"
  opGetIMSI :: "('s \<Rightarrow> 's option) option"
  opGetSignalInfo :: "('s \<Rightarrow> 's option) option"
  opGetCellInfoList :: "('s \<Rightarrow> 's option) option"
  opGetCoexWWANState :: "('s \<Rightarrow> 's option) option"
  dev_init :: "'s profile_op option"
  dev_deinit :: "('s \<Rightarrow> 's option) option"
  dev_reboots :: "'s \<Rightarrow> bool"

section \<open>State\<close>

type_synonym u64 = "64 word"

datatype signo = SIG_EVENT_START | SIG_EVENT_CHECK | SIG_EVENT_STOP

datatype net_act = UdhcpcStart int | UdhcpcStop

text \<open>What the manager writes to the reader thread.\<close>

datatype to_qmidevice = ToQuit | ToStop

text \<open>
  The local variables of \<open>qmi_main\<close> and the file-scope ones: \<open>sig_queue\<close> holds the signals
  written to \<open>signal_control_fd\<close> and not yet read, \<open>alarm_s\<close> the pending \<open>alarm\<close> (0: none),
  \<open>net_acts\<close> the calls of \<open>udhcpc_start\<close> and \<open>udhcpc_stop\<close>, \<open>clocks\<close> the coming results of
  \<open>clock_msec\<close>, \<open>wan_ip\<close> the address that a DHCP run obtains (\<open>None\<close>: bridge mode, no run).
\<close>

record 's main =
  profile :: PROFILE_T
  transport :: 's
  SIMStatus :: SIM_Status
  PSAttached :: byte
  IPv4ConnectionStatus :: byte
  IPv6ConnectionStatus :: byte
  SetupCallFail :: u32
  SetupCallAllowTime :: u64
  s_link :: int
  sig_queue :: "signo list"
  to_dev :: "to_qmidevice list"
  alarm_s :: u32
  net_acts :: "net_act list"
  clocks :: "u64 list"
  wan_ip :: "u32 option"
  g_donot_exit_when_modem_hangup :: bool
  brothers_killed :: bool
  in_loop :: bool

definition send_signo_to_main :: "signo \<Rightarrow> 's main \<Rightarrow> 's main" where
  "send_signo_to_main g m = m\<lparr>sig_queue := sig_queue m @ [g]\<rparr>"

definition main_send_event_to_qmidevice :: "to_qmidevice \<Rightarrow> 's main \<Rightarrow> 's main" where
  "main_send_event_to_qmidevice e m = m\<lparr>to_dev := to_dev m @ [e]\<rparr>"

definition clock_msec :: "'s main \<Rightarrow> (u64 \<times> 's main) option" where
  "clock_msec m = (case clocks m of [] \<Rightarrow> None | c # cs \<Rightarrow> Some (c, m\<lparr>clocks := cs\<rparr>))"

text \<open>\<open>ql_sigaction\<close>: \<open>SIGALRM\<close>, or \<open>SIGINT\<close> and \<open>SIGTERM\<close>.\<close>

definition ql_sigaction :: "bool \<Rightarrow> 's main \<Rightarrow> 's main" where
  "ql_sigaction is_alarm m =
     (if is_alarm then send_signo_to_main SIG_EVENT_START (m\<lparr>alarm_s := 0\<rparr>)
      else main_send_event_to_qmidevice ToStop
        (send_signo_to_main SIG_EVENT_STOP (m\<lparr>g_donot_exit_when_modem_hangup := False\<rparr>)))"

section \<open>The network interface\<close>

definition link_v4 :: int where "link_v4 = 2 ^ nat IpFamilyV4"
definition link_v6 :: int where "link_v6 = 2 ^ nat IpFamilyV6"

text \<open>
  Of \<open>udhcpc_start\<close> and \<open>udhcpc_stop\<close> only the address they leave in the profile matters here:
  DHCP is run for AT modems, and its address is read back.
\<close>

definition udhcpc_start :: "'s request_ops \<Rightarrow> 's main \<Rightarrow> PROFILE_T \<Rightarrow> PROFILE_T" where
  "udhcpc_start ops m p =
     (if Address (ipv4 p) \<noteq> 0 \<and> \<not> no_dhcp p \<and> idProduct (usb_dev p) \<noteq> 0x0316
        \<and> which_ops ops = atc_request_ops
      then (case wan_ip m of Some a \<Rightarrow> p\<lparr>udhcpc_ip := a\<rparr> | None \<Rightarrow> p) else p)"

definition usbnet_link_change :: "'s request_ops \<Rightarrow> int \<Rightarrow> 's main \<Rightarrow> 's main" where
  "usbnet_link_change ops link m =
     (if s_link m = link then m
      else let p = profile m;
               p = (if link AND link_v4 = 0 then p\<lparr>ipv4 := ipv4_zero\<rparr> else p);
               p = (if link AND link_v6 = 0 then p\<lparr>ipv6 := ipv6_zero\<rparr> else p)
        in if link \<noteq> 0
           then m\<lparr>s_link := link, profile := udhcpc_start ops m p, net_acts := net_acts m @ [UdhcpcStart link]\<rparr>
           else m\<lparr>s_link := link, profile := p\<lparr>udhcpc_ip := 0\<rparr>, net_acts := net_acts m @ [UdhcpcStop]\<rparr>)"

section \<open>Requests on the state of the manager\<close>

definition do_setup :: "'s request_ops \<Rightarrow> int \<Rightarrow> 's main \<Rightarrow> (int \<times> 's main) option" where
  "do_setup ops fam m = do {
     (e, p, s) \<leftarrow> opSetupDataCall ops (profile m) fam (transport m);
     Some (e, m\<lparr>profile := p, transport := s\<rparr>) }"

definition do_address :: "'s request_ops \<Rightarrow> int \<Rightarrow> 's main \<Rightarrow> (int \<times> 's main) option" where
  "do_address ops fam m = do {
     (e, p, s) \<leftarrow> opGetIPAddress ops (profile m) fam (transport m);
     Some (e, m\<lparr>profile := p, transport := s\<rparr>) }"

definition do_stop :: "'s request_ops \<Rightarrow> int \<Rightarrow> 's main \<Rightarrow> 's main option" where
  "do_stop ops fam m = do {
     (_, s) \<leftarrow> opDeactivateDefaultPDP ops (profile m) fam (transport m);
     Some (m\<lparr>transport := s\<rparr>) }"

definition do_registration :: "'s request_ops \<Rightarrow> 's main \<Rightarrow> 's main option" where
  "do_registration ops m = do {
     (_, a, s) \<leftarrow> opRegistrationState ops (PSAttached m) (transport m);
     Some (m\<lparr>PSAttached := a, transport := s\<rparr>) }"

definition do_query_v4 :: "'s request_ops \<Rightarrow> 's main \<Rightarrow> (int \<times> 's main) option" where
  "do_query_v4 ops m = do {
     (e, st, s) \<leftarrow> opQueryDataCall ops (IPv4ConnectionStatus m) IpFamilyV4 (transport m);
     Some (e, m\<lparr>IPv4ConnectionStatus := st, transport := s\<rparr>) }"

definition do_query_v6 :: "'s request_ops \<Rightarrow> 's main \<Rightarrow> 's main option" where
  "do_query_v6 ops m = do {
     (_, st, s) \<leftarrow> opQueryDataCall ops (IPv6ConnectionStatus m) IpFamilyV6 (transport m);
     Some (m\<lparr>IPv6ConnectionStatus := st, transport := s\<rparr>) }"

text \<open>A request whose result is not used, if the table has it.\<close>

definition do_info :: "('s \<Rightarrow> 's option) option \<Rightarrow> 's main \<Rightarrow> 's main option" where
  "do_info f m = (case f of None \<Rightarrow> Some m
     | Some f \<Rightarrow> do { s \<leftarrow> f (transport m); Some (m\<lparr>transport := s\<rparr>) })"

definition do_profile :: "'s profile_op option \<Rightarrow> 's main \<Rightarrow> (int \<times> 's main) option" where
  "do_profile f m = (case f of None \<Rightarrow> Some (0, m)
     | Some f \<Rightarrow> do { (e, p, s) \<leftarrow> f (profile m) (transport m); Some (e, m\<lparr>profile := p, transport := s\<rparr>) })"

definition disconnected :: "'s main \<Rightarrow> bool" where
  "disconnected m \<longleftrightarrow>
     enable_ipv4 (profile m) \<and> IPv4ConnectionStatus m = QWDS_PKT_DATA_DISCONNECTED \<or>
     enable_ipv6 (profile m) \<and> IPv6ConnectionStatus m = QWDS_PKT_DATA_DISCONNECTED"

definition connected :: "'s main \<Rightarrow> bool" where
  "connected m \<longleftrightarrow> IPv4ConnectionStatus m = QWDS_PKT_DATA_CONNECTED \<or>
     IPv6ConnectionStatus m = QWDS_PKT_DATA_CONNECTED"

text \<open>One call serves both families, except over QMI.\<close>

definition shared_call :: "'s request_ops \<Rightarrow> 's main \<Rightarrow> bool" where
  "shared_call ops m \<longleftrightarrow> enable_ipv4 (profile m) \<and> which_ops ops \<noteq> qmi_request_ops"

section \<open>\<open>SIG_EVENT_START\<close>\<close>

definition given :: "string option \<Rightarrow> bool" where
  "given s \<longleftrightarrow> (case s of None \<Rightarrow> False | Some x \<Rightarrow> x \<noteq> [])"

text \<open>The second attempt with the other authentication, which is kept if it succeeds.\<close>

definition retry_auth :: "'s request_ops \<Rightarrow> int \<Rightarrow> 's main \<Rightarrow> (int \<times> 's main) option" where
  "retry_auth ops e m =
     (if 0 < e \<and> given (user (profile m)) \<and> given (pd (profile m)) then do {
        let old_auto = auth (profile m);
        (e, m) \<leftarrow> do_setup ops IpFamilyV4
          (m\<lparr>profile := (profile m)\<lparr>auth := (if old_auto = 1 then 2 else 1)\<rparr>\<rparr>);
        Some (e, if e \<noteq> 0 then m\<lparr>profile := (profile m)\<lparr>auth := old_auto\<rparr>\<rparr> else m) }
      else Some (e, m))"

definition start_v4 :: "'s request_ops \<Rightarrow> 's main \<Rightarrow> 's main option" where
  "start_v4 ops m =
     (if enable_ipv4 (profile m) \<and> IPv4ConnectionStatus m \<noteq> QWDS_PKT_DATA_CONNECTED then do {
        (e, m) \<leftarrow> do_setup ops IpFamilyV4 m;
        (e, m) \<leftarrow> retry_auth ops e m;
        if e = 0 then do {
          (e, m) \<leftarrow> do_address ops IpFamilyV4 m;
          Some (if e = 0 then m\<lparr>IPv4ConnectionStatus := QWDS_PKT_DATA_CONNECTED\<rparr> else m) }
        else Some m }
      else Some m)"

definition start_v6 :: "'s request_ops \<Rightarrow> 's main \<Rightarrow> 's main option" where
  "start_v6 ops m =
     (if enable_ipv6 (profile m) \<and> IPv6ConnectionStatus m \<noteq> QWDS_PKT_DATA_CONNECTED then
        if shared_call ops m then Some (m\<lparr>IPv6ConnectionStatus := IPv4ConnectionStatus m\<rparr>)
        else do {
          (e, m) \<leftarrow> do_setup ops IpFamilyV6 m;
          if e = 0 then do {
            (e, m) \<leftarrow> do_address ops IpFamilyV6 m;
            Some (if e = 0 then m\<lparr>IPv6ConnectionStatus := QWDS_PKT_DATA_CONNECTED\<rparr> else m) }
          else Some m }
      else Some m)"

definition allow_time :: "u32 list" where
  "allow_time = [5, 10, 20, 40, 60]"

definition backoff :: "u32 \<Rightarrow> u32" where
  "backoff fails = (if fails < of_nat (length allow_time) then allow_time ! unat fails else 60)"

definition start_result :: "'s main \<Rightarrow> 's main option" where
  "start_result m =
     (if disconnected m then do {
        let t = backoff (SetupCallFail m);
        (c, m) \<leftarrow> clock_msec (m\<lparr>SetupCallFail := SetupCallFail m + 1, alarm_s := t\<rparr>);
        Some (m\<lparr>SetupCallAllowTime := ucast t * 1000 + c\<rparr>) }
      else if connected m then do {
        (c, m) \<leftarrow> clock_msec (m\<lparr>SetupCallFail := 0\<rparr>);
        Some (m\<lparr>SetupCallAllowTime := c\<rparr>) }
      else Some m)"

definition sig_event_start :: "'s request_ops \<Rightarrow> 's main \<Rightarrow> 's main option" where
  "sig_event_start ops m =
     (if PSAttached m \<noteq> 1 \<and> \<not> loopback_state (profile m) then Some m
      else do {
        (now, m) \<leftarrow> clock_msec m;
        if SetupCallAllowTime m > now then do {
          (now, m) \<leftarrow> clock_msec m;
          Some (m\<lparr>alarm_s := ucast ((SetupCallAllowTime m - now + 999) div 1000)\<rparr>) }
        else do {
          m \<leftarrow> start_v4 ops m;
          m \<leftarrow> start_v6 ops m;
          start_result m } })"

section \<open>\<open>SIG_EVENT_CHECK\<close>\<close>

definition check_ipv4_address :: "'s request_ops \<Rightarrow> 's main \<Rightarrow> (bool \<times> 's main) option" where
  "check_ipv4_address ops m =
     (let p = profile m; at = (which_ops ops = atc_request_ops) in
      if which_ops ops = mbim_request_ops \<or> at \<and> udhcpc_ip p = 0 then Some (True, m)
      else let oldAddress = (if at then udhcpc_ip p else Address (ipv4 p)) in do {
        (e, m) \<leftarrow> do_address ops IpFamilyV4 m;
        Some (e = 0 \<and> Address (ipv4 (profile m)) = oldAddress, m) })"

text \<open>A call without an address, and a call whose address has changed.\<close>

definition fetch_address :: "'s request_ops \<Rightarrow> 's main \<Rightarrow> 's main option" where
  "fetch_address ops m =
     (if IPv4ConnectionStatus m = QWDS_PKT_DATA_CONNECTED \<and> Address (ipv4 (profile m)) = 0 then do {
        (e, m) \<leftarrow> do_address ops IpFamilyV4 m;
        Some (if e \<noteq> 0 then m\<lparr>IPv4ConnectionStatus := QWDS_PKT_DATA_DISCONNECTED\<rparr> else m) }
      else Some m)"

definition verify_address :: "'s request_ops \<Rightarrow> 's main \<Rightarrow> 's main option" where
  "verify_address ops m =
     (if IPv4ConnectionStatus m = QWDS_PKT_DATA_CONNECTED then do {
        (same, m) \<leftarrow> check_ipv4_address ops m;
        if same then Some m
        else do {
          m \<leftarrow> do_stop ops IpFamilyV4 m;
          Some (m\<lparr>IPv4ConnectionStatus := QWDS_PKT_DATA_DISCONNECTED\<rparr>) } }
      else Some m)"

definition check_v4 :: "'s request_ops \<Rightarrow> 's main \<Rightarrow> 's main option" where
  "check_v4 ops m =
     (if enable_ipv4 (profile m) \<and> IPv4ConnectionStatus m \<noteq> QWDS_PKT_DATA_DISCONNECTED then do {
        (e, m) \<leftarrow> do_query_v4 ops m;
        if e = 0 then do { m \<leftarrow> fetch_address ops m; verify_address ops m }
        else Some (m\<lparr>IPv4ConnectionStatus := QWDS_PKT_DATA_DISCONNECTED\<rparr>) }
      else Some (m\<lparr>IPv4ConnectionStatus := QWDS_PKT_DATA_DISCONNECTED\<rparr>))"

definition check_v6 :: "'s request_ops \<Rightarrow> 's main \<Rightarrow> 's main option" where
  "check_v6 ops m =
     (if enable_ipv6 (profile m) \<and> IPv6ConnectionStatus m \<noteq> QWDS_PKT_DATA_DISCONNECTED
      then if shared_call ops m then Some (m\<lparr>IPv6ConnectionStatus := IPv4ConnectionStatus m\<rparr>)
           else do_query_v6 ops m
      else Some (m\<lparr>IPv6ConnectionStatus := QWDS_PKT_DATA_DISCONNECTED\<rparr>))"

definition link_of :: "'s main \<Rightarrow> int" where
  "link_of m = (if IPv4ConnectionStatus m = QWDS_PKT_DATA_CONNECTED then link_v4 else 0) OR
     (if IPv6ConnectionStatus m = QWDS_PKT_DATA_CONNECTED then link_v6 else 0)"

definition check_link :: "'s request_ops \<Rightarrow> 's main \<Rightarrow> 's main" where
  "check_link ops m =
     (if IPv4ConnectionStatus m = QWDS_PKT_DATA_DISCONNECTED \<and> IPv6ConnectionStatus m = QWDS_PKT_DATA_DISCONNECTED
      then usbnet_link_change ops 0 m
      else if connected m then usbnet_link_change ops (link_of m) m
      else m)"

definition sig_event_check :: "'s request_ops \<Rightarrow> 's main \<Rightarrow> 's main option" where
  "sig_event_check ops m = do {
     m \<leftarrow> do_info (opGetSignalInfo ops) m;
     m \<leftarrow> do_info (opGetCellInfoList ops) m;
     m \<leftarrow> do_info (opGetCoexWWANState ops) m;
     m \<leftarrow> (if PSAttached m \<noteq> 1 then do_registration ops m else Some m);
     m \<leftarrow> check_v4 ops m;
     m \<leftarrow> check_v6 ops m;
     let m = check_link ops m;
     Some (if disconnected m then send_signo_to_main SIG_EVENT_START m else m) }"

section \<open>Leaving\<close>

definition main_quit :: "'s request_ops \<Rightarrow> 's main \<Rightarrow> 's main" where
  "main_quit ops m = (usbnet_link_change ops 0 m)\<lparr>in_loop := False\<rparr>"

definition sig_event_stop :: "'s request_ops \<Rightarrow> 's main \<Rightarrow> 's main option" where
  "sig_event_stop ops m = do {
     m \<leftarrow> (if enable_ipv4 (profile m) \<and> IPv4ConnectionStatus m = QWDS_PKT_DATA_CONNECTED
           then do_stop ops IpFamilyV4 m else Some m);
     m \<leftarrow> (if enable_ipv6 (profile m) \<and> IPv6ConnectionStatus m = QWDS_PKT_DATA_CONNECTED
             \<and> \<not> shared_call ops m
           then do_stop ops IpFamilyV6 m else Some m);
     m \<leftarrow> do_info (dev_deinit ops) (usbnet_link_change ops 0 m);
     Some (main_quit ops (main_send_event_to_qmidevice ToQuit m)) }"

section \<open>The loop\<close>

definition handle_signo :: "'s request_ops \<Rightarrow> 's main \<Rightarrow> 's main option" where
  "handle_signo ops m = (case sig_queue m of [] \<Rightarrow> Some m
     | g # gs \<Rightarrow> let m = m\<lparr>sig_queue := gs, alarm_s := 0\<rparr> in
         (case g of SIG_EVENT_START \<Rightarrow> sig_event_start ops m
          | SIG_EVENT_CHECK \<Rightarrow> sig_event_check ops m
          | SIG_EVENT_STOP \<Rightarrow> sig_event_stop ops m))"

definition network_changed :: "'s request_ops \<Rightarrow> 's main \<Rightarrow> 's main option" where
  "network_changed ops m = do {
     m \<leftarrow> do_registration ops m;
     if PSAttached m = 1
     then Some (if disconnected m then send_signo_to_main SIG_EVENT_START m else m)
     else do { (c, m) \<leftarrow> clock_msec m; Some (m\<lparr>SetupCallAllowTime := c\<rparr>) } }"

definition loopback_config :: "byte list \<Rightarrow> 's main \<Rightarrow> 's main option" where
  "loopback_config ind m =
     (if length ind \<noteq> 15 then Some m
      else do {
        st \<leftarrow> rd8 ind 7; n \<leftarrow> rd32 ind 11;
        let m = m\<lparr>profile := (profile m)\<lparr>loopback_state := (st \<noteq> 0), replication_factor := sint n\<rparr>\<rparr>;
        Some (if st \<noteq> 0 then send_signo_to_main SIG_EVENT_START m else m) })"

definition handle_event :: "'s request_ops \<Rightarrow> ril_event \<Rightarrow> 's main \<Rightarrow> 's main option" where
  "handle_event ops e m = (case e of
       RIL_INDICATE_DEVICE_DISCONNECTED \<Rightarrow> Some (main_quit ops (usbnet_link_change ops 0 m))
     | RIL_UNSOL_RESPONSE_VOICE_NETWORK_STATE_CHANGED \<Rightarrow> network_changed ops m
     | RIL_UNSOL_DATA_CALL_LIST_CHANGED \<Rightarrow> do {
         m \<leftarrow> (if connected m
               then do { (c, m) \<leftarrow> clock_msec m; Some (m\<lparr>SetupCallAllowTime := c + 1000\<rparr>) }
               else Some m);
         Some (send_signo_to_main SIG_EVENT_CHECK m) }
     | MODEM_REPORT_RESET_EVENT \<Rightarrow>
         Some (main_quit ops ((main_send_event_to_qmidevice ToQuit m)
           \<lparr>g_donot_exit_when_modem_hangup := True\<rparr>))
     | RIL_UNSOL_LOOPBACK_CONFIG_IND ind \<Rightarrow> loopback_config ind m
     | _ \<Rightarrow> Some m)"

text \<open>
  The result of \<open>poll\<close>: for each descriptor whether it reports a hang-up, another error and
  input, and the event that a read of \<open>qmidevice_control_fd\<close> returns.
\<close>

record fd_events =
  fd_hup :: bool
  fd_err :: bool
  fd_in :: bool

datatype poll_res = PollTimeout15 | PollError | Polled fd_events fd_events ril_event

definition serve_fd ::
  "'s request_ops \<Rightarrow> fd_events \<Rightarrow> ('s main \<Rightarrow> 's main option) \<Rightarrow> 's main \<Rightarrow> 's main option" where
  "serve_fd ops ev h m =
     (let m = (if fd_hup ev \<or> fd_err ev then main_send_event_to_qmidevice ToQuit m else m) in
      if fd_hup ev then Some (main_quit ops m)
      else if fd_in ev then h m else Some m)"

definition poll_step :: "'s request_ops \<Rightarrow> poll_res \<Rightarrow> 's main \<Rightarrow> 's main option" where
  "poll_step ops r m = (case r of
       PollTimeout15 \<Rightarrow> Some (send_signo_to_main SIG_EVENT_CHECK m)
     | PollError \<Rightarrow> Some (main_quit ops m)
     | Polled sig_ev dev_ev e \<Rightarrow> do {
         m \<leftarrow> serve_fd ops sig_ev (handle_signo ops) m;
         if in_loop m then serve_fd ops dev_ev (handle_event ops e) m else Some m })"

text \<open>Steps of a run: a turn of the loop, or a Unix signal.\<close>

datatype main_step = Poll poll_res | UnixSignal bool

definition qmi_main_step :: "'s request_ops \<Rightarrow> main_step \<Rightarrow> 's main \<Rightarrow> 's main option" where
  "qmi_main_step ops s m = (case s of
       Poll r \<Rightarrow> if in_loop m then poll_step ops r m else Some m
     | UnixSignal is_alarm \<Rightarrow> Some (ql_sigaction is_alarm m))"

fun qmi_main_run :: "'s request_ops \<Rightarrow> main_step list \<Rightarrow> 's main \<Rightarrow> 's main option" where
  "qmi_main_run ops [] m = Some m"
| "qmi_main_run ops (s # ss) m = do { m \<leftarrow> qmi_main_step ops s m; qmi_main_run ops ss m }"

section \<open>Up to the loop\<close>

text \<open>The request for the SIM state is repeated while the modem does not support it yet.\<close>

partial_function (option) sim_wait ::
  "(SIM_Status \<Rightarrow> 's \<Rightarrow> (int \<times> SIM_Status \<times> 's) option) \<Rightarrow> SIM_Status \<Rightarrow> 's \<Rightarrow> (int \<times> SIM_Status \<times> 's) option"
where
  "sim_wait f st s = Option.bind (f st s) (\<lambda>(e, st, s).
     if e = 0x19 then sim_wait f st s else Some (e, st, s))"

lemma sim_wait_code [code]:
  "sim_wait f st s = (case f st s of None \<Rightarrow> None
     | Some (e, st, s) \<Rightarrow> if e = 0x19 then sim_wait f st s else Some (e, st, s))"
  by (subst sim_wait.simps) (simp split: option.split)

definition enter_pin :: "'s request_ops \<Rightarrow> 's main \<Rightarrow> 's main option" where
  "enter_pin ops m = (case (SIMStatus m, pincode (profile m), opEnterSimPin ops) of
       (SIM_PIN, Some pin, Some f) \<Rightarrow> do { (_, s) \<leftarrow> f pin (transport m); Some (m\<lparr>transport := s\<rparr>) }
     | _ \<Rightarrow> Some m)"

definition start_sim :: "'s request_ops \<Rightarrow> 's main \<Rightarrow> 's main option" where
  "start_sim ops m = (case opGetSIMStatus ops of None \<Rightarrow> Some m
     | Some f \<Rightarrow> do {
         (_, st, s) \<leftarrow> sim_wait f (SIMStatus m) (transport m);
         enter_pin ops (m\<lparr>SIMStatus := st, transport := s\<rparr>) })"

definition start_identity :: "'s request_ops \<Rightarrow> 's main \<Rightarrow> 's main option" where
  "start_identity ops m =
     (if SIMStatus m = SIM_READY
      then do { m \<leftarrow> do_info (opGetICCID ops) m; do_info (opGetIMSI ops) m }
      else Some m)"

definition start_loopback :: "'s request_ops \<Rightarrow> 's main \<Rightarrow> 's main option" where
  "start_loopback ops m = (case opSetLoopBackState ops of None \<Rightarrow> Some m
     | Some f \<Rightarrow>
         if loopback_state (profile m) then do {
           (e, s) \<leftarrow> f 1 (of_int (replication_factor (profile m))) (transport m);
           Some (m\<lparr>transport := s, profile := (if e \<noteq> 0x47 then (profile m)\<lparr>loopback_state := False\<rparr>
             else profile m)\<rparr>) }
         else Some m)"

definition start_profile :: "'s request_ops \<Rightarrow> 's main \<Rightarrow> 's main option" where
  "start_profile ops m =
     (if idProduct (usb_dev (profile m)) = 0x0316 then Some m
      else do {
        (_, m) \<leftarrow> do_profile (opGetProfile ops) m;
        case opSetProfile ops of None \<Rightarrow> Some m
        | Some f \<Rightarrow>
            if apn (profile m) \<noteq> None \<or> user (profile m) \<noteq> None \<or> pd (profile m) \<noteq> None
            then do { (_, s) \<leftarrow> f (profile m) (transport m); Some (m\<lparr>transport := s\<rparr>) }
            else Some m })"

text \<open>A call left over from an earlier run on an AT modem is ended.\<close>

definition start_leftover :: "'s request_ops \<Rightarrow> 's main \<Rightarrow> 's main option" where
  "start_leftover ops m =
     (if enable_ipv4 (profile m) \<and> which_ops ops = atc_request_ops then do {
        (e, m) \<leftarrow> do_query_v4 ops m;
        if e = 0 \<and> IPv4ConnectionStatus m = QWDS_PKT_DATA_CONNECTED then do_stop ops IpFamilyV4 m
        else Some m }
      else Some m)"

text \<open>
  What the operating system answers: the two socket pairs, the reader thread, and the first
  event the thread reports.
\<close>

record start_env =
  signal_pair_ok :: bool
  device_pair_ok :: bool
  thread_ok :: bool
  first_event :: "ril_event option"

definition kills_brothers :: "PROFILE_T \<Rightarrow> bool" where
  "kills_brothers p \<longleftrightarrow> (qmap_mode p = 0 \<or> qmap_mode p = 1) \<and> (proxy p = [] \<or> strstr (qmichannel p) ''_IPCR'')"

definition qmi_main_locals :: "u64 \<Rightarrow> 's main \<Rightarrow> 's main" where
  "qmi_main_locals now m = m\<lparr>SIMStatus := SIM_ABSENT, PSAttached := 0, IPv4ConnectionStatus := 0,
     IPv6ConnectionStatus := 0, SetupCallFail := 0, SetupCallAllowTime := now,
     g_donot_exit_when_modem_hangup := False, sig_queue := [], to_dev := [], in_loop := False\<rparr>"

text \<open>
  The start of the device; it sets \<open>g_donot_exit_when_modem_hangup\<close> when it makes the modem reboot.
\<close>

definition start_device :: "'s request_ops \<Rightarrow> 's main \<Rightarrow> (int \<times> 's main) option" where
  "start_device ops m = do {
     (e, m) \<leftarrow> do_profile (dev_init ops) m;
     Some (e, if dev_reboots ops (transport m) then m\<lparr>g_donot_exit_when_modem_hangup := True\<rparr> else m) }"

text \<open>The part of \<open>qmi_main\<close> before the loop: the return value, or the state of the loop.\<close>

definition qmi_main_start :: "'s request_ops \<Rightarrow> start_env \<Rightarrow> 's main \<Rightarrow> (int \<times> 's main + 's main) option" where
  "qmi_main_start ops en m = do {
     (now, m) \<leftarrow> clock_msec m;
     let m = qmi_main_locals now m;
     if \<not> signal_pair_ok en then Some (Inl (- 1, m))
     else if \<not> device_pair_ok en then Some (Inl (0, m))
     else do {
       let m = (if kills_brothers (profile m) then m\<lparr>brothers_killed := True\<rparr> else m);
       if \<not> thread_ok en \<or> first_event en \<noteq> Some RIL_INDICATE_DEVICE_CONNECTED then Some (Inl (0, m))
       else do {
         (e, m) \<leftarrow> start_device ops m;
         if e \<noteq> 0 then Some (Inl (0, m))
         else do {
           (_, m) \<leftarrow> do_profile (opBaseBandVersion ops) m;
           (_, m) \<leftarrow> do_profile (opSetEthMode ops) m;
           m \<leftarrow> start_loopback ops m;
           m \<leftarrow> start_sim ops m;
           m \<leftarrow> start_identity ops m;
           m \<leftarrow> start_profile ops m;
           m \<leftarrow> do_registration ops m;
           m \<leftarrow> start_leftover ops m;
           Some (Inr (send_signo_to_main SIG_EVENT_CHECK (m\<lparr>in_loop := True\<rparr>))) } } } }"

end
