(* ===== verification/ConnInv.thy ===== *)
theory ConnInv
  imports ConnMgr
begin

text \<open>
  The invariant of the connection manager, for every table of requests that leaves the choice
  of address families in the profile alone; and what a start and a check of the call do,
  whatever the table.
\<close>

section \<open>The contract of the request table\<close>

definition families :: "PROFILE_T \<Rightarrow> bool \<times> bool" where
  "families p = (enable_ipv4 p, enable_ipv6 p)"

text \<open>What the steps of a handler keep: the families, the interface, and the loop.\<close>

definition status_ok :: "'s main \<Rightarrow> bool" where
  "status_ok m \<longleftrightarrow> (IPv4ConnectionStatus m = QWDS_PKT_DATA_CONNECTED \<longrightarrow> enable_ipv4 (profile m)) \<and>
     (IPv6ConnectionStatus m = QWDS_PKT_DATA_CONNECTED \<longrightarrow> enable_ipv6 (profile m))"

definition keeps :: "'s main \<Rightarrow> 's main \<Rightarrow> bool" where
  "keeps m m' \<longleftrightarrow> families (profile m') = families (profile m) \<and> s_link m' = s_link m \<and>
     net_acts m' = net_acts m \<and> in_loop m' = in_loop m \<and> (status_ok m \<longrightarrow> status_ok m')"

definition act_of :: "int \<Rightarrow> net_act" where
  "act_of link = (if link = 0 then UdhcpcStop else UdhcpcStart link)"

text \<open>
  The interface: either it was never configured, or its last configuration is the recorded one,
  for families that are enabled; consecutive configurations differ.
\<close>

definition link_ok :: "'s main \<Rightarrow> bool" where
  "link_ok m \<longleftrightarrow> (s_link m = - 1 \<and> net_acts m = [] \<or>
     net_acts m \<noteq> [] \<and> last (net_acts m) = act_of (s_link m) \<and>
     (\<exists>b4 b6. s_link m = (if b4 then link_v4 else 0) OR (if b6 then link_v6 else 0) \<and>
        (b4 \<longrightarrow> enable_ipv4 (profile m)) \<and> (b6 \<longrightarrow> enable_ipv6 (profile m)))) \<and>
     distinct_adj (net_acts m)"

definition manager_inv :: "'s main \<Rightarrow> bool" where
  "manager_inv m \<longleftrightarrow> status_ok m \<and> link_ok m \<and> (\<not> in_loop m \<longrightarrow> s_link m = 0)"

lemma keeps_refl [simp, intro]: "keeps m m"
  by (simp add: keeps_def)

lemma keeps_trans [trans]: "keeps a b \<Longrightarrow> keeps b c \<Longrightarrow> keeps a c"
  by (simp add: keeps_def)

lemma keeps_inv: "manager_inv m \<Longrightarrow> keeps m m' \<Longrightarrow> manager_inv m'"
  by (auto simp: manager_inv_def keeps_def link_ok_def families_def)

lemma link_values [simp]: "link_v4 = 16" "link_v6 = 64"
  by (simp_all add: link_v4_def link_v6_def IpFamilyV4_def IpFamilyV6_def)

lemma distinct_adj_snoc: "distinct_adj xs \<Longrightarrow> (xs \<noteq> [] \<Longrightarrow> last xs \<noteq> x) \<Longrightarrow> distinct_adj (xs @ [x])"
  by (auto simp: distinct_adj_append_iff)

lemma act_of_inj: "act_of a = act_of b \<Longrightarrow> a = b"
  by (auto simp: act_of_def split: if_splits)

text \<open>A change of the interface to a set of enabled families.\<close>

lemma link_change_fields:
  "families (profile (usbnet_link_change ops link m)) = families (profile m)"
  "s_link (usbnet_link_change ops link m) = link"
  "in_loop (usbnet_link_change ops link m) = in_loop m"
  "IPv4ConnectionStatus (usbnet_link_change ops link m) = IPv4ConnectionStatus m"
  "IPv6ConnectionStatus (usbnet_link_change ops link m) = IPv6ConnectionStatus m"
  "sig_queue (usbnet_link_change ops link m) = sig_queue m"
  "net_acts (usbnet_link_change ops link m) =
     (if s_link m = link then net_acts m else net_acts m @ [act_of link])"
  by (auto simp: usbnet_link_change_def families_def udhcpc_start_def act_of_def Let_def split: option.split)

lemma link_change_ok:
  assumes "link_ok m" "link = (if b4 then link_v4 else 0) OR (if b6 then link_v6 else 0)"
    "b4 \<Longrightarrow> enable_ipv4 (profile m)" "b6 \<Longrightarrow> enable_ipv6 (profile m)"
  shows "link_ok (usbnet_link_change ops link m)"
proof -
  have "link \<noteq> - 1" using assms(2) by (simp split: if_splits)
  moreover have "families (profile (usbnet_link_change ops link m)) = families (profile m)"
    by (rule link_change_fields)
  moreover have "distinct_adj (net_acts (usbnet_link_change ops link m))"
    using assms(1) by (auto simp: link_ok_def link_change_fields intro!: distinct_adj_snoc dest: act_of_inj)
  ultimately show ?thesis
    using assms by (auto simp: link_ok_def link_change_fields families_def simp del: link_values)
qed

lemma link_down_ok: "link_ok m \<Longrightarrow> link_ok (usbnet_link_change ops 0 m)"
  by (rule link_change_ok [where ?b4.0 = False and ?b6.0 = False]) simp_all

lemma link_change_status: "status_ok m \<Longrightarrow> status_ok (usbnet_link_change ops link m)"
  using link_change_fields(1) [of ops link m] by (simp add: status_ok_def link_change_fields families_def)

lemma main_quit_inv: "status_ok m \<Longrightarrow> link_ok m \<Longrightarrow> manager_inv (main_quit ops m)"
  using link_down_ok [of m ops] link_change_status [of m ops 0]
  by (simp add: main_quit_def manager_inv_def link_ok_def status_ok_def link_change_fields)

section \<open>The steps of the handlers\<close>

lemma do_stop_keeps: "do_stop ops fam m = Some m' \<Longrightarrow> keeps m m'"
  by (auto simp: do_stop_def bind_eq_Some_conv keeps_def status_ok_def)

lemma do_registration_keeps: "do_registration ops m = Some m' \<Longrightarrow> keeps m m'"
  by (auto simp: do_registration_def bind_eq_Some_conv keeps_def status_ok_def)

lemma do_query_v4_keeps: "do_query_v4 ops m = Some (e, m') \<Longrightarrow> enable_ipv4 (profile m) \<Longrightarrow> keeps m m'"
  by (auto simp: do_query_v4_def bind_eq_Some_conv keeps_def status_ok_def)

lemma do_query_v6_keeps: "do_query_v6 ops m = Some m' \<Longrightarrow> enable_ipv6 (profile m) \<Longrightarrow> keeps m m'"
  by (auto simp: do_query_v6_def bind_eq_Some_conv keeps_def status_ok_def)

lemma do_info_keeps: "do_info f m = Some m' \<Longrightarrow> keeps m m'"
  by (auto simp: do_info_def bind_eq_Some_conv keeps_def status_ok_def split: option.splits)

lemma clock_keeps: "clock_msec m = Some (c, m') \<Longrightarrow> keeps m m'"
  by (auto simp: clock_msec_def keeps_def status_ok_def split: list.splits)

lemma start_result_keeps: "start_result m = Some m' \<Longrightarrow> keeps m m'"
  by (auto simp: start_result_def clock_msec_def bind_eq_Some_conv keeps_def status_ok_def Let_def
      split: if_splits list.splits)

lemma send_signo_keeps [simp]: "keeps m (send_signo_to_main g m)" "keeps m (main_send_event_to_qmidevice e m)"
  by (simp_all add: send_signo_to_main_def main_send_event_to_qmidevice_def keeps_def status_ok_def)

lemma send_signo_fields [simp]:
  "profile (send_signo_to_main g m) = profile m" "in_loop (send_signo_to_main g m) = in_loop m"
  "s_link (send_signo_to_main g m) = s_link m" "net_acts (send_signo_to_main g m) = net_acts m"
  "sig_queue (send_signo_to_main g m) = sig_queue m @ [g]"
  "IPv4ConnectionStatus (send_signo_to_main g m) = IPv4ConnectionStatus m"
  "IPv6ConnectionStatus (send_signo_to_main g m) = IPv6ConnectionStatus m"
  by (simp_all add: send_signo_to_main_def)

lemmas keeps_basic = do_stop_keeps do_registration_keeps do_query_v4_keeps do_query_v6_keeps
  do_info_keeps clock_keeps start_result_keeps

locale call_table =
  fixes ops :: "'s request_ops"
  assumes setup_families: "opSetupDataCall ops p fam s = Some (e, p', s') \<Longrightarrow> families p' = families p"
    and address_families: "opGetIPAddress ops p fam s = Some (e, p', s') \<Longrightarrow> families p' = families p"
begin

lemma do_setup_keeps: "do_setup ops fam m = Some (e, m') \<Longrightarrow> keeps m m'"
  using setup_families [of "profile m"]
  by (fastforce simp: do_setup_def bind_eq_Some_conv keeps_def status_ok_def families_def)

lemma do_address_keeps: "do_address ops fam m = Some (e, m') \<Longrightarrow> keeps m m'"
  using address_families [of "profile m"]
  by (fastforce simp: do_address_def bind_eq_Some_conv keeps_def status_ok_def families_def)

lemma retry_auth_keeps: "retry_auth ops e m = Some (e', m') \<Longrightarrow> keeps m m'"
  by (auto simp: retry_auth_def bind_eq_Some_conv Let_def keeps_def status_ok_def families_def
      split: if_splits dest!: do_setup_keeps)

lemma start_v4_keeps: "start_v4 ops m = Some m' \<Longrightarrow> keeps m m'"
  by (auto simp: start_v4_def bind_eq_Some_conv keeps_def status_ok_def families_def
      split: if_splits dest!: do_setup_keeps do_address_keeps retry_auth_keeps)

lemma start_v6_keeps: "start_v6 ops m = Some m' \<Longrightarrow> keeps m m'"
  by (auto simp: start_v6_def shared_call_def bind_eq_Some_conv keeps_def status_ok_def families_def
      split: if_splits dest!: do_setup_keeps do_address_keeps)

lemma sig_event_start_keeps:
  assumes "sig_event_start ops m = Some m'"
  shows "keeps m m'"
  using assms
  by (auto simp: sig_event_start_def bind_eq_Some_conv split: if_splits
      dest!: clock_keeps start_v4_keeps start_v6_keeps start_result_keeps intro: keeps_trans)
    (auto simp: keeps_def status_ok_def)

lemma check_ipv4_address_keeps: "check_ipv4_address ops m = Some (b, m') \<Longrightarrow> keeps m m'"
  by (auto simp: check_ipv4_address_def Let_def bind_eq_Some_conv split: if_splits dest!: do_address_keeps)

lemma hang_up_keeps: "keeps m (m\<lparr>IPv4ConnectionStatus := QWDS_PKT_DATA_DISCONNECTED\<rparr>)"
  by (simp add: keeps_def status_ok_def QWDS_PKT_DATA_DISCONNECTED_def QWDS_PKT_DATA_CONNECTED_def)

lemma fetch_address_keeps: "fetch_address ops m = Some m' \<Longrightarrow> keeps m m'"
  by (auto simp: fetch_address_def bind_eq_Some_conv split: if_splits
      dest!: do_address_keeps intro: keeps_trans hang_up_keeps)

lemma verify_address_keeps: "verify_address ops m = Some m' \<Longrightarrow> keeps m m'"
  by (auto simp: verify_address_def bind_eq_Some_conv split: if_splits
      dest!: check_ipv4_address_keeps do_stop_keeps intro: keeps_trans hang_up_keeps)

lemma check_v4_keeps: "check_v4 ops m = Some m' \<Longrightarrow> keeps m m'"
  by (auto simp: check_v4_def bind_eq_Some_conv split: if_splits intro: hang_up_keeps
      dest!: do_query_v4_keeps fetch_address_keeps verify_address_keeps)
    (blast intro: keeps_trans hang_up_keeps)+

lemma check_v6_keeps: "check_v6 ops m = Some m' \<Longrightarrow> keeps m m'"
  by (auto simp: check_v6_def shared_call_def keeps_def status_ok_def families_def QWDS_PKT_DATA_DISCONNECTED_def
      QWDS_PKT_DATA_CONNECTED_def split: if_splits dest!: do_query_v6_keeps)

lemma check_link_inv:
  assumes "status_ok m" "link_ok m" "in_loop m"
  shows "manager_inv (check_link ops m)"
proof -
  have "link_ok (usbnet_link_change ops (link_of m) m)"
    by (rule link_change_ok [OF assms(2), where ?b4.0 = "IPv4ConnectionStatus m = QWDS_PKT_DATA_CONNECTED"
          and ?b6.0 = "IPv6ConnectionStatus m = QWDS_PKT_DATA_CONNECTED"])
      (use assms(1) in \<open>auto simp: link_of_def status_ok_def\<close>)
  then show ?thesis
    using assms link_down_ok [OF assms(2), of ops]
    by (simp add: check_link_def manager_inv_def link_change_status link_change_fields)
qed

lemma sig_event_check_inv:
  assumes "sig_event_check ops m = Some m'" "manager_inv m" "in_loop m"
  shows "manager_inv m' \<and> families (profile m') = families (profile m)"
proof -
  obtain a b c d e m1 where steps: "do_info (opGetSignalInfo ops) m = Some a"
      "do_info (opGetCellInfoList ops) a = Some b" "do_info (opGetCoexWWANState ops) b = Some c"
      "(if PSAttached c \<noteq> 1 then do_registration ops c else Some c) = Some d"
      "check_v4 ops d = Some e" "check_v6 ops e = Some m1"
      and m': "m' = (if disconnected (check_link ops m1)
        then send_signo_to_main SIG_EVENT_START (check_link ops m1) else check_link ops m1)"
    using assms(1) unfolding sig_event_check_def by (auto simp: bind_eq_Some_conv Let_def)
  have "keeps c d" using steps(4) by (auto split: if_splits dest: do_registration_keeps)
  note do_info_keeps [OF steps(1)]
  also note do_info_keeps [OF steps(2)]
  also note do_info_keeps [OF steps(3)]
  also note \<open>keeps c d\<close>
  also note check_v4_keeps [OF steps(5)]
  also note check_v6_keeps [OF steps(6)]
  finally have k: "keeps m m1" .
  have "manager_inv (check_link ops m1)"
    using keeps_inv [OF assms(2) k] k assms(3) by (intro check_link_inv) (auto simp: manager_inv_def keeps_def)
  moreover have "families (profile (check_link ops m1)) = families (profile m)"
    using k by (simp add: check_link_def link_change_fields keeps_def)
  ultimately show ?thesis
    using keeps_inv [OF _ send_signo_keeps(1)] m' by auto
qed

lemma sig_event_stop_inv:
  assumes "sig_event_stop ops m = Some m'" "manager_inv m"
  shows "manager_inv m' \<and> families (profile m') = families (profile m)"
proof -
  obtain a b c where steps:
      "(if enable_ipv4 (profile m) \<and> IPv4ConnectionStatus m = QWDS_PKT_DATA_CONNECTED
        then do_stop ops IpFamilyV4 m else Some m) = Some a"
      "(if enable_ipv6 (profile a) \<and> IPv6ConnectionStatus a = QWDS_PKT_DATA_CONNECTED \<and> \<not> shared_call ops a
        then do_stop ops IpFamilyV6 a else Some a) = Some b"
      "do_info (dev_deinit ops) (usbnet_link_change ops 0 b) = Some c"
      "m' = main_quit ops (main_send_event_to_qmidevice ToQuit c)"
    using assms(1) unfolding sig_event_stop_def by (auto simp: bind_eq_Some_conv)
  have "keeps m a" "keeps a b" using steps(1,2) by (auto split: if_splits dest: do_stop_keeps)
  then have k: "keeps m b" by (rule keeps_trans)
  have ib: "status_ok b" "link_ok b" using keeps_inv [OF assms(2) k] by (auto simp: manager_inv_def)
  have c: "keeps (usbnet_link_change ops 0 b) c" using steps(3) by (rule do_info_keeps)
  have "status_ok c" "link_ok c"
    using c link_change_status [OF ib(1), of ops 0] link_down_ok [OF ib(2), of ops]
    by (auto simp: keeps_def link_ok_def families_def)
  moreover have "keeps c (main_send_event_to_qmidevice ToQuit c)" by simp
  ultimately have "manager_inv m'"
    unfolding steps(4) by (intro main_quit_inv) (auto simp: keeps_def link_ok_def families_def)
  moreover have "families (profile m') = families (profile m)"
    using k c by (simp add: steps(4) main_quit_def keeps_def link_change_fields main_send_event_to_qmidevice_def)
  ultimately show ?thesis ..
qed

lemma same_inv: "keeps m m' \<Longrightarrow> manager_inv m \<Longrightarrow> manager_inv m' \<and> families (profile m') = families (profile m)"
  using keeps_inv by (auto simp: keeps_def)

lemma main_left_inv: "manager_inv m \<Longrightarrow> manager_inv (main_quit ops m) \<and> families (profile (main_quit ops m)) = families (profile m)"
  using main_quit_inv [of m ops] by (simp add: manager_inv_def main_quit_def link_change_fields)

lemma handle_signo_inv:
  assumes "handle_signo ops m = Some m'" "manager_inv m" "in_loop m"
  shows "manager_inv m' \<and> families (profile m') = families (profile m)"
proof (cases "sig_queue m")
  case (Cons g gs)
  let ?m = "m\<lparr>sig_queue := gs, alarm_s := 0\<rparr>"
  have k: "keeps m ?m" by (simp add: keeps_def status_ok_def)
  note i = keeps_inv [OF assms(2) k]
  have fam: "families (profile ?m) = families (profile m)" and l: "in_loop ?m" using assms(3) by simp_all
  have h: "(case g of SIG_EVENT_START \<Rightarrow> sig_event_start ops ?m | SIG_EVENT_CHECK \<Rightarrow> sig_event_check ops ?m
      | SIG_EVENT_STOP \<Rightarrow> sig_event_stop ops ?m) = Some m'"
    using assms(1) Cons by (simp add: handle_signo_def Let_def)
  have "manager_inv m' \<and> families (profile m') = families (profile ?m)"
  proof (cases g)
    case SIG_EVENT_START
    with h have "sig_event_start ops ?m = Some m'" by simp
    from same_inv [OF sig_event_start_keeps [OF this] i] show ?thesis .
  next
    case SIG_EVENT_CHECK
    with h have "sig_event_check ops ?m = Some m'" by simp
    from sig_event_check_inv [OF this i l] show ?thesis .
  next
    case SIG_EVENT_STOP
    with h have "sig_event_stop ops ?m = Some m'" by simp
    from sig_event_stop_inv [OF this i] show ?thesis .
  qed
  with fam show ?thesis by simp
qed (use assms in \<open>simp add: handle_signo_def\<close>)

lemma network_changed_keeps: "network_changed ops m = Some m' \<Longrightarrow> keeps m m'"
  by (auto simp: network_changed_def bind_eq_Some_conv split: if_splits
      dest!: do_registration_keeps clock_keeps)
    (auto simp: keeps_def status_ok_def send_signo_to_main_def)

lemma loopback_profile_keeps:
  "keeps m (m\<lparr>profile := (profile m)\<lparr>loopback_state := a, replication_factor := n\<rparr>\<rparr>)"
  by (simp add: keeps_def status_ok_def families_def)

lemma loopback_config_keeps: "loopback_config ind m = Some m' \<Longrightarrow> keeps m m'"
  by (auto simp: loopback_config_def bind_eq_Some_conv Let_def split: if_splits
      intro: loopback_profile_keeps keeps_trans [OF loopback_profile_keeps send_signo_keeps(1)])

lemma handle_event_inv:
  assumes "handle_event ops e m = Some m'" "manager_inv m"
  shows "manager_inv m' \<and> families (profile m') = families (profile m)"
proof (cases e)
  case RIL_INDICATE_DEVICE_DISCONNECTED
  have "m' = main_quit ops (usbnet_link_change ops 0 m)"
    using RIL_INDICATE_DEVICE_DISCONNECTED assms(1) by (simp add: handle_event_def)
  moreover have "status_ok (usbnet_link_change ops 0 m)" "link_ok (usbnet_link_change ops 0 m)"
    using assms(2) by (simp_all add: manager_inv_def link_change_status link_down_ok)
  ultimately show ?thesis
    using main_quit_inv [of "usbnet_link_change ops 0 m" ops] by (simp add: main_quit_def link_change_fields)
next
  case RIL_UNSOL_RESPONSE_VOICE_NETWORK_STATE_CHANGED
  then have "network_changed ops m = Some m'" using assms(1) by (simp add: handle_event_def)
  from same_inv [OF network_changed_keeps [OF this] assms(2)] show ?thesis .
next
  case RIL_UNSOL_DATA_CALL_LIST_CHANGED
  have "keeps m m'"
    using assms(1) unfolding RIL_UNSOL_DATA_CALL_LIST_CHANGED
    by (auto simp: handle_event_def bind_eq_Some_conv split: if_splits dest!: clock_keeps)
      (auto simp: keeps_def status_ok_def send_signo_to_main_def)
  then show ?thesis by (rule same_inv [OF _ assms(2)])
next
  case MODEM_REPORT_RESET_EVENT
  let ?m = "(main_send_event_to_qmidevice ToQuit m)\<lparr>g_donot_exit_when_modem_hangup := True\<rparr>"
  have "keeps m ?m" by (simp add: keeps_def status_ok_def main_send_event_to_qmidevice_def)
  note i = same_inv [OF this assms(2)]
  have "m' = main_quit ops ?m" using MODEM_REPORT_RESET_EVENT assms(1) by (simp add: handle_event_def)
  then show ?thesis using main_left_inv [OF conjunct1 [OF i]] i by simp
next
  case (RIL_UNSOL_LOOPBACK_CONFIG_IND ind)
  then have "loopback_config ind m = Some m'" using assms(1) by (simp add: handle_event_def)
  from same_inv [OF loopback_config_keeps [OF this] assms(2)] show ?thesis .
qed (use assms in \<open>auto simp: handle_event_def\<close>)

lemma serve_fd_inv:
  assumes "serve_fd ops ev h m = Some m'" "manager_inv m" "in_loop m"
    and "\<And>m m'. h m = Some m' \<Longrightarrow> manager_inv m \<Longrightarrow> in_loop m \<Longrightarrow>
      manager_inv m' \<and> families (profile m') = families (profile m)"
  shows "manager_inv m' \<and> families (profile m') = families (profile m)"
proof -
  let ?m = "if fd_hup ev \<or> fd_err ev then main_send_event_to_qmidevice ToQuit m else m"
  have k: "keeps m ?m" by simp
  note i = same_inv [OF k assms(2)]
  have l: "in_loop ?m" using k assms(3) by (simp add: keeps_def)
  have m': "(if fd_hup ev then Some (main_quit ops ?m) else if fd_in ev then h ?m else Some ?m) = Some m'"
    using assms(1) by (simp only: serve_fd_def Let_def)
  show ?thesis
  proof (cases "fd_hup ev")
    case True
    with m' have "m' = main_quit ops ?m" by simp
    then show ?thesis using main_left_inv [of ?m] i by simp
  next
    case False
    then show ?thesis using m' assms(4) [OF _ conjunct1 [OF i] l] i by (cases "fd_in ev") auto
  qed
qed

lemma step_inv:
  assumes "qmi_main_step ops s m = Some m'" "manager_inv m"
  shows "manager_inv m' \<and> families (profile m') = families (profile m)"
proof (cases s)
  case (UnixSignal a)
  have "keeps m (ql_sigaction a m)"
    by (simp add: ql_sigaction_def keeps_def status_ok_def send_signo_to_main_def main_send_event_to_qmidevice_def)
  with UnixSignal assms show ?thesis using same_inv by (auto simp: qmi_main_step_def)
next
  case (Poll r)
  show ?thesis
  proof (cases "in_loop m")
    case False
    with Poll assms show ?thesis by (simp add: qmi_main_step_def)
  next
    case loop: True
    show ?thesis
    proof (cases r)
      case PollTimeout15
      with Poll loop assms(1) have "m' = send_signo_to_main SIG_EVENT_CHECK m"
        by (simp add: qmi_main_step_def poll_step_def)
      then show ?thesis using same_inv [OF send_signo_keeps(1) assms(2)] by simp
    next
      case PollError
      with Poll loop assms(1) have "m' = main_quit ops m"
        by (simp add: qmi_main_step_def poll_step_def)
      then show ?thesis using main_left_inv [OF assms(2)] by simp
    next
      case (Polled sg dv e)
      then obtain m1 where m1: "serve_fd ops sg (handle_signo ops) m = Some m1"
          "(if in_loop m1 then serve_fd ops dv (handle_event ops e) m1 else Some m1) = Some m'"
        using Poll loop assms(1) by (auto simp: qmi_main_step_def poll_step_def bind_eq_Some_conv)
      note i1 = serve_fd_inv [OF m1(1) assms(2) loop handle_signo_inv]
      have "manager_inv m' \<and> families (profile m') = families (profile m1)"
      proof (cases "in_loop m1")
        case True
        with m1(2) have "serve_fd ops dv (handle_event ops e) m1 = Some m'" by simp
        from serve_fd_inv [OF this conjunct1 [OF i1] True handle_event_inv] show ?thesis .
      qed (use m1(2) i1 in auto)
      then show ?thesis using i1 by simp
    qed
  qed
qed

lemma run_inv:
  "qmi_main_run ops ss m = Some m' \<Longrightarrow> manager_inv m \<Longrightarrow>
   manager_inv m' \<and> families (profile m') = families (profile m)"
proof (induction ss arbitrary: m)
  case (Cons s ss)
  then obtain m1 where "qmi_main_step ops s m = Some m1" "qmi_main_run ops ss m1 = Some m'"
    by (auto simp: bind_eq_Some_conv)
  then show ?case using step_inv [of s m m1] Cons by auto
qed simp

end

end
