(* ===== verification/ConnStart.thy ===== *)
theory ConnStart
  imports ConnInv
begin

text \<open>
  The connection manager before its loop: no call is recorded and the interface is not touched,
  so the loop is entered with the invariant of \<open>ConnInv\<close>, whatever the table of requests.
\<close>

section \<open>Up to the loop\<close>

text \<open>Before the loop no call is recorded and the interface is not touched.\<close>

definition idle :: "int \<Rightarrow> net_act list \<Rightarrow> 's main \<Rightarrow> bool" where
  "idle l a m \<longleftrightarrow> IPv4ConnectionStatus m = 0 \<and> IPv6ConnectionStatus m = 0 \<and> s_link m = l \<and> net_acts m = a"

lemma do_profile_idle: "do_profile f m = Some (e, m') \<Longrightarrow> idle l a m \<Longrightarrow> idle l a m'"
  by (auto simp: do_profile_def idle_def bind_eq_Some_conv split: option.splits)

lemma start_device_idle: "start_device ops m = Some (e, m') \<Longrightarrow> idle l a m \<Longrightarrow> idle l a m'"
  by (auto simp: start_device_def bind_eq_Some_conv idle_def dest!: do_profile_idle)

lemma do_info_idle: "do_info f m = Some m' \<Longrightarrow> idle l a m \<Longrightarrow> idle l a m'"
  by (auto simp: do_info_def idle_def bind_eq_Some_conv split: option.splits)

lemma do_registration_idle: "do_registration ops m = Some m' \<Longrightarrow> idle l a m \<Longrightarrow> idle l a m'"
  by (auto simp: do_registration_def idle_def bind_eq_Some_conv)

lemma start_loopback_idle: "start_loopback ops m = Some m' \<Longrightarrow> idle l a m \<Longrightarrow> idle l a m'"
  by (auto simp: start_loopback_def idle_def bind_eq_Some_conv split: option.splits if_splits)

lemma enter_pin_idle: "enter_pin ops m = Some m' \<Longrightarrow> idle l a m \<Longrightarrow> idle l a m'"
  by (auto simp: enter_pin_def idle_def bind_eq_Some_conv split: option.splits SIM_Status.splits)

lemma start_sim_idle: "start_sim ops m = Some m' \<Longrightarrow> idle l a m \<Longrightarrow> idle l a m'"
  by (auto simp: start_sim_def bind_eq_Some_conv split: option.splits elim!: enter_pin_idle)
    (simp add: idle_def)

lemma start_identity_idle: "start_identity ops m = Some m' \<Longrightarrow> idle l a m \<Longrightarrow> idle l a m'"
  by (auto simp: start_identity_def bind_eq_Some_conv split: if_splits dest: do_info_idle)

lemma start_profile_idle:
  assumes "start_profile ops m = Some m'" "idle l a m"
  shows "idle l a m'"
proof (cases "idProduct (usb_dev (profile m)) = 0x0316")
  case False
  then obtain e m1 where m1: "do_profile (opGetProfile ops) m = Some (e, m1)"
      and m': "(case opSetProfile ops of None \<Rightarrow> Some m1
        | Some f \<Rightarrow> if apn (profile m1) \<noteq> None \<or> user (profile m1) \<noteq> None \<or> pd (profile m1) \<noteq> None
            then do { (_, s) \<leftarrow> f (profile m1) (transport m1); Some (m1\<lparr>transport := s\<rparr>) }
            else Some m1) = Some m'"
    using assms(1) by (auto simp: start_profile_def bind_eq_Some_conv)
  have "idle l a m1" by (rule do_profile_idle [OF m1 assms(2)])
  then show ?thesis
    using m' by (cases "opSetProfile ops") (auto simp: idle_def bind_eq_Some_conv split: if_splits)
qed (use assms in \<open>simp add: start_profile_def\<close>)

lemma main_start_parts:
  assumes "qmi_main_start ops en m0 = Some (Inr m)"
  obtains k k' where "idle (s_link m0) (net_acts m0) k" "start_leftover ops k = Some k'"
    "m = send_signo_to_main SIG_EVENT_CHECK (k'\<lparr>in_loop := True\<rparr>)"
proof -
  let ?I = "idle (s_link m0) (net_acts m0) :: 'a main \<Rightarrow> bool"
  obtain now m1 a b c d e f g h k k' i i' i'' where steps: "clock_msec m0 = Some (now, m1)"
      "a = (if kills_brothers (profile (qmi_main_locals now m1))
        then (qmi_main_locals now m1)\<lparr>brothers_killed := True\<rparr> else qmi_main_locals now m1)"
      "start_device ops a = Some (i, b)" "do_profile (opBaseBandVersion ops) b = Some (i', c)"
      "do_profile (opSetEthMode ops) c = Some (i'', d)" "start_loopback ops d = Some e"
      "start_sim ops e = Some f" "start_identity ops f = Some g" "start_profile ops g = Some h"
      "do_registration ops h = Some k" "start_leftover ops k = Some k'"
      "m = send_signo_to_main SIG_EVENT_CHECK (k'\<lparr>in_loop := True\<rparr>)"
    using assms unfolding qmi_main_start_def
    by (auto simp: bind_eq_Some_conv Let_def split: if_splits)
  have "?I a" using steps(1,2)
    by (auto simp: idle_def qmi_main_locals_def clock_msec_def split: list.splits if_splits)
  note start_profile_idle [OF steps(9) start_identity_idle [OF steps(8) start_sim_idle [OF steps(7)
    start_loopback_idle [OF steps(6) do_profile_idle [OF steps(5) do_profile_idle [OF steps(4)
    start_device_idle [OF steps(3) this]]]]]]]
  from that [OF do_registration_idle [OF steps(10) this] steps(11,12)] show thesis .
qed

text \<open>The state in which the loop is entered; the interface is as an earlier run has left it.\<close>

definition loop_start :: "'s main \<Rightarrow> bool" where
  "loop_start m \<longleftrightarrow> IPv4ConnectionStatus m = 0 \<and> IPv6ConnectionStatus m = 0 \<and> in_loop m \<and>
     (s_link m = - 1 \<and> net_acts m = [] \<or> s_link m = 0 \<and> net_acts m \<noteq> [] \<and> last (net_acts m) = UdhcpcStop) \<and>
     distinct_adj (net_acts m)"

lemma loop_start_inv: "loop_start m \<Longrightarrow> manager_inv m"
  by (auto simp: loop_start_def manager_inv_def status_ok_def link_ok_def act_of_def QWDS_PKT_DATA_CONNECTED_def
      intro: exI [of _ False])

text \<open>The interface as an earlier run of the program, or none, has left it.\<close>

definition clean_interface :: "'s main \<Rightarrow> bool" where
  "clean_interface m \<longleftrightarrow>
     (s_link m = - 1 \<and> net_acts m = [] \<or> s_link m = 0 \<and> net_acts m \<noteq> [] \<and> last (net_acts m) = UdhcpcStop) \<and>
     distinct_adj (net_acts m)"

lemma clean_link_ok:
  "clean_interface m0 \<Longrightarrow> s_link m = s_link m0 \<Longrightarrow> net_acts m = net_acts m0 \<Longrightarrow> link_ok m"
  by (auto simp: clean_interface_def link_ok_def act_of_def intro: exI [of _ False])

text \<open>Whatever the table, the loop is entered with the invariant.\<close>

lemma main_start_inv:
  assumes "qmi_main_start ops en m0 = Some (Inr m)" "clean_interface m0"
  shows "manager_inv m \<and> in_loop m"
proof (rule main_start_parts [OF assms(1)])
  fix k k' assume k: "idle (s_link m0) (net_acts m0) k" "start_leftover ops k = Some k'"
    "m = send_signo_to_main SIG_EVENT_CHECK (k'\<lparr>in_loop := True\<rparr>)"
  have "keeps k k'" using k(2)
    by (auto simp: start_leftover_def bind_eq_Some_conv split: if_splits
        dest!: do_query_v4_keeps do_stop_keeps intro: keeps_trans)
  moreover have "status_ok k" using k(1) by (simp add: idle_def status_ok_def QWDS_PKT_DATA_CONNECTED_def)
  moreover have "s_link k = s_link m0" "net_acts k = net_acts m0" using k(1) by (simp_all add: idle_def)
  ultimately show ?thesis
    using clean_link_ok [OF assms(2), of m] by (simp add: k(3) keeps_def manager_inv_def status_ok_def)
qed

end
