(* ===== verification/ConnCheck.thy ===== *)
theory ConnCheck
  imports ConnStart
begin

text \<open>
  When the network interface changes: which configuration a check of the calls leaves, for every
  table of requests and every status of the two families, and that no other step of the loop
  changes it except leaving the loop. The configurations are written out as the numbers that
  the interface is told (16 for IPv4, 64 for IPv6, 80 for both), not by the code's own helper.
\<close>

section \<open>The expected interface\<close>

text \<open>
  The configuration for the connection states of the two families. When no family is connected
  and one of them is not disconnected either, the interface stays as it was.
\<close>

definition expected_link :: "byte \<Rightarrow> byte \<Rightarrow> int \<Rightarrow> int" where
  "expected_link v4 v6 old =
     (if v4 = 2 \<and> v6 = 2 then 80 else if v4 = 2 then 16 else if v6 = 2 then 64
      else if v4 = 1 \<and> v6 = 1 then 0 else old)"

definition expected_acts :: "int \<Rightarrow> int \<Rightarrow> net_act list" where
  "expected_acts old new =
     (if new = old then [] else if new = 0 then [UdhcpcStop] else [UdhcpcStart new])"

text \<open>An enabled family is disconnected.\<close>

definition call_lost :: "bool \<Rightarrow> bool \<Rightarrow> byte \<Rightarrow> byte \<Rightarrow> bool" where
  "call_lost on4 on6 v4 v6 \<longleftrightarrow> on4 \<and> v4 = 1 \<or> on6 \<and> v6 = 1"

lemma disconnected_lost:
  "disconnected m = call_lost (enable_ipv4 (profile m)) (enable_ipv6 (profile m))
     (IPv4ConnectionStatus m) (IPv6ConnectionStatus m)"
  by (simp add: disconnected_def call_lost_def QWDS_PKT_DATA_DISCONNECTED_def)

lemma check_link_expected:
  "s_link (check_link ops m) = expected_link (IPv4ConnectionStatus m) (IPv6ConnectionStatus m) (s_link m)"
  by (auto simp: check_link_def connected_def link_change_fields link_of_def expected_link_def
      QWDS_PKT_DATA_DISCONNECTED_def QWDS_PKT_DATA_CONNECTED_def)

lemma link_change_acts:
  "net_acts (usbnet_link_change ops link m) = net_acts m @ expected_acts (s_link m) link"
  by (auto simp: link_change_fields expected_acts_def act_of_def)

lemma check_link_acts:
  "net_acts (check_link ops m) = net_acts m @ expected_acts (s_link m) (s_link (check_link ops m))"
  by (auto simp: check_link_def link_change_acts link_change_fields expected_acts_def)

lemma check_link_families: "families (profile (check_link ops m)) = families (profile m)"
  by (simp add: check_link_def link_change_fields)

lemma check_link_fields [simp]:
  "sig_queue (check_link ops m) = sig_queue m" "in_loop (check_link ops m) = in_loop m"
  "IPv4ConnectionStatus (check_link ops m) = IPv4ConnectionStatus m"
  "IPv6ConnectionStatus (check_link ops m) = IPv6ConnectionStatus m"
  by (simp_all add: check_link_def link_change_fields)

text \<open>A family that the new configuration leaves out has no address any more.\<close>

lemma link_change_addresses:
  assumes "link \<noteq> s_link m"
  shows "link AND link_v4 = 0 \<Longrightarrow> ipv4 (profile (usbnet_link_change ops link m)) = ipv4_zero"
    "link AND link_v6 = 0 \<Longrightarrow> ipv6 (profile (usbnet_link_change ops link m)) = ipv6_zero"
  using assms by (auto simp: usbnet_link_change_def udhcpc_start_def Let_def split: option.split simp del: link_values)

lemma check_link_addresses:
  assumes "s_link (check_link ops m) \<noteq> s_link m"
  shows "IPv4ConnectionStatus m \<noteq> 2 \<Longrightarrow> ipv4 (profile (check_link ops m)) = ipv4_zero"
    "IPv6ConnectionStatus m \<noteq> 2 \<Longrightarrow> ipv6 (profile (check_link ops m)) = ipv6_zero"
proof -
  have eq: "\<exists>link. check_link ops m = usbnet_link_change ops link m \<and> link \<noteq> s_link m \<and>
      (IPv4ConnectionStatus m \<noteq> 2 \<longrightarrow> link AND link_v4 = 0) \<and> (IPv6ConnectionStatus m \<noteq> 2 \<longrightarrow> link AND link_v6 = 0)"
    using assms by (auto simp: check_link_def link_change_fields link_of_def connected_def
        QWDS_PKT_DATA_CONNECTED_def split: if_splits)
  then show "IPv4ConnectionStatus m \<noteq> 2 \<Longrightarrow> ipv4 (profile (check_link ops m)) = ipv4_zero"
    "IPv6ConnectionStatus m \<noteq> 2 \<Longrightarrow> ipv6 (profile (check_link ops m)) = ipv6_zero"
    using link_change_addresses by metis+
qed

section \<open>The steps before it\<close>

text \<open>The requests of a check leave the interface, the signals and the loop alone.\<close>

definition outside :: "'s main \<Rightarrow> int \<times> net_act list \<times> signo list \<times> bool" where
  "outside m = (s_link m, net_acts m, sig_queue m, in_loop m)"

lemma request_outside:
  "do_info f m = Some m' \<Longrightarrow> outside m' = outside m"
  "do_registration ops m = Some m' \<Longrightarrow> outside m' = outside m"
  "do_stop ops fam m = Some m' \<Longrightarrow> outside m' = outside m"
  "do_address ops fam m = Some (e, m') \<Longrightarrow> outside m' = outside m"
  "do_query_v4 ops m = Some (e, m') \<Longrightarrow> outside m' = outside m"
  "do_query_v6 ops m = Some m' \<Longrightarrow> outside m' = outside m"
  by (auto simp: do_info_def do_registration_def do_stop_def do_address_def do_query_v4_def do_query_v6_def
      outside_def bind_eq_Some_conv split: option.splits)

lemma outside_status [simp]:
  "outside (m\<lparr>IPv4ConnectionStatus := a\<rparr>) = outside m" "outside (m\<lparr>IPv6ConnectionStatus := a\<rparr>) = outside m"
  by (simp_all add: outside_def)

lemma check_address_outside: "check_ipv4_address ops m = Some (b, m') \<Longrightarrow> outside m' = outside m"
  by (auto simp: check_ipv4_address_def Let_def bind_eq_Some_conv split: if_splits dest: request_outside)

lemma fetch_address_outside: "fetch_address ops m = Some m' \<Longrightarrow> outside m' = outside m"
  by (auto simp: fetch_address_def bind_eq_Some_conv split: if_splits dest: request_outside(4))

lemma verify_address_outside: "verify_address ops m = Some m' \<Longrightarrow> outside m' = outside m"
  by (auto simp: verify_address_def bind_eq_Some_conv split: if_splits
      dest!: request_outside(3) check_address_outside)

lemma check_v4_outside: "check_v4 ops m = Some m' \<Longrightarrow> outside m' = outside m"
  by (auto simp: check_v4_def bind_eq_Some_conv split: if_splits
      dest!: request_outside(5) fetch_address_outside verify_address_outside)

lemma check_v6_outside: "check_v6 ops m = Some m' \<Longrightarrow> outside m' = outside m"
  by (auto simp: check_v6_def bind_eq_Some_conv split: if_splits dest!: request_outside)

text \<open>A check is its requests, the configuration of the interface and the redial.\<close>

lemma check_parts:
  assumes "sig_event_check ops m = Some m'"
  obtains d e m1 where "outside d = outside m" "check_v4 ops d = Some e" "check_v6 ops e = Some m1"
    "outside m1 = outside m"
    "m' = (if disconnected (check_link ops m1) then send_signo_to_main SIG_EVENT_START (check_link ops m1)
       else check_link ops m1)"
proof -
  obtain a b c d e m1 where steps: "do_info (opGetSignalInfo ops) m = Some a"
      "do_info (opGetCellInfoList ops) a = Some b" "do_info (opGetCoexWWANState ops) b = Some c"
      "(if PSAttached c \<noteq> 1 then do_registration ops c else Some c) = Some d"
      "check_v4 ops d = Some e" "check_v6 ops e = Some m1"
      and m': "m' = (if disconnected (check_link ops m1)
        then send_signo_to_main SIG_EVENT_START (check_link ops m1) else check_link ops m1)"
    using assms unfolding sig_event_check_def by (auto simp: bind_eq_Some_conv Let_def)
  have "outside d = outside c" using steps(4) by (auto split: if_splits dest: request_outside)
  then have d: "outside d = outside m" using request_outside(1) [OF steps(1)]
      request_outside(1) [OF steps(2)] request_outside(1) [OF steps(3)] by simp
  moreover have "outside m1 = outside m" using check_v4_outside [OF steps(5)] check_v6_outside [OF steps(6)] d by simp
  ultimately show thesis using that steps(5,6) m' by blast
qed

lemma check_result:
  assumes "sig_event_check ops m = Some m'"
  shows "s_link m' = expected_link (IPv4ConnectionStatus m') (IPv6ConnectionStatus m') (s_link m)"
    "net_acts m' = net_acts m @ expected_acts (s_link m) (s_link m')"
    "sig_queue m' = sig_queue m @ (if call_lost (enable_ipv4 (profile m')) (enable_ipv6 (profile m'))
       (IPv4ConnectionStatus m') (IPv6ConnectionStatus m') then [SIG_EVENT_START] else [])"
    "in_loop m' = in_loop m"
    "s_link m' \<noteq> s_link m \<Longrightarrow> IPv4ConnectionStatus m' \<noteq> 2 \<Longrightarrow> ipv4 (profile m') = ipv4_zero"
    "s_link m' \<noteq> s_link m \<Longrightarrow> IPv6ConnectionStatus m' \<noteq> 2 \<Longrightarrow> ipv6 (profile m') = ipv6_zero"
proof -
  obtain d e m1 where o: "outside m1 = outside m"
    and m': "m' = (if disconnected (check_link ops m1) then send_signo_to_main SIG_EVENT_START (check_link ops m1)
       else check_link ops m1)"
    using assms by (rule check_parts)
  have f: "s_link m1 = s_link m" "net_acts m1 = net_acts m" "sig_queue m1 = sig_queue m" "in_loop m1 = in_loop m"
    using o by (simp_all add: outside_def)
  show "s_link m' = expected_link (IPv4ConnectionStatus m') (IPv6ConnectionStatus m') (s_link m)"
    by (simp add: m' check_link_expected f)
  show "net_acts m' = net_acts m @ expected_acts (s_link m) (s_link m')"
    by (simp add: m' check_link_acts f)
  show "sig_queue m' = sig_queue m @ (if call_lost (enable_ipv4 (profile m')) (enable_ipv6 (profile m'))
       (IPv4ConnectionStatus m') (IPv6ConnectionStatus m') then [SIG_EVENT_START] else [])"
    by (simp add: m' disconnected_lost f)
  show "in_loop m' = in_loop m" by (simp add: m' f)
  show "s_link m' \<noteq> s_link m \<Longrightarrow> IPv4ConnectionStatus m' \<noteq> 2 \<Longrightarrow> ipv4 (profile m') = ipv4_zero"
    "s_link m' \<noteq> s_link m \<Longrightarrow> IPv6ConnectionStatus m' \<noteq> 2 \<Longrightarrow> ipv6 (profile m') = ipv6_zero"
    using check_link_addresses [of ops m1] by (auto simp: m' f split: if_splits)
qed

section \<open>Steps of the loop\<close>

text \<open>The turn of the loop reads a check signal.\<close>

definition check_due :: "main_step \<Rightarrow> 's main \<Rightarrow> bool" where
  "check_due s m \<longleftrightarrow> (case s of
       Poll (Polled sg dv e) \<Rightarrow> \<not> fd_hup sg \<and> fd_in sg \<and> sig_queue m \<noteq> [] \<and> hd (sig_queue m) = SIG_EVENT_CHECK
     | _ \<Rightarrow> False)"

text \<open>What a step leaves that changes neither the interface nor a status.\<close>

definition calls :: "'s main \<Rightarrow> int \<times> byte \<times> byte \<times> bool" where
  "calls m = (s_link m, IPv4ConnectionStatus m, IPv6ConnectionStatus m, in_loop m)"

lemma calls_signals [simp]:
  "calls (send_signo_to_main g m) = calls m" "calls (main_send_event_to_qmidevice q m) = calls m"
  by (simp_all add: calls_def main_send_event_to_qmidevice_def)

lemma main_quit_left [simp]: "\<not> in_loop (main_quit ops m)"
  by (simp add: main_quit_def)

lemma registration_calls: "do_registration ops m = Some m' \<Longrightarrow> calls m' = calls m"
  by (auto simp: do_registration_def calls_def bind_eq_Some_conv)

lemma clock_calls: "clock_msec m = Some (c, m') \<Longrightarrow> calls m' = calls m"
  by (auto simp: clock_msec_def calls_def split: list.splits)

lemma allow_time_calls [simp]: "calls (m\<lparr>SetupCallAllowTime := c\<rparr>) = calls m"
  by (simp add: calls_def)

lemma network_changed_calls:
  assumes "network_changed ops m = Some m'"
  shows "calls m' = calls m"
proof -
  obtain m1 where m1: "do_registration ops m = Some m1"
    and m': "(if PSAttached m1 = 1 then Some (if disconnected m1 then send_signo_to_main SIG_EVENT_START m1 else m1)
      else do { (c, m) \<leftarrow> clock_msec m1; Some (m\<lparr>SetupCallAllowTime := c\<rparr>) }) = Some m'"
    using assms unfolding network_changed_def by (auto simp: bind_eq_Some_conv)
  have "calls m' = calls m1"
  proof (cases "PSAttached m1 = 1")
    case False
    with m' obtain c m2 where "clock_msec m1 = Some (c, m2)" "m' = m2\<lparr>SetupCallAllowTime := c\<rparr>"
      by (auto simp: bind_eq_Some_conv)
    then show ?thesis using clock_calls [of m1 c m2] by simp
  qed (use m' in auto)
  then show ?thesis using registration_calls [OF m1] by simp
qed

lemma profile_calls [simp]: "calls (m\<lparr>profile := p\<rparr>) = calls m"
  by (simp add: calls_def)

lemma loopback_calls:
  assumes "loopback_config ind m = Some m'"
  shows "calls m' = calls m"
proof (cases "length ind \<noteq> 15")
  case False
  then obtain st n where r: "rd8 ind 7 = Some st" "rd32 ind 11 = Some n"
    using assms by (cases "rd8 ind 7"; cases "rd32 ind 11") (simp_all add: loopback_config_def)
  let ?n = "m\<lparr>profile := (profile m)\<lparr>loopback_state := (st \<noteq> 0), replication_factor := sint n\<rparr>\<rparr>"
  have "m' = (if st \<noteq> 0 then send_signo_to_main SIG_EVENT_START ?n else ?n)"
    using assms False by (simp add: loopback_config_def r Let_def split del: if_split)
  then show ?thesis by (cases "st = 0") (simp_all del: if_split)
qed (use assms in \<open>simp add: loopback_config_def\<close>)

lemma list_changed_calls:
  "handle_event ops RIL_UNSOL_DATA_CALL_LIST_CHANGED m = Some m' \<Longrightarrow> calls m' = calls m"
  by (auto simp: handle_event_def bind_eq_Some_conv split: if_splits dest!: clock_calls)

lemma handle_event_calls:
  "handle_event ops e m = Some m' \<Longrightarrow> in_loop m' \<Longrightarrow> calls m' = calls m"
proof (cases e)
  case RIL_UNSOL_DATA_CALL_LIST_CHANGED
  assume "handle_event ops e m = Some m'"
  then show ?thesis unfolding RIL_UNSOL_DATA_CALL_LIST_CHANGED by (rule list_changed_calls)
qed (auto simp: handle_event_def network_changed_calls loopback_calls)

lemma serve_fd_calls:
  assumes "serve_fd ops ev h m = Some m'" "in_loop m'"
  shows "\<not> fd_hup ev \<and> (if fd_in ev
    then h (if fd_err ev then main_send_event_to_qmidevice ToQuit m else m) = Some m' else calls m' = calls m)"
  using assms by (auto simp: serve_fd_def Let_def split: if_splits)

lemma stop_leaves: "sig_event_stop ops m = Some m' \<Longrightarrow> \<not> in_loop m'"
  by (auto simp: sig_event_stop_def bind_eq_Some_conv)

lemma left_stays: "qmi_main_step ops s m = Some m' \<Longrightarrow> \<not> in_loop m \<Longrightarrow> \<not> in_loop m'"
  by (cases s) (auto simp: qmi_main_step_def ql_sigaction_def main_send_event_to_qmidevice_def split: if_splits)

context call_table
begin

lemma handle_signo_link:
  assumes "handle_signo ops m = Some m'" "in_loop m'"
  shows "s_link m' = (if sig_queue m \<noteq> [] \<and> hd (sig_queue m) = SIG_EVENT_CHECK
      then expected_link (IPv4ConnectionStatus m') (IPv6ConnectionStatus m') (s_link m) else s_link m)"
proof (cases "sig_queue m")
  case (Cons g gs)
  let ?m = "m\<lparr>sig_queue := gs, alarm_s := 0\<rparr>"
  have h: "(case g of SIG_EVENT_START \<Rightarrow> sig_event_start ops ?m | SIG_EVENT_CHECK \<Rightarrow> sig_event_check ops ?m
      | SIG_EVENT_STOP \<Rightarrow> sig_event_stop ops ?m) = Some m'"
    using assms(1) Cons by (simp add: handle_signo_def Let_def)
  show ?thesis
  proof (cases g)
    case SIG_EVENT_START
    with h have "keeps ?m m'" using sig_event_start_keeps by simp
    then show ?thesis using Cons SIG_EVENT_START by (simp add: keeps_def)
  next
    case SIG_EVENT_CHECK
    with h have "sig_event_check ops ?m = Some m'" by simp
    from check_result(1) [OF this] show ?thesis using Cons SIG_EVENT_CHECK by simp
  next
    case SIG_EVENT_STOP
    with h assms(2) show ?thesis using stop_leaves by auto
  qed
qed (use assms(1) in \<open>simp add: handle_signo_def\<close>)

lemma step_link:
  assumes "qmi_main_step ops s m = Some m'" "in_loop m" "in_loop m'"
  shows "s_link m' = (if check_due s m
      then expected_link (IPv4ConnectionStatus m') (IPv6ConnectionStatus m') (s_link m) else s_link m)"
proof (cases s)
  case (UnixSignal a)
  with assms(1) have "calls m' = calls m"
    by (auto simp: qmi_main_step_def ql_sigaction_def) (simp_all add: calls_def)
  then show ?thesis by (simp add: UnixSignal check_due_def calls_def)
next
  case (Poll r)
  show ?thesis
  proof (cases r)
    case PollTimeout15
    with Poll assms have "m' = send_signo_to_main SIG_EVENT_CHECK m" by (simp add: qmi_main_step_def poll_step_def)
    then show ?thesis by (simp add: Poll PollTimeout15 check_due_def)
  next
    case PollError
    with Poll assms show ?thesis by (auto simp: qmi_main_step_def poll_step_def)
  next
    case (Polled sg dv e)
    then obtain m1 where m1: "serve_fd ops sg (handle_signo ops) m = Some m1"
        "(if in_loop m1 then serve_fd ops dv (handle_event ops e) m1 else Some m1) = Some m'"
      using Poll assms(1,2) by (auto simp: qmi_main_step_def poll_step_def bind_eq_Some_conv)
    have l: "in_loop m1" using m1(2) assms(3) by (cases "in_loop m1") auto
    let ?n = "if fd_err sg then main_send_event_to_qmidevice ToQuit m else m"
    have n: "sig_queue ?n = sig_queue m" "s_link ?n = s_link m" by (simp_all add: main_send_event_to_qmidevice_def)
    have first: "s_link m1 = (if check_due s m
        then expected_link (IPv4ConnectionStatus m1) (IPv6ConnectionStatus m1) (s_link m) else s_link m)"
      using serve_fd_calls [OF m1(1) l] handle_signo_link [of ?n m1] l
      unfolding n by (simp add: Poll Polled check_due_def calls_def split: if_splits)
    have "serve_fd ops dv (handle_event ops e) m1 = Some m'" using m1(2) l by simp
    from serve_fd_calls [OF this assms(3)] have "calls m' = calls m1"
      using handle_event_calls [of ops e _ m'] assms(3) by (auto split: if_splits)
    with first show ?thesis by (simp add: calls_def)
  qed
qed

end

end
