(* ===== verification/QmiAnswer.thy ===== *)
theory QmiAnswer
  imports QmiReq
begin

text \<open>
  Requests that the modem answers: what an answer looks like, that a request on a ready
  device gets the answer the modem gives to it, and what every request leaves unchanged.
\<close>

section \<open>The header of a composed request\<close>

definition fits :: "custom option \<Rightarrow> bool" where
  "fits c \<longleftrightarrow> (case c of None \<Rightarrow> True
     | Some (ret, b) \<Rightarrow> 4 \<le> unat ret \<and> unat ret \<le> 247 \<and> length b \<le> 243)"

lemma rd_take:
  "i < n \<Longrightarrow> rd8 (take n b) i = rd8 b i" "i + 1 < n \<Longrightarrow> rd16 (take n b) i = rd16 b i"
  by (simp_all add: rd16_def rd8_def)

lemma rd16_at:
  "length p = i \<Longrightarrow> rd16 (p @ le16 w @ s) i = Some w"
  using rd16_append2 [of p "le16 w @ s" 0] by (simp add: rd16_le16)

lemma rd8_at: "length p = i \<Longrightarrow> rd8 (p @ b # s) i = Some b"
  using rd8_append2 [of p "b # s" 0] by (simp add: rd8_Cons)

text \<open>The bytes before the body.\<close>

definition mux_header :: "u16 \<Rightarrow> byte \<Rightarrow> byte \<Rightarrow> byte \<Rightarrow> u16 \<Rightarrow> u16 \<Rightarrow> byte list" where
  "mux_header len qt cid cf tid ty =
     [0x01] @ le16 len @ [0x00, qt, cid] @ [cf] @ le16 tid @ le16 ty"

lemma mux_header_fields:
  "length (mux_header len qt cid cf tid ty) = 11"
  "rd16 (mux_header len qt cid cf tid ty @ s) 1 = Some len"
  "rd8 (mux_header len qt cid cf tid ty @ s) 4 = Some qt"
  "rd8 (mux_header len qt cid cf tid ty @ s) 5 = Some cid"
  "rd16 (mux_header len qt cid cf tid ty @ s) 7 = Some tid"
  "rd16 (mux_header len qt cid cf tid ty @ s) 9 = Some ty"
proof -
  show "length (mux_header len qt cid cf tid ty) = 11" by (simp add: mux_header_def)
  show "rd16 (mux_header len qt cid cf tid ty @ s) 1 = Some len"
    using rd16_at [of "[0x01]" 1 len] by (simp add: mux_header_def)
  show "rd8 (mux_header len qt cid cf tid ty @ s) 4 = Some qt"
    using rd8_at [of "[0x01] @ le16 len @ [0x00]" 4 qt] by (simp add: mux_header_def)
  show "rd8 (mux_header len qt cid cf tid ty @ s) 5 = Some cid"
    using rd8_at [of "[0x01] @ le16 len @ [0x00, qt]" 5 cid] by (simp add: mux_header_def)
  show "rd16 (mux_header len qt cid cf tid ty @ s) 7 = Some tid"
    using rd16_at [of "[0x01] @ le16 len @ [0x00, qt, cid, cf]" 7 tid] by (simp add: mux_header_def)
  show "rd16 (mux_header len qt cid cf tid ty @ s) 9 = Some ty"
    using rd16_at [of "[0x01] @ le16 len @ [0x00, qt, cid, cf] @ le16 tid" 9 ty]
    by (simp add: mux_header_def)
qed

lemma ComposeQMUXMsg_header:
  assumes "fits c"
  shows "\<exists>len body. ComposeQMUXMsg qt ty c tid =
      Some (mux_header len qt 0 0 (fst (GetQMUXTransactionId tid)) ty @ body, snd (GetQMUXTransactionId tid)) \<and>
      2 \<le> length body"
proof -
  obtain i i' where tid: "GetQMUXTransactionId tid = (i, i')" by fastforce
  obtain ret b where c: "(case c of None \<Rightarrow> (4, []) | Some c \<Rightarrow> c) = (ret, b)"
    and ret: "4 \<le> unat (ret :: u16)" "unat ret \<le> 247" "length b \<le> 243"
    using assms by (cases c) (auto simp: fits_def)
  let ?mlen = "ret - 4" and ?L = "unat ret + 8"
  have hlen: "?mlen + 4 + 3 + 6 - 1 = of_nat ?L" by (simp add: algebra_simps)
  have unat: "unat (of_nat ?L :: u16) = ?L" using ret(2) by (intro unat_of_nat_small) simp
  have ok: "\<not> (WDM_DEFAULT_BUFSIZE < 13 + length b \<or> WDM_DEFAULT_BUFSIZE < ?L + 1)"
    using ret by (simp add: WDM_DEFAULT_BUFSIZE_def)
  let ?buf = "mux_header (of_nat ?L) qt 0 0 i ty @ le16 ?mlen @ b"
  let ?z = "replicate (WDM_DEFAULT_BUFSIZE - length ?buf) 0"
  have "ComposeQMUXMsg qt ty c tid = Some (take (?L + 1) (?buf @ ?z), i')"
    unfolding ComposeQMUXMsg_def Let_def c tid case_prod_conv hlen unat if_not_P [OF ok]
    by (simp add: mux_header_def)
  moreover have "take (?L + 1) (?buf @ ?z) =
      mux_header (of_nat ?L) qt 0 0 i ty @ take (?L + 1 - 11) (le16 ?mlen @ b @ ?z)"
    using ret(1) mux_header_fields(1) by simp
  moreover have "2 \<le> length (take (?L + 1 - 11) (le16 ?mlen @ b @ ?z))" using ret(1) by simp
  ultimately show ?thesis using tid by (metis fst_conv snd_conv)
qed

section \<open>Answers\<close>

definition modem_answer :: "byte \<Rightarrow> byte \<Rightarrow> u16 \<Rightarrow> u16 \<Rightarrow> (byte \<times> byte list) list \<Rightarrow> byte list" where
  "modem_answer qt cid tid ty ts =
     rsp_msg (mux_header (of_nat (12 + length (enc_tlvs ts))) qt cid 2 tid ty) ts []"

lemma copy_modem_answer:
  assumes "length (enc_tlvs ts) < 65000"
  shows "copy_msg (modem_answer qt cid tid ty ts) = Some (modem_answer qt cid tid ty ts)"
proof -
  let ?m = "modem_answer qt cid tid ty ts" and ?n = "length (enc_tlvs ts)"
  have "rd16 ?m 1 = Some (of_nat (12 + ?n))"
    by (simp only: modem_answer_def rsp_msg_def mux_header_fields)
  moreover have "unat (of_nat (12 + ?n) :: u16) = 12 + ?n" using assms by (intro unat_of_nat_small) simp
  moreover have "length ?m = 13 + ?n" by (simp add: modem_answer_def rsp_msg_def mux_header_fields(1))
  ultimately show ?thesis by (simp add: copy_msg_def rdn_def)
qed

lemma answers_request:
  assumes "rd8 q 4 = Some qt" "rd8 q 5 = Some cid" "rd16 q 7 = Some tid" "qt \<noteq> QMUX_TYPE_CTL"
  shows "is_response q (modem_answer qt cid tid ty ts) = Some True"
  using assms by (simp add: is_response_def modem_answer_def rsp_msg_def mux_header_fields)

text \<open>The device has a client for the service.\<close>

definition client_ready :: "qmi_dev \<Rightarrow> byte \<Rightarrow> byte \<Rightarrow> bool" where
  "client_ready d qt cid \<longleftrightarrow> cdc_wdm_fd d \<and> unat qt < length (qmiclientId d) \<and>
     qmiclientId d ! unat qt = cid \<and> cid \<noteq> 0 \<and> qt \<noteq> QMUX_TYPE_CTL"

definition wire_type :: "byte \<Rightarrow> byte" where
  "wire_type qt = (if qt = QMUX_TYPE_WDS_IPV6 then QMUX_TYPE_WDS else qt)"

lemma send_ready:
  assumes "client_ready d qt cid" "io_ok io" "2 \<le> length body"
  shows "QmiWwanSendQMI d io (mux_header len qt 0 0 tid ty @ body) =
    Some (0, mux_header len (wire_type qt) cid 0 tid ty @ body)"
proof -
  let ?q = "mux_header len qt 0 0 tid ty @ body" and ?q' = "mux_header len (wire_type qt) cid 0 tid ty @ body"
  have up5: "?q[5 := cid] = mux_header len qt cid 0 tid ty @ body"
    by (simp add: mux_header_def le16_def)
  have up4: "(mux_header len QMUX_TYPE_WDS_IPV6 cid 0 tid ty @ body)[4 := QMUX_TYPE_WDS] =
      mux_header len QMUX_TYPE_WDS cid 0 tid ty @ body"
    by (simp add: mux_header_def le16_def)
  show ?thesis
    using assms up4 unfolding QmiWwanSendQMI_def
    by (auto simp: client_ready_def io_ok_def mux_header_fields mux_header_fields(2) [unfolded One_nat_def]
        up5 wire_type_def Let_def)
qed

text \<open>The environment of a request that the modem answers with the TLVs \<open>ts\<close>.\<close>

definition answered_with ::
  "byte \<Rightarrow> u16 \<Rightarrow> (byte \<times> byte list) list \<Rightarrow> qmi_dev \<Rightarrow> (send_io \<times> wait_round list) list \<Rightarrow> bool" where
  "answered_with qt ty ts d es \<longleftrightarrow> length (enc_tlvs ts) < 65000 \<and>
     (\<exists>io cid. io_ok io \<and> client_ready d qt cid \<and>
       env d = (io, [([Some (modem_answer (wire_type qt) cid
                   (fst (GetQMUXTransactionId (mux_tid d))) ty ts)], 0)]) # es)"

lemma wire_type_ctl: "qt \<noteq> QMUX_TYPE_CTL \<Longrightarrow> wire_type qt \<noteq> QMUX_TYPE_CTL"
  by (simp add: wire_type_def qmux_types)

lemma QmiSend_answered:
  assumes "answered_with qt ty ts d es" "2 \<le> length body" "msecs \<noteq> 0" "d' = d\<lparr>mux_tid := x\<rparr>"
    "tid = fst (GetQMUXTransactionId (mux_tid d))"
  shows "\<exists>r d2. QmiSend msecs (Some (mux_header len qt 0 0 tid ty @ body)) True d' = Some (0, Some r, d2) \<and>
    (\<exists>cid. r = modem_answer (wire_type qt) cid tid ty ts \<and> client_ready d qt cid \<and>
       sent d2 = sent d @ [mux_header len (wire_type qt) cid 0 tid ty @ body]) \<and> env d2 = es \<and>
    cdc_wdm_fd d2 = cdc_wdm_fd d \<and> qmiclientId d2 = qmiclientId d \<and> mux_tid d2 = x"
proof -
  obtain io cid where e: "io_ok io" "client_ready d qt cid"
      "env d = (io, [([Some (modem_answer (wire_type qt) cid tid ty ts)], 0)]) # es"
    and n: "length (enc_tlvs ts) < 65000"
    using assms(1,5) by (auto simp: answered_with_def)
  let ?q = "mux_header len qt 0 0 tid ty @ body" and ?q' = "mux_header len (wire_type qt) cid 0 tid ty @ body"
  let ?m = "modem_answer (wire_type qt) cid tid ty ts"
  have "client_ready d' qt cid" using e(2) assms(4) by (simp add: client_ready_def)
  note send = send_ready [OF this e(1) assms(2), of len tid ty]
  have resp: "is_response ?q' ?m = Some True"
    using wire_type_ctl e(2) by (intro answers_request) (simp_all add: mux_header_fields client_ready_def)
  note copy = copy_modem_answer [OF n, of "wire_type qt" cid tid ty]
  let ?s1 = "(slot d')\<lparr>s_pRequest := Some ?q', s_pResponse := None\<rparr>"
  let ?s2 = "?s1\<lparr>s_pRequest := None, s_pResponse := Some ?m\<rparr>"
  have recv: "recv_all [Some ?m] ?s1 = Some ?s2"
    by (simp add: QmiThreadRecvQMI_def resp copy)
  have wait: "pthread_cond_timeout_np msecs [([Some ?m], 0)] ?s1 = Some (0, ?s2)"
    using assms(3) recv by (simp add: pthread_cond_timeout_np_def Let_def ETIMEDOUT_def word_neq_0_conv)
  have "QmiThreadSendQMITimeout (QmiWwanSendQMI d' io) (Some ?q) True msecs
      [([Some ?m], 0)] (slot d') = Some (0, Some ?m, ?s2)"
    by (simp add: QmiThreadSendQMITimeout_def send wait Let_def)
  moreover have "on_wire d' io (Some ?q) = [?q']"
    using send e(1) by (simp add: on_wire_def io_ok_def)
  ultimately show ?thesis using e(2,3) assms(4) by (auto simp: QmiSend_def)
qed

text \<open>The body of a request as it is sent.\<close>

lemma ComposeQMUXMsg_body:
  assumes "length b \<le> 243"
  shows "\<exists>len. ComposeQMUXMsg qt ty (Some (qmux_body b)) tid =
    Some (mux_header len qt 0 0 (fst (GetQMUXTransactionId tid)) ty @ le16 (of_nat (length b)) @ b,
      snd (GetQMUXTransactionId tid))"
proof -
  obtain i i' where tid: "GetQMUXTransactionId tid = (i, i')" by fastforce
  let ?n = "length b" and ?L = "length b + 12"
  have hlen: "(4 + of_nat ?n - 4 + 4 + 3 + 6 - 1 :: u16) = of_nat ?L" by simp
  have unat: "unat (of_nat ?L :: u16) = ?L" using assms by (intro unat_of_nat_small) simp
  have ok: "\<not> (WDM_DEFAULT_BUFSIZE < 13 + length b \<or> WDM_DEFAULT_BUFSIZE < ?L + 1)"
    using assms by (simp add: WDM_DEFAULT_BUFSIZE_def)
  let ?buf = "mux_header (of_nat ?L) qt 0 0 i ty @ le16 (of_nat ?n) @ b"
  let ?z = "replicate (WDM_DEFAULT_BUFSIZE - length ?buf) 0"
  have "ComposeQMUXMsg qt ty (Some (qmux_body b)) tid = Some (take (?L + 1) (?buf @ ?z), i')"
    unfolding ComposeQMUXMsg_def Let_def qmux_body_def option.case(2) tid case_prod_conv hlen unat
      if_not_P [OF ok]
    by (simp add: mux_header_def)
  moreover have "take (?L + 1) (?buf @ ?z) = ?buf" using mux_header_fields(1) by simp
  ultimately show ?thesis using tid by (metis fst_conv snd_conv)
qed

definition request_on_wire :: "byte \<Rightarrow> byte \<Rightarrow> u16 \<Rightarrow> u16 \<Rightarrow> byte list \<Rightarrow> byte list \<Rightarrow> bool" where
  "request_on_wire qt cid tid ty b m \<longleftrightarrow>
     (\<exists>len. m = mux_header len (wire_type qt) cid 0 tid ty @ le16 (of_nat (length b)) @ b)"

text \<open>What a request does not change: everything but the queue of environments and the slot.\<close>

definition same_clients :: "qmi_dev \<Rightarrow> qmi_dev \<Rightarrow> bool" where
  "same_clients d d2 \<longleftrightarrow> cdc_wdm_fd d2 = cdc_wdm_fd d \<and> qmiclientId d2 = qmiclientId d \<and>
     mux_tid d2 = snd (GetQMUXTransactionId (mux_tid d))"

lemma qmi_request_answered:
  assumes "answered_with qt ty ts (qdev q) es" "fits c" "msecs \<noteq> 0"
  shows "\<exists>cid tid d2. qmi_request_t msecs qt ty c q =
      Some (0, Some (modem_answer (wire_type qt) cid tid ty ts), q\<lparr>qdev := d2\<rparr>) \<and> env d2 = es \<and>
      same_clients (qdev q) d2"
proof -
  let ?t = "GetQMUXTransactionId (mux_tid (qdev q))"
  obtain len body where c: "ComposeQMUXMsg qt ty c (mux_tid (qdev q)) =
      Some (mux_header len qt 0 0 (fst ?t) ty @ body, snd ?t)" "2 \<le> length body"
    using ComposeQMUXMsg_header [OF assms(2)] by blast
  obtain r d2 where "QmiSend msecs (Some (mux_header len qt 0 0 (fst ?t) ty @ body)) True
      ((qdev q)\<lparr>mux_tid := snd ?t\<rparr>) = Some (0, Some r, d2)"
      "\<exists>cid. r = modem_answer (wire_type qt) cid (fst ?t) ty ts" "env d2 = es" "same_clients (qdev q) d2"
    using QmiSend_answered [OF assms(1) c(2) assms(3) refl refl, of len "snd ?t"]
    unfolding same_clients_def by blast
  then show ?thesis using c(1) by (auto simp: qmi_request_t_def)
qed

lemma qmi_request_sent:
  assumes "answered_with qt ty ts (qdev q) es" "length b \<le> 243" "msecs \<noteq> 0"
  shows "\<exists>cid tid d2 m. qmi_request_t msecs qt ty (Some (qmux_body b)) q =
      Some (0, Some (modem_answer (wire_type qt) cid tid ty ts), q\<lparr>qdev := d2\<rparr>) \<and>
      sent d2 = sent (qdev q) @ [m] \<and> request_on_wire qt cid tid ty b m \<and> client_ready (qdev q) qt cid"
proof -
  let ?t = "GetQMUXTransactionId (mux_tid (qdev q))"
  obtain len where c: "ComposeQMUXMsg qt ty (Some (qmux_body b)) (mux_tid (qdev q)) =
      Some (mux_header len qt 0 0 (fst ?t) ty @ le16 (of_nat (length b)) @ b, snd ?t)"
    using ComposeQMUXMsg_body [OF assms(2)] by blast
  have "2 \<le> length (le16 (of_nat (length b)) @ b)" by simp
  from QmiSend_answered [OF assms(1) this assms(3) refl refl, of len "snd ?t"] c show ?thesis
    unfolding request_on_wire_def by (fastforce simp: qmi_request_t_def)
qed

section \<open>Reading an answer\<close>

text \<open>A successful answer starts with the result TLV of success.\<close>

definition ok_tlv :: "byte \<times> byte list" where
  "ok_tlv = (0x02, [0, 0, 0, 0])"

lemma answer_offset:
  "length (mux_header len qt cid cf tid ty @ le16 l) = 13"
  by (simp add: mux_header_fields(1))

lemma answer_ok:
  "rd16 (modem_answer qt cid tid ty (ok_tlv # ts)) 16 = Some 0"
  "rd16 (modem_answer qt cid tid ty (ok_tlv # ts)) 18 = Some 0"
proof -
  let ?pre = "mux_header (of_nat (12 + length (enc_tlvs (ok_tlv # ts)))) qt cid 2 tid ty
      @ le16 (of_nat (length (enc_tlvs (ok_tlv # ts)))) @ 0x02 # le16 4"
  have m: "modem_answer qt cid tid ty (ok_tlv # ts) = ?pre @ [0, 0, 0, 0] @ enc_tlvs ts"
    by (simp add: modem_answer_def rsp_msg_def ok_tlv_def tlv_def)
  have "length ?pre = 16" by (simp add: mux_header_fields(1))
  then show "rd16 (modem_answer qt cid tid ty (ok_tlv # ts)) 16 = Some 0"
    "rd16 (modem_answer qt cid tid ty (ok_tlv # ts)) 18 = Some 0"
    unfolding m by (simp_all add: rd16_def rd8_def nth_append of_le16_def)
qed

lemma check_answer_ok:
  "qmi_rsp_check_and_return 0 (Some (modem_answer qt cid tid ty (ok_tlv # ts))) =
     Some (Inr (modem_answer qt cid tid ty (ok_tlv # ts)))"
  by (simp add: qmi_rsp_check_and_return_def answer_ok)

lemma checked_request_ok:
  assumes "answered_with qt ty (ok_tlv # ts) (qdev q) es" "fits c"
  shows "\<exists>cid tid d2. env d2 = es \<and> same_clients (qdev q) d2 \<and> checked_request qt ty c fail k q =
    k (modem_answer (wire_type qt) cid tid ty (ok_tlv # ts)) (q\<lparr>qdev := d2\<rparr>)"
proof -
  obtain cid tid d2 where "qmi_request_t 30000 qt ty c q =
      Some (0, Some (modem_answer (wire_type qt) cid tid ty (ok_tlv # ts)), q\<lparr>qdev := d2\<rparr>)" "env d2 = es"
      "same_clients (qdev q) d2"
    using qmi_request_answered [OF assms, of 30000] by auto
  then show ?thesis by (auto simp: checked_request_def qmi_request_def check_answer_ok)
qed

lemma GetTLV_answer:
  assumes "length (enc_tlvs ts) < 65536" "t \<le> 0x1000"
  shows "tlv_get (modem_answer qt cid tid ty ts) t = Some (tlv_offset 13 ts t)"
  using GetTLV_rsp_msg [OF mux_header_fields(1) assms]
  by (simp add: tlv_get_def modem_answer_def of_offset_def split: option.split)

lemma tlv_offset_fields:
  "tlv_offset (length pre) ts t = Some p \<Longrightarrow> length (enc_tlvs ts) < 65536 \<Longrightarrow>
   \<exists>t' v. (t', v) \<in> set ts \<and> unat t' = t \<and>
     rd16 (pre @ enc_tlvs ts @ post) (p + 1) = Some (of_nat (length v)) \<and>
     rdn (pre @ enc_tlvs ts @ post) (p + 3) (length v) = Some v"
proof (induction ts arbitrary: pre)
  case (Cons tv ts)
  obtain t' v where tv: "tv = (t', v)" by fastforce
  have lv: "length v < 65536" using Cons.prems(2) tv by simp
  show ?case
  proof (cases "unat t' = t")
    case True
    have "rdn (pre @ enc_tlvs (tv # ts) @ post) (length pre + 3) (length v) = Some v"
      using rdn_append2 [of pre "enc_tlvs (tv # ts) @ post" 3 "length v"]
      by (simp add: tv rdn_def tlv_def le16_def)
    moreover have "rd16 (pre @ enc_tlvs (tv # ts) @ post) (length pre + 1) = Some (of_nat (length v))"
      using rd_tlv(2) [OF lv, of pre t' "enc_tlvs ts @ post"] by (simp add: tv)
    ultimately show ?thesis using True Cons.prems(1) tv by auto
  next
    case False
    with Cons.prems tv have "tlv_offset (length (pre @ tlv t' v)) ts t = Some p"
      by (simp add: add.assoc)
    from Cons.IH [OF this] Cons.prems(2) tv show ?thesis by auto
  qed
qed simp

text \<open>The value of a TLV, when the types are distinct.\<close>

lemma answer_value:
  assumes "(t, v) \<in> set ts" "distinct (map fst ts)" "length (enc_tlvs ts) < 65536"
  shows "\<exists>p. tlv_get (modem_answer qt cid tid ty ts) (unat t) = Some (Some p) \<and>
    rd16 (modem_answer qt cid tid ty ts) (p + 1) = Some (of_nat (length v)) \<and>
    rdn (modem_answer qt cid tid ty ts) (p + 3) (length v) = Some v"
proof -
  let ?m = "modem_answer qt cid tid ty ts"
  let ?pre = "mux_header (of_nat (12 + length (enc_tlvs ts))) qt cid 2 tid ty @ le16 (of_nat (length (enc_tlvs ts)))"
  have m: "?m = ?pre @ enc_tlvs ts @ []" and len: "length ?pre = 13"
    by (simp_all add: modem_answer_def rsp_msg_def mux_header_fields(1))
  obtain p where p: "tlv_offset 13 ts (unat t) = Some p"
    using distinct_tlv_offset [OF assms(1,2)] by blast
  have "tlv_offset (length ?pre) ts (unat t) = Some p" using p len by simp
  from tlv_offset_fields [OF this assms(3), of "[]"] obtain t' v' where v':
    "(t', v') \<in> set ts" "unat t' = unat t" "rd16 ?m (p + 1) = Some (of_nat (length v'))"
    "rdn ?m (p + 3) (length v') = Some v'" unfolding m by blast
  have "t' = t" using v'(2) by (simp add: word_unat_eq_iff)
  then have "v' = v" using v'(1) assms(1,2) by (auto dest: eq_key_imp_eq_value)
  moreover have "unat t \<le> 0x1000" using unsigned_less [of t, where ?'a = nat] by simp
  ultimately show ?thesis using v' p GetTLV_answer [OF assms(3)] by metis
qed

end
