(* ===== verification/QmiCall.thy ===== *)
theory QmiCall
  imports QmiAnswer
begin

text \<open>
  Properties of the data call and of the addresses of \<open>QMIThread.c\<close> for a modem that answers.
\<close>

section \<open>Reading values\<close>

lemma rdn_rd8:
  "rdn m i n = Some v \<Longrightarrow> k < n \<Longrightarrow> rd8 m (i + k) = Some (v ! k)"
  by (auto simp: rdn_def rd8_def split: if_splits)

lemma rdn_le32: "rdn m i 4 = Some (le32 w) \<Longrightarrow> rd32 m i = Some w"
proof -
  assume r: "rdn m i 4 = Some (le32 w)"
  have "rd8 m i = Some (le32 w ! 0)" using rdn_rd8 [OF r, of 0] by simp
  moreover have "rd8 m (i + 1) = Some (le32 w ! 1)" "rd8 m (i + 2) = Some (le32 w ! 2)"
      "rd8 m (i + 3) = Some (le32 w ! 3)" by (rule rdn_rd8 [OF r], simp)+
  ultimately show ?thesis by (simp add: rd32_def le32_def)
qed

text \<open>A TLV of an answer by its type: present with a value, or absent.\<close>

lemma answer_u32:
  assumes "(t, le32 w) \<in> set ts" "distinct (map fst ts)" "length (enc_tlvs ts) < 65536"
  shows "with_u32 (modem_answer qt cid tid ty ts) (unat t) f x = Some (f w x)"
proof -
  obtain p where "tlv_get (modem_answer qt cid tid ty ts) (unat t) = Some (Some p)"
      "rdn (modem_answer qt cid tid ty ts) (p + 3) 4 = Some (le32 w)"
    using answer_value [OF assms] by fastforce
  then show ?thesis by (simp add: with_u32_def rdn_le32)
qed

lemma tlv_offset_absent: "t \<notin> fst ` set ts \<Longrightarrow> tlv_offset pos ts (unat t) = None"
  by (induction ts arbitrary: pos) (auto simp: word_unat_eq_iff)

lemma answer_absent:
  assumes "t \<notin> fst ` set ts" "length (enc_tlvs ts) < 65536"
  shows "tlv_get (modem_answer qt cid tid ty ts) (unat t) = Some None"
proof -
  have "unat t \<le> 0x1000" using unsigned_less [of t, where ?'a = nat] by simp
  with assms show ?thesis by (simp add: GetTLV_answer tlv_offset_absent)
qed

lemma answer_absent_frame:
  assumes "t \<notin> fst ` set ts" "length (enc_tlvs ts) < 65536"
  shows "with_u32 (modem_answer qt cid tid ty ts) (unat t) f x = Some x"
    "with_ip6 (modem_answer qt cid tid ty ts) (unat t) g x = Some x"
    "with_ip6_prefix (modem_answer qt cid tid ty ts) (unat t) h x = Some x"
  using answer_absent [OF assms] by (simp_all add: with_u32_def with_ip6_def with_ip6_prefix_def)

section \<open>Starting and stopping a call\<close>

lemma handle_set_handle [simp]:
  "handle_of fam (set_handle fam h q) = h"
  "fam \<noteq> IpFamilyV4 \<Longrightarrow> handle_of IpFamilyV4 (set_handle fam h q) = handle_of IpFamilyV4 q"
  "handle_of IpFamilyV6 (set_handle IpFamilyV4 h q) = handle_of IpFamilyV6 q"
  "qdev (set_handle fam h q) = qdev q"
  by (auto simp: handle_of_def set_handle_def IpFamilyV4_def IpFamilyV6_def)

lemma handle_qdev [simp]: "handle_of fam (q\<lparr>qdev := d\<rparr>) = handle_of fam q"
  by (simp add: handle_of_def)

lemma answer_handle:
  "rd32 (modem_answer qt cid tid ty (ok_tlv # (0x01, le32 h) # ts)) 23 = Some h"
proof -
  let ?ts = "ok_tlv # (0x01, le32 h) # ts"
  let ?pre = "mux_header (of_nat (12 + length (enc_tlvs ?ts))) qt cid 2 tid ty
      @ le16 (of_nat (length (enc_tlvs ?ts))) @ tlv 0x02 [0, 0, 0, 0] @ 0x01 # le16 4"
  have m: "modem_answer qt cid tid ty ?ts = ?pre @ le32 h @ enc_tlvs ts"
    by (simp add: modem_answer_def rsp_msg_def ok_tlv_def tlv_def)
  have "length ?pre = 23" by (simp add: mux_header_fields(1))
  then show ?thesis unfolding m using rd32_append2 [of ?pre "le32 h @ enc_tlvs ts" 0] by (simp add: rd32_le32)
qed

lemma setup_answered:
  assumes "answered_with (wds_type fam) 0x0020 (ok_tlv # (0x01, le32 h) # ts) (qdev q) es"
    and "fits (Some (WdsStartNwInterfaceReq (s_is_cdma q) (p\<lparr>curIpFamily := fam\<rparr>)))"
  shows "\<exists>d2. requestSetupDataCall p fam q =
      Some (0, p\<lparr>curIpFamily := fam\<rparr>, set_handle fam h (q\<lparr>qdev := d2\<rparr>)) \<and> env d2 = es \<and>
      same_clients (qdev q) d2"
proof -
  obtain cid tid d2 where r: "qmi_request_t 120000 (wds_type fam) 0x0020
      (Some (WdsStartNwInterfaceReq (s_is_cdma q) (p\<lparr>curIpFamily := fam\<rparr>))) q =
    Some (0, Some (modem_answer (wire_type (wds_type fam)) cid tid 0x0020
      (ok_tlv # (0x01, le32 h) # ts)), q\<lparr>qdev := d2\<rparr>)" "env d2 = es" "same_clients (qdev q) d2"
    using qmi_request_answered [OF assms, of 120000] by auto
  then show ?thesis
    by (auto simp: requestSetupDataCall_def Let_def answer_ok answer_handle)
qed

lemma fits_qmux_body: "length b \<le> 243 \<Longrightarrow> fits (Some (qmux_body b))"
proof -
  assume b: "length b \<le> 243"
  have "(4 + of_nat (length b) :: u16) = of_nat (4 + length b)" by simp
  moreover have "unat (of_nat (4 + length b) :: u16) = 4 + length b"
    using b by (intro unat_of_nat_small) simp
  ultimately show ?thesis using b by (simp add: fits_def qmux_body_def)
qed

lemma stop_answered:
  assumes "answered_with (wds_type fam) 0x0021 (ok_tlv # ts) (qdev q) es" "handle_of fam q \<noteq> 0"
  shows "\<exists>q2 m cid tid. requestDeactivateDefaultPDP fam q = Some (0, q2) \<and> handle_of fam q2 = 0 \<and>
    sent (qdev q2) = sent (qdev q) @ [m] \<and> client_ready (qdev q) (wds_type fam) cid \<and>
    request_on_wire (wds_type fam) cid tid 0x0021 (tlv32 0x01 (handle_of fam q)) m"
proof -
  have stop: "WdsStopNwInterfaceReq fam (WdsConnectionIPv4Handle q) (WdsConnectionIPv6Handle q) =
      qmux_body (tlv32 0x01 (handle_of fam q))"
    by (simp add: WdsStopNwInterfaceReq_def handle_of_def)
  have len: "length (tlv32 0x01 (handle_of fam q)) \<le> 243" by (simp add: tlv32_def)
  obtain cid tid d2 m where r: "qmi_request_t 30000 (wds_type fam) 0x0021
      (Some (qmux_body (tlv32 0x01 (handle_of fam q)))) q =
      Some (0, Some (modem_answer (wire_type (wds_type fam)) cid tid 0x0021 (ok_tlv # ts)), q\<lparr>qdev := d2\<rparr>)"
      "sent d2 = sent (qdev q) @ [m]" "request_on_wire (wds_type fam) cid tid 0x0021
        (tlv32 0x01 (handle_of fam q)) m" "client_ready (qdev q) (wds_type fam) cid"
    using qmi_request_sent [OF assms(1) len, of 30000] by auto
  have "requestDeactivateDefaultPDP fam q = Some (0, set_handle fam 0 (q\<lparr>qdev := d2\<rparr>))"
    using assms(2) r(1)
    by (simp add: requestDeactivateDefaultPDP_def checked_request_def qmi_request_def stop check_answer_ok)
  with r(2-4) show ?thesis by auto
qed

lemma query_answered:
  assumes "answered_with (wds_type fam) 0x0022 (ok_tlv # (0x01, st # rs) # ts) (qdev q) es"
    and "length rs \<le> 1" "distinct (map fst (ok_tlv # (0x01, st # rs) # ts))"
  shows "\<exists>d2. requestQueryDataCall old fam q =
    (let st' = (if rs = [1] then QWDS_PKT_DATA_DISCONNECTED else st) in
     Some (0, st', if st' = QWDS_PKT_DATA_DISCONNECTED then set_handle fam 0 (q\<lparr>qdev := d2\<rparr>)
       else q\<lparr>qdev := d2\<rparr>)) \<and> env d2 = es \<and> same_clients (qdev q) d2"
proof -
  let ?ts = "ok_tlv # (0x01, st # rs) # ts"
  have len: "length (enc_tlvs ?ts) < 65000" using assms(1) by (simp add: answered_with_def)
  have f: "fits None" by (simp add: fits_def)
  obtain cid tid d2 where c: "same_clients (qdev q) d2" "qmi_request (wds_type fam) 0x0022 None q =
      Some (0, Some (modem_answer (wire_type (wds_type fam)) cid tid 0x0022 ?ts), q\<lparr>qdev := d2\<rparr>)" "env d2 = es"
    using qmi_request_answered [OF assms(1) f, of 30000] by (auto simp: qmi_request_def)
  let ?m = "modem_answer (wire_type (wds_type fam)) cid tid 0x0022 ?ts"
  obtain p where p: "tlv_get ?m 1 = Some (Some p)" "rd16 ?m (p + 1) = Some (of_nat (length (st # rs)))"
      "rdn ?m (p + 3) (length (st # rs)) = Some (st # rs)"
    using answer_value [of "0x01" "st # rs" ?ts] assms(3) len by fastforce
  have st: "rd8 ?m (p + 3) = Some st" using rdn_rd8 [OF p(3), of 0] by simp
  show ?thesis
  proof (cases rs)
    case Nil
    then show ?thesis using p st c(1,3)
      by (auto simp: requestQueryDataCall_def checked_request_def c(2) check_answer_ok Let_def)
  next
    case (Cons a as)
    then have rs: "rs = [a]" using assms(2) by simp
    have "rd8 ?m (p + 4) = Some a" using rdn_rd8 [OF p(3), of 1] rs by (simp add: add.commute [of p])
    then show ?thesis using p st c(1,3) rs
      by (auto simp: requestQueryDataCall_def checked_request_def c(2) check_answer_ok Let_def)
  qed
qed

section \<open>Properties\<close>

text \<open>
  A call that was started is the call that is stopped. When the
  modem accepts the start request of a family with the handle \<open>h\<close> and later the stop
  request, the stop request goes out to the data service from the client of that family,
  carries exactly the handle \<open>h\<close>, and leaves no handle; the start does not touch the handle
  of the other family.
\<close>

theorem stop_names_started_call:
  assumes "answered_with (wds_type fam) 0x0020 (ok_tlv # (0x01, le32 h) # ts) (qdev q) es"
    and "fits (Some (WdsStartNwInterfaceReq (s_is_cdma q) (p\<lparr>curIpFamily := fam\<rparr>)))"
    and "h \<noteq> 0"
    and "requestSetupDataCall p fam q = Some (err, p1, q1)"
    and "answered_with (wds_type fam) 0x0021 (ok_tlv # ts') (qdev q1) es'"
  shows "err = 0 \<and> handle_of fam q1 = h \<and>
    (fam = IpFamilyV4 \<longrightarrow> WdsConnectionIPv6Handle q1 = WdsConnectionIPv6Handle q) \<and>
    (fam = IpFamilyV6 \<longrightarrow> WdsConnectionIPv4Handle q1 = WdsConnectionIPv4Handle q) \<and>
    (\<exists>q2 m cid tid. requestDeactivateDefaultPDP fam q1 = Some (0, q2) \<and> handle_of fam q2 = 0 \<and>
       sent (qdev q2) = sent (qdev q1) @ [m] \<and> client_ready (qdev q1) (wds_type fam) cid \<and>
       request_on_wire (wds_type fam) cid tid 0x0021 (tlv32 0x01 h) m)"
proof -
  obtain d2 where q1: "err = 0" "q1 = set_handle fam h (q\<lparr>qdev := d2\<rparr>)"
    using setup_answered [OF assms(1,2)] assms(4) by auto
  then have h: "handle_of fam q1 = h" by simp
  have "(fam = IpFamilyV4 \<longrightarrow> WdsConnectionIPv6Handle q1 = WdsConnectionIPv6Handle q) \<and>
    (fam = IpFamilyV6 \<longrightarrow> WdsConnectionIPv4Handle q1 = WdsConnectionIPv4Handle q)"
    using q1(2) by (simp add: set_handle_def IpFamilyV4_def IpFamilyV6_def)
  moreover have "handle_of fam q1 \<noteq> 0" using h assms(3) by simp
  note stop_answered [OF assms(5) this]
  ultimately show ?thesis using q1(1) h by auto
qed

definition dev_call :: "byte \<Rightarrow> qmi_dev" where
  "dev_call cid = dev_two\<lparr>qmiclientId := (replicate 255 0)[1 := cid], mux_tid := 4\<rparr>"

definition q_call :: "byte \<Rightarrow> (byte \<times> byte list) list \<Rightarrow> (byte \<times> byte list) list \<Rightarrow> qmi_state" where
  "q_call cid ts ts' = \<lparr>qdev = (dev_call cid)\<lparr>env :=
       [(io_good, [([Some (modem_answer 0x01 cid 5 0x0020 ts)], 0)]),
        (io_good, [([Some (modem_answer 0x01 cid 6 0x0021 ts')], 0)])]\<rparr>,
     WdsConnectionIPv4Handle = 0, WdsConnectionIPv6Handle = 0, s_is_cdma = False, s_5g_type = 0,
     s_hdr_personality = 0, s_9x07 = True, g_qmap_version = 5, driver_qmap = []\<rparr>"

definition profile0 :: PROFILE_T where
  "profile0 = \<lparr>apn = Some ''internet'', user = None, pd = None, auth = 0, iptype = 0, pincode = None,
     proxy = [], pdp = 1, profile_index = 1, enable_bridge = 0, enable_ipv4 = True,
     enable_ipv6 = False, no_dhcp = False, logfile = None, usblogfile = None, expect_adapter = [],
     kill_pdp = 0, replication_factor = 0, qmichannel = ''/dev/cdc-wdm0'', usbnet_adapter = ''wwan0'',
     qmapnet_adapter = [], driver_name = ''qmi_wwan'', qmap_mode = 0, qmap_size = 0, qmap_version = 0,
     curIpFamily = 0, rawIP = 0, muxid = 0, wda_client = 0, udhcpc_ip = 0, ipv4 = ipv4_zero,
     ipv6 = ipv6_zero, PCSCFIpv4Addr1 = 0, PCSCFIpv4Addr2 = 0, PCSCFIpv6Addr1 = replicate 16 0,
     PCSCFIpv6Addr2 = replicate 16 0, reattach_flag = False, hardware_interface = HARDWARE_USB,
     software_interface = 1,
     usb_dev = \<lparr>idVendor = 0x2c7c, idProduct = 0x0125, busnum = 1, devnum = 1, bNumInterfaces = 5\<rparr>,
     loopback_state = False, BaseBandVersion = [], old_apn = [], old_user = [], old_pd = [],
     old_auth = 0, old_iptype = 0,
     rmnet_info = \<lparr>rmnet_size = 0, rmnet_rx_urb_size = 0, rmnet_ep_type = 0, rmnet_iface_id = 0,
       rmnet_qmap_version = 0, rmnet_dl_minimum_padding = 0\<rparr>,
     bring_up_by_apn_name = 0, bring_up_by_apn_type = 0, apn_type = 0\<rparr>"

lemma q_call_answered:
  assumes "cid \<noteq> 0" "length (enc_tlvs ts) < 65000"
  shows "answered_with QMUX_TYPE_WDS 0x0020 ts (qdev (q_call cid ts ts'))
     [(io_good, [([Some (modem_answer 0x01 cid 6 0x0021 ts')], 0)])]"
  using assms
  by (auto simp: answered_with_def q_call_def dev_call_def dev_two_def client_ready_def io_ok_def
      io_good_def wire_type_def qmux_types GetQMUXTransactionId_def intro!: exI [of _ io_good])

lemma second_answered:
  assumes "same_clients (qdev (q_call cid ts ts')) d2" "cid \<noteq> 0" "length (enc_tlvs ts') < 65000"
    "env d2 = [(io_good, [([Some (modem_answer 0x01 cid 6 0x0021 ts')], 0)])]"
  shows "answered_with QMUX_TYPE_WDS 0x0021 ts' d2 []"
proof -
  have "cdc_wdm_fd d2" "qmiclientId d2 = (replicate 255 0)[1 := cid]" "mux_tid d2 = 5"
    using assms(1) by (simp_all add: same_clients_def q_call_def dev_call_def dev_two_def
        GetQMUXTransactionId_def)
  with assms(2-4) show ?thesis
    by (auto simp: answered_with_def client_ready_def io_ok_def io_good_def wire_type_def qmux_types
        GetQMUXTransactionId_def intro!: exI [of _ io_good])
qed

lemma profile0_fits:
  "fits (Some (WdsStartNwInterfaceReq False (profile0\<lparr>curIpFamily := fam\<rparr>)))"
  unfolding WdsStartNwInterfaceReq_def
  by (rule fits_qmux_body) (simp add: start_tlvs_def start_credentials_def profile0_def opt_tlv_def)

lemma stop_names_started_call_witness:
  "\<exists>err p1 q1 q2 m tid. requestSetupDataCall profile0 IpFamilyV4
       (q_call 7 [ok_tlv, (0x01, le32 0x1234)] [ok_tlv]) = Some (err, p1, q1) \<and>
     handle_of IpFamilyV4 q1 = 0x1234 \<and> requestDeactivateDefaultPDP IpFamilyV4 q1 = Some (0, q2) \<and>
     sent (qdev q2) = sent (qdev q1) @ [m] \<and>
     request_on_wire QMUX_TYPE_WDS 7 tid 0x0021 (tlv32 0x01 0x1234) m"
proof -
  let ?q = "q_call 7 [ok_tlv, (0x01, le32 0x1234)] [ok_tlv]"
  have wds: "wds_type IpFamilyV4 = QMUX_TYPE_WDS" by (simp add: wds_type_def)
  have cdma: "\<not> s_is_cdma ?q" by (simp add: q_call_def)
  have a: "answered_with (wds_type IpFamilyV4) 0x0020 (ok_tlv # (0x01, le32 0x1234) # []) (qdev ?q)
      [(io_good, [([Some (modem_answer 0x01 7 6 0x0021 [ok_tlv])], 0)])]"
    unfolding wds by (rule q_call_answered) (simp_all add: ok_tlv_def)
  have f: "fits (Some (WdsStartNwInterfaceReq (s_is_cdma ?q) (profile0\<lparr>curIpFamily := IpFamilyV4\<rparr>)))"
    using profile0_fits cdma by simp
  obtain d2 where d2: "requestSetupDataCall profile0 IpFamilyV4 ?q =
      Some (0, profile0\<lparr>curIpFamily := IpFamilyV4\<rparr>, set_handle IpFamilyV4 0x1234 (?q\<lparr>qdev := d2\<rparr>))"
      "env d2 = [(io_good, [([Some (modem_answer 0x01 7 6 0x0021 [ok_tlv])], 0)])]"
      "same_clients (qdev ?q) d2"
    using setup_answered [OF a f] by blast
  have "answered_with QMUX_TYPE_WDS 0x0021 [ok_tlv] d2 []"
    using d2(2,3) by (intro second_answered) (simp_all add: ok_tlv_def)
  then have a2: "answered_with (wds_type IpFamilyV4) 0x0021 (ok_tlv # [])
      (qdev (set_handle IpFamilyV4 0x1234 (?q\<lparr>qdev := d2\<rparr>))) []"
    by (simp add: wds)
  have cid: "cid = 7" if "client_ready d2 QMUX_TYPE_WDS cid" for cid
    using that d2(3) by (simp add: client_ready_def same_clients_def q_call_def dev_call_def qmux_types)
  from stop_names_started_call [OF a f _ d2(1) a2] obtain q2 m cid tid where
    "handle_of IpFamilyV4 (set_handle IpFamilyV4 0x1234 (?q\<lparr>qdev := d2\<rparr>)) = 0x1234"
    "requestDeactivateDefaultPDP IpFamilyV4 (set_handle IpFamilyV4 0x1234 (?q\<lparr>qdev := d2\<rparr>)) = Some (0, q2)"
    "sent (qdev q2) = sent (qdev (set_handle IpFamilyV4 0x1234 (?q\<lparr>qdev := d2\<rparr>))) @ [m]"
    "client_ready d2 QMUX_TYPE_WDS cid" "request_on_wire QMUX_TYPE_WDS cid tid 0x0021 (tlv32 0x01 0x1234) m"
    by (auto simp: wds)
  with d2(1) cid show ?thesis by blast
qed


text \<open>
  A status answer decides whether the call is up. The status
  is the byte of the answer, except that a disconnected or reconfigured call is reported
  as disconnected; and exactly when it is reported as disconnected the handle of the
  family is forgotten, so that a later stop request is not sent.
\<close>

theorem query_forgets_disconnected_call:
  assumes "answered_with (wds_type fam) 0x0022 (ok_tlv # (0x01, st # rs) # ts) (qdev q) es"
    and "length rs \<le> 1" "distinct (map fst (ok_tlv # (0x01, st # rs) # ts))"
    and "requestQueryDataCall old fam q = Some (err, st', q')"
  shows "err = 0 \<and> st' = (if rs = [1] then QWDS_PKT_DATA_DISCONNECTED else st) \<and>
    handle_of fam q' = (if st' = QWDS_PKT_DATA_DISCONNECTED then 0 else handle_of fam q)"
  using query_answered [OF assms(1-3), of old] assms(4) by (auto simp: Let_def)

lemma query_forgets_disconnected_call_witness:
  "\<exists>err st' q'. requestQueryDataCall 2 IpFamilyV4
       ((q_call 7 [] [])\<lparr>WdsConnectionIPv4Handle := 9, qdev := (dev_call 7)\<lparr>env :=
         [(io_good, [([Some (modem_answer 0x01 7 5 0x0022 [ok_tlv, (0x01, [2, 1])])], 0)])]\<rparr>\<rparr>) =
       Some (err, st', q') \<and> st' = QWDS_PKT_DATA_DISCONNECTED \<and> handle_of IpFamilyV4 q' = 0"
proof -
  let ?q = "(q_call 7 [] [])\<lparr>WdsConnectionIPv4Handle := 9, qdev := (dev_call 7)\<lparr>env :=
         [(io_good, [([Some (modem_answer 0x01 7 5 0x0022 [ok_tlv, (0x01, [2, 1])])], 0)])]\<rparr>\<rparr>"
  have a: "answered_with (wds_type IpFamilyV4) 0x0022 (ok_tlv # (0x01, 2 # [1]) # []) (qdev ?q) []"
    by (auto simp: answered_with_def q_call_def dev_call_def dev_two_def client_ready_def io_ok_def
        io_good_def wire_type_def wds_type_def qmux_types GetQMUXTransactionId_def ok_tlv_def
        intro!: exI [of _ io_good])
  have d: "distinct (map fst (ok_tlv # (0x01, 2 # [1]) # []))" by (simp add: ok_tlv_def)
  obtain q' where q': "requestQueryDataCall 2 IpFamilyV4 ?q = Some (0, QWDS_PKT_DATA_DISCONNECTED, q')"
    using query_answered [OF a _ d, of 2] by (auto simp: Let_def)
  from query_forgets_disconnected_call [OF a _ d q'] q' show ?thesis by auto
qed

lemma parse_settings_ipv4:
  assumes "distinct (map fst ts)" "length (enc_tlvs ts) < 65536"
    and "{(0x1E, le32 a), (0x20, le32 g), (0x21, le32 m), (0x15, le32 d1), (0x16, le32 d2), (0x29, le32 mtu)}
      \<subseteq> set ts"
    and "{0x2E, 0x23, 0x25, 0x26, 0x27, 0x28} \<inter> fst ` set ts = {}"
  shows "parse_runtime_settings IpFamilyV4 (modem_answer qt cid tid ty ts) p =
    Some (p\<lparr>ipv4 := \<lparr>Address = a, Gateway = g, SubnetMask = m, DnsPrimary = d1, DnsSecondary = d2,
      Mtu = mtu\<rparr>\<rparr>)"
proof -
  note here = answer_u32 [OF _ assms(1,2)]
  note gone = answer_absent_frame [OF _ assms(2)]
  let ?r = "modem_answer qt cid tid ty ts"
  have in4: "(0x15, le32 d1) \<in> set ts" "(0x16, le32 d2) \<in> set ts" "(0x20, le32 g) \<in> set ts"
      "(0x21, le32 m) \<in> set ts" "(0x1E, le32 a) \<in> set ts" "(0x29, le32 mtu) \<in> set ts"
    using assms(3) by auto
  have no6: "0x2E \<notin> fst ` set ts" "0x23 \<notin> fst ` set ts" "0x25 \<notin> fst ` set ts"
      "0x26 \<notin> fst ` set ts" "0x27 \<notin> fst ` set ts" "0x28 \<notin> fst ` set ts"
    using assms(4) by blast+
  have pcscf: "get_pcscf6 ?r p = Some p" "get_pcscf4 ?r p = Some p"
    using answer_absent [OF no6(1) assms(2), of qt cid tid ty] answer_absent [OF no6(2) assms(2), of qt cid tid ty]
    by (simp_all add: get_pcscf6_def get_pcscf4_def)
  have p6: "parse_ipv6 ?r b = Some b" for b
    by (simp add: parse_ipv6_def gone(2) [OF no6(5), simplified] gone(2) [OF no6(6), simplified]
        gone(3) [OF no6(4), simplified] gone(3) [OF no6(3), simplified])
  have p4: "parse_ipv4 ?r b = Some (b\<lparr>DnsPrimary := d1, DnsSecondary := d2, Gateway := g,
      SubnetMask := m, Address := a\<rparr>)" for b
    by (simp add: parse_ipv4_def here [OF in4(1), simplified] here [OF in4(2), simplified]
        here [OF in4(3), simplified] here [OF in4(4), simplified] here [OF in4(5), simplified])
  have mtu: "with_u32 ?r 0x29 f x = Some (f mtu x)" for f :: "u32 \<Rightarrow> IPV4_T \<times> IPV6_T \<Rightarrow> IPV4_T \<times> IPV6_T" and x
    by (simp add: here [OF in4(6), simplified])
  show ?thesis by (simp add: parse_runtime_settings_def pcscf p4 p6 mtu)
qed

text \<open>
  Property C33 (roundtrip): the IPv4 settings of a call are the ones the modem reports:
  an answer with the address, gateway, mask, two name servers and MTU in any order gives
  exactly these values, and leaves the IPv6 settings as they are.
\<close>

theorem runtime_settings_ipv4:
  assumes "distinct (map fst ts)" "length (enc_tlvs ts) < 65536"
    and "{(0x1E, le32 a), (0x20, le32 g), (0x21, le32 m), (0x15, le32 d1), (0x16, le32 d2), (0x29, le32 mtu)}
      \<subseteq> set ts"
    and "{0x2E, 0x23, 0x25, 0x26, 0x27, 0x28} \<inter> fst ` set ts = {}"
  shows "parse_runtime_settings IpFamilyV4 (modem_answer qt cid tid ty ts) p =
    Some (p\<lparr>ipv4 := \<lparr>Address = a, Gateway = g, SubnetMask = m, DnsPrimary = d1, DnsSecondary = d2,
      Mtu = mtu\<rparr>\<rparr>)"
  using assms by (rule parse_settings_ipv4)

lemma runtime_settings_ipv4_witness:
  "parse_runtime_settings IpFamilyV4 (modem_answer 1 7 5 0x002D
      [ok_tlv, (0x1E, le32 1), (0x20, le32 2), (0x21, le32 3), (0x15, le32 4), (0x16, le32 5), (0x29, le32 1500)])
      profile0 =
    Some (profile0\<lparr>ipv4 := \<lparr>Address = 1, Gateway = 2, SubnetMask = 3, DnsPrimary = 4, DnsSecondary = 5,
      Mtu = 1500\<rparr>\<rparr>)"
  by (rule runtime_settings_ipv4) (simp_all add: ok_tlv_def)

text \<open>
  An answer with a failure result but the error code 0 makes the
  request functions return 0, the value for success: a PIN that the modem rejected that
  way is reported as accepted.
\<close>

theorem failure_without_error_code_is_success:
  assumes "answered_with (if s_9x07 q then QMUX_TYPE_UIM else QMUX_TYPE_DMS)
      (if s_9x07 q then 0x0026 else 0x0028) ((0x02, [1, 0, 0, 0]) # ts) (qdev q) es"
    and "length pin \<le> 32"
  shows "\<exists>q'. requestEnterSimPin pin q = Some (0, q')"
proof -
  let ?ts = "(0x02, [1, 0, 0, 0]) # ts"
  have check: "qmi_rsp_check_and_return 0 (Some (modem_answer qt cid tid ty ?ts)) = Some (Inl 0)"
    for qt cid tid ty
  proof -
    let ?pre = "mux_header (of_nat (12 + length (enc_tlvs ?ts))) qt cid 2 tid ty
        @ le16 (of_nat (length (enc_tlvs ?ts))) @ 0x02 # le16 4"
    have m: "modem_answer qt cid tid ty ?ts = ?pre @ [1, 0, 0, 0] @ enc_tlvs ts"
      by (simp add: modem_answer_def rsp_msg_def tlv_def)
    have "length ?pre = 16" by (simp add: mux_header_fields(1))
    then have "rd16 (modem_answer qt cid tid ty ?ts) 16 = Some 1"
      "rd16 (modem_answer qt cid tid ty ?ts) 18 = Some 0"
      unfolding m by (simp_all add: rd16_def rd8_def nth_append of_le16_def)
    then show ?thesis by (simp add: qmi_rsp_check_and_return_def)
  qed
  have u: "(9 + of_nat (length pin) :: u16) = of_nat (9 + length pin)"
    "(14 + of_nat (length pin) :: u16) = of_nat (14 + length pin)" by simp_all
  have "unat (of_nat (9 + length pin) :: u16) = 9 + length pin"
    "unat (of_nat (14 + length pin) :: u16) = 14 + length pin"
    using assms(2) by (intro unat_of_nat_small; simp)+
  then have fits: "fits (Some (DmsUIMVerifyPinReqSend pin))" "fits (Some (UimVerifyPinReqSend pin))"
    using assms(2) unfolding DmsUIMVerifyPinReqSend_def UimVerifyPinReqSend_def u
    by (simp_all add: fits_def)
  show ?thesis
  proof (cases "s_9x07 q")
    case True
    obtain cid tid d2 where "qmi_request_t 30000 QMUX_TYPE_UIM 0x0026 (Some (UimVerifyPinReqSend pin)) q =
      Some (0, Some (modem_answer (wire_type QMUX_TYPE_UIM) cid tid 0x0026 ?ts), q\<lparr>qdev := d2\<rparr>)"
      using qmi_request_answered [of QMUX_TYPE_UIM "0x0026" ?ts q es, OF _ fits(2), of 30000] assms(1) True
      by auto
    then show ?thesis
      using True by (simp add: requestEnterSimPin_def checked_request_def qmi_request_def check)
  next
    case False
    obtain cid tid d2 where "qmi_request_t 30000 QMUX_TYPE_DMS 0x0028 (Some (DmsUIMVerifyPinReqSend pin)) q =
      Some (0, Some (modem_answer (wire_type QMUX_TYPE_DMS) cid tid 0x0028 ?ts), q\<lparr>qdev := d2\<rparr>)"
      using qmi_request_answered [of QMUX_TYPE_DMS "0x0028" ?ts q es, OF _ fits(1), of 30000] assms(1) False
      by auto
    then show ?thesis
      using False by (simp add: requestEnterSimPin_def checked_request_def qmi_request_def check)
  qed
qed

lemma failure_without_error_code_is_success_witness:
  "\<exists>q'. requestEnterSimPin ''1234'' ((q_call 7 [] [])\<lparr>qdev := (dev_call 7)\<lparr>
      qmiclientId := (replicate 255 0)[11 := 3], env :=
        [(io_good, [([Some (modem_answer QMUX_TYPE_UIM 3 5 0x0026 [(0x02, [1, 0, 0, 0])])], 0)])]\<rparr>\<rparr>) = Some (0, q')"
  by (rule failure_without_error_code_is_success)
    (auto simp: answered_with_def q_call_def dev_call_def dev_two_def client_ready_def io_ok_def
      io_good_def wire_type_def qmux_types GetQMUXTransactionId_def intro!: exI [of _ io_good])

end
