(* ===== verification/QmiProf.thy ===== *)
theory QmiProf
  imports QmiCall
begin

text \<open>
  Profile, version, radio power and loop back requests of \<open>QMIThread.c\<close>, and what the start
  request of a call says about the profile.
\<close>

section \<open>Strings of the modem\<close>

text \<open>
  \<open>uchar2char\<close> into an array of \<open>dst_len\<close> bytes; as a C string the copy ends at its first
  NUL.
\<close>

definition c_string :: "byte list \<Rightarrow> string" where
  "c_string b = map (\<lambda>x. char_of (unat x)) (takeWhile (\<lambda>x. x \<noteq> 0) b)"

definition uchar2char :: "nat \<Rightarrow> byte list \<Rightarrow> nat \<Rightarrow> nat \<Rightarrow> string option" where
  "uchar2char dst_len r src src_len =
     map_option c_string (rdn r src (min (dst_len - 1) src_len))"

definition with_string :: "byte list \<Rightarrow> nat \<Rightarrow> (string \<Rightarrow> 'a \<Rightarrow> 'a) \<Rightarrow> 'a \<Rightarrow> 'a option" where
  "with_string r t f x = do { p \<leftarrow> tlv_get r t;
     case p of None \<Rightarrow> Some x
     | Some i \<Rightarrow> do {
         len \<leftarrow> rd16 r (i + 1); s \<leftarrow> uchar2char 64 r (i + 3) (unat len); Some (f s x) } }"

definition with_u8 :: "byte list \<Rightarrow> nat \<Rightarrow> (int \<Rightarrow> 'a \<Rightarrow> 'a) \<Rightarrow> 'a \<Rightarrow> 'a option" where
  "with_u8 r t f x = do { p \<leftarrow> tlv_get r t;
     case p of None \<Rightarrow> Some x | Some i \<Rightarrow> do { v \<leftarrow> rd8 r (i + 3); Some (f (int (unat v)) x) } }"

section \<open>The profile stored in the modem\<close>

definition nul_str :: "string option \<Rightarrow> string" where
  "nul_str s = (case s of None \<Rightarrow> [] | Some x \<Rightarrow> x)"

text \<open>The log reads \<open>ipStr\<close>, which has four entries.\<close>

definition requestSetProfile :: "PROFILE_T \<Rightarrow> qmi_state \<Rightarrow> (int \<times> qmi_state) option" where
  "requestSetProfile p q =
     (if iptype p < 0 \<or> 3 < iptype p then None
      else if profile_index p = 0 then Some (- 1, q)
      else if old_apn p = nul_str (apn p) \<and> old_user p = nul_str (user p) \<and> old_pd p = nul_str (pd p)
        \<and> old_iptype p = iptype p \<and> old_auth p = auth p then Some (0, q)
      else checked_request QMUX_TYPE_WDS 0x0028 (Some (WdsModifyProfileSettingsReq p))
        (\<lambda>e q. Some (e, q)) (\<lambda>_ q. Some (1, q)) q)"

text \<open>
  The list of profile indexes: \<open>n\<close> entries from \<open>ProfileList[k]\<close> on; \<open>k\<close> is a byte and the
  array of indexes has 42 entries.
\<close>

fun profile_scan :: "byte list \<Rightarrow> nat \<Rightarrow> nat \<Rightarrow> byte \<Rightarrow> byte list \<Rightarrow> byte list option" where
  "profile_scan r base 0 k acc = Some acc"
| "profile_scan r base (Suc n) k acc =
     (if 42 \<le> length acc then None
      else do {
        idx \<leftarrow> rd8 r (base + unat k);
        l \<leftarrow> rd8 r (base + unat (k + 1));
        profile_scan r base n (k + 1 + 2 + l) (acc @ [idx]) })"

datatype profile_res = ProfFail int | ProfFound "byte list" | ProfCreated

text \<open>
  The search for the profile of the wanted PDP context; after the last one a new profile
  is created. Without any profile the code goes on with the freed list.
\<close>

fun try_profiles ::
  "byte list \<Rightarrow> PROFILE_T \<Rightarrow> qmi_state \<Rightarrow> (profile_res \<times> PROFILE_T \<times> qmi_state) option" where
  "try_profiles [] p q = None"
| "try_profiles (i # is) p q =
     (let p = p\<lparr>profile_index := int (unat i)\<rparr> in
      checked_request QMUX_TYPE_WDS 0x002B (Some (WdsGetProfileSettingsReqSend p))
        (\<lambda>e q. Some (ProfFail e, p, q))
        (\<lambda>r q. do {
           t \<leftarrow> tlv_get r 0x25;
           case t of None \<Rightarrow> None
           | Some x \<Rightarrow> do {
               c \<leftarrow> rd8 r (x + 3);
               if int (unat c) = pdp p then Some (ProfFound r, p, q)
               else if is = [] then
                 checked_request QMUX_TYPE_WDS 0x0027 (Some (WdsCreateProfileSettingsReqSend p))
                   (\<lambda>e q. Some (ProfFail e, p, q)) (\<lambda>_ q. Some (ProfCreated, p, q)) q
               else try_profiles is p q } }) q)"

definition read_profile :: "byte list \<Rightarrow> PROFILE_T \<Rightarrow> PROFILE_T option" where
  "read_profile r p = do {
     p \<leftarrow> with_string r 0x14 (\<lambda>s p. p\<lparr>old_apn := s\<rparr>) p;
     p \<leftarrow> with_string r 0x1B (\<lambda>s p. p\<lparr>old_user := s\<rparr>) p;
     p \<leftarrow> with_string r 0x1C (\<lambda>s p. p\<lparr>old_pd := s\<rparr>) p;
     p \<leftarrow> with_u8 r 0x1D (\<lambda>v p. p\<lparr>old_auth := v\<rparr>) p;
     p \<leftarrow> with_u8 r 0x11 (\<lambda>v p. p\<lparr>old_iptype := v\<rparr>) p;
     if 3 < old_iptype p then None else Some p }"

text \<open>
  From the label \<open>_re_check\<close> on; the loop goes round once per created profile and need not
  end. The code allocates a block of the size of the list response into \<open>s_pResponse\<close> before
  it checks that there is one; the block is never read.
\<close>

partial_function (option) GetProfile_check ::
  "PROFILE_T \<Rightarrow> qmi_state \<Rightarrow> (int \<times> PROFILE_T \<times> qmi_state) option" where
  "GetProfile_check p q = do {
     (err, rsp, q) \<leftarrow> qmi_request QMUX_TYPE_WDS 0x002A (Some WdsGetProfileListReqSend) q;
     len \<leftarrow> (case rsp of None \<Rightarrow> None | Some r \<Rightarrow> rd16 r 1);
     let q = q\<lparr>qdev := (qdev q)\<lparr>slot := (slot (qdev q))\<lparr>s_pResponse :=
       Some (replicate (unat len + 1) 0)\<rparr>\<rparr>\<rparr>;
     c \<leftarrow> qmi_rsp_check_and_return err rsp;
     (case c of Inl e \<Rightarrow> Some (e, p, q)
      | Inr r \<Rightarrow> do {
          t \<leftarrow> tlv_get r 0x01;
          case t of None \<Rightarrow> None
          | Some i \<Rightarrow> do {
              n \<leftarrow> rd8 r (i + 3);
              idx \<leftarrow> profile_scan r (i + 3) (unat n) 2 [];
              (res, p, q) \<leftarrow> try_profiles idx p q;
              (case res of ProfFail e \<Rightarrow> Some (e, p, q)
               | ProfCreated \<Rightarrow> GetProfile_check p q
               | ProfFound r \<Rightarrow> do { p \<leftarrow> read_profile r p; Some (0, p, q) }) } }) }"

definition requestGetProfile :: "PROFILE_T \<Rightarrow> qmi_state \<Rightarrow> (int \<times> PROFILE_T \<times> qmi_state) option" where
  "requestGetProfile p q =
     (let p = p\<lparr>old_apn := [], old_user := [], old_pd := [], old_auth := 0, old_iptype := 0,
            iptype := (if enable_ipv4 p \<and> enable_ipv6 p then 3 else if enable_ipv6 p then 2 else 0)\<rparr>
      in if pdp p = 0 then Some (0, p, q) else GetProfile_check p q)"

section \<open>Version, radio, loop back\<close>

definition requestBaseBandVersion :: "PROFILE_T \<Rightarrow> qmi_state \<Rightarrow> (int \<times> PROFILE_T \<times> qmi_state) option" where
  "requestBaseBandVersion p q =
     checked_request QMUX_TYPE_DMS 0x0023 None (\<lambda>e q. Some (e, p, q))
       (\<lambda>r q. do {
          t \<leftarrow> tlv_get r 0x01;
          case t of None \<Rightarrow> Some (0, p, q)
          | Some i \<Rightarrow> do {
              len \<leftarrow> rd16 r (i + 1);
              if len = 0 then Some (0, p, q)
              else do {
                s \<leftarrow> uchar2char 64 r (i + 3) (unat len);
                Some (0, p\<lparr>BaseBandVersion := s\<rparr>, q) } } }) q"

definition requestRadioPower :: "int \<Rightarrow> qmi_state \<Rightarrow> (int \<times> qmi_state) option" where
  "requestRadioPower state q =
     checked_request QMUX_TYPE_DMS 0x002E (Some (DmsSetOperatingModeReq (if state \<noteq> 0 then 0 else 1)))
       (\<lambda>e q. Some (e, q))
       (\<lambda>_. checked_request QMUX_TYPE_UIM (if state \<noteq> 0 then 0x0031 else 0x0030)
          (Some (UimSetCardSlotReq 1)) (\<lambda>e q. Some (e, q)) (\<lambda>_ q. Some (0, q))) q"

text \<open>The message of \<open>requestSetLoopBackState\<close>: the values are stored after composing.\<close>

definition loopback_request :: "byte \<Rightarrow> u32 \<Rightarrow> nat \<Rightarrow> (byte list \<times> nat) option" where
  "loopback_request state factor tid = do {
     (m, tid') \<leftarrow> ComposeQMUXMsg QMUX_TYPE_WDS_ADMIN 0x002F (Some WdaSetLoopBackReq) tid;
     if length m < 24 then None
     else Some (take 20 (m[16 := state]) @ le32 (ucast (ucast factor :: u16)) @ drop 24 m, tid') }"

definition requestSetLoopBackState :: "byte \<Rightarrow> u32 \<Rightarrow> qmi_state \<Rightarrow> (int \<times> qmi_state) option" where
  "requestSetLoopBackState state factor q = do {
     (req, tid) \<leftarrow> loopback_request state factor (mux_tid (qdev q));
     (err, rsp, d) \<leftarrow> QmiSend 30000 (Some req) True ((qdev q)\<lparr>mux_tid := tid\<rparr>);
     c \<leftarrow> qmi_rsp_check_and_return err rsp;
     Some (case c of Inl e \<Rightarrow> (e, q\<lparr>qdev := d\<rparr>) | Inr _ \<Rightarrow> (0, q\<lparr>qdev := d\<rparr>)) }"

lemma subseq_types:
  "subseq (map fst (opt_tlv t x)) [t]"
  "subseq (map fst (if b then [] else opt_tlv t x)) [t]"
  "subseq (map fst (if b then [(t, v)] else [])) [t]"
  by (auto simp: opt_tlv_def split: option.split)

lemma start_tlvs_types:
  "subseq (map fst (start_tlvs cdma p))
     ([0x30] @ [0x14] @ [0x17] @ [0x18] @ [0x16] @ [0x19] @ [0x31, 0x3C, 0x3D, 0x38])"
proof -
  obtain u w a where c: "start_credentials cdma p = (u, w, a)" by (metis prod_cases3)
  let ?last = "if idProduct (usb_dev p) \<noteq> 0x0316
     then (if profile_index p \<noteq> 0 \<and> \<not> cdma then [(0x31, [of_int (profile_index p)])] else [])
     else (if bring_up_by_apn_name p \<noteq> 0 then [(0x3C, [of_int (bring_up_by_apn_name p)])] else [])
        @ (if bring_up_by_apn_type p \<noteq> 0 then [(0x3D, [of_int (bring_up_by_apn_type p)])] else [])
        @ (if apn_type p \<noteq> 0 then [(0x38, le32 (of_int (apn_type p)))] else [])"
  have last: "subseq (map fst ?last) [0x31, 0x3C, 0x3D, 0x38 :: byte]" by simp
  show ?thesis
    unfolding start_tlvs_def c case_prod_conv map_append
    by (intro list_emb_append_mono last subseq_types) simp_all
qed

lemma start_tlvs_distinct: "distinct (map fst (start_tlvs cdma p))"
  using start_tlvs_types [of cdma p] by (auto simp: subseq_conv_nths intro!: distinct_nthsI)

section \<open>Properties\<close>

text \<open>
  The start request of a call says what the profile says. Composed
  for a profile whose settings fit the message, it is a request to the data service in
  which the APN, user name, password, authentication, IP family and profile index are
  found with exactly the profile's values, and an APN that is not set, or that a CDMA
  network does not use, is not in it.
\<close>

theorem start_request_says_profile:
  assumes "length (enc_tlvs (start_tlvs cdma p)) \<le> 243"
  shows "\<exists>m. ComposeQMUXMsg qt 0x0020 (Some (WdsStartNwInterfaceReq cdma p)) tid =
      Some (m, snd (GetQMUXTransactionId tid)) \<and> rd8 m 4 = Some qt \<and> rd16 m 9 = Some 0x0020 \<and>
    (\<forall>t v. (t, v) \<in> set (start_tlvs cdma p) \<longrightarrow>
       (\<exists>i. GetTLV m (unat t) = TlvFound i \<and> rdn m (i + 3) (length v) = Some v)) \<and>
    (\<forall>s. apn p = Some s \<and> \<not> cdma \<longrightarrow>
       (\<exists>i. GetTLV m 0x14 = TlvFound i \<and> rdn m (i + 3) (length s) = Some (bytes_of s))) \<and>
    (apn p = None \<or> cdma \<longrightarrow> GetTLV m 0x14 = TlvNull)"
proof -
  let ?ts = "start_tlvs cdma p"
  obtain m where m: "ComposeQMUXMsg qt 0x0020 (Some (qmux_body (enc_tlvs ?ts))) tid =
      Some (m, snd (GetQMUXTransactionId tid))" "rd8 m 4 = Some qt" "rd16 m 9 = Some 0x0020"
    and here: "\<forall>t v. (t, v) \<in> set ?ts \<longrightarrow>
       (\<exists>i. GetTLV m (unat t) = TlvFound i \<and> rdn m (i + 3) (length v) = Some v)"
    and gone: "\<forall>t. t \<notin> fst ` set ?ts \<longrightarrow> GetTLV m (unat t) = TlvNull"
    using ComposeQMUXMsg_found [OF assms start_tlvs_distinct, of qt "0x0020" tid] by auto
  have apn: "(0x14, bytes_of s) \<in> set ?ts" if "apn p = Some s" "\<not> cdma" for s
    using that by (cases "start_credentials cdma p") (simp add: start_tlvs_def opt_tlv_def)
  have no_apn: "0x14 \<notin> fst ` set ?ts" if "apn p = None \<or> cdma"
  proof -
    obtain u w a where c: "start_credentials cdma p = (u, w, a)" by (metis prod_cases3)
    show ?thesis
      using that unfolding start_tlvs_def c case_prod_conv
      by (cases u; cases w; cases "apn p") (auto simp: opt_tlv_def)
  qed
  have "\<exists>i. GetTLV m 0x14 = TlvFound i \<and> rdn m (i + 3) (length s) = Some (bytes_of s)"
    if "apn p = Some s" "\<not> cdma" for s
    using here [rule_format, OF apn [OF that]] by simp
  moreover have "GetTLV m 0x14 = TlvNull" if "apn p = None \<or> cdma"
    using gone [rule_format, OF no_apn [OF that]] by simp
  ultimately show ?thesis using m here by (auto simp: WdsStartNwInterfaceReq_def)
qed


lemma start_request_says_profile_witness:
  "\<exists>m. ComposeQMUXMsg QMUX_TYPE_WDS 0x0020 (Some (WdsStartNwInterfaceReq False profile0)) 4 =
      Some (m, snd (GetQMUXTransactionId 4)) \<and>
    (\<exists>i. GetTLV m 0x14 = TlvFound i \<and> rdn m (i + 3) 8 = Some (bytes_of ''internet''))"
proof -
  have "length (enc_tlvs (start_tlvs False profile0)) \<le> 243"
    by (simp add: start_tlvs_def start_credentials_def profile0_def opt_tlv_def)
  from start_request_says_profile [OF this, of QMUX_TYPE_WDS 4] obtain m where
    "ComposeQMUXMsg QMUX_TYPE_WDS 0x0020 (Some (WdsStartNwInterfaceReq False profile0)) 4 =
      Some (m, snd (GetQMUXTransactionId 4))"
    "\<forall>s. apn profile0 = Some s \<and> \<not> False \<longrightarrow>
       (\<exists>i. GetTLV m 0x14 = TlvFound i \<and> rdn m (i + 3) (length s) = Some (bytes_of s))" by blast
  moreover from this(2) have "\<exists>i. GetTLV m 0x14 = TlvFound i \<and> rdn m (i + 3) 8 = Some (bytes_of ''internet'')"
    by (rule allE [of _ "''internet''"]) (simp add: profile0_def numeral_eq_Suc)
  ultimately show ?thesis by blast
qed

text \<open>
  The stored profile is only written when it differs from what the
  user wants. With a profile index, \<open>requestSetProfile\<close> returns 0 and sends nothing when the
  APN, user name, password, IP type and authentication read from the modem are the wanted
  ones; otherwise it sends the modification, and returns 1 when the modem accepts it.
\<close>

theorem set_profile_only_on_change:
  assumes "0 \<le> iptype p" "iptype p \<le> 3" "profile_index p \<noteq> 0"
    and "answered_with QMUX_TYPE_WDS 0x0028 (ok_tlv # ts) (qdev q) es"
    and "fits (Some (WdsModifyProfileSettingsReq p))"
    and same: "same \<longleftrightarrow> (old_apn p, old_user p, old_pd p, old_iptype p, old_auth p) =
      (nul_str (apn p), nul_str (user p), nul_str (pd p), iptype p, auth p)"
  shows "\<exists>q'. requestSetProfile p q = Some (if same then 0 else 1, q') \<and>
    env (qdev q') = (if same then env (qdev q) else es)"
proof (cases same)
  case True
  then show ?thesis using assms(1-3) same by (simp add: requestSetProfile_def)
next
  case False
  obtain cid tid d2 where "qmi_request QMUX_TYPE_WDS 0x0028 (Some (WdsModifyProfileSettingsReq p)) q =
      Some (0, Some (modem_answer (wire_type QMUX_TYPE_WDS) cid tid 0x0028 (ok_tlv # ts)), q\<lparr>qdev := d2\<rparr>)"
      "env d2 = es"
    using qmi_request_answered [OF assms(4,5), of 30000] by (auto simp: qmi_request_def)
  then show ?thesis using False assms(1-3) same
    by (auto simp: requestSetProfile_def checked_request_def check_answer_ok)
qed

lemma set_profile_only_on_change_witness:
  "\<exists>q'. requestSetProfile profile0 ((q_call 7 [] [])\<lparr>qdev := (dev_call 7)\<lparr>env :=
         [(io_good, [([Some (modem_answer 0x01 7 5 0x0028 [ok_tlv])], 0)])]\<rparr>\<rparr>) = Some (1, q')"
proof -
  let ?q = "(q_call 7 [] [])\<lparr>qdev := (dev_call 7)\<lparr>env :=
         [(io_good, [([Some (modem_answer 0x01 7 5 0x0028 [ok_tlv])], 0)])]\<rparr>\<rparr>"
  have a: "answered_with QMUX_TYPE_WDS 0x0028 (ok_tlv # []) (qdev ?q) []"
    by (auto simp: answered_with_def q_call_def dev_call_def dev_two_def client_ready_def io_ok_def
        io_good_def wire_type_def wds_type_def qmux_types GetQMUXTransactionId_def ok_tlv_def
        intro!: exI [of _ io_good])
  have f: "fits (Some (WdsModifyProfileSettingsReq profile0))"
    by (simp add: fits_def WdsModifyProfileSettingsReq_def modify_tlvs_def profile0_def opt_tlv_def
        modify_nul_def)
  have "False \<longleftrightarrow> (old_apn profile0, old_user profile0, old_pd profile0, old_iptype profile0, old_auth profile0) =
      (nul_str (apn profile0), nul_str (user profile0), nul_str (pd profile0), iptype profile0, auth profile0)"
    by (simp add: profile0_def nul_str_def)
  from set_profile_only_on_change [OF _ _ _ a f this] show ?thesis by (auto simp: profile0_def)
qed

text \<open>
  The replication factor of a loop back request is cut to its low 16
  bits before it is stored in the 32-bit field of the message, so a factor of 65536 asks
  for none.
\<close>

theorem loopback_factor_truncated:
  "\<exists>m tid'. loopback_request state factor tid = Some (m, tid') \<and> length m = 24 \<and>
     rd8 m 16 = Some state \<and> rd32 m 20 = Some (of_nat (unat factor mod 65536))"
proof -
  obtain len where c: "ComposeQMUXMsg QMUX_TYPE_WDS_ADMIN 0x002F
      (Some (qmux_body (tlv8 0x01 0 @ tlv32 0x10 0))) tid =
    Some (mux_header len QMUX_TYPE_WDS_ADMIN 0 0 (fst (GetQMUXTransactionId tid)) 0x002F
      @ le16 (of_nat (length (tlv8 0x01 0 @ tlv32 0x10 0))) @ tlv8 0x01 0 @ tlv32 0x10 0,
      snd (GetQMUXTransactionId tid))"
    using ComposeQMUXMsg_body [of "tlv8 0x01 0 @ tlv32 0x10 0" QMUX_TYPE_WDS_ADMIN "0x002F" tid]
    by (auto simp: tlv8_def tlv32_def)
  have low: "(ucast (ucast factor :: u16) :: u32) = of_nat (unat factor mod 65536)"
    by (rule word_unat_eq_iff [THEN iffD2])
      (simp add: unsigned_ucast_eq unat_of_nat take_bit_eq_mod unat_mod)
  show ?thesis
    using c unfolding loopback_request_def WdaSetLoopBackReq_def low
    by (simp add: mux_header_def tlv8_def tlv32_def tlv_def le16_def le32_def rd8_def rd32_def)
qed

end
