(* ===== verification/QmiReg.thy ===== *)
theory QmiReg
  imports QmiReq CLib
begin

text \<open>
  Registration state (\<open>requestRegistrationState\<close>, \<open>requestRegistrationState2\<close>, \<open>requestGetHomeNetwork\<close>
  and the conversion of CDMA network codes), \<open>QMIThread.c\<close>. The network codes and the data
  class that the code only logs are part of the result.
\<close>

section \<open>Network codes\<close>

definition quectel_convert_cdma_mcc_2_ascii_mcc :: "u16 \<Rightarrow> u16" where
  "quectel_convert_cdma_mcc_2_ascii_mcc mcc =
     (if mcc = 0x3FF then 3
      else let buf = (ucast mcc + 111 :: u32);
             d3 = buf mod 10; buf = (if d3 = 0 then (buf - 10) div 10 else buf div 10);
             d2 = buf mod 10; buf = (if d2 = 0 then (buf - 10) div 10 else buf div 10);
             d1 = (if buf = 10 then 0 else buf)
        in if d1 < 10 \<and> d2 < 10 \<and> d3 < 10 then ucast (d1 * 100 + d2 * 10 + d3) else 0)"

definition quectel_convert_cdma_mnc_2_ascii_mnc :: "u16 \<Rightarrow> u16" where
  "quectel_convert_cdma_mnc_2_ascii_mnc imsi_11_12 =
     (if imsi_11_12 = 0x7F then 7
      else let buf = (ucast imsi_11_12 + 11 :: u32);
             d2 = buf mod 10; buf = (if d2 = 0 then (buf - 10) div 10 else buf div 10);
             d1 = (if buf = 10 then 0 else buf)
        in if d1 < 10 \<and> d2 < 10 then ucast (d1 * 10 + d2) else 0)"

text \<open>\<open>char2ushort\<close>: 0xFF ends the digits.\<close>

definition char2ushort :: "byte list \<Rightarrow> u16" where
  "char2ushort str =
     of_int (atoi (map (\<lambda>b. char_of (unat b)) (takeWhile (\<lambda>b. b \<noteq> 0 \<and> b \<noteq> 0xFF) str)))"

text \<open>The codes in and out: \<open>*p_mcc\<close> and \<open>*p_mnc\<close> are written when the TLV is present.\<close>

definition requestGetHomeNetwork ::
  "u16 \<times> u16 \<Rightarrow> qmi_state \<Rightarrow> (int \<times> (u16 \<times> u16) \<times> qmi_state) option" where
  "requestGetHomeNetwork codes q =
     checked_request QMUX_TYPE_NAS 0x0025 None (\<lambda>e q. Some (e, codes, q))
       (\<lambda>r q. do {
          t \<leftarrow> tlv_get r 0x01;
          codes \<leftarrow> (case t of None \<Rightarrow> Some codes
            | Some i \<Rightarrow> do { mcc \<leftarrow> rd16 r (i + 3); mnc \<leftarrow> rd16 r (i + 5); Some (mcc, mnc) });
          _ \<leftarrow> tlv_get r 0x10;
          Some (0, codes, q) }) q"

section \<open>Data classes\<close>

definition WWAN_DATA_CLASS_NONE :: u32 where "WWAN_DATA_CLASS_NONE = 0x00000000"
definition WWAN_DATA_CLASS_GPRS :: u32 where "WWAN_DATA_CLASS_GPRS = 0x00000001"
definition WWAN_DATA_CLASS_EDGE :: u32 where "WWAN_DATA_CLASS_EDGE = 0x00000002"
definition WWAN_DATA_CLASS_UMTS :: u32 where "WWAN_DATA_CLASS_UMTS = 0x00000004"
definition WWAN_DATA_CLASS_HSDPA :: u32 where "WWAN_DATA_CLASS_HSDPA = 0x00000008"
definition WWAN_DATA_CLASS_HSUPA :: u32 where "WWAN_DATA_CLASS_HSUPA = 0x00000010"
definition WWAN_DATA_CLASS_LTE :: u32 where "WWAN_DATA_CLASS_LTE = 0x00000020"
definition WWAN_DATA_CLASS_5G_NSA :: u32 where "WWAN_DATA_CLASS_5G_NSA = 0x00000040"
definition WWAN_DATA_CLASS_5G_SA :: u32 where "WWAN_DATA_CLASS_5G_SA = 0x00000080"
definition WWAN_DATA_CLASS_1XRTT :: u32 where "WWAN_DATA_CLASS_1XRTT = 0x00010000"
definition WWAN_DATA_CLASS_1XEVDO :: u32 where "WWAN_DATA_CLASS_1XEVDO = 0x00020000"
definition WWAN_DATA_CLASS_1XEVDO_REVA :: u32 where "WWAN_DATA_CLASS_1XEVDO_REVA = 0x00040000"
definition WWAN_DATA_CLASS_1XEVDV :: u32 where "WWAN_DATA_CLASS_1XEVDV = 0x00080000"
definition WWAN_DATA_CLASS_3XRTT :: u32 where "WWAN_DATA_CLASS_3XRTT = 0x00100000"
definition WWAN_DATA_CLASS_1XEVDO_REVB :: u32 where "WWAN_DATA_CLASS_1XEVDO_REVB = 0x00200000"
definition WWAN_DATA_CLASS_UMB :: u32 where "WWAN_DATA_CLASS_UMB = 0x00400000"
definition WWAN_DATA_CLASS_CUSTOM :: u32 where "WWAN_DATA_CLASS_CUSTOM = 0x80000000"

definition class2str :: "(u32 \<times> string) list" where
  "class2str = [(WWAN_DATA_CLASS_NONE, ''UNKNOWN''), (WWAN_DATA_CLASS_GPRS, ''GPRS''),
     (WWAN_DATA_CLASS_EDGE, ''EDGE''), (WWAN_DATA_CLASS_UMTS, ''UMTS''),
     (WWAN_DATA_CLASS_HSDPA, ''HSDPA''), (WWAN_DATA_CLASS_HSUPA, ''HSUPA''),
     (WWAN_DATA_CLASS_LTE, ''LTE''), (WWAN_DATA_CLASS_5G_NSA, ''5G_NSA''),
     (WWAN_DATA_CLASS_5G_SA, ''5G_SA''), (WWAN_DATA_CLASS_1XRTT, ''1XRTT''),
     (WWAN_DATA_CLASS_1XEVDO, ''1XEVDO''), (WWAN_DATA_CLASS_1XEVDO_REVA, ''1XEVDO_REVA''),
     (WWAN_DATA_CLASS_1XEVDV, ''1XEVDV''), (WWAN_DATA_CLASS_3XRTT, ''3XRTT''),
     (WWAN_DATA_CLASS_1XEVDO_REVB, ''1XEVDO_REVB''), (WWAN_DATA_CLASS_UMB, ''UMB''),
     (WWAN_DATA_CLASS_CUSTOM, ''CUSTOM'')]"

definition wwan_data_class2str :: "u32 \<Rightarrow> string" where
  "wwan_data_class2str c = (case map_of class2str c of Some s \<Rightarrow> s | None \<Rightarrow> ''UNKNOWN'')"

section \<open>System information\<close>

text \<open>The local variables of \<open>requestRegistrationState2\<close> and \<open>*pPSAttachedState\<close>.\<close>

datatype device_class = DEVICE_CLASS_UNKNOWN | DEVICE_CLASS_CDMA | DEVICE_CLASS_GSM

record reg =
  PSAttachedState :: byte
  MobileCountryCode :: u16
  MobileNetworkCode :: u16
  pDataCapStr :: string
  is_lte :: bool
  DeviceClass :: device_class
  DataCapList :: u32
  endc_available :: "byte option"
  restrict_dcnr :: "byte option"

definition reg_init :: reg where
  "reg_init = \<lparr>PSAttachedState = 0, MobileCountryCode = 0, MobileNetworkCode = 0,
     pDataCapStr = ''UNKNOW'', is_lte = False, DeviceClass = DEVICE_CLASS_UNKNOWN, DataCapList = 0,
     endc_available = None, restrict_dcnr = None\<rparr>"

type_synonym reg_state = "reg \<times> qmi_state"

definition set_cdma :: "bool \<Rightarrow> reg_state \<Rightarrow> reg_state" where
  "set_cdma b x = (fst x, (snd x)\<lparr>s_is_cdma := b\<rparr>)"

text \<open>A service status TLV with status \<open>in service\<close>.\<close>

definition srv_status :: "byte list \<Rightarrow> nat \<Rightarrow> (reg_state \<Rightarrow> reg_state) \<Rightarrow> reg_state \<Rightarrow> reg_state option" where
  "srv_status r pos f x = do { st \<leftarrow> rd8 r (pos + 3); Some (if st = 0x02 then f x else x) }"

definition set_caps :: "u32 \<Rightarrow> device_class \<Rightarrow> reg_state \<Rightarrow> reg_state" where
  "set_caps c d x = (fst x\<lparr>DataCapList := c, DeviceClass := d\<rparr>, snd x)"

definition set_lte :: "reg_state \<Rightarrow> reg_state" where
  "set_lte x = set_cdma False (fst x\<lparr>is_lte := True\<rparr>, snd x)"

text \<open>A system information TLV with a packet-switched service domain attaches.\<close>

definition srv_domain :: "byte list \<Rightarrow> nat \<Rightarrow> (reg_state \<Rightarrow> reg_state) \<Rightarrow> reg_state \<Rightarrow> reg_state option" where
  "srv_domain r pos f x = do {
     valid \<leftarrow> rd8 r (pos + 3);
     if valid = 0x01 then do {
       d \<leftarrow> rd8 r (pos + 4);
       Some (if d AND 0x02 \<noteq> 0 then f (fst x\<lparr>PSAttachedState := 1\<rparr>, snd x) else x) }
     else Some x }"

definition network_id :: "byte list \<Rightarrow> nat \<Rightarrow> reg_state \<Rightarrow> reg_state option" where
  "network_id r i x = do {
     valid \<leftarrow> rd8 r i;
     if valid = 0x01 then do {
       mcc \<leftarrow> rdn r (i + 1) 3; mnc \<leftarrow> rdn r (i + 4) 3;
       Some (fst x\<lparr>MobileCountryCode := char2ushort mcc, MobileNetworkCode := char2ushort mnc\<rparr>, snd x) }
     else Some x }"

text \<open>The 3GPP system information: the service domain, then the network at offset 22.\<close>

definition system_info :: "byte list \<Rightarrow> nat \<Rightarrow> (reg_state \<Rightarrow> reg_state) \<Rightarrow> reg_state \<Rightarrow> reg_state option" where
  "system_info r pos f x = do { x \<leftarrow> srv_domain r pos f x; network_id r (pos + 22) x }"

definition home_network :: "reg_state \<Rightarrow> reg_state option" where
  "home_network x = do {
     (ret, (mcc, mnc), q) \<leftarrow> requestGetHomeNetwork (0, 0) (snd x);
     Some (if ret = 0 \<and> mcc \<noteq> 0
           then (fst x\<lparr>MobileCountryCode := quectel_convert_cdma_mcc_2_ascii_mcc mcc,
                     MobileNetworkCode := quectel_convert_cdma_mnc_2_ascii_mnc mnc\<rparr>, q)
           else (fst x, q)) }"

definition hdr_personality :: "byte list \<Rightarrow> nat \<Rightarrow> reg_state \<Rightarrow> reg_state option" where
  "hdr_personality r pos x =
     (if PSAttachedState (fst x) = 0 then Some x
      else do {
        valid \<leftarrow> rd8 r (pos + 13);
        if valid = 0x01 then do {
          v \<leftarrow> rd8 r (pos + 14);
          Some (fst x, if v = 0x03 then (snd x)\<lparr>s_hdr_personality := 2\<rparr> else snd x) }
        else Some x })"

text \<open>The body of the loop, the \<open>switch\<close> over the type of the TLV at \<open>pos\<close>.\<close>

definition sys_info_tlv :: "byte list \<Rightarrow> nat \<Rightarrow> reg_state \<Rightarrow> reg_state option" where
  "sys_info_tlv r pos x = do {
     t \<leftarrow> rd8 r pos;
     let cdma = (\<lambda>x. set_cdma (\<not> is_lte (fst x)) x);
     if t = 0x10 then srv_status r pos (\<lambda>x. cdma (set_caps (WWAN_DATA_CLASS_1XRTT OR
       WWAN_DATA_CLASS_1XEVDO OR WWAN_DATA_CLASS_1XEVDO_REVA OR WWAN_DATA_CLASS_1XEVDV OR
       WWAN_DATA_CLASS_1XEVDO_REVB) DEVICE_CLASS_CDMA x)) x
     else if t = 0x11 then srv_status r pos (\<lambda>x. cdma (set_caps (WWAN_DATA_CLASS_3XRTT OR
       WWAN_DATA_CLASS_UMB) DEVICE_CLASS_CDMA x)) x
     else if t = 0x12 then srv_status r pos (set_caps (WWAN_DATA_CLASS_GPRS OR
       WWAN_DATA_CLASS_EDGE) DEVICE_CLASS_GSM) x
     else if t = 0x13 then srv_status r pos (set_caps WWAN_DATA_CLASS_UMTS DEVICE_CLASS_GSM) x
     else if t = 0x14 then
       srv_status r pos (\<lambda>x. set_lte (set_caps WWAN_DATA_CLASS_LTE DEVICE_CLASS_GSM x)) x
     else if t = 0x4A then
       srv_status r pos (\<lambda>x. set_lte (set_caps (DataCapList (fst x) OR WWAN_DATA_CLASS_5G_SA)
         DEVICE_CLASS_GSM x)) x
     else if t = 0x4B then system_info r pos id x
     else if t = 0x4E then do {
       v \<leftarrow> rd8 r (pos + 3); Some (fst x\<lparr>endc_available := Some v\<rparr>, snd x) }
     else if t = 0x4F then do {
       v \<leftarrow> rd8 r (pos + 3); Some (fst x\<lparr>restrict_dcnr := Some v\<rparr>, snd x) }
     else if t = 0x24 then srv_status r pos (\<lambda>x. (fst x\<lparr>pDataCapStr := ''TD-SCDMA''\<rparr>, snd x)) x
     else if t = 0x15 then do { x \<leftarrow> srv_domain r pos cdma x; network_id r (pos + 38) x }
     else if t = 0x16 then do {
       x \<leftarrow> srv_domain r pos cdma x; x \<leftarrow> hdr_personality r pos x; home_network x }
     else if t = 0x17 \<or> t = 0x18 \<or> t = 0x25 then system_info r pos id x
     else if t = 0x19 then system_info r pos set_lte x
     else Some x }"

lemma neg_uint_less: "- uint (w :: u16) < 3"
  by (rule le_less_trans [of _ 0]) simp_all

text \<open>\<open>remainingLen\<close> is signed: a truncated last TLV ends the loop.\<close>

function sys_info_loop :: "byte list \<Rightarrow> nat \<Rightarrow> int \<Rightarrow> reg_state \<Rightarrow> reg_state option" where
  "sys_info_loop r pos remainingLen x =
     (if remainingLen \<le> 0 then Some x
      else do {
        x \<leftarrow> sys_info_tlv r pos x;
        len \<leftarrow> rd16 r (pos + 1);
        sys_info_loop r (pos + unat len + 3) (remainingLen - (int (unat len) + 3)) x })"
  by pat_completeness auto
termination
  by (relation "measure (\<lambda>(r, pos, rem, x). nat rem)")
    (auto intro: neg_uint_less)

declare sys_info_loop.simps [simp del]

text \<open>The data class that is logged, and \<open>s_5g_type\<close>.\<close>

definition first_class :: "u32 list \<Rightarrow> u32 \<Rightarrow> string \<Rightarrow> string" where
  "first_class cs caps d = (case find (\<lambda>c. caps AND c \<noteq> 0) cs of
     Some c \<Rightarrow> wwan_data_class2str c | None \<Rightarrow> d)"

definition data_class :: "reg \<Rightarrow> qmi_state \<Rightarrow> reg \<times> qmi_state" where
  "data_class x q =
     (let caps = (if DataCapList x AND WWAN_DATA_CLASS_LTE \<noteq> 0
            \<and> (case (endc_available x, restrict_dcnr x) of
                 (Some e, Some d) \<Rightarrow> e \<noteq> 0 \<and> d = 0 | _ \<Rightarrow> False)
          then DataCapList x OR WWAN_DATA_CLASS_5G_NSA else DataCapList x);
          x = x\<lparr>DataCapList := caps\<rparr>; d = pDataCapStr x
      in if DeviceClass x = DEVICE_CLASS_CDMA
         then (x\<lparr>pDataCapStr := (if s_hdr_personality q = 2 then ''eHRPD''
            else first_class [WWAN_DATA_CLASS_1XEVDO_REVB, WWAN_DATA_CLASS_1XEVDO_REVA,
              WWAN_DATA_CLASS_1XEVDO, WWAN_DATA_CLASS_1XRTT, WWAN_DATA_CLASS_3XRTT,
              WWAN_DATA_CLASS_UMB] caps d)\<rparr>, q)
         else if caps AND WWAN_DATA_CLASS_5G_SA \<noteq> 0
         then (x\<lparr>pDataCapStr := ''5G_SA''\<rparr>, q\<lparr>s_5g_type := WWAN_DATA_CLASS_5G_SA\<rparr>)
         else if caps AND WWAN_DATA_CLASS_5G_NSA \<noteq> 0
         then (x\<lparr>pDataCapStr := ''5G_NSA''\<rparr>, q\<lparr>s_5g_type := WWAN_DATA_CLASS_5G_NSA\<rparr>)
         else if caps AND WWAN_DATA_CLASS_LTE = 0 \<and> caps AND WWAN_DATA_CLASS_HSDPA \<noteq> 0
               \<and> caps AND WWAN_DATA_CLASS_HSUPA \<noteq> 0
         then (x\<lparr>pDataCapStr := ''HSDPA_HSUPA''\<rparr>, q)
         else (x\<lparr>pDataCapStr := first_class [WWAN_DATA_CLASS_LTE, WWAN_DATA_CLASS_HSDPA,
              WWAN_DATA_CLASS_HSUPA, WWAN_DATA_CLASS_UMTS, WWAN_DATA_CLASS_EDGE,
              WWAN_DATA_CLASS_GPRS] caps d\<rparr>, q))"

definition requestRegistrationState2 :: "qmi_state \<Rightarrow> (int \<times> reg \<times> qmi_state) option" where
  "requestRegistrationState2 q =
     checked_request QMUX_TYPE_NAS 0x004D None (\<lambda>e q. Some (e, reg_init, q))
       (\<lambda>r q. do {
          len \<leftarrow> rd16 r 11;
          (x, q) \<leftarrow> sys_info_loop r 13 (int (unat len))
            (reg_init, q\<lparr>s_is_cdma := False, s_5g_type := WWAN_DATA_CLASS_NONE, s_hdr_personality := 0\<rparr>);
          let (x, q) = data_class x q;
          Some (0, x, q) }) q"


section \<open>The serving system\<close>

text \<open>
  \<open>requestRegistrationState\<close> for modems without system information. \<open>old\<close> is the value of
  \<open>*pPSAttachedState\<close> at the call.
\<close>

definition data_cap_str :: "byte \<Rightarrow> string" where
  "data_cap_str c = (case map_of [(0x01, ''GPRS''), (0x02, ''EDGE''), (0x03, ''HSDPA''), (0x04, ''HSUPA''),
     (0x05, ''UMTS''), (0x06, ''1XRTT''), (0x07, ''1XEVDO''), (0x08, ''1XEVDO_REVA''), (0x09, ''GPRS''),
     (0x0A, ''1XEVDO_REVB''), (0x0B, ''LTE''), (0x0C, ''HSDPA''), (0x0D, ''HSDPA'')] c of
     Some s \<Rightarrow> s | None \<Rightarrow> ''UNKNOW'')"

definition read_data_cap :: "byte list \<Rightarrow> reg \<Rightarrow> reg option" where
  "read_data_cap r x = do {
     t \<leftarrow> tlv_get r 0x11;
     case t of None \<Rightarrow> Some x
     | Some i \<Rightarrow> do {
         n \<leftarrow> rd8 r (i + 3);
         if n = 0 then Some x
         else do {
           c0 \<leftarrow> rd8 r (i + 4);
           c \<leftarrow> (if n = 2 \<and> c0 = 0x06
                 then do { c1 \<leftarrow> rd8 r (i + 5); Some (if c1 = 0x08 \<or> c1 = 0x0A then c1 else c0) }
                 else Some c0);
           Some (x\<lparr>pDataCapStr := data_cap_str c\<rparr>) } } }"

text \<open>The serving system TLV: registered, radio interface in use, the interface.\<close>

definition read_serving :: "byte list \<Rightarrow> nat option \<Rightarrow> (bool \<times> byte) option" where
  "read_serving r t = (case t of None \<Rightarrow> Some (False, 0)
     | Some i \<Rightarrow> do {
         registered \<leftarrow> rd8 r (i + 3);
         if registered = 0x01 then do {
           used \<leftarrow> rd8 r (i + 7);
           if used = 0 then Some (False, 0) else do { radio \<leftarrow> rd8 r (i + 8); Some (True, radio) } }
         else Some (False, 0) })"

definition cdma_details :: "byte list \<Rightarrow> reg_state \<Rightarrow> reg_state option" where
  "cdma_details r x = do {
     x \<leftarrow> home_network (set_cdma True x);
     t \<leftarrow> tlv_get r 0x23;
     v \<leftarrow> (case t of None \<Rightarrow> Some 0 | Some i \<Rightarrow> rd8 r (i + 3));
     let q = (snd x)\<lparr>s_hdr_personality := int (unat v)\<rparr>;
     Some (if v = 2 then fst x\<lparr>pDataCapStr := ''eHRPD''\<rparr> else fst x, q) }"

definition requestRegistrationState :: "byte \<Rightarrow> qmi_state \<Rightarrow> (int \<times> reg \<times> qmi_state) option" where
  "requestRegistrationState old q =
     (if s_9x07 q then requestRegistrationState2 q
      else checked_request QMUX_TYPE_NAS 0x0024 None
        (\<lambda>e q. Some (e, reg_init\<lparr>PSAttachedState := old\<rparr>, q))
        (\<lambda>r q. do {
           t12 \<leftarrow> tlv_get r 0x12;
           x \<leftarrow> (case t12 of None \<Rightarrow> Some reg_init
             | Some i \<Rightarrow> do { mcc \<leftarrow> rd16 r (i + 3); mnc \<leftarrow> rd16 r (i + 5);
                 Some (reg_init\<lparr>MobileCountryCode := mcc, MobileNetworkCode := mnc\<rparr>) });
           t1 \<leftarrow> tlv_get r 0x01;
           ps \<leftarrow> (case t1 of None \<Rightarrow> Some 0
             | Some i \<Rightarrow> do { s \<leftarrow> rd8 r (i + 3); if s = 0x01 then rd8 r (i + 5) else Some 0x02 });
           x \<leftarrow> read_data_cap r (x\<lparr>PSAttachedState := ps\<rparr>);
           (used, radio) \<leftarrow> read_serving r t1;
           let x = (if used \<and> radio = 0x09 then x\<lparr>pDataCapStr := ''TD-SCDMA''\<rparr> else x);
           (x, q) \<leftarrow> (if used \<and> (radio = 0x01 \<or> radio = 0x02)
              then cdma_details r (x, q\<lparr>s_is_cdma := False\<rparr>)
              else Some (x, q\<lparr>s_is_cdma := False\<rparr>));
           Some (0, x, q) }) q)"

section \<open>Network codes: the conversion inverts the coding of the IMSI\<close>

text \<open>
  The standard codes a digit 0 as ten: three digits \<open>d1 d2 d3\<close> become
  \<open>100 D1 + 10 D2 + D3 - 111\<close> with \<open>D = 10\<close> for the digit 0.
\<close>

definition code_digit :: "nat \<Rightarrow> nat" where
  "code_digit d = (if d = 0 then 10 else d)"

definition encode_mcc :: "nat \<Rightarrow> u16" where
  "encode_mcc mcc = of_nat (100 * code_digit (mcc div 100) + 10 * code_digit (mcc div 10 mod 10)
     + code_digit (mcc mod 10) - 111)"

definition encode_mnc :: "nat \<Rightarrow> u16" where
  "encode_mnc mnc = of_nat (10 * code_digit (mnc div 10) + code_digit (mnc mod 10) - 11)"

end
