(* ===== verification/QmiRegSpec.thy ===== *)
theory QmiRegSpec
  imports QmiReg QmiCall
begin

text \<open>
  Properties of the registration requests: the conversion of CDMA network codes inverts the
  coding of the IMSI, and the scan of the system information attaches exactly when the modem
  reports a packet-switched service domain.
\<close>

section \<open>Digits on 32-bit words\<close>

lemma word_div10:
  "n < 100000 \<Longrightarrow> (of_nat n :: u32) div 10 = of_nat (n div 10)"
  "n < 100000 \<Longrightarrow> (of_nat n :: u32) mod 10 = of_nat (n mod 10)"
  by (simp_all add: word_unat_eq_iff unat_div unat_mod unat_of_nat)

text \<open>One step of the conversion: the digit and what is left of \<open>10 m + D\<close>.\<close>

lemma digit_step:
  assumes "1 \<le> D" "D \<le> 10" "1 \<le> m" "m < 1000"
  shows "(of_nat (10 * m + D) :: u32) mod 10 = of_nat (D mod 10)"
    "(if (of_nat (10 * m + D) :: u32) mod 10 = 0 then (of_nat (10 * m + D) - 10 :: u32) div 10
      else of_nat (10 * m + D) div 10) = of_nat m"
proof -
  have n: "10 * m + D < 100000" using assms by simp
  show md: "(of_nat (10 * m + D) :: u32) mod 10 = of_nat (D mod 10)"
    using word_div10(2) [OF n] by (simp add: mod_add_eq)
  show "(if (of_nat (10 * m + D) :: u32) mod 10 = 0 then (of_nat (10 * m + D) - 10 :: u32) div 10
      else of_nat (10 * m + D) div 10) = of_nat m"
  proof (cases "D = 10")
    case True
    have "(of_nat (10 * m + D) - 10 :: u32) = of_nat (10 * m)" using True by simp
    moreover have "(of_nat (10 * m) :: u32) div 10 = of_nat m"
      using word_div10(1) [of "10 * m"] assms(4) by simp
    ultimately show ?thesis using md True by simp
  next
    case False
    then have "D < 10" "D mod 10 = D" using assms(2) by simp_all
    moreover have "(of_nat D :: u32) \<noteq> 0" using assms(1) \<open>D < 10\<close> by (simp add: word_unat_eq_iff unat_of_nat)
    ultimately show ?thesis using md word_div10(1) [OF n] by simp
  qed
qed

lemma digit_less: "d < 10 \<Longrightarrow> (of_nat d :: u32) < 10"
  by (simp add: word_less_nat_alt unat_of_nat)

lemma code_digit: "d < 10 \<Longrightarrow> 1 \<le> code_digit d \<and> code_digit d \<le> 10 \<and> code_digit d mod 10 = d"
  by (simp add: code_digit_def)

lemma top_digit:
  "d < 10 \<Longrightarrow> (if (of_nat (code_digit d) :: u32) = 10 then 0 else of_nat (code_digit d)) = of_nat d"
  by (auto simp: code_digit_def word_unat_eq_iff unat_of_nat)

lemma convert_steps:
  assumes "mcc \<noteq> 0x3FF" "ucast mcc + 111 = (b :: u32)" "b mod 10 = e3"
    "(if e3 = 0 then (b - 10) div 10 else b div 10) = b2" "b2 mod 10 = e2"
    "(if e2 = 0 then (b2 - 10) div 10 else b2 div 10) = b1" "(if b1 = 10 then 0 else b1) = e1"
    "e1 < 10" "e2 < 10" "e3 < 10"
  shows "quectel_convert_cdma_mcc_2_ascii_mcc mcc = ucast (e1 * 100 + e2 * 10 + e3)"
  unfolding quectel_convert_cdma_mcc_2_ascii_mcc_def Let_def if_not_P [OF assms(1)] assms(2)
  unfolding assms(3) unfolding assms(4) unfolding assms(5) unfolding assms(6) unfolding assms(7)
  using assms(8-10) by simp

lemma convert_digits:
  assumes "d1 < 10" "d2 < 10" "d3 < 10"
    and n: "n + 111 = 100 * code_digit d1 + 10 * code_digit d2 + code_digit d3"
  shows "quectel_convert_cdma_mcc_2_ascii_mcc (of_nat n) = of_nat (100 * d1 + 10 * d2 + d3)"
proof -
  note D = code_digit [OF assms(1)] code_digit [OF assms(2)] code_digit [OF assms(3)]
  have small: "n < 1000" using n D by simp
  let ?m1 = "10 * code_digit d1 + code_digit d2"
  have buf: "(ucast (of_nat n :: u16) + 111 :: u32) = of_nat (10 * ?m1 + code_digit d3)"
  proof -
    have "(ucast (of_nat n :: u16) :: u32) = of_nat n"
      using small by (simp add: word_unat_eq_iff unsigned_ucast_eq unat_of_nat take_bit_eq_mod)
    moreover have "10 * ?m1 + code_digit d3 = n + 111" using n by simp
    ultimately show ?thesis by (simp only: of_nat_add) simp
  qed
  have nf: "(of_nat n :: u16) \<noteq> 0x3FF" using small by (simp add: word_unat_eq_iff unat_of_nat)
  have s3: "(of_nat (10 * ?m1 + code_digit d3) :: u32) mod 10 = of_nat d3"
      "(if (of_nat (10 * ?m1 + code_digit d3) :: u32) mod 10 = 0
        then (of_nat (10 * ?m1 + code_digit d3) - 10 :: u32) div 10
        else of_nat (10 * ?m1 + code_digit d3) div 10) = of_nat ?m1"
    using digit_step [of "code_digit d3" ?m1] D by simp_all
  have s2: "(of_nat ?m1 :: u32) mod 10 = of_nat d2"
      "(if (of_nat ?m1 :: u32) mod 10 = 0 then (of_nat ?m1 - 10 :: u32) div 10
        else of_nat ?m1 div 10) = of_nat (code_digit d1)"
    using digit_step [of "code_digit d2" "code_digit d1"] D by simp_all
  have res: "(of_nat d1 * 100 + of_nat d2 * 10 + of_nat d3 :: u32) = of_nat (100 * d1 + 10 * d2 + d3)"
    by simp
  have out: "(ucast (of_nat (100 * d1 + 10 * d2 + d3) :: u32) :: u16) = of_nat (100 * d1 + 10 * d2 + d3)"
  proof -
    have "100 * d1 + 10 * d2 + d3 < 1000" using assms(1-3) by linarith
    then show ?thesis
      by (simp only: word_unat_eq_iff unsigned_ucast_eq unat_of_nat) (simp add: take_bit_eq_mod)
  qed
  show ?thesis
    using convert_steps [OF nf buf s3(1) s3(2) [unfolded s3(1)] s2(1) s2(2) [unfolded s2(1)]
        top_digit [OF assms(1)] digit_less [OF assms(1)] digit_less [OF assms(2)] digit_less [OF assms(3)]]
    unfolding res out .
qed

text \<open>
  The conversion of a CDMA country code inverts the coding of
  the IMSI (a digit 0 coded as ten, the sum less 111) for every code of three digits.
\<close>

theorem mcc_conversion_inverts_coding:
  assumes "mcc < 1000"
  shows "quectel_convert_cdma_mcc_2_ascii_mcc (encode_mcc mcc) = of_nat mcc"
proof -
  let ?d1 = "mcc div 100" and ?d2 = "mcc div 10 mod 10" and ?d3 = "mcc mod 10"
  let ?s = "100 * code_digit ?d1 + 10 * code_digit ?d2 + code_digit ?d3"
  have d: "?d1 < 10" "?d2 < 10" "?d3 < 10" using assms by auto
  have "?s - 111 + 111 = ?s" using code_digit [OF d(1)] code_digit [OF d(2)] code_digit [OF d(3)] by simp
  moreover have "100 * ?d1 + 10 * ?d2 + ?d3 = mcc"
  proof -
    have "mcc div 100 = mcc div 10 div 10" by (simp add: div_mult2_eq [symmetric])
    then show ?thesis
      using div_mult_mod_eq [of mcc 10] div_mult_mod_eq [of "mcc div 10" 10] by linarith
  qed
  ultimately show ?thesis using convert_digits [OF d, of "?s - 111"] by (simp only: encode_mcc_def)
qed

lemma mcc_conversion_inverts_coding_witness:
  "quectel_convert_cdma_mcc_2_ascii_mcc (encode_mcc 460) = 460"
  using mcc_conversion_inverts_coding [of 460] by simp

section \<open>The scan of the system information\<close>

text \<open>The types of the system information TLVs and what such a TLV says about the domain.\<close>

definition sys_info_types :: "byte list" where
  "sys_info_types = [0x15, 0x16, 0x17, 0x18, 0x19, 0x25, 0x4B]"

definition ps_domain :: "byte \<times> byte list \<Rightarrow> bool" where
  "ps_domain tv \<longleftrightarrow> fst tv \<in> set sys_info_types \<and> snd tv ! 0 = 1 \<and> snd tv ! 1 AND 0x02 \<noteq> 0"

abbreviation ps :: "reg_state \<Rightarrow> byte" where
  "ps x \<equiv> PSAttachedState (fst x)"

lemma ps_keep:
  "network_id r i x = Some x' \<Longrightarrow> ps x' = ps x"
  "home_network x = Some x' \<Longrightarrow> ps x' = ps x"
  "hdr_personality r i x = Some x' \<Longrightarrow> ps x' = ps x"
  by (auto simp: network_id_def home_network_def hdr_personality_def bind_eq_Some_conv split: if_splits)

lemma ps_frame [simp]: "ps (set_cdma b x) = ps x" "ps (set_lte x) = ps x" "ps (set_caps c d x) = ps x"
  by (simp_all add: set_cdma_def set_lte_def set_caps_def)

lemma srv_status_ps:
  "srv_status r pos f x = Some x' \<Longrightarrow> (\<And>y. ps (f y) = ps y) \<Longrightarrow> ps x' = ps x"
  unfolding srv_status_def bind_eq_Some_conv option.inject by (metis (mono_tags))

lemma srv_domain_ps:
  assumes "srv_domain r pos f x = Some x'" "\<And>y. ps (f y) = ps y"
    "rd8 r (pos + 3) = Some a" "rd8 r (pos + 4) = Some b"
  shows "ps x' = (if a = 1 \<and> b AND 0x02 \<noteq> 0 then 1 else ps x)"
  using assms by (auto simp: srv_domain_def split: if_splits)

text \<open>What the loop body does for each kind of TLV.\<close>

lemma sys_info_tlv_domain:
  "rd8 r pos = Some 0x15 \<Longrightarrow> sys_info_tlv r pos x =
     Option.bind (srv_domain r pos (\<lambda>x. set_cdma (\<not> is_lte (fst x)) x) x) (network_id r (pos + 38))"
  "rd8 r pos = Some 0x16 \<Longrightarrow> sys_info_tlv r pos x =
     Option.bind (srv_domain r pos (\<lambda>x. set_cdma (\<not> is_lte (fst x)) x) x)
       (\<lambda>y. Option.bind (hdr_personality r pos y) home_network)"
  "rd8 r pos = Some 0x19 \<Longrightarrow> sys_info_tlv r pos x =
     Option.bind (srv_domain r pos set_lte x) (network_id r (pos + 22))"
  by (simp_all add: sys_info_tlv_def system_info_def)

lemma sys_info_tlv_domain_id:
  "rd8 r pos = Some t \<Longrightarrow> t = 0x17 \<or> t = 0x18 \<or> t = 0x25 \<or> t = 0x4B \<Longrightarrow> sys_info_tlv r pos x =
     Option.bind (srv_domain r pos id x) (network_id r (pos + 22))"
  by (elim disjE) (simp_all add: sys_info_tlv_def system_info_def)

lemma sys_info_tlv_status:
  "rd8 r pos = Some t \<Longrightarrow> t \<in> {0x10, 0x11, 0x12, 0x13, 0x14, 0x4A, 0x24} \<Longrightarrow>
     \<exists>f. sys_info_tlv r pos x = srv_status r pos f x \<and> (\<forall>y. ps (f y) = ps y)"
  by (elim insertE emptyE; simp only: sys_info_tlv_def; simp; rule exI; rule conjI; (rule refl)?; simp)

lemma sys_info_tlv_rest:
  assumes "rd8 r pos = Some t" "t \<notin> {0x10, 0x11, 0x12, 0x13, 0x14, 0x4A, 0x24}"
    "t \<notin> set sys_info_types" "sys_info_tlv r pos x = Some x'"
  shows "ps x' = ps x"
proof -
  have "sys_info_tlv r pos x =
     (if t = 0x4E then Option.bind (rd8 r (pos + 3)) (\<lambda>v. Some (fst x\<lparr>endc_available := Some v\<rparr>, snd x))
      else if t = 0x4F then Option.bind (rd8 r (pos + 3)) (\<lambda>v. Some (fst x\<lparr>restrict_dcnr := Some v\<rparr>, snd x))
      else Some x)"
    using assms(1-3) by (simp add: sys_info_tlv_def sys_info_types_def)
  then show ?thesis using assms(4) by (cases "rd8 r (pos + 3)") (auto split: if_splits)
qed

lemma domain_then:
  assumes "Option.bind (srv_domain r pos f x) g = Some x'" "\<And>y. ps (f y) = ps y"
    "\<And>y. g y = Some x' \<Longrightarrow> ps x' = ps y" "rd8 r (pos + 3) = Some a \<and> rd8 r (pos + 4) = Some b"
  shows "ps x' = (if a = 1 \<and> b AND 0x02 \<noteq> 0 then 1 else ps x)"
proof -
  obtain y where "srv_domain r pos f x = Some y" "g y = Some x'"
    using assms(1) by (cases "srv_domain r pos f x") auto
  then show ?thesis using srv_domain_ps [of r pos f x y a b] assms(2-4) by simp
qed

lemma personality_home_ps:
  "Option.bind (hdr_personality r pos y) home_network = Some x' \<Longrightarrow> ps x' = ps y"
  by (cases "hdr_personality r pos y") (simp_all add: ps_keep)

lemma sys_info_tlv_ps:
  assumes "sys_info_tlv r pos x = Some x'" "rd8 r pos = Some t"
    and "t \<in> set sys_info_types \<Longrightarrow> rd8 r (pos + 3) = Some a \<and> rd8 r (pos + 4) = Some b"
  shows "ps x' = (if t \<in> set sys_info_types \<and> a = 1 \<and> b AND 0x02 \<noteq> 0 then 1 else ps x)"
proof (cases "t \<in> set sys_info_types")
  case True
  note ab = assms(3) [OF True]
  consider "t = 0x15" | "t = 0x16" | "t = 0x17 \<or> t = 0x18 \<or> t = 0x25 \<or> t = 0x4B" | "t = 0x19"
    using True unfolding sys_info_types_def by fastforce
  then have "ps x' = (if a = 1 \<and> b AND 0x02 \<noteq> 0 then 1 else ps x)"
  proof cases
    case 1
    show ?thesis
      by (rule domain_then [OF sys_info_tlv_domain(1) [OF assms(2) [unfolded 1], symmetric, THEN trans,
          OF assms(1)] _ _ ab]) (simp_all add: ps_keep)
  next
    case 2
    show ?thesis
      by (rule domain_then [OF sys_info_tlv_domain(2) [OF assms(2) [unfolded 2], symmetric, THEN trans,
          OF assms(1)] _ _ ab]) (simp_all add: personality_home_ps)
  next
    case 3
    show ?thesis
      by (rule domain_then [OF sys_info_tlv_domain_id [OF assms(2) 3, symmetric, THEN trans,
          OF assms(1)] _ _ ab]) (simp_all add: ps_keep)
  next
    case 4
    show ?thesis
      by (rule domain_then [OF sys_info_tlv_domain(3) [OF assms(2) [unfolded 4], symmetric, THEN trans,
          OF assms(1)] _ _ ab]) (simp_all add: ps_keep)
  qed
  then show ?thesis using True by simp
next
  case False
  have "ps x' = ps x"
  proof (cases "t \<in> {0x10, 0x11, 0x12, 0x13, 0x14, 0x4A, 0x24}")
    case True
    then show ?thesis using sys_info_tlv_status [OF assms(2) True, of x] assms(1) srv_status_ps by fastforce
  next
    case rest: False
    then show ?thesis using sys_info_tlv_rest [OF assms(2) rest False assms(1)] by simp
  qed
  then show ?thesis using False by simp
qed

text \<open>The loop over the TLVs of an answer.\<close>

lemma rd_value:
  assumes "k < length v" "length v < 65536"
  shows "rd8 (pre @ tlv t v @ post) (length pre + 3 + k) = Some (v ! k)"
proof -
  have "pre @ tlv t v @ post = (pre @ t # le16 (of_nat (length v))) @ v @ post" by (simp add: tlv_def)
  moreover have "length (pre @ t # le16 (of_nat (length v))) = length pre + 3" by (simp add: le16_def)
  ultimately show ?thesis
    using rd8_append2 [of "pre @ t # le16 (of_nat (length v))" "v @ post" k] assms(1)
    by (simp add: rd8_def nth_append)
qed

lemma sys_info_loop_ps:
  assumes "sys_info_loop (pre @ enc_tlvs ts) (length pre) (int (length (enc_tlvs ts))) x = Some x'"
    and "\<And>t v. (t, v) \<in> set ts \<Longrightarrow> length v < 65536 \<and> (t \<in> set sys_info_types \<longrightarrow> 2 \<le> length v)"
  shows "ps x' = (if \<exists>tv\<in>set ts. ps_domain tv then 1 else ps x)"
  using assms
proof (induction ts arbitrary: pre x)
  case Nil
  then show ?case by (simp add: sys_info_loop.simps)
next
  case (Cons tv ts)
  obtain t v where tv: "tv = (t, v)" by fastforce
  have v: "length v < 65536" "t \<in> set sys_info_types \<longrightarrow> 2 \<le> length v"
    using Cons.prems(2) tv by auto
  let ?m = "pre @ enc_tlvs (tv # ts)"
  have m: "?m = pre @ tlv t v @ enc_tlvs ts" "?m = (pre @ tlv t v) @ enc_tlvs ts" by (simp_all add: tv)
  have t: "rd8 ?m (length pre) = Some t" and l: "rd16 ?m (length pre + 1) = Some (of_nat (length v))"
    unfolding m(1) by (rule rd_tlv [OF v(1)])+
  have lv: "unat (of_nat (length v) :: u16) = length v" using v(1) by (simp add: unat_of_nat_small)
  have rest: "int (length (enc_tlvs (tv # ts))) - (int (length v) + 3) = int (length (enc_tlvs ts))"
    "length pre + length v + 3 = length (pre @ tlv t v)" by (simp_all add: tv tlv_def)
  have pos: "\<not> int (length (enc_tlvs (tv # ts))) \<le> 0" by (simp add: tv tlv_def)
  from Cons.prems(1) pos obtain y where y: "sys_info_tlv ?m (length pre) x = Some y"
      "sys_info_loop ?m (length (pre @ tlv t v)) (int (length (enc_tlvs ts))) y = Some x'"
    unfolding sys_info_loop.simps [of ?m "length pre"] l
    by (cases "sys_info_tlv ?m (length pre) x") (simp_all only: if_False bind.simps option.simps lv rest)
  have two: "rd8 ?m (length pre + 3) = Some (v ! 0) \<and> rd8 ?m (length pre + 4) = Some (v ! 1)"
    if "t \<in> set sys_info_types"
  proof -
    have len: "0 < length v" "1 < length v" using v(2) that by linarith+
    show ?thesis using rd_value [OF len(1) v(1), of pre t "enc_tlvs ts"]
        rd_value [OF len(2) v(1), of pre t "enc_tlvs ts"]
      unfolding m(1) by (simp add: add.commute [of 4])
  qed
  have step: "ps y = (if ps_domain tv then 1 else ps x)"
    using sys_info_tlv_ps [OF y(1) t two] by (simp add: ps_domain_def tv)
  have "ps x' = (if \<exists>tv\<in>set ts. ps_domain tv then 1 else ps y)"
  proof (rule Cons.IH)
    show "sys_info_loop ((pre @ tlv t v) @ enc_tlvs ts) (length (pre @ tlv t v)) (int (length (enc_tlvs ts))) y = Some x'"
      using y(2) unfolding m(2) .
    show "length w < 65536 \<and> (u \<in> set sys_info_types \<longrightarrow> 2 \<le> length w)" if "(u, w) \<in> set ts" for u w
      using Cons.prems(2) [of u w] that by simp
  qed
  with step show ?case by auto
qed

text \<open>
  TLVs as the interface defines them: the status and the domain TLVs have the fields that are
  read. The HDR system information (0x16) makes the loop send another request and is left out.
\<close>

definition sys_info_length :: "byte \<Rightarrow> nat" where
  "sys_info_length t = (if t = 0x15 then 42
     else if t \<in> {0x17, 0x18, 0x19, 0x25, 0x4B} then 26
     else if t \<in> {0x10, 0x11, 0x12, 0x13, 0x14, 0x4A, 0x24, 0x4E, 0x4F} then 1 else 0)"

definition sys_info_ok :: "byte \<times> byte list \<Rightarrow> bool" where
  "sys_info_ok tv \<longleftrightarrow> fst tv \<noteq> 0x16 \<and> sys_info_length (fst tv) \<le> length (snd tv) \<and> length (snd tv) < 65536"

lemma rdn_some: "i + n \<le> length m \<Longrightarrow> \<exists>v. rdn m i n = Some v"
  by (simp add: rdn_def)

lemma rd8_some: "i < length m \<Longrightarrow> \<exists>v. rd8 m i = Some v"
  by (simp add: rd8_def)

lemma network_id_some: "i + 7 \<le> length m \<Longrightarrow> \<exists>y. network_id m i x = Some y"
  using rd8_some [of i m] rdn_some [of "i + 1" 3 m] rdn_some [of "i + 4" 3 m]
  by (auto simp: network_id_def)

lemma srv_domain_some: "pos + 5 \<le> length m \<Longrightarrow> \<exists>y. srv_domain m pos f x = Some y"
  using rd8_some [of "pos + 3" m] rd8_some [of "pos + 4" m] by (auto simp: srv_domain_def)

lemma srv_status_some: "pos + 4 \<le> length m \<Longrightarrow> \<exists>y. srv_status m pos f x = Some y"
  using rd8_some [of "pos + 3" m] by (auto simp: srv_status_def)

lemma bind_some: "\<exists>y. a = Some y \<Longrightarrow> (\<And>y. \<exists>z. f y = Some z) \<Longrightarrow> \<exists>z. Option.bind a f = Some z"
  by auto

lemma sys_info_tlv_some:
  assumes "rd8 m pos = Some t" "t \<noteq> 0x16" "pos + 3 + sys_info_length t \<le> length m"
  shows "\<exists>y. sys_info_tlv m pos x = Some y"
proof -
  consider "t = 0x15" | "t = 0x19" | "t = 0x17 \<or> t = 0x18 \<or> t = 0x25 \<or> t = 0x4B"
    | "t \<in> {0x10, 0x11, 0x12, 0x13, 0x14, 0x4A, 0x24}" | "t = 0x4E \<or> t = 0x4F"
    | "t \<notin> {0x10, 0x11, 0x12, 0x13, 0x14, 0x4A, 0x24, 0x4E, 0x4F} \<union> set sys_info_types"
    using assms(2) unfolding sys_info_types_def by fastforce
  then show ?thesis
  proof cases
    case 1
    have len: "pos + 45 \<le> length m" using assms(3) 1 by (simp add: sys_info_length_def)
    show ?thesis unfolding sys_info_tlv_domain(1) [OF assms(1) [unfolded 1]]
      using len by (intro bind_some srv_domain_some network_id_some) simp_all
  next
    case 2
    have len: "pos + 29 \<le> length m" using assms(3) 2 by (simp add: sys_info_length_def)
    show ?thesis unfolding sys_info_tlv_domain(3) [OF assms(1) [unfolded 2]]
      using len by (intro bind_some srv_domain_some network_id_some) simp_all
  next
    case 3
    have len: "pos + 29 \<le> length m" using assms(3) 3 by (elim disjE) (simp_all add: sys_info_length_def)
    show ?thesis unfolding sys_info_tlv_domain_id [OF assms(1) 3]
      using len by (intro bind_some srv_domain_some network_id_some) simp_all
  next
    case 4
    have "pos + 4 \<le> length m" using assms(3) 4 by (elim insertE) (simp_all add: sys_info_length_def)
    then show ?thesis using sys_info_tlv_status [OF assms(1) 4, of x] srv_status_some by metis
  next
    case 5
    have "pos + 3 < length m" using assms(3) 5 by (elim disjE) (simp_all add: sys_info_length_def)
    then obtain v where "rd8 m (pos + 3) = Some v" using rd8_some by blast
    then show ?thesis using 5 assms(1) by (elim disjE) (simp_all add: sys_info_tlv_def)
  next
    case 6
    then show ?thesis using assms(1) by (simp add: sys_info_tlv_def sys_info_types_def)
  qed
qed

lemma sys_info_loop_some:
  assumes "\<And>tv. tv \<in> set ts \<Longrightarrow> sys_info_ok tv"
  shows "\<exists>x'. sys_info_loop (pre @ enc_tlvs ts) (length pre) (int (length (enc_tlvs ts))) x = Some x'"
  using assms
proof (induction ts arbitrary: pre x)
  case Nil
  then show ?case by (simp add: sys_info_loop.simps)
next
  case (Cons tv ts)
  obtain t v where tv: "tv = (t, v)" by fastforce
  have v: "t \<noteq> 0x16" "sys_info_length t \<le> length v" "length v < 65536"
    using Cons.prems [of tv] tv by (simp_all add: sys_info_ok_def)
  let ?m = "pre @ enc_tlvs (tv # ts)"
  have m: "?m = pre @ tlv t v @ enc_tlvs ts" "?m = (pre @ tlv t v) @ enc_tlvs ts" by (simp_all add: tv)
  have t: "rd8 ?m (length pre) = Some t" and l: "rd16 ?m (length pre + 1) = Some (of_nat (length v))"
    unfolding m(1) by (rule rd_tlv [OF v(3)])+
  have lv: "unat (of_nat (length v) :: u16) = length v" using v(3) by (simp add: unat_of_nat_small)
  have rest: "int (length (enc_tlvs (tv # ts))) - (int (length v) + 3) = int (length (enc_tlvs ts))"
    "length pre + length v + 3 = length (pre @ tlv t v)" by (simp_all add: tv tlv_def)
  have pos: "\<not> int (length (enc_tlvs (tv # ts))) \<le> 0" by (simp add: tv tlv_def)
  have "length pre + 3 + sys_info_length t \<le> length ?m" using v(2) by (simp add: tv tlv_def)
  from sys_info_tlv_some [OF t v(1) this] obtain y where y: "sys_info_tlv ?m (length pre) x = Some y"
    by blast
  have "sys_info_loop ?m (length pre) (int (length (enc_tlvs (tv # ts)))) x =
      sys_info_loop ((pre @ tlv t v) @ enc_tlvs ts) (length (pre @ tlv t v)) (int (length (enc_tlvs ts))) y"
    unfolding sys_info_loop.simps [of ?m "length pre"] l y using pos
    by (simp only: if_False bind.simps lv rest m(2))
  with Cons.IH [of "pre @ tlv t v" y] Cons.prems show ?case by simp
qed

lemma data_class_ps: "PSAttachedState (fst (data_class x q)) = PSAttachedState x"
  by (simp add: data_class_def Let_def)

lemma answer_layout:
  "modem_answer qt cid tid ty ts =
     (mux_header (of_nat (12 + length (enc_tlvs ts))) qt cid 2 tid ty @ le16 (of_nat (length (enc_tlvs ts)))) @
     enc_tlvs ts"
  "length (mux_header l qt cid cf tid ty @ le16 n) = 13"
  by (simp_all add: modem_answer_def rsp_msg_def mux_header_fields(1))

text \<open>
  Property C32 (functional): the registration state follows the service domain. When the
  modem answers the system information request, the request returns 0 and the modem counts
  as attached exactly when a system information TLV is valid and has the packet-switched
  bit in its service domain, whatever other TLVs the answer has and in whatever order.
\<close>

theorem attached_iff_packet_domain:
  assumes "answered_with QMUX_TYPE_NAS 0x004D (ok_tlv # ts) (qdev q) es"
    and "\<And>tv. tv \<in> set ts \<Longrightarrow> sys_info_ok tv"
  shows "\<exists>x q'. requestRegistrationState2 q = Some (0, x, q') \<and>
    PSAttachedState x = (if \<exists>tv\<in>set ts. ps_domain tv then 1 else 0)"
proof -
  let ?ts = "ok_tlv # ts" and ?qt = "wire_type QMUX_TYPE_NAS"
  have "sys_info_ok ok_tlv" by (simp add: sys_info_ok_def ok_tlv_def sys_info_length_def)
  then have ok: "\<And>tv. tv \<in> set ?ts \<Longrightarrow> sys_info_ok tv" using assms(2) by auto
  have len: "length (enc_tlvs ?ts) < 65536" using assms(1) by (simp add: answered_with_def)
  define k where "k = (\<lambda>r (q :: qmi_state). do {
      len \<leftarrow> rd16 r 11;
      (x, q) \<leftarrow> sys_info_loop r 13 (int (unat len))
        (reg_init, q\<lparr>s_is_cdma := False, s_5g_type := WWAN_DATA_CLASS_NONE, s_hdr_personality := 0\<rparr>);
      let (x, q) = data_class x q;
      Some (0 :: int, x, q) })"
  have "fits None" by (simp add: fits_def)
  from checked_request_ok [OF assms(1) this, of "\<lambda>e q. Some (e, reg_init, q)" k]
  obtain cid tid d2 where r: "requestRegistrationState2 q =
      k (modem_answer ?qt cid tid 0x004D ?ts) (q\<lparr>qdev := d2\<rparr>)"
    unfolding requestRegistrationState2_def k_def by blast
  let ?m = "modem_answer ?qt cid tid 0x004D ?ts"
  let ?x = "(reg_init, q\<lparr>qdev := d2, s_is_cdma := False, s_5g_type := WWAN_DATA_CLASS_NONE, s_hdr_personality := 0\<rparr>)"
  have l: "rd16 ?m 11 = Some (of_nat (length (enc_tlvs ?ts)))"
    unfolding modem_answer_def rsp_msg_def
    using rd16_append2 [of "mux_header (of_nat (12 + length (enc_tlvs ?ts))) ?qt cid 2 tid 0x004D"
        "le16 (of_nat (length (enc_tlvs ?ts))) @ enc_tlvs ?ts @ []" 0]
    by (simp add: mux_header_fields(1) rd16_le16 del: enc_tlvs_simps)
  have lu: "int (unat (of_nat (length (enc_tlvs ?ts)) :: u16)) = int (length (enc_tlvs ?ts))"
    using len by (simp only: unat_of_nat_small)
  obtain x' where x': "sys_info_loop ?m 13 (int (length (enc_tlvs ?ts))) ?x = Some x'"
    using sys_info_loop_some [OF ok, where x = ?x] answer_layout by metis
  have "ps x' = (if \<exists>tv\<in>set ?ts. ps_domain tv then 1 else ps ?x)"
  proof (rule sys_info_loop_ps)
    show "sys_info_loop ((mux_header (of_nat (12 + length (enc_tlvs ?ts))) ?qt cid 2 tid 0x004D @
        le16 (of_nat (length (enc_tlvs ?ts)))) @ enc_tlvs ?ts)
      (length (mux_header (of_nat (12 + length (enc_tlvs ?ts))) ?qt cid 2 tid 0x004D @
        le16 (of_nat (length (enc_tlvs ?ts))))) (int (length (enc_tlvs ?ts))) ?x = Some x'"
      using x' unfolding answer_layout .
    show "length v < 65536 \<and> (t \<in> set sys_info_types \<longrightarrow> 2 \<le> length v)" if "(t, v) \<in> set ?ts" for t v
      using ok [OF that] by (auto simp: sys_info_ok_def sys_info_length_def sys_info_types_def split: if_splits)
  qed
  moreover have "\<not> ps_domain ok_tlv" by (simp add: ps_domain_def ok_tlv_def sys_info_types_def)
  moreover have "ps ?x = 0" by (simp add: reg_init_def)
  ultimately have att: "ps x' = (if \<exists>tv\<in>set ts. ps_domain tv then 1 else 0)" by simp
  obtain x2 q2 where d: "data_class (fst x') (snd x') = (x2, q2)" by fastforce
  have "k ?m (q\<lparr>qdev := d2\<rparr>) = Some (0, x2, q2)"
    unfolding k_def l bind.simps lu x' using d by (cases x') simp
  moreover have "PSAttachedState x2 = ps x'" using data_class_ps [of "fst x'" "snd x'"] d by simp
  ultimately show ?thesis using r att by auto
qed

definition q_reg :: "(byte \<times> byte list) list \<Rightarrow> qmi_state" where
  "q_reg ts = (q_call 7 [] [])\<lparr>qdev := (dev_call 7)\<lparr>qmiclientId := (replicate 255 0)[3 := 2],
     env := [(io_good, [([Some (modem_answer QMUX_TYPE_NAS 2 5 0x004D ts)], 0)])]\<rparr>\<rparr>"

lemma q_reg_answered:
  "length (enc_tlvs ts) < 65000 \<Longrightarrow> answered_with QMUX_TYPE_NAS 0x004D ts (qdev (q_reg ts)) []"
  by (auto simp: answered_with_def q_reg_def q_call_def dev_call_def dev_two_def client_ready_def io_ok_def
      io_good_def wire_type_def qmux_types GetQMUXTransactionId_def intro!: exI [of _ io_good])

lemma attached_iff_packet_domain_witness:
  "\<exists>x q'. requestRegistrationState2 (q_reg (ok_tlv # [(0x14, [2]), (0x19, 1 # 3 # replicate 24 0)])) =
     Some (0, x, q') \<and> PSAttachedState x = 1"
proof -
  let ?ts = "[(0x14, [2]), (0x19, 1 # 3 # replicate 24 0)] :: (byte \<times> byte list) list"
  have "length (enc_tlvs (ok_tlv # ?ts)) < 65000" by (simp add: ok_tlv_def tlv_def le16_def)
  note a = q_reg_answered [OF this]
  have "\<exists>tv\<in>set ?ts. ps_domain tv" by (simp add: ps_domain_def sys_info_types_def)
  moreover have "sys_info_ok tv" if "tv \<in> set ?ts" for tv
    using that by (auto simp: sys_info_ok_def sys_info_length_def)
  ultimately show ?thesis using attached_iff_packet_domain [OF a] by simp
qed

end
