(* ===== verification/ConnQmi.thy ===== *)
theory ConnQmi
  imports ConnCheck QmiProf QmiRegSpec
begin

text \<open>
  The connection manager over the QMI requests: the table \<open>qmi_request_ops\<close> of \<open>QMIThread.c\<close>
  with the device of \<open>QmiWwanCM.c\<close>, the invariant of its runs, and how a call is set up,
  redialled and watched.
\<close>

section \<open>The table\<close>

definition qmi_ops :: "qmi_state request_ops" where
  "qmi_ops = \<lparr>which_ops = qmi_request_ops,
     opBaseBandVersion = Some requestBaseBandVersion,
     opSetEthMode = Some requestSetEthMode,
     opSetLoopBackState = Some requestSetLoopBackState,
     opGetSIMStatus = Some requestGetSIMStatus,
     opEnterSimPin = Some requestEnterSimPin,
     opSetProfile = Some requestSetProfile,
     opGetProfile = Some requestGetProfile,
     opRegistrationState = (\<lambda>a q. map_option (\<lambda>(e, x, q). (e, PSAttachedState x, q)) (requestRegistrationState a q)),
     opSetupDataCall = requestSetupDataCall,
     opQueryDataCall = requestQueryDataCall,
     opDeactivateDefaultPDP = (\<lambda>_. requestDeactivateDefaultPDP),
     opGetIPAddress = requestGetIPAddress,
     opGetICCID = None, opGetIMSI = None, opGetSignalInfo = None, opGetCellInfoList = None,
     opGetCoexWWANState = None,
     dev_init = Some (\<lambda>p q. map_option (\<lambda>(e, p, d). (e, p, q\<lparr>qdev := d\<rparr>)) (QmiWwanInit p (qdev q))),
     dev_deinit = Some (\<lambda>q. map_option (\<lambda>d. q\<lparr>qdev := d\<rparr>) (QmiWwanDeInit (qdev q))),
     dev_reboots = (\<lambda>_. False)\<rparr>"

lemma qmi_ops_sel [simp]:
  "which_ops qmi_ops = qmi_request_ops" "opSetupDataCall qmi_ops = requestSetupDataCall"
  "opQueryDataCall qmi_ops = requestQueryDataCall" "opGetIPAddress qmi_ops = requestGetIPAddress"
  "opDeactivateDefaultPDP qmi_ops = (\<lambda>_. requestDeactivateDefaultPDP)"
  by (simp_all add: qmi_ops_def)

text \<open>The data call requests leave the choice of families alone.\<close>

lemma requestSetupDataCall_families:
  "requestSetupDataCall p fam q = Some (e, p', q') \<Longrightarrow> families p' = families p"
  by (auto simp: requestSetupDataCall_def families_def Let_def bind_eq_Some_conv split: if_splits option.splits)

lemma get_pcscf_families:
  "get_pcscf6 r p = Some p' \<Longrightarrow> families p' = families p"
  "get_pcscf4 r p = Some p' \<Longrightarrow> families p' = families p"
  by (auto simp: get_pcscf6_def get_pcscf4_def families_def bind_eq_Some_conv split: if_splits option.splits)

lemma parse_runtime_settings_families:
  assumes "parse_runtime_settings fam r p = Some p'"
  shows "families p' = families p"
proof -
  obtain p1 p2 a4 a6 where "get_pcscf6 r p = Some p1" "get_pcscf4 r p1 = Some p2"
      "p' = p2\<lparr>ipv4 := a4, ipv6 := a6\<rparr>"
    using assms by (auto simp: parse_runtime_settings_def bind_eq_Some_conv)
  then show ?thesis using get_pcscf_families(1) [of r p p1] get_pcscf_families(2) [of r p1 p2]
    by (simp add: families_def)
qed

lemma checked_request_cases:
  assumes "checked_request qt ty c fail k q = Some x"
  obtains e q1 where "fail e q1 = Some x" | r q1 where "k r q1 = Some x"
proof -
  obtain err rsp q1 y where "qmi_request qt ty c q = Some (err, rsp, q1)"
      "(case y of Inl e \<Rightarrow> fail e q1 | Inr r \<Rightarrow> k r q1) = Some x"
    using assms by (auto simp: checked_request_def bind_eq_Some_conv)
  then show thesis using that by (cases y) auto
qed

lemma requestGetIPAddress_families:
  assumes "requestGetIPAddress p fam q = Some (e, p', q')"
  shows "families p' = families p"
proof -
  define p1 where "p1 = (if fam = IpFamilyV4 then p\<lparr>ipv4 := ipv4_zero\<rparr>
    else if fam = IpFamilyV6 then p\<lparr>ipv6 := ipv6_zero\<rparr> else p)"
  have "families p1 = families p" by (simp add: p1_def families_def)
  moreover have "families p' = families p1"
    using assms unfolding requestGetIPAddress_def Let_def p1_def [symmetric]
    by (auto simp: bind_eq_Some_conv split: if_splits elim!: checked_request_cases
        dest: parse_runtime_settings_families)
  ultimately show ?thesis by simp
qed

interpretation qmi_table: call_table qmi_ops
  by unfold_locales (auto dest: requestSetupDataCall_families requestGetIPAddress_families)

text \<open>Nothing is left over of an earlier call over QMI.\<close>

lemma qmi_main_start_loop:
  assumes "qmi_main_start qmi_ops en m0 = Some (Inr m)" "clean_interface m0"
  shows "loop_start m"
proof (rule main_start_parts [OF assms(1)])
  fix k k' assume k: "idle (s_link m0) (net_acts m0) k" "start_leftover qmi_ops k = Some k'"
    "m = send_signo_to_main SIG_EVENT_CHECK (k'\<lparr>in_loop := True\<rparr>)"
  then show ?thesis using assms(2) by (auto simp: start_leftover_def loop_start_def idle_def clean_interface_def)
qed

section \<open>Properties\<close>

text \<open>
  Property C1 (invariant): the interface follows the calls. Take any step (a turn of the loop or
  a Unix signal) of any run of the connection manager over QMI, whatever the modem answers
  and in whatever order events and signals arrive. If the manager is still in its loop
  after the step, and the step read a check signal, the interface is configured for exactly
  the families that are then connected (16: IPv4, 64: IPv6, 80: both); it is down (0) if both
  are disconnected, and as it was before the step if none is connected but one is neither
  connected nor disconnected. Every other step leaves the interface alone, and once the
  manager has left its loop the interface is down. Throughout, the families of the profile stay
  as they were, only an enabled family counts as connected, the last configuration that was
  carried out is the recorded one, and no configuration is repeated.
\<close>

theorem interface_follows_calls:
  assumes "loop_start m" "qmi_main_run qmi_ops ss m = Some m1" "qmi_main_step qmi_ops s m1 = Some m2"
  shows "s_link m2 = (if \<not> in_loop m2 then 0
      else if check_due s m1 then expected_link (IPv4ConnectionStatus m2) (IPv6ConnectionStatus m2) (s_link m1)
      else s_link m1) \<and>
    families (profile m2) = families (profile m) \<and> manager_inv m2"
proof -
  note i1 = qmi_table.run_inv [OF assms(2) loop_start_inv [OF assms(1)]]
  note i2 = qmi_table.step_inv [OF assms(3) conjunct1 [OF i1]]
  have "in_loop m2 \<Longrightarrow> in_loop m1"
    using assms(3) left_stays by auto
  then have "s_link m2 = (if \<not> in_loop m2 then 0
      else if check_due s m1 then expected_link (IPv4ConnectionStatus m2) (IPv6ConnectionStatus m2) (s_link m1)
      else s_link m1)"
    using qmi_table.step_link [OF assms(3)] i2 by (auto simp: manager_inv_def)
  with i1 i2 show ?thesis by simp
qed

definition q_idle :: qmi_state where
  "q_idle = (q_call 7 [] [])\<lparr>qdev := (dev_call 7)\<lparr>env := []\<rparr>\<rparr>"

definition m_idle :: "u64 list \<Rightarrow> qmi_state main" where
  "m_idle cs = \<lparr>profile = profile0, transport = q_idle, SIMStatus = SIM_READY, PSAttached = 1,
     IPv4ConnectionStatus = 0, IPv6ConnectionStatus = 0, SetupCallFail = 0, SetupCallAllowTime = 0,
     s_link = - 1, sig_queue = [], to_dev = [], alarm_s = 0, net_acts = [], clocks = cs, wan_ip = None,
     g_donot_exit_when_modem_hangup = False, brothers_killed = False, in_loop = True\<rparr>"

text \<open>A table whose queries answer the given states at once.\<close>

definition answering_ops :: "byte \<Rightarrow> byte \<Rightarrow> qmi_state request_ops" where
  "answering_ops v4 v6 = qmi_ops\<lparr>opQueryDataCall := (\<lambda>st fam q. Some (0, if fam = IpFamilyV4 then v4 else v6, q)),
     opGetIPAddress := (\<lambda>p fam q. Some (0, p, q))\<rparr>"

text \<open>
  Property C3 (functional): every check of the calls brings the interface in line and
  arranges a redial. Whatever the table of requests answers: after a check the interface
  is configured for exactly the connected families (16: IPv4, 64: IPv6, 80: both), is down if
  both families are disconnected, and is as before otherwise; it is brought up or down once if
  that is a change, and not touched if it is none; after a change a family that is not
  connected has no address any more; and one start signal is queued, behind the signals
  already waiting, exactly when an enabled family is disconnected.
\<close>

theorem check_configures_interface:
  assumes "sig_event_check ops m = Some m'"
  shows "s_link m' = expected_link (IPv4ConnectionStatus m') (IPv6ConnectionStatus m') (s_link m) \<and>
    net_acts m' = net_acts m @ expected_acts (s_link m) (s_link m') \<and>
    (s_link m' \<noteq> s_link m \<longrightarrow> (IPv4ConnectionStatus m' = 2 \<or> ipv4 (profile m') = ipv4_zero) \<and>
       (IPv6ConnectionStatus m' = 2 \<or> ipv6 (profile m') = ipv6_zero)) \<and>
    sig_queue m' = sig_queue m @ (if call_lost (enable_ipv4 (profile m')) (enable_ipv6 (profile m'))
       (IPv4ConnectionStatus m') (IPv6ConnectionStatus m') then [SIG_EVENT_START] else [])"
  using check_result [OF assms] by blast

definition m_both :: "qmi_state main" where
  "m_both = (m_idle [])\<lparr>profile := profile0\<lparr>enable_ipv4 := True, enable_ipv6 := True, ipv4 := ipv4_zero\<lparr>Address := 7\<rparr>\<rparr>,
     sig_queue := [SIG_EVENT_STOP]\<rparr>"

lemma check_configures_interface_witness:
  "\<exists>m1 m2 m3. sig_event_check (answering_ops 2 1) m_both = Some m1 \<and> s_link m1 = 16 \<and> net_acts m1 = [UdhcpcStart 16] \<and>
       sig_queue m1 = [SIG_EVENT_STOP, SIG_EVENT_START] \<and> ipv6 (profile m1) = ipv6_zero \<and>
     sig_event_check (answering_ops 2 2) m_both = Some m2 \<and> s_link m2 = 80 \<and> sig_queue m2 = [SIG_EVENT_STOP] \<and>
     sig_event_check (answering_ops 1 0) m_both = Some m3 \<and> s_link m3 = - 1 \<and> net_acts m3 = []"
proof -
  let ?ok = "\<lambda>v4 v6. case sig_event_check (answering_ops v4 v6) m_both of None \<Rightarrow> False | Some m' \<Rightarrow>
    IPv4ConnectionStatus m' = v4 \<and> IPv6ConnectionStatus m' = v6 \<and> enable_ipv4 (profile m') \<and> enable_ipv6 (profile m')"
  have c: "?ok 2 1" "?ok 2 2" "?ok 1 0" by code_simp+
  have step: "\<exists>m'. sig_event_check (answering_ops v4 v6) m_both = Some m' \<and> IPv4ConnectionStatus m' = v4 \<and>
      IPv6ConnectionStatus m' = v6 \<and> enable_ipv4 (profile m') \<and> enable_ipv6 (profile m')" if "?ok v4 v6" for v4 v6
    using that by (auto split: option.splits)
  note r = check_configures_interface [of "answering_ops v4 v6" m_both for v4 v6]
  have b: "s_link m_both = - 1" "net_acts m_both = []" "sig_queue m_both = [SIG_EVENT_STOP]"
    by (simp_all add: m_both_def m_idle_def)
  show ?thesis
    using step [OF c(1)] step [OF c(2)] step [OF c(3)] r [of 2 1] r [of 2 2] r [of 1 0]
    by (fastforce simp: b expected_link_def expected_acts_def call_lost_def)
qed

text \<open>What a call attempt leaves alone.\<close>

definition timing :: "'s main \<Rightarrow> u64 list \<times> u32 \<times> u64 \<times> u32" where
  "timing m = (clocks m, SetupCallFail m, SetupCallAllowTime m, alarm_s m)"

lemma do_setup_timing: "do_setup ops fam m = Some (e, m') \<Longrightarrow> timing m' = timing m"
  by (auto simp: do_setup_def timing_def bind_eq_Some_conv)

lemma do_address_timing: "do_address ops fam m = Some (e, m') \<Longrightarrow> timing m' = timing m"
  by (auto simp: do_address_def timing_def bind_eq_Some_conv)

lemma retry_auth_timing: "retry_auth ops e m = Some (e', m') \<Longrightarrow> timing m' = timing m"
  by (auto simp: retry_auth_def bind_eq_Some_conv Let_def split: if_splits dest!: do_setup_timing)
    (simp_all add: timing_def)

lemma start_v4_timing: "start_v4 ops m = Some m' \<Longrightarrow> timing m' = timing m"
  by (auto simp: start_v4_def bind_eq_Some_conv split: if_splits
      dest!: do_setup_timing retry_auth_timing do_address_timing) (simp_all add: timing_def)

lemma start_v6_timing: "start_v6 ops m = Some m' \<Longrightarrow> timing m' = timing m"
  by (auto simp: start_v6_def bind_eq_Some_conv split: if_splits dest!: do_setup_timing do_address_timing)
    (simp_all add: timing_def)

lemma backoff_table: "backoff f = [5, 10, 20, 40, 60] ! min (unat f) 4"
proof (cases "unat f < 5")
  case True
  then consider "unat f = 0" | "unat f = 1" | "unat f = 2" | "unat f = 3" | "unat f = 4" by linarith
  then show ?thesis using True by cases (simp_all add: backoff_def allow_time_def word_less_nat_alt)
qed (simp add: backoff_def allow_time_def word_less_nat_alt min_def)

text \<open>
  Property C29 (functional): Failed calls are redialled with growing pauses. When a start
  that may dial ends with an enabled family disconnected, the alarm is set to 5, 10, 20, 40
  and then always 60 seconds, by the number of failures before this one, which is counted
  up, and dialling is not allowed again before the alarm; when it ends connected, the count
  starts again at 0 and dialling is allowed at once.
\<close>

theorem redial_backoff:
  assumes "sig_event_start ops m = Some m'" "PSAttached m = 1"
    and "clocks m = now # later # cs" "SetupCallAllowTime m \<le> now"
  shows "(disconnected m' \<longrightarrow>
      alarm_s m' = [5, 10, 20, 40, 60] ! min (unat (SetupCallFail m)) 4 \<and>
      SetupCallFail m' = SetupCallFail m + 1 \<and>
      SetupCallAllowTime m' = later + 1000 * ucast (alarm_s m')) \<and>
    (\<not> disconnected m' \<and> connected m' \<longrightarrow>
      alarm_s m' = alarm_s m \<and> SetupCallFail m' = 0 \<and> SetupCallAllowTime m' = later)"
proof -
  let ?m = "m\<lparr>clocks := later # cs\<rparr>"
  have clk: "clock_msec m = Some (now, ?m)" using assms(3) by (simp add: clock_msec_def)
  obtain m1 m2 where s: "start_v4 ops ?m = Some m1" "start_v6 ops m1 = Some m2" "start_result m2 = Some m'"
  proof -
    have "\<not> SetupCallAllowTime ?m > now" using assms(4) by simp
    then show thesis using assms(1,2) that by (auto simp: sig_event_start_def clk bind_eq_Some_conv)
  qed
  have t: "timing m2 = timing ?m" using start_v4_timing [OF s(1)] start_v6_timing [OF s(2)] by simp
  then have c: "clocks m2 = later # cs" "SetupCallFail m2 = SetupCallFail m" "alarm_s m2 = alarm_s m"
    by (simp_all add: timing_def)
  show ?thesis
  proof (cases "disconnected m2")
    case True
    then show ?thesis using s(3) c
      by (auto simp: start_result_def clock_msec_def Let_def backoff_table [symmetric] mult.commute
          disconnected_def connected_def)
  next
    case False
    then show ?thesis using s(3) c
      by (auto simp: start_result_def clock_msec_def disconnected_def connected_def split: if_splits)
  qed
qed

definition busy_ops :: "qmi_state request_ops" where
  "busy_ops = qmi_ops\<lparr>opSetupDataCall := (\<lambda>p fam q. Some (14, p, q))\<rparr>"

lemma redial_backoff_witness:
  "\<exists>m'. sig_event_start busy_ops ((m_idle [9, 10])\<lparr>IPv4ConnectionStatus := 1, SetupCallFail := 2\<rparr>) = Some m' \<and>
     alarm_s m' = 20 \<and> SetupCallFail m' = 3 \<and> SetupCallAllowTime m' = 20010"
proof -
  let ?m = "(m_idle [9, 10])\<lparr>IPv4ConnectionStatus := 1, SetupCallFail := 2\<rparr>"
  obtain m' where m': "sig_event_start busy_ops ?m = Some m'" "disconnected m'"
    by (simp add: sig_event_start_def start_v4_def start_v6_def start_result_def do_setup_def retry_auth_def
        clock_msec_def busy_ops_def m_idle_def profile0_def disconnected_def given_def
        QWDS_PKT_DATA_DISCONNECTED_def QWDS_PKT_DATA_CONNECTED_def Let_def)
  have "clocks ?m = 9 # 10 # []" "PSAttached ?m = 1" "SetupCallAllowTime ?m \<le> 9" by (simp_all add: m_idle_def)
  note r = redial_backoff [OF m'(1) this(2,1,3)]
  have "[5, 10, 20, 40, 60] ! min (unat (SetupCallFail ?m)) 4 = (20 :: u32)" by simp
  then have "alarm_s m' = 20" "SetupCallFail m' = 3" using r m'(2) by simp_all
  moreover have "SetupCallAllowTime m' = 20010" using r m'(2) \<open>alarm_s m' = 20\<close> by simp
  ultimately show ?thesis using m'(1) by blast
qed

text \<open>
  No request goes out before dialling is allowed again. A start that
  comes too early changes nothing but the alarm, which is set to ring at the allowed time or
  less than a second after it, if the clock has not passed that time between its two readings.
\<close>

theorem no_request_before_allowed:
  assumes "clocks m = now # later # cs" "now < SetupCallAllowTime m" "later < SetupCallAllowTime m"
    and "unat (SetupCallAllowTime m - later) \<le> 60000" "PSAttached m = 1"
  shows "\<exists>a. sig_event_start ops m = Some (m\<lparr>clocks := cs, alarm_s := a\<rparr>) \<and>
    unat (SetupCallAllowTime m) \<le> unat later + 1000 * unat a \<and>
    unat later + 1000 * unat a < unat (SetupCallAllowTime m) + 1000"
proof -
  let ?w = "SetupCallAllowTime m - later"
  let ?a = "ucast ((?w + 999) div 1000) :: u32"
  have w: "unat ?w = unat (SetupCallAllowTime m) - unat later" "unat later < unat (SetupCallAllowTime m)"
    using assms(3) by (simp_all add: unat_sub word_less_nat_alt word_le_nat_alt)
  have s: "unat (?w + 999) = unat ?w + 999"
    using assms(4) by (simp add: unat_word_ariths)
  have "unat ?a = (unat ?w + 999) div 1000"
    using assms(4) by (simp add: unsigned_ucast_eq unat_div s take_bit_nat_eq_self)
  moreover have "sig_event_start ops m = Some (m\<lparr>clocks := cs, alarm_s := ?a\<rparr>)"
    using assms(1,2,5) by (simp add: sig_event_start_def clock_msec_def)
  moreover have "unat ?w \<le> 1000 * ((unat ?w + 999) div 1000)" "1000 * ((unat ?w + 999) div 1000) < unat ?w + 1000"
    using div_mult_mod_eq [of "unat ?w + 999" 1000] mod_less_divisor [of 1000 "unat ?w + 999"] by linarith+
  ultimately show ?thesis using w by (intro exI [of _ ?a] conjI) (assumption | linarith)+
qed

lemma no_request_before_allowed_witness:
  "\<exists>a. sig_event_start qmi_ops ((m_idle [100, 101])\<lparr>SetupCallAllowTime := 5000\<rparr>) =
     Some ((m_idle [])\<lparr>SetupCallAllowTime := 5000, alarm_s := a\<rparr>) \<and> unat (5000 :: u64) \<le> unat (101 :: u64) + 1000 * unat a"
  using no_request_before_allowed [of "(m_idle [100, 101])\<lparr>SetupCallAllowTime := 5000\<rparr>" 100 101 "[]" qmi_ops]
  by (auto simp: m_idle_def)

lemma address_answered:
  assumes "answered_with (wds_type fam) 0x002D (ok_tlv # ts) (qdev q) es" "handle_of fam q \<noteq> 0"
    and "\<And>cid tid. parse_runtime_settings fam (modem_answer (wire_type (wds_type fam)) cid tid 0x002D (ok_tlv # ts))
      (if fam = IpFamilyV4 then p\<lparr>ipv4 := ipv4_zero\<rparr> else if fam = IpFamilyV6 then p\<lparr>ipv6 := ipv6_zero\<rparr> else p) =
      Some p2"
  shows "\<exists>d2. requestGetIPAddress p fam q = Some (0, p2, q\<lparr>qdev := d2\<rparr>) \<and> env d2 = es \<and> same_clients (qdev q) d2"
proof -
  define p1 where "p1 = (if fam = IpFamilyV4 then p\<lparr>ipv4 := ipv4_zero\<rparr>
    else if fam = IpFamilyV6 then p\<lparr>ipv6 := ipv6_zero\<rparr> else p)"
  define k where "k = (\<lambda>r (q :: qmi_state). do { p2 \<leftarrow> parse_runtime_settings fam r p1; Some (0 :: int, p2, q) })"
  have "fits (Some WdsGetRuntimeSettingReq)"
    unfolding WdsGetRuntimeSettingReq_def by (rule fits_qmux_body) (simp add: tlv32_def)
  from checked_request_ok [OF assms(1) this, of "\<lambda>e q. Some (e, p1, q)" k]
  obtain cid tid d2 where r: "env d2 = es" "same_clients (qdev q) d2"
      "checked_request (wds_type fam) 0x002D (Some WdsGetRuntimeSettingReq) (\<lambda>e q. Some (e, p1, q)) k q =
       k (modem_answer (wire_type (wds_type fam)) cid tid 0x002D (ok_tlv # ts)) (q\<lparr>qdev := d2\<rparr>)"
    by blast
  have "requestGetIPAddress p fam q =
      checked_request (wds_type fam) 0x002D (Some WdsGetRuntimeSettingReq) (\<lambda>e q. Some (e, p1, q)) k q"
    using assms(2) by (simp add: requestGetIPAddress_def p1_def [symmetric] k_def Let_def)
  also have "\<dots> = Some (0, p2, q\<lparr>qdev := d2\<rparr>)"
    unfolding r(3) using assms(3) [of cid tid] unfolding p1_def [symmetric] by (simp add: k_def)
  finally show ?thesis using r(1,2) by blast
qed

text \<open>
  Property C2 (functional): dialling connects. When the modem is attached, dialling is
  allowed, only IPv4 is enabled and not connected, and the modem accepts the start request
  with the handle \<open>h\<close> and then reports its settings, a start signal makes IPv4 connected,
  with the handle \<open>h\<close> and exactly the reported address, gateway, mask, name servers and MTU
  in the profile, and starts the count of failures again at 0.
\<close>

theorem start_connects:
  assumes "PSAttached m = 1" "clocks m = now # later # cs" "SetupCallAllowTime m \<le> now"
    and "enable_ipv4 (profile m)" "\<not> enable_ipv6 (profile m)" "IPv4ConnectionStatus m \<noteq> QWDS_PKT_DATA_CONNECTED"
    and "answered_with QMUX_TYPE_WDS 0x0020 (ok_tlv # (0x01, le32 h) # ts) (qdev (transport m)) es" "h \<noteq> 0"
    and "fits (Some (WdsStartNwInterfaceReq (s_is_cdma (transport m)) ((profile m)\<lparr>curIpFamily := IpFamilyV4\<rparr>)))"
    and "requestSetupDataCall (profile m) IpFamilyV4 (transport m) = Some (err, p1, q1)"
    and "answered_with QMUX_TYPE_WDS 0x002D (ok_tlv # us) (qdev q1) es'"
    and "distinct (map fst (ok_tlv # us))" "length (enc_tlvs (ok_tlv # us)) < 65536"
    and "{(0x1E, le32 a), (0x20, le32 g), (0x21, le32 k), (0x15, le32 d1), (0x16, le32 d2), (0x29, le32 mtu)}
      \<subseteq> set (ok_tlv # us)"
    and "{0x2E, 0x23, 0x25, 0x26, 0x27, 0x28} \<inter> fst ` set (ok_tlv # us) = {}"
  shows "\<exists>m'. sig_event_start qmi_ops m = Some m' \<and> IPv4ConnectionStatus m' = QWDS_PKT_DATA_CONNECTED \<and>
    ipv4 (profile m') = \<lparr>Address = a, Gateway = g, SubnetMask = k, DnsPrimary = d1, DnsSecondary = d2, Mtu = mtu\<rparr> \<and>
    WdsConnectionIPv4Handle (transport m') = h \<and> SetupCallFail m' = 0"
proof -
  have wds: "wds_type IpFamilyV4 = QMUX_TYPE_WDS" by (simp add: wds_type_def)
  obtain e1 where q1: "err = 0" "p1 = (profile m)\<lparr>curIpFamily := IpFamilyV4\<rparr>"
      "q1 = set_handle IpFamilyV4 h ((transport m)\<lparr>qdev := e1\<rparr>)"
    using setup_answered [of IpFamilyV4, unfolded wds, OF assms(7,9)] assms(10) by auto
  have h: "handle_of IpFamilyV4 q1 = h" by (simp add: q1(3))
  let ?ip = "\<lparr>Address = a, Gateway = g, SubnetMask = k, DnsPrimary = d1, DnsSecondary = d2, Mtu = mtu\<rparr>"
  obtain e2 where ip: "requestGetIPAddress p1 IpFamilyV4 q1 = Some (0, p1\<lparr>ipv4 := ?ip\<rparr>, q1\<lparr>qdev := e2\<rparr>)"
    using address_answered [of IpFamilyV4, unfolded wds, OF assms(11), of p1 "p1\<lparr>ipv4 := ?ip\<rparr>"] h assms(8)
      parse_settings_ipv4 [OF assms(12-15), of _ _ _ _ "p1\<lparr>ipv4 := ipv4_zero\<rparr>"] by auto
  let ?m = "m\<lparr>clocks := later # cs\<rparr>"
  let ?m1 = "?m\<lparr>profile := p1\<lparr>ipv4 := ?ip\<rparr>, transport := q1\<lparr>qdev := e2\<rparr>,
    IPv4ConnectionStatus := QWDS_PKT_DATA_CONNECTED\<rparr>"
  have dialled: "do_setup qmi_ops IpFamilyV4 ?m = Some (0, ?m\<lparr>profile := p1, transport := q1\<rparr>)"
    using assms(10) q1(1) by (simp add: do_setup_def)
  have start: "start_v4 qmi_ops ?m = Some ?m1"
    using assms(4,6) by (simp add: start_v4_def dialled retry_auth_def do_address_def ip)
  have v6: "start_v6 qmi_ops ?m1 = Some ?m1" using assms(5) by (simp add: start_v6_def q1(2))
  have neq: "QWDS_PKT_DATA_CONNECTED \<noteq> QWDS_PKT_DATA_DISCONNECTED"
    by (simp add: QWDS_PKT_DATA_DISCONNECTED_def QWDS_PKT_DATA_CONNECTED_def)
  have result: "start_result ?m1 = Some (?m1\<lparr>clocks := cs, SetupCallFail := 0, SetupCallAllowTime := later\<rparr>)"
    using assms(5) neq by (simp add: start_result_def disconnected_def connected_def clock_msec_def q1(2))
  have "\<not> SetupCallAllowTime m > now" using assms(3) by simp
  then have "sig_event_start qmi_ops m = Some (?m1\<lparr>clocks := cs, SetupCallFail := 0, SetupCallAllowTime := later\<rparr>)"
    using assms(1,2) start v6 result by (simp add: sig_event_start_def clock_msec_def)
  moreover have "WdsConnectionIPv4Handle q1 = h" using h by (simp add: handle_of_def)
  ultimately show ?thesis by simp
qed

definition settings1 :: "(byte \<times> byte list) list" where
  "settings1 = [(0x1E, le32 1), (0x20, le32 2), (0x21, le32 3), (0x15, le32 4), (0x16, le32 5), (0x29, le32 1500)]"

definition q_dial :: "(byte \<times> byte list) list \<Rightarrow> (byte \<times> byte list) list \<Rightarrow> qmi_state" where
  "q_dial ts us = (q_call 7 ts [])\<lparr>qdev := (dev_call 7)\<lparr>env :=
     [(io_good, [([Some (modem_answer 0x01 7 5 0x0020 ts)], 0)]),
      (io_good, [([Some (modem_answer 0x01 7 6 0x002D us)], 0)])]\<rparr>\<rparr>"

lemma start_connects_witness:
  "\<exists>m'. sig_event_start qmi_ops ((m_idle [9, 10])\<lparr>transport := q_dial [ok_tlv, (0x01, le32 0x1234)] (ok_tlv # settings1)\<rparr>) =
     Some m' \<and> IPv4ConnectionStatus m' = 2 \<and> Address (ipv4 (profile m')) = 1 \<and> WdsConnectionIPv4Handle (transport m') = 0x1234"
proof -
  let ?q = "q_dial [ok_tlv, (0x01, le32 0x1234)] (ok_tlv # settings1)"
  let ?m = "(m_idle [9, 10])\<lparr>transport := ?q\<rparr>"
  let ?es = "[(io_good, [([Some (modem_answer 0x01 7 6 0x002D (ok_tlv # settings1))], 0)])]"
  have wds: "wds_type IpFamilyV4 = QMUX_TYPE_WDS" by (simp add: wds_type_def)
  have a: "answered_with QMUX_TYPE_WDS 0x0020 (ok_tlv # (0x01, le32 0x1234) # []) (qdev (transport ?m)) ?es"
    by (auto simp: answered_with_def q_dial_def dev_call_def dev_two_def client_ready_def io_ok_def
      io_good_def wire_type_def qmux_types GetQMUXTransactionId_def ok_tlv_def intro!: exI [of _ io_good])
  have f: "fits (Some (WdsStartNwInterfaceReq (s_is_cdma (transport ?m)) ((profile ?m)\<lparr>curIpFamily := IpFamilyV4\<rparr>)))"
    using profile0_fits [of IpFamilyV4] by (simp add: m_idle_def q_dial_def q_call_def)
  obtain d2 where d2: "requestSetupDataCall (profile ?m) IpFamilyV4 (transport ?m) =
      Some (0, (profile ?m)\<lparr>curIpFamily := IpFamilyV4\<rparr>, set_handle IpFamilyV4 0x1234 ((transport ?m)\<lparr>qdev := d2\<rparr>))"
      "env d2 = ?es" "same_clients (qdev (transport ?m)) d2"
    using setup_answered [of IpFamilyV4, unfolded wds, OF a f] by blast
  have "cdc_wdm_fd d2" "qmiclientId d2 = (replicate 255 0)[1 := 7]" "mux_tid d2 = 5"
    using d2(3) by (simp_all add: same_clients_def q_dial_def dev_call_def dev_two_def GetQMUXTransactionId_def)
  then have b: "answered_with QMUX_TYPE_WDS 0x002D (ok_tlv # settings1)
      (qdev (set_handle IpFamilyV4 0x1234 ((transport ?m)\<lparr>qdev := d2\<rparr>))) []"
    using d2(2) by (auto simp: answered_with_def client_ready_def io_ok_def io_good_def wire_type_def qmux_types
      GetQMUXTransactionId_def ok_tlv_def settings1_def intro!: exI [of _ io_good])
  have "clocks ?m = 9 # 10 # []" "PSAttached ?m = 1" "SetupCallAllowTime ?m \<le> 9" "enable_ipv4 (profile ?m)"
    "\<not> enable_ipv6 (profile ?m)" "IPv4ConnectionStatus ?m \<noteq> QWDS_PKT_DATA_CONNECTED"
    by (simp_all add: m_idle_def profile0_def QWDS_PKT_DATA_CONNECTED_def)
  from start_connects [OF this(2,1,3-6) a _ f d2(1) b, of 1 2 3 4 5 1500]
  show ?thesis by (auto simp: ok_tlv_def settings1_def QWDS_PKT_DATA_CONNECTED_def)
qed

text \<open>A check of a call that the modem reports with its settings.\<close>

definition q_watch :: qmi_state where
  "q_watch = (q_call 7 [] [])\<lparr>WdsConnectionIPv4Handle := 9, qdev := (dev_call 7)\<lparr>env :=
     [(io_good, [([Some (modem_answer 0x01 7 5 0x0022 [ok_tlv, (0x01, [2])])], 0)]),
      (io_good, [([Some (modem_answer 0x01 7 6 0x002D (ok_tlv # settings1))], 0)])]\<rparr>\<rparr>"

definition m_watch :: "qmi_state main" where
  "m_watch = (m_idle [])\<lparr>transport := q_watch, profile := profile0\<lparr>ipv4 := ipv4_zero\<lparr>Address := 1\<rparr>\<rparr>\<rparr>"

lemma watched_v4:
  assumes "profile m = profile0\<lparr>ipv4 := ipv4_zero\<lparr>Address := 1\<rparr>\<rparr>" "transport m = q_watch" "IPv4ConnectionStatus m = 0"
  shows "\<exists>p q. check_v4 qmi_ops m = Some (m\<lparr>profile := p, transport := q, IPv4ConnectionStatus := 2\<rparr>) \<and>
    families p = (True, False)"
proof -
  let ?es = "[(io_good, [([Some (modem_answer 0x01 7 6 0x002D (ok_tlv # settings1))], 0)])]"
  have wds: "wds_type IpFamilyV4 = QMUX_TYPE_WDS" by (simp add: wds_type_def)
  have a: "answered_with (wds_type IpFamilyV4) 0x0022 (ok_tlv # (0x01, 2 # []) # []) (qdev q_watch) ?es"
    by (auto simp: answered_with_def q_watch_def dev_call_def dev_two_def client_ready_def io_ok_def wds
      io_good_def wire_type_def qmux_types GetQMUXTransactionId_def ok_tlv_def intro!: exI [of _ io_good])
  have "distinct (map fst (ok_tlv # (0x01, 2 # []) # []))" by (simp add: ok_tlv_def)
  then obtain d2 where d2: "requestQueryDataCall 0 IpFamilyV4 q_watch = Some (0, 2, q_watch\<lparr>qdev := d2\<rparr>)"
      "env d2 = ?es" "same_clients (qdev q_watch) d2"
    using query_answered [OF a, of 0] by (auto simp: Let_def QWDS_PKT_DATA_DISCONNECTED_def)
  have "cdc_wdm_fd d2" "qmiclientId d2 = (replicate 255 0)[1 := 7]" "mux_tid d2 = 5"
    using d2(3) by (simp_all add: same_clients_def q_watch_def dev_call_def dev_two_def GetQMUXTransactionId_def)
  then have b: "answered_with (wds_type IpFamilyV4) 0x002D (ok_tlv # settings1) (qdev (q_watch\<lparr>qdev := d2\<rparr>)) []"
    using d2(2) by (auto simp: answered_with_def client_ready_def io_ok_def io_good_def wire_type_def qmux_types wds
      GetQMUXTransactionId_def ok_tlv_def settings1_def intro!: exI [of _ io_good])
  let ?p = "profile m" and ?ip = "\<lparr>Address = 1, Gateway = 2, SubnetMask = 3, DnsPrimary = 4, DnsSecondary = 5, Mtu = 1500\<rparr>"
  have h: "handle_of IpFamilyV4 (q_watch\<lparr>qdev := d2\<rparr>) \<noteq> 0" by (simp add: handle_of_def q_watch_def)
  have "distinct (map fst (ok_tlv # settings1))" "length (enc_tlvs (ok_tlv # settings1)) < 65536"
    "{(0x1E, le32 1), (0x20, le32 2), (0x21, le32 3), (0x15, le32 4), (0x16, le32 5), (0x29, le32 1500)}
      \<subseteq> set (ok_tlv # settings1)"
    "{0x2E, 0x23, 0x25, 0x26, 0x27, 0x28} \<inter> fst ` set (ok_tlv # settings1) = {}"
    by (simp_all add: ok_tlv_def settings1_def)
  note s = parse_settings_ipv4 [OF this, of _ _ _ _ "?p\<lparr>ipv4 := ipv4_zero\<rparr>"]
  obtain d3 where d3: "requestGetIPAddress ?p IpFamilyV4 (q_watch\<lparr>qdev := d2\<rparr>) =
      Some (0, ?p\<lparr>ipv4 := ?ip\<rparr>, q_watch\<lparr>qdev := d3\<rparr>)"
    using address_answered [OF b h, of ?p "?p\<lparr>ipv4 := ?ip\<rparr>"] s by auto
  have p: "enable_ipv4 ?p" "\<not> enable_ipv6 ?p" "Address (ipv4 ?p) = 1" using assms(1) by (simp_all add: profile0_def)
  show ?thesis
    by (rule exI [of _ "?p\<lparr>ipv4 := ?ip\<rparr>"], rule exI [of _ "q_watch\<lparr>qdev := d3\<rparr>"])
      (simp add: check_v4_def do_query_v4_def assms(2,3) d2(1) fetch_address_def verify_address_def families_def p
      check_ipv4_address_def do_address_def d3 Let_def QWDS_PKT_DATA_DISCONNECTED_def QWDS_PKT_DATA_CONNECTED_def)
qed

definition fd_reads :: "bool \<Rightarrow> fd_events" where
  "fd_reads b = \<lparr>fd_hup = False, fd_err = False, fd_in = b\<rparr>"

lemma interface_follows_calls_witness:
  "\<exists>m1 m2. qmi_main_run qmi_ops [Poll PollTimeout15] m_watch = Some m1 \<and>
     qmi_main_step qmi_ops (Poll (Polled (fd_reads True) (fd_reads False) MODEM_REPORT_RESET_EVENT)) m1 = Some m2 \<and>
     in_loop m2 \<and> IPv4ConnectionStatus m2 = 2 \<and> IPv6ConnectionStatus m2 = 1 \<and> s_link m2 = 16"
proof -
  let ?s = "Poll (Polled (fd_reads True) (fd_reads False) MODEM_REPORT_RESET_EVENT)"
  have l: "loop_start m_watch" by (simp add: loop_start_def m_watch_def m_idle_def)
  let ?m = "m_watch\<lparr>sig_queue := [], alarm_s := 0\<rparr>"
  have m1: "qmi_main_run qmi_ops [Poll PollTimeout15] m_watch = Some (m_watch\<lparr>sig_queue := [SIG_EVENT_CHECK]\<rparr>)"
    by (simp add: qmi_main_step_def poll_step_def send_signo_to_main_def m_watch_def m_idle_def)
  obtain p q where v4: "check_v4 qmi_ops ?m = Some (?m\<lparr>profile := p, transport := q, IPv4ConnectionStatus := 2\<rparr>)"
      "families p = (True, False)"
    using watched_v4 [of ?m] by (auto simp: m_watch_def m_idle_def)
  let ?n = "?m\<lparr>profile := p, transport := q, IPv4ConnectionStatus := 2, IPv6ConnectionStatus := 1\<rparr>"
  have "\<exists>m2. sig_event_check qmi_ops ?m = Some m2 \<and> m2 = check_link qmi_ops ?n"
  proof -
    have "check_v6 qmi_ops (?m\<lparr>profile := p, transport := q, IPv4ConnectionStatus := 2\<rparr>) = Some ?n"
      using v4(2) by (simp add: check_v6_def families_def QWDS_PKT_DATA_DISCONNECTED_def)
    moreover have "\<not> disconnected (check_link qmi_ops ?n)"
      using v4(2) check_link_families [of qmi_ops ?n]
      by (simp add: disconnected_def families_def QWDS_PKT_DATA_DISCONNECTED_def)
    moreover have "do_info (opGetSignalInfo qmi_ops) ?m = Some ?m" "do_info (opGetCellInfoList qmi_ops) ?m = Some ?m"
      "do_info (opGetCoexWWANState qmi_ops) ?m = Some ?m" "PSAttached ?m = 1"
      by (simp_all add: do_info_def qmi_ops_def m_watch_def m_idle_def)
    ultimately show ?thesis by (simp add: sig_event_check_def v4(1) Let_def)
  qed
  then obtain m2 where m2: "sig_event_check qmi_ops ?m = Some m2" "m2 = check_link qmi_ops ?n" by blast
  then have f: "in_loop m2" "IPv4ConnectionStatus m2 = 2" "IPv6ConnectionStatus m2 = 1"
    by (simp_all add: m_watch_def m_idle_def)
  have s: "qmi_main_step qmi_ops ?s (m_watch\<lparr>sig_queue := [SIG_EVENT_CHECK]\<rparr>) = Some m2"
    using m2(1) f(1)
    by (simp add: qmi_main_step_def poll_step_def serve_fd_def handle_signo_def fd_reads_def m_watch_def m_idle_def)
  have "s_link m2 = 16"
    using interface_follows_calls [OF l m1 s] f by (simp add: check_due_def fd_reads_def expected_link_def)
  with m1 s f show ?thesis by blast
qed

end
