(* ===== verification/CmdLine.thy ===== *)
theory CmdLine
  imports Profile CLib QmiWwan
begin

text \<open>
  The command line, \<open>parse_user_input\<close> of \<open>main.c\<close>. The arguments are the strings after
  \<open>argv[0]\<close>. \<open>None\<close> is the return through \<open>usage\<close>; the flag in the result is \<open>debug_qmi\<close>.
\<close>

section \<open>Arguments\<close>

text \<open>The first character of a C string.\<close>

definition char0 :: "string \<Rightarrow> char" where
  "char0 s = (case s of [] \<Rightarrow> CHR 0x00 | c # _ \<Rightarrow> c)"

text \<open>\<open>has_more_argv\<close> and the argument that is then taken.\<close>

definition take_arg :: "string list \<Rightarrow> (string \<times> string list) option" where
  "take_arg args = (case args of [] \<Rightarrow> None
     | a # r \<Rightarrow> if char0 a \<noteq> CHR ''-'' then Some (a, r) else None)"

text \<open>\<open>arg[0] - '0'\<close>\<close>

definition digit0 :: "string \<Rightarrow> int" where
  "digit0 s = int (of_char (char0 s)) - 48"

definition QUECTEL_QMI_PROXY :: string where "QUECTEL_QMI_PROXY = ''quectel-qmi-proxy''"
definition QUECTEL_MBIM_PROXY :: string where "QUECTEL_MBIM_PROXY = ''quectel-mbim-proxy''"
definition LIBMBIM_PROXY :: string where "LIBMBIM_PROXY = ''mbim-proxy''"
definition QUECTEL_ATC_PROXY :: string where "QUECTEL_ATC_PROXY = ''quectel-atc-proxy''"

section \<open>Options\<close>

text \<open>An option takes its arguments and changes the profile and \<open>debug_qmi\<close>.\<close>

type_synonym settings = "PROFILE_T \<times> bool"

definition auth_of :: "string \<Rightarrow> int option" where
  "auth_of a = (if a = ''0'' \<or> strcaseeq a ''none'' then Some 0
     else if a = ''1'' \<or> strcaseeq a ''pap'' then Some 1
     else if a = ''2'' \<or> strcaseeq a ''chap'' then Some 2
     else if a = ''3'' \<or> strcaseeq a ''MsChapV2'' then Some 3 else None)"

definition opt_s :: "string list \<Rightarrow> PROFILE_T \<Rightarrow> (string list \<times> PROFILE_T) option" where
  "opt_s args p =
     (let p = p\<lparr>apn := Some [], user := Some [], pd := Some []\<rparr> in
      case take_arg args of None \<Rightarrow> Some (args, p)
      | Some (a, args) \<Rightarrow> let p = p\<lparr>apn := Some a\<rparr> in
        (case take_arg args of None \<Rightarrow> Some (args, p)
         | Some (u, args) \<Rightarrow> let p = p\<lparr>user := Some u\<rparr> in
           (case take_arg args of None \<Rightarrow> Some (args, p)
            | Some (w, args) \<Rightarrow>
                let p = (if w \<noteq> [] then p\<lparr>pd := Some w, auth := 2\<rparr> else p\<lparr>pd := Some w\<rparr>) in
              (case take_arg args of None \<Rightarrow> Some (args, p)
               | Some (x, args) \<Rightarrow> map_option (\<lambda>n. (args, p\<lparr>auth := n\<rparr>)) (auth_of x)))))"

definition opt_p :: "string list \<Rightarrow> PROFILE_T \<Rightarrow> (string list \<times> PROFILE_T) option" where
  "opt_p args p = (case take_arg args of None \<Rightarrow> Some (args, p)
     | Some (a, args) \<Rightarrow>
         if a \<in> set [QUECTEL_QMI_PROXY, QUECTEL_MBIM_PROXY, LIBQMI_PROXY, LIBMBIM_PROXY, QUECTEL_ATC_PROXY]
         then Some (args, p\<lparr>proxy := take 31 a\<rparr>)
         else if 999 < atoi a \<and> atoi a < 10000 then Some (args, p\<lparr>pincode := Some a\<rparr>)
         else None)"

text \<open>An option with one optional argument.\<close>

definition opt_arg :: "(string \<Rightarrow> PROFILE_T \<Rightarrow> PROFILE_T) \<Rightarrow> string list \<Rightarrow> PROFILE_T \<Rightarrow> (string list \<times> PROFILE_T) option" where
  "opt_arg f args p = (case take_arg args of None \<Rightarrow> Some (args, p) | Some (a, args) \<Rightarrow> Some (args, f a p))"

definition set_loopback :: "string \<Rightarrow> PROFILE_T \<Rightarrow> PROFILE_T" where
  "set_loopback a p = (let p = p\<lparr>replication_factor := atoi a\<rparr> in
     if atoi a > 0 then p\<lparr>loopback_state := True\<rparr> else p)"

definition set_bring_up :: "string \<Rightarrow> PROFILE_T \<Rightarrow> PROFILE_T" where
  "set_bring_up a p = (if digit0 a = 1 then p\<lparr>bring_up_by_apn_name := 1\<rparr>
     else if digit0 a = 2 then p\<lparr>bring_up_by_apn_type := 2\<rparr> else p)"

definition parse_option :: "char \<Rightarrow> string list \<Rightarrow> PROFILE_T \<Rightarrow> (string list \<times> PROFILE_T) option" where
  "parse_option c args p =
     (if c = CHR ''s'' then opt_s args p
      else if c = CHR ''p'' then opt_p args p
      else if c = CHR ''m'' then opt_arg (\<lambda>a p. p\<lparr>muxid := digit0 a + 0x80\<rparr>) args p
      else if c = CHR ''n'' then opt_arg (\<lambda>a p. p\<lparr>pdp := digit0 a\<rparr>) args p
      else if c = CHR ''f'' then opt_arg (\<lambda>a p. p\<lparr>logfile := Some a\<rparr>) args p
      else if c = CHR ''i'' then opt_arg (\<lambda>a p. p\<lparr>expect_adapter := take 31 a\<rparr>) args p
      else if c = CHR ''v'' then Some (args, p)
      else if c = CHR ''l'' then opt_arg set_loopback args p
      else if c = CHR ''4'' then Some (args, p\<lparr>enable_ipv4 := True\<rparr>)
      else if c = CHR ''6'' then Some (args, p\<lparr>enable_ipv6 := True\<rparr>)
      else if c = CHR ''d'' then Some (args, p\<lparr>no_dhcp := True\<rparr>)
      else if c = CHR ''u'' then opt_arg (\<lambda>a p. p\<lparr>usblogfile := Some a\<rparr>) args p
      else if c = CHR ''b'' then Some (args, p\<lparr>enable_bridge := 1\<rparr>)
      else if c = CHR ''k'' then opt_arg (\<lambda>a p. p\<lparr>kill_pdp := digit0 a\<rparr>) args p
      else if c = CHR ''a'' then opt_arg set_bring_up args p
      else if c = CHR ''y'' then opt_arg (\<lambda>a p. p\<lparr>apn_type := digit0 a\<rparr>) args p
      else None)"

lemma take_arg_shorter: "take_arg args = Some (a, r) \<Longrightarrow> length r < length args"
  by (auto simp: take_arg_def split: list.splits if_splits)

lemma opt_shorter:
  "opt_arg f args p = Some (r, p') \<Longrightarrow> length r \<le> length args"
  "opt_p args p = Some (r, p') \<Longrightarrow> length r \<le> length args"
  "opt_s args p = Some (r, p') \<Longrightarrow> length r \<le> length args"
  by (auto simp: opt_arg_def opt_p_def opt_s_def Let_def split: option.splits if_splits dest!: take_arg_shorter)

lemma parse_option_shorter: "parse_option c args p = Some (r, p') \<Longrightarrow> length r \<le> length args"
  unfolding parse_option_def by (auto split: if_splits dest: opt_shorter)

function parse_loop :: "string list \<Rightarrow> settings \<Rightarrow> settings option" where
  "parse_loop [] s = Some s"
| "parse_loop (a # args) (p, dbg) =
     (if char0 a \<noteq> CHR ''-'' then None
      else (case parse_option (char0 (tl a)) args p of None \<Rightarrow> None
        | Some (r, p') \<Rightarrow> parse_loop r (p', dbg \<or> char0 (tl a) = CHR ''v'')))"
  by pat_completeness auto
termination
  by (relation "measure (\<lambda>(args, s). length args)") (auto dest: parse_option_shorter)

definition CONFIG_DEFAULT_PDP :: int where "CONFIG_DEFAULT_PDP = 1"

definition parse_user_input :: "string list \<Rightarrow> PROFILE_T \<Rightarrow> settings option" where
  "parse_user_input args p =
     (let args = (if args \<noteq> [] \<and> last args = ''&'' then butlast args else args) in do {
        (p, dbg) \<leftarrow> parse_loop args (p\<lparr>pdp := CONFIG_DEFAULT_PDP, profile_index := CONFIG_DEFAULT_PDP\<rparr>, False);
        Some (if \<not> enable_ipv4 p \<and> \<not> enable_ipv6 p then p\<lparr>enable_ipv4 := True\<rparr> else p, dbg) })"

section \<open>The options as the usage text lists them\<close>

datatype cmd_opt =
    Credentials string string string "string option"
  | Proxy string
  | PinCode string
  | MuxId nat
  | Pdn nat
  | HangUp nat
  | LogFile string
  | Interface string
  | Verbose
  | IPv4
  | IPv6
  | NoDhcp
  | Bridge

fun render :: "cmd_opt \<Rightarrow> string list" where
  "render (Credentials a u w x) = [''-s'', a, u, w] @ (case x of None \<Rightarrow> [] | Some y \<Rightarrow> [y])"
| "render (Proxy a) = [''-p'', a]"
| "render (PinCode a) = [''-p'', a]"
| "render (MuxId n) = [''-m'', [digit_char n]]"
| "render (Pdn n) = [''-n'', [digit_char n]]"
| "render (HangUp n) = [''-k'', [digit_char n]]"
| "render (LogFile a) = [''-f'', a]"
| "render (Interface a) = [''-i'', a]"
| "render Verbose = [''-v'']"
| "render IPv4 = [''-4'']"
| "render IPv6 = [''-6'']"
| "render NoDhcp = [''-d'']"
| "render Bridge = [''-b'']"

definition plain :: "string \<Rightarrow> bool" where
  "plain a \<longleftrightarrow> char0 a \<noteq> CHR ''-''"

definition proxies :: "string list" where
  "proxies = [QUECTEL_QMI_PROXY, QUECTEL_MBIM_PROXY, LIBQMI_PROXY, LIBMBIM_PROXY, QUECTEL_ATC_PROXY]"

fun opt_ok :: "cmd_opt \<Rightarrow> bool" where
  "opt_ok (Credentials a u w x) \<longleftrightarrow> plain a \<and> plain u \<and> plain w \<and>
     (case x of None \<Rightarrow> True | Some y \<Rightarrow> plain y \<and> auth_of y \<noteq> None)"
| "opt_ok (Proxy a) \<longleftrightarrow> a \<in> set proxies"
| "opt_ok (PinCode a) \<longleftrightarrow> plain a \<and> a \<notin> set proxies \<and> 999 < atoi a \<and> atoi a < 10000"
| "opt_ok (MuxId n) \<longleftrightarrow> n < 10"
| "opt_ok (Pdn n) \<longleftrightarrow> n < 10"
| "opt_ok (HangUp n) \<longleftrightarrow> n < 10"
| "opt_ok (LogFile a) \<longleftrightarrow> plain a"
| "opt_ok (Interface a) \<longleftrightarrow> plain a \<and> length a < 32"
| "opt_ok _ \<longleftrightarrow> True"

fun meaning :: "cmd_opt \<Rightarrow> settings \<Rightarrow> settings" where
  "meaning (Credentials a u w x) (p, d) = (p\<lparr>apn := Some a, user := Some u, pd := Some w,
     auth := (case x of None \<Rightarrow> if w = [] then auth p else 2 | Some y \<Rightarrow> the (auth_of y))\<rparr>, d)"
| "meaning (Proxy a) (p, d) = (p\<lparr>proxy := a\<rparr>, d)"
| "meaning (PinCode a) (p, d) = (p\<lparr>pincode := Some a\<rparr>, d)"
| "meaning (MuxId n) (p, d) = (p\<lparr>muxid := int n + 0x80\<rparr>, d)"
| "meaning (Pdn n) (p, d) = (p\<lparr>pdp := int n\<rparr>, d)"
| "meaning (HangUp n) (p, d) = (p\<lparr>kill_pdp := int n\<rparr>, d)"
| "meaning (LogFile a) (p, d) = (p\<lparr>logfile := Some a\<rparr>, d)"
| "meaning (Interface a) (p, d) = (p\<lparr>expect_adapter := a\<rparr>, d)"
| "meaning Verbose (p, d) = (p, True)"
| "meaning IPv4 (p, d) = (p\<lparr>enable_ipv4 := True\<rparr>, d)"
| "meaning IPv6 (p, d) = (p\<lparr>enable_ipv6 := True\<rparr>, d)"
| "meaning NoDhcp (p, d) = (p\<lparr>no_dhcp := True\<rparr>, d)"
| "meaning Bridge (p, d) = (p\<lparr>enable_bridge := 1\<rparr>, d)"

definition default_family :: "settings \<Rightarrow> settings" where
  "default_family s = (case s of (p, d) \<Rightarrow>
     (if \<not> enable_ipv4 p \<and> \<not> enable_ipv6 p then p\<lparr>enable_ipv4 := True\<rparr> else p, d))"

section \<open>Lemmas\<close>

text \<open>What follows an option: nothing, or the next option.\<close>

definition at_option :: "string list \<Rightarrow> bool" where
  "at_option r \<longleftrightarrow> (case r of [] \<Rightarrow> True | a # _ \<Rightarrow> char0 a = CHR ''-'')"

lemma take_plain [simp]: "plain a \<Longrightarrow> take_arg (a # r) = Some (a, r)"
  by (simp add: take_arg_def plain_def)

lemma take_option [simp]: "at_option r \<Longrightarrow> take_arg r = None"
  by (auto simp: take_arg_def at_option_def split: list.splits)

lemma digit_arg:
  assumes "n < 10"
  shows "plain [digit_char n]" "digit0 [digit_char n] = int n"
proof -
  have c: "of_char (digit_char n) = 48 + n" using assms by (simp add: digit_char_def)
  then show "digit0 [digit_char n] = int n" by (simp add: digit0_def char0_def)
  have "digit_char n \<noteq> CHR ''-''"
  proof
    assume "digit_char n = CHR ''-''"
    then have "(of_char (digit_char n) :: nat) = 45" by simp
    then show False using c by simp
  qed
  then show "plain [digit_char n]" by (simp add: plain_def char0_def)
qed

lemma proxies_plain: "a \<in> set proxies \<Longrightarrow> plain a \<and> length a \<le> 31"
  by (auto simp: proxies_def plain_def char0_def QUECTEL_QMI_PROXY_def QUECTEL_MBIM_PROXY_def
      LIBQMI_PROXY_def LIBMBIM_PROXY_def QUECTEL_ATC_PROXY_def)

lemma option_letter [simp]: "char0 (CHR ''-'' # c # s) = CHR ''-''" "char0 [c] = c" "char0 (c # s) = c"
  by (simp_all add: char0_def)

lemma parse_one:
  assumes "opt_ok x" "at_option r"
  shows "parse_loop (render x @ r) s = parse_loop r (meaning x s)"
proof -
  obtain p d where s: "s = (p, d)" by fastforce
  show ?thesis
  proof (cases x)
    case (Credentials a u w x)
    show ?thesis
    proof (cases x)
      case None
      then show ?thesis using assms s Credentials
        by (auto simp: parse_option_def opt_s_def Let_def)
    next
      case (Some y)
      then show ?thesis using assms s Credentials
        by (auto simp: parse_option_def opt_s_def Let_def)
    qed
  next
    case (Proxy a)
    then show ?thesis using assms s proxies_plain [of a]
      by (simp add: parse_option_def opt_p_def proxies_def)
  next
    case (PinCode a)
    then show ?thesis using assms s by (simp add: parse_option_def opt_p_def proxies_def)
  qed (use assms s digit_arg in \<open>simp_all add: parse_option_def opt_arg_def\<close>)
qed

lemma render_at_option: "at_option (concat (map render os))"
proof (cases os)
  case (Cons x xs)
  then show ?thesis by (cases x) (simp_all add: at_option_def)
qed (simp add: at_option_def)

lemma parse_all: "\<forall>x\<in>set os. opt_ok x \<Longrightarrow> parse_loop (concat (map render os)) s = Some (fold meaning os s)"
  by (induction os arbitrary: s) (simp_all add: parse_one render_at_option)

section \<open>The property\<close>

text \<open>
  Property C34 (roundtrip): the command line means its options, in order. Printing any
  sequence of well-formed options as arguments and parsing them gives the settings that
  the options describe one after the other, a later one overriding an earlier one, with
  IPv4 when no family was chosen; no argument of one option is taken for another option.
\<close>

theorem command_line_means_options:
  assumes "\<forall>x\<in>set os. opt_ok x" "concat (map render os) = [] \<or> last (concat (map render os)) \<noteq> ''&''"
  shows "parse_user_input (concat (map render os)) p =
    Some (default_family (fold meaning os
      (p\<lparr>pdp := CONFIG_DEFAULT_PDP, profile_index := CONFIG_DEFAULT_PDP\<rparr>, False)))"
proof -
  have "\<not> (concat (map render os) \<noteq> [] \<and> last (concat (map render os)) = ''&'')" using assms(2) by blast
  then show ?thesis
    by (simp only: parse_user_input_def Let_def if_False parse_all [OF assms(1)] bind.simps)
      (simp add: default_family_def split: prod.split)
qed

lemma command_line_means_options_witness:
  "\<forall>p. parse_user_input [''-s'', ''internet'', ''carl'', ''1234'', ''-6'', ''-n'', ''2''] p =
     Some (p\<lparr>pdp := 2, profile_index := 1, apn := Some ''internet'', user := Some ''carl'', pd := Some ''1234'',
       auth := 2, enable_ipv6 := True\<rparr>, False)"
proof
  fix p
  let ?os = "[Credentials ''internet'' ''carl'' ''1234'' None, IPv6, Pdn 2]"
  have d: "digit_char 2 = CHR ''2''" by code_simp
  have "\<forall>x\<in>set ?os. opt_ok x" by (simp add: plain_def char0_def)
  moreover have "last (concat (map render ?os)) \<noteq> ''&''" by (simp add: d)
  ultimately show "parse_user_input [''-s'', ''internet'', ''carl'', ''1234'', ''-6'', ''-n'', ''2''] p =
     Some (p\<lparr>pdp := 2, profile_index := 1, apn := Some ''internet'', user := Some ''carl'', pd := Some ''1234'',
       auth := 2, enable_ipv6 := True\<rparr>, False)"
    using command_line_means_options [of ?os p] by (simp add: d default_family_def CONFIG_DEFAULT_PDP_def)
qed

text \<open>A PIN with a leading zero has a value below 1000 and is refused.\<close>

lemma pin_with_leading_zero_refused: "parse_user_input [''-p'', ''0123''] p = None"
proof -
  have "atoi ''0123'' = 123" by code_simp
  moreover have "''0123'' \<notin> set [QUECTEL_QMI_PROXY, QUECTEL_MBIM_PROXY, LIBQMI_PROXY, LIBMBIM_PROXY, QUECTEL_ATC_PROXY]"
    by (simp add: QUECTEL_QMI_PROXY_def QUECTEL_MBIM_PROXY_def LIBQMI_PROXY_def LIBMBIM_PROXY_def QUECTEL_ATC_PROXY_def)
  ultimately show ?thesis
    by (simp add: parse_user_input_def parse_option_def opt_p_def take_arg_def char0_def)
qed

end
