(* ===== verification/QmiProxy.thy ===== *)
theory QmiProxy
  imports QmiWwan
begin

text \<open>
  The QMI proxy (\<open>quectel-qmi-proxy.c\<close>): one process opens the cdc-wdm device and lets
  several clients share it over a local socket. Control requests of all clients are queued
  and sent to the modem one at a time; messages of a service are forwarded to the
  connections that own a client identifier of that service.

  The linked lists of the code are lists in the order of the links. \<open>qmi_buf\<close> keeps the
  stale bytes behind a short message, as the static buffer does; a queued request is a copy
  of exactly its size, so reading behind it is \<open>None\<close>. The answers of \<open>poll\<close> and \<open>write\<close>
  to the successive sends are the field \<open>io_ret\<close>; every send is recorded in \<open>sends\<close> with
  the bytes it writes and whether the descriptor was writable. Allocations succeed.
\<close>

section \<open>State\<close>

record proxy_client =
  QMIType :: byte
  ClientId :: byte
  AccessTime :: u32

record proxy_connection =
  ClientFd :: int
  client_qnode :: "proxy_client list"
  con_AccessTime :: u32

record proxy_msg =
  msg_ClientFd :: int
  qmi :: "byte list"

datatype dest = ToDevice | ToClient int

record proxy =
  cdc_fd :: int
  qmi_proxy_server_fd :: int
  qmi_proxy_connection :: "proxy_connection list"
  qmi_proxy_ctl_msg :: "proxy_msg list"
  qmi_proxy_quit :: bool
  modem_reset_flag :: bool
  qmi_sync_done :: bool
  qmi_buf :: "byte list"
  closed_fds :: "int list"
  sends :: "(dest \<times> byte list \<times> bool) list"
  io_ret :: "nat \<Rightarrow> bool \<times> int"

definition QMI_BUF :: nat where "QMI_BUF = 4096"

section \<open>Sending\<close>

text \<open>The common text of the two senders: \<open>poll\<close> for \<open>POLLOUT\<close>, then one \<open>write\<close>.\<close>

definition send_qmi :: "dest \<Rightarrow> byte list \<Rightarrow> proxy \<Rightarrow> (int \<times> proxy) option" where
  "send_qmi d pQMI p = do {
     len \<leftarrow> rd16 pQMI 1;
     let size = unat len + 1;
     let (pollout, ret) = io_ret p (length (sends p));
     if pollout \<and> length pQMI < size then None
     else Some (ret, p\<lparr>sends := sends p @ [(d, take size pQMI, pollout)]\<rparr>) }"

definition send_qmi_to_cdc_wdm :: "byte list \<Rightarrow> proxy \<Rightarrow> (int \<times> proxy) option" where
  "send_qmi_to_cdc_wdm pQMI p = send_qmi ToDevice pQMI p"

definition send_qmi_to_client :: "byte list \<Rightarrow> int \<Rightarrow> proxy \<Rightarrow> (int \<times> proxy) option" where
  "send_qmi_to_client pQMI fd p = send_qmi (ToClient fd) pQMI p"

text \<open>The tail shared by requests: sent at once when nothing is in flight, queued always.\<close>

definition queue_ctl :: "byte list \<Rightarrow> proxy_msg \<Rightarrow> proxy \<Rightarrow> proxy option" where
  "queue_ctl pQMI m p = do {
     p \<leftarrow> (if qmi_proxy_ctl_msg p = [] then map_option snd (send_qmi_to_cdc_wdm pQMI p) else Some p);
     Some (p\<lparr>qmi_proxy_ctl_msg := qmi_proxy_ctl_msg p @ [m]\<rparr>) }"

section \<open>Connections\<close>

definition accept_qmi_connection :: "int \<Rightarrow> proxy \<Rightarrow> proxy" where
  "accept_qmi_connection clientfd p =
     p\<lparr>qmi_proxy_connection := qmi_proxy_connection p @
        [\<lparr>ClientFd = clientfd, client_qnode = [], con_AccessTime = 0\<rparr>]\<rparr>"

fun remove_first :: "('a \<Rightarrow> bool) \<Rightarrow> 'a list \<Rightarrow> 'a list" where
  "remove_first P [] = []"
| "remove_first P (x # xs) = (if P x then xs else x # remove_first P xs)"

definition release_req :: "proxy_client \<Rightarrow> byte list" where
  "release_req c = [0x01] @ le16 16 @ [0x00, QMUX_TYPE_CTL, 0x00] @ [0x00, 255] @ le16 0x0023 @ le16 5
     @ [0x01] @ le16 2 @ [QMIType c, ClientId c]"

fun release_clients :: "proxy_client list \<Rightarrow> proxy \<Rightarrow> proxy option" where
  "release_clients [] p = Some p"
| "release_clients (c # cs) p = do {
     p \<leftarrow> queue_ctl (release_req c) \<lparr>msg_ClientFd = qmi_proxy_server_fd p, qmi = release_req c\<rparr> p;
     release_clients cs p }"

definition cleanup_qmi_connection :: "int \<Rightarrow> bool \<Rightarrow> proxy \<Rightarrow> proxy option" where
  "cleanup_qmi_connection clientfd clientDisconnect p =
     (case List.find (\<lambda>c. ClientFd c = clientfd) (qmi_proxy_connection p) of None \<Rightarrow> Some p
      | Some c \<Rightarrow> do {
          p \<leftarrow> (if clientDisconnect then release_clients (client_qnode c) p else Some p);
          let p = p\<lparr>qmi_proxy_ctl_msg := remove_first (\<lambda>m. msg_ClientFd m = clientfd) (qmi_proxy_ctl_msg p)\<rparr>;
          Some (p\<lparr>closed_fds := closed_fds p @ [clientfd],
             qmi_proxy_connection := remove_first (\<lambda>c. ClientFd c = clientfd) (qmi_proxy_connection p)\<rparr>) })"

section \<open>Messages from the modem\<close>

text \<open>The result of a control response: \<open>QMIResult\<close> and \<open>QMIError\<close> are both 0.\<close>

definition ctl_success :: "byte list \<Rightarrow> bool option" where
  "ctl_success pClient = do {
     res \<leftarrow> rd16 pClient 15;
     if res \<noteq> 0 then Some False else do { e \<leftarrow> rd16 pClient 17; Some (e = 0) } }"

definition get_client_id :: "byte list \<Rightarrow> proxy_connection \<Rightarrow> proxy_connection option" where
  "get_client_id pClient con = do {
     ok \<leftarrow> ctl_success pClient;
     if ok then do {
       t \<leftarrow> rd8 pClient 22; i \<leftarrow> rd8 pClient 23;
       Some (con\<lparr>client_qnode := client_qnode con @ [\<lparr>QMIType = t, ClientId = i, AccessTime = 0\<rparr>]\<rparr>) }
     else Some con }"

definition release_client_id :: "byte list \<Rightarrow> proxy_connection \<Rightarrow> proxy_connection option" where
  "release_client_id pClient con = do {
     ok \<leftarrow> ctl_success pClient;
     if ok \<and> client_qnode con \<noteq> [] then do {
       t \<leftarrow> rd8 pClient 22; i \<leftarrow> rd8 pClient 23;
       Some (con\<lparr>client_qnode := remove_first (\<lambda>c. QMIType c = t \<and> ClientId c = i) (client_qnode con)\<rparr>) }
     else Some con }"

definition QMICTL_GET_CLIENT_ID_RESP :: u16 where "QMICTL_GET_CLIENT_ID_RESP = 0x0022"
definition QMICTL_RELEASE_CLIENT_ID_RESP :: u16 where "QMICTL_RELEASE_CLIENT_ID_RESP = 0x0023"
definition QMICTL_REVOKE_CLIENT_ID_IND :: u16 where "QMICTL_REVOKE_CLIENT_ID_IND = 0x0024"
definition QMICTL_SYNC_REQ :: u16 where "QMICTL_SYNC_REQ = 0x0027"

text \<open>A control response for the connections of the client that sent the request.\<close>

fun ctl_to_client :: "byte list \<Rightarrow> int \<Rightarrow> proxy_connection list \<Rightarrow> proxy \<Rightarrow> (proxy_connection list \<times> proxy) option" where
  "ctl_to_client pQMI fd [] p = Some ([], p)"
| "ctl_to_client pQMI fd (con # cons) p =
     (if ClientFd con = fd then do {
        (_, p) \<leftarrow> send_qmi_to_client pQMI fd p;
        typ \<leftarrow> rd16 pQMI 8;
        con \<leftarrow> (if typ = QMICTL_GET_CLIENT_ID_RESP then get_client_id pQMI con
                else if typ = QMICTL_RELEASE_CLIENT_ID_RESP then release_client_id pQMI con
                else Some con);
        (cons, p) \<leftarrow> ctl_to_client pQMI fd cons p;
        Some (con # cons, p) }
      else do {
        (cons, p) \<leftarrow> ctl_to_client pQMI fd cons p;
        Some (con # cons, p) })"

text \<open>Transaction identifier and type of the response are those of the request in flight.\<close>

definition answers_head :: "byte list \<Rightarrow> byte list \<Rightarrow> bool option" where
  "answers_head req pQMI = do {
     t1 \<leftarrow> rd8 req 7; t2 \<leftarrow> rd8 pQMI 7;
     if t1 \<noteq> t2 then Some False else do { q1 \<leftarrow> rd16 req 8; q2 \<leftarrow> rd16 pQMI 8; Some (q1 = q2) } }"

definition recv_ctl_rsp :: "byte list \<Rightarrow> proxy \<Rightarrow> proxy option" where
  "recv_ctl_rsp pQMI p = (case qmi_proxy_ctl_msg p of [] \<Rightarrow> Some p
     | m # ms \<Rightarrow> do {
         same \<leftarrow> answers_head (qmi m) pQMI;
         p \<leftarrow> (if \<not> same \<or> msg_ClientFd m = qmi_proxy_server_fd p then Some p
               else do {
                 (cons, p) \<leftarrow> ctl_to_client pQMI (msg_ClientFd m) (qmi_proxy_connection p) p;
                 Some (p\<lparr>qmi_proxy_connection := cons\<rparr>) });
         let p = p\<lparr>qmi_proxy_ctl_msg := ms\<rparr>;
         (case ms of [] \<Rightarrow> Some p | m' # _ \<Rightarrow> map_option snd (send_qmi_to_cdc_wdm (qmi m') p)) })"

text \<open>A service message for the connections that own a matching client identifier.\<close>

definition owns :: "byte \<Rightarrow> byte \<Rightarrow> proxy_client \<Rightarrow> bool" where
  "owns t i c \<longleftrightarrow> t = QMIType c \<and> (i = 0 \<or> i = ClientId c)"

fun svc_to_clients :: "byte list \<Rightarrow> byte \<Rightarrow> byte \<Rightarrow> int \<Rightarrow> proxy_client list \<Rightarrow> proxy \<Rightarrow> proxy option" where
  "svc_to_clients pQMI t i fd [] p = Some p"
| "svc_to_clients pQMI t i fd (c # cs) p = do {
     p \<leftarrow> (if owns t i c then map_option snd (send_qmi_to_client pQMI fd p) else Some p);
     svc_to_clients pQMI t i fd cs p }"

fun svc_to_connections :: "byte list \<Rightarrow> byte \<Rightarrow> byte \<Rightarrow> proxy_connection list \<Rightarrow> proxy \<Rightarrow> proxy option" where
  "svc_to_connections pQMI t i [] p = Some p"
| "svc_to_connections pQMI t i (con # cons) p = do {
     p \<leftarrow> svc_to_clients pQMI t i (ClientFd con) (client_qnode con) p;
     svc_to_connections pQMI t i cons p }"

definition recv_qmi_from_dev :: "byte list \<Rightarrow> proxy \<Rightarrow> proxy option" where
  "recv_qmi_from_dev pQMI p =
     (if qmi_proxy_server_fd p = - 1 then Some (p\<lparr>qmi_sync_done := True\<rparr>)
      else do {
        typ \<leftarrow> rd8 pQMI 4;
        if typ = QMUX_TYPE_CTL then do {
          flags \<leftarrow> rd8 pQMI 6;
          if flags = 0x01 then recv_ctl_rsp pQMI p
          else if typ = 0x02 then do {
            t \<leftarrow> rd16 pQMI 8;
            Some (if t = QMICTL_REVOKE_CLIENT_ID_IND then p\<lparr>modem_reset_flag := True\<rparr> else p) }
          else Some p }
        else do {
          i \<leftarrow> rd8 pQMI 5;
          svc_to_connections pQMI typ i (qmi_proxy_connection p) p } })"

section \<open>Messages from a client\<close>

definition recv_qmi_from_client :: "byte list \<Rightarrow> nat \<Rightarrow> int \<Rightarrow> proxy \<Rightarrow> (int \<times> proxy) option" where
  "recv_qmi_from_client pQMI nreads clientfd p =
     (if qmi_proxy_server_fd p = - 1 then Some (- 1, p)
      else do {
        typ \<leftarrow> rd8 pQMI 4;
        if typ = QMUX_TYPE_CTL then do {
          t \<leftarrow> rd16 pQMI 8;
          if t = QMICTL_SYNC_REQ then Some (0, p)
          else do {
            p \<leftarrow> queue_ctl pQMI \<lparr>msg_ClientFd = clientfd, qmi = take nreads pQMI\<rparr> p;
            Some (0, p) } }
        else do {
          (_, p) \<leftarrow> send_qmi_to_cdc_wdm pQMI p;
          Some (0, p) } })"

section \<open>The loop\<close>

text \<open>
  One round polls the device, the server socket and the connections, at most 66
  descriptors. What happened to each is an event: nothing, an error or hang-up, or data. A
  readable server accepts the connection \<open>acc\<close>; any other descriptor reads \<open>data\<close>, where
  an empty read stands for a failed one.
\<close>

datatype fd_event = Quiet | Failed | Readable int "byte list"

definition pollfds :: "proxy \<Rightarrow> int list" where
  "pollfds p = take (2 + 64) (cdc_fd p #
     (if 0 < qmi_proxy_server_fd p then [qmi_proxy_server_fd p] else []) @
     map ClientFd (qmi_proxy_connection p))"

datatype after = Continue | Break | Exit

text \<open>The read into \<open>qmi_buf\<close> leaves what the previous message wrote behind it.\<close>

definition read_qmi :: "byte list \<Rightarrow> proxy \<Rightarrow> proxy" where
  "read_qmi data p = p\<lparr>qmi_buf := data @ drop (length data) (qmi_buf p)\<rparr>"

definition serve_device :: "byte list \<Rightarrow> proxy \<Rightarrow> (after \<times> proxy) option" where
  "serve_device data p =
     (if data = [] then Some (Exit, p)
      else let p = read_qmi data p in do {
        len \<leftarrow> rd16 (qmi_buf p) 1;
        if length data \<noteq> unat len + 1 then Some (Continue, p)
        else do {
          p \<leftarrow> recv_qmi_from_dev (qmi_buf p) p;
          Some (if modem_reset_flag p then Exit else Continue, p) } })"

definition serve_client :: "int \<Rightarrow> byte list \<Rightarrow> proxy \<Rightarrow> (after \<times> proxy) option" where
  "serve_client fd data p =
     (if data = [] then do { p \<leftarrow> cleanup_qmi_connection fd True p; Some (Break, p) }
      else let p = read_qmi data p in do {
        len \<leftarrow> rd16 (qmi_buf p) 1;
        if length data \<noteq> unat len + 1 then Some (Continue, p)
        else do {
          (_, p) \<leftarrow> recv_qmi_from_client (qmi_buf p) (length data) fd p;
          Some (Continue, p) } })"

definition serve_pollfd :: "int \<Rightarrow> fd_event \<Rightarrow> proxy \<Rightarrow> (after \<times> proxy) option" where
  "serve_pollfd fd ev p = (case ev of
       Quiet \<Rightarrow> Some (Continue, p)
     | Failed \<Rightarrow> if fd = cdc_fd p then Some (Exit, p)
         else if fd = qmi_proxy_server_fd p then Some (Continue, p)
         else do { p \<leftarrow> cleanup_qmi_connection fd True p; Some (Continue, p) }
     | Readable acc data \<Rightarrow>
         if fd = qmi_proxy_server_fd p then Some (Continue, accept_qmi_connection acc p)
         else if fd = cdc_fd p then serve_device data p
         else serve_client fd data p)"

fun serve_pollfds :: "(int \<times> fd_event) list \<Rightarrow> proxy \<Rightarrow> (bool \<times> proxy) option" where
  "serve_pollfds [] p = Some (True, p)"
| "serve_pollfds ((fd, ev) # es) p = do {
     (a, p) \<leftarrow> serve_pollfd fd ev p;
     (case a of Continue \<Rightarrow> serve_pollfds es p | Break \<Rightarrow> Some (True, p) | Exit \<Rightarrow> Some (False, p)) }"

text \<open>
  A round with the events of its descriptors in their order (those without one are quiet),
  or with a failed \<open>poll\<close>. The result says whether the loop goes on.
\<close>

definition poll_round :: "fd_event list option \<Rightarrow> proxy \<Rightarrow> (bool \<times> proxy) option" where
  "poll_round evs p = (case evs of None \<Rightarrow> Some (False, p)
     | Some evs \<Rightarrow> serve_pollfds (zip (pollfds p) evs) p)"

text \<open>Leaving the loop closes every connection without releasing its clients.\<close>

lemma remove_first_shorter: "\<exists>x \<in> set xs. P x \<Longrightarrow> length (remove_first P xs) < length xs"
  by (induction xs) auto

function close_connections :: "proxy \<Rightarrow> proxy option" where
  "close_connections p = (case qmi_proxy_connection p of [] \<Rightarrow> Some p
     | c # _ \<Rightarrow> (case cleanup_qmi_connection (ClientFd c) False p of
         None \<Rightarrow> None | Some p' \<Rightarrow> close_connections p'))"
  by pat_completeness auto
termination
  by (relation "measure (\<lambda>p. length (qmi_proxy_connection p))")
    (auto simp: cleanup_qmi_connection_def split: list.splits)

declare close_connections.simps [simp del]

text \<open>The loop from its start until it ends or the rounds are used up.\<close>

fun proxy_rounds :: "fd_event list option list \<Rightarrow> proxy \<Rightarrow> (bool \<times> proxy) option" where
  "proxy_rounds [] p = Some (True, p)"
| "proxy_rounds (r # rs) p =
     (if cdc_fd p \<le> 0 \<or> qmi_proxy_quit p then Some (False, p)
      else do {
        (go, p) \<leftarrow> poll_round r p;
        if go then proxy_rounds rs p else Some (False, p) })"

section \<open>Starting\<close>

definition sync_req :: "byte \<Rightarrow> byte list" where
  "sync_req tid = [0x01] @ le16 (0 + 6 + 6 - 1) @ [0x00, QMUX_TYPE_CTL, 0x00] @ [0x00, tid] @ le16 QMICTL_SYNC_REQ @ le16 0"

text \<open>
  The start runs beside the loop: what the loop does during the second after a
  synchronisation request is one list of rounds, of which nothing happens once the loop
  has ended. \<open>i\<close> counts the requests already sent.
\<close>

fun sync_attempts :: "nat \<Rightarrow> nat \<Rightarrow> fd_event list option list list \<Rightarrow> bool \<Rightarrow> proxy \<Rightarrow> (bool \<times> proxy) option" where
  "sync_attempts i 0 w alive p = Some (alive, p)"
| "sync_attempts i (Suc n) w alive p = do {
     (ret, p) \<leftarrow> send_qmi_to_cdc_wdm (sync_req (of_nat (i + 1))) p;
     if ret \<le> 0 then Some (alive, p)
     else (case w of [] \<Rightarrow> None
       | rs # w \<Rightarrow> do {
           (alive, p) \<leftarrow> (if alive then proxy_rounds rs p else Some (False, p));
           if qmi_sync_done p then Some (alive, p) else sync_attempts (i + 1) n w alive p }) }"

definition qmi_proxy_init :: "nat \<Rightarrow> fd_event list option list list \<Rightarrow> proxy \<Rightarrow> (int \<times> bool \<times> proxy) option" where
  "qmi_proxy_init retry w p = do {
     (alive, p) \<leftarrow> sync_attempts 0 retry w True (p\<lparr>qmi_sync_done := False\<rparr>);
     Some (if qmi_sync_done p then 0 else - 1, alive, p) }"

text \<open>
  One turn of \<open>main\<close> for an opened device: the loop starts with empty lists, the modem is
  synchronised, the server is created (\<open>server\<close> is its descriptor or -1) and the loop
  serves its clients until it ends (\<open>rs\<close> are its rounds up to then); without a server it
  is cancelled. The result is the
  pause in seconds before the next turn, if there is one.
\<close>

definition proxy_session ::
  "int \<Rightarrow> fd_event list option list list \<Rightarrow> int \<Rightarrow> fd_event list option list \<Rightarrow> proxy \<Rightarrow> (nat option \<times> proxy) option" where
  "proxy_session cdc w server rs p = do {
     (e, alive, p) \<leftarrow> qmi_proxy_init 60 w (p\<lparr>cdc_fd := cdc, qmi_proxy_connection := [], qmi_proxy_ctl_msg := []\<rparr>);
     p \<leftarrow> (if e = 0 then let p = p\<lparr>qmi_proxy_server_fd := server\<rparr> in
              if server = - 1 \<or> \<not> alive then Some p
              else do { (go, p) \<leftarrow> proxy_rounds rs p; if go then None else close_connections p }
           else Some p);
     let nap = (if qmi_proxy_quit p then None else Some (if modem_reset_flag p then 30 else 3));
     Some (nap, p\<lparr>qmi_proxy_server_fd := - 1, cdc_fd := - 1, modem_reset_flag := False\<rparr>) }"

end
