(* ===== verification/QmiProxySpec.thy ===== *)
theory QmiProxySpec
  imports QmiProxy
begin

text \<open>
  What the QMI proxy promises: an abstract server that hands the control requests of all
  clients to the modem one at a time and in order, refined by the event handlers of
  \<open>QmiProxy\<close>; well-formedness of the proxy's state, under which no handler reads outside a
  message; who receives a message of the modem; and what happens when a client leaves.
\<close>

section \<open>What a step sends\<close>

definition msg_of :: "byte list \<Rightarrow> byte list" where
  "msg_of b = take (unat (the (rd16 b 1)) + 1) b"

definition out :: "(dest \<times> byte list \<times> bool) list \<Rightarrow> (dest \<times> byte list) list" where
  "out S = map (\<lambda>(d, b, _). (d, b)) S"

lemma out_simps [simp]: "out [] = []" "out (S @ T) = out S @ out T" "out [(d, b, k)] = [(d, b)]"
  by (simp_all add: out_def)

text \<open>A message whose announced length is there to be written.\<close>

definition whole :: "byte list \<Rightarrow> bool" where
  "whole b \<longleftrightarrow> (\<exists>len. rd16 b 1 = Some len \<and> unat len < length b)"

lemma send_qmi_emits:
  "send_qmi d b p = Some (r, p') \<Longrightarrow>
     p' = p\<lparr>sends := sends p @ [(d, msg_of b, fst (io_ret p (length (sends p))))]\<rparr>"
  by (cases "io_ret p (length (sends p))")
    (auto simp: send_qmi_def msg_of_def bind_eq_Some_conv Let_def split: if_splits)

lemma send_qmi_total: "whole b \<Longrightarrow> \<exists>r k. send_qmi d b p = Some (r, p\<lparr>sends := sends p @ [(d, msg_of b, k)]\<rparr>)"
  by (cases "io_ret p (length (sends p))") (auto simp: whole_def send_qmi_def msg_of_def)

text \<open>
  Whether a message is written at all is up to \<open>poll\<close>: no descriptor ever blocks, and all sends
  so far have been written.
\<close>

definition writable :: "proxy \<Rightarrow> bool" where
  "writable p \<longleftrightarrow> (\<forall>k. fst (io_ret p k))"

definition all_written :: "(dest \<times> byte list \<times> bool) list \<Rightarrow> bool" where
  "all_written S \<longleftrightarrow> (\<forall>x\<in>set S. snd (snd x))"

lemma all_written_simps [simp]:
  "all_written []" "all_written (S @ T) \<longleftrightarrow> all_written S \<and> all_written T" "all_written [(d, b, k)] = k"
  by (auto simp: all_written_def)

text \<open>\<open>p'\<close> is \<open>p\<close> after sending \<open>L\<close>.\<close>

definition emits :: "(dest \<times> byte list) list \<Rightarrow> proxy \<Rightarrow> proxy \<Rightarrow> bool" where
  "emits L p p' \<longleftrightarrow> (\<exists>S. p' = p\<lparr>sends := sends p @ S\<rparr> \<and> out S = L \<and> (writable p \<longrightarrow> all_written S))"

lemma emits_nil [simp]: "emits [] p p"
  by (auto simp: emits_def intro!: exI [of _ "[]"])

lemma emits_trans:
  assumes "emits L p q" "emits M q r"
  shows "emits (L @ M) p r"
proof -
  obtain S T where S: "q = p\<lparr>sends := sends p @ S\<rparr>" "out S = L" "writable p \<longrightarrow> all_written S"
    and T: "r = q\<lparr>sends := sends q @ T\<rparr>" "out T = M" "writable q \<longrightarrow> all_written T"
    using assms unfolding emits_def by blast
  then show ?thesis unfolding emits_def by (intro exI [of _ "S @ T"]) (simp add: writable_def)
qed

lemma emits_device: "send_qmi_to_cdc_wdm b p = Some (r, p') \<Longrightarrow> emits [(ToDevice, msg_of b)] p p'"
  unfolding send_qmi_to_cdc_wdm_def emits_def by (drule send_qmi_emits) (force simp: writable_def)

lemma emits_client: "send_qmi_to_client b fd p = Some (r, p') \<Longrightarrow> emits [(ToClient fd, msg_of b)] p p'"
  unfolding send_qmi_to_client_def emits_def by (drule send_qmi_emits) (force simp: writable_def)

lemma emits_fields:
  assumes "emits L p p'"
  shows "qmi_proxy_connection p' = qmi_proxy_connection p" "qmi_proxy_ctl_msg p' = qmi_proxy_ctl_msg p"
    "qmi_proxy_server_fd p' = qmi_proxy_server_fd p" "cdc_fd p' = cdc_fd p" "qmi_buf p' = qmi_buf p"
    "modem_reset_flag p' = modem_reset_flag p" "closed_fds p' = closed_fds p"
    "out (sends p') = out (sends p) @ L" "io_ret p' = io_ret p"
    "qmi_proxy_quit p' = qmi_proxy_quit p" "writable p \<Longrightarrow> all_written (sends p) \<Longrightarrow> all_written (sends p')"
  using assms by (auto simp: emits_def)

section \<open>Service messages\<close>

lemma svc_to_clients_emits:
  "svc_to_clients b t i fd cs p = Some p' \<Longrightarrow>
     emits (map (\<lambda>_. (ToClient fd, msg_of b)) (filter (owns t i) cs)) p p'"
proof (induction cs arbitrary: p)
  case (Cons c cs)
  then obtain q where q: "(if owns t i c then map_option snd (send_qmi_to_client b fd p) else Some p) = Some q"
    and rest: "svc_to_clients b t i fd cs q = Some p'"
    by (auto simp: bind_eq_Some_conv)
  have "emits (if owns t i c then [(ToClient fd, msg_of b)] else []) p q"
    using q by (auto split: if_splits intro: emits_client)
  from emits_trans [OF this Cons.IH [OF rest]] show ?case by (auto split: if_splits)
qed simp

definition receivers :: "byte \<Rightarrow> byte \<Rightarrow> proxy_connection list \<Rightarrow> int list" where
  "receivers t i cons = concat (map (\<lambda>con. map (\<lambda>_. ClientFd con) (filter (owns t i) (client_qnode con))) cons)"

lemma svc_to_connections_emits:
  "svc_to_connections b t i cons p = Some p' \<Longrightarrow>
     emits (map (\<lambda>fd. (ToClient fd, msg_of b)) (receivers t i cons)) p p'"
proof (induction cons arbitrary: p)
  case (Cons con cons)
  then obtain q where q: "svc_to_clients b t i (ClientFd con) (client_qnode con) p = Some q"
    and rest: "svc_to_connections b t i cons q = Some p'"
    by (auto simp: bind_eq_Some_conv)
  from emits_trans [OF svc_to_clients_emits [OF q] Cons.IH [OF rest]]
  show ?case by (simp add: receivers_def comp_def)
qed (simp add: receivers_def)

section \<open>Control messages\<close>

lemma ctl_to_client_emits:
  "ctl_to_client b fd cons p = Some (cons', p') \<Longrightarrow>
     emits (map (\<lambda>_. (ToClient fd, msg_of b)) (filter (\<lambda>c. ClientFd c = fd) cons)) p p' \<and>
     map ClientFd cons' = map ClientFd cons"
proof (induction cons arbitrary: p cons')
  case (Cons con cons)
  show ?case
  proof (cases "ClientFd con = fd")
    case True
    with Cons.prems obtain r q ty con1 cons1 where
      q: "send_qmi_to_client b fd p = Some (r, q)" and
      con1: "(if ty = QMICTL_GET_CLIENT_ID_RESP then get_client_id b con
              else if ty = QMICTL_RELEASE_CLIENT_ID_RESP then release_client_id b con
              else Some con) = Some con1" and
      rest: "ctl_to_client b fd cons q = Some (cons1, p')" and eq: "cons' = con1 # cons1"
      by (auto simp: bind_eq_Some_conv split: prod.splits)
    have "ClientFd con1 = ClientFd con"
      using con1 by (auto simp: get_client_id_def release_client_id_def bind_eq_Some_conv split: if_splits)
    with emits_trans [OF emits_client [OF q]] Cons.IH [OF rest] True eq show ?thesis by force
  next
    case False
    with Cons.prems obtain cons1 where "ctl_to_client b fd cons p = Some (cons1, p')" "cons' = con # cons1"
      by (auto simp: bind_eq_Some_conv split: prod.splits)
    with Cons.IH [of p cons1] False show ?thesis by simp
  qed
qed simp


section \<open>The abstract server of control requests\<close>

text \<open>
  The contract of the control channel: requests wait in order, the first of them is with
  the modem, the next is issued when the modem has answered. A client that leaves cancels
  its first waiting request.
\<close>

record ctl_server =
  waiting :: "proxy_msg list"
  issued :: "byte list list"

datatype ctl_op = Request proxy_msg | Answer | Cancel int

fun ctl_step :: "ctl_op \<Rightarrow> ctl_server \<Rightarrow> ctl_server" where
  "ctl_step (Request m) s =
     s\<lparr>waiting := waiting s @ [m], issued := issued s @ (if waiting s = [] then [qmi m] else [])\<rparr>"
| "ctl_step Answer s = s\<lparr>waiting := tl (waiting s), issued := issued s @ map qmi (take 1 (tl (waiting s)))\<rparr>"
| "ctl_step (Cancel fd) s = s\<lparr>waiting := remove_first (\<lambda>m. msg_ClientFd m = fd) (waiting s)\<rparr>"

definition is_ctl :: "byte list \<Rightarrow> bool" where
  "is_ctl b \<longleftrightarrow> rd8 b 4 = Some QMUX_TYPE_CTL"

definition ctl_issued :: "(dest \<times> byte list) list \<Rightarrow> byte list list" where
  "ctl_issued S = map snd (filter (\<lambda>(d, b). d = ToDevice \<and> is_ctl b) S)"

lemma ctl_issued_simps [simp]:
  "ctl_issued [] = []" "ctl_issued (S @ T) = ctl_issued S @ ctl_issued T"
  "ctl_issued [(ToDevice, b)] = (if is_ctl b then [b] else [])"
  "ctl_issued (map (\<lambda>x. (ToClient (f x), b)) xs) = []"
  by (auto simp: ctl_issued_def filter_empty_conv)

definition abs_ctl :: "proxy \<Rightarrow> ctl_server" where
  "abs_ctl p = \<lparr>waiting = qmi_proxy_ctl_msg p, issued = ctl_issued (out (sends p))\<rparr>"

lemma abs_ctl_sel [simp]:
  "waiting (abs_ctl p) = qmi_proxy_ctl_msg p" "issued (abs_ctl p) = ctl_issued (out (sends p))"
  by (simp_all add: abs_ctl_def)

lemma abs_ctl_eq:
  "abs_ctl p = s \<longleftrightarrow> qmi_proxy_ctl_msg p = waiting s \<and> ctl_issued (out (sends p)) = issued s"
  by (auto simp: abs_ctl_def)

section \<open>Well-formed states\<close>

text \<open>A queued request is a complete control message; the receive buffer keeps its size.\<close>

definition msg_wf :: "proxy_msg \<Rightarrow> bool" where
  "msg_wf m \<longleftrightarrow> whole (qmi m) \<and> msg_of (qmi m) = qmi m \<and> is_ctl (qmi m) \<and> 12 \<le> length (qmi m)"

definition proxy_wf :: "proxy \<Rightarrow> bool" where
  "proxy_wf p \<longleftrightarrow> length (qmi_buf p) = QMI_BUF \<and> (\<forall>m\<in>set (qmi_proxy_ctl_msg p). msg_wf m)"

text \<open>What a read returns: nothing, or a message with at least its two headers.\<close>

fun ev_ok :: "fd_event \<Rightarrow> bool" where
  "ev_ok (Readable acc data) \<longleftrightarrow> data = [] \<or> 12 \<le> length data \<and> length data \<le> QMI_BUF"
| "ev_ok _ \<longleftrightarrow> True"

text \<open>The parts of the state that no handler of a message or a departure changes.\<close>

definition same_fds :: "proxy \<Rightarrow> proxy \<Rightarrow> bool" where
  "same_fds p p' \<longleftrightarrow> qmi_proxy_server_fd p' = qmi_proxy_server_fd p \<and> cdc_fd p' = cdc_fd p \<and>
     modem_reset_flag p' = modem_reset_flag p \<and> length (qmi_buf p') = length (qmi_buf p) \<and>
     qmi_proxy_quit p' = qmi_proxy_quit p \<and> io_ret p' = io_ret p \<and> (writable p \<longrightarrow> all_written (sends p) \<longrightarrow> all_written (sends p'))"

lemma same_fds_refl [simp]: "same_fds p p"
  by (simp add: same_fds_def)

lemma same_fds_trans: "same_fds p q \<Longrightarrow> same_fds q r \<Longrightarrow> same_fds p r"
  by (simp add: same_fds_def writable_def)

lemma emits_same: "emits L p p' \<Longrightarrow> same_fds p p'"
  by (simp add: same_fds_def emits_fields)

lemma same_fds_upd [simp]:
  "same_fds p (p'\<lparr>qmi_proxy_ctl_msg := q\<rparr>) = same_fds p p'" "same_fds p (p'\<lparr>qmi_proxy_connection := c\<rparr>) = same_fds p p'"
  "same_fds p (p'\<lparr>closed_fds := x\<rparr>) = same_fds p p'"
  by (simp_all add: same_fds_def)

section \<open>The handlers implement the abstract server\<close>

lemma queue_ctl_refines:
  assumes q: "queue_ctl b m p = Some p'" and m: "msg_wf m" and b: "msg_of b = qmi m"
  shows "abs_ctl p' = ctl_step (Request m) (abs_ctl p) \<and> same_fds p p' \<and>
    qmi_proxy_connection p' = qmi_proxy_connection p"
proof -
  obtain p1 where p1: "(if qmi_proxy_ctl_msg p = [] then map_option snd (send_qmi_to_cdc_wdm b p) else Some p) = Some p1"
    and p': "p' = p1\<lparr>qmi_proxy_ctl_msg := qmi_proxy_ctl_msg p1 @ [m]\<rparr>"
    using q by (auto simp: queue_ctl_def bind_eq_Some_conv)
  have "emits (if qmi_proxy_ctl_msg p = [] then [(ToDevice, qmi m)] else []) p p1"
    using p1 b by (auto split: if_splits dest: emits_device)
  from emits_fields [OF this] emits_same [OF this] m p' show ?thesis
    by (auto simp: abs_ctl_eq msg_wf_def)
qed

lemma rd_release_req: "rd16 (release_req c) 1 = Some 16" "rd8 (release_req c) 4 = Some QMUX_TYPE_CTL"
  "length (release_req c) = 17"
  by (simp_all add: release_req_def rd16_def rd8_def le16_def of_le16_def)

lemma release_wf: "msg_wf \<lparr>msg_ClientFd = fd, qmi = release_req c\<rparr>"
  using rd_release_req [of c] by (simp add: msg_wf_def whole_def msg_of_def is_ctl_def)

definition releases :: "int \<Rightarrow> proxy_client list \<Rightarrow> ctl_op list" where
  "releases fd cs = map (\<lambda>c. Request \<lparr>msg_ClientFd = fd, qmi = release_req c\<rparr>) cs"

lemma release_clients_refines:
  "release_clients cs p = Some p' \<Longrightarrow>
     abs_ctl p' = fold ctl_step (releases (qmi_proxy_server_fd p) cs) (abs_ctl p) \<and> same_fds p p' \<and>
     qmi_proxy_connection p' = qmi_proxy_connection p"
proof (induction cs arbitrary: p)
  case (Cons c cs)
  then obtain q where q: "queue_ctl (release_req c) \<lparr>msg_ClientFd = qmi_proxy_server_fd p, qmi = release_req c\<rparr> p = Some q"
    and rest: "release_clients cs q = Some p'"
    by (auto simp: bind_eq_Some_conv)
  have "msg_of (release_req c) = release_req c"
    using release_wf [of _ c] by (simp add: msg_wf_def)
  from queue_ctl_refines [OF q release_wf] this Cons.IH [OF rest] show ?case
    by (auto simp: releases_def same_fds_def writable_def)
qed (simp add: releases_def)

lemma remove_first_id: "\<forall>x\<in>set xs. \<not> P x \<Longrightarrow> remove_first P xs = xs"
  by (induction xs) auto

lemma remove_first_subset: "set (remove_first P xs) \<subseteq> set xs"
  by (induction xs) auto

definition leave_ops :: "int \<Rightarrow> proxy \<Rightarrow> ctl_op list" where
  "leave_ops fd p = (case List.find (\<lambda>c. ClientFd c = fd) (qmi_proxy_connection p) of None \<Rightarrow> []
     | Some c \<Rightarrow> releases (qmi_proxy_server_fd p) (client_qnode c) @ [Cancel fd])"

lemma cleanup_refines:
  assumes "cleanup_qmi_connection fd True p = Some p'"
  shows "abs_ctl p' = fold ctl_step (leave_ops fd p) (abs_ctl p) \<and> same_fds p p' \<and>
    qmi_proxy_connection p' = remove_first (\<lambda>c. ClientFd c = fd) (qmi_proxy_connection p)"
proof (cases "List.find (\<lambda>c. ClientFd c = fd) (qmi_proxy_connection p)")
  case None
  then have "\<forall>c\<in>set (qmi_proxy_connection p). ClientFd c \<noteq> fd"
    by (auto simp: find_None_iff)
  with None assms show ?thesis
    by (auto simp: cleanup_qmi_connection_def leave_ops_def remove_first_id)
next
  case (Some c)
  with assms obtain q where q: "release_clients (client_qnode c) p = Some q" and
    p': "p' = q\<lparr>qmi_proxy_ctl_msg := remove_first (\<lambda>m. msg_ClientFd m = fd) (qmi_proxy_ctl_msg q),
      closed_fds := closed_fds q @ [fd],
      qmi_proxy_connection := remove_first (\<lambda>c. ClientFd c = fd) (qmi_proxy_connection q)\<rparr>"
    by (auto simp: cleanup_qmi_connection_def bind_eq_Some_conv Let_def)
  from release_clients_refines [OF q] p' Some show ?thesis
    by (auto simp: leave_ops_def abs_ctl_eq)
qed

lemma whole_msg: "msg_wf m \<Longrightarrow> msg_of (qmi m) = qmi m \<and> is_ctl (qmi m)"
  by (simp add: msg_wf_def)

lemma recv_ctl_rsp_refines:
  assumes r: "recv_ctl_rsp b p = Some p'" and wf: "\<forall>m\<in>set (qmi_proxy_ctl_msg p). msg_wf m"
  shows "abs_ctl p' = ctl_step Answer (abs_ctl p) \<and> same_fds p p'"
proof (cases "qmi_proxy_ctl_msg p")
  case Nil
  with r show ?thesis by (auto simp: recv_ctl_rsp_def abs_ctl_eq)
next
  case (Cons m ms)
  with r obtain same q where
    q: "(if \<not> same \<or> msg_ClientFd m = qmi_proxy_server_fd p then Some p
         else do { (cons, p) \<leftarrow> ctl_to_client b (msg_ClientFd m) (qmi_proxy_connection p) p;
                   Some (p\<lparr>qmi_proxy_connection := cons\<rparr>) }) = Some q" and
    rest: "(case ms of [] \<Rightarrow> Some (q\<lparr>qmi_proxy_ctl_msg := ms\<rparr>)
       | m' # _ \<Rightarrow> map_option snd (send_qmi_to_cdc_wdm (qmi m') (q\<lparr>qmi_proxy_ctl_msg := ms\<rparr>))) = Some p'"
    by (auto simp: recv_ctl_rsp_def bind_eq_Some_conv Let_def)
  have q1: "same_fds p q \<and> ctl_issued (out (sends q)) = ctl_issued (out (sends p))"
  proof (cases "\<not> same \<or> msg_ClientFd m = qmi_proxy_server_fd p")
    case False
    with q obtain cons q0 where "ctl_to_client b (msg_ClientFd m) (qmi_proxy_connection p) p = Some (cons, q0)"
      and "q = q0\<lparr>qmi_proxy_connection := cons\<rparr>"
      by (auto simp: bind_eq_Some_conv)
    with ctl_to_client_emits [OF this(1)] show ?thesis
      by (auto simp: emits_same emits_fields)
  qed (use q in auto)
  show ?thesis
  proof (cases ms)
    case Nil
    with rest q1 Cons show ?thesis by (auto simp: abs_ctl_eq)
  next
    case (Cons m' ms')
    with rest obtain k where "send_qmi_to_cdc_wdm (qmi m') (q\<lparr>qmi_proxy_ctl_msg := ms\<rparr>) = Some (k, p')"
      by auto
    from emits_device [OF this] have e: "emits [(ToDevice, msg_of (qmi m'))] (q\<lparr>qmi_proxy_ctl_msg := ms\<rparr>) p'" .
    have "msg_wf m'" using wf Cons \<open>qmi_proxy_ctl_msg p = m # ms\<close> by simp
    then have "msg_of (qmi m') = qmi m'" "is_ctl (qmi m')" by (simp_all add: whole_msg)
    with emits_fields [OF e] emits_same [OF e] q1 Cons \<open>qmi_proxy_ctl_msg p = m # ms\<close> show ?thesis
      by (auto simp: abs_ctl_eq same_fds_def writable_def)
  qed
qed

text \<open>The announced length is the length of the message.\<close>

definition frame_ok :: "byte list \<Rightarrow> bool" where
  "frame_ok data \<longleftrightarrow> rd16 data 1 = Some (of_nat (length data - 1)) \<and> length data \<le> 65536"

lemma read_append:
  "i < length xs \<Longrightarrow> rd8 (xs @ ys) i = rd8 xs i" "i + 1 < length xs \<Longrightarrow> rd16 (xs @ ys) i = rd16 xs i"
  by (auto simp: rd16_def rd8_def nth_append)

lemma frame_ok_length: "12 \<le> length data \<Longrightarrow> length data \<le> QMI_BUF \<Longrightarrow>
    frame_ok data \<longleftrightarrow> (\<exists>len. rd16 data 1 = Some len \<and> length data = unat len + 1)"
proof -
  assume l: "12 \<le> length data" "length data \<le> QMI_BUF"
  have "unat (of_nat (length data - 1) :: u16) = length data - 1"
    using l by (intro unat_of_nat_small) (simp add: QMI_BUF_def)
  moreover have "of_nat (length data - 1) = len" if "length data = unat len + 1" for len :: u16
    using that by simp
  ultimately show ?thesis using l by (auto simp: frame_ok_def QMI_BUF_def)
qed

definition buffered :: "byte list \<Rightarrow> byte list \<Rightarrow> bool" where
  "buffered data b \<longleftrightarrow> 12 \<le> length data \<and> length data \<le> QMI_BUF \<and> (\<exists>rest. b = data @ rest)"

lemma buffered_reads:
  assumes "buffered data b"
  shows "rd16 b 1 = rd16 data 1" "rd8 b 4 = rd8 data 4" "rd8 b 5 = rd8 data 5" "rd8 b 6 = rd8 data 6"
    "rd8 b 7 = rd8 data 7" "rd16 b 8 = rd16 data 8" "take (length data) b = data"
  using assms by (auto simp: buffered_def read_append)

lemma buffered_msg: "buffered data b \<Longrightarrow> rd16 data 1 = Some len \<Longrightarrow> length data = unat len + 1 \<Longrightarrow>
    msg_of b = data \<and> whole b"
  using buffered_reads(1,7) [of data b] by (auto simp: msg_of_def whole_def buffered_def)

lemma read_qmi_buffered:
  "data \<noteq> [] \<Longrightarrow> ev_ok (Readable acc data) \<Longrightarrow> buffered data (qmi_buf (read_qmi data p))"
  by (auto simp: buffered_def read_qmi_def)

lemma read_qmi_same:
  "proxy_wf p \<Longrightarrow> ev_ok (Readable acc data) \<Longrightarrow> same_fds p (read_qmi data p)"
  "abs_ctl (read_qmi data p) = abs_ctl p" "qmi_proxy_connection (read_qmi data p) = qmi_proxy_connection p"
  "qmi_proxy_ctl_msg (read_qmi data p) = qmi_proxy_ctl_msg p" "qmi_proxy_server_fd (read_qmi data p) = qmi_proxy_server_fd p"
  by (auto simp: same_fds_def read_qmi_def abs_ctl_eq proxy_wf_def)

text \<open>A message of the modem.\<close>

definition dev_ops :: "byte list \<Rightarrow> proxy \<Rightarrow> ctl_op list" where
  "dev_ops data p = (if qmi_proxy_server_fd p \<noteq> - 1 \<and> is_ctl data \<and> rd8 data 6 = Some 0x01 then [Answer] else [])"

lemma recv_qmi_from_dev_refines:
  assumes "recv_qmi_from_dev b p = Some p'" "buffered data b" "\<forall>m\<in>set (qmi_proxy_ctl_msg p). msg_wf m"
  shows "abs_ctl p' = fold ctl_step (dev_ops data p) (abs_ctl p) \<and> same_fds p p'"
proof (cases "qmi_proxy_server_fd p = - 1")
  case True
  with assms show ?thesis by (auto simp: recv_qmi_from_dev_def dev_ops_def abs_ctl_eq same_fds_def)
next
  case False
  note reads = buffered_reads [OF assms(2)]
  show ?thesis
  proof (cases "is_ctl data")
    case True
    with False assms(1) reads have
      "rd8 data 6 = Some 0x01 \<and> recv_ctl_rsp b p = Some p' \<or> rd8 data 6 \<noteq> Some 0x01 \<and> p' = p"
      by (auto simp: recv_qmi_from_dev_def is_ctl_def bind_eq_Some_conv QMUX_TYPE_CTL_def split: if_splits)
    with recv_ctl_rsp_refines [OF _ assms(3)] True False show ?thesis by (auto simp: dev_ops_def)
  next
    case ctl: False
    with False assms(1) reads obtain t i where "svc_to_connections b t i (qmi_proxy_connection p) p = Some p'"
      by (auto simp: recv_qmi_from_dev_def is_ctl_def bind_eq_Some_conv split: if_splits)
    from svc_to_connections_emits [OF this] ctl show ?thesis
      by (auto simp: dev_ops_def abs_ctl_eq emits_fields emits_same)
  qed
qed

text \<open>A message of a client.\<close>

definition client_ops :: "int \<Rightarrow> byte list \<Rightarrow> proxy \<Rightarrow> ctl_op list" where
  "client_ops fd data p =
     (if qmi_proxy_server_fd p \<noteq> - 1 \<and> is_ctl data \<and> rd16 data 8 \<noteq> Some QMICTL_SYNC_REQ
      then [Request \<lparr>msg_ClientFd = fd, qmi = data\<rparr>] else [])"

lemma buffered_msg_wf:
  "buffered data b \<Longrightarrow> rd16 data 1 = Some len \<Longrightarrow> length data = unat len + 1 \<Longrightarrow> is_ctl data \<Longrightarrow>
     msg_wf \<lparr>msg_ClientFd = fd, qmi = data\<rparr>"
  by (auto simp: msg_wf_def whole_def msg_of_def buffered_def)

lemma recv_qmi_from_client_refines:
  assumes r: "recv_qmi_from_client b (length data) fd p = Some (e, p')" and b: "buffered data b"
    and len: "rd16 data 1 = Some len" "length data = unat len + 1"
  shows "abs_ctl p' = fold ctl_step (client_ops fd data p) (abs_ctl p) \<and> same_fds p p' \<and>
    qmi_proxy_connection p' = qmi_proxy_connection p"
proof -
  note reads = buffered_reads [OF b]
  have msg: "msg_of b = data" using buffered_msg [OF b len] by simp
  consider (early) "qmi_proxy_server_fd p = - 1" "p' = p"
    | (sync) "is_ctl data" "rd16 data 8 = Some QMICTL_SYNC_REQ" "p' = p"
    | (ctl) "qmi_proxy_server_fd p \<noteq> - 1" "is_ctl data" "rd16 data 8 \<noteq> Some QMICTL_SYNC_REQ"
        "queue_ctl b \<lparr>msg_ClientFd = fd, qmi = data\<rparr> p = Some p'"
    | (svc) k where "\<not> is_ctl data" "send_qmi_to_cdc_wdm b p = Some (k, p')"
    using r reads by (auto simp: recv_qmi_from_client_def is_ctl_def bind_eq_Some_conv split: if_splits)
  then show ?thesis
  proof cases
    case ctl
    with queue_ctl_refines [OF ctl(4) buffered_msg_wf [OF b len ctl(2)]] msg show ?thesis
      by (auto simp: client_ops_def)
  next
    case svc
    from emits_device [OF svc(2)] svc msg show ?thesis
      by (auto simp: client_ops_def abs_ctl_eq emits_fields emits_same)
  qed (auto simp: client_ops_def)
qed

text \<open>The operations of the abstract server that an event amounts to.\<close>

definition ctl_ops :: "int \<Rightarrow> fd_event \<Rightarrow> proxy \<Rightarrow> ctl_op list" where
  "ctl_ops fd ev p = (case ev of Quiet \<Rightarrow> []
     | Failed \<Rightarrow> if fd = cdc_fd p \<or> fd = qmi_proxy_server_fd p then [] else leave_ops fd p
     | Readable acc data \<Rightarrow>
         if fd = qmi_proxy_server_fd p then []
         else if fd = cdc_fd p then
           (if frame_ok data then dev_ops data p else [])
         else if data = [] then leave_ops fd p
         else if frame_ok data then client_ops fd data p else [])"

lemma serve_device_refines:
  assumes "serve_device data p = Some (a, p')" "proxy_wf p" "ev_ok (Readable acc data)"
  shows "abs_ctl p' = fold ctl_step (if frame_ok data then dev_ops data p else []) (abs_ctl p) \<and> same_fds p p'"
proof (cases "data = []")
  case True
  with assms(1) show ?thesis by (auto simp: serve_device_def frame_ok_def rd16_def rd8_def)
next
  case False
  let ?q = "read_qmi data p"
  have b: "buffered data (qmi_buf ?q)" using False assms(3) by (rule read_qmi_buffered)
  have l: "12 \<le> length data" "length data \<le> QMI_BUF" using False assms(3) by auto
  have same: "same_fds p ?q" using read_qmi_same(1) [OF assms(2,3)] .
  have wf: "\<forall>m\<in>set (qmi_proxy_ctl_msg ?q). msg_wf m" using assms(2) by (simp add: proxy_wf_def read_qmi_same)
  obtain len where len: "rd16 data 1 = Some len"
    using assms(1) False buffered_reads(1) [OF b] by (auto simp: serve_device_def Let_def bind_eq_Some_conv)
  show ?thesis
  proof (cases "length data = unat len + 1")
    case True
    with assms(1) False len buffered_reads(1) [OF b] have "recv_qmi_from_dev (qmi_buf ?q) ?q = Some p'"
      by (auto simp: serve_device_def Let_def bind_eq_Some_conv)
    from recv_qmi_from_dev_refines [OF this b wf] same True len show ?thesis
      by (auto simp: frame_ok_length [OF l] read_qmi_same dev_ops_def intro: same_fds_trans)
  next
    case neq: False
    with assms(1) False len buffered_reads(1) [OF b] have "p' = ?q"
      by (auto simp: serve_device_def Let_def)
    with same neq len show ?thesis by (auto simp: frame_ok_length [OF l] read_qmi_same)
  qed
qed

lemma serve_client_refines:
  assumes "serve_client fd data p = Some (a, p')" "proxy_wf p" "ev_ok (Readable acc data)" "data \<noteq> []"
  shows "abs_ctl p' = fold ctl_step (if frame_ok data then client_ops fd data p else []) (abs_ctl p) \<and>
    same_fds p p' \<and> qmi_proxy_connection p' = qmi_proxy_connection p"
proof -
  let ?q = "read_qmi data p"
  have b: "buffered data (qmi_buf ?q)" using assms(4,3) by (rule read_qmi_buffered)
  have l: "12 \<le> length data" "length data \<le> QMI_BUF" using assms(3,4) by auto
  have same: "same_fds p ?q" using read_qmi_same(1) [OF assms(2,3)] .
  obtain len where len: "rd16 data 1 = Some len"
    using assms(1,4) buffered_reads(1) [OF b] by (auto simp: serve_client_def Let_def bind_eq_Some_conv)
  show ?thesis
  proof (cases "length data = unat len + 1")
    case True
    with assms(1,4) len buffered_reads(1) [OF b] obtain e where
      "recv_qmi_from_client (qmi_buf ?q) (length data) fd ?q = Some (e, p')"
      by (auto simp: serve_client_def Let_def bind_eq_Some_conv)
    from recv_qmi_from_client_refines [OF this b len True] same True len show ?thesis
      by (auto simp: frame_ok_length [OF l] read_qmi_same client_ops_def intro: same_fds_trans)
  next
    case neq: False
    with assms(1,4) len buffered_reads(1) [OF b] have "p' = ?q"
      by (auto simp: serve_client_def Let_def)
    with same neq len show ?thesis by (auto simp: frame_ok_length [OF l] read_qmi_same)
  qed
qed

lemma proxy_wf_abs: "proxy_wf p \<longleftrightarrow> length (qmi_buf p) = QMI_BUF \<and> (\<forall>m\<in>set (waiting (abs_ctl p)). msg_wf m)"
  by (simp add: proxy_wf_def)

definition op_wf :: "ctl_op \<Rightarrow> bool" where
  "op_wf op \<longleftrightarrow> (\<forall>m. op = Request m \<longrightarrow> msg_wf m)"

lemma ctl_step_wf: "\<forall>m\<in>set (waiting s). msg_wf m \<Longrightarrow> op_wf op \<Longrightarrow> \<forall>m\<in>set (waiting (ctl_step op s)). msg_wf m"
proof (cases op)
  case Answer
  then show "\<forall>m\<in>set (waiting s). msg_wf m \<Longrightarrow> ?thesis" by (cases "waiting s") auto
next
  case (Cancel fd)
  then show "\<forall>m\<in>set (waiting s). msg_wf m \<Longrightarrow> ?thesis"
    using remove_first_subset [of "\<lambda>m. msg_ClientFd m = fd" "waiting s"] by auto
qed (auto simp: op_wf_def)

lemma ctl_steps_wf:
  "\<forall>m\<in>set (waiting s). msg_wf m \<Longrightarrow> \<forall>op\<in>set ops. op_wf op \<Longrightarrow> \<forall>m\<in>set (waiting (fold ctl_step ops s)). msg_wf m"
  by (induction ops arbitrary: s) (simp, metis ctl_step_wf fold_simps(2) list.set_intros(1,2))

lemma ctl_ops_wf: "ev_ok ev \<Longrightarrow> \<forall>op\<in>set (ctl_ops fd ev p). op_wf op"
proof -
  assume ok: "ev_ok ev"
  have leave: "\<forall>op\<in>set (leave_ops fd p). op_wf op"
    by (auto simp: leave_ops_def releases_def op_wf_def release_wf split: option.splits)
  have client: "\<forall>op\<in>set (client_ops fd data p). op_wf op" if "ev = Readable acc data" "data \<noteq> []" "frame_ok data" for acc data
  proof -
    from ok that have l: "12 \<le> length data" "length data \<le> QMI_BUF" by auto
    then have b: "buffered data data" by (auto simp: buffered_def)
    from that(3) obtain len where "rd16 data 1 = Some len" "length data = unat len + 1"
      unfolding frame_ok_length [OF l] by auto
    from buffered_msg_wf [OF b this] show ?thesis by (auto simp: client_ops_def op_wf_def)
  qed
  show ?thesis
    using leave client by (auto simp: ctl_ops_def dev_ops_def op_wf_def split: fd_event.splits if_splits)
qed

lemma serve_pollfd_refines:
  assumes "serve_pollfd fd ev p = Some (a, p')" "proxy_wf p" "ev_ok ev"
  shows "abs_ctl p' = fold ctl_step (ctl_ops fd ev p) (abs_ctl p) \<and> same_fds p p'"
proof -
  have leave: "abs_ctl p' = fold ctl_step (leave_ops fd p) (abs_ctl p) \<and> same_fds p p'"
    if "cleanup_qmi_connection fd True p = Some p'"
    using cleanup_refines [OF that] by blast
  show ?thesis
  proof (cases ev)
    case Quiet
    with assms show ?thesis by (simp add: serve_pollfd_def ctl_ops_def)
  next
    case Failed
    with assms leave show ?thesis
      by (auto simp: serve_pollfd_def ctl_ops_def bind_eq_Some_conv split: if_splits)
  next
    case (Readable acc data)
    consider "fd = qmi_proxy_server_fd p" | "fd \<noteq> qmi_proxy_server_fd p" "fd = cdc_fd p"
      | "fd \<noteq> qmi_proxy_server_fd p" "fd \<noteq> cdc_fd p" "data = []"
      | "fd \<noteq> qmi_proxy_server_fd p" "fd \<noteq> cdc_fd p" "data \<noteq> []"
      by blast
    then show ?thesis
    proof cases
      case 1
      with assms Readable show ?thesis
        by (auto simp: serve_pollfd_def ctl_ops_def accept_qmi_connection_def abs_ctl_eq)
    next
      case 2
      with assms Readable have "serve_device data p = Some (a, p')" "ev_ok (Readable acc data)"
        by (simp_all add: serve_pollfd_def)
      from serve_device_refines [OF this(1) assms(2) this(2)] 2 Readable show ?thesis
        by (simp add: ctl_ops_def)
    next
      case 3
      with assms Readable leave show ?thesis
        by (auto simp: serve_pollfd_def serve_client_def ctl_ops_def bind_eq_Some_conv)
    next
      case 4
      with assms Readable have "serve_client fd data p = Some (a, p')" "ev_ok (Readable acc data)"
        by (simp_all add: serve_pollfd_def)
      from serve_client_refines [OF this(1) assms(2) this(2) 4(3)] 4 Readable show ?thesis
        by (simp add: ctl_ops_def)
    qed
  qed
qed

lemma serve_pollfd_wf:
  assumes "serve_pollfd fd ev p = Some (a, p')" "proxy_wf p" "ev_ok ev"
  shows "proxy_wf p'"
  using serve_pollfd_refines [OF assms] assms(2)
    ctl_steps_wf [OF _ ctl_ops_wf [OF assms(3)], of "abs_ctl p" fd p]
  unfolding proxy_wf_abs same_fds_def by (metis (no_types))

section \<open>Runs of the loop\<close>

text \<open>The operations of a round and of a sequence of rounds, as far as the loop goes.\<close>

fun fds_ops :: "(int \<times> fd_event) list \<Rightarrow> proxy \<Rightarrow> ctl_op list" where
  "fds_ops [] p = []"
| "fds_ops ((fd, ev) # es) p = ctl_ops fd ev p @
     (case serve_pollfd fd ev p of Some (Continue, q) \<Rightarrow> fds_ops es q | _ \<Rightarrow> [])"

definition round_ops :: "fd_event list option \<Rightarrow> proxy \<Rightarrow> ctl_op list" where
  "round_ops r p = (case r of None \<Rightarrow> [] | Some evs \<Rightarrow> fds_ops (zip (pollfds p) evs) p)"

fun rounds_ops :: "fd_event list option list \<Rightarrow> proxy \<Rightarrow> ctl_op list" where
  "rounds_ops [] p = []"
| "rounds_ops (r # rs) p = (if cdc_fd p \<le> 0 \<or> qmi_proxy_quit p then []
     else round_ops r p @ (case poll_round r p of Some (True, q) \<Rightarrow> rounds_ops rs q | _ \<Rightarrow> []))"

definition round_ok :: "fd_event list option \<Rightarrow> bool" where
  "round_ok r \<longleftrightarrow> (\<forall>evs ev. r = Some evs \<longrightarrow> ev \<in> set evs \<longrightarrow> ev_ok ev)"

lemma serve_pollfds_refines:
  "serve_pollfds es p = Some (go, p') \<Longrightarrow> proxy_wf p \<Longrightarrow> \<forall>(fd, ev)\<in>set es. ev_ok ev \<Longrightarrow>
     abs_ctl p' = fold ctl_step (fds_ops es p) (abs_ctl p) \<and> same_fds p p' \<and> proxy_wf p'"
proof (induction es arbitrary: p)
  case (Cons e es)
  obtain fd ev where e: "e = (fd, ev)" by force
  with Cons.prems(1) obtain a q where q: "serve_pollfd fd ev p = Some (a, q)"
    and rest: "(case a of Continue \<Rightarrow> serve_pollfds es q | Break \<Rightarrow> Some (True, q) | Exit \<Rightarrow> Some (False, q)) = Some (go, p')"
    by (auto simp: bind_eq_Some_conv)
  have ok: "ev_ok ev" "\<forall>(fd, ev)\<in>set es. ev_ok ev" using Cons.prems(3) e by auto
  note step = serve_pollfd_refines [OF q Cons.prems(2) ok(1)] serve_pollfd_wf [OF q Cons.prems(2) ok(1)]
  show ?case
  proof (cases a)
    case Continue
    with rest have "serve_pollfds es q = Some (go, p')" by simp
    from Cons.IH [OF this step(2) ok(2)] step q e Continue show ?thesis
      by (auto intro: same_fds_trans)
  qed (use rest step q e in auto)
qed simp

lemma poll_round_refines:
  assumes "poll_round r p = Some (go, p')" "proxy_wf p" "round_ok r"
  shows "abs_ctl p' = fold ctl_step (round_ops r p) (abs_ctl p) \<and> same_fds p p' \<and> proxy_wf p'"
proof (cases r)
  case None
  with assms show ?thesis by (simp add: poll_round_def round_ops_def)
next
  case (Some evs)
  with assms have "serve_pollfds (zip (pollfds p) evs) p = Some (go, p')" "\<forall>(fd, ev)\<in>set (zip (pollfds p) evs). ev_ok ev"
    by (auto simp: poll_round_def round_ok_def dest: set_zip_rightD)
  from serve_pollfds_refines [OF this(1) assms(2) this(2)] Some show ?thesis
    by (simp add: round_ops_def)
qed

lemma proxy_rounds_refines:
  "proxy_rounds rs p = Some (go, p') \<Longrightarrow> proxy_wf p \<Longrightarrow> \<forall>r\<in>set rs. round_ok r \<Longrightarrow>
     abs_ctl p' = fold ctl_step (rounds_ops rs p) (abs_ctl p) \<and> same_fds p p' \<and> proxy_wf p'"
proof (induction rs arbitrary: p)
  case (Cons r rs)
  show ?case
  proof (cases "cdc_fd p \<le> 0 \<or> qmi_proxy_quit p")
    case True
    with Cons.prems show ?thesis by auto
  next
    case False
    with Cons.prems(1) obtain g q where q: "poll_round r p = Some (g, q)"
      and rest: "(if g then proxy_rounds rs q else Some (False, q)) = Some (go, p')"
      by (auto simp: bind_eq_Some_conv split: if_splits)
    note step = poll_round_refines [OF q Cons.prems(2)]
    show ?thesis
    proof (cases g)
      case True
      with rest have "proxy_rounds rs q = Some (go, p')" by simp
      from Cons.IH [OF this] step Cons.prems(3) q False True show ?thesis
        by (auto intro: same_fds_trans)
    qed (use rest step Cons.prems(3) q False in auto)
  qed
qed simp


section \<open>Order of the control requests\<close>

text \<open>
  In a calm run no client leaves while one of its requests is waiting. \<open>requests\<close> are the
  control requests of the run in the order of their arrival.
\<close>

fun calm :: "ctl_op list \<Rightarrow> ctl_server \<Rightarrow> bool" where
  "calm [] s \<longleftrightarrow> True"
| "calm (op # ops) s \<longleftrightarrow> (\<forall>fd. op = Cancel fd \<longrightarrow> (\<forall>m\<in>set (waiting s). msg_ClientFd m \<noteq> fd)) \<and>
     calm ops (ctl_step op s)"

fun requests :: "ctl_op list \<Rightarrow> proxy_msg list" where
  "requests [] = []"
| "requests (Request m # ops) = m # requests ops"
| "requests (_ # ops) = requests ops"

definition answers :: "ctl_op list \<Rightarrow> nat" where
  "answers ops = length (filter (\<lambda>op. op = Answer) ops)"

definition in_order :: "byte list list \<Rightarrow> nat \<Rightarrow> proxy_msg list \<Rightarrow> ctl_server \<Rightarrow> bool" where
  "in_order b k arr s \<longleftrightarrow> (\<exists>n\<le>length arr. n \<le> k \<and> waiting s = drop n arr \<and> issued s = b @ map qmi (take (n + 1) arr))"

lemma in_order_step:
  assumes "in_order b k arr s" "\<forall>fd. op = Cancel fd \<longrightarrow> (\<forall>m\<in>set (waiting s). msg_ClientFd m \<noteq> fd)"
  shows "in_order b (k + answers [op]) (arr @ requests [op]) (ctl_step op s)"
proof -
  from assms(1) obtain n where n: "n \<le> length arr" "n \<le> k" "waiting s = drop n arr" "issued s = b @ map qmi (take (n + 1) arr)"
    by (auto simp: in_order_def)
  show ?thesis
  proof (cases op)
    case (Request m)
    with n show ?thesis by (auto simp: in_order_def answers_def intro!: exI [of _ n])
  next
    case Answer
    show ?thesis
    proof (cases "n = length arr")
      case True
      with Answer n show ?thesis by (auto simp: in_order_def answers_def intro!: exI [of _ n])
    next
      case False
      with n have "take (n + 2) arr = take (n + 1) arr @ take 1 (drop (n + 1) arr)"
        using take_add [of "n + 1" 1 arr] by simp
      with False Answer n show ?thesis
        by (auto simp: in_order_def answers_def tl_drop drop_Suc intro!: exI [of _ "n + 1"])
    qed
  next
    case (Cancel fd)
    with n assms(2) show ?thesis by (auto simp: in_order_def answers_def remove_first_id)
  qed
qed

lemma in_order_steps:
  "in_order b k arr s \<Longrightarrow> calm ops s \<Longrightarrow> in_order b (k + answers ops) (arr @ requests ops) (fold ctl_step ops s)"
proof (induction ops arbitrary: k arr s)
  case (Cons op ops)
  have "in_order b (k + answers [op]) (arr @ requests [op]) (ctl_step op s)"
    using Cons.prems by (intro in_order_step) auto
  from Cons.IH [OF this] Cons.prems show ?case by (cases op) (auto simp: answers_def)
qed (simp add: answers_def)


text \<open>
  A queue that starts with the requests \<open>W\<close>, the first of which is with the modem: after \<open>k\<close>
  answers at least the first \<open>k\<close> of them are finished, and the others have been issued in turn.
\<close>

definition from_queue :: "byte list list \<Rightarrow> proxy_msg list \<Rightarrow> nat \<Rightarrow> proxy_msg list \<Rightarrow> ctl_server \<Rightarrow> bool" where
  "from_queue b W k arr s \<longleftrightarrow> (\<exists>n\<le>length (W @ arr). min k (length W) \<le> n \<and> waiting s = drop n (W @ arr) \<and>
     issued s = b @ map qmi (drop 1 (take (n + 1) (W @ arr))))"

lemma drop1_append: "xs \<noteq> [] \<Longrightarrow> drop 1 (xs @ ys) = drop 1 xs @ ys"
  by (cases xs) auto

lemma from_queue_step:
  assumes "from_queue b W k arr s" "W \<noteq> []" "\<forall>fd. op = Cancel fd \<longrightarrow> (\<forall>m\<in>set (waiting s). msg_ClientFd m \<noteq> fd)"
  shows "from_queue b W (k + answers [op]) (arr @ requests [op]) (ctl_step op s)"
proof -
  define a where "a = W @ arr"
  have ne: "a \<noteq> []" "\<And>n. take (n + 1) a \<noteq> []" using assms(2) by (simp_all add: a_def)
  from assms(1) obtain n where n: "n \<le> length a" "min k (length W) \<le> n" "waiting s = drop n a"
      "issued s = b @ map qmi (drop 1 (take (n + 1) a))"
    by (auto simp: from_queue_def a_def [symmetric])
  have goal: "\<exists>n'\<le>length (a @ requests [op]). min (k + answers [op]) (length W) \<le> n' \<and>
      waiting (ctl_step op s) = drop n' (a @ requests [op]) \<and>
      issued (ctl_step op s) = b @ map qmi (drop 1 (take (n' + 1) (a @ requests [op])))"
  proof (cases op)
    case (Request m)
    have "drop 1 (take (n + 1) (a @ [m])) = drop 1 (take (n + 1) a) @ (if n = length a then [m] else [])"
      using n(1) ne(1) by (cases a) auto
    with Request n show ?thesis by (intro exI [of _ n]) (auto simp: answers_def)
  next
    case Answer
    show ?thesis
    proof (cases "n = length a")
      case True
      moreover have "length W \<le> length a" by (simp add: a_def)
      ultimately show ?thesis using Answer n by (intro exI [of _ n]) (auto simp: answers_def)
    next
      case False
      with n have "take (n + 2) a = take (n + 1) a @ take 1 (drop (n + 1) a)"
        using take_add [of "n + 1" 1 a] by simp
      then have "drop 1 (take (n + 2) a) = drop 1 (take (n + 1) a) @ take 1 (drop (n + 1) a)"
        using drop1_append [OF ne(2)] by simp
      with False Answer n show ?thesis
        by (intro exI [of _ "n + 1"]) (auto simp: answers_def tl_drop drop_Suc)
    qed
  next
    case (Cancel fd)
    with n assms(3) show ?thesis by (intro exI [of _ n]) (auto simp: answers_def remove_first_id)
  qed
  then show ?thesis by (simp add: from_queue_def a_def)
qed

lemma from_queue_steps:
  "from_queue b W k arr s \<Longrightarrow> W \<noteq> [] \<Longrightarrow> calm ops s \<Longrightarrow>
   from_queue b W (k + answers ops) (arr @ requests ops) (fold ctl_step ops s)"
proof (induction ops arbitrary: k arr s)
  case (Cons op ops)
  have "from_queue b W (k + answers [op]) (arr @ requests [op]) (ctl_step op s)"
    using Cons.prems by (intro from_queue_step) auto
  from Cons.IH [OF this] Cons.prems show ?case by (cases op) (auto simp: answers_def)
qed (simp add: answers_def)

text \<open>With enough answers the whole queue has been issued.\<close>

lemma queue_issued:
  assumes "waiting s = W" "W \<noteq> []" "calm ops s" "length W \<le> answers ops + 1"
  shows "\<exists>j. issued (fold ctl_step ops s) = issued s @ map qmi (tl W) @ map qmi (take j (requests ops))"
proof -
  have "from_queue (issued s) W 0 [] s"
    unfolding from_queue_def using assms(1,2) by (cases W) (auto intro!: exI [of _ 0])
  from from_queue_steps [OF this assms(2,3)] obtain n where
    n: "min (answers ops) (length W) \<le> n" "issued (fold ctl_step ops s) = issued s @ map qmi (drop 1 (take (n + 1) (W @ requests ops)))"
    by (auto simp: from_queue_def simp del: length_append)
  have "length W \<le> n + 1" using n(1) assms(4) by linarith
  then have "drop 1 (take (n + 1) (W @ requests ops)) = tl W @ take (n + 1 - length W) (requests ops)"
    using assms(2) by (cases W) auto
  then show ?thesis unfolding n(2) by (intro exI [of _ "n + 1 - length W"]) (simp only: map_append)
qed

text \<open>The control requests that have been written to the device.\<close>

definition written_ctl :: "(dest \<times> byte list \<times> bool) list \<Rightarrow> byte list list" where
  "written_ctl S = map (\<lambda>(d, b, k). b) (filter (\<lambda>(d, b, k). k \<and> d = ToDevice \<and> is_ctl b) S)"

lemma written_all: "all_written S \<Longrightarrow> written_ctl S = ctl_issued (out S)"
  by (induction S) (auto simp: written_ctl_def ctl_issued_def out_def all_written_def)

lemma same_fds_written:
  "same_fds p p' \<Longrightarrow> writable p \<Longrightarrow> all_written (sends p) \<Longrightarrow>
   writable p' \<and> all_written (sends p') \<and> written_ctl (sends p') = issued (abs_ctl p') \<and>
   written_ctl (sends p) = issued (abs_ctl p)"
  by (simp add: same_fds_def written_all writable_def)


section \<open>No handler reads outside a message\<close>

lemma send_total: "whole b \<Longrightarrow> \<exists>r p'. send_qmi_to_cdc_wdm b p = Some (r, p')"
  "whole b \<Longrightarrow> \<exists>r p'. send_qmi_to_client b fd p = Some (r, p')"
  unfolding send_qmi_to_cdc_wdm_def send_qmi_to_client_def by (meson send_qmi_total)+

lemma queue_ctl_total: "whole b \<Longrightarrow> \<exists>p'. queue_ctl b m p = Some p'"
  using send_total(1) [of b p] by (auto simp: queue_ctl_def)

lemma release_clients_total: "\<exists>p'. release_clients cs p = Some p'"
proof (induction cs arbitrary: p)
  case (Cons c cs)
  have "whole (release_req c)" using release_wf [of _ c] by (simp add: msg_wf_def)
  from queue_ctl_total [OF this] obtain q where
    "queue_ctl (release_req c) \<lparr>msg_ClientFd = qmi_proxy_server_fd p, qmi = release_req c\<rparr> p = Some q" by blast
  with Cons.IH [of q] show ?case by simp
qed simp

lemma cleanup_total: "\<exists>p'. cleanup_qmi_connection fd d p = Some p'"
proof (cases "List.find (\<lambda>c. ClientFd c = fd) (qmi_proxy_connection p)")
  case (Some c)
  obtain q where "release_clients (client_qnode c) p = Some q" using release_clients_total by blast
  with Some show ?thesis by (simp add: cleanup_qmi_connection_def Let_def)
qed (simp add: cleanup_qmi_connection_def)

lemma svc_to_clients_total: "whole b \<Longrightarrow> \<exists>p'. svc_to_clients b t i fd cs p = Some p'"
proof (induction cs arbitrary: p)
  case (Cons c cs)
  obtain r q where "send_qmi_to_client b fd p = Some (r, q)" using send_total(2) [OF Cons.prems] by blast
  with Cons.IH [of q] Cons.IH [of p] Cons.prems show ?case by simp
qed simp

lemma svc_to_connections_total: "whole b \<Longrightarrow> \<exists>p'. svc_to_connections b t i cons p = Some p'"
proof (induction cons arbitrary: p)
  case (Cons con cons)
  obtain q where "svc_to_clients b t i (ClientFd con) (client_qnode con) p = Some q"
    using svc_to_clients_total [OF Cons.prems] by blast
  with Cons.IH [of q] Cons.prems show ?case by simp
qed simp

lemma rd_long: "24 \<le> length b \<Longrightarrow> i < 23 \<Longrightarrow> \<exists>x. rd16 b i = Some x"
  "24 \<le> length b \<Longrightarrow> i < 24 \<Longrightarrow> \<exists>x. rd8 b i = Some x"
  by (simp_all add: rd16_Some_iff rd8_Some_iff)

lemma client_id_total:
  assumes b: "24 \<le> length b"
  shows "\<exists>c. get_client_id b con = Some c" "\<exists>c. release_client_id b con = Some c"
proof -
  obtain r e t i where "rd16 b 15 = Some r" "rd16 b 17 = Some e" "rd8 b 22 = Some t" "rd8 b 23 = Some i"
    using rd_long [OF b] by fastforce
  then show "\<exists>c. get_client_id b con = Some c" "\<exists>c. release_client_id b con = Some c"
    by (simp_all add: get_client_id_def release_client_id_def ctl_success_def)
qed

lemma ctl_to_client_total:
  assumes "whole b" "24 \<le> length b"
  shows "\<exists>cons' p'. ctl_to_client b fd cons p = Some (cons', p')"
proof (induction cons arbitrary: p)
  case (Cons con cons)
  obtain r q where q: "send_qmi_to_client b fd p = Some (r, q)" using send_total(2) [OF assms(1)] by blast
  obtain ty where ty: "rd16 b 8 = Some ty" using rd_long(1) [OF assms(2)] by fastforce
  from client_id_total [OF assms(2), of con] obtain c1 c2 where
    c: "get_client_id b con = Some c1" "release_client_id b con = Some c2" by blast
  obtain cons1 p1 where rec: "ctl_to_client b fd cons q = Some (cons1, p1)" using Cons.IH by blast
  obtain cons2 p2 where rec2: "ctl_to_client b fd cons p = Some (cons2, p2)" using Cons.IH by blast
  show ?case
    by (cases "ty = QMICTL_GET_CLIENT_ID_RESP"; cases "ty = QMICTL_RELEASE_CLIENT_ID_RESP")
      (simp_all add: q ty c rec rec2)
qed simp

lemma answers_head_total:
  assumes "12 \<le> length a" "12 \<le> length b"
  shows "\<exists>x. answers_head a b = Some x"
proof -
  have "\<exists>x. rd8 c 7 = Some x" "\<exists>x. rd16 c 8 = Some x" if "12 \<le> length c" for c
    using that by (simp_all add: rd8_Some_iff rd16_Some_iff)
  from this [OF assms(1)] this [OF assms(2)] show ?thesis by (auto simp: answers_head_def)
qed

lemma recv_ctl_rsp_total:
  assumes b: "whole b" "24 \<le> length b" and wf: "\<forall>m\<in>set (qmi_proxy_ctl_msg p). msg_wf m"
  shows "\<exists>p'. recv_ctl_rsp b p = Some p'"
proof (cases "qmi_proxy_ctl_msg p")
  case (Cons m ms)
  have "12 \<le> length (qmi m)" using wf Cons by (simp add: msg_wf_def)
  with b obtain same where same: "answers_head (qmi m) b = Some same"
    using answers_head_total [of "qmi m" b] by auto
  obtain cons' q where q: "ctl_to_client b (msg_ClientFd m) (qmi_proxy_connection p) p = Some (cons', q)"
    using ctl_to_client_total [OF b] by blast
  have rest: "\<exists>p'. (case ms of [] \<Rightarrow> Some x | m' # _ \<Rightarrow> map_option snd (send_qmi_to_cdc_wdm (qmi m') x)) = Some p'" for x
  proof (cases ms)
    case (Cons m' ms')
    with wf \<open>qmi_proxy_ctl_msg p = m # ms\<close> have "whole (qmi m')" by (simp add: msg_wf_def)
    with send_total(1) [of "qmi m'" x] Cons show ?thesis by auto
  qed simp
  show ?thesis using Cons same q rest by (auto simp: recv_ctl_rsp_def Let_def)
qed (simp add: recv_ctl_rsp_def)

lemma recv_qmi_from_dev_total:
  assumes b: "whole b" "24 \<le> length b" and wf: "\<forall>m\<in>set (qmi_proxy_ctl_msg p). msg_wf m"
  shows "\<exists>p'. recv_qmi_from_dev b p = Some p'"
proof -
  obtain t i f ty where "rd8 b 4 = Some t" "rd8 b 5 = Some i" "rd8 b 6 = Some f" "rd16 b 8 = Some ty"
    using rd_long [OF b(2)] by fastforce
  moreover obtain p1 where "recv_ctl_rsp b p = Some p1" using recv_ctl_rsp_total [OF assms] by blast
  moreover obtain p2 where "svc_to_connections b t i (qmi_proxy_connection p) p = Some p2"
    using svc_to_connections_total [OF b(1)] by blast
  ultimately show ?thesis by (simp add: recv_qmi_from_dev_def)
qed

lemma recv_qmi_from_client_total:
  assumes b: "whole b" "24 \<le> length b"
  shows "\<exists>e p'. recv_qmi_from_client b n fd p = Some (e, p')"
proof -
  obtain t ty where "rd8 b 4 = Some t" "rd16 b 8 = Some ty" using rd_long [OF b(2)] by fastforce
  moreover obtain p1 where "queue_ctl b \<lparr>msg_ClientFd = fd, qmi = take n b\<rparr> p = Some p1"
    using queue_ctl_total [OF b(1)] by blast
  moreover obtain r p2 where "send_qmi_to_cdc_wdm b p = Some (r, p2)" using send_total(1) [OF b(1)] by blast
  ultimately show ?thesis by (simp add: recv_qmi_from_client_def)
qed

lemma read_qmi_total:
  assumes wf: "proxy_wf p" and ok: "ev_ok (Readable acc data)" "data \<noteq> []"
  shows "\<exists>len. rd16 (qmi_buf (read_qmi data p)) 1 = Some len \<and>
    (length data = unat len + 1 \<longrightarrow> whole (qmi_buf (read_qmi data p)))"
    "24 \<le> length (qmi_buf (read_qmi data p))"
    "\<forall>m\<in>set (qmi_proxy_ctl_msg (read_qmi data p)). msg_wf m"
proof -
  have l: "length (qmi_buf (read_qmi data p)) = QMI_BUF"
    using wf ok by (auto simp: proxy_wf_def read_qmi_def)
  then obtain len where len: "rd16 (qmi_buf (read_qmi data p)) 1 = Some len"
    using rd_long(1) [of "qmi_buf (read_qmi data p)" 1] by (auto simp: QMI_BUF_def)
  have "whole (qmi_buf (read_qmi data p))" if "length data = unat len + 1"
    using that l ok len by (auto simp: whole_def)
  with len show "\<exists>len. rd16 (qmi_buf (read_qmi data p)) 1 = Some len \<and>
    (length data = unat len + 1 \<longrightarrow> whole (qmi_buf (read_qmi data p)))" by blast
qed (use wf ok in \<open>auto simp: QMI_BUF_def proxy_wf_def read_qmi_def\<close>)

lemma serve_device_total:
  assumes wf: "proxy_wf p" and ok: "ev_ok (Readable acc data)"
  shows "\<exists>a p'. serve_device data p = Some (a, p')"
proof (cases "data = []")
  case False
  let ?q = "read_qmi data p"
  obtain len where len: "rd16 (qmi_buf ?q) 1 = Some len" and
    whole: "length data = unat len + 1 \<longrightarrow> whole (qmi_buf ?q)"
    using read_qmi_total(1) [OF assms False] by blast
  note good = read_qmi_total(2,3) [OF assms False]
  show ?thesis
  proof (cases "length data = unat len + 1")
    case True
    from recv_qmi_from_dev_total [OF mp [OF whole True] good] len True False show ?thesis
      by (auto simp: serve_device_def Let_def)
  qed (use len False in \<open>simp add: serve_device_def Let_def\<close>)
qed (simp add: serve_device_def)

lemma serve_client_total:
  assumes wf: "proxy_wf p" and ok: "ev_ok (Readable acc data)"
  shows "\<exists>a p'. serve_client fd data p = Some (a, p')"
proof (cases "data = []")
  case True
  with cleanup_total [of fd True p] show ?thesis by (auto simp: serve_client_def)
next
  case False
  let ?q = "read_qmi data p"
  obtain len where len: "rd16 (qmi_buf ?q) 1 = Some len" and
    whole: "length data = unat len + 1 \<longrightarrow> whole (qmi_buf ?q)"
    using read_qmi_total(1) [OF assms False] by blast
  note good = read_qmi_total(2) [OF assms False]
  show ?thesis
  proof (cases "length data = unat len + 1")
    case True
    from recv_qmi_from_client_total [OF mp [OF whole True] good, of "length data" fd ?q] len True False show ?thesis
      by (auto simp: serve_client_def Let_def)
  qed (use len False in \<open>simp add: serve_client_def Let_def\<close>)
qed

lemma serve_pollfd_total:
  assumes wf: "proxy_wf p" and ok: "ev_ok ev"
  shows "\<exists>a p'. serve_pollfd fd ev p = Some (a, p')"
proof (cases ev)
  case Failed
  with cleanup_total [of fd True p] show ?thesis by (auto simp: serve_pollfd_def)
next
  case (Readable acc data)
  with ok have "ev_ok (Readable acc data)" by simp
  from serve_device_total [OF wf this] serve_client_total [OF wf this, of fd] Readable show ?thesis
    by (simp add: serve_pollfd_def)
qed (simp add: serve_pollfd_def)

lemma serve_pollfds_total:
  "proxy_wf p \<Longrightarrow> \<forall>(fd, ev)\<in>set es. ev_ok ev \<Longrightarrow> \<exists>go p'. serve_pollfds es p = Some (go, p')"
proof (induction es arbitrary: p)
  case (Cons e es)
  obtain fd ev where e: "e = (fd, ev)" by force
  with Cons.prems have ok: "ev_ok ev" "\<forall>(fd, ev)\<in>set es. ev_ok ev" by auto
  obtain a q where q: "serve_pollfd fd ev p = Some (a, q)" using serve_pollfd_total [OF Cons.prems(1) ok(1)] by blast
  from Cons.IH [OF serve_pollfd_wf [OF q Cons.prems(1) ok(1)] ok(2)] q e show ?case
    by (cases a) auto
qed auto

lemma poll_round_total: "proxy_wf p \<Longrightarrow> round_ok r \<Longrightarrow> \<exists>go p'. poll_round r p = Some (go, p')"
  by (cases r) (auto simp: poll_round_def round_ok_def dest: set_zip_rightD intro!: serve_pollfds_total)

lemma proxy_rounds_total:
  "proxy_wf p \<Longrightarrow> \<forall>r\<in>set rs. round_ok r \<Longrightarrow> \<exists>go p'. proxy_rounds rs p = Some (go, p')"
proof (induction rs arbitrary: p)
  case (Cons r rs)
  from Cons.prems obtain g q where q: "poll_round r p = Some (g, q)" using poll_round_total [of p r] by auto
  with poll_round_refines [OF q Cons.prems(1)] Cons.prems have "proxy_wf q" by simp
  from Cons.IH [OF this] Cons.prems q show ?case by auto
qed auto

end
