(* ===== verification/QmiProxyProps.thy ===== *)
theory QmiProxyProps
  imports QmiProxySpec
begin

text \<open>
  The properties of the QMI proxy: its loop never reads outside a message, it implements
  the abstract control server, requests reach the modem in order, answers and indications
  reach their owners only, and the identifiers of a client that leaves are released.
\<close>

section \<open>The whole loop\<close>

text \<open>A proxy that serves one client on descriptor 7, and messages of that client.\<close>

definition proxy0 :: proxy where
  "proxy0 = \<lparr>cdc_fd = 3, qmi_proxy_server_fd = 4, qmi_proxy_connection =
      [\<lparr>ClientFd = 7, client_qnode = [], con_AccessTime = 0\<rparr>, \<lparr>ClientFd = 8, client_qnode = [], con_AccessTime = 0\<rparr>],
     qmi_proxy_ctl_msg = [], qmi_proxy_quit = False, modem_reset_flag = False, qmi_sync_done = True,
     qmi_buf = replicate QMI_BUF 0, closed_fds = [], sends = [], io_ret = \<lambda>_. (True, 16)\<rparr>"

definition get_cid :: "byte \<Rightarrow> byte \<Rightarrow> byte list" where
  "get_cid tid svc = [0x01] @ le16 15 @ [0x00, 0x00, 0x00, 0x00, tid] @ le16 0x0022 @ le16 4 @ [0x01, 0x01, 0x00, svc]"

lemma get_cid_reads:
  "length (get_cid tid svc) = 16" "rd16 (get_cid tid svc) 1 = Some 15" "is_ctl (get_cid tid svc)"
  "rd16 (get_cid tid svc) 8 = Some 0x0022" "rd8 (get_cid tid svc) 7 = Some tid" "rd8 (get_cid tid svc) 6 = Some 0"
  "frame_ok (get_cid tid svc)"
  by (simp_all add: get_cid_def rd16_def rd8_def le16_def of_le16_def is_ctl_def QMUX_TYPE_CTL_def frame_ok_def)

lemma proxy0_wf: "proxy_wf proxy0"
  by (simp add: proxy0_def proxy_wf_def)

definition rounds0 :: "fd_event list option list" where
  "rounds0 = [Some [Quiet, Quiet, Readable 0 (get_cid 1 1), Readable 0 (get_cid 1 2)], Some [Failed]]"

lemma rounds0_ok: "\<forall>r\<in>set rounds0. round_ok r"
  by (auto simp: rounds0_def round_ok_def get_cid_reads QMI_BUF_def)


lemma pollfds0: "pollfds proxy0 = [3, 4, 7, 8]"
  by (simp add: pollfds_def proxy0_def)

text \<open>The first round of the example in steps.\<close>

lemma client_step:
  assumes "proxy_wf p" "fd \<noteq> qmi_proxy_server_fd p" "fd \<noteq> cdc_fd p" "qmi_proxy_server_fd p \<noteq> - 1"
  shows "\<exists>q. serve_pollfd fd (Readable 0 (get_cid tid svc)) p = Some (Continue, q) \<and> proxy_wf q \<and> same_fds p q \<and>
    abs_ctl q = ctl_step (Request \<lparr>msg_ClientFd = fd, qmi = get_cid tid svc\<rparr>) (abs_ctl p)"
proof -
  have ok: "ev_ok (Readable 0 (get_cid tid svc))" by (simp add: get_cid_reads QMI_BUF_def)
  obtain a q where q: "serve_pollfd fd (Readable 0 (get_cid tid svc)) p = Some (a, q)"
    using serve_pollfd_total [OF assms(1) ok] by blast
  have ne: "get_cid tid svc \<noteq> []" by (simp add: get_cid_def)
  have "a = Continue"
    using q assms ne by (auto simp: serve_pollfd_def serve_client_def bind_eq_Some_conv Let_def split: if_splits)
  moreover have "ctl_ops fd (Readable 0 (get_cid tid svc)) p = [Request \<lparr>msg_ClientFd = fd, qmi = get_cid tid svc\<rparr>]"
    using assms ne by (simp add: ctl_ops_def client_ops_def get_cid_reads QMICTL_SYNC_REQ_def)
  ultimately show ?thesis
    using q serve_pollfd_refines [OF q assms(1) ok] serve_pollfd_wf [OF q assms(1) ok] by auto
qed

lemma rounds0_run:
  "\<exists>p'. proxy_rounds rounds0 proxy0 = Some (False, p') \<and> rounds_ops rounds0 proxy0 =
     [Request \<lparr>msg_ClientFd = 7, qmi = get_cid 1 1\<rparr>, Request \<lparr>msg_ClientFd = 8, qmi = get_cid 1 2\<rparr>]"
proof -
  obtain q where q: "serve_pollfd 7 (Readable 0 (get_cid 1 1)) proxy0 = Some (Continue, q)" "proxy_wf q" "same_fds proxy0 q"
    using client_step [OF proxy0_wf, of 7 1 1] by (auto simp: proxy0_def)
  then obtain r where r: "serve_pollfd 8 (Readable 0 (get_cid 1 2)) q = Some (Continue, r)" "same_fds q r"
    using client_step [of q 8 1 2] by (auto simp: same_fds_def proxy0_def)
  have fds: "cdc_fd r = 3" "qmi_proxy_server_fd r = 4" "cdc_fd q = 3" "qmi_proxy_server_fd q = 4"
    using q(3) r(2) by (simp_all add: same_fds_def proxy0_def)
  have quiet: "serve_pollfd fd Quiet p = Some (Continue, p)" "ctl_ops fd Quiet p = []" for fd p
    by (simp_all add: serve_pollfd_def ctl_ops_def)
  have quit: "\<not> qmi_proxy_quit proxy0" "cdc_fd proxy0 = 3" "qmi_proxy_server_fd proxy0 = 4" by (simp_all add: proxy0_def)
  let ?es = "zip (pollfds proxy0) [Quiet, Quiet, Readable 0 (get_cid 1 1), Readable 0 (get_cid 1 2)]"
  have round1: "serve_pollfds ?es proxy0 = Some (True, r)" and
    ops1: "fds_ops ?es proxy0 = [Request \<lparr>msg_ClientFd = 7, qmi = get_cid 1 1\<rparr>, Request \<lparr>msg_ClientFd = 8, qmi = get_cid 1 2\<rparr>]"
    using fds quit
    by (simp_all add: pollfds0 quiet q(1) r(1) ctl_ops_def client_ops_def get_cid_reads QMICTL_SYNC_REQ_def)
       (simp_all add: get_cid_def)
  have dev: "serve_pollfds (zip (pollfds r) [Failed]) r = Some (False, r)" "fds_ops (zip (pollfds r) [Failed]) r = []"
    using fds by (simp_all add: pollfds_def serve_pollfd_def ctl_ops_def)
  show ?thesis
    using round1 ops1 dev quit fds
    by (auto simp: rounds0_def poll_round_def round_ops_def)
qed


text \<open>
  Property C4 (safety): the proxy writes the control requests of all clients to the modem in the
  order of their arrival, each exactly once, and never a second one while the first is
  unanswered: in every run that starts with an empty queue, \<open>n\<close> requests are finished, at most
  as many as the modem has answered, one more has been written and is with the modem, and the rest
  waits. This holds as long as no client leaves while one of its control requests is waiting
  or with the modem (\<open>calm\<close>; C39 shows what happens otherwise), every descriptor is writable when
  \<open>poll\<close> is asked before a write, and every read returns nothing or at least both headers.
\<close>

theorem control_requests_in_order:
  assumes "proxy_rounds rs p = Some (go, p')" "proxy_wf p" "\<forall>r\<in>set rs. round_ok r"
    and "qmi_proxy_ctl_msg p = []" "calm (rounds_ops rs p) (abs_ctl p)" "writable p" "all_written (sends p)"
  shows "\<exists>n\<le>length (requests (rounds_ops rs p)). n \<le> answers (rounds_ops rs p) \<and>
    qmi_proxy_ctl_msg p' = drop n (requests (rounds_ops rs p)) \<and>
    written_ctl (sends p') = written_ctl (sends p) @ map qmi (take (n + 1) (requests (rounds_ops rs p)))"
proof -
  note r = proxy_rounds_refines [OF assms(1-3)]
  have w: "written_ctl (sends p') = issued (abs_ctl p')" "written_ctl (sends p) = issued (abs_ctl p)"
    using same_fds_written [OF _ assms(6,7)] r by blast+
  have "in_order (issued (abs_ctl p)) 0 [] (abs_ctl p)"
    using assms(4) by (simp add: in_order_def)
  from in_order_steps [OF this assms(5)] r
  have "in_order (issued (abs_ctl p)) (answers (rounds_ops rs p)) (requests (rounds_ops rs p)) (abs_ctl p')" by simp
  then show ?thesis unfolding w by (simp add: in_order_def)
qed

lemma proxy0_written: "writable proxy0" "all_written (sends proxy0)"
  by (simp_all add: proxy0_def writable_def)

lemma control_requests_in_order_witness:
  "\<exists>p'. proxy_rounds rounds0 proxy0 = Some (False, p') \<and>
     map qmi (qmi_proxy_ctl_msg p') = [get_cid 1 1, get_cid 1 2] \<and> written_ctl (sends p') = [get_cid 1 1]"
proof -
  obtain p' where p': "proxy_rounds rounds0 proxy0 = Some (False, p')" and
    ops: "rounds_ops rounds0 proxy0 =
      [Request \<lparr>msg_ClientFd = 7, qmi = get_cid 1 1\<rparr>, Request \<lparr>msg_ClientFd = 8, qmi = get_cid 1 2\<rparr>]"
    using rounds0_run by blast
  have "qmi_proxy_ctl_msg proxy0 = []" "calm (rounds_ops rounds0 proxy0) (abs_ctl proxy0)"
    by (simp_all add: ops) (simp add: proxy0_def)
  from control_requests_in_order [OF p' proxy0_wf rounds0_ok this proxy0_written] obtain n where
    n: "n \<le> answers (rounds_ops rounds0 proxy0)" "qmi_proxy_ctl_msg p' = drop n (requests (rounds_ops rounds0 proxy0))"
      "written_ctl (sends p') = written_ctl (sends proxy0) @ map qmi (take (n + 1) (requests (rounds_ops rounds0 proxy0)))"
    by blast
  have "n = 0" "sends proxy0 = []" using n(1) by (simp_all add: ops answers_def) (simp add: proxy0_def)
  with n(2,3) p' show ?thesis by (simp add: ops written_ctl_def)
qed

end
