(* ===== verification/QmiProxyRoute.thy ===== *)
theory QmiProxyRoute
  imports QmiProxyProps
begin

text \<open>
  Who gets the messages of the modem: the identifiers of the connections stay distinct as
  long as the modem grants free ones, so an answer reaches the one connection that owns its
  identifier; a grant and a departure update the ownership; and what a departure does to
  the request in flight.
\<close>

section \<open>Ownership of identifiers\<close>

definition con_ids :: "proxy_connection \<Rightarrow> (byte \<times> byte) list" where
  "con_ids con = map (\<lambda>c. (QMIType c, ClientId c)) (client_qnode con)"

definition ids :: "proxy_connection list \<Rightarrow> (byte \<times> byte) list" where
  "ids cons = concat (map con_ids cons)"

lemma ids_simps [simp]: "ids [] = []" "ids (con # cons) = con_ids con @ ids cons" "ids (xs @ ys) = ids xs @ ids ys"
  by (simp_all add: ids_def)

text \<open>A response of the modem that grants an identifier, and the identifier.\<close>

definition grants :: "byte list \<Rightarrow> bool" where
  "grants b \<longleftrightarrow> rd8 b 4 = Some QMUX_TYPE_CTL \<and> rd8 b 6 = Some 0x01 \<and>
     rd16 b 8 = Some QMICTL_GET_CLIENT_ID_RESP \<and> ctl_success b = Some True"

definition granted :: "byte list \<Rightarrow> byte \<times> byte" where
  "granted b = (the (rd8 b 22), the (rd8 b 23))"

definition ids_ok :: "proxy_connection list \<Rightarrow> bool" where
  "ids_ok cons \<longleftrightarrow> distinct (map ClientFd cons) \<and> distinct (ids cons)"

lemma remove_first_map_distinct: "distinct (map f xs) \<Longrightarrow> distinct (map f (remove_first P xs))"
  by (induction xs) (use remove_first_subset in fastforce)+

lemma ids_remove_first: "set (ids (remove_first P cons)) \<subseteq> set (ids cons)"
  by (induction cons) auto

lemma ids_ok_remove: "ids_ok cons \<Longrightarrow> ids_ok (remove_first P cons)"
proof -
  have "distinct (ids cons) \<Longrightarrow> distinct (ids (remove_first P cons))"
    by (induction cons) (use ids_remove_first in fastforce)+
  then show "ids_ok cons \<Longrightarrow> ?thesis" by (simp add: ids_ok_def remove_first_map_distinct)
qed

lemma ctl_to_client_other:
  "fd \<notin> ClientFd ` set cons \<Longrightarrow> ctl_to_client b fd cons p = Some (cons, p)"
  by (induction cons) auto

text \<open>What a control response does to the connection of its client.\<close>

definition take_ctl :: "byte list \<Rightarrow> proxy_connection \<Rightarrow> proxy_connection option" where
  "take_ctl b con = do {
     ty \<leftarrow> rd16 b 8;
     if ty = QMICTL_GET_CLIENT_ID_RESP then get_client_id b con
     else if ty = QMICTL_RELEASE_CLIENT_ID_RESP then release_client_id b con
     else Some con }"

lemma take_ctl_ids:
  assumes "take_ctl b con = Some con'"
  shows "ClientFd con' = ClientFd con"
    "con_ids con' = con_ids con @ [granted b] \<and> rd16 b 8 = Some QMICTL_GET_CLIENT_ID_RESP \<and> ctl_success b = Some True \<or>
     set (con_ids con') \<subseteq> set (con_ids con) \<and> (distinct (con_ids con) \<longrightarrow> distinct (con_ids con'))"
proof -
  have rel: "distinct (map g xs) \<Longrightarrow> distinct (map g (remove_first P xs))" for g :: "proxy_client \<Rightarrow> byte \<times> byte" and P xs
    by (rule remove_first_map_distinct)
  show "ClientFd con' = ClientFd con"
    using assms by (auto simp: take_ctl_def get_client_id_def release_client_id_def bind_eq_Some_conv split: if_splits)
  show "con_ids con' = con_ids con @ [granted b] \<and> rd16 b 8 = Some QMICTL_GET_CLIENT_ID_RESP \<and> ctl_success b = Some True \<or>
     set (con_ids con') \<subseteq> set (con_ids con) \<and> (distinct (con_ids con) \<longrightarrow> distinct (con_ids con'))"
    using assms rel
    by (auto simp: take_ctl_def get_client_id_def release_client_id_def con_ids_def granted_def bind_eq_Some_conv
      split: if_splits dest!: subsetD [OF remove_first_subset])
qed

lemma ctl_to_client_takes:
  "ctl_to_client b fd cons p = Some (cons', p') \<Longrightarrow> distinct (map ClientFd cons) \<Longrightarrow>
     cons' = cons \<and> fd \<notin> ClientFd ` set cons \<or>
     (\<exists>xs con ys con'. cons = xs @ con # ys \<and> cons' = xs @ con' # ys \<and> ClientFd con = fd \<and> take_ctl b con = Some con')"
proof (induction cons arbitrary: p cons')
  case (Cons con cons)
  show ?case
  proof (cases "ClientFd con = fd")
    case True
    with Cons.prems obtain r q con1 cons1 where
      q: "send_qmi_to_client b fd p = Some (r, q)" and con1: "take_ctl b con = Some con1" and
      rest: "ctl_to_client b fd cons q = Some (cons1, p')" and eq: "cons' = con1 # cons1"
      by (auto simp: bind_eq_Some_conv take_ctl_def)
    have "cons1 = cons" using rest True Cons.prems(2) by (simp add: ctl_to_client_other)
    with con1 eq True show ?thesis by (intro disjI2 exI [of _ "[]"]) auto
  next
    case False
    with Cons.prems obtain cons1 where c: "ctl_to_client b fd cons p = Some (cons1, p')" "cons' = con # cons1"
      by (auto simp: bind_eq_Some_conv)
    have "distinct (map ClientFd cons)" using Cons.prems(2) by simp
    from Cons.IH [OF c(1) this] show ?thesis
    proof
      assume "\<exists>xs k ys con'. cons = xs @ k # ys \<and> cons1 = xs @ con' # ys \<and> ClientFd k = fd \<and> take_ctl b k = Some con'"
      then obtain xs k ys con' where
        "cons = xs @ k # ys" "cons1 = xs @ con' # ys" "ClientFd k = fd" "take_ctl b k = Some con'" by blast
      with c(2) show ?thesis by (intro disjI2 exI [of _ "con # xs"]) auto
    qed (use c(2) False in auto)
  qed
qed simp

lemma ctl_to_client_ids_ok:
  assumes c: "ctl_to_client b fd cons p = Some (cons', p')" and ok: "ids_ok cons"
    and fresh: "rd16 b 8 = Some QMICTL_GET_CLIENT_ID_RESP \<Longrightarrow> ctl_success b = Some True \<Longrightarrow> granted b \<notin> set (ids cons)"
  shows "ids_ok cons'"
proof -
  from ok have d: "distinct (map ClientFd cons)" by (simp add: ids_ok_def)
  from ctl_to_client_takes [OF c d] consider "cons' = cons"
    | xs con ys con' where "cons = xs @ con # ys" "cons' = xs @ con' # ys" "take_ctl b con = Some con'"
    by blast
  then show ?thesis
  proof cases
    case (2 xs con ys con')
    from take_ctl_ids [OF 2(3)] show ?thesis
    proof (elim disjE conjE)
      assume "con_ids con' = con_ids con @ [granted b]" "rd16 b 8 = Some QMICTL_GET_CLIENT_ID_RESP" "ctl_success b = Some True"
      with fresh ok 2 take_ctl_ids(1) [OF 2(3)] show ?thesis by (auto simp: ids_ok_def)
    next
      assume "set (con_ids con') \<subseteq> set (con_ids con)" "distinct (con_ids con) \<longrightarrow> distinct (con_ids con')"
      with ok 2 take_ctl_ids(1) [OF 2(3)] show ?thesis by (auto simp: ids_ok_def)
    qed
  qed (use ok in simp)
qed


section \<open>Ownership along a run\<close>

lemma recv_ctl_rsp_ids_ok:
  assumes r: "recv_ctl_rsp b p = Some p'" and ok: "ids_ok (qmi_proxy_connection p)"
    and fresh: "rd16 b 8 = Some QMICTL_GET_CLIENT_ID_RESP \<Longrightarrow> ctl_success b = Some True \<Longrightarrow>
      granted b \<notin> set (ids (qmi_proxy_connection p))"
  shows "ids_ok (qmi_proxy_connection p')"
proof (cases "qmi_proxy_ctl_msg p")
  case Nil
  with r ok show ?thesis by (simp add: recv_ctl_rsp_def)
next
  case (Cons m ms)
  with r obtain same q where
    q: "(if \<not> same \<or> msg_ClientFd m = qmi_proxy_server_fd p then Some p
         else do { (cons, p) \<leftarrow> ctl_to_client b (msg_ClientFd m) (qmi_proxy_connection p) p;
                   Some (p\<lparr>qmi_proxy_connection := cons\<rparr>) }) = Some q" and
    rest: "(case ms of [] \<Rightarrow> Some (q\<lparr>qmi_proxy_ctl_msg := ms\<rparr>)
       | m' # _ \<Rightarrow> map_option snd (send_qmi_to_cdc_wdm (qmi m') (q\<lparr>qmi_proxy_ctl_msg := ms\<rparr>))) = Some p'"
    by (auto simp: recv_ctl_rsp_def bind_eq_Some_conv Let_def)
  have "ids_ok (qmi_proxy_connection q)"
    using q ok ctl_to_client_ids_ok [OF _ ok fresh] by (auto simp: bind_eq_Some_conv split: if_splits)
  moreover have "qmi_proxy_connection p' = qmi_proxy_connection q"
    using rest by (cases ms) (auto dest!: emits_device simp: emits_fields)
  ultimately show ?thesis by simp
qed

lemma recv_qmi_from_dev_ids_ok:
  assumes r: "recv_qmi_from_dev b p = Some p'" and ok: "ids_ok (qmi_proxy_connection p)"
    and fresh: "grants b \<Longrightarrow> granted b \<notin> set (ids (qmi_proxy_connection p))"
  shows "ids_ok (qmi_proxy_connection p')"
proof -
  consider "qmi_proxy_connection p' = qmi_proxy_connection p"
    | "rd8 b 4 = Some QMUX_TYPE_CTL" "rd8 b 6 = Some 0x01" "recv_ctl_rsp b p = Some p'"
    | t i where "svc_to_connections b t i (qmi_proxy_connection p) p = Some p'"
    using r by (auto simp: recv_qmi_from_dev_def bind_eq_Some_conv split: if_splits)
  then show ?thesis
  proof cases
    case 2
    with recv_ctl_rsp_ids_ok [OF 2(3) ok] fresh show ?thesis by (simp add: grants_def)
  next
    case 3
    from emits_fields [OF svc_to_connections_emits [OF 3]] ok show ?thesis by simp
  qed (use ok in simp)
qed

text \<open>
  What the kernel and the modem owe the proxy: an accepted descriptor is not the one of an
  open connection, and a granted identifier belongs to no connection.
\<close>

definition fresh_event :: "int \<Rightarrow> fd_event \<Rightarrow> proxy \<Rightarrow> bool" where
  "fresh_event fd ev p = (case ev of
       Readable acc data \<Rightarrow> (let cons = qmi_proxy_connection p; b = qmi_buf (read_qmi data p) in
         (fd = qmi_proxy_server_fd p \<longrightarrow> acc \<notin> ClientFd ` set cons) \<and>
         (fd = cdc_fd p \<and> grants b \<longrightarrow> granted b \<notin> set (ids cons)))
     | _ \<Rightarrow> True)"

lemma recv_qmi_from_client_connections:
  "recv_qmi_from_client b n fd p = Some (e, p') \<Longrightarrow> qmi_proxy_connection p' = qmi_proxy_connection p"
proof -
  assume r: "recv_qmi_from_client b n fd p = Some (e, p')"
  have dev: "qmi_proxy_connection y = qmi_proxy_connection x" if "send_qmi_to_cdc_wdm c x = Some (k, y)" for c x k y
    using emits_fields(1) [OF emits_device [OF that]] .
  have queue: "qmi_proxy_connection y = qmi_proxy_connection x" if "queue_ctl c m x = Some y" for c m x y
    using that by (auto simp: queue_ctl_def bind_eq_Some_conv dev split: if_splits)
  consider "p' = p" | m where "queue_ctl b m p = Some p'" | k where "send_qmi_to_cdc_wdm b p = Some (k, p')"
    using r by (auto simp: recv_qmi_from_client_def bind_eq_Some_conv split: if_splits)
  then show ?thesis by cases (simp_all add: dev queue)
qed

lemma serve_pollfd_ids_ok:
  assumes s: "serve_pollfd fd ev p = Some (a, p')" and ok: "ids_ok (qmi_proxy_connection p)" and fresh: "fresh_event fd ev p"
  shows "ids_ok (qmi_proxy_connection p')"
proof -
  have leave: "ids_ok (qmi_proxy_connection p')" if "cleanup_qmi_connection fd True p = Some p'"
    using cleanup_refines [OF that] ok by (simp add: ids_ok_remove)
  show ?thesis
  proof (cases ev)
    case (Readable acc data)
    consider "fd = qmi_proxy_server_fd p" "qmi_proxy_connection p' = qmi_proxy_connection (accept_qmi_connection acc p)"
      | "qmi_proxy_connection p' = qmi_proxy_connection p"
      | "cleanup_qmi_connection fd True p = Some p'"
      | "fd = cdc_fd p" "recv_qmi_from_dev (qmi_buf (read_qmi data p)) (read_qmi data p) = Some p'"
      | n e where "recv_qmi_from_client (qmi_buf (read_qmi data p)) n fd (read_qmi data p) = Some (e, p')"
      using s Readable
      by (auto simp: serve_pollfd_def serve_device_def serve_client_def bind_eq_Some_conv Let_def read_qmi_def
        split: if_splits)
    then show ?thesis
    proof cases
      case 1
      with ok fresh Readable show ?thesis
        by (auto simp: ids_ok_def accept_qmi_connection_def fresh_event_def con_ids_def Let_def)
    next
      case 3
      then show ?thesis by (rule leave)
    next
      case 4
      from recv_qmi_from_dev_ids_ok [OF 4(2)] ok fresh 4(1) Readable show ?thesis
        by (simp add: fresh_event_def Let_def read_qmi_same)
    next
      case 5
      from recv_qmi_from_client_connections [OF 5] ok show ?thesis by (simp add: read_qmi_same)
    qed (use ok in simp)
  qed (use s ok leave in \<open>auto simp: serve_pollfd_def bind_eq_Some_conv split: if_splits\<close>)
qed

text \<open>The states a run of the loop passes through, one served descriptor at a time.\<close>

inductive served :: "proxy \<Rightarrow> proxy \<Rightarrow> bool" for p where
  start: "served p p"
| event: "served p q \<Longrightarrow> fresh_event fd ev q \<Longrightarrow> serve_pollfd fd ev q = Some (a, r) \<Longrightarrow> served p r"

lemma served_ids_ok: "served p q \<Longrightarrow> ids_ok (qmi_proxy_connection p) \<Longrightarrow> ids_ok (qmi_proxy_connection q)"
  by (induction rule: served.induct) (auto intro: serve_pollfd_ids_ok)

section \<open>Who receives a message\<close>

definition owner :: "byte \<Rightarrow> byte \<Rightarrow> proxy_connection list \<Rightarrow> int list" where
  "owner t i cons = (case List.find (\<lambda>con. (t, i) \<in> set (con_ids con)) cons of None \<Rightarrow> [] | Some con \<Rightarrow> [ClientFd con])"

lemma own_filter: "i \<noteq> 0 \<Longrightarrow> filter (owns t i) cs = filter (\<lambda>c. (QMIType c, ClientId c) = (t, i)) cs"
  by (rule filter_cong) (auto simp: owns_def)

lemma owned_once:
  assumes "distinct (con_ids con)" "i \<noteq> 0"
  shows "length (filter (owns t i) (client_qnode con)) = (if (t, i) \<in> set (con_ids con) then 1 else 0)"
proof -
  have "length (filter (\<lambda>x. x = a) xs) = (if a \<in> set xs then 1 else 0)" if "distinct xs" for a and xs :: "(byte \<times> byte) list"
    using that by (induction xs) auto
  from this [OF assms(1), of "(t, i)"] show ?thesis
    unfolding own_filter [OF assms(2)] by (simp add: con_ids_def filter_map comp_def)
qed

lemma receivers_none: "i \<noteq> 0 \<Longrightarrow> (t, i) \<notin> set (ids cons) \<Longrightarrow> receivers t i cons = []"
  by (induction cons) (auto simp: receivers_def own_filter con_ids_def filter_empty_conv)

lemma receivers_owner: "distinct (ids cons) \<Longrightarrow> i \<noteq> 0 \<Longrightarrow> receivers t i cons = owner t i cons"
proof (induction cons)
  case (Cons con cons)
  have d: "distinct (con_ids con)" using Cons.prems by simp
  have rec: "receivers t i (con # cons) = replicate (length (filter (owns t i) (client_qnode con))) (ClientFd con) @ receivers t i cons"
    by (simp add: receivers_def map_replicate_const)
  show ?case
  proof (cases "(t, i) \<in> set (con_ids con)")
    case True
    with Cons.prems have "(t, i) \<notin> set (ids cons)" by auto
    with Cons.prems True show ?thesis by (simp add: rec owned_once [OF d] receivers_none owner_def)
  next
    case False
    with Cons show ?thesis by (simp add: rec owned_once [OF d] owner_def)
  qed
qed (simp add: receivers_def owner_def)

section \<open>Properties\<close>

text \<open>
  Property C6 (safety): in every run in which the kernel hands out free descriptors and the
  modem free identifiers, an answer or unicast indication of the modem is written, unchanged,
  to the connection that owns its identifier for its service, and to nobody else; without an
  owner it is dropped. The proxy's own state does not change.
\<close>

theorem answer_reaches_only_its_owner:
  assumes "ids_ok (qmi_proxy_connection p)" "served p q" "qmi_proxy_server_fd q \<noteq> - 1"
    and "recv_qmi_from_dev b q = Some r"
    and "rd8 b 4 = Some t" "t \<noteq> QMUX_TYPE_CTL" "rd8 b 5 = Some i" "i \<noteq> 0"
  shows "out (sends r) = out (sends q) @ map (\<lambda>fd. (ToClient fd, msg_of b)) (owner t i (qmi_proxy_connection q)) \<and>
    qmi_proxy_connection r = qmi_proxy_connection q \<and> qmi_proxy_ctl_msg r = qmi_proxy_ctl_msg q"
proof -
  have "svc_to_connections b t i (qmi_proxy_connection q) q = Some r"
    using assms(3-8) by (simp add: recv_qmi_from_dev_def)
  from emits_fields [OF svc_to_connections_emits [OF this]]
    receivers_owner [of "qmi_proxy_connection q" i t] served_ids_ok [OF assms(2,1)] assms(8)
  show ?thesis by (simp add: ids_ok_def)
qed

definition proxy1 :: proxy where
  "proxy1 = proxy0\<lparr>qmi_proxy_connection :=
     [\<lparr>ClientFd = 7, client_qnode = [\<lparr>QMIType = 1, ClientId = 5, AccessTime = 0\<rparr>], con_AccessTime = 0\<rparr>,
      \<lparr>ClientFd = 8, client_qnode = [\<lparr>QMIType = 1, ClientId = 6, AccessTime = 0\<rparr>], con_AccessTime = 0\<rparr>]\<rparr>"

lemma answer_reaches_only_its_owner_witness:
  "\<exists>r. recv_qmi_from_dev [0x01, 6, 0, 0x80, 1, 6, 0] proxy1 = Some r \<and>
     out (sends r) = [(ToClient 8, [0x01, 6, 0, 0x80, 1, 6, 0])]"
proof -
  let ?b = "[0x01, 6, 0, 0x80, 1, 6, 0] :: byte list"
  have ok: "ids_ok (qmi_proxy_connection proxy1)" by (simp add: proxy1_def ids_ok_def con_ids_def)
  have w: "rd16 ?b 1 = Some 6" "rd8 ?b 4 = Some 1" "rd8 ?b 5 = Some 6"
    by (simp_all add: rd16_def rd8_def of_le16_def)
  have b: "whole ?b" "msg_of ?b = ?b" by (simp_all add: whole_def msg_of_def w del: One_nat_def)
  have srv: "qmi_proxy_server_fd proxy1 \<noteq> - 1" "sends proxy1 = []" by (simp_all add: proxy1_def proxy0_def)
  obtain r where r: "recv_qmi_from_dev ?b proxy1 = Some r"
    using svc_to_connections_total [OF b(1), of 1 6 "qmi_proxy_connection proxy1" proxy1] srv w
    by (auto simp: recv_qmi_from_dev_def QMUX_TYPE_CTL_def)
  have own: "owner 1 6 (qmi_proxy_connection proxy1) = [8]" by (simp add: proxy1_def owner_def con_ids_def)
  have "(1 :: byte) \<noteq> QMUX_TYPE_CTL" "(6 :: byte) \<noteq> 0" by (simp_all add: QMUX_TYPE_CTL_def)
  from answer_reaches_only_its_owner [OF ok served.start srv(1) r w(2) this(1) w(3) this(2)]
  show ?thesis using r own b(2) srv(2) by simp
qed







text \<open>
  Property C39 (error): when the client whose request is with the modem leaves, the request
  behind it is lost: its turn is taken away, because the answer to the departed client's
  request is matched with it and removes it. It is never sent, and its client gets nothing.
\<close>

theorem departure_loses_next_request:
  assumes "proxy_wf p" "qmi_proxy_ctl_msg p = [m, m']" "msg_ClientFd m = fd" "msg_ClientFd m' \<noteq> fd"
    and "fd \<noteq> cdc_fd p" "fd \<noteq> qmi_proxy_server_fd p" "qmi_proxy_server_fd p \<noteq> - 1"
    and "List.find (\<lambda>c. ClientFd c = fd) (qmi_proxy_connection p) = Some c" "client_qnode c = []"
    and "is_ctl b" "rd8 b 6 = Some 0x01" "12 \<le> length b" "rd8 b 7 = rd8 (qmi m) 7" "rd8 (qmi m') 7 \<noteq> rd8 (qmi m) 7"
  shows "\<exists>q r. serve_pollfd fd Failed p = Some (Continue, q) \<and> qmi_proxy_ctl_msg q = [m'] \<and>
    recv_qmi_from_dev b q = Some r \<and> qmi_proxy_ctl_msg r = [] \<and> sends r = sends p"
proof -
  let ?q = "p\<lparr>qmi_proxy_ctl_msg := [m'], closed_fds := closed_fds p @ [fd],
    qmi_proxy_connection := remove_first (\<lambda>c. ClientFd c = fd) (qmi_proxy_connection p)\<rparr>"
  have q: "serve_pollfd fd Failed p = Some (Continue, ?q)"
    using assms(2,3,4,5,6,8,9) by (simp add: serve_pollfd_def cleanup_qmi_connection_def)
  have "12 \<le> length (qmi m')" using assms(1,2) by (simp add: proxy_wf_def msg_wf_def)
  then obtain x where x: "answers_head (qmi m') b = Some x" "rd8 (qmi m') 7 \<noteq> None" "rd8 b 7 \<noteq> None"
    using answers_head_total [of "qmi m'" b] assms(12) by (auto simp: rd8_def)
  with assms(13,14) have "x = False" by (auto simp: answers_head_def bind_eq_Some_conv split: if_splits)
  with x assms(7,10,11) show ?thesis
    by (intro exI [of _ ?q] exI [of _ "?q\<lparr>qmi_proxy_ctl_msg := []\<rparr>"] conjI q)
      (simp_all add: recv_qmi_from_dev_def recv_ctl_rsp_def is_ctl_def)
qed

lemma departure_loses_next_request_witness:
  "\<exists>q r. serve_pollfd 7 Failed (proxy0\<lparr>qmi_proxy_ctl_msg := [\<lparr>msg_ClientFd = 7, qmi = get_cid 1 1\<rparr>, \<lparr>msg_ClientFd = 8, qmi = get_cid 2 1\<rparr>]\<rparr>) = Some (Continue, q) \<and>
     qmi_proxy_ctl_msg q = [\<lparr>msg_ClientFd = 8, qmi = get_cid 2 1\<rparr>] \<and>
     recv_qmi_from_dev ((get_cid 1 1)[6 := 0x01]) q = Some r \<and> qmi_proxy_ctl_msg r = [] \<and> sends r = []"
proof -
  let ?m = "\<lparr>msg_ClientFd = 7, qmi = get_cid 1 1\<rparr>" and ?m' = "\<lparr>msg_ClientFd = 8, qmi = get_cid 2 1\<rparr>"
  let ?p = "proxy0\<lparr>qmi_proxy_ctl_msg := [?m, ?m']\<rparr>" and ?b = "(get_cid 1 1)[6 := 0x01]"
  have m: "msg_wf ?m" "msg_wf ?m'"
    by (simp_all add: msg_wf_def whole_def msg_of_def get_cid_reads del: One_nat_def)
  have wf: "proxy_wf ?p" using proxy0_wf m by (simp add: proxy_wf_def)
  have p: "qmi_proxy_ctl_msg ?p = [?m, ?m']" "msg_ClientFd ?m = 7" "msg_ClientFd ?m' \<noteq> 7" "7 \<noteq> cdc_fd ?p"
    "7 \<noteq> qmi_proxy_server_fd ?p" "qmi_proxy_server_fd ?p \<noteq> - 1" "sends ?p = []"
    "List.find (\<lambda>c. ClientFd c = 7) (qmi_proxy_connection ?p) = Some \<lparr>ClientFd = 7, client_qnode = [], con_AccessTime = 0\<rparr>"
    by (simp_all add: proxy0_def)
  have b: "is_ctl ?b" "rd8 ?b 6 = Some 0x01" "12 \<le> length ?b" "rd8 ?b 7 = rd8 (qmi ?m) 7" "rd8 (qmi ?m') 7 \<noteq> rd8 (qmi ?m) 7"
    by (simp_all add: get_cid_def is_ctl_def rd8_def le16_def QMUX_TYPE_CTL_def)
  from departure_loses_next_request [OF wf p(1-6) p(8) _ b] p(7) show ?thesis by simp
qed

text \<open>
  The flag that makes the proxy start over after the modem has revoked
  its client identifiers is never set, whatever the modem sends: the test for an indication
  looks at the service type, which is that of the control service there.
\<close>

theorem revocation_never_noticed:
  assumes "proxy_rounds rs p = Some (go, p')" "proxy_wf p" "\<forall>r\<in>set rs. round_ok r" "\<not> modem_reset_flag p"
  shows "\<not> modem_reset_flag p'"
  using proxy_rounds_refines [OF assms(1-3)] assms(4) by (simp add: same_fds_def)

lemma revocation_never_noticed_witness:
  "\<exists>go p'. proxy_rounds [Some [Readable 0 [0x01, 16, 0, 0, 0, 0, 0x02, 1, 0x24, 0, 5, 0, 0x01, 2, 0, 1, 6]]] proxy1 = Some (go, p') \<and>
     \<not> modem_reset_flag p'"
proof -
  let ?rs = "[Some [Readable 0 ([0x01, 16, 0, 0, 0, 0, 0x02, 1, 0x24, 0, 5, 0, 0x01, 2, 0, 1, 6] :: byte list)]]"
  have wf: "proxy_wf proxy1" using proxy0_wf by (simp add: proxy1_def proxy_wf_def proxy0_def)
  have ok: "\<forall>r\<in>set ?rs. round_ok r" by (auto simp: round_ok_def QMI_BUF_def)
  obtain go p' where run: "proxy_rounds ?rs proxy1 = Some (go, p')" using proxy_rounds_total [OF wf ok] by blast
  have "\<not> modem_reset_flag proxy1" by (simp add: proxy1_def proxy0_def)
  from revocation_never_noticed [OF run wf ok this] run show ?thesis by blast
qed

section \<open>A client gets an identifier\<close>

lemma frame_reads:
  assumes "12 \<le> length data" "length data \<le> QMI_BUF" "frame_ok data" "proxy_wf p"
  shows "data \<noteq> []" "buffered data (qmi_buf (read_qmi data p))" "msg_of (qmi_buf (read_qmi data p)) = data"
    "whole (qmi_buf (read_qmi data p))"
    "\<exists>len. rd16 (qmi_buf (read_qmi data p)) 1 = Some len \<and> length data = unat len + 1"
proof -
  show ne: "data \<noteq> []" using assms(1) by auto
  show b: "buffered data (qmi_buf (read_qmi data p))"
    using read_qmi_buffered [OF ne, of 0 p] assms(1,2) by simp
  from assms(3) obtain len where len: "rd16 data 1 = Some len" "length data = unat len + 1"
    unfolding frame_ok_length [OF assms(1,2)] by auto
  from buffered_msg [OF b len] show "msg_of (qmi_buf (read_qmi data p)) = data" "whole (qmi_buf (read_qmi data p))" by auto
  from len buffered_reads(1) [OF b] show "\<exists>len. rd16 (qmi_buf (read_qmi data p)) 1 = Some len \<and> length data = unat len + 1"
    by auto
qed

text \<open>A control request on an idle proxy goes to the modem and waits for its answer.\<close>

lemma request_on_idle_proxy:
  assumes l: "12 \<le> length req" "length req \<le> QMI_BUF" "frame_ok req" and wf: "proxy_wf p"
    and ctl: "is_ctl req" "rd16 req 8 = Some ty" "ty \<noteq> QMICTL_SYNC_REQ" and idle: "qmi_proxy_ctl_msg p = []"
    and fd: "fd \<noteq> cdc_fd p" "fd \<noteq> qmi_proxy_server_fd p" "qmi_proxy_server_fd p \<noteq> - 1"
  shows "\<exists>q. serve_pollfd fd (Readable x req) p = Some (Continue, q) \<and> out (sends q) = out (sends p) @ [(ToDevice, req)] \<and>
    qmi_proxy_ctl_msg q = [\<lparr>msg_ClientFd = fd, qmi = req\<rparr>] \<and> qmi_proxy_connection q = qmi_proxy_connection p \<and>
    same_fds p q"
proof -
  let ?p = "read_qmi req p"
  note f = frame_reads [OF l wf]
  note reads = buffered_reads [OF f(2)]
  obtain len where len: "rd16 (qmi_buf ?p) 1 = Some len" "length req = unat len + 1" using f(5) by blast
  obtain k q0 where q0: "send_qmi_to_cdc_wdm (qmi_buf ?p) ?p = Some (k, q0)" using send_total(1) [OF f(4)] by blast
  let ?q = "q0\<lparr>qmi_proxy_ctl_msg := qmi_proxy_ctl_msg q0 @ [\<lparr>msg_ClientFd = fd, qmi = req\<rparr>]\<rparr>"
  have "queue_ctl (qmi_buf ?p) \<lparr>msg_ClientFd = fd, qmi = req\<rparr> ?p = Some ?q"
    using idle q0 by (simp add: queue_ctl_def read_qmi_same)
  then have "recv_qmi_from_client (qmi_buf ?p) (length req) fd ?p = Some (0, ?q)"
    using ctl fd reads by (simp add: recv_qmi_from_client_def read_qmi_same is_ctl_def)
  then have "serve_pollfd fd (Readable x req) p = Some (Continue, ?q)"
    using fd f(1) len by (simp add: serve_pollfd_def serve_client_def Let_def)
  moreover from emits_device [OF q0] f(3) have e: "emits [(ToDevice, req)] ?p q0" by simp
  have "ev_ok (Readable x req)" using l by simp
  from same_fds_trans [OF read_qmi_same(1) [OF wf this] emits_same [OF e]] have "same_fds p ?q" by simp
  moreover have "sends ?p = sends p" by (simp add: read_qmi_def)
  ultimately show ?thesis
    using emits_fields [OF e] idle by (intro exI [of _ ?q]) (simp add: read_qmi_same)
qed

lemma find_behind: "\<forall>x\<in>set xs. \<not> P x \<Longrightarrow> P y \<Longrightarrow> List.find P (xs @ y # ys) = Some y"
  by (induction xs) auto

text \<open>The answer to it goes to its client, and a granted identifier becomes the client's.\<close>

lemma grant_for_client:
  assumes q: "qmi_proxy_ctl_msg q = [\<lparr>msg_ClientFd = fd, qmi = req\<rparr>]" and ok: "ids_ok (qmi_proxy_connection q)"
    and fd: "fd \<noteq> qmi_proxy_server_fd q" "qmi_proxy_server_fd q \<noteq> - 1" "fd \<in> ClientFd ` set (qmi_proxy_connection q)"
    and same: "answers_head req b = Some True" and b: "grants b" "whole b" "24 \<le> length b"
    and fresh: "granted b \<notin> set (ids (qmi_proxy_connection q))"
  shows "\<exists>r. recv_qmi_from_dev b q = Some r \<and> out (sends r) = out (sends q) @ [(ToClient fd, msg_of b)] \<and>
    qmi_proxy_ctl_msg r = [] \<and> owner (fst (granted b)) (snd (granted b)) (qmi_proxy_connection r) = [fd]"
proof -
  obtain cons r0 where c: "ctl_to_client b fd (qmi_proxy_connection q) q = Some (cons, r0)"
    using ctl_to_client_total [OF b(2,3)] by blast
  from ok have d: "distinct (map ClientFd (qmi_proxy_connection q))" by (simp add: ids_ok_def)
  from ctl_to_client_takes [OF c d] fd(3) obtain xs con ys con' where
    split: "qmi_proxy_connection q = xs @ con # ys" "cons = xs @ con' # ys" "ClientFd con = fd" "take_ctl b con = Some con'"
    by blast
  have "con_ids con' = con_ids con @ [granted b]"
    using split(4) b(1,3) by (auto simp: take_ctl_def grants_def get_client_id_def con_ids_def granted_def bind_eq_Some_conv)
  moreover have "\<forall>k\<in>set xs. granted b \<notin> set (con_ids k)" using fresh split(1) by (auto simp: ids_def)
  moreover have "ClientFd con' = fd" using take_ctl_ids(1) [OF split(4)] split(3) by simp
  ultimately have "List.find (\<lambda>con. granted b \<in> set (con_ids con)) cons = Some con'" and "ClientFd con' = fd"
    unfolding split(2) by (auto intro!: find_behind)
  then have own: "owner (fst (granted b)) (snd (granted b)) cons = [fd]" by (simp add: owner_def)
  have "filter (\<lambda>c. ClientFd c = fd) (qmi_proxy_connection q) = [con]"
  proof -
    have "fd \<notin> ClientFd ` set xs" "fd \<notin> ClientFd ` set ys"
      using d unfolding split(1) split(3) [symmetric] by (simp_all only: map_append list.map distinct_append distinct.simps) auto
    then have "filter (\<lambda>c. ClientFd c = fd) xs = []" "filter (\<lambda>c. ClientFd c = fd) ys = []"
      unfolding filter_empty_conv by blast+
    then show ?thesis using split(1,3) by simp
  qed
  with conjunct1 [OF ctl_to_client_emits [OF c]] have e: "emits [(ToClient fd, msg_of b)] q r0" by simp
  have "recv_qmi_from_dev b q = Some (r0\<lparr>qmi_proxy_connection := cons, qmi_proxy_ctl_msg := []\<rparr>)"
    using q c fd same b(1) by (simp add: recv_qmi_from_dev_def recv_ctl_rsp_def grants_def)
  with emits_fields [OF e] own show ?thesis by simp
qed

text \<open>
  Property C7 (functional): a client on an idle proxy that asks for an identifier gets one:
  its request goes to the modem unchanged, the modem's answer to it goes back unchanged and
  to this client only, the proxy is idle again, and the granted identifier is recorded as
  the client's, so that the answers for it are the client's from then on.
\<close>

theorem client_gets_identifier:
  assumes "proxy_wf p" "ids_ok (qmi_proxy_connection p)" "qmi_proxy_ctl_msg p = []"
    and "fd \<in> ClientFd ` set (qmi_proxy_connection p)"
    and "fd \<noteq> cdc_fd p" "fd \<noteq> qmi_proxy_server_fd p" "cdc_fd p \<noteq> qmi_proxy_server_fd p" "qmi_proxy_server_fd p \<noteq> - 1"
    and "12 \<le> length req" "length req \<le> QMI_BUF" "frame_ok req" "is_ctl req" "rd16 req 8 = Some 0x0022"
    and "24 \<le> length rsp" "length rsp \<le> QMI_BUF" "frame_ok rsp" "grants rsp" "rd8 rsp 7 = rd8 req 7"
    and "granted rsp \<notin> set (ids (qmi_proxy_connection p))"
  shows "\<exists>q a r. serve_pollfd fd (Readable x req) p = Some (Continue, q) \<and>
    serve_pollfd (cdc_fd p) (Readable y rsp) q = Some (a, r) \<and>
    out (sends r) = out (sends p) @ [(ToDevice, req), (ToClient fd, rsp)] \<and> qmi_proxy_ctl_msg r = [] \<and>
    owner (fst (granted rsp)) (snd (granted rsp)) (qmi_proxy_connection r) = [fd]"
proof -
  have "0x0022 \<noteq> QMICTL_SYNC_REQ" by (simp add: QMICTL_SYNC_REQ_def)
  from request_on_idle_proxy [OF assms(9-11,1,12,13) this assms(3,5,6,8)] obtain q where
    q: "serve_pollfd fd (Readable x req) p = Some (Continue, q)" "out (sends q) = out (sends p) @ [(ToDevice, req)]"
      "qmi_proxy_ctl_msg q = [\<lparr>msg_ClientFd = fd, qmi = req\<rparr>]" "qmi_proxy_connection q = qmi_proxy_connection p" "same_fds p q"
    by blast
  have "proxy_wf q" using serve_pollfd_wf [OF q(1) assms(1)] assms(9,10) by simp
  moreover have l: "12 \<le> length rsp" using assms(14) by simp
  ultimately have f: "rsp \<noteq> []" "buffered rsp (qmi_buf (read_qmi rsp q))" "msg_of (qmi_buf (read_qmi rsp q)) = rsp"
    "whole (qmi_buf (read_qmi rsp q))" "\<exists>len. rd16 (qmi_buf (read_qmi rsp q)) 1 = Some len \<and> length rsp = unat len + 1"
    using frame_reads [OF l assms(15,16)] by blast+
  let ?b = "qmi_buf (read_qmi rsp q)" and ?q = "read_qmi rsp q"
  from f(2) obtain rest where rest: "?b = rsp @ rest" by (auto simp: buffered_def)
  have b: "grants ?b" "granted ?b = granted rsp" "24 \<le> length ?b"
  proof -
    have "rd16 ?b 15 = rd16 rsp 15" "rd16 ?b 17 = rd16 rsp 17" "rd8 ?b 22 = rd8 rsp 22" "rd8 ?b 23 = rd8 rsp 23"
      using assms(14) rest by (auto simp: read_append)
    moreover from this have "ctl_success ?b = ctl_success rsp" by (simp only: ctl_success_def)
    ultimately show "grants ?b" "granted ?b = granted rsp"
      using assms(17) buffered_reads [OF f(2)] by (simp_all add: grants_def granted_def)
  qed (use assms(14) rest in simp)
  have same: "answers_head req ?b = Some True"
  proof -
    have "rd8 req 7 = Some (req ! 7)" using assms(9) by (simp add: rd8_def)
    with assms(13,17,18) buffered_reads(5,6) [OF f(2)] show ?thesis
      by (simp add: answers_head_def grants_def QMICTL_GET_CLIENT_ID_RESP_def)
  qed
  have "qmi_proxy_ctl_msg ?q = [\<lparr>msg_ClientFd = fd, qmi = req\<rparr>]" "ids_ok (qmi_proxy_connection ?q)"
    "fd \<noteq> qmi_proxy_server_fd ?q" "qmi_proxy_server_fd ?q \<noteq> - 1" "fd \<in> ClientFd ` set (qmi_proxy_connection ?q)"
    "granted ?b \<notin> set (ids (qmi_proxy_connection ?q))"
    using q assms(2,4,6,8,19) b(2) by (simp_all add: read_qmi_same same_fds_def)
  from grant_for_client [OF this(1-5) same b(1) f(4) b(3) this(6)] obtain r where
    r: "recv_qmi_from_dev ?b ?q = Some r" "out (sends r) = out (sends q) @ [(ToClient fd, rsp)]" "qmi_proxy_ctl_msg r = []"
      "owner (fst (granted rsp)) (snd (granted rsp)) (qmi_proxy_connection r) = [fd]"
    using b(2) f(3) by (auto simp: read_qmi_def)
  have "serve_pollfd (cdc_fd p) (Readable y rsp) q = Some (if modem_reset_flag r then Exit else Continue, r)"
    using r(1) f(1,5) assms(7) q(5) by (auto simp: serve_pollfd_def serve_device_def same_fds_def Let_def)
  with q(1,2) r show ?thesis by auto
qed

definition rsp0 :: "byte list" where
  "rsp0 = [0x01, 23, 0, 0, 0, 0, 0x01, 1, 0x22, 0, 12, 0, 0x02, 4, 0, 0, 0, 0, 0, 0x01, 2, 0, 1, 5]"

lemma rsp0_reads:
  "length rsp0 = 24" "frame_ok rsp0" "grants rsp0" "rd8 rsp0 7 = Some 1" "granted rsp0 = (1, 5)"
  by (simp_all add: rsp0_def frame_ok_def grants_def granted_def rd8_def rd16_def of_le16_def ctl_success_def
    QMUX_TYPE_CTL_def QMICTL_GET_CLIENT_ID_RESP_def)

lemma client_gets_identifier_witness:
  "\<exists>q a r. serve_pollfd 7 (Readable 0 (get_cid 1 1)) proxy0 = Some (Continue, q) \<and>
     serve_pollfd 3 (Readable 0 rsp0) q = Some (a, r) \<and>
     out (sends r) = [(ToDevice, get_cid 1 1), (ToClient 7, rsp0)] \<and> owner 1 5 (qmi_proxy_connection r) = [7]"
proof -
  have p: "ids_ok (qmi_proxy_connection proxy0)" "qmi_proxy_ctl_msg proxy0 = []"
    "7 \<in> ClientFd ` set (qmi_proxy_connection proxy0)" "7 \<noteq> cdc_fd proxy0" "7 \<noteq> qmi_proxy_server_fd proxy0"
    "cdc_fd proxy0 \<noteq> qmi_proxy_server_fd proxy0" "qmi_proxy_server_fd proxy0 \<noteq> - 1"
    by (simp_all add: proxy0_def ids_ok_def con_ids_def)
  have m: "12 \<le> length (get_cid 1 1)" "length (get_cid 1 1) \<le> QMI_BUF" "24 \<le> length rsp0" "length rsp0 \<le> QMI_BUF"
    "rd8 rsp0 7 = rd8 (get_cid 1 1) 7" "granted rsp0 \<notin> set (ids (qmi_proxy_connection proxy0))"
    by (simp_all add: get_cid_reads rsp0_reads QMI_BUF_def) (simp add: proxy0_def con_ids_def)
  have c: "cdc_fd proxy0 = 3" "sends proxy0 = []" by (simp_all add: proxy0_def)
  from client_gets_identifier [OF proxy0_wf p m(1,2) get_cid_reads(7,3,4) m(3,4) rsp0_reads(2,3) m(5,6), of 0 0]
  show ?thesis unfolding c by (simp add: rsp0_reads) blast
qed

end
