(* ===== verification/QmiProxySafe.thy ===== *)
theory QmiProxySafe
  imports QmiProxyProps
begin

text \<open>
  Which reads keep the QMI proxy inside its messages. Whatever the modem sends is safe, because
  it is read in the receive buffer; a client's control message is queued as a copy of its own
  size and compared with the modem's answer later, so it must reach to the end of its type.
\<close>

section \<open>Safe reads and states\<close>

definition msg_safe :: "proxy_msg \<Rightarrow> bool" where
  "msg_safe m \<longleftrightarrow> whole (qmi m) \<and> 10 \<le> length (qmi m)"

definition proxy_safe :: "proxy \<Rightarrow> bool" where
  "proxy_safe p \<longleftrightarrow> length (qmi_buf p) = QMI_BUF \<and> (\<forall>m\<in>set (qmi_proxy_ctl_msg p). msg_safe m)"





text \<open>A step that succeeds and keeps the state safe and the device.\<close>

definition safe_after :: "proxy \<Rightarrow> proxy \<Rightarrow> bool" where
  "safe_after p p' \<longleftrightarrow> proxy_safe p' \<and> cdc_fd p' = cdc_fd p"




lemma safe_after_upd [simp]:
  "safe_after p (p'\<lparr>qmi_proxy_connection := c\<rparr>) = safe_after p p'" "safe_after p (p'\<lparr>closed_fds := x\<rparr>) = safe_after p p'"
  by (simp_all add: safe_after_def proxy_safe_def)

section \<open>Requests and departures\<close>




section \<open>Messages\<close>





section \<open>The loop\<close>

lemma read_safe:
  assumes "proxy_safe p" "length data \<le> QMI_BUF"
  shows "safe_after p (read_qmi data p)" "24 \<le> length (qmi_buf (read_qmi data p))"
    "\<exists>len. rd16 (qmi_buf (read_qmi data p)) 1 = Some len \<and>
       (length data = unat len + 1 \<longrightarrow> whole (qmi_buf (read_qmi data p)))"
proof -
  have l: "length (qmi_buf (read_qmi data p)) = QMI_BUF" using assms by (simp add: proxy_safe_def read_qmi_def)
  show "safe_after p (read_qmi data p)" using assms(1) l by (simp add: safe_after_def proxy_safe_def read_qmi_def)
  show b: "24 \<le> length (qmi_buf (read_qmi data p))" using l by (simp add: QMI_BUF_def)
  from rd_long(1) [OF b, of 1] l assms(2) show "\<exists>len. rd16 (qmi_buf (read_qmi data p)) 1 = Some len \<and>
       (length data = unat len + 1 \<longrightarrow> whole (qmi_buf (read_qmi data p)))"
    by (auto simp: whole_def)
qed







section \<open>Property\<close>




text \<open>
  A control message of seven bytes is passed on and queued as a copy of seven bytes, and when
  the modem then sends any control response, the proxy reads behind the copy.
\<close>

definition short_ctl :: "byte list" where
  "short_ctl = [0x01, 6, 0, 0, 0, 0, 0]"

theorem short_request_overreads:
  assumes "proxy_wf p" "qmi_proxy_ctl_msg p = []" "qmi_proxy_server_fd p \<noteq> - 1" "fd \<noteq> cdc_fd p"
    "fd \<noteq> qmi_proxy_server_fd p" "rd16 (qmi_buf (read_qmi short_ctl p)) 8 \<noteq> Some QMICTL_SYNC_REQ"
    and "is_ctl b" "rd8 b 6 = Some 0x01"
  shows "\<exists>q. serve_pollfd fd (Readable x short_ctl) p = Some (Continue, q) \<and> recv_qmi_from_dev b q = None"
proof -
  let ?p = "read_qmi short_ctl p"
  have fits: "length short_ctl \<le> QMI_BUF" by (simp add: short_ctl_def QMI_BUF_def)
  have safe: "proxy_safe p" using assms(1,2) by (simp add: proxy_wf_def proxy_safe_def)
  note r = read_safe [OF safe fits]
  have buf: "qmi_buf ?p = short_ctl @ drop (length short_ctl) (qmi_buf p)" by (simp add: read_qmi_def)
  have len: "rd16 (qmi_buf ?p) 1 = Some 6" "rd8 (qmi_buf ?p) 4 = Some QMUX_TYPE_CTL" "take 7 (qmi_buf ?p) = short_ctl"
    unfolding buf by (simp_all add: short_ctl_def rd16_def rd8_def of_le16_def QMUX_TYPE_CTL_def)
  have whole: "whole (qmi_buf ?p)" using r(2) len(1) by (simp add: whole_def)
  obtain ty where ty: "rd16 (qmi_buf ?p) 8 = Some ty" "ty \<noteq> QMICTL_SYNC_REQ"
    using rd_long(1) [OF r(2), of 8] assms(6) by auto
  obtain k q0 where q0: "send_qmi_to_cdc_wdm (qmi_buf ?p) ?p = Some (k, q0)" using send_total(1) [OF whole] by blast
  note e = emits_fields [OF emits_device [OF q0]]
  let ?q = "q0\<lparr>qmi_proxy_ctl_msg := [\<lparr>msg_ClientFd = fd, qmi = short_ctl\<rparr>]\<rparr>"
  have same: "qmi_proxy_ctl_msg ?p = []" "qmi_proxy_server_fd ?p = qmi_proxy_server_fd p"
    using assms(2) by (simp_all add: read_qmi_def)
  have seven: "length short_ctl = 7" by (simp add: short_ctl_def)
  have "recv_qmi_from_client (qmi_buf ?p) 7 fd ?p = Some (0, ?q)"
    using assms(3) same len ty q0 e(2) by (simp add: recv_qmi_from_client_def queue_ctl_def)
  then have "serve_pollfd fd (Readable x short_ctl) p = Some (Continue, ?q)"
    using assms(4,5) len(1) seven by (simp add: serve_pollfd_def serve_client_def Let_def) (simp add: short_ctl_def)
  moreover have "recv_qmi_from_dev b ?q = None"
  proof -
    have "answers_head short_ctl b = None" by (simp add: answers_head_def rd8_def short_ctl_def)
    then show ?thesis
      using assms(3,7,8) same(2) e(3) by (simp add: recv_qmi_from_dev_def recv_ctl_rsp_def is_ctl_def)
  qed
  ultimately show ?thesis by blast
qed

lemma short_request_overreads_witness:
  "\<exists>q. serve_pollfd 7 (Readable 0 short_ctl) proxy0 = Some (Continue, q) \<and> recv_qmi_from_dev ((get_cid 1 1)[6 := 0x01]) q = None"
proof -
  have "rd16 (qmi_buf (read_qmi short_ctl proxy0)) 8 = Some 0"
    by (simp add: read_qmi_def proxy0_def short_ctl_def QMI_BUF_def rd16_def rd8_def of_le16_def nth_append)
  then have "rd16 (qmi_buf (read_qmi short_ctl proxy0)) 8 \<noteq> Some QMICTL_SYNC_REQ" by (simp add: QMICTL_SYNC_REQ_def)
  moreover have "is_ctl ((get_cid 1 1)[6 := 0x01])" "rd8 ((get_cid 1 1)[6 := 0x01]) 6 = Some 0x01"
    by (simp_all add: get_cid_def is_ctl_def rd8_def le16_def QMUX_TYPE_CTL_def)
  ultimately show ?thesis
    using short_request_overreads [OF proxy0_wf, of 7] by (simp add: proxy0_def)
qed

end
