(* ===== verification/GobiNet.thy ===== *)
theory GobiNet
  imports QmiAnswer
begin

text \<open>
  The QMI device of the GobiNet driver, \<open>GobiNetCM.c\<close>. The driver keeps one descriptor per
  client, so the table \<open>qmiclientId\<close> holds descriptors, a request is written without its
  QMUX header, and the thread that reads an answer puts the header back: the service is
  the index of the descriptor in the table.

  What \<open>open\<close> and \<open>ioctl\<close> return is an argument of the start, what \<open>poll\<close> and \<open>read\<close> return
  is the event of a step.
\<close>

section \<open>Sending\<close>

record gobi_dev =
  qmiclientFd :: "int list"
  closed :: "int list"

text \<open>The identifier in the header: the low byte of the descriptor, or the service.\<close>

definition gobi_client_id :: "int \<Rightarrow> byte \<Rightarrow> byte" where
  "gobi_client_id fd QMIType = (if of_int fd = (0 :: byte) then QMIType else of_int fd)"

text \<open>
  The result, the bytes written (when the descriptor is one) and the request with the
  identifier filled in. \<open>w\<close> is what \<open>write\<close> returns for a size; a request shorter than its
  header makes the size negative.
\<close>

definition GobiNetSendQMI ::
  "gobi_dev \<Rightarrow> (int \<Rightarrow> int) \<Rightarrow> byte list \<Rightarrow> (int \<times> (int \<times> byte list) option \<times> byte list) option" where
  "GobiNetSendQMI d w pRequest = do {
     qt \<leftarrow> rd8 pRequest 4;
     if length (qmiclientFd d) \<le> unat qt then None else do {
       let fd = qmiclientFd d ! unat qt;
       let req = pRequest[5 := gobi_client_id fd qt];
       if fd \<le> 0 then Some (- ENODEV, None, req)
       else do {
         len \<leftarrow> rd16 req 1;
         let nwrites = int (unat len) + 1 - 6;
         let ret = w nwrites;
         Some (if ret = nwrites then 0 else ret, Some (fd, take (nat nwrites) (drop 6 req)), req) } } }"

section \<open>Opening and closing clients\<close>

text \<open>\<open>r\<close> is the result of \<open>cm_open_dev\<close> and whether the \<open>ioctl\<close> for the service succeeded.\<close>

definition GobiNetGetClientID :: "int \<times> bool \<Rightarrow> gobi_dev \<Rightarrow> int \<times> gobi_dev" where
  "GobiNetGetClientID r d = (case r of (ClientId, ok) \<Rightarrow>
     if ClientId = - 1 then (0, d)
     else if \<not> ok then (0, d\<lparr>closed := closed d @ [ClientId]\<rparr>)
     else (ClientId, d))"

definition GobiNetDeInit :: "gobi_dev \<Rightarrow> gobi_dev" where
  "GobiNetDeInit d = d\<lparr>closed := closed d @ filter (\<lambda>fd. fd \<noteq> 0) (qmiclientFd d),
     qmiclientFd := map (\<lambda>_. 0) (qmiclientFd d)\<rparr>"

definition open_client :: "(byte \<Rightarrow> int \<times> bool) \<Rightarrow> nat \<Rightarrow> byte \<Rightarrow> gobi_dev \<Rightarrow> gobi_dev" where
  "open_client io i svc d =
     (let (fd, d) = GobiNetGetClientID (io (of_nat i)) d in d\<lparr>qmiclientFd := (qmiclientFd d)[i := fd]\<rparr>)"

text \<open>The services the thread opens before its loop; \<open>io\<close> by the index in the table.\<close>

definition open_clients :: "(byte \<Rightarrow> int \<times> bool) \<Rightarrow> PROFILE_T \<Rightarrow> gobi_dev \<Rightarrow> PROFILE_T \<times> gobi_dev" where
  "open_clients io p d =
     (let d = open_client io 0x01 QMUX_TYPE_WDS d;
          d = (if enable_ipv6 p then open_client io 0x11 QMUX_TYPE_WDS d else d);
          d = open_client io 0x02 QMUX_TYPE_DMS d;
          d = open_client io 0x03 QMUX_TYPE_NAS d;
          d = open_client io 0x0B QMUX_TYPE_UIM d
      in if qmap_mode p = 0 \<or> loopback_state p
         then (let d = open_client io 0x1A QMUX_TYPE_WDS_ADMIN d in (p\<lparr>wda_client := qmiclientFd d ! 0x1A\<rparr>, d))
         else (p, d))"

section \<open>The reader thread\<close>

record gobi_thread = wwan_thread +
  dev :: gobi_dev

definition GobiNetThread_quit :: "gobi_thread \<Rightarrow> gobi_thread" where
  "GobiNetThread_quit t = t\<lparr>running := False, dev := GobiNetDeInit (dev t), recvs := recvs t @ [None],
     told_main := told_main t @ [RIL_INDICATE_DEVICE_DISCONNECTED]\<rparr>"

text \<open>\<open>None\<close> when the thread ends because it got no client for the data service.\<close>

definition GobiNetThread_start ::
  "(byte \<Rightarrow> int \<times> bool) \<Rightarrow> PROFILE_T \<Rightarrow> byte list \<Rightarrow> gobi_dev \<Rightarrow> PROFILE_T \<times> gobi_thread" where
  "GobiNetThread_start io p buf d =
     (let (p, d) = open_clients io p d;
          t = \<lparr>wait_for_request_quit = False, running = True, recv_buf = buf, recvs = [], told_main = [], dev = d\<rparr>
      in if qmiclientFd d ! unat QMUX_TYPE_WDS = 0
         then (p, t\<lparr>running := False, dev := GobiNetDeInit d, told_main := [RIL_INDICATE_DEVICE_DISCONNECTED]\<rparr>)
         else (p, t\<lparr>told_main := [RIL_INDICATE_DEVICE_CONNECTED]\<rparr>))"

text \<open>The service of a descriptor: the last index that holds it keeps the field.\<close>

fun fd_service :: "nat \<Rightarrow> int list \<Rightarrow> int \<Rightarrow> byte \<Rightarrow> byte" where
  "fd_service i [] fd qt = qt"
| "fd_service i (x # xs) fd qt = fd_service (i + 1) xs fd (if x = fd then of_nat i else qt)"

text \<open>The header that the thread puts before the bytes read into the buffer behind it.\<close>

definition gobi_message :: "int list \<Rightarrow> int \<Rightarrow> byte list \<Rightarrow> byte list \<Rightarrow> byte list" where
  "gobi_message fds fd data buf =
     (let b = overwrite 6 data buf; qt = fd_service 0 fds fd (b ! 4)
      in [0x01] @ le16 (of_nat (length data + 6 - 1)) @ [0x00, qt, gobi_client_id fd qt] @ drop 6 b)"

definition GobiNetThread_data :: "int \<Rightarrow> byte list \<Rightarrow> gobi_thread \<Rightarrow> gobi_thread" where
  "GobiNetThread_data fd data t =
     (let b = gobi_message (qmiclientFd (dev t)) fd data (recv_buf t)
      in t\<lparr>recv_buf := b, recvs := recvs t @ [Some b]\<rparr>)"

text \<open>
  A turn of the loop. \<open>poll\<close> watches the control descriptor and the clients; for each, in
  the order of the table, it reports nothing, an error, or a read (of the control
  descriptor: an event; of a client: bytes, none when the read failed).
\<close>

datatype gobi_client = ClientQuiet | ClientError | ClientRead "byte list"

datatype gobi_poll =
    GobiTimeout
  | GobiFailed
  | GobiReady bool "control_read option" "(int \<times> gobi_client) list"

fun serve_clients :: "(int \<times> gobi_client) list \<Rightarrow> gobi_thread \<Rightarrow> gobi_thread" where
  "serve_clients [] t = t"
| "serve_clients ((fd, e) # es) t = (case e of
       ClientQuiet \<Rightarrow> serve_clients es t
     | ClientError \<Rightarrow> GobiNetThread_quit t
     | ClientRead data \<Rightarrow> if data = [] then t else serve_clients es (GobiNetThread_data fd data t))"

definition GobiNetThread_step :: "gobi_poll \<Rightarrow> gobi_thread \<Rightarrow> gobi_thread" where
  "GobiNetThread_step e t =
     (if \<not> running t then t else case e of
        GobiTimeout \<Rightarrow> if wait_for_request_quit t then t\<lparr>recvs := recvs t @ [None]\<rparr> else GobiNetThread_quit t
      | GobiFailed \<Rightarrow> GobiNetThread_quit t
      | GobiReady chup cev clients \<Rightarrow>
          if chup \<or> cev = Some CtlQuit then GobiNetThread_quit t
          else serve_clients clients (if cev = Some CtlStop then t\<lparr>wait_for_request_quit := True\<rparr> else t))"

section \<open>The header is put back as it was\<close>

lemma fd_service_behind: "fd \<notin> set xs \<Longrightarrow> fd_service i xs fd qt = qt"
  by (induction xs arbitrary: i) auto

lemma fd_service_unique: "fd \<notin> set zs \<Longrightarrow> fd_service i (ys @ fd # zs) fd qt = of_nat (i + length ys)"
  by (induction ys arbitrary: i qt) (auto simp: fd_service_behind)

text \<open>Every client has a descriptor of its own; 0 marks a service without a client.\<close>

definition fds_distinct :: "int list \<Rightarrow> bool" where
  "fds_distinct fds \<longleftrightarrow> distinct (filter (\<lambda>fd. fd \<noteq> 0) fds)"

lemma fd_service_client:
  assumes "fds_distinct fds" "i < length fds" "fds ! i \<noteq> 0"
  shows "fd_service 0 fds (fds ! i) qt = of_nat i"
proof -
  have split: "fds = take i fds @ fds ! i # drop (Suc i) fds" using assms(2) by (rule id_take_nth_drop)
  have "distinct (filter (\<lambda>fd. fd \<noteq> 0) (take i fds @ fds ! i # drop (Suc i) fds))"
    using assms(1) split by (simp add: fds_distinct_def)
  then have "fds ! i \<notin> set (drop (Suc i) fds)" using assms(3) by simp
  from fd_service_unique [OF this, of 0 "take i fds" qt] split assms(2) show ?thesis by simp
qed

lemma gobi_message_reads:
  assumes "6 + length data \<le> length buf" "3 \<le> length data"
  shows "rd8 (gobi_message fds fd data buf) 4 = Some (fd_service 0 fds fd (buf ! 4))"
    "rd8 (gobi_message fds fd data buf) 5 = Some (gobi_client_id fd (fd_service 0 fds fd (buf ! 4)))"
    "rd16 (gobi_message fds fd data buf) 7 = rd16 data 1"
proof -
  have b4: "overwrite 6 data buf ! 4 = buf ! 4" using assms by (simp add: overwrite_def nth_append)
  have b: "gobi_message fds fd data buf = ([0x01] @ le16 (of_nat (length data + 6 - 1)) @
      [0x00, fd_service 0 fds fd (buf ! 4), gobi_client_id fd (fd_service 0 fds fd (buf ! 4))]) @
      data @ drop (6 + length data) buf"
    using assms b4 by (simp add: gobi_message_def overwrite_def Let_def)
  show "rd8 (gobi_message fds fd data buf) 4 = Some (fd_service 0 fds fd (buf ! 4))"
    "rd8 (gobi_message fds fd data buf) 5 = Some (gobi_client_id fd (fd_service 0 fds fd (buf ! 4)))"
    unfolding b by (simp_all add: rd8_def le16_def)
  show "rd16 (gobi_message fds fd data buf) 7 = rd16 data 1"
    unfolding b using assms(2) by (simp add: rd16_def rd8_def le16_def nth_append numeral_2_eq_2)
qed

lemma gobi_sent:
  assumes "GobiNetSendQMI d w req = Some (0, wr, req')" "rd16 req 7 = Some tid"
  shows "\<exists>qt. rd8 req' 4 = Some qt \<and> rd8 req 4 = Some qt \<and> unat qt < length (qmiclientFd d) \<and> 0 < qmiclientFd d ! unat qt \<and>
    rd8 req' 5 = Some (gobi_client_id (qmiclientFd d ! unat qt) qt) \<and> rd16 req' 7 = Some tid"
proof -
  obtain qt where qt: "rd8 req 4 = Some qt" using assms(1) by (auto simp: GobiNetSendQMI_def bind_eq_Some_conv)
  have l: "8 < length req"
  proof -
    have "rd8 req 8 \<noteq> None" using assms(2) by (auto simp: rd16_def bind_eq_Some_conv)
    then show ?thesis by (auto simp: rd8_def split: if_splits)
  qed
  let ?fd = "qmiclientFd d ! unat qt"
  have in_table: "unat qt < length (qmiclientFd d)" and pos: "0 < ?fd" and req': "req' = req[5 := gobi_client_id ?fd qt]"
    using assms(1) qt by (auto simp: GobiNetSendQMI_def bind_eq_Some_conv Let_def ENODEV_def split: if_splits)
  show ?thesis
    using qt l in_table pos assms(2) unfolding req' by (auto simp: rd8_def rd16_def bind_eq_Some_conv)
qed

text \<open>
  An answer that the driver delivers on the descriptor on which a
  request was written is taken for the response to this request exactly when its transaction
  identifier is the request's; an answer on any other client's descriptor never is. So the
  header that the transport strips when it sends and rebuilds when it reads identifies the
  request as the QMUX header of a transport without descriptors would.
\<close>

theorem gobi_answer_matches_request:
  assumes "GobiNetSendQMI d w req = Some (0, wr, req')" "rd16 req 7 = Some tid" "rd8 req 4 = Some qt" "qt \<noteq> QMUX_TYPE_CTL"
    and "fds_distinct (qmiclientFd d)" "length (qmiclientFd d) \<le> 256"
    and "i < length (qmiclientFd d)" "qmiclientFd d ! i \<noteq> 0"
    and "6 + length data \<le> length buf" "rd16 data 1 = Some tid'"
  shows "is_response req' (gobi_message (qmiclientFd d) (qmiclientFd d ! i) data buf) = Some (i = unat qt \<and> tid' = tid)"
proof -
  from gobi_sent [OF assms(1,2)] assms(3) have q: "rd8 req' 4 = Some qt" "unat qt < length (qmiclientFd d)"
    "rd8 req' 5 = Some (gobi_client_id (qmiclientFd d ! unat qt) qt)" "rd16 req' 7 = Some tid" by auto
  have "3 \<le> length data" using assms(10) rd16_Some_iff [of data 1] by auto
  note m = gobi_message_reads [OF assms(9) this, of "qmiclientFd d" "qmiclientFd d ! i", unfolded fd_service_client [OF assms(5,7,8)]]
  have "qt = of_nat i \<longleftrightarrow> i = unat qt"
  proof
    assume "qt = of_nat i"
    then show "i = unat qt" using assms(6,7) by (simp add: unat_of_nat)
  qed simp
  show ?thesis
  proof (cases "i = unat qt")
    case True
    then have "of_nat i = qt" by simp
    with q m assms(4,10) True show ?thesis by (simp add: is_response_def) blast
  next
    case False
    with \<open>qt = of_nat i \<longleftrightarrow> i = unat qt\<close> q m show ?thesis by (simp add: is_response_def)
  qed
qed

definition gobi0 :: gobi_dev where
  "gobi0 = \<lparr>qmiclientFd = [0, 5, 0, 6] @ replicate 251 0, closed = []\<rparr>"

lemma gobi_answer_matches_request_witness:
  "\<exists>req'. GobiNetSendQMI gobi0 (\<lambda>n. n) [0x01, 12, 0, 0, 3, 0, 0, 7, 0, 0x24, 0, 0, 0] = Some (0, Some (6, [0, 7, 0, 0x24, 0, 0, 0]), req') \<and>
     is_response req' (gobi_message (qmiclientFd gobi0) 6 [2, 7, 0, 0x24, 0, 0, 0] (replicate 13 0)) = Some True"
proof -
  let ?req = "[0x01, 12, 0, 0, 3, 0, 0, 7, 0, 0x24, 0, 0, 0] :: byte list" and ?data = "[2, 7, 0, 0x24, 0, 0, 0] :: byte list"
  have t: "length (qmiclientFd gobi0) = 255" "qmiclientFd gobi0 ! 3 = 6" by (simp_all add: gobi0_def)
  have s: "GobiNetSendQMI gobi0 (\<lambda>n. n) ?req = Some (0, Some (6, [0, 7, 0, 0x24, 0, 0, 0]), ?req[5 := gobi_client_id 6 3])"
    by (simp add: GobiNetSendQMI_def rd8_def rd16_def of_le16_def t)
  have d: "fds_distinct (qmiclientFd gobi0)" by (simp add: gobi0_def fds_distinct_def)
  have r: "rd16 ?req 7 = Some 7" "rd8 ?req 4 = Some 3" "(3 :: byte) \<noteq> QMUX_TYPE_CTL" "rd16 ?data 1 = Some 7"
    by (simp_all add: rd16_def rd8_def of_le16_def QMUX_TYPE_CTL_def)
  from gobi_answer_matches_request [OF s r(1,2,3) d, of 3 ?data "replicate 13 0" 7] r(4) t s show ?thesis by simp
qed

section \<open>The run of the thread\<close>

text \<open>
  \<open>fds\<close> is the table after the start, \<open>cl\<close> what was closed until then. A read brings at most
  what fits behind the header.
\<close>

definition gobi_inv :: "int list \<Rightarrow> int list \<Rightarrow> gobi_thread \<Rightarrow> bool" where
  "gobi_inv fds cl t \<longleftrightarrow>
     (\<forall>m. Some m \<in> set (recvs t) \<longrightarrow> readable m) \<and> length (recv_buf t) = RECV_BUF \<and>
     (running t \<longrightarrow> dev t = \<lparr>qmiclientFd = fds, closed = cl\<rparr> \<and> RIL_INDICATE_DEVICE_DISCONNECTED \<notin> set (told_main t)) \<and>
     (\<not> running t \<longrightarrow> dev t = \<lparr>qmiclientFd = map (\<lambda>_. 0) fds, closed = cl @ filter (\<lambda>fd. fd \<noteq> 0) fds\<rparr> \<and>
        recvs t \<noteq> [] \<and> last (recvs t) = None \<and> count_list (told_main t) RIL_INDICATE_DEVICE_DISCONNECTED = 1)"

definition gobi_fits :: "gobi_poll \<Rightarrow> bool" where
  "gobi_fits e \<longleftrightarrow> (\<forall>c ev clients fd data. e = GobiReady c ev clients \<longrightarrow> (fd, ClientRead data) \<in> set clients \<longrightarrow>
     6 + length data \<le> RECV_BUF)"

definition gobi_fitting_step :: "gobi_poll \<Rightarrow> gobi_thread \<Rightarrow> gobi_thread" where
  "gobi_fitting_step e t = (if gobi_fits e then GobiNetThread_step e t else t)"

lemma gobi_quit_inv: "gobi_inv fds cl t \<Longrightarrow> running t \<Longrightarrow> gobi_inv fds cl (GobiNetThread_quit t)"
  by (auto simp: gobi_inv_def GobiNetThread_quit_def GobiNetDeInit_def count_list_0_iff)

lemma gobi_data_inv:
  assumes inv: "gobi_inv fds cl t" "running t" and l: "6 + length data \<le> RECV_BUF"
  shows "gobi_inv fds cl (GobiNetThread_data fd data t)"
proof -
  let ?m = "gobi_message (qmiclientFd (dev t)) fd data (recv_buf t)"
  have buf: "length (recv_buf t) = RECV_BUF" using inv(1) by (simp add: gobi_inv_def)
  have len: "length ?m = RECV_BUF"
    using l buf by (simp add: gobi_message_def Let_def)
  have "rd16 ?m 1 = Some (of_nat (length data + 6 - 1))"
    by (simp add: gobi_message_def Let_def rd16_def rd8_def le16_def of_le16_le16)
  moreover have "unat (of_nat (length data + 6 - 1) :: u16) < RECV_BUF"
  proof -
    have "unat (of_nat (length data + 6 - 1) :: u16) = length data + 6 - 1"
      using l by (intro unat_of_nat_small) (simp add: RECV_BUF_def)
    then show ?thesis using l by simp
  qed
  ultimately have "readable ?m" using len by (simp add: readable_def RECV_BUF_def)
  with inv len show ?thesis by (auto simp: gobi_inv_def GobiNetThread_data_def Let_def)
qed

lemma serve_clients_inv:
  "gobi_inv fds cl t \<Longrightarrow> running t \<Longrightarrow> \<forall>fd data. (fd, ClientRead data) \<in> set es \<longrightarrow> 6 + length data \<le> RECV_BUF \<Longrightarrow>
     gobi_inv fds cl (serve_clients es t)"
proof (induction es arbitrary: t)
  case (Cons e es)
  obtain fd ev where e: "e = (fd, ev)" by force
  show ?case
  proof (cases ev)
    case (ClientRead data)
    with Cons.prems e have "6 + length data \<le> RECV_BUF" by auto
    from gobi_data_inv [OF Cons.prems(1,2) this] have d: "gobi_inv fds cl (GobiNetThread_data fd data t)" .
    have "running (GobiNetThread_data fd data t)" using Cons.prems(2) by (simp add: GobiNetThread_data_def Let_def)
    from Cons.IH [OF d this] Cons.prems e ClientRead show ?thesis by auto
  qed (use Cons e gobi_quit_inv in auto)
qed simp

lemma gobi_step_inv:
  assumes "gobi_inv fds cl t" shows "gobi_inv fds cl (gobi_fitting_step e t)"
proof (cases "running t \<and> gobi_fits e")
  case True
  show ?thesis
  proof (cases e)
    case (GobiReady chup cev clients)
    let ?t = "if cev = Some CtlStop then t\<lparr>wait_for_request_quit := True\<rparr> else t"
    have "gobi_inv fds cl ?t" "running ?t" using assms True by (auto simp: gobi_inv_def)
    moreover have "\<forall>fd data. (fd, ClientRead data) \<in> set clients \<longrightarrow> 6 + length data \<le> RECV_BUF"
      using True GobiReady by (auto simp: gobi_fits_def)
    ultimately have "gobi_inv fds cl (serve_clients clients ?t)" by (rule serve_clients_inv)
    with True GobiReady gobi_quit_inv [OF assms] show ?thesis
      by (simp add: gobi_fitting_step_def GobiNetThread_step_def)
  qed (use True assms gobi_quit_inv [OF assms] in \<open>auto simp: gobi_fitting_step_def GobiNetThread_step_def gobi_inv_def\<close>)
qed (use assms in \<open>auto simp: gobi_fitting_step_def GobiNetThread_step_def\<close>)

interpretation gobi_reader: stepper gobi_fitting_step "gobi_inv fds cl" for fds cl
  by unfold_locales (rule gobi_step_inv)

text \<open>
  In every run of the GobiNet thread that got its data client, every
  message handed to the main thread is complete and readable; while the thread runs it keeps
  its clients, and when it has ended it has closed each of them exactly once, cleared the
  table, woken the main thread and reported the disconnection exactly once.
\<close>

theorem GobiNetThread_runs:
  assumes "GobiNetThread_start io p buf d = (p', t)" "running t" "length buf = RECV_BUF" "\<forall>e\<in>set es. gobi_fits e"
  shows "gobi_inv (qmiclientFd (dev t)) (closed (dev t)) (fold GobiNetThread_step es t)"
proof -
  have "gobi_inv (qmiclientFd (dev t)) (closed (dev t)) t"
    using assms(1-3)
    by (auto simp: GobiNetThread_start_def gobi_inv_def Let_def split: prod.splits if_splits)
  then have "gobi_inv (qmiclientFd (dev t)) (closed (dev t)) (fold gobi_fitting_step es t)"
    by (rule gobi_reader.run_inv)
  moreover have "fold gobi_fitting_step es t = fold GobiNetThread_step es t"
    using assms(4) by (intro fold_cong) (simp_all add: gobi_fitting_step_def fun_eq_iff)
  ultimately show ?thesis by simp
qed

lemma GobiNetThread_runs_witness:
  "\<forall>p :: PROFILE_T. \<exists>t. snd (GobiNetThread_start (\<lambda>s. (5, True)) (p\<lparr>enable_ipv6 := False, qmap_mode := 1, loopback_state := False\<rparr>)
      (replicate RECV_BUF 0) \<lparr>qmiclientFd = replicate 255 0, closed = []\<rparr>) = t \<and>
     gobi_inv (qmiclientFd (dev t)) [] (fold GobiNetThread_step
       [GobiReady False None [(5, ClientRead [1, 2, 3])], GobiReady True None []] t)"
proof
  fix p :: PROFILE_T
  let ?p = "p\<lparr>enable_ipv6 := False, qmap_mode := 1, loopback_state := False\<rparr>"
  let ?d = "\<lparr>qmiclientFd = replicate 255 0, closed = []\<rparr>"
  let ?es = "[GobiReady False None [(5, ClientRead [1, 2, 3])], GobiReady True None []]"
  obtain p' t where s: "GobiNetThread_start (\<lambda>s. (5, True)) ?p (replicate RECV_BUF 0) ?d = (p', t)" by fastforce
  have "closed (snd (open_clients (\<lambda>s. (5, True)) ?p ?d)) = []" "qmiclientFd (snd (open_clients (\<lambda>s. (5, True)) ?p ?d)) ! 1 = 5"
    by (simp_all add: open_clients_def open_client_def GobiNetGetClientID_def Let_def)
  then have t: "running t" "closed (dev t) = []"
    using s by (auto simp: GobiNetThread_start_def QMUX_TYPE_WDS_def Let_def split: prod.splits if_splits)
  have "\<forall>e\<in>set ?es. gobi_fits e" by (auto simp: gobi_fits_def RECV_BUF_def)
  from GobiNetThread_runs [OF s t(1) _ this] s t(2) show "\<exists>t. snd (GobiNetThread_start (\<lambda>s. (5, True)) ?p
      (replicate RECV_BUF 0) ?d) = t \<and> gobi_inv (qmiclientFd (dev t)) [] (fold GobiNetThread_step ?es t)" by simp
qed

end
