(* ===== verification/AtcDevice.thy ===== *)
theory AtcDevice
  imports AtReader ConnMgr
begin

text \<open>
  The AT modem as a device of the connection manager, the first part of \<open>atc.c\<close>: the state of
  the client, how it issues a command, its start, the handler of unsolicited lines and the
  thread that watches the port. The channel below is \<open>at_chan\<close>; what the modem answers to a
  command, and what it says between two commands, is the environment.
\<close>

section \<open>State and commands\<close>

text \<open>
  \<open>cmd_envs\<close> holds one entry per coming command: the lines that arrive before it, and its
  environment; \<open>handshakes\<close> those of the tries of the handshake. \<open>main_events\<close> are the events
  told to the main thread, \<open>shell_cmds\<close> the commands given to \<open>system\<close>, \<open>reboots\<close> is the flag
  \<open>g_donot_exit_when_modem_hangup\<close> as this file sets it.
\<close>

record atc =
  atchan :: at_chan
  cmd_envs :: "(rd_event list \<times> at_env) list"
  handshakes :: "at_env list"
  asr_style_atc :: bool
  s_pdp :: int
  main_events :: "ril_event list"
  shell_cmds :: "string list"
  reboots :: bool

definition tell_main :: "ril_event list \<Rightarrow> atc \<Rightarrow> atc" where
  "tell_main es a = a\<lparr>main_events := main_events a @ es\<rparr>"

definition onUnsolicited :: "string \<Rightarrow> ril_event list" where
  "onUnsolicited s =
     (if strStartsWith s ''+QNETDEVSTATUS:'' then [RIL_UNSOL_DATA_CALL_LIST_CHANGED]
      else if strStartsWith s ''+CGREG:'' \<or> strStartsWith s ''+CEREG:'' \<or> strStartsWith s ''+C5GREG:''
      then [RIL_UNSOL_RESPONSE_VOICE_NETWORK_STATE_CHANGED] else [])"

text \<open>The handler's part of what the channel did.\<close>

fun unsolicited :: "at_out list \<Rightarrow> ril_event list" where
  "unsolicited [] = []"
| "unsolicited (Unsol s # es) = onUnsolicited s @ unsolicited es"
| "unsolicited (UnsolSms s pdu # es) = onUnsolicited s @ unsolicited es"
| "unsolicited (_ # es) = unsolicited es"

text \<open>
  One command of the main thread: the error code, the response and the new state. \<open>None\<close> when
  it has not returned, or when the environment has no further entry.
\<close>

definition atc_command :: "(at_env \<Rightarrow> at_chan \<Rightarrow> send_res) \<Rightarrow> atc \<Rightarrow> (int \<times> at_response option \<times> atc) option" where
  "atc_command send a = (case cmd_envs a of [] \<Rightarrow> None
     | (evs, en) # rest \<Rightarrow> (case send en (fold rd_step evs (atchan a)) of
         Returned err r c \<Rightarrow>
           Some (err, r, tell_main (unsolicited (drop (length (out (atchan a))) (out c)))
             (a\<lparr>atchan := c, cmd_envs := rest\<rparr>))
       | _ \<Rightarrow> None))"

definition at_response_error :: "int \<Rightarrow> at_response option \<Rightarrow> bool" where
  "at_response_error err p_response \<longleftrightarrow> err \<noteq> 0 \<or> (case p_response of None \<Rightarrow> True
     | Some r \<Rightarrow> finalResponse r = None \<or> success r = 0)"

text \<open>The response when there is no error.\<close>

definition good_response :: "int \<Rightarrow> at_response option \<Rightarrow> at_response option" where
  "good_response err r = (if at_response_error err r then None else r)"

definition first_line :: "at_response \<Rightarrow> string option" where
  "first_line r = (case p_intermediates r of [] \<Rightarrow> None | l # _ \<Rightarrow> Some l)"

abbreviation quoted :: "string \<Rightarrow> string" where
  "quoted s \<equiv> CHR 0x22 # s @ [CHR 0x22]"

text \<open>What a conversion stored through its pointer, or the value that was there.\<close>

definition scan_int :: "tok_val option list \<Rightarrow> nat \<Rightarrow> int \<Rightarrow> int" where
  "scan_int vals i old = (if length vals \<le> i then old
     else case vals ! i of Some (VInt v) \<Rightarrow> v | _ \<Rightarrow> old)"

definition scan_str :: "tok_val option list \<Rightarrow> nat \<Rightarrow> string option" where
  "scan_str vals i = (if length vals \<le> i then None
     else case vals ! i of Some (VStr s) \<Rightarrow> Some s | _ \<Rightarrow> None)"

section \<open>Start\<close>

text \<open>Asking for the status command tells the two families of modems apart.\<close>

definition probe_style :: "atc \<Rightarrow> (int \<times> atc) option" where
  "probe_style a = do {
     (err, r, a) \<leftarrow> atc_command (at_send_command_singleline False ''AT+QNETDEVSTATUS=?'' ''+QNETDEVSTATUS:'' True) a;
     Some (err, if at_response_error err r then a\<lparr>asr_style_atc := True\<rparr> else a) }"

definition set_nat :: "int \<Rightarrow> atc \<Rightarrow> atc option" where
  "set_nat new_nat a = do {
     (err, r, a) \<leftarrow> atc_command (at_send_command False (''AT+QCFG='' @ quoted ''NAT'' @ '','' @ dec_int new_nat) True) a;
     if at_response_error err r then Some a
     else do {
       (err, _, a) \<leftarrow> atc_command (at_send_command False ''at+cfun=1,1'' False) a;
       Some (if err = 0 then a\<lparr>reboots := True\<rparr> else a) } }"

definition check_nat :: "atc \<Rightarrow> (int \<times> atc) option" where
  "check_nat a = do {
     (err, r, a) \<leftarrow> atc_command (at_send_command_singleline False (''AT+QCFG='' @ quoted ''NAT'') ''+QCFG:'' True) a;
     case good_response err r of None \<Rightarrow> Some (err, a)
     | Some r \<Rightarrow> do {
         l \<leftarrow> first_line r;
         let (n, vals) = at_tok_scanf (Some l) ''%s%d'';
         let new_nat = (if asr_style_atc a then 1 else 0);
         a \<leftarrow> (if n = 2 \<and> scan_int vals 1 0 \<noteq> new_nat then set_nat new_nat a else Some a);
         Some (0, a) } }"

definition atc_init :: "PROFILE_T \<Rightarrow> atc \<Rightarrow> (int \<times> atc) option" where
  "atc_init p a =
     (if proxy p \<noteq> [] then probe_style (a\<lparr>s_pdp := pdp p\<rparr>)
      else if length (handshakes a) < 8 then None
      else case at_handshake False (handshakes a) (atchan a) of
        Returned err _ c \<Rightarrow>
          (let a = a\<lparr>atchan := c, handshakes := drop 8 (handshakes a)\<rparr> in
           if err \<noteq> 0 then Some (err, a)
           else do {
             let a = a\<lparr>s_pdp := pdp p\<rparr>;
             (_, _, a) \<leftarrow> atc_command (at_send_command_singleline False (''AT+QCFG='' @ quoted ''usbnet'') ''+QCFG:'' False) a;
             (_, _, a) \<leftarrow> atc_command (at_send_command_multiline False ''AT+QNETDEVCTL=?'' ''+QNETDEVCTL:'' False) a;
             (_, _, a) \<leftarrow> atc_command (at_send_command False ''AT+CGREG=2'' False) a;
             (_, _, a) \<leftarrow> atc_command (at_send_command False ''AT+CEREG=2'' False) a;
             (_, _, a) \<leftarrow> atc_command (at_send_command False ''AT+C5GREG=2'' False) a;
             (_, a) \<leftarrow> probe_style a;
             check_nat (if idProduct (usb_dev p) = 0x6007 then a\<lparr>asr_style_atc := True\<rparr> else a) })
      | _ \<Rightarrow> None)"

definition atc_deinit :: "atc \<Rightarrow> int" where
  "atc_deinit a = 0"

section \<open>The thread that watches the port\<close>

text \<open>
  The port is read by the channel's own reader; this thread only notices that it is gone, and
  obeys the main thread. A poll reports for the port and for the control descriptor an error,
  nothing, or (of the control descriptor) what was read.
\<close>

record atc_thread =
  atc_quits :: bool
  atc_running :: bool
  atc_told :: "ril_event list"
  thread_chan :: at_chan

datatype atc_poll =
    AtcTimeout
  | AtcFailed
  | AtcReady bool bool "control_read option"

definition atc_quit :: "atc_thread \<Rightarrow> atc_thread" where
  "atc_quit t = t\<lparr>atc_running := False, thread_chan := at_close (thread_chan t),
     atc_told := atc_told t @ [RIL_INDICATE_DEVICE_DISCONNECTED]\<rparr>"

text \<open>\<open>fd\<close> is what \<open>cm_open_dev\<close> returns, \<open>opened\<close> whether \<open>at_open\<close> got its reader thread.\<close>

definition atc_read_thread_start :: "int \<Rightarrow> bool \<Rightarrow> at_chan \<Rightarrow> atc_thread" where
  "atc_read_thread_start fd opened c =
     (let t = \<lparr>atc_quits = False, atc_running = True, atc_told = [], thread_chan = c\<rparr> in
      if fd \<le> 0 then atc_quit t
      else (let t = t\<lparr>thread_chan := at_open fd True False c\<rparr> in
        if \<not> opened then atc_quit t
        else t\<lparr>thread_chan := (thread_chan t)\<lparr>s_onTimeout := True, s_onReaderClosed := True\<rparr>,
               atc_told := [RIL_INDICATE_DEVICE_CONNECTED]\<rparr>))"

definition atc_read_thread_step :: "atc_poll \<Rightarrow> atc_thread \<Rightarrow> atc_thread" where
  "atc_read_thread_step e t =
     (if \<not> atc_running t then t else case e of
        AtcTimeout \<Rightarrow> if atc_quits t then atc_quit t else t
      | AtcFailed \<Rightarrow> atc_quit t
      | AtcReady port_gone ctl_gone ctl \<Rightarrow>
          if port_gone \<or> ctl_gone \<or> ctl = Some CtlQuit then atc_quit t
          else if ctl = Some CtlStop then t\<lparr>atc_quits := True\<rparr> else t)"

text \<open>
  While the thread runs it has announced the modem once; after it has ended the channel is closed
  and the main thread has been told so, last and once.
\<close>

definition atc_thread_inv :: "atc_thread \<Rightarrow> bool" where
  "atc_thread_inv t \<longleftrightarrow>
     (if atc_running t then atc_told t = [RIL_INDICATE_DEVICE_CONNECTED]
      else s_readerClosed (thread_chan t) \<and> s_fd (thread_chan t) = - 1 \<and>
        atc_told t \<in> {[RIL_INDICATE_DEVICE_DISCONNECTED],
          [RIL_INDICATE_DEVICE_CONNECTED, RIL_INDICATE_DEVICE_DISCONNECTED]})"

lemma atc_quit_inv: "atc_thread_inv t \<Longrightarrow> atc_running t \<Longrightarrow> atc_thread_inv (atc_quit t)"
  by (simp add: atc_thread_inv_def atc_quit_def at_close_def emit_def)

lemma atc_read_thread_step_inv: "atc_thread_inv t \<Longrightarrow> atc_thread_inv (atc_read_thread_step e t)"
  using atc_quit_inv [of t]
  by (cases e) (auto simp: atc_read_thread_step_def atc_thread_inv_def split: if_splits)

interpretation atc_reader: stepper atc_read_thread_step atc_thread_inv
  by unfold_locales (rule atc_read_thread_step_inv)

lemma atc_read_thread_start_inv: "atc_thread_inv (atc_read_thread_start fd opened c)"
  by (simp add: atc_read_thread_start_def atc_thread_inv_def atc_quit_def at_close_def emit_def Let_def)

lemma atc_read_thread_runs: "atc_thread_inv (fold atc_read_thread_step es (atc_read_thread_start fd opened c))"
  by (rule atc_reader.run_inv) (rule atc_read_thread_start_inv)

end
