(* ===== verification/AtcRequests.thy ===== *)
theory AtcRequests
  imports AtcDevice
begin

text \<open>
  The requests of the AT data call client that concern the SIM, the profile and the network,
  \<open>atc.c\<close> from \<open>requestBaseBandVersion\<close> to \<open>requestRegistrationState\<close>, and the two that read
  identities. Each is the function of the code with the prefix \<open>atc_\<close>. A local that the code
  reads without having set it makes the result \<open>None\<close>, and so does a pointer left over from
  the previous line, which then points into the scanner's overwritten buffer.
\<close>

section \<open>Version, SIM and PIN\<close>

definition atc_requestBaseBandVersion :: "PROFILE_T \<Rightarrow> atc \<Rightarrow> (int \<times> PROFILE_T \<times> atc) option" where
  "atc_requestBaseBandVersion p a = do {
     (err, r, a) \<leftarrow> atc_command (at_send_command_multiline False ''AT+CGMR'' [] True) a;
     Some (case good_response err r of None \<Rightarrow> (- 1, p, a)
       | Some r \<Rightarrow> (case first_line r of None \<Rightarrow> (- 1, p, a)
           | Some l \<Rightarrow> (0, p\<lparr>BaseBandVersion := take 63 l\<rparr>, a))) }"

text \<open>
  The state named by the answer to \<open>AT+CPIN?\<close>. For the network lock the code returns the
  number of the state (here \<open>Inr\<close>) and does not set it.
\<close>

definition sim_of_cpin :: "string \<Rightarrow> SIM_Status + int" where
  "sim_of_cpin s =
     (if s = ''SIM PIN'' then Inl SIM_PIN
      else if s = ''SIM PUK'' then Inl SIM_PUK
      else if s = ''PH-NET PIN'' then Inr 5
      else if s \<noteq> ''READY'' then Inl SIM_ABSENT
      else Inl SIM_READY)"

definition atc_requestGetSIMStatus :: "SIM_Status \<Rightarrow> atc \<Rightarrow> (int \<times> SIM_Status \<times> atc) option" where
  "atc_requestGetSIMStatus st a = do {
     (err, r, a) \<leftarrow> atc_command (at_send_command_singleline False ''AT+CPIN?'' ''+CPIN:'' True) a;
     case good_response err r of None \<Rightarrow> Some (err, SIM_NOT_READY, a)
     | Some r \<Rightarrow>
         let cme = at_get_cme_error (Some r) in
         if cme \<noteq> 0 then Some (err, if cme = 10 \<or> cme = 3 \<or> cme = 13 then SIM_ABSENT else SIM_NOT_READY, a)
         else do {
           l \<leftarrow> first_line r;
           (case at_tok_start (Some l) of (err, cur) \<Rightarrow>
             if err < 0 then Some (err, SIM_NOT_READY, a)
             else (case at_tok_nextstr cur of (err, _, res) \<Rightarrow>
               if err < 0 then Some (err, SIM_NOT_READY, a)
               else do {
                 s \<leftarrow> res;
                 Some (case sim_of_cpin s of Inl st' \<Rightarrow> (err, st', a) | Inr code \<Rightarrow> (code, st, a)) })) } }"

definition atc_requestEnterSimPin :: "string \<Rightarrow> atc \<Rightarrow> (int \<times> atc) option" where
  "atc_requestEnterSimPin pPinCode a = do {
     (err, _, a) \<leftarrow> atc_command (at_send_command False (''AT+CPIN='' @ pPinCode) False) a;
     Some (if \<not> at_response_error err None then 0 else - 1, a) }"

section \<open>Profile\<close>

definition ip_name :: "int \<Rightarrow> string option" where
  "ip_name i = (if i = 0 then Some ''NULL'' else if i = 1 then Some ''IPV4''
     else if i = 2 then Some ''IPV6'' else if i = 3 then Some ''IPV4V6'' else None)"

definition or_empty :: "string option \<Rightarrow> string" where
  "or_empty s = (case s of None \<Rightarrow> [] | Some t \<Rightarrow> t)"

definition qicsgp_set :: "PROFILE_T \<Rightarrow> string" where
  "qicsgp_set p = ''AT+QICSGP='' @ dec_int (pdp p) @ '','' @ dec_int (iptype p) @ '',''
     @ quoted (or_empty (apn p)) @ '','' @ quoted (or_empty (user p)) @ '','' @ quoted (or_empty (pd p))
     @ '','' @ dec_int (auth p)"

definition cgdcont_set :: "PROFILE_T \<Rightarrow> string \<Rightarrow> string" where
  "cgdcont_set p ty = ''AT+CGDCONT='' @ dec_int (pdp p) @ '','' @ quoted ty @ '','' @ quoted (or_empty (apn p))"

definition atc_requestSetProfile :: "PROFILE_T \<Rightarrow> atc \<Rightarrow> (int \<times> atc) option" where
  "atc_requestSetProfile p a = do {
     ty \<leftarrow> ip_name (iptype p);
     if old_apn p = or_empty (apn p) \<and> old_user p = or_empty (user p) \<and> old_pd p = or_empty (pd p)
        \<and> old_iptype p = iptype p \<and> old_auth p = auth p
     then Some (0, a)
     else do {
       (err, r, a) \<leftarrow> atc_command (at_send_command False (qicsgp_set p) True) a;
       if at_response_error err r
       then do {
         (_, _, a) \<leftarrow> atc_command (at_send_command False (cgdcont_set p ty) True) a;
         Some (1, a) }
       else Some (1, a) } }"

text \<open>Reading the profile: the locals that the end of the function copies.\<close>

record old_settings =
  o_iptype :: int
  o_apn :: string
  o_user :: string
  o_pd :: string
  o_auth :: int

definition old0 :: old_settings where
  "old0 = \<lparr>o_iptype = 1, o_apn = [], o_user = [], o_pd = [], o_auth = 0\<rparr>"

text \<open>The label \<open>_error\<close>: a string that fills its array has no terminator when it is printed.\<close>

definition get_profile_end :: "int \<Rightarrow> old_settings \<Rightarrow> PROFILE_T \<Rightarrow> atc \<Rightarrow> (int \<times> PROFILE_T \<times> atc) option" where
  "get_profile_end ret old p a =
     (if 63 < length (o_apn old) \<or> 63 < length (o_user old) \<or> 63 < length (o_pd old) then None
      else do {
        ip_name (o_iptype old);
        Some (ret, p\<lparr>old_apn := o_apn old, old_user := o_user old, old_pd := o_pd old,
                old_auth := o_auth old, old_iptype := o_iptype old\<rparr>, a) })"

text \<open>
  The answer to \<open>AT+QICSGP=<pdp>\<close>. The comparison of the count is with 4 for five conversions;
  with exactly four stored the code goes on to read the local \<open>pdp\<close>, which nothing has set.
\<close>

definition old_of_qicsgp :: "tok_val option list \<Rightarrow> old_settings" where
  "old_of_qicsgp vals = \<lparr>o_iptype = scan_int vals 0 1, o_apn = or_empty (scan_str vals 1),
     o_user = or_empty (scan_str vals 2), o_pd = or_empty (scan_str vals 3), o_auth = scan_int vals 4 0\<rparr>"

definition parse_qicsgp :: "string \<Rightarrow> old_settings option" where
  "parse_qicsgp l = (case at_tok_scanf (Some l) ''%d%s%s%s%d'' of (n, vals) \<Rightarrow>
     if n \<noteq> 4 then Some (old_of_qicsgp vals) else None)"

text \<open>
  The lines of \<open>AT+CGDCONT?\<close>; \<open>pdp0\<close> is what the local \<open>pdp\<close> holds (\<open>None\<close>: nothing yet). The
  address type and the name, when a line for the profile is found.
\<close>

fun scan_cgdcont :: "int \<Rightarrow> string list \<Rightarrow> int option \<Rightarrow> (int \<times> string) option option" where
  "scan_cgdcont want [] pdp0 = Some None"
| "scan_cgdcont want (l # ls) pdp0 =
     (case at_tok_scanf (Some l) ''%d%s%s'' of (n, vals) \<Rightarrow>
        let pdp1 = (case vals of Some (VInt v) # _ \<Rightarrow> Some v | _ \<Rightarrow> pdp0) in
        if n = 3 \<and> pdp1 = Some want then do {
          ty \<leftarrow> scan_str vals 1;
          Some (Some (if strcaseeq ty ''IPV4V6'' then 3 else if strcaseeq ty ''IPV6'' then 2 else 1,
            or_empty (scan_str vals 2))) }
        else scan_cgdcont want ls pdp1)"

definition get_profile_cgdcont :: "PROFILE_T \<Rightarrow> atc \<Rightarrow> (int \<times> PROFILE_T \<times> atc) option" where
  "get_profile_cgdcont p a = do {
     (err, r, a) \<leftarrow> atc_command (at_send_command_multiline False ''AT+CGDCONT?'' ''+CGDCONT:'' True) a;
     case good_response err r of None \<Rightarrow> get_profile_end (- 1) old0 p a
     | Some r \<Rightarrow> do {
         found \<leftarrow> scan_cgdcont (pdp p) (p_intermediates r) None;
         get_profile_end 0 (case found of None \<Rightarrow> old0
           | Some (ty, name) \<Rightarrow> old0\<lparr>o_iptype := ty, o_apn := name\<rparr>) p a } }"

text \<open>
  From the label \<open>_re_check\<close>: a modem that answers without a line gets the context defined and
  is asked again.
\<close>

definition qicsgp_empty :: "PROFILE_T \<Rightarrow> string" where
  "qicsgp_empty p = ''AT+QICSGP='' @ dec_int (pdp p) @ '','' @ dec_int (iptype p) @ '',''
     @ quoted [] @ '','' @ quoted [] @ '','' @ quoted [] @ '',0''"

text \<open>The end of the branch taken by \<open>re_check\<close>: the response decides how the profile is read.\<close>

definition get_profile_from :: "int \<Rightarrow> at_response option \<Rightarrow> PROFILE_T \<Rightarrow> atc \<Rightarrow> (int \<times> PROFILE_T \<times> atc) option" where
  "get_profile_from err r p a = (case good_response err r of
       Some r \<Rightarrow> do { l \<leftarrow> first_line r; old \<leftarrow> parse_qicsgp l; get_profile_end (- 1) old p a }
     | None \<Rightarrow> get_profile_cgdcont p a)"

partial_function (option) re_check :: "PROFILE_T \<Rightarrow> atc \<Rightarrow> (int \<times> PROFILE_T \<times> atc) option" where
  "re_check p a = Option.bind
     (atc_command (at_send_command_singleline False (''AT+QICSGP='' @ dec_int (pdp p)) ''+QICSGP:'' True) a)
     (\<lambda>(err, r, a). if err = at_error_invalid_response \<and> r = None
        then Option.bind (atc_command (at_send_command False (qicsgp_empty p) True) a)
          (\<lambda>(err, r, a). if \<not> at_response_error err r then re_check p a else get_profile_from err r p a)
        else get_profile_from err r p a)"

lemma re_check_code [code]:
  "re_check p a =
     (case atc_command (at_send_command_singleline False (''AT+QICSGP='' @ dec_int (pdp p)) ''+QICSGP:'' True) a of
       None \<Rightarrow> None
     | Some (err, r, a) \<Rightarrow>
         if err = at_error_invalid_response \<and> r = None
         then (case atc_command (at_send_command False (qicsgp_empty p) True) a of None \<Rightarrow> None
           | Some (err, r, a) \<Rightarrow> if \<not> at_response_error err r then re_check p a else get_profile_from err r p a)
         else get_profile_from err r p a)"
  by (subst re_check.simps) (simp split: option.split)

definition atc_requestGetProfile :: "PROFILE_T \<Rightarrow> atc \<Rightarrow> (int \<times> PROFILE_T \<times> atc) option" where
  "atc_requestGetProfile p a =
     re_check (p\<lparr>iptype := (if enable_ipv4 p \<and> enable_ipv6 p then 3 else if enable_ipv6 p then 2 else 1)\<rparr>) a"

section \<open>Registration\<close>

text \<open>The command and the prefix for the access technology that \<open>AT+COPS?\<close> reports.\<close>

definition reg_command :: "int \<Rightarrow> (string \<times> string) option" where
  "reg_command act =
     (if act \<in> {2, 3, 4, 5, 6} then Some (''AT+CGREG?'', ''+CGREG:'')
      else if act \<in> {7, 13} then Some (''AT+CEREG?'', ''+CEREG:'')
      else if act \<in> {10, 11, 12} then Some (''AT+C5GREG?'', ''+C5GREG:'')
      else None)"

definition act_of_cops :: "string list \<Rightarrow> int option" where
  "act_of_cops ls = (case ls of [] \<Rightarrow> Some (- 1)
     | l # _ \<Rightarrow> (case at_tok_scanf (Some l) ''%d%d%s%d'' of (n, vals) \<Rightarrow>
         if n \<noteq> 4 then None else Some (scan_int vals 3 (- 1))))"

text \<open>The registration state by the number of commas of the line; \<open>None\<close> when it does not parse.\<close>

definition scan_state :: "string \<Rightarrow> nat \<Rightarrow> string \<Rightarrow> int option" where
  "scan_state fmt k line = (case at_tok_scanf (Some line) fmt of (n, vals) \<Rightarrow>
     if n \<noteq> k then None else Some (scan_int vals 1 0))"

definition creg_state :: "string \<Rightarrow> int option" where
  "creg_state line =
     (let commas = at_tok_count (Some line) in
      if commas = 0 then (case at_tok_nextint (Some line) of (err, _, v) \<Rightarrow> if err < 0 then None else v)
      else if commas = 1 then scan_state ''%d%d'' 2 line
      else if commas = 2 then scan_state ''%d%x%x'' 3 line
      else if commas = 3 then scan_state ''%d%d%x%x'' 4 line
      else if commas \<le> 7 then scan_state ''%d%d%x%x%d'' 5 line
      else None)"

definition atc_requestRegistrationState :: "byte \<Rightarrow> atc \<Rightarrow> (int \<times> byte \<times> atc) option" where
  "atc_requestRegistrationState st a = do {
     (err, r, a) \<leftarrow> atc_command (at_send_command_multiline False
       ''AT+COPS=3,0;+COPS?;+COPS=3,1;+COPS?;+COPS=3,2;+COPS?'' ''+COPS:'' True) a;
     case good_response err r of None \<Rightarrow> Some (- 1, 0, a)
     | Some r \<Rightarrow> (case Option.bind (act_of_cops (p_intermediates r)) reg_command of None \<Rightarrow> Some (0, 0, a)
         | Some (cmd, pre) \<Rightarrow> do {
             (err, r, a) \<leftarrow> atc_command (at_send_command_singleline False cmd pre True) a;
             case Option.bind (good_response err r) first_line of None \<Rightarrow> Some (0, 0, a)
             | Some line \<Rightarrow> Some (0, if creg_state line \<in> {Some 1, Some 5} then 1 else 0, a) }) }"

section \<open>Identities\<close>

definition atc_requestGetICCID :: "atc \<Rightarrow> (int \<times> atc) option" where
  "atc_requestGetICCID a = do {
     (err, r, a) \<leftarrow> atc_command (at_send_command_singleline False ''AT+QCCID'' ''+QCCID:'' True) a;
     case Option.bind (good_response err r) first_line of None \<Rightarrow> Some (- 1, a)
     | Some l \<Rightarrow> (case at_tok_scanf (Some l) ''%s'' of (n, vals) \<Rightarrow>
         if n \<noteq> 1 then Some (- 1, a)
         else do { iccid \<leftarrow> scan_str vals 0; Some (if iccid \<noteq> [] then 0 else - 1, a) }) }"

definition atc_requestGetIMSI :: "atc \<Rightarrow> (int \<times> atc) option" where
  "atc_requestGetIMSI a = do {
     (err, r, a) \<leftarrow> atc_command (at_send_command_numeric False ''AT+CIMI'' True) a;
     Some (if Option.bind (good_response err r) first_line = None then - 1 else 0, a) }"

end
