(* ===== verification/AtcData.thy ===== *)
theory AtcData
  imports AtcRequests
begin

text \<open>
  The data call over AT commands, \<open>atc.c\<close> from \<open>requestSetupDataCall\<close> to
  \<open>requestGetSignalInfo\<close>, with the two notations of an IPv4 address that the modems use.
\<close>

section \<open>Reading an address\<close>

text \<open>
  \<open>sscanf\<close>: a conversion \<open>%d\<close> takes the longest number, out of range as \<open>strtol\<close> and the
  conversion to \<open>int\<close> leave it; \<open>%02X\<close> takes at most two characters. The results are the
  value and the rest, or nothing when the conversion fails.
\<close>

definition scan_d :: "string \<Rightarrow> (int \<times> string) option" where
  "scan_d s = (case strto_sign (dropWhile isspace s) of (_, r) \<Rightarrow>
     let ds = takeWhile (isdig 10) r in
     if ds = [] then None else Some (c_int (fst (strtol 10 s)), drop (length ds) r))"

definition scan_X2 :: "string \<Rightarrow> (int \<times> string) option" where
  "scan_X2 s = (let item = take 2 (dropWhile isspace s); rest = drop 2 (dropWhile isspace s) in
     case strto_sign item of (neg, r) \<Rightarrow>
       let ds = takeWhile (isdig 16) r in
       if ds = [] \<or> item = ''0x'' \<or> item = ''0X'' then None
       else Some (if neg then c_int (- int (digits_val 16 0 ds)) else int (digits_val 16 0 ds),
         drop (length ds) r @ rest))"

text \<open>The values that \<open>"%d.%d.%d.%d"\<close> stores, in order; a failure leaves the rest unset.\<close>

fun scan_dotted :: "nat \<Rightarrow> string \<Rightarrow> int list" where
  "scan_dotted 0 s = []"
| "scan_dotted (Suc n) s = (case scan_d s of None \<Rightarrow> []
     | Some (v, r) \<Rightarrow> v # (case r of c # r' \<Rightarrow> if c = CHR ''.'' then scan_dotted n r' else [] | [] \<Rightarrow> []))"

fun scan_hex :: "nat \<Rightarrow> string \<Rightarrow> int list" where
  "scan_hex 0 s = []"
| "scan_hex (Suc n) s = (case scan_X2 s of None \<Rightarrow> [] | Some (v, r) \<Rightarrow> v # scan_hex n r)"

text \<open>\<open>int addr[4] = {0, 0, 0, 0}\<close> and what the conversions overwrite.\<close>

definition addr4 :: "int list \<Rightarrow> int list" where
  "addr4 vs = vs @ replicate (4 - length vs) 0"

definition pack_addr :: "int list \<Rightarrow> u32" where
  "pack_addr a = of_int (a ! 0) OR push_bit 8 (of_int (a ! 1)) OR push_bit 16 (of_int (a ! 2))
     OR push_bit 24 (of_int (a ! 3))"

definition read_v4 :: "string \<Rightarrow> u32" where
  "read_v4 s = pack_addr (if strstr s ''.'' then addr4 (scan_dotted 4 s) else rev (addr4 (scan_hex 4 s)))"

definition at_netdevstatus :: "int \<Rightarrow> atc \<Rightarrow> (int \<times> u32 \<times> atc) option" where
  "at_netdevstatus ctx a = do {
     (err, r, a) \<leftarrow> atc_command (at_send_command_singleline False (''AT+QNETDEVSTATUS='' @ dec_int ctx)
       ''+QNETDEVSTATUS'' True) a;
     Some (case Option.bind (good_response err r) first_line of None \<Rightarrow> (0, 0, a)
       | Some l \<Rightarrow> (case at_tok_scanf (Some l) ''%s%s%s%s%s%s%s%s%s%s'' of (n, vals) \<Rightarrow>
           if n = 0 then (0, 0, a)
           else (case scan_str vals 0 of None \<Rightarrow> (0, 0, a)
             | Some s \<Rightarrow> (0, if s = [] then 0 else read_v4 s, a)))) }"

section \<open>Setting up and ending a call\<close>

text \<open>
  The state of a context in the lines of \<open>AT+CGACT?\<close>: the loops of \<open>requestSetupDataCall\<close>,
  where \<open>cid\<close> is set to 0 for every line, and of \<open>requestQueryDataCall\<close>, where it keeps what an
  earlier line has stored (\<open>None\<close>: never set).
\<close>

fun cgact_state0 :: "int \<Rightarrow> string list \<Rightarrow> int" where
  "cgact_state0 want [] = 0"
| "cgact_state0 want (l # ls) = (case at_tok_scanf (Some l) ''%d%d'' of (_, vals) \<Rightarrow>
     if scan_int vals 0 0 = want then scan_int vals 1 0 else cgact_state0 want ls)"

definition stored_int :: "tok_val option list \<Rightarrow> nat \<Rightarrow> int option \<Rightarrow> int option" where
  "stored_int vals i old = (if length vals \<le> i then old
     else case vals ! i of Some (VInt v) \<Rightarrow> Some v | _ \<Rightarrow> old)"

fun cgact_state :: "int \<Rightarrow> string list \<Rightarrow> int option \<Rightarrow> int option" where
  "cgact_state want [] cid = Some 0"
| "cgact_state want (l # ls) cid = (case at_tok_scanf (Some l) ''%d%d'' of (_, vals) \<Rightarrow>
     do { c \<leftarrow> stored_int vals 0 cid;
          if c = want then Some (scan_int vals 1 0) else cgact_state want ls (Some c) })"

text \<open>The older modems must have the context active first: the code on an error, or the state.\<close>

definition activate_context :: "int \<Rightarrow> atc \<Rightarrow> (int option \<times> atc) option" where
  "activate_context ctx a = do {
     (err, r, a) \<leftarrow> atc_command (at_send_command_multiline False ''AT+CGACT?'' ''+CGACT:'' True) a;
     case good_response err r of None \<Rightarrow> Some (Some err, a)
     | Some r \<Rightarrow>
         if cgact_state0 ctx (p_intermediates r) = 0 then do {
           (err, r, a) \<leftarrow> atc_command (at_send_command False (''AT+CGACT=1,'' @ dec_int ctx) True) a;
           Some (if at_response_error err r then Some err else None, a) }
         else Some (None, a) }"

text \<open>Waiting for the other modems to report the call: at most 15 questions.\<close>

fun await_status :: "nat \<Rightarrow> int \<Rightarrow> atc \<Rightarrow> (int \<times> atc) option" where
  "await_status 0 ctx a = Some (0, a)"
| "await_status (Suc t) ctx a = do {
     (err, r, a) \<leftarrow> atc_command (at_send_command_singleline False (''AT+QNETDEVSTATUS='' @ dec_int ctx)
       ''+QNETDEVSTATUS'' True) a;
     if err \<noteq> 0 then Some (err, a)
     else if \<not> at_response_error err r then Some (0, a)
     else await_status t ctx a }"

definition netdevctl :: "bool \<Rightarrow> int \<Rightarrow> int \<Rightarrow> string" where
  "netdevctl asr on ctx =
     (if asr then ''AT+QNETDEVCTL='' @ dec_int on @ '','' @ dec_int ctx @ '','' @ dec_int on
      else ''AT+QNETDEVCTL='' @ dec_int ctx @ '','' @ dec_int on @ '','' @ dec_int on)"

definition setup_call :: "PROFILE_T \<Rightarrow> atc \<Rightarrow> (int \<times> atc) option" where
  "setup_call p a = do {
     (fail, a) \<leftarrow> (if asr_style_atc a then activate_context (pdp p) a else Some (None, a));
     case fail of Some err \<Rightarrow> Some (err, a)
     | None \<Rightarrow> do {
         (err, r, a) \<leftarrow> atc_command (at_send_command False (netdevctl (asr_style_atc a) 1 (pdp p)) True) a;
         if at_response_error err r then Some (err, a)
         else do {
           (err, a) \<leftarrow> (if asr_style_atc a then Some (err, a) else await_status 15 (pdp p) a);
           Some (err, if err \<noteq> 0 then a else tell_main [RIL_UNSOL_DATA_CALL_LIST_CHANGED] a) } } }"

text \<open>Two firmware families do not announce the link, so the interface is brought up by hand.\<close>

definition ifconfig_up :: "PROFILE_T \<Rightarrow> atc \<Rightarrow> atc" where
  "ifconfig_up p a =
     (if strStartsWith (BaseBandVersion p) ''RG801H'' \<or> strStartsWith (BaseBandVersion p) ''EC200H''
      then a\<lparr>shell_cmds := shell_cmds a @ [''ifconfig '' @ usbnet_adapter p @ '' up'']\<rparr> else a)"

definition atc_requestSetupDataCall :: "PROFILE_T \<Rightarrow> int \<Rightarrow> atc \<Rightarrow> (int \<times> PROFILE_T \<times> atc) option" where
  "atc_requestSetupDataCall p fam a = map_option (\<lambda>(err, a). (err, p, a)) (setup_call p (ifconfig_up p a))"

definition atc_requestDeactivateDefaultPDP :: "PROFILE_T \<Rightarrow> int \<Rightarrow> atc \<Rightarrow> (int \<times> atc) option" where
  "atc_requestDeactivateDefaultPDP p fam a = do {
     (_, _, a) \<leftarrow> atc_command (at_send_command False (netdevctl (asr_style_atc a) 0 (pdp p)) False) a;
     Some (0, a) }"

section \<open>Asking for a call\<close>

text \<open>
  The lines \<open>+QNETDEVCTL: <op>,<cid>,<urc_en>,<state>\<close>. A line for another context is skipped only
  after its values have been stored; \<open>bind\<close>, \<open>cid\<close> and \<open>state\<close> as the last line leaves them.
\<close>

fun scan_netdevctl :: "int \<Rightarrow> string list \<Rightarrow> int \<times> int option \<times> int \<Rightarrow> int \<times> int option \<times> int" where
  "scan_netdevctl want [] s = s"
| "scan_netdevctl want (l # ls) (bnd, cid, state) =
     (case at_tok_scanf (Some l) ''%d%d%d%d'' of (n, vals) \<Rightarrow>
        let bnd = scan_int vals 0 bnd; cid = stored_int vals 1 cid; state = scan_int vals 3 state
        in scan_netdevctl want ls
             (if n \<noteq> 4 \<or> cid \<noteq> Some want then bnd else if bnd \<noteq> 1 then 0 else bnd, cid, state))"

definition atc_requestQueryDataCall :: "byte \<Rightarrow> int \<Rightarrow> atc \<Rightarrow> (int \<times> byte \<times> atc) option" where
  "atc_requestQueryDataCall st fam a =
     (if \<not> asr_style_atc a then do {
        (err, v4, a) \<leftarrow> at_netdevstatus (s_pdp a) a;
        Some (err, if err = 0 \<and> v4 \<noteq> 0 then QWDS_PKT_DATA_CONNECTED else QWDS_PKT_DATA_DISCONNECTED, a) }
      else do {
        let want = s_pdp a;
        (err, r, a) \<leftarrow> atc_command (at_send_command_multiline False ''AT+QNETDEVCTL?'' ''+QNETDEVCTL:'' True) a;
        case good_response err r of None \<Rightarrow> Some (0, QWDS_PKT_DATA_DISCONNECTED, a)
        | Some r \<Rightarrow> (case scan_netdevctl want (p_intermediates r) (0, None, 0) of (bnd, cid, state) \<Rightarrow>
            if bnd = 0 \<or> state = 0 then Some (0, QWDS_PKT_DATA_DISCONNECTED, a)
            else do {
              (err, r, a) \<leftarrow> atc_command (at_send_command_multiline False ''AT+CGACT?'' ''+CGACT:'' True) a;
              case good_response err r of None \<Rightarrow> Some (0, QWDS_PKT_DATA_DISCONNECTED, a)
              | Some r \<Rightarrow> do {
                  state \<leftarrow> (if p_intermediates r = [] then Some state
                    else cgact_state want (p_intermediates r) cid);
                  Some (0, if state \<noteq> 0 then QWDS_PKT_DATA_CONNECTED else QWDS_PKT_DATA_DISCONNECTED, a) } }) })"

text \<open>The lines \<open>+CGPADDR: <cid>,<ipv4>,<ipv6>\<close>; \<open>ctx\<close> is the local \<open>pdp\<close>, each octet one byte.\<close>

fun scan_cgpaddr :: "int \<Rightarrow> string list \<Rightarrow> int \<Rightarrow> u32" where
  "scan_cgpaddr want [] ctx = 0"
| "scan_cgpaddr want (l # ls) ctx =
     (case at_tok_scanf (Some l) ''%d%s%s'' of (n, vals) \<Rightarrow>
        let ctx = scan_int vals 0 ctx in
        if n < 2 \<or> ctx \<noteq> want then scan_cgpaddr want ls ctx
        else (case scan_str vals 1 of None \<Rightarrow> scan_cgpaddr want ls ctx
          | Some s \<Rightarrow> (case map (of_int :: int \<Rightarrow> byte) (addr4 (scan_dotted 4 s)) of
              [w, x, y, z] \<Rightarrow> of_le32 w x y z | _ \<Rightarrow> 0)))"

definition ask_address :: "PROFILE_T \<Rightarrow> atc \<Rightarrow> (u32 \<times> atc) option" where
  "ask_address p a =
     (if \<not> asr_style_atc a then map_option snd (at_netdevstatus (pdp p) a)
      else do {
        (err, r, a) \<leftarrow> atc_command (at_send_command_singleline False (''AT+CGPADDR='' @ dec_int (pdp p))
          ''+CGPADDR:'' True) a;
        Some (case good_response err r of None \<Rightarrow> 0 | Some r \<Rightarrow> scan_cgpaddr (pdp p) (p_intermediates r) (pdp p), a) })"

definition store_address :: "u32 \<Rightarrow> PROFILE_T \<Rightarrow> PROFILE_T" where
  "store_address v4 p = (if v4 \<noteq> 0 \<and> Address (ipv4 p) \<noteq> v4 then p\<lparr>ipv4 := (ipv4 p)\<lparr>Address := v4\<rparr>\<rparr> else p)"

definition atc_requestGetIPAddress :: "PROFILE_T \<Rightarrow> int \<Rightarrow> atc \<Rightarrow> (int \<times> PROFILE_T \<times> atc) option" where
  "atc_requestGetIPAddress p fam a =
     map_option (\<lambda>(v4, a). (if v4 \<noteq> 0 then 0 else - 1, store_address v4 p, a)) (ask_address p a)"

section \<open>Signal\<close>

text \<open>
  A line of the serving cell: the technology it names, if any. The values that the code prints
  with \<open>verbose\<close>, which is 0, are not kept.
\<close>

definition serving_rat :: "string \<Rightarrow> string option option" where
  "serving_rat line = (case at_tok_scanf (Some line) ''%s%s'' of (n, vals) \<Rightarrow>
     if n \<noteq> 2 then Some None
     else do {
       type \<leftarrow> scan_str vals 0;
       if type \<noteq> ''servingcell'' then Some None
       else do {
         state \<leftarrow> scan_str vals 1;
         if state = ''SEARCH'' \<or> state = ''LIMSRV'' then Some None
         else if state = ''NOCONN'' \<or> state = ''CONNECT'' then
           (case at_tok_scanf (Some line) ''%s%s%s'' of (n, vals) \<Rightarrow>
              if n \<noteq> 3 then Some None else do { rat \<leftarrow> scan_str vals 2; Some (Some rat) })
         else Some (Some state) } })"

fun any_nsa :: "string list \<Rightarrow> bool option" where
  "any_nsa [] = Some False"
| "any_nsa (l # ls) = do {
     rat \<leftarrow> serving_rat l;
     nsa \<leftarrow> any_nsa ls;
     Some (rat = Some ''NR5G-NSA'' \<or> nsa) }"

definition atc_requestGetSignalInfo :: "atc \<Rightarrow> (int \<times> atc) option" where
  "atc_requestGetSignalInfo a = do {
     (err, r, a) \<leftarrow> atc_command (at_send_command_singleline False ''at+cops?'' ''+COPS:'' True) a;
     case Option.bind (good_response err r) first_line of None \<Rightarrow> Some (- 1, a)
     | Some l \<Rightarrow>
         if fst (at_tok_scanf (Some l) ''%d%d%s%d'') \<noteq> 4 then Some (0, a)
         else do {
           (err, r, a) \<leftarrow> atc_command (at_send_command_multiline False (''at+qeng='' @ quoted ''servingcell'')
             ''+QENG:'' True) a;
           case good_response err r of None \<Rightarrow> Some (0, a)
           | Some r \<Rightarrow> do {
               nsa \<leftarrow> any_nsa (p_intermediates r);
               if nsa then do {
                 (_, _, a) \<leftarrow> atc_command (at_send_command_multiline False ''at+qendc'' ''+QENDC:'' True) a;
                 Some (0, a) }
               else Some (0, a) } } }"

end
