(* ===== verification/ConnAtc.thy ===== *)
theory ConnAtc
  imports ConnStart AtcData QmiCall
begin

text \<open>
  The connection manager over AT commands: the tables \<open>atc_request_ops\<close> and \<open>atc_dev_ops\<close> of
  \<open>atc.c\<close> as an instance of the contract of \<open>ConnInv\<close>, and what its runs keep.
\<close>

section \<open>The table\<close>

definition atc_ops :: "atc request_ops" where
  "atc_ops = \<lparr>which_ops = atc_request_ops,
     opBaseBandVersion = Some atc_requestBaseBandVersion,
     opSetEthMode = None, opSetLoopBackState = None,
     opGetSIMStatus = Some atc_requestGetSIMStatus,
     opEnterSimPin = Some atc_requestEnterSimPin,
     opSetProfile = Some atc_requestSetProfile,
     opGetProfile = Some atc_requestGetProfile,
     opRegistrationState = atc_requestRegistrationState,
     opSetupDataCall = atc_requestSetupDataCall,
     opQueryDataCall = atc_requestQueryDataCall,
     opDeactivateDefaultPDP = atc_requestDeactivateDefaultPDP,
     opGetIPAddress = atc_requestGetIPAddress,
     opGetICCID = Some (\<lambda>a. map_option snd (atc_requestGetICCID a)),
     opGetIMSI = Some (\<lambda>a. map_option snd (atc_requestGetIMSI a)),
     opGetSignalInfo = Some (\<lambda>a. map_option snd (atc_requestGetSignalInfo a)),
     opGetCellInfoList = None, opGetCoexWWANState = None,
     dev_init = Some (\<lambda>p a. map_option (\<lambda>(e, a). (e, p, a)) (atc_init p a)),
     dev_deinit = Some (\<lambda>a. if atc_deinit a = 0 then Some a else None),
     dev_reboots = reboots\<rparr>"

lemma atc_ops_sel [simp]:
  "which_ops atc_ops = atc_request_ops" "opSetupDataCall atc_ops = atc_requestSetupDataCall"
  "opQueryDataCall atc_ops = atc_requestQueryDataCall" "opGetIPAddress atc_ops = atc_requestGetIPAddress"
  "opDeactivateDefaultPDP atc_ops = atc_requestDeactivateDefaultPDP"
  by (simp_all add: atc_ops_def)

lemma atc_setup_profile:
  "atc_requestSetupDataCall p fam a = Some (e, p', a') \<Longrightarrow> p' = p"
  by (auto simp: atc_requestSetupDataCall_def)

lemma store_address_families [simp]: "families (store_address v4 p) = families p"
  by (simp add: store_address_def families_def)

lemma atc_address_families:
  "atc_requestGetIPAddress p fam a = Some (e, p', a') \<Longrightarrow> families p' = families p"
  by (auto simp: atc_requestGetIPAddress_def)

interpretation atc_table: call_table atc_ops
  by unfold_locales (auto dest: atc_setup_profile atc_address_families)

section \<open>Properties\<close>

text \<open>
  The interface follows the calls over AT commands, from the start of
  the program. Whatever an AT modem answers, says between commands or leaves unanswered, and
  in whatever order events and signals arrive: when \<open>qmi_main\<close> enters its loop and as long as
  it runs, only an enabled family counts as connected, the last configuration of the
  interface is the recorded one and names only enabled families, and after the loop the
  interface is down.
\<close>

theorem atc_interface_follows_calls:
  assumes "qmi_main_start atc_ops en m0 = Some (Inr m)" "clean_interface m0"
    "qmi_main_run atc_ops ss m = Some m'"
  shows "manager_inv m' \<and> families (profile m') = families (profile m)"
  using main_start_inv [OF assms(1,2)] atc_table.run_inv [OF assms(3)] by blast

definition modem_says :: "string list \<Rightarrow> rd_event list \<times> at_env" where
  "modem_says ls = ([], \<lparr>env_write = [Wrote 1000], env_rounds = [(map RdLine ls, False)]\<rparr>)"

text \<open>The modem answers the first command and is then unplugged.\<close>

definition unplugged :: "rd_event list \<times> at_env" where
  "unplugged = ([RdClosed], \<lparr>env_write = [], env_rounds = []\<rparr>)"

definition at_idle :: "(rd_event list \<times> at_env) list \<Rightarrow> atc" where
  "at_idle es = \<lparr>atchan = chan0\<lparr>s_onReaderClosed := True\<rparr>, cmd_envs = es, handshakes = [],
     asr_style_atc = False, s_pdp = 1, main_events = [], shell_cmds = [], reboots = False\<rparr>"

definition m_at :: "PROFILE_T \<Rightarrow> (rd_event list \<times> at_env) list \<Rightarrow> atc main" where
  "m_at p es = \<lparr>profile = p, transport = at_idle es, SIMStatus = SIM_READY, PSAttached = 1,
     IPv4ConnectionStatus = 0, IPv6ConnectionStatus = 0, SetupCallFail = 0, SetupCallAllowTime = 0,
     s_link = - 1, sig_queue = [], to_dev = [], alarm_s = 0, net_acts = [], clocks = [0], wan_ip = None,
     g_donot_exit_when_modem_hangup = False, brothers_killed = False, in_loop = True\<rparr>"


definition connected_env :: start_env where
  "connected_env = \<lparr>signal_pair_ok = True, device_pair_ok = True, thread_ok = True,
     first_event = Some RIL_INDICATE_DEVICE_CONNECTED\<rparr>"

lemma atc_interface_follows_calls_witness:
  "\<exists>m m'. qmi_main_start atc_ops connected_env (m_at (profile0\<lparr>proxy := ''x'', iptype := 1\<rparr>)
      (modem_says [''ERROR''] # replicate 8 unplugged)) = Some (Inr m) \<and>
    qmi_main_run atc_ops [UnixSignal False, Poll PollError] m = Some m' \<and>
    manager_inv m' \<and> s_link m' = 0 \<and> net_acts m' = [UdhcpcStop]"
proof -
  let ?m0 = "m_at (profile0\<lparr>proxy := ''x'', iptype := 1\<rparr>) (modem_says [''ERROR''] # replicate 8 unplugged)"
  have "(case qmi_main_start atc_ops connected_env ?m0 of
      Some (Inr m) \<Rightarrow> (case qmi_main_run atc_ops [UnixSignal False, Poll PollError] m of
        Some m' \<Rightarrow> s_link m' = 0 \<and> net_acts m' = [UdhcpcStop] | None \<Rightarrow> False)
    | _ \<Rightarrow> False)"
    by code_simp
  then obtain m m' where m: "qmi_main_start atc_ops connected_env ?m0 = Some (Inr m)"
      "qmi_main_run atc_ops [UnixSignal False, Poll PollError] m = Some m'" "s_link m' = 0" "net_acts m' = [UdhcpcStop]"
    by (auto split: option.splits sum.splits)
  have "clean_interface ?m0" by (simp add: clean_interface_def m_at_def)
  from atc_interface_follows_calls [OF m(1) this m(2)] m show ?thesis by blast
qed

end
