(* ===== verification/AtNotify.thy ===== *)
theory AtNotify
  imports ConnAtc
begin

text \<open>
  Which lines of the modem go to the caller of an AT command and which to the handler of
  notifications: for every type of command, any number of waits of the command thread, and a
  final response of either kind.
\<close>

section \<open>The two kinds of lines\<close>

text \<open>A line that a command of the type takes for an answer.\<close>

definition reply_line :: "ATCommandType \<Rightarrow> string \<Rightarrow> string \<Rightarrow> bool" where
  "reply_line ty pre l \<longleftrightarrow> (case ty of NO_RESULT \<Rightarrow> False | NUMERIC \<Rightarrow> l \<noteq> [] \<and> isdigit (hd l)
     | _ \<Rightarrow> strStartsWith l pre)"

text \<open>A multi-line command takes all of them, the others only the first.\<close>

definition answer_lines :: "ATCommandType \<Rightarrow> string \<Rightarrow> string list \<Rightarrow> string list" where
  "answer_lines ty pre ls =
     (if ty = MULTILINE then filter (reply_line ty pre) ls else take 1 (filter (reply_line ty pre) ls))"

definition other_lines :: "ATCommandType \<Rightarrow> string \<Rightarrow> string list \<Rightarrow> string list" where
  "other_lines ty pre ls =
     (if ty = MULTILINE then filter (\<lambda>l. \<not> reply_line ty pre l) ls
      else takeWhile (\<lambda>l. \<not> reply_line ty pre l) ls @ drop 1 (dropWhile (\<lambda>l. \<not> reply_line ty pre l) ls))"

text \<open>The same, line by line, with the answers so far in front.\<close>

fun split_lines :: "ATCommandType \<Rightarrow> string \<Rightarrow> string list \<Rightarrow> string list \<Rightarrow> string list \<times> string list" where
  "split_lines ty pre acc [] = (acc, [])"
| "split_lines ty pre acc (l # ls) =
     (if reply_line ty pre l \<and> (ty = MULTILINE \<or> acc = []) then split_lines ty pre (l # acc) ls
      else (case split_lines ty pre acc ls of (a, r) \<Rightarrow> (a, l # r)))"

lemma split_multi: "split_lines MULTILINE pre acc ls =
    (rev (filter (reply_line MULTILINE pre) ls) @ acc, filter (\<lambda>l. \<not> reply_line MULTILINE pre l) ls)"
  by (induction ls arbitrary: acc) auto

lemma split_taken: "ty \<noteq> MULTILINE \<Longrightarrow> acc \<noteq> [] \<Longrightarrow> split_lines ty pre acc ls = (acc, ls)"
  by (induction ls arbitrary: acc) auto

lemma split_lines_are: "split_lines ty pre [] ls = (rev (answer_lines ty pre ls), other_lines ty pre ls)"
proof (cases "ty = MULTILINE")
  case False
  then show ?thesis by (induction ls) (auto simp: answer_lines_def other_lines_def split_taken)
qed (simp add: split_multi answer_lines_def other_lines_def)

lemma split_append: "split_lines ty pre acc (xs @ ys) =
    (case split_lines ty pre acc xs of (a, r) \<Rightarrow> case split_lines ty pre a ys of (b, r') \<Rightarrow> (b, r @ r'))"
  by (induction xs arbitrary: acc) (auto split: prod.splits)

section \<open>The channel while a command waits\<close>

lemma unsolicited_append [simp]: "unsolicited (xs @ ys) = unsolicited xs @ unsolicited ys"
  by (induction xs rule: unsolicited.induct) simp_all

lemma unsolicited_lines [simp]: "unsolicited (map Unsol ls) = concat (map onUnsolicited ls)"
  by (induction ls) simp_all

lemma idle_lines:
  "sp_response c = None \<Longrightarrow> s_unsolHandler c \<Longrightarrow>
   fold rd_step (map RdLine ls) c = c\<lparr>out := out c @ map Unsol ls\<rparr>"
proof (induction ls arbitrary: c)
  case (Cons l ls)
  have "rd_step (RdLine l) c = c\<lparr>out := out c @ [Unsol l]\<rparr>"
    using Cons.prems by (simp add: rd_step_def processLine_def handleUnsolicited_def emit_def)
  then show ?case using Cons.IH [of "c\<lparr>out := out c @ [Unsol l]\<rparr>"] Cons.prems by simp
qed simp

definition awaiting :: "ATCommandType \<Rightarrow> string \<Rightarrow> string list \<Rightarrow> at_chan \<Rightarrow> bool" where
  "awaiting ty pre acc c \<longleftrightarrow> s_type c = ty \<and> s_responsePrefix c = pre \<and> s_smsPDU c = None \<and> s_raw_data c = None \<and>
     s_unsolHandler c \<and> \<not> s_atc_proxy c \<and> \<not> s_readerClosed c \<and>
     sp_response c = Some \<lparr>success = 0, finalResponse = None, p_intermediates = acc\<rparr>"

lemma awaiting_line:
  assumes "awaiting ty pre acc c" "info_line l"
  shows "rd_step (RdLine l) c = (if reply_line ty pre l \<and> (ty = MULTILINE \<or> acc = [])
      then c\<lparr>sp_response := Some \<lparr>success = 0, finalResponse = None, p_intermediates = l # acc\<rparr>\<rparr>
      else c\<lparr>out := out c @ [Unsol l]\<rparr>)"
  using assms
  by (cases ty) (auto simp: rd_step_def awaiting_def info_line_def processLine_plain matches_def reply_line_def
      handleUnsolicited_def emit_def addIntermediate_def)

lemma awaiting_lines:
  "awaiting ty pre acc c \<Longrightarrow> \<forall>l \<in> set ls. info_line l \<Longrightarrow> split_lines ty pre acc ls = (a, r) \<Longrightarrow>
   awaiting ty pre a (fold rd_step (map RdLine ls) c) \<and> out (fold rd_step (map RdLine ls) c) = out c @ map Unsol r"
proof (induction ls arbitrary: acc c r)
  case (Cons l ls)
  let ?c = "rd_step (RdLine l) c"
  note step = awaiting_line [OF Cons.prems(1), of l]
  show ?case
  proof (cases "reply_line ty pre l \<and> (ty = MULTILINE \<or> acc = [])")
    case True
    then have "awaiting ty pre (l # acc) ?c" "out ?c = out c" "split_lines ty pre (l # acc) ls = (a, r)"
      using step Cons.prems by (auto simp: awaiting_def)
    then show ?thesis using Cons.IH [of "l # acc" ?c r] Cons.prems(2) by simp
  next
    case False
    then obtain r' where r': "split_lines ty pre acc ls = (a, r')" "r = l # r'"
      using Cons.prems(3) by (auto split: prod.splits)
    have "awaiting ty pre acc ?c" "out ?c = out c @ [Unsol l]"
      using False step Cons.prems by (auto simp: awaiting_def)
    then show ?thesis using Cons.IH [of acc ?c r'] r' Cons.prems(2) by simp
  qed
qed simp

lemma awaiting_emit [simp]: "awaiting ty pre acc (emit x c) = awaiting ty pre acc c" "out (emit x c) = out c @ [x]"
  by (simp_all add: awaiting_def emit_def)

lemma awaiting_rounds:
  "awaiting ty pre acc c \<Longrightarrow> \<forall>ls \<in> set lss. \<forall>l \<in> set ls. info_line l \<Longrightarrow>
   split_lines ty pre acc (concat lss) = (a, r) \<Longrightarrow>
   \<exists>c' new. wait_loop t (map info_round lss @ rounds) c = wait_loop t rounds c' \<and> awaiting ty pre a c' \<and>
     out c' = out c @ new \<and> unsolicited new = concat (map onUnsolicited r)"
proof (induction lss arbitrary: acc c r)
  case (Cons ls lss)
  obtain b r1 where b: "split_lines ty pre acc ls = (b, r1)" by fastforce
  then obtain r2 where r2: "split_lines ty pre b (concat lss) = (a, r2)" "r = r1 @ r2"
    using Cons.prems(3) by (auto simp: split_append split: prod.splits)
  let ?c = "fold rd_step (map RdLine ls) (emit (CondWait t) c)"
  have c: "awaiting ty pre b ?c" "out ?c = out c @ [CondWait t] @ map Unsol r1"
    using awaiting_lines [of ty pre acc "emit (CondWait t) c" ls b r1] Cons.prems(1,2) b by simp_all
  obtain c' new where c': "wait_loop t (map info_round lss @ rounds) ?c = wait_loop t rounds c'" "awaiting ty pre a c'"
      "out c' = out ?c @ new" "unsolicited new = concat (map onUnsolicited r2)"
    using Cons.IH [OF c(1) _ r2(1)] Cons.prems(2) by auto
  have "wait_loop t (map info_round (ls # lss) @ rounds) c = wait_loop t rounds c'"
    using Cons.prems(1) c'(1) by (simp add: awaiting_def info_round_def Let_def)
  moreover have "out c' = out c @ ([CondWait t] @ map Unsol r1 @ new)"
    "unsolicited ([CondWait t] @ map Unsol r1 @ new) = concat (map onUnsolicited r)"
    using c(2) c'(3,4) r2(2) by simp_all
  ultimately show ?case using c'(2) by blast
qed auto

lemma awaiting_final:
  assumes "awaiting ty pre acc c" "isFinalResponseSuccess fin \<or> isFinalResponseError fin"
  shows "rd_step (RdLine fin) c = c\<lparr>out := out c @ [CondSignal], sp_response := Some
      \<lparr>success = (if isFinalResponseSuccess fin then 1 else 0), finalResponse = Some fin, p_intermediates = acc\<rparr>\<rparr>"
  using assms by (auto simp: rd_step_def awaiting_def processLine_def handleFinalResponse_def proxyCopy_def emit_def)

text \<open>The whole wait.\<close>

lemma awaited:
  assumes "awaiting ty pre [] c" "\<forall>ls \<in> set lss. \<forall>l \<in> set ls. info_line l" "\<forall>l \<in> set ls. info_line l"
    and "isFinalResponseSuccess fin \<or> isFinalResponseError fin"
  shows "\<exists>c' new. wait_loop t (map info_round lss @ [(map RdLine (ls @ [fin]), False)]) c = (Woken, c') \<and>
    \<not> s_readerClosed c' \<and> sp_response c' = Some \<lparr>success = (if isFinalResponseSuccess fin then 1 else 0),
      finalResponse = Some fin, p_intermediates = rev (answer_lines ty pre (concat lss @ ls))\<rparr> \<and>
    out c' = out c @ new \<and> unsolicited new = concat (map onUnsolicited (other_lines ty pre (concat lss @ ls)))"
proof -
  obtain a1 r1 a r where s: "split_lines ty pre [] (concat lss) = (a1, r1)" "split_lines ty pre a1 ls = (a, r)"
    by fastforce
  then have all: "a = rev (answer_lines ty pre (concat lss @ ls))" "other_lines ty pre (concat lss @ ls) = r1 @ r"
    using split_lines_are [of ty pre "concat lss @ ls"] by (auto simp: split_append)
  obtain c1 new1 where c1: "wait_loop t (map info_round lss @ [(map RdLine (ls @ [fin]), False)]) c =
        wait_loop t [(map RdLine (ls @ [fin]), False)] c1" "awaiting ty pre a1 c1"
      "out c1 = out c @ new1" "unsolicited new1 = concat (map onUnsolicited r1)"
    using awaiting_rounds [OF assms(1,2) s(1)] by blast
  let ?c2 = "fold rd_step (map RdLine ls) (emit (CondWait t) c1)"
  have c2: "awaiting ty pre a ?c2" "out ?c2 = out c1 @ [CondWait t] @ map Unsol r"
    using awaiting_lines [of ty pre a1 "emit (CondWait t) c1" ls a r] c1(2) assms(3) s(2) by simp_all
  let ?r = "\<lparr>success = (if isFinalResponseSuccess fin then 1 else 0 :: int), finalResponse = Some fin, p_intermediates = a\<rparr>"
  let ?c3 = "?c2\<lparr>out := out ?c2 @ [CondSignal], sp_response := Some ?r\<rparr>"
  have last: "fold rd_step (map RdLine (ls @ [fin])) (emit (CondWait t) c1) = ?c3"
    using awaiting_final [OF c2(1) assms(4)] by simp
  have "sp_response c1 = Some \<lparr>success = 0, finalResponse = None, p_intermediates = a1\<rparr>" "\<not> s_readerClosed c1"
    using c1(2) by (simp_all add: awaiting_def)
  then have "wait_loop t [(map RdLine (ls @ [fin]), False)] c1 = (Woken, ?c3)"
    using last by (simp add: Let_def del: fold_append map_append)
  moreover have "\<not> s_readerClosed ?c3" using c2(1) by (simp add: awaiting_def)
  moreover have "out ?c3 = out c @ (new1 @ [CondWait t] @ map Unsol r @ [CondSignal])" using c1(3) c2(2) by simp
  moreover have "unsolicited (new1 @ [CondWait t] @ map Unsol r @ [CondSignal]) =
      concat (map onUnsolicited (other_lines ty pre (concat lss @ ls)))"
    by (simp add: c1(4) all(2))
  ultimately show ?thesis unfolding c1(1) all(1) [symmetric]
    by (intro exI [of _ ?c3] exI [of _ "new1 @ [CondWait t] @ map Unsol r @ [CondSignal]"]) simp
qed

section \<open>Property\<close>

text \<open>
  Property C31 (liveness): every line of the modem reaches the caller or the notification handler. A
  command is issued on an idle, open channel and can be written. The lines that arrive before
  it, and those that arrive while it waits - over any number of waits, up to the final
  response, of success or error, that wakes it - are divided without loss, repetition or
  change of order: the command returns the lines that its type and prefix make its answer (all
  of them for a multi-line command, the first for a single-line or numeric one, none for a
  command without result), so a notification that begins with the prefix of the command
  counts as its answer; and for every other line that is a registration or call notification
  the main thread has been told its event when the command returns.
\<close>

theorem notifications_reach_main:
  assumes "sp_response (atchan a) = None" "s_unsolHandler (atchan a)" "\<not> s_atc_proxy (atchan a)"
    "\<not> s_readerClosed (atchan a)" "s_raw_data (atchan a) = None"
    "cmd_envs a = (map RdLine before, \<lparr>env_write = w,
       env_rounds = map info_round lss @ [(map RdLine (ls @ [fin]), False)]\<rparr>) # es"
    "fst (writeline w cmd (atchan a)) = Some 0"
    "\<forall>l \<in> set (concat lss @ ls). info_line l" "isFinalResponseSuccess fin \<or> isFinalResponseError fin"
  shows "\<exists>a'. atc_command (at_send_command_full False (Some cmd) ty pre None 0 True) a =
      Some (0, Some \<lparr>success = (if isFinalResponseSuccess fin then 1 else 0), finalResponse = Some fin,
        p_intermediates = answer_lines ty pre (concat lss @ ls)\<rparr>, a') \<and>
    main_events a' = main_events a @ concat (map onUnsolicited (before @ other_lines ty pre (concat lss @ ls)))"
proof -
  define c1 where "c1 = (atchan a)\<lparr>out := out (atchan a) @ map Unsol before\<rparr>"
  let ?c = "c1\<lparr>s_type := ty, s_responsePrefix := pre, s_smsPDU := None, sp_response := Some at_response_new\<rparr>"
  let ?en = "\<lparr>env_write = w, env_rounds = map info_round lss @ [(map RdLine (ls @ [fin]), False)]\<rparr>"
  have f1: "fold rd_step (map RdLine before) (atchan a) = c1" using assms(1,2) by (simp add: idle_lines c1_def)
  have w: "fst (writeline w cmd c1) = Some 0" "sp_response c1 = None"
    using assms(1,7) by (simp_all add: c1_def writeline_def)
  have "awaiting ty pre [] ?c" using assms(2-5) by (simp add: awaiting_def c1_def at_response_new_def)
  from awaited [OF this _ _ assms(9), of lss ls 15000] assms(8) obtain c2 new where c2:
      "wait_loop 15000 (env_rounds ?en) ?c = (Woken, c2)" "\<not> s_readerClosed c2"
      "sp_response c2 = Some \<lparr>success = (if isFinalResponseSuccess fin then 1 else 0),
        finalResponse = Some fin, p_intermediates = rev (answer_lines ty pre (concat lss @ ls))\<rparr>"
      "out c2 = out c1 @ new" "unsolicited new = concat (map onUnsolicited (other_lines ty pre (concat lss @ ls)))"
    by auto
  have "at_send_command_full False (Some cmd) ty pre None 0 True ?en c1 =
      Returned 0 (Some \<lparr>success = (if isFinalResponseSuccess fin then 1 else 0), finalResponse = Some fin,
        p_intermediates = answer_lines ty pre (concat lss @ ls)\<rparr>) (clearPendingCommand (c2\<lparr>sp_response := None\<rparr>))"
    using w c2(1-3) by (simp add: at_send_command_full_def at_send_command_full_nolock_def Let_def
        reverseIntermediates_def at_error_defs)
  moreover have "unsolicited (drop (length (out (atchan a))) (out (clearPendingCommand (c2\<lparr>sp_response := None\<rparr>)))) =
      concat (map onUnsolicited (before @ other_lines ty pre (concat lss @ ls)))"
    using c2(4,5) by (simp add: clearPendingCommand_def c1_def)
  ultimately show ?thesis
    unfolding atc_command_def assms(6) by (simp add: f1 tell_main_def)
qed

lemma notifications_reach_main_witness:
  "\<exists>a'. atc_command (at_send_command_full False (Some ''AT+CGACT?'') MULTILINE ''+CGACT:'' None 0 True)
      (at_idle [(map RdLine [''+CEREG: 1''], \<lparr>env_write = [Wrote 30],
         env_rounds = map info_round [[''+CGACT: 1,1'', ''+QNETDEVSTATUS: 1'']] @
           [(map RdLine ([''+CGACT: 2,0''] @ [''OK'']), False)]\<rparr>)]) =
    Some (0, Some \<lparr>success = 1, finalResponse = Some ''OK'', p_intermediates = [''+CGACT: 1,1'', ''+CGACT: 2,0'']\<rparr>, a') \<and>
    main_events a' = [RIL_UNSOL_RESPONSE_VOICE_NETWORK_STATE_CHANGED, RIL_UNSOL_DATA_CALL_LIST_CHANGED]"
proof -
  let ?lss = "[[''+CGACT: 1,1'', ''+QNETDEVSTATUS: 1'']]" and ?ls = "[''+CGACT: 2,0'']"
  let ?en = "\<lparr>env_write = [Wrote 30], env_rounds = map info_round ?lss @ [(map RdLine (?ls @ [''OK'']), False)]\<rparr>"
  let ?a = "at_idle [(map RdLine [''+CEREG: 1''], ?en)]"
  have h: "sp_response (atchan ?a) = None" "s_unsolHandler (atchan ?a)" "\<not> s_atc_proxy (atchan ?a)"
      "\<not> s_readerClosed (atchan ?a)" "s_raw_data (atchan ?a) = None" "main_events ?a = []"
      "cmd_envs ?a = (map RdLine [''+CEREG: 1''], ?en) # []"
    by (simp_all add: at_idle_def chan0_def)
  have w: "fst (writeline [Wrote 30] ''AT+CGACT?'' (atchan ?a)) = Some 0"
    "\<forall>l \<in> set (concat ?lss @ ?ls). info_line l" "isFinalResponseSuccess ''OK'' \<or> isFinalResponseError ''OK''"
    "answer_lines MULTILINE ''+CGACT:'' (concat ?lss @ ?ls) = [''+CGACT: 1,1'', ''+CGACT: 2,0'']"
    "concat (map onUnsolicited ([''+CEREG: 1''] @ other_lines MULTILINE ''+CGACT:'' (concat ?lss @ ?ls))) =
       [RIL_UNSOL_RESPONSE_VOICE_NETWORK_STATE_CHANGED, RIL_UNSOL_DATA_CALL_LIST_CHANGED]"
    "isFinalResponseSuccess ''OK''"
    by code_simp+
  from notifications_reach_main [OF h(1-5,7) w(1-3), of MULTILINE "''+CGACT:''"]
  show ?thesis unfolding w(4,5) h(6) by (simp add: w(6))
qed

end
