(* ===== verification/AtcAddr.thy ===== *)
theory AtcAddr
  imports AtcData
begin

text \<open>
  The two notations of an IPv4 address that AT modems use, dotted decimal and eight hexadecimal
  digits, both as printed texts and as \<open>at_netdevstatus\<close> reads them.
\<close>

section \<open>Printing\<close>

definition octet :: "u32 \<Rightarrow> nat \<Rightarrow> byte" where
  "octet a i = ucast (drop_bit (8 * i) a)"

definition dotted :: "u32 \<Rightarrow> string" where
  "dotted a = dec_nat (unat (octet a 0)) @ CHR ''.'' # dec_nat (unat (octet a 1)) @ CHR ''.''
     # dec_nat (unat (octet a 2)) @ CHR ''.'' # dec_nat (unat (octet a 3))"

definition hex_digit :: "nat \<Rightarrow> char" where
  "hex_digit d = (if d < 10 then char_of (48 + d) else char_of (55 + d))"

definition hex_byte :: "byte \<Rightarrow> string" where
  "hex_byte b = [hex_digit (unat b div 16), hex_digit (unat b mod 16)]"

definition hex_text :: "u32 \<Rightarrow> string" where
  "hex_text a = hex_byte (octet a 3) @ hex_byte (octet a 2) @ hex_byte (octet a 1) @ hex_byte (octet a 0)"

section \<open>Decimal octets\<close>

lemma scan_d_dec:
  assumes "n < 2 ^ 31" "rest = [] \<or> \<not> isdig 10 (hd rest)"
  shows "scan_d (dec_nat n @ rest) = Some (int n, rest)"
proof -
  obtain c cs where c: "dec_nat n = c # cs" "isdig 10 c" by (rule dec_nat_Cons)
  have ws: "dropWhile isspace (dec_nat n @ rest) = dec_nat n @ rest"
    using c by (simp add: isdig_not_special)
  have sg: "strto_sign (dec_nat n @ rest) = (False, dec_nat n @ rest)"
    using c by (simp add: strto_sign_def isdig_not_special)
  have tw: "takeWhile (isdig 10) (dec_nat n @ rest) = dec_nat n"
    using assms(2) by (cases rest) (auto simp: takeWhile_dec_nat dest: dec_nat_digits intro!: takeWhile_all)
  have "strtol 10 (dec_nat n @ rest) = (int n, True)"
    using assms(1) by (simp add: strtol_def strto_scan_def ws sg tw digits_val_dec_nat)
  moreover have "c_int (int n) = int n" using assms(1) by (intro c_int_id) auto
  ultimately show ?thesis by (simp add: scan_d_def ws sg tw)
qed

lemma not_digit_dot [simp]: "\<not> isdig 10 (CHR ''.'')"
  by code_simp

lemma byte_lt: "unat (b :: byte) < 256"
  using unsigned_less [of b, where 'a = nat] by simp

lemma octet_small: "unat (b :: byte) < 2 ^ 31"
  using byte_lt [of b] by simp

lemma scan_dotted_step:
  "scan_dotted (Suc n) (dec_nat (unat (b :: byte)) @ CHR ''.'' # rest) = int (unat b) # scan_dotted n rest"
  "scan_dotted (Suc n) (dec_nat (unat (b :: byte))) = [int (unat b)]"
  using scan_d_dec [OF octet_small, of "CHR ''.'' # rest" b] scan_d_dec [OF octet_small, of "[]" b]
  by simp_all

lemma strstr_char: "strstr s [c] \<longleftrightarrow> c \<in> set s"
  by (induction s) auto

lemma scan_dotted_dotted:
  "scan_dotted 4 (dotted a) = map (\<lambda>i. int (unat (octet a i))) [0, 1, 2, 3]"
proof -
  have four: "scan_dotted 4 = scan_dotted (Suc (Suc (Suc (Suc 0))))" by (simp add: numeral_eq_Suc)
  show ?thesis unfolding dotted_def four by (simp add: scan_dotted_step del: scan_dotted.simps)
qed

section \<open>Hexadecimal octets\<close>

lemma of_char_hex: "d < 16 \<Longrightarrow> (of_char (hex_digit d) :: nat) = (if d < 10 then 48 + d else 55 + d)"
  by (simp add: hex_digit_def)

lemma char_neqI: "(of_char c :: nat) \<noteq> of_char x \<Longrightarrow> c \<noteq> x"
  by auto

lemma hex_digit_props:
  assumes "d < 16"
  shows "hexval (hex_digit d) = Some d" "isdig 16 (hex_digit d)" "\<not> isspace (hex_digit d)"
    "hex_digit d \<noteq> CHR ''-''" "hex_digit d \<noteq> CHR ''+''" "hex_digit d \<noteq> CHR ''.''"
    "hex_digit d \<noteq> CHR ''x''" "hex_digit d \<noteq> CHR ''X''"
proof -
  show v: "hexval (hex_digit d) = Some d" using assms by (simp add: hexval_def of_char_hex Let_def)
  then show "isdig 16 (hex_digit d)" using assms by (simp add: isdig_def)
  show "\<not> isspace (hex_digit d)" "hex_digit d \<noteq> CHR ''-''" "hex_digit d \<noteq> CHR ''+''"
    "hex_digit d \<noteq> CHR ''.''" "hex_digit d \<noteq> CHR ''x''" "hex_digit d \<noteq> CHR ''X''"
    unfolding isspace_def using assms by (auto simp: of_char_hex dest!: arg_cong [where f = "of_char :: char \<Rightarrow> nat"] split: if_splits)
qed

lemma byte_digits: "unat (b :: byte) div 16 < 16" "unat (b :: byte) mod 16 < 16"
  using byte_lt [of b] by auto

lemma scan_X2_hex_byte: "scan_X2 (hex_byte b @ rest) = Some (int (unat b), rest)"
proof -
  note d = hex_digit_props [OF byte_digits(1) [of b]] hex_digit_props [OF byte_digits(2) [of b]]
  have "unat b div 16 * 16 + unat b mod 16 = unat b" by simp
  with d show ?thesis
    by (simp add: scan_X2_def hex_byte_def strto_sign_def Let_def numeral_2_eq_2)
qed

lemma scan_hex_text: "scan_hex 4 (hex_text a) = map (\<lambda>i. int (unat (octet a i))) [3, 2, 1, 0]"
  using scan_X2_hex_byte [of "octet a 0" "[]"]
  by (simp add: hex_text_def numeral_eq_Suc scan_X2_hex_byte)

lemma hex_byte_no_dot: "CHR ''.'' \<notin> set (hex_byte b)"
  using hex_digit_props(6) [OF byte_digits(1) [of b]] hex_digit_props(6) [OF byte_digits(2) [of b]]
  by (auto simp: hex_byte_def)

section \<open>Properties\<close>

lemma pack_octets:
  "pack_addr (map (\<lambda>i. int (unat (octet a i))) [0, 1, 2, 3]) = a"
proof -
  have "(of_int (int (unat b)) :: u32) = ucast b" for b :: byte
    by simp
  then have "pack_addr (map (\<lambda>i. int (unat (octet a i))) [0, 1, 2, 3])
      = of_le32 (octet a 0) (octet a 1) (octet a 2) (octet a 3)"
    by (simp add: pack_addr_def of_le32_def)
  also have "\<dots> = a" using of_le32_le32 [of a] by (simp add: octet_def)
  finally show ?thesis .
qed

lemma read_v4_dotted: "read_v4 (dotted a) = a"
proof -
  have "strstr (dotted a) ''.''" by (simp add: strstr_char dotted_def)
  then show ?thesis
    using pack_octets [of a] by (simp add: read_v4_def scan_dotted_dotted addr4_def)
qed

lemma read_v4_hex: "read_v4 (hex_text a) = a"
proof -
  have "\<not> strstr (hex_text a) ''.''" by (simp add: strstr_char hex_text_def hex_byte_no_dot)
  then show ?thesis
    using pack_octets [of a] by (simp add: read_v4_def scan_hex_text addr4_def)
qed

text \<open>
  Both notations of an address are read to the same value. For every
  address, the text in dotted decimal and the text of eight hexadecimal digits that a modem
  prints for it are read back by \<open>at_netdevstatus\<close> as that address.
\<close>

theorem address_notations_read_back:
  "read_v4 (dotted a) = a \<and> read_v4 (hex_text a) = a"
  by (simp add: read_v4_dotted read_v4_hex)

end
