(* ===== verification/AtcProps.thy ===== *)
theory AtcProps
  imports AtNotify AtcAddr
begin

text \<open>
  What the requests of the AT client make of a modem's answers: the reading of status lines, a port
  that is gone, and the places where the code takes the wrong field or the wrong line.
\<close>

section \<open>Lines\<close>

text \<open>The scanner only appends to what it has stored and counted.\<close>

lemma scan_loop_acc:
  "scan_loop ps cur n vals = (case scan_loop ps cur 0 [] of (m, res) \<Rightarrow> (n + m, vals @ res))"
proof (induction ps arbitrary: cur n vals rule: length_induct)
  case (1 ps)
  then have IH: "length qs < length ps \<Longrightarrow>
      scan_loop qs c k xs = (case scan_loop qs c 0 [] of (m, res) \<Rightarrow> (k + m, xs @ res))" for qs c k xs
    by blast
  consider "ps = []" | p where "ps = [p]" | p f qs where "ps = p # f # qs"
    by (metis neq_Nil_conv)
  then show ?case
  proof cases
    case (3 p f qs)
    have qs: "length qs < length ps" "length (f # qs) < length ps" using 3 by auto
    show ?thesis
    proof (cases "p = CHR '','' \<or> p = CHR '' ''")
      case True
      with IH [OF qs(2), of cur n vals] 3 show ?thesis by auto
    next
      case sep: False
      show ?thesis
      proof (cases "p = CHR ''%'' \<and> at_tok_hasmore cur")
        case False
        then have "scan_loop ps cur k xs = (k, xs)" for k xs using 3 sep by auto
        then show ?thesis by simp
      next
        case True
        obtain e c v where sc: "scan_conv f cur = (e, c, v)" by (metis prod_cases3)
        let ?d = "[if f = CHR ''d'' then Some (VInt (- 1)) else None]"
        have step: "scan_loop ps cur k xs =
            (if is_dash cur then scan_loop qs (map_option (drop 2) cur) (k + 1) (xs @ ?d)
             else if e < 0 then (k, xs @ [v]) else scan_loop qs c (k + 1) (xs @ [v]))" for k xs
          using True 3 sep sc by simp
        note I = IH [OF qs(1), of "map_option (drop 2) cur"] IH [OF qs(1), of c]
        show ?thesis unfolding step
          unfolding I(1) [of "n + 1"] I(1) [of "0 + 1"] I(2) [of "n + 1"] I(2) [of "0 + 1"]
          by (auto split: prod.split)
      qed
    qed
  qed auto
qed

text \<open>A word may hold blanks inside, but no comma and no quote in front.\<close>

definition field_text :: "string \<Rightarrow> bool" where
  "field_text s \<longleftrightarrow> s \<noteq> [] \<and> \<not> isspace (hd s) \<and> hd s \<noteq> CHR 0x22 \<and> hd s \<noteq> CHR ''-'' \<and> CHR '','' \<notin> set s"

lemma skip_blank: "skipWhiteSpace (Some (CHR '' '' # s)) = skipWhiteSpace (Some s)"
  by (simp add: skipWhiteSpace_def isspace_def)

lemma nextTok_field:
  assumes "field_text s"
  shows "nextTok (Some (CHR '' '' # s)) = (Some s, None)"
    "nextTok (Some (CHR '' '' # s @ CHR '','' # rest)) = (Some s, Some rest)"
proof -
  have ws: "skipWhiteSpace (Some (s @ r)) = Some (s @ r)" for r
    using assms by (intro skipWhiteSpace_tok) (auto simp: field_text_def)
  have "takeWhile (\<lambda>x. x \<noteq> CHR '','') s = s" "dropWhile (\<lambda>x. x \<noteq> CHR '','') s = []"
    using assms by (auto simp: field_text_def takeWhile_eq_all_conv dropWhile_eq_Nil_conv)
  then show "nextTok (Some (CHR '' '' # s)) = (Some s, None)"
    using assms ws [of "[]"]
    by (simp add: nextTok_def skip_blank strsep_def field_text_def del: dropWhile_eq_Nil_conv)
  have "takeWhile (\<lambda>x. x \<noteq> CHR '','') (s @ CHR '','' # rest) = s"
    "dropWhile (\<lambda>x. x \<noteq> CHR '','') (s @ CHR '','' # rest) = CHR '','' # rest"
    using assms by (auto simp: field_text_def intro!: takeWhile_all dropWhile_all)
  then show "nextTok (Some (CHR '' '' # s @ CHR '','' # rest)) = (Some s, Some rest)"
    using assms ws [of "CHR '','' # rest"] by (simp add: nextTok_def skip_blank strsep_def field_text_def)
qed

text \<open>The texts of an address are words.\<close>

lemma dotted_chars: "c \<in> set (dotted a) \<Longrightarrow> isdig 10 c \<or> c = CHR ''.''"
  by (auto simp: dotted_def dest: dec_nat_digits)

lemma dotted_field: "field_text (dotted a)"
proof -
  obtain c cs where c: "dec_nat (unat (octet a 0)) = c # cs" "isdig 10 c" by (rule dec_nat_Cons)
  have "dotted a \<noteq> []" "hd (dotted a) = c" by (simp_all add: dotted_def c(1))
  moreover have "CHR '','' \<notin> set (dotted a)" using dotted_chars [of "CHR '',''" a] isdig_not_special(4) by auto
  ultimately show ?thesis using isdig_not_special [OF c(2)] by (simp add: field_text_def)
qed

lemma hex_digit_comma: "d < 16 \<Longrightarrow> hex_digit d \<noteq> CHR '',''" "d < 16 \<Longrightarrow> hex_digit d \<noteq> CHR 0x22"
  by (auto simp: of_char_hex dest!: arg_cong [where f = "of_char :: char \<Rightarrow> nat"] split: if_splits)

lemma hex_field: "field_text (hex_text a)"
proof -
  have "CHR '','' \<notin> set (hex_byte b)" for b
    using hex_digit_comma(1) [OF byte_digits(1) [of b]] hex_digit_comma(1) [OF byte_digits(2) [of b]]
    by (auto simp: hex_byte_def)
  moreover have "hd (hex_text a) = hex_digit (unat (octet a 3) div 16)" "hex_text a \<noteq> []"
    by (simp_all add: hex_text_def hex_byte_def)
  moreover note hex_digit_props [OF byte_digits(1) [of "octet a 3"]] hex_digit_comma(2) [OF byte_digits(1) [of "octet a 3"]]
  ultimately show ?thesis by (simp add: field_text_def hex_text_def)
qed

lemma blank_not_dash [simp]: "\<not> is_dash (Some (CHR '' '' # s))"
  by (simp add: is_dash_def split: list.split)

section \<open>Status\<close>

definition line_response :: "string \<Rightarrow> at_response" where
  "line_response l = \<lparr>success = 1, finalResponse = Some ''OK'', p_intermediates = [l]\<rparr>"

lemma good_line [simp]:
  "good_response 0 (Some (line_response l)) = Some (line_response l)" "first_line (line_response l) = Some l"
  "at_get_cme_error (Some (line_response l)) = 0"
  by (simp_all add: good_response_def at_response_error_def line_response_def first_line_def at_get_cme_error_def)

lemma scan_first_word:
  assumes "field_text s" "CHR '':'' \<notin> set tag" "length (tag @ '': '' @ s @ CHR '','' # rest) \<le> 1023"
  shows "\<exists>n vals. at_tok_scanf (Some (tag @ '': '' @ s @ CHR '','' # rest)) (''%s'' @ fmt) = (n, vals) \<and>
    0 < n \<and> scan_str vals 0 = Some s"
proof -
  have "dropWhile (\<lambda>x. x \<noteq> CHR '':'') (tag @ '': '' @ s @ CHR '','' # rest) = '': '' @ s @ CHR '','' # rest"
    using assms(2) by (simp) (intro dropWhile_all, auto)
  then have st: "at_tok_start (Some (take 1023 (tag @ '': '' @ s @ CHR '','' # rest)))
      = (0, Some (CHR '' '' # s @ CHR '','' # rest))"
    using assms(3) by (simp add: at_tok_start_def strchr_def del: take_append)
  obtain m res where "scan_loop fmt (Some rest) 0 [] = (m, res)" by fastforce
  then have sl: "scan_loop fmt (Some rest) 1 [Some (VStr s)] = (1 + m, Some (VStr s) # res)"
    using scan_loop_acc [of fmt "Some rest" 1] by simp
  have "scan_loop (''%s'' @ fmt) (Some (CHR '' '' # s @ CHR '','' # rest)) 0 [] = (1 + m, Some (VStr s) # res)"
    using sl by (simp add: at_tok_hasmore_def scan_conv_def at_tok_nextstr_def nextTok_field(2) [OF assms(1)])
  with st show ?thesis by (simp add: at_tok_scanf_def scan_str_def del: scan_loop.simps)
qed

lemma netdevstatus_reports:
  assumes "addr = dotted v \<or> addr = hex_text v" "CHR '':'' \<notin> set tag"
    "length (tag @ '': '' @ addr @ CHR '','' # rest) \<le> 1023"
    "atc_command (at_send_command_singleline False (''AT+QNETDEVSTATUS='' @ dec_int k) ''+QNETDEVSTATUS'' True) a
       = Some (0, Some (line_response (tag @ '': '' @ addr @ CHR '','' # rest)), a')"
  shows "at_netdevstatus k a = Some (0, v, a')"
proof -
  have addr: "field_text addr" "read_v4 addr = v"
    using assms(1) dotted_field hex_field read_v4_dotted read_v4_hex by auto
  then have ne: "addr \<noteq> []" by (simp add: field_text_def)
  obtain n vals where scan: "at_tok_scanf (Some (tag @ '': '' @ addr @ CHR '','' # rest))
      (''%s'' @ ''%s%s%s%s%s%s%s%s%s'') = (n, vals)" "0 < n" "scan_str vals 0 = Some addr"
    using scan_first_word [OF addr(1) assms(2,3)] by blast
  show ?thesis unfolding at_netdevstatus_def assms(4) using scan addr ne by simp
qed

text \<open>
  Property C30 (functional): the status of a call is the address in the modem's answer. For a
  modem of the newer family that answers \<open>+QNETDEVSTATUS: <address>,...\<close>, in either notation,
  the query reports a connection exactly when the address is not 0.0.0.0, and the request for
  the address stores it and succeeds exactly then.
\<close>

theorem status_is_reported_address:
  assumes "\<not> asr_style_atc a" "addr = dotted v \<or> addr = hex_text v" "CHR '':'' \<notin> set tag"
    "length (tag @ '': '' @ addr @ CHR '','' # rest) \<le> 1023"
    "s_pdp a = pdp p"
    "atc_command (at_send_command_singleline False (''AT+QNETDEVSTATUS='' @ dec_int (pdp p)) ''+QNETDEVSTATUS'' True) a
       = Some (0, Some (line_response (tag @ '': '' @ addr @ CHR '','' # rest)), a')"
  shows "atc_requestQueryDataCall st fam a =
      Some (0, if v \<noteq> 0 then QWDS_PKT_DATA_CONNECTED else QWDS_PKT_DATA_DISCONNECTED, a') \<and>
    (\<exists>e p'. atc_requestGetIPAddress p fam a = Some (e, p', a') \<and> (e = 0 \<longleftrightarrow> v \<noteq> 0) \<and>
      (v \<noteq> 0 \<longrightarrow> Address (ipv4 p') = v))"
  using netdevstatus_reports [OF assms(2,3,4,6)] assms(1,5)
  by (simp add: atc_requestQueryDataCall_def atc_requestGetIPAddress_def ask_address_def store_address_def)

lemma status_is_reported_address_witness:
  "\<exists>a'. atc_requestQueryDataCall 0 4 (at_idle [modem_says [''+QNETDEVSTATUS: 10.0.0.7,x'', ''OK'']]) =
     Some (0, QWDS_PKT_DATA_CONNECTED, a')"
proof -
  have d: "dotted 0x0700000A = ''10.0.0.7''" by code_simp
  let ?l = "''+QNETDEVSTATUS'' @ '': '' @ dotted 0x0700000A @ CHR '','' # ''x''"
  obtain a' where a': "atc_command (at_send_command_singleline False (''AT+QNETDEVSTATUS='' @ dec_int (pdp (profile0\<lparr>pdp := 1\<rparr>)))
      ''+QNETDEVSTATUS'' True) (at_idle [modem_says [''+QNETDEVSTATUS: 10.0.0.7,x'', ''OK'']]) =
    Some (0, Some (line_response ?l), a')"
  proof -
    have "(case atc_command (at_send_command_singleline False (''AT+QNETDEVSTATUS='' @ dec_int (pdp (profile0\<lparr>pdp := 1\<rparr>)))
        ''+QNETDEVSTATUS'' True) (at_idle [modem_says [''+QNETDEVSTATUS: 10.0.0.7,x'', ''OK'']]) of
      Some (e, r, a') \<Rightarrow> e = 0 \<and> r = Some (line_response ''+QNETDEVSTATUS: 10.0.0.7,x'') | _ \<Rightarrow> False)"
      by code_simp
    then show ?thesis using that by (auto simp: d split: option.splits prod.splits)
  qed
  have "length ?l \<le> 1023" by (simp add: d)
  from status_is_reported_address [OF _ disjI1 [OF refl] _ this _ a', of 0 4] show ?thesis
    by (auto simp: at_idle_def)
qed

section \<open>SIM\<close>

text \<open>
  The SIM state is the word of the answer. When the modem answers
  \<open>+CPIN: <word>\<close>, the request returns 0 and the state the word names (any unknown lock counts
  as no SIM), except for the network lock, where it returns 5 and leaves the state unset.
\<close>

theorem sim_state_is_answer:
  assumes "field_text w" "CHR '':'' \<notin> set tag"
    "atc_command (at_send_command_singleline False ''AT+CPIN?'' ''+CPIN:'' True) a
       = Some (0, Some (line_response (tag @ '': '' @ w)), a')"
  shows "atc_requestGetSIMStatus st a = Some (if w = ''PH-NET PIN'' then (5, st, a')
     else (0, if w = ''READY'' then SIM_READY else if w = ''SIM PIN'' then SIM_PIN
       else if w = ''SIM PUK'' then SIM_PUK else SIM_ABSENT, a'))"
proof -
  have "dropWhile (\<lambda>x. x \<noteq> CHR '':'') (tag @ '': '' @ w) = '': '' @ w"
    using assms(2) by simp (intro dropWhile_all, auto)
  then have "at_tok_start (Some (tag @ '': '' @ w)) = (0, Some (CHR '' '' # w))"
    by (simp add: at_tok_start_def strchr_def)
  then show ?thesis
    unfolding atc_requestGetSIMStatus_def assms(3)
    by (simp add: at_tok_nextstr_def nextTok_field(1) [OF assms(1)] sim_of_cpin_def)
qed

lemma sim_state_is_answer_witness:
  "\<exists>a'. atc_requestGetSIMStatus SIM_ABSENT (at_idle [modem_says [''+CPIN: SIM PIN'', ''OK'']]) = Some (0, SIM_PIN, a')"
proof -
  have "(case atc_command (at_send_command_singleline False ''AT+CPIN?'' ''+CPIN:'' True)
      (at_idle [modem_says [''+CPIN: SIM PIN'', ''OK'']]) of
    Some (e, r, a') \<Rightarrow> e = 0 \<and> r = Some (line_response ''+CPIN: SIM PIN'') | _ \<Rightarrow> False)"
    by code_simp
  then obtain a' where "atc_command (at_send_command_singleline False ''AT+CPIN?'' ''+CPIN:'' True)
      (at_idle [modem_says [''+CPIN: SIM PIN'', ''OK'']]) = Some (0, Some (line_response (''+CPIN'' @ '': '' @ ''SIM PIN'')), a')"
    by (auto split: option.splits prod.splits)
  from sim_state_is_answer [OF _ _ this, of SIM_ABSENT] show ?thesis
    by (simp add: field_text_def isspace_def)
qed

section \<open>Registration\<close>

lemma nextint_blank:
  "in_int_range v \<Longrightarrow> at_tok_nextint (Some (CHR '' '' # dec_int v @ CHR '','' # rest)) = (0, Some rest, Some v)"
  using nextint_dec_int(1) [of v rest]
  by (simp add: at_tok_nextint_def at_tok_nextint_base_def nextTok_def skip_blank)

text \<open>A line of three fields, as the comment in the code has it: state, area and cell.\<close>

definition creg_line :: "string \<Rightarrow> int \<Rightarrow> string \<Rightarrow> string \<Rightarrow> string" where
  "creg_line tag st area cell = tag @ '': '' @ dec_int st @ CHR '','' # area @ CHR '','' # cell"

lemma creg_state_line:
  assumes "in_int_range v" "CHR '':'' \<notin> set tag" "CHR '','' \<notin> set (tag @ area @ cell)"
    "length (creg_line tag v area cell) \<le> 1023" "scan_loop ''%x%x'' (Some (area @ CHR '','' # cell)) 0 [] = (m, res)"
  shows "creg_state (creg_line tag v area cell) = (if m \<noteq> 2 then None else Some (scan_int res 0 0))"
proof -
  have "\<forall>x \<in> set (dec_int v). x \<noteq> CHR '',''" using dec_int_chars(2) by blast
  then have "filter (\<lambda>c. c = CHR '','') (dec_int v) = []" by (simp add: filter_empty_conv)
  moreover have "filter (\<lambda>c. c = CHR '','') xs = []" if "CHR '','' \<notin> set xs" for xs
    using that by (auto simp: filter_empty_conv)
  ultimately have count: "at_tok_count (Some (creg_line tag v area cell)) = 2"
    using assms(3) by (simp add: at_tok_count_def creg_line_def)
  have "dropWhile (\<lambda>x. x \<noteq> CHR '':'') (creg_line tag v area cell) = '': '' @ dec_int v @ CHR '','' # area @ CHR '','' # cell"
    unfolding creg_line_def using assms(2) by simp (intro dropWhile_all, auto)
  then have st: "at_tok_start (Some (take 1023 (creg_line tag v area cell)))
      = (0, Some (CHR '' '' # dec_int v @ CHR '','' # area @ CHR '','' # cell))"
    using assms(4) by (simp add: at_tok_start_def strchr_def)
  have "scan_loop ''%d%x%x'' (Some (CHR '' '' # dec_int v @ CHR '','' # area @ CHR '','' # cell)) 0 []
      = scan_loop ''%x%x'' (Some (area @ CHR '','' # cell)) 1 [Some (VInt v)]"
    using nextint_blank [OF assms(1), of "area @ CHR '','' # cell"] by (simp add: at_tok_hasmore_def scan_conv_def)
  also have "\<dots> = (1 + m, Some (VInt v) # res)"
    using scan_loop_acc [of "''%x%x''" "Some (area @ CHR '','' # cell)" 1 "[Some (VInt v)]"] assms(5) by simp
  finally have "at_tok_scanf (Some (creg_line tag v area cell)) ''%d%x%x'' = (1 + m, Some (VInt v) # res)"
    using st by (simp add: at_tok_scanf_def)
  then show ?thesis by (simp add: creg_state_def count scan_state_def scan_int_def)
qed

text \<open>
  With an answer of three fields the client reads the registration from
  the wrong one. The comment in the code gives the line as state, area code and cell, but the
  state is taken from the second field: two lines that differ in the state alone give the
  same result.
\<close>

theorem registration_ignores_state:
  assumes "in_int_range v" "in_int_range w" "CHR '':'' \<notin> set tag" "CHR '','' \<notin> set (tag @ area @ cell)"
    "length (creg_line tag v area cell) \<le> 1023" "length (creg_line tag w area cell) \<le> 1023"
  shows "creg_state (creg_line tag v area cell) = creg_state (creg_line tag w area cell)"
proof -
  obtain m res where "scan_loop ''%x%x'' (Some (area @ CHR '','' # cell)) 0 [] = (m, res)" by fastforce
  from creg_state_line [OF assms(1,3,4,5) this] creg_state_line [OF assms(2,3,4,6) this] show ?thesis by simp
qed

text \<open>An unregistered modem (state 0) in area 1 counts as registered, a registered one in area 2 does not.\<close>

lemma registration_ignores_state_witness:
  "creg_state ''+CEREG: 0,1,7'' = Some 1 \<and> creg_state ''+CEREG: 1,2,7'' = Some 2 \<and>
   creg_state (creg_line ''+CEREG'' 0 ''1'' ''7'') = creg_state (creg_line ''+CEREG'' 1 ''1'' ''7'')"
proof (intro conjI)
  show "creg_state ''+CEREG: 0,1,7'' = Some 1" "creg_state ''+CEREG: 1,2,7'' = Some 2" by code_simp+
  have "length (creg_line ''+CEREG'' 0 ''1'' ''7'') \<le> 1023" "length (creg_line ''+CEREG'' 1 ''1'' ''7'') \<le> 1023"
    by code_simp+
  then show "creg_state (creg_line ''+CEREG'' 0 ''1'' ''7'') = creg_state (creg_line ''+CEREG'' 1 ''1'' ''7'')"
    by (intro registration_ignores_state) (simp_all add: in_int_range_def)
qed

section \<open>The older modems\<close>

lemma scan_netdevctl_last:
  assumes "at_tok_scanf (Some l) ''%d%d%d%d'' = (4, [Some (VInt op), Some (VInt c), u, Some (VInt st)])" "c \<noteq> want"
  shows "scan_netdevctl want (ls @ [l]) s = (op, Some c, st)"
proof (induction ls arbitrary: s)
  case Nil
  obtain b c0 s0 where s: "s = (b, c0, s0)" by (cases s)
  show ?case using assms by (simp add: s scan_int_def stored_int_def Let_def)
next
  case (Cons x xs)
  obtain b c0 s0 where s: "s = (b, c0, s0)" by (cases s)
  show ?case by (simp add: s Cons.IH Let_def split: prod.split)
qed

text \<open>
  On the modems of the older family a call on another context is taken
  for the call. The answer to \<open>AT+QNETDEVCTL?\<close> is searched for the line of the context, but a
  line that is skipped has already overwritten the result; so when the last line is that of
  another context with a call and the own context is merely active, the query reports a
  connection, whatever the line of the own context has said.
\<close>

theorem call_of_other_context_counts:
  assumes "asr_style_atc a" "c \<noteq> s_pdp a" "s \<noteq> 0"
    "at_tok_scanf (Some l) ''%d%d%d%d'' = (4, [Some (VInt 1), Some (VInt c), u, Some (VInt s)])"
    "at_tok_scanf (Some k) ''%d%d'' = (2, [Some (VInt (s_pdp a)), Some (VInt 1)])"
    "atc_command (at_send_command_multiline False ''AT+QNETDEVCTL?'' ''+QNETDEVCTL:'' True) a =
       Some (0, Some \<lparr>success = 1, finalResponse = Some ''OK'', p_intermediates = ls @ [l]\<rparr>, a1)"
    "atc_command (at_send_command_multiline False ''AT+CGACT?'' ''+CGACT:'' True) a1 =
       Some (0, Some \<lparr>success = 1, finalResponse = Some ''OK'', p_intermediates = [k]\<rparr>, a2)"
  shows "atc_requestQueryDataCall st fam a = Some (0, QWDS_PKT_DATA_CONNECTED, a2)"
proof -
  have g: "good_response 0 (Some \<lparr>success = 1, finalResponse = Some ''OK'', p_intermediates = xs\<rparr>)
      = Some \<lparr>success = 1, finalResponse = Some ''OK'', p_intermediates = xs\<rparr>" for xs
    by (simp add: good_response_def at_response_error_def)
  have "cgact_state (s_pdp a) [k] cid = Some 1" for cid
    using assms(5) by (simp add: scan_int_def stored_int_def)
  then show ?thesis
    using assms(1,3) scan_netdevctl_last [OF assms(4,2), of ls "(0, None, 0)"]
    unfolding atc_requestQueryDataCall_def by (simp add: assms(6,7) g Let_def)
qed

lemma call_of_other_context_counts_witness:
  "\<exists>a'. atc_requestQueryDataCall 0 4 ((at_idle [modem_says [''+QNETDEVCTL: 0,1,1,0'', ''+QNETDEVCTL: 1,2,1,1'', ''OK''],
       modem_says [''+CGACT: 1,1'', ''OK'']])\<lparr>asr_style_atc := True\<rparr>) = Some (0, QWDS_PKT_DATA_CONNECTED, a')"
proof -
  let ?a = "(at_idle [modem_says [''+QNETDEVCTL: 0,1,1,0'', ''+QNETDEVCTL: 1,2,1,1'', ''OK''],
    modem_says [''+CGACT: 1,1'', ''OK'']])\<lparr>asr_style_atc := True\<rparr>"
  have c1: "(case atc_command (at_send_command_multiline False ''AT+QNETDEVCTL?'' ''+QNETDEVCTL:'' True) ?a of
      None \<Rightarrow> False | Some (e, r, a1) \<Rightarrow> e = 0 \<and> r = Some \<lparr>success = 1, finalResponse = Some ''OK'',
        p_intermediates = [''+QNETDEVCTL: 0,1,1,0'', ''+QNETDEVCTL: 1,2,1,1'']\<rparr> \<and>
      (case atc_command (at_send_command_multiline False ''AT+CGACT?'' ''+CGACT:'' True) a1 of
        None \<Rightarrow> False | Some (e, r, a2) \<Rightarrow> e = 0 \<and> r = Some \<lparr>success = 1, finalResponse = Some ''OK'',
          p_intermediates = [''+CGACT: 1,1'']\<rparr>))"
    by code_simp
  obtain a1 a2 where c: "atc_command (at_send_command_multiline False ''AT+QNETDEVCTL?'' ''+QNETDEVCTL:'' True) ?a =
      Some (0, Some \<lparr>success = 1, finalResponse = Some ''OK'', p_intermediates = [''+QNETDEVCTL: 0,1,1,0''] @ [''+QNETDEVCTL: 1,2,1,1'']\<rparr>, a1)"
      "atc_command (at_send_command_multiline False ''AT+CGACT?'' ''+CGACT:'' True) a1 =
      Some (0, Some \<lparr>success = 1, finalResponse = Some ''OK'', p_intermediates = [''+CGACT: 1,1'']\<rparr>, a2)"
    using c1 by (auto split: option.splits prod.splits)
  have s: "at_tok_scanf (Some ''+QNETDEVCTL: 1,2,1,1'') ''%d%d%d%d'' = (4, [Some (VInt 1), Some (VInt 2), Some (VInt 1), Some (VInt 1)])"
    "at_tok_scanf (Some ''+CGACT: 1,1'') ''%d%d'' = (2, [Some (VInt (s_pdp ?a)), Some (VInt 1)])"
    by code_simp+
  have "atc_requestQueryDataCall 0 4 ?a = Some (0, QWDS_PKT_DATA_CONNECTED, a2)"
    by (rule call_of_other_context_counts [OF _ _ _ s(1) s(2) c]) (simp_all add: at_idle_def)
  then show ?thesis by blast
qed

section \<open>Errors\<close>

text \<open>
  A refused call is reported as set up. When the modem answers the command
  that starts the call with an error, the request for the call returns 0, which the connection
  manager takes for success.
\<close>

theorem refused_call_reported_as_success:
  assumes "\<not> asr_style_atc a" "success r = 0"
    "atc_command (at_send_command False (netdevctl False 1 (pdp p)) True) (ifconfig_up p a) = Some (0, Some r, a')"
  shows "atc_requestSetupDataCall p fam a = Some (0, p, a')"
proof -
  have "asr_style_atc (ifconfig_up p a) = asr_style_atc a" by (simp add: ifconfig_up_def)
  then show ?thesis
    using assms by (simp add: atc_requestSetupDataCall_def setup_call_def at_response_error_def)
qed

lemma refused_call_reported_as_success_witness:
  "\<exists>a'. atc_requestSetupDataCall (profile0\<lparr>pdp := 1\<rparr>) 4 (at_idle [modem_says [''ERROR'']]) =
     Some (0, profile0\<lparr>pdp := 1\<rparr>, a')"
proof -
  let ?a = "at_idle [modem_says [''ERROR'']]" and ?p = "profile0\<lparr>pdp := 1\<rparr>"
  have "(case atc_command (at_send_command False (netdevctl False 1 (pdp ?p)) True) (ifconfig_up ?p ?a) of
      Some (e, Some r, a') \<Rightarrow> e = 0 \<and> success r = 0 | _ \<Rightarrow> False)"
    by code_simp
  then obtain r a' where "atc_command (at_send_command False (netdevctl False 1 (pdp ?p)) True) (ifconfig_up ?p ?a)
      = Some (0, Some r, a')" "success r = 0"
    by (auto split: option.splits prod.splits)
  from refused_call_reported_as_success [OF _ this(2,1)] show ?thesis by (auto simp: at_idle_def)
qed

section \<open>A port that is gone\<close>

definition gone :: "at_chan \<Rightarrow> bool" where
  "gone c \<longleftrightarrow> s_readerClosed c \<and> sp_response c = None"

lemma gone_full:
  "gone c \<Longrightarrow> at_send_command_full False (Some cmd) ty pre sms t pp en c =
     Returned at_error_channel_closed None (clearPendingCommand c)"
  by (simp add: gone_def at_send_command_full_def at_send_command_full_nolock_def writeline_def Let_def at_error_defs)

lemma gone_sends:
  "gone c \<Longrightarrow> at_send_command False cmd pp en c = Returned at_error_channel_closed None (clearPendingCommand c)"
  "gone c \<Longrightarrow> at_send_command_singleline False cmd pre pp en c = Returned at_error_channel_closed None (clearPendingCommand c)"
  "gone c \<Longrightarrow> at_send_command_multiline False cmd pre pp en c = Returned at_error_channel_closed None (clearPendingCommand c)"
  by (simp_all add: at_send_command_def at_send_command_singleline_def at_send_command_multiline_def
      need_intermediate_def gone_full)

lemma gone_commands:
  assumes "gone (atchan a)" "cmd_envs a = ([], en) # es"
  shows "\<exists>a'. atc_command (at_send_command False cmd pp) a = Some (at_error_channel_closed, None, a') \<and> cmd_envs a' = es"
    "\<exists>a'. atc_command (at_send_command_singleline False cmd pre pp) a = Some (at_error_channel_closed, None, a') \<and> cmd_envs a' = es"
    "\<exists>a'. atc_command (at_send_command_multiline False cmd pre pp) a = Some (at_error_channel_closed, None, a') \<and> cmd_envs a' = es"
  using assms by (simp_all add: atc_command_def gone_sends tell_main_def)

text \<open>
  A modem that is gone is not connected. Once the reader has closed the
  channel, whatever the profile and the family of the modem: the query reports that there is no
  call, the request for a call fails with the code for a closed channel, no address is found,
  and each returns at once, without waiting for the modem.
\<close>

theorem gone_modem_is_disconnected:
  assumes "gone (atchan a)" "cmd_envs a = ([], en) # es"
  shows "(\<exists>a'. atc_requestQueryDataCall st fam a = Some (0, QWDS_PKT_DATA_DISCONNECTED, a') \<and> cmd_envs a' = es) \<and>
    (\<exists>a'. atc_requestSetupDataCall p fam a = Some (at_error_channel_closed, p, a') \<and> cmd_envs a' = es) \<and>
    (\<exists>a'. atc_requestGetIPAddress p fam a = Some (- 1, p, a') \<and> cmd_envs a' = es)"
proof (intro conjI)
  have bad: "good_response at_error_channel_closed r = None" "at_response_error at_error_channel_closed r" for r
    by (simp_all add: good_response_def at_response_error_def at_error_defs)
  note s = gone_commands [OF assms]
  obtain a1 where a1: "atc_command (at_send_command_singleline False (''AT+QNETDEVSTATUS='' @ dec_int (s_pdp a)) ''+QNETDEVSTATUS'' True) a
      = Some (at_error_channel_closed, None, a1)" "cmd_envs a1 = es" using s(2) by blast
  obtain a2 where a2: "atc_command (at_send_command_multiline False ''AT+QNETDEVCTL?'' ''+QNETDEVCTL:'' True) a
      = Some (at_error_channel_closed, None, a2)" "cmd_envs a2 = es" using s(3) by blast
  show "\<exists>a'. atc_requestQueryDataCall st fam a = Some (0, QWDS_PKT_DATA_DISCONNECTED, a') \<and> cmd_envs a' = es"
    using a1 a2 by (simp add: atc_requestQueryDataCall_def at_netdevstatus_def bad Let_def)
  have i: "gone (atchan (ifconfig_up p a))" "cmd_envs (ifconfig_up p a) = ([], en) # es"
    using assms by (simp_all add: ifconfig_up_def)
  obtain a3 where a3: "atc_command (at_send_command False (netdevctl False 1 (pdp p)) True) (ifconfig_up p a)
      = Some (at_error_channel_closed, None, a3)" "cmd_envs a3 = es"
    using gone_commands(1) [OF i] by blast
  obtain a4 where a4: "atc_command (at_send_command_multiline False ''AT+CGACT?'' ''+CGACT:'' True) (ifconfig_up p a)
      = Some (at_error_channel_closed, None, a4)" "cmd_envs a4 = es"
    using gone_commands(3) [OF i] by blast
  show "\<exists>a'. atc_requestSetupDataCall p fam a = Some (at_error_channel_closed, p, a') \<and> cmd_envs a' = es"
    using a3 a4 by (simp add: atc_requestSetupDataCall_def setup_call_def activate_context_def bad)
  obtain a5 where a5: "atc_command (at_send_command_singleline False (''AT+QNETDEVSTATUS='' @ dec_int (pdp p)) ''+QNETDEVSTATUS'' True) a
      = Some (at_error_channel_closed, None, a5)" "cmd_envs a5 = es" using s(2) by blast
  obtain a6 where a6: "atc_command (at_send_command_singleline False (''AT+CGPADDR='' @ dec_int (pdp p)) ''+CGPADDR:'' True) a
      = Some (at_error_channel_closed, None, a6)" "cmd_envs a6 = es" using s(2) by blast
  show "\<exists>a'. atc_requestGetIPAddress p fam a = Some (- 1, p, a') \<and> cmd_envs a' = es"
    using a5 a6 by (simp add: atc_requestGetIPAddress_def ask_address_def at_netdevstatus_def store_address_def bad)
qed

lemma gone_modem_is_disconnected_witness:
  "\<exists>a'. atc_requestSetupDataCall profile0 4 ((at_idle [([], \<lparr>env_write = [], env_rounds = []\<rparr>)])
      \<lparr>atchan := chan0\<lparr>s_readerClosed := True\<rparr>\<rparr>) = Some (at_error_channel_closed, profile0, a')"
  using gone_modem_is_disconnected [of "(at_idle [([], \<lparr>env_write = [], env_rounds = []\<rparr>)])
      \<lparr>atchan := chan0\<lparr>s_readerClosed := True\<rparr>\<rparr>" "\<lparr>env_write = [], env_rounds = []\<rparr>" "[]" _ 4 profile0]
  by (auto simp: gone_def at_idle_def chan0_def)

end
