(* ===== verification/MbimProxy.thy ===== *)
theory MbimProxy
  imports QmiWwan
begin

text \<open>
  The MBIM proxy (\<open>quectel-mbim-proxy.c\<close>): it opens the device once and lets up to 32 clients
  share it over a local socket. The upper byte of the transaction identifier names the client
  while a request is with the device.

  \<open>cm_recv_buffer\<close> keeps stale bytes behind a short message. What \<open>poll\<close>, \<open>read\<close> and \<open>accept\<close>
  return is the event of a step; \<open>non_block_write\<close> reports the full length whatever happens, so
  a write is recorded with what it was given. \<open>made_server\<close> is what \<open>proxy_make_server\<close> will
  return. \<open>None\<close> is an access outside an array.
\<close>

section \<open>State\<close>

record mbim_client =
  client_fd :: int
  client_idx :: nat

record mbim_proxy =
  mbim_dev_fd :: int
  mbim_server_fd :: int
  made_server :: int
  cm_clients :: "mbim_client list"
  cm_recv_buffer :: "byte list"
  proxy_verbose :: bool
  proxy_writes :: "(int \<times> byte list) list"
  proxy_closed :: "int list"

definition CM_MAX_CLIENT :: nat where "CM_MAX_CLIENT = 32"

definition non_block_write :: "int \<Rightarrow> byte list \<Rightarrow> mbim_proxy \<Rightarrow> mbim_proxy" where
  "non_block_write fd data p = p\<lparr>proxy_writes := proxy_writes p @ [(fd, data)]\<rparr>"

definition open_message :: "byte list" where
  "open_message = le32 1 @ le32 16 @ le32 1 @ le32 4096"

definition mbim_send_open_msg :: "mbim_proxy \<Rightarrow> mbim_proxy" where
  "mbim_send_open_msg p = non_block_write (mbim_dev_fd p) open_message p"

text \<open>A session of \<open>main\<close> starts with the device open and no clients.\<close>

definition mbim_proxy_start :: "int \<Rightarrow> int \<Rightarrow> bool \<Rightarrow> byte list \<Rightarrow> mbim_proxy" where
  "mbim_proxy_start fd server verbose buf = mbim_send_open_msg
     \<lparr>mbim_dev_fd = fd, mbim_server_fd = - 1, made_server = server,
      cm_clients = replicate CM_MAX_CLIENT \<lparr>client_fd = 0, client_idx = 0\<rparr>,
      cm_recv_buffer = buf, proxy_verbose = verbose, proxy_writes = [], proxy_closed = []\<rparr>"

section \<open>Clients\<close>

text \<open>The index at which a loop over the table stops, if it does.\<close>

fun find_client :: "(mbim_client \<Rightarrow> bool) \<Rightarrow> mbim_client list \<Rightarrow> nat option" where
  "find_client P [] = None"
| "find_client P (c # cs) = (if P c then Some 0 else map_option Suc (find_client P cs))"

definition handle_client_connect :: "int \<Rightarrow> mbim_proxy \<Rightarrow> mbim_proxy" where
  "handle_client_connect fd p =
     (if fd < 0 then p
      else (case find_client (\<lambda>c. client_fd c \<le> 0) (cm_clients p) of
          Some i \<Rightarrow> p\<lparr>cm_clients := (cm_clients p)[i := \<lparr>client_fd = fd, client_idx = i + 1\<rparr>]\<rparr>
        | None \<Rightarrow> p\<lparr>proxy_closed := proxy_closed p @ [fd]\<rparr>))"

definition close_client :: "mbim_client \<Rightarrow> mbim_client" where
  "close_client c = (if 0 < client_fd c then c\<lparr>client_fd := - 1\<rparr> else c)"

definition handle_client_disconnect :: "int \<Rightarrow> mbim_proxy \<Rightarrow> mbim_proxy" where
  "handle_client_disconnect fd p = (case find_client (\<lambda>c. client_fd c = fd) (cm_clients p) of None \<Rightarrow> p
     | Some i \<Rightarrow> p\<lparr>cm_clients := (cm_clients p)[i := close_client (cm_clients p ! i)],
         proxy_closed := proxy_closed p @ (if 0 < fd then [fd] else [])\<rparr>)"

section \<open>Messages\<close>

definition put_tid :: "u32 \<Rightarrow> byte list \<Rightarrow> byte list" where
  "put_tid w b = overwrite 8 (le32 w) b"

definition open_done :: "u32 \<Rightarrow> u32 \<Rightarrow> byte list" where
  "open_done ty tid = le32 (ty OR 0x80000000) @ le32 16 @ le32 tid @ le32 0"

text \<open>\<open>len\<close> is the size of the request in the buffer. Opening and closing is answered here.\<close>

definition handle_client_request :: "int \<Rightarrow> nat \<Rightarrow> mbim_proxy \<Rightarrow> mbim_proxy option" where
  "handle_client_request fd len p = do {
     tid \<leftarrow> rd32 (cm_recv_buffer p) 8;
     case find_client (\<lambda>c. client_fd c = fd) (cm_clients p) of None \<Rightarrow> Some p
     | Some i \<Rightarrow> do {
         ty \<leftarrow> rd32 (cm_recv_buffer p) 0;
         if ty = 1 \<or> ty = 2 then Some (non_block_write fd (open_done ty tid) p)
         else let idx = client_idx (cm_clients p ! i);
                  b = put_tid (tid OR push_bit 24 (of_nat idx)) (cm_recv_buffer p);
                  p = p\<lparr>cm_recv_buffer := b\<rparr>
           in if proxy_verbose p \<and> length (cm_clients p) \<le> idx then None
              else Some (non_block_write (mbim_dev_fd p) (take len b) p) } }"

text \<open>A message without a transaction goes to every client, an answer to the client it names.\<close>

fun broadcast :: "mbim_client list \<Rightarrow> byte list \<Rightarrow> mbim_proxy \<Rightarrow> mbim_proxy" where
  "broadcast [] data p = p"
| "broadcast (c # cs) data p =
     broadcast cs data (if 0 < client_fd c then non_block_write (client_fd c) data p else p)"

definition TID_MASK :: u32 where "TID_MASK = 0xFFFFFF"

definition handle_device_response :: "nat \<Rightarrow> mbim_proxy \<Rightarrow> mbim_proxy option" where
  "handle_device_response len p = do {
     tid \<leftarrow> rd32 (cm_recv_buffer p) 8;
     if tid = 0 then Some (broadcast (cm_clients p) (take len (cm_recv_buffer p)) p)
     else Some (case find_client (\<lambda>c. client_idx c = unat (drop_bit 24 tid) \<and> 0 < client_fd c) (cm_clients p) of
         None \<Rightarrow> p
       | Some i \<Rightarrow>
           let b = put_tid (tid AND TID_MASK) (cm_recv_buffer p)
           in non_block_write (client_fd (cm_clients p ! i)) (take len b) (p\<lparr>cm_recv_buffer := b\<rparr>)) }"

section \<open>The loop\<close>

text \<open>
  What \<open>poll\<close> reports for one descriptor and what the code then reads from it: nothing, an
  error, a connection (with the descriptor \<open>accept\<close> gives), or bytes (none when \<open>read\<close> fails
  or is at the end).
\<close>

datatype mb_event = MbQuiet | MbErr | MbAccept int | MbRead "byte list"

datatype mb_state = MbRunning mbim_proxy | MbStopped mbim_proxy | MbReturned mbim_proxy

definition pollfds_of :: "mbim_proxy \<Rightarrow> int list" where
  "pollfds_of p = mbim_dev_fd p #
     (if 0 < mbim_server_fd p
      then mbim_server_fd p # map client_fd (filter (\<lambda>c. 0 < client_fd c) (cm_clients p)) else [])"

text \<open>The label \<open>error\<close>.\<close>

definition proxy_error :: "mbim_proxy \<Rightarrow> mb_state" where
  "proxy_error p = MbStopped (p\<lparr>mbim_server_fd := (if 0 < mbim_server_fd p then - 1 else mbim_server_fd p),
     cm_clients := map close_client (cm_clients p),
     proxy_closed := proxy_closed p @ (if 0 < mbim_server_fd p then [mbim_server_fd p] else [])
       @ map client_fd (filter (\<lambda>c. 0 < client_fd c) (cm_clients p))\<rparr>)"

definition device_opened :: "mbim_proxy \<Rightarrow> mb_state option" where
  "device_opened p = do {
     ty \<leftarrow> rd32 (cm_recv_buffer p) 0;
     if ty = 0x80000001 then do {
       status \<leftarrow> rd32 (cm_recv_buffer p) 12;
       Some (if status \<noteq> 0 then proxy_error p else MbRunning (p\<lparr>mbim_server_fd := made_server p\<rparr>)) }
     else Some (MbRunning p) }"

definition serve_mb_fd :: "int \<Rightarrow> mb_event \<Rightarrow> mbim_proxy \<Rightarrow> mb_state option" where
  "serve_mb_fd fd e p = (case e of
       MbQuiet \<Rightarrow> Some (MbRunning p)
     | MbErr \<Rightarrow> Some (if fd = mbim_dev_fd p then proxy_error p
         else if fd = mbim_server_fd p then MbRunning p else MbRunning (handle_client_disconnect fd p))
     | MbAccept new \<Rightarrow> Some (MbRunning (if fd = mbim_server_fd p then handle_client_connect new p else p))
     | MbRead data \<Rightarrow>
         if fd = mbim_server_fd p then Some (MbRunning p)
         else if data = [] then
           Some (if fd = mbim_dev_fd p then proxy_error p else MbReturned (handle_client_disconnect fd p))
         else
           let p = p\<lparr>cm_recv_buffer := overwrite 0 data (cm_recv_buffer p)\<rparr> in
           if fd = mbim_dev_fd p then
             (if mbim_server_fd p = - 1 then device_opened p
              else map_option MbRunning (handle_device_response (length data) p))
           else map_option MbRunning (handle_client_request fd (length data) p))"

fun serve_mb_fds :: "(int \<times> mb_event) list \<Rightarrow> mb_state \<Rightarrow> mb_state option" where
  "serve_mb_fds ((fd, e) # es) (MbRunning p) = do { s \<leftarrow> serve_mb_fd fd e p; serve_mb_fds es s }"
| "serve_mb_fds _ s = Some s"

text \<open>One turn: \<open>poll\<close> fails or times out, or there is an event for each descriptor.\<close>

definition mbim_proxy_turn :: "mb_event list option \<Rightarrow> mb_state \<Rightarrow> mb_state option" where
  "mbim_proxy_turn r s = (case s of
       MbRunning p \<Rightarrow> if mbim_dev_fd p \<le> 0 then Some (proxy_error p) else (case r of None \<Rightarrow> Some (proxy_error p)
         | Some es \<Rightarrow> serve_mb_fds (zip (pollfds_of p) es) s)
     | _ \<Rightarrow> Some s)"

fun mbim_proxy_run :: "mb_event list option list \<Rightarrow> mb_state \<Rightarrow> mb_state option" where
  "mbim_proxy_run [] s = Some s"
| "mbim_proxy_run (r # rs) s = do { s \<leftarrow> mbim_proxy_turn r s; mbim_proxy_run rs s }"

end
