(* ===== verification/MbimProxyProps.thy ===== *)
theory MbimProxyProps
  imports MbimProxy
begin

text \<open>
  The MBIM proxy's table of clients stays well-formed in every run, an answer goes back to the
  client that asked, and what happens to the answers for a client that has left.
\<close>

section \<open>The table\<close>

definition clients_ok :: "mbim_client list \<Rightarrow> bool" where
  "clients_ok cs \<longleftrightarrow> length cs = CM_MAX_CLIENT \<and>
     (\<forall>i < CM_MAX_CLIENT. (client_idx (cs ! i) = 0 \<or> client_idx (cs ! i) = i + 1) \<and>
        (0 < client_fd (cs ! i) \<longrightarrow> client_idx (cs ! i) = i + 1)) \<and>
     (\<forall>i < CM_MAX_CLIENT. \<forall>j < CM_MAX_CLIENT.
        0 < client_fd (cs ! i) \<and> client_fd (cs ! i) = client_fd (cs ! j) \<longrightarrow> i = j)"

definition open_fds :: "mbim_client list \<Rightarrow> int set" where
  "open_fds cs = set (filter (\<lambda>fd. 0 < fd) (map client_fd cs))"

text \<open>Descriptors are told apart by the kernel; a read fits the buffer.\<close>

definition proxy_inv :: "mbim_proxy \<Rightarrow> bool" where
  "proxy_inv p \<longleftrightarrow> clients_ok (cm_clients p) \<and> length (cm_recv_buffer p) = RECV_BUF \<and> \<not> proxy_verbose p \<and>
     open_fds (cm_clients p) \<inter> {mbim_dev_fd p, mbim_server_fd p, made_server p} = {}"

lemma find_client_Some:
  "find_client P cs = Some i \<Longrightarrow> i < length cs \<and> P (cs ! i) \<and> (\<forall>j < i. \<not> P (cs ! j))"
proof (induction cs arbitrary: i)
  case (Cons c cs)
  then show ?case by (auto split: if_splits simp: less_Suc_eq_0_disj)
qed simp

lemma find_client_None: "find_client P cs = None \<longleftrightarrow> (\<forall>c \<in> set cs. \<not> P c)"
  by (induction cs) auto

lemma find_client_unique:
  assumes "i < length cs" "P (cs ! i)" "\<And>j. j < length cs \<Longrightarrow> P (cs ! j) \<Longrightarrow> j = i"
  shows "find_client P cs = Some i"
proof (cases "find_client P cs")
  case None
  then show ?thesis using assms(1,2) by (auto simp: find_client_None)
next
  case (Some j)
  then show ?thesis using find_client_Some [OF Some] assms(3) by auto
qed

lemma clients_okD:
  assumes "clients_ok cs" "i < length cs"
  shows "client_idx (cs ! i) = 0 \<or> client_idx (cs ! i) = i + 1"
    "0 < client_fd (cs ! i) \<Longrightarrow> client_idx (cs ! i) = i + 1"
    "j < length cs \<Longrightarrow> 0 < client_fd (cs ! i) \<Longrightarrow> client_fd (cs ! i) = client_fd (cs ! j) \<Longrightarrow> i = j"
  using assms by (auto simp: clients_ok_def)

lemma clients_okI:
  assumes "length cs = CM_MAX_CLIENT"
    "\<And>i. i < length cs \<Longrightarrow> client_idx (cs ! i) = 0 \<or> client_idx (cs ! i) = i + 1"
    "\<And>i. i < length cs \<Longrightarrow> 0 < client_fd (cs ! i) \<Longrightarrow> client_idx (cs ! i) = i + 1"
    "\<And>i j. i < length cs \<Longrightarrow> j < length cs \<Longrightarrow> 0 < client_fd (cs ! i) \<Longrightarrow>
       client_fd (cs ! i) = client_fd (cs ! j) \<Longrightarrow> i = j"
  shows "clients_ok cs"
  using assms by (simp add: clients_ok_def)

lemma clients_ok_length: "clients_ok cs \<Longrightarrow> length cs = CM_MAX_CLIENT"
  by (simp add: clients_ok_def)

lemma clients_ok_update:
  assumes "clients_ok cs" "i < length cs"
    and c: "client_idx c = 0 \<or> client_idx c = i + 1" "0 < client_fd c \<Longrightarrow> client_idx c = i + 1"
      "0 < client_fd c \<Longrightarrow> client_fd c \<notin> open_fds cs"
  shows "clients_ok (cs[i := c])"
proof (rule clients_okI)
  show "length (cs[i := c]) = CM_MAX_CLIENT" using clients_ok_length [OF assms(1)] by simp
  fix j assume j: "j < length (cs[i := c])"
  show "client_idx (cs[i := c] ! j) = 0 \<or> client_idx (cs[i := c] ! j) = j + 1"
    using clients_okD(1) [OF assms(1), of j] c(1) j by (cases "j = i") simp_all
  show "client_idx (cs[i := c] ! j) = j + 1" if "0 < client_fd (cs[i := c] ! j)"
    using clients_okD(2) [OF assms(1), of j] c(2) j that by (cases "j = i") simp_all
  fix k assume k: "k < length (cs[i := c])"
    and eq: "0 < client_fd (cs[i := c] ! j)" "client_fd (cs[i := c] ! j) = client_fd (cs[i := c] ! k)"
  have new: "0 < client_fd c \<Longrightarrow> client_fd c \<noteq> client_fd (cs ! n)" if "n < length cs" for n
    using c(3) that by (auto simp: open_fds_def)
  show "j = k"
    using clients_okD(3) [OF assms(1), of j k] new [of j] new [of k] j k eq
    by (cases "j = i"; cases "k = i") simp_all
qed

lemma clients_ok_connect:
  assumes "clients_ok cs" "i < length cs" "fd \<notin> open_fds cs"
  shows "clients_ok (cs[i := \<lparr>client_fd = fd, client_idx = i + 1\<rparr>])"
  using assms by (intro clients_ok_update) simp_all

lemma close_client_fields [simp]:
  "client_idx (close_client c) = client_idx c" "0 < client_fd (close_client c) \<longleftrightarrow> False"
  by (simp_all add: close_client_def)

lemma clients_ok_close:
  assumes "clients_ok cs" "i < length cs"
  shows "clients_ok (cs[i := close_client (cs ! i)])"
  by (rule clients_ok_update [OF assms]) (use clients_okD(1) [OF assms] in simp_all)

lemma clients_ok_close_all:
  assumes "clients_ok cs"
  shows "clients_ok (map close_client cs)" "open_fds (map close_client cs) = {}"
proof -
  show "clients_ok (map close_client cs)"
    by (rule clients_okI) (use clients_okD(1) [OF assms] clients_ok_length [OF assms] in simp_all)
qed (auto simp: open_fds_def)

lemma open_fds_update: "open_fds (cs[i := c]) \<subseteq> open_fds cs \<union> {client_fd c}"
  using set_update_subset_insert [of cs i c] by (auto simp: open_fds_def)

lemma open_fds_close: "open_fds (cs[i := close_client c]) \<subseteq> open_fds cs"
proof -
  have "client_fd (close_client c) \<notin> open_fds (cs[i := close_client c])" by (simp add: open_fds_def)
  then show ?thesis using open_fds_update [of cs i "close_client c"] by auto
qed

section \<open>The steps keep it\<close>

lemma length_put_tid: "12 \<le> length b \<Longrightarrow> length (put_tid w b) = length b"
  by (simp add: put_tid_def)

lemma broadcast_fields [simp]:
  "cm_clients (broadcast cs d p) = cm_clients p" "cm_recv_buffer (broadcast cs d p) = cm_recv_buffer p"
  "proxy_verbose (broadcast cs d p) = proxy_verbose p" "mbim_dev_fd (broadcast cs d p) = mbim_dev_fd p"
  "mbim_server_fd (broadcast cs d p) = mbim_server_fd p" "made_server (broadcast cs d p) = made_server p"
  by (induction cs arbitrary: p) (simp_all add: non_block_write_def)

text \<open>What a step may change: the descriptors stay, new ones come from \<open>accept\<close> only.\<close>

definition same_fds :: "int set \<Rightarrow> mbim_proxy \<Rightarrow> mbim_proxy \<Rightarrow> bool" where
  "same_fds new p p' \<longleftrightarrow> mbim_dev_fd p' = mbim_dev_fd p \<and> made_server p' = made_server p \<and>
     mbim_server_fd p' \<in> {mbim_server_fd p, made_server p} \<and> open_fds (cm_clients p') \<subseteq> open_fds (cm_clients p) \<union> new"

lemma rd32_buffer: "i + 4 \<le> length b \<Longrightarrow> \<exists>w. rd32 b i = Some w"
  using rd32_Some_iff [of b i] by auto

lemma request_ok:
  assumes "proxy_inv p"
  shows "\<exists>p'. handle_client_request fd len p = Some p' \<and> proxy_inv p' \<and> same_fds {} p p'"
proof -
  have len: "length (cm_recv_buffer p) = 4096" using assms by (simp add: proxy_inv_def RECV_BUF_def)
  obtain tid ty where r: "rd32 (cm_recv_buffer p) 8 = Some tid" "rd32 (cm_recv_buffer p) 0 = Some ty"
    using rd32_buffer [of 8 "cm_recv_buffer p"] rd32_buffer [of 0 "cm_recv_buffer p"] len by auto
  have b: "length (put_tid w (cm_recv_buffer p)) = length (cm_recv_buffer p)" for w
    using len by (simp add: length_put_tid)
  show ?thesis
    using assms b r by (auto simp: handle_client_request_def proxy_inv_def same_fds_def non_block_write_def Let_def
        split: option.split)
qed

lemma response_ok':
  assumes "proxy_inv p"
  shows "\<exists>p'. handle_device_response len p = Some p' \<and> proxy_inv p' \<and> same_fds {} p p'"
proof -
  have len: "length (cm_recv_buffer p) = 4096" using assms by (simp add: proxy_inv_def RECV_BUF_def)
  obtain tid where r: "rd32 (cm_recv_buffer p) 8 = Some tid"
    using rd32_buffer [of 8 "cm_recv_buffer p"] len by auto
  have b: "length (put_tid w (cm_recv_buffer p)) = length (cm_recv_buffer p)" for w
    using len by (simp add: length_put_tid)
  show ?thesis
    using assms b r by (auto simp: handle_device_response_def proxy_inv_def same_fds_def non_block_write_def Let_def
        split: option.split)
qed

lemma connect_ok:
  assumes "proxy_inv p" "n \<le> 0 \<or> n \<notin> open_fds (cm_clients p) \<union> {mbim_dev_fd p, mbim_server_fd p, made_server p}"
  shows "proxy_inv (handle_client_connect n p) \<and> same_fds {n} p (handle_client_connect n p)"
proof (cases "n < 0")
  case True
  then show ?thesis using assms(1) by (auto simp: handle_client_connect_def same_fds_def)
next
  case False
  note pos = this
  show ?thesis
  proof (cases "find_client (\<lambda>c. client_fd c \<le> 0) (cm_clients p)")
    case None
    then show ?thesis using assms(1) pos by (auto simp: handle_client_connect_def same_fds_def proxy_inv_def)
  next
    case (Some i)
    let ?c = "\<lparr>client_fd = n, client_idx = i + 1\<rparr>"
    let ?cs = "(cm_clients p)[i := ?c]"
    have i: "i < length (cm_clients p)" using find_client_Some [OF Some] by simp
    have ok: "clients_ok ?cs"
      using assms i by (intro clients_ok_connect) (auto simp: proxy_inv_def open_fds_def)
    have sub: "open_fds ?cs \<subseteq> open_fds (cm_clients p) \<union> {n}"
      using open_fds_update [of "cm_clients p" i ?c] by simp
    moreover have "n \<le> 0 \<Longrightarrow> n \<notin> open_fds ?cs" by (simp add: open_fds_def)
    ultimately have "open_fds ?cs \<inter> {mbim_dev_fd p, mbim_server_fd p, made_server p} = {}"
      using assms by (auto simp: proxy_inv_def)
    then show ?thesis
      using assms(1) pos Some ok sub by (simp add: handle_client_connect_def same_fds_def proxy_inv_def)
  qed
qed

lemma disconnect_ok:
  assumes "proxy_inv p"
  shows "proxy_inv (handle_client_disconnect fd p) \<and> same_fds {} p (handle_client_disconnect fd p)"
proof (cases "find_client (\<lambda>c. client_fd c = fd) (cm_clients p)")
  case (Some i)
  let ?cs = "(cm_clients p)[i := close_client (cm_clients p ! i)]"
  have "clients_ok ?cs"
    using assms find_client_Some [OF Some] by (intro clients_ok_close) (simp_all add: proxy_inv_def)
  moreover have "open_fds ?cs \<subseteq> open_fds (cm_clients p)" by (rule open_fds_close)
  ultimately show ?thesis
    using assms Some by (auto simp: handle_client_disconnect_def same_fds_def proxy_inv_def)
qed (use assms in \<open>simp add: handle_client_disconnect_def same_fds_def\<close>)

section \<open>Every run keeps it\<close>

text \<open>The invariant of the loop's state, and the descriptors that \<open>accept\<close> returns in a turn.\<close>

primrec mb_inv :: "mb_state \<Rightarrow> bool" where
  "mb_inv (MbRunning p) = proxy_inv p"
| "mb_inv (MbStopped p) = (proxy_inv p \<and> open_fds (cm_clients p) = {})"
| "mb_inv (MbReturned p) = proxy_inv p"

fun accepted :: "mb_event list \<Rightarrow> int list" where
  "accepted [] = []"
| "accepted (MbAccept n # es) = (if 0 < n then n # accepted es else accepted es)"
| "accepted (_ # es) = accepted es"

primrec fits_buffer :: "mb_event \<Rightarrow> bool" where
  "fits_buffer MbQuiet = True"
| "fits_buffer MbErr = True"
| "fits_buffer (MbAccept n) = True"
| "fits_buffer (MbRead data) = (length data \<le> RECV_BUF)"

definition known_fds :: "mbim_proxy \<Rightarrow> int set" where
  "known_fds p = open_fds (cm_clients p) \<union> {mbim_dev_fd p, mbim_server_fd p, made_server p}"

definition honest_events :: "mb_event list \<Rightarrow> mbim_proxy \<Rightarrow> bool" where
  "honest_events es p \<longleftrightarrow> (\<forall>e \<in> set es. fits_buffer e) \<and> distinct (accepted es) \<and>
     set (accepted es) \<inter> known_fds p = {}"

lemma same_fds_known: "same_fds new p p' \<Longrightarrow> known_fds p' \<subseteq> known_fds p \<union> new"
  by (auto simp: same_fds_def known_fds_def)

lemma proxy_error_inv: "proxy_inv p \<Longrightarrow> mb_inv (proxy_error p)"
  using clients_ok_close_all [of "cm_clients p"] by (simp add: proxy_error_def proxy_inv_def)

text \<open>What a step gives: the invariant, and no new descriptors but the accepted one.\<close>

definition mb_step_ok :: "int list \<Rightarrow> mbim_proxy \<Rightarrow> mb_state option \<Rightarrow> bool" where
  "mb_step_ok new p r \<longleftrightarrow> (\<exists>s. r = Some s \<and> mb_inv s \<and> (\<forall>p'. s = MbRunning p' \<longrightarrow> same_fds (set new) p p'))"

lemma mb_fds_refl: "same_fds new p p"
  by (simp add: same_fds_def)

lemma mb_step_ok_intros:
  "proxy_inv p' \<Longrightarrow> same_fds (set new) p p' \<Longrightarrow> mb_step_ok new p (Some (MbRunning p'))"
  "proxy_inv p' \<Longrightarrow> mb_step_ok new p (Some (MbReturned p'))"
  "proxy_inv p' \<Longrightarrow> mb_step_ok new p (Some (proxy_error p'))"
  using proxy_error_inv [of p'] by (auto simp: mb_step_ok_def proxy_error_def)

lemma device_opened_ok:
  assumes "proxy_inv p"
  shows "mb_step_ok [] p (device_opened p)"
proof -
  have len: "length (cm_recv_buffer p) = 4096" using assms by (simp add: proxy_inv_def RECV_BUF_def)
  obtain ty st where r: "rd32 (cm_recv_buffer p) 0 = Some ty" "rd32 (cm_recv_buffer p) 12 = Some st"
    using rd32_buffer [of 0 "cm_recv_buffer p"] rd32_buffer [of 12 "cm_recv_buffer p"] len by auto
  have "proxy_inv (p\<lparr>mbim_server_fd := made_server p\<rparr>)" "same_fds {} p (p\<lparr>mbim_server_fd := made_server p\<rparr>)"
    using assms by (simp_all add: proxy_inv_def same_fds_def)
  then show ?thesis using r assms by (simp add: device_opened_def mb_step_ok_intros mb_fds_refl)
qed

lemma serve_mb_read_ok:
  assumes "proxy_inv p" "length data \<le> RECV_BUF"
  shows "mb_step_ok [] p (serve_mb_fd fd (MbRead data) p)"
proof -
  let ?q = "p\<lparr>cm_recv_buffer := overwrite 0 data (cm_recv_buffer p)\<rparr>"
  have q: "proxy_inv ?q" using assms by (simp add: proxy_inv_def)
  have same: "same_fds {} ?q r = same_fds {} p r" for r by (simp add: same_fds_def)
  have ok: "mb_step_ok [] ?q r = mb_step_ok [] p r" for r by (simp add: mb_step_ok_def same_fds_def)
  have req: "mb_step_ok [] p (map_option MbRunning (handle_client_request fd n ?q))"
    and rsp: "mb_step_ok [] p (map_option MbRunning (handle_device_response n ?q))" for n
    using request_ok [OF q, of fd n] response_ok' [OF q, of n] by (auto simp: mb_step_ok_def same)
  show ?thesis
    using req rsp device_opened_ok [OF q] disconnect_ok [OF assms(1), of fd] assms(1)
    by (simp add: serve_mb_fd_def Let_def ok mb_step_ok_intros mb_fds_refl)
qed

lemma serve_mb_fd_ok:
  assumes "proxy_inv p" "fits_buffer e" "set (accepted [e]) \<inter> known_fds p = {}"
  shows "mb_step_ok (accepted [e]) p (serve_mb_fd fd e p)"
proof (cases e)
  case (MbRead data)
  then show ?thesis using serve_mb_read_ok assms by simp
next
  case MbErr
  then show ?thesis using disconnect_ok [OF assms(1), of fd] assms(1)
    by (simp add: serve_mb_fd_def mb_step_ok_intros mb_fds_refl)
next
  case (MbAccept n)
  have "n \<le> 0 \<or> n \<notin> known_fds p" using assms(3) MbAccept by (auto split: if_splits)
  then have c: "proxy_inv (handle_client_connect n p)" "same_fds {n} p (handle_client_connect n p)"
    using connect_ok [OF assms(1), of n] by (auto simp: known_fds_def)
  have "same_fds (set (accepted [e])) p (handle_client_connect n p)"
    using c(2) MbAccept by (auto simp: same_fds_def open_fds_def)
  then show ?thesis using c(1) assms(1) MbAccept
    by (simp only: serve_mb_fd_def mb_event.case) (simp add: mb_step_ok_intros mb_fds_refl)
qed (use assms in \<open>simp add: serve_mb_fd_def mb_step_ok_intros mb_fds_refl\<close>)

lemma accepted_Cons: "accepted (e # es) = accepted [e] @ accepted es"
  by (cases e) simp_all

lemma serve_mb_fds_stopped [simp]:
  "serve_mb_fds es (MbStopped p) = Some (MbStopped p)" "serve_mb_fds es (MbReturned p) = Some (MbReturned p)"
  by (cases es; simp)+

lemma serve_mb_fds_ok:
  assumes "proxy_inv p" "honest_events (map snd fes) p"
  shows "\<exists>s. serve_mb_fds fes (MbRunning p) = Some s \<and> mb_inv s"
  using assms
proof (induction fes arbitrary: p)
  case (Cons fe fes)
  obtain fd e where fe: "fe = (fd, e)" by force
  have h: "fits_buffer e" "set (accepted [e]) \<inter> known_fds p = {}" "\<forall>e \<in> set (map snd fes). fits_buffer e"
    "distinct (accepted (map snd fes))" "set (accepted (map snd fes)) \<inter> known_fds p = {}"
    "set (accepted [e]) \<inter> set (accepted (map snd fes)) = {}"
    using Cons.prems(2) accepted_Cons [of e "map snd fes"] fe by (auto simp: honest_events_def)
  obtain s where s: "serve_mb_fd fd e p = Some s" "mb_inv s"
    "\<And>p'. s = MbRunning p' \<Longrightarrow> same_fds (set (accepted [e])) p p'"
    using serve_mb_fd_ok [OF Cons.prems(1) h(1,2), of fd] by (auto simp: mb_step_ok_def)
  show ?case
  proof (cases s)
    case (MbRunning p')
    have "honest_events (map snd fes) p'"
      using h(3-6) same_fds_known [OF s(3) [OF MbRunning]] by (auto simp: honest_events_def)
    with Cons.IH [of p'] s MbRunning show ?thesis by (simp add: fe)
  qed (use s in \<open>simp_all add: fe\<close>)
qed simp

text \<open>
  What the environment promises of a turn: reads fit the buffer, and \<open>accept\<close> gives a descriptor
  that is not in use.
\<close>

definition honest_turn :: "mb_event list option \<Rightarrow> mb_state \<Rightarrow> bool" where
  "honest_turn r s = (case s of
       MbRunning p \<Rightarrow> (case r of None \<Rightarrow> True | Some es \<Rightarrow> honest_events (map snd (zip (pollfds_of p) es)) p)
     | _ \<Rightarrow> True)"

fun honest_turns :: "mb_event list option list \<Rightarrow> mb_state \<Rightarrow> bool" where
  "honest_turns [] s = True"
| "honest_turns (r # rs) s = (honest_turn r s \<and>
     (case mbim_proxy_turn r s of None \<Rightarrow> True | Some s' \<Rightarrow> honest_turns rs s'))"

lemma mbim_proxy_turn_ok:
  assumes "mb_inv s" "honest_turn r s"
  shows "\<exists>s'. mbim_proxy_turn r s = Some s' \<and> mb_inv s'"
proof (cases s)
  case (MbRunning p)
  then show ?thesis
    using assms proxy_error_inv [of p] serve_mb_fds_ok [of p "zip (pollfds_of p) es" for es]
    by (cases r) (simp_all add: mbim_proxy_turn_def honest_turn_def)
qed (use assms in \<open>simp_all add: mbim_proxy_turn_def\<close>)

lemma mbim_proxy_run_ok:
  "mb_inv s \<Longrightarrow> honest_turns rs s \<Longrightarrow> \<exists>s'. mbim_proxy_run rs s = Some s' \<and> mb_inv s'"
proof (induction rs arbitrary: s)
  case (Cons r rs)
  obtain s' where "mbim_proxy_turn r s = Some s'" "mb_inv s'"
    using mbim_proxy_turn_ok [of s r] Cons.prems by auto
  with Cons.IH [of s'] Cons.prems(2) show ?case by simp
qed simp

lemma mbim_proxy_start_inv:
  "length buf = RECV_BUF \<Longrightarrow> mb_inv (MbRunning (mbim_proxy_start fd server False buf))"
  by (auto simp: mbim_proxy_start_def mbim_send_open_msg_def non_block_write_def proxy_inv_def open_fds_def
      clients_ok_def CM_MAX_CLIENT_def)

text \<open>
  Property C13 (invariant): without the option \<open>-v\<close> the MBIM proxy stays inside its arrays. In a
  session started without it, and for every sequence of turns in which a read fits the buffer
  and \<open>accept\<close> returns a descriptor that is not in use, the proxy never leaves an array, and
  its table stays well-formed: 32 slots, the client in slot \<open>i\<close> has index \<open>i + 1\<close>, and no two
  connected clients share a descriptor. After an error no client is left connected. With \<open>-v\<close>
  the log of a forwarded request leaves the table (\<open>mbim_verbose_out_of_bounds\<close>).\<close>

theorem mbim_proxy_safe:
  assumes "length buf = RECV_BUF" "honest_turns rs (MbRunning (mbim_proxy_start fd server False buf))"
  shows "\<exists>s. mbim_proxy_run rs (MbRunning (mbim_proxy_start fd server False buf)) = Some s \<and> mb_inv s"
  using mbim_proxy_run_ok [OF mbim_proxy_start_inv] assms by blast

definition mb_open_ok :: "byte list" where
  "mb_open_ok = le32 0x80000001 @ le32 16 @ le32 1 @ le32 0"

definition mb_session :: "mb_event list option list" where
  "mb_session = [Some [MbRead mb_open_ok], Some [MbQuiet, MbAccept 7], Some [MbQuiet, MbQuiet, MbErr]]"

lemma mbim_proxy_safe_witness:
  "\<exists>s. mbim_proxy_run mb_session (MbRunning (mbim_proxy_start 5 6 False (replicate RECV_BUF 0))) = Some s \<and> mb_inv s"
proof (rule mbim_proxy_safe)
  show "honest_turns mb_session (MbRunning (mbim_proxy_start 5 6 False (replicate RECV_BUF 0)))" by code_simp
qed simp

end
