(* ===== verification/MbimProxyRoute.thy ===== *)
theory MbimProxyRoute
  imports MbimProxyProps
begin

text \<open>
  Where the MBIM proxy sends what: an answer goes back to the client that asked, a message
  without a transaction to all of them, and the answer for a client that has left to whoever
  has taken its slot.
\<close>

section \<open>Transaction identifiers\<close>

lemma TID_MASK_eq: "TID_MASK = mask 24"
  by (simp add: TID_MASK_def mask_eq_exp_minus_1)

lemma tid_index:
  fixes t :: u32
  assumes "t AND TID_MASK = t" "k < 256"
  shows "unat (drop_bit 24 (t OR push_bit 24 (of_nat k))) = k"
    "(t OR push_bit 24 (of_nat k)) AND TID_MASK = t"
proof -
  have mask: "bit TID_MASK n \<longleftrightarrow> n < 24" for n
    by (subst TID_MASK_eq) (auto simp: bit_mask_iff)
  have t: "bit t n \<Longrightarrow> n < 24" for n
    using assms(1) mask [of n] by (metis bit_and_iff)
  have "take_bit 8 (of_nat k) = (of_nat k :: u32)"
    using assms(2) by (simp add: take_bit_nat_eq_self flip: of_nat_take_bit)
  then have k: "bit (of_nat k :: u32) n \<Longrightarrow> n < 8" for n
    by (metis bit_take_bit_iff)
  have "drop_bit 24 (t OR push_bit 24 (of_nat k)) = (of_nat k :: u32)"
    using t k by (intro bit_word_eqI) (fastforce simp: bit_simps)
  then show "unat (drop_bit 24 (t OR push_bit 24 (of_nat k))) = k"
    using assms(2) by (simp add: unat_of_nat)
  show "(t OR push_bit 24 (of_nat k)) AND TID_MASK = t"
    using t mask by (intro bit_word_eqI) (auto simp: bit_simps)
qed

section \<open>The buffer\<close>

lemma overwrite_0: "overwrite 0 d b = d @ drop (length d) b"
  by (simp add: overwrite_def)

lemma rd32_received [simp]: "rd32 d i = Some w \<Longrightarrow> rd32 (overwrite 0 d b) i = Some w"
  by (simp add: overwrite_0 rd32_mono)

lemma put_tid_received [simp]:
  "12 \<le> length d \<Longrightarrow> take (length d) (put_tid w (overwrite 0 d b)) = put_tid w d"
  by (simp add: put_tid_def overwrite_def)

lemma take_received [simp]: "take (length d) (overwrite 0 d b) = d"
  by (simp add: overwrite_0)

section \<open>The slot of a client\<close>

lemma find_client_first:
  assumes "i < length cs" "P (cs ! i)" "\<And>j. j < i \<Longrightarrow> \<not> P (cs ! j)"
  shows "find_client P cs = Some i"
proof (cases "find_client P cs")
  case None
  then show ?thesis using assms(1,2) by (auto simp: find_client_None)
next
  case (Some j)
  from find_client_Some [OF Some] assms(2,3) show ?thesis
    using Some linorder_less_linear [of i j] by auto
qed

lemma find_by_fd:
  assumes "clients_ok cs" "i < CM_MAX_CLIENT" "0 < client_fd (cs ! i)"
  shows "find_client (\<lambda>c. client_fd c = client_fd (cs ! i)) cs = Some i"
  using assms clients_ok_length [OF assms(1)] clients_okD(3) [OF assms(1), of _ i]
  by (intro find_client_unique) auto

lemma find_by_idx:
  assumes "clients_ok cs" "i < CM_MAX_CLIENT" "0 < client_fd (cs ! i)"
  shows "find_client (\<lambda>c. client_idx c = i + 1 \<and> 0 < client_fd c) cs = Some i"
proof (rule find_client_unique)
  show "client_idx (cs ! i) = i + 1 \<and> 0 < client_fd (cs ! i)"
    using assms clients_ok_length [OF assms(1)] clients_okD(2) [OF assms(1), of i] by simp
  show "j = i" if "j < length cs" "client_idx (cs ! j) = i + 1 \<and> 0 < client_fd (cs ! j)" for j
    using clients_okD(2) [OF assms(1) that(1)] that(2) by simp
qed (use assms clients_ok_length [OF assms(1)] in simp)

lemma not_control_fd:
  assumes "proxy_inv p" "i < CM_MAX_CLIENT" "0 < client_fd (cm_clients p ! i)"
  shows "client_fd (cm_clients p ! i) \<noteq> mbim_dev_fd p" "client_fd (cm_clients p ! i) \<noteq> mbim_server_fd p"
proof -
  have "client_fd (cm_clients p ! i) \<in> open_fds (cm_clients p)"
    using assms by (auto simp: open_fds_def proxy_inv_def clients_ok_def)
  then show "client_fd (cm_clients p ! i) \<noteq> mbim_dev_fd p" "client_fd (cm_clients p ! i) \<noteq> mbim_server_fd p"
    using assms(1) by (auto simp: proxy_inv_def)
qed

section \<open>Requests and answers\<close>

definition proxy_tid :: "nat \<Rightarrow> u32 \<Rightarrow> u32" where
  "proxy_tid i t = t OR push_bit 24 (of_nat (i + 1))"

lemma request_forwarded:
  assumes inv: "proxy_inv p" "i < CM_MAX_CLIENT" "0 < client_fd (cm_clients p ! i)"
    and req: "12 \<le> length req" "rd32 req 0 = Some ty" "ty \<noteq> 1" "ty \<noteq> 2" "rd32 req 8 = Some t"
  shows "\<exists>p'. serve_mb_fd (client_fd (cm_clients p ! i)) (MbRead req) p = Some (MbRunning p') \<and>
    proxy_writes p' = proxy_writes p @ [(mbim_dev_fd p, put_tid (proxy_tid i t) req)] \<and> cm_clients p' = cm_clients p"
proof -
  let ?fd = "client_fd (cm_clients p ! i)"
  have ok: "clients_ok (cm_clients p)" and v: "\<not> proxy_verbose p" using inv(1) by (auto simp: proxy_inv_def)
  have idx: "client_idx (cm_clients p ! i) = i + 1"
    using clients_okD(2) [OF ok, of i] clients_ok_length [OF ok] inv by simp
  have "req \<noteq> []" using req(1) by auto
  then show ?thesis
    using not_control_fd [OF inv] find_by_fd [OF ok inv(2,3)] idx req v
    by (simp add: serve_mb_fd_def handle_client_request_def non_block_write_def Let_def proxy_tid_def)
qed

lemma proxy_tid_parts:
  assumes "t AND TID_MASK = t" "i < CM_MAX_CLIENT"
  shows "unat (drop_bit 24 (proxy_tid i t)) = i + 1" "proxy_tid i t AND TID_MASK = t" "proxy_tid i t \<noteq> 0"
proof -
  have "i + 1 < 256" using assms(2) by (simp add: CM_MAX_CLIENT_def)
  from tid_index [OF assms(1) this] show *: "unat (drop_bit 24 (proxy_tid i t)) = i + 1" "proxy_tid i t AND TID_MASK = t"
    unfolding proxy_tid_def by simp_all
  show "proxy_tid i t \<noteq> 0" using *(1) by force
qed

lemma answer_delivered:
  assumes inv: "proxy_inv q" "i < CM_MAX_CLIENT" "0 < client_fd (cm_clients q ! i)" "mbim_server_fd q > 0"
      "mbim_dev_fd q \<noteq> mbim_server_fd q"
    and ans: "12 \<le> length ans" "rd32 ans 8 = Some (proxy_tid i t)" "t AND TID_MASK = t"
  shows "\<exists>q'. serve_mb_fd (mbim_dev_fd q) (MbRead ans) q = Some (MbRunning q') \<and>
    proxy_writes q' = proxy_writes q @ [(client_fd (cm_clients q ! i), put_tid t ans)]"
proof -
  have ok: "clients_ok (cm_clients q)" using inv(1) by (auto simp: proxy_inv_def)
  have "ans \<noteq> []" using ans(1) by auto
  then show ?thesis
    using find_by_idx [OF ok inv(2,3)] proxy_tid_parts [OF ans(3) inv(2)] ans inv(4,5)
    by (simp add: serve_mb_fd_def handle_device_response_def non_block_write_def Let_def)
qed

section \<open>Sessions\<close>

definition mbim_session :: "int \<Rightarrow> int \<Rightarrow> byte list \<Rightarrow> mbim_proxy \<Rightarrow> bool" where
  "mbim_session fd server buf p \<longleftrightarrow> (\<exists>rs. honest_turns rs (MbRunning (mbim_proxy_start fd server False buf)) \<and>
     mbim_proxy_run rs (MbRunning (mbim_proxy_start fd server False buf)) = Some (MbRunning p))"

lemma mbim_session_inv: "length buf = RECV_BUF \<Longrightarrow> mbim_session fd server buf p \<Longrightarrow> proxy_inv p"
  using mbim_proxy_run_ok [OF mbim_proxy_start_inv] unfolding mbim_session_def by fastforce

lemma rd32_put_tid: "12 \<le> length m \<Longrightarrow> rd32 (put_tid w m) 8 = Some w"
  using rd32_append2 [of "take 8 m" "le32 w @ drop 12 m" 0] rd32_le32 [of w "drop 12 m"]
  by (simp add: put_tid_def overwrite_def)

text \<open>
  Property C14 (roundtrip): in every session the proxy forwards the request of a client to the
  device with only its transaction identifier changed, and when the device answers under that
  changed identifier, at any later time while the client is still connected, the answer is written
  to exactly this client, with the client's own identifier and no other byte changed. (Identifiers
  below \<open>2 ^ 24\<close>; requests other than opening and closing, which the proxy answers itself.)\<close>

theorem mbim_answer_returns:
  assumes "length buf = RECV_BUF" "mbim_session fd server buf p" "mbim_session fd server buf q"
    and "i < CM_MAX_CLIENT" "0 < client_fd (cm_clients p ! i)" "cm_clients q ! i = cm_clients p ! i"
    and "0 < mbim_server_fd q" "mbim_dev_fd q \<noteq> mbim_server_fd q"
    and "12 \<le> length req" "rd32 req 0 = Some ty" "ty \<noteq> 1" "ty \<noteq> 2" "rd32 req 8 = Some t" "t AND TID_MASK = t"
    and "12 \<le> length ans" "rd32 ans 8 = rd32 (put_tid (proxy_tid i t) req) 8"
  shows "\<exists>p' q'. serve_mb_fd (client_fd (cm_clients p ! i)) (MbRead req) p = Some (MbRunning p') \<and>
      proxy_writes p' = proxy_writes p @ [(mbim_dev_fd p, put_tid (proxy_tid i t) req)] \<and>
      serve_mb_fd (mbim_dev_fd q) (MbRead ans) q = Some (MbRunning q') \<and>
      proxy_writes q' = proxy_writes q @ [(client_fd (cm_clients p ! i), put_tid t ans)]"
proof -
  note inv = mbim_session_inv [OF assms(1,2)] mbim_session_inv [OF assms(1,3)]
  have "rd32 ans 8 = Some (proxy_tid i t)" using assms(16) rd32_put_tid [OF assms(9)] by simp
  with answer_delivered [OF inv(2) assms(4), of ans t] request_forwarded [OF inv(1) assms(4,5,9-13)] assms
  show ?thesis by force
qed

text \<open>
  Property C40 (error): an index is not retired with its client. When a client hangs up before
  its answer has come and the next client gets its slot (the first that is free), the answer to
  the old client's request is written to the new one, which never asked.\<close>

theorem mbim_late_answer_misdelivered:
  assumes "length buf = RECV_BUF" "mbim_session fd server buf p"
    and "i < CM_MAX_CLIENT" "\<forall>j \<le> i. 0 < client_fd (cm_clients p ! j)" "0 < n" "n \<notin> known_fds p"
    and "0 < mbim_server_fd p" "mbim_dev_fd p \<noteq> mbim_server_fd p"
    and "12 \<le> length ans" "rd32 ans 8 = Some (proxy_tid i t)" "t AND TID_MASK = t"
  shows "\<exists>q. serve_mb_fds [(client_fd (cm_clients p ! i), MbErr), (mbim_server_fd p, MbAccept n),
        (mbim_dev_fd p, MbRead ans)] (MbRunning p) = Some (MbRunning q) \<and>
      proxy_writes q = proxy_writes p @ [(n, put_tid t ans)]"
proof -
  have inv: "proxy_inv p" by (rule mbim_session_inv [OF assms(1,2)])
  then have ok: "clients_ok (cm_clients p)" by (simp add: proxy_inv_def)
  note len = clients_ok_length [OF ok]
  have pos: "0 < client_fd (cm_clients p ! i)" using assms(4) by simp
  let ?p1 = "handle_client_disconnect (client_fd (cm_clients p ! i)) p"
  let ?p2 = "handle_client_connect n ?p1"
  have p1: "cm_clients ?p1 = (cm_clients p)[i := close_client (cm_clients p ! i)]" "proxy_writes ?p1 = proxy_writes p"
      "mbim_dev_fd ?p1 = mbim_dev_fd p" "mbim_server_fd ?p1 = mbim_server_fd p" "made_server ?p1 = made_server p"
    using find_by_fd [OF ok assms(3) pos] by (simp_all add: handle_client_disconnect_def)
  have free: "find_client (\<lambda>c. client_fd c \<le> 0) (cm_clients ?p1) = Some i"
  proof (rule find_client_first)
    show "i < length (cm_clients ?p1)" using assms(3) len p1 by simp
    then show "client_fd (cm_clients ?p1 ! i) \<le> 0" using p1 by (simp add: close_client_def)
    show "\<not> client_fd (cm_clients ?p1 ! j) \<le> 0" if "j < i" for j using assms(4) [rule_format, of j] that p1 by simp
  qed
  have p2: "cm_clients ?p2 = (cm_clients ?p1)[i := \<lparr>client_fd = n, client_idx = i + 1\<rparr>]" "proxy_writes ?p2 = proxy_writes p"
      "mbim_dev_fd ?p2 = mbim_dev_fd p" "mbim_server_fd ?p2 = mbim_server_fd p"
    using free assms(5) p1 by (simp_all add: handle_client_connect_def)
  have inv1: "proxy_inv ?p1" "same_fds {} p ?p1" using disconnect_ok [OF inv] by auto
  have inv2: "proxy_inv ?p2"
    using connect_ok [OF inv1(1), of n] same_fds_known [OF inv1(2)] assms(6) by (auto simp: known_fds_def)
  have new: "cm_clients ?p2 ! i = \<lparr>client_fd = n, client_idx = i + 1\<rparr>" using p1 p2 assms(3) len by simp
  obtain q where q: "serve_mb_fd (mbim_dev_fd ?p2) (MbRead ans) ?p2 = Some (MbRunning q)"
      "proxy_writes q = proxy_writes ?p2 @ [(n, put_tid t ans)]"
    using answer_delivered [OF inv2 assms(3), of ans t] new p2 assms(5,7-11) by auto
  have "serve_mb_fd (client_fd (cm_clients p ! i)) MbErr p = Some (MbRunning ?p1)"
    using not_control_fd [OF inv assms(3) pos] by (simp add: serve_mb_fd_def)
  moreover have "serve_mb_fd (mbim_server_fd p) (MbAccept n) ?p1 = Some (MbRunning ?p2)"
    using p1 by (simp add: serve_mb_fd_def)
  ultimately show ?thesis using q p2 by simp
qed

section \<open>Messages without a transaction, and the log\<close>

lemma broadcast_writes:
  "proxy_writes (broadcast cs d p) =
     proxy_writes p @ map (\<lambda>c. (client_fd c, d)) (filter (\<lambda>c. 0 < client_fd c) cs)"
  by (induction cs arbitrary: p) (simp_all add: non_block_write_def)

text \<open>
  A message of the device without a transaction (an indication) is
  written unchanged, once, to every connected client and to nobody else.\<close>

theorem mbim_indication_reaches_all:
  assumes "rd32 ind 8 = Some 0" "mbim_dev_fd p \<noteq> mbim_server_fd p" "mbim_server_fd p \<noteq> - 1"
  shows "\<exists>q. serve_mb_fd (mbim_dev_fd p) (MbRead ind) p = Some (MbRunning q) \<and> cm_clients q = cm_clients p \<and>
    proxy_writes q = proxy_writes p @ map (\<lambda>c. (client_fd c, ind)) (filter (\<lambda>c. 0 < client_fd c) (cm_clients p))"
proof -
  have "ind \<noteq> []" using assms(1) by (auto simp: rd32_def rd8_def)
  then show ?thesis
    using assms by (simp add: serve_mb_fd_def handle_device_response_def broadcast_writes Let_def)
qed

text \<open>With \<open>-v\<close> a request of the client in the last slot makes the log read behind the table.\<close>

lemma mbim_verbose_out_of_bounds:
  assumes "clients_ok (cm_clients p)" "proxy_verbose p" "0 < client_fd (cm_clients p ! 31)"
    and "rd32 (cm_recv_buffer p) 0 = Some ty" "ty \<noteq> 1" "ty \<noteq> 2" "rd32 (cm_recv_buffer p) 8 = Some t"
  shows "handle_client_request (client_fd (cm_clients p ! 31)) len p = None"
proof -
  have i: "31 < CM_MAX_CLIENT" by (simp add: CM_MAX_CLIENT_def)
  have "client_idx (cm_clients p ! 31) = 32" "length (cm_clients p) = 32"
    using clients_okD(2) [OF assms(1), of 31] clients_ok_length [OF assms(1)] assms(3) i
    by (simp_all add: CM_MAX_CLIENT_def)
  then show ?thesis
    using assms find_by_fd [OF assms(1) i] by (simp add: handle_client_request_def Let_def)
qed

section \<open>Witnesses\<close>

definition mb_start :: mb_state where
  "mb_start = MbRunning (mbim_proxy_start 5 6 False (replicate RECV_BUF 0))"

definition mb_one_client :: "mb_event list option list" where
  "mb_one_client = [Some [MbRead mb_open_ok], Some [MbQuiet, MbAccept 7]]"

definition mb_connected :: mbim_proxy where
  "mb_connected = (case mbim_proxy_run mb_one_client mb_start of Some (MbRunning p) \<Rightarrow> p
     | _ \<Rightarrow> mbim_proxy_start 0 0 True [])"

definition mb_query :: "byte list" where "mb_query = le32 3 @ le32 12 @ le32 9"

lemma mb_connected_session: "mbim_session 5 6 (replicate RECV_BUF 0) mb_connected"
proof -
  have "honest_turns mb_one_client mb_start" by code_simp
  moreover have "(case mbim_proxy_run mb_one_client mb_start of Some (MbRunning p) \<Rightarrow> True | _ \<Rightarrow> False)" by code_simp
  ultimately show ?thesis
    unfolding mbim_session_def mb_start_def [symmetric]
    by (intro exI [of _ mb_one_client]) (auto simp: mb_connected_def split: option.splits mb_state.splits)
qed

definition mb_summary :: "mbim_proxy \<Rightarrow> int \<times> int \<times> int \<times> int \<times> int list" where
  "mb_summary p = (client_fd (cm_clients p ! 0), mbim_server_fd p, mbim_dev_fd p, made_server p,
     filter (\<lambda>fd. 0 < fd) (map client_fd (cm_clients p)))"

lemma mb_connected_summary: "mb_summary mb_connected = (7, 6, 5, 6, [7])"
  by code_simp

lemma mb_connected_facts:
  "client_fd (cm_clients mb_connected ! 0) = 7" "mbim_server_fd mb_connected = 6" "mbim_dev_fd mb_connected = 5"
  "known_fds mb_connected = {5, 6, 7}"
  using mb_connected_summary by (auto simp: mb_summary_def known_fds_def open_fds_def simp del: set_filter)

lemma mbim_answer_returns_witness:
  "\<exists>p' q'. serve_mb_fd 7 (MbRead mb_query) mb_connected = Some (MbRunning p') \<and>
      proxy_writes p' = proxy_writes mb_connected @ [(5, put_tid (proxy_tid 0 9) mb_query)] \<and>
      serve_mb_fd 5 (MbRead (put_tid (proxy_tid 0 9) mb_query)) mb_connected = Some (MbRunning q') \<and>
      proxy_writes q' = proxy_writes mb_connected @ [(7, put_tid 9 (put_tid (proxy_tid 0 9) mb_query))]"
  using mbim_answer_returns [of "replicate RECV_BUF 0" 5 6 mb_connected mb_connected 0 mb_query 3 9
      "put_tid (proxy_tid 0 9) mb_query"] mb_connected_session
  by (simp add: mb_connected_facts CM_MAX_CLIENT_def mb_query_def rd_simps TID_MASK_def rd32_put_tid rd32_def rd8_def
      le32_def of_le32_def put_tid_def overwrite_def)

lemma mbim_late_answer_misdelivered_witness:
  "\<exists>q. serve_mb_fds [(7, MbErr), (6, MbAccept 8), (5, MbRead (put_tid (proxy_tid 0 9) mb_query))]
        (MbRunning mb_connected) = Some (MbRunning q) \<and>
      proxy_writes q = proxy_writes mb_connected @ [(8, put_tid 9 (put_tid (proxy_tid 0 9) mb_query))]"
proof -
  have l: "12 \<le> length mb_query" "12 \<le> length (put_tid w mb_query)" for w
    by (simp_all add: mb_query_def put_tid_def overwrite_def)
  show ?thesis
    using mbim_late_answer_misdelivered [of "replicate RECV_BUF 0" 5 6 mb_connected 0 8
        "put_tid (proxy_tid 0 9) mb_query" 9] mb_connected_session l rd32_put_tid [OF l(1)]
    by (simp add: mb_connected_facts CM_MAX_CLIENT_def TID_MASK_def)
qed

lemma mbim_indication_reaches_all_witness:
  "\<exists>q. serve_mb_fd 5 (MbRead (le32 7 @ le32 12 @ le32 0)) mb_connected = Some (MbRunning q) \<and>
     cm_clients q = cm_clients mb_connected \<and> proxy_writes q = proxy_writes mb_connected @
       map (\<lambda>c. (client_fd c, le32 7 @ le32 12 @ le32 0)) (filter (\<lambda>c. 0 < client_fd c) (cm_clients mb_connected))"
  using mbim_indication_reaches_all [of "le32 7 @ le32 12 @ le32 0" mb_connected]
  by (simp add: mb_connected_facts rd32_def rd8_def le32_def of_le32_def)

end
