(* ===== verification/MbimMsg.thy ===== *)
theory MbimMsg
  imports AtcAddr QmiWwan
begin

text \<open>
  The MBIM client, \<open>mbim-cm.c\<close>: its state, the identifiers of device services as text and
  bytes, wide strings, and the composition of messages. The host is little-endian, as the
  armv8 target is.
\<close>

section \<open>Service identifiers\<close>

definition UUID_BASIC_CONNECT :: string where "UUID_BASIC_CONNECT = ''a289cc33-bcbb-8b4f-b6b0-133ec2aae6df''"
definition UUID_BASIC_CONNECT_EXT :: string where "UUID_BASIC_CONNECT_EXT = ''3d01dcc5-fef5-4d05-0d3a-bef7058e9aaf''"
definition uuid_ext_qmux :: string where "uuid_ext_qmux = ''d1a30bc2-f97a-6e43-bf65-c7e24fb0f0d3''"
definition UUID_LIBMBIM_PROXY :: string where "UUID_LIBMBIM_PROXY = ''838cf7fb-8d0d-4d7f-871e-d71dbefbb39b''"
definition UUID_MBIMContextTypeInternet :: string where
  "UUID_MBIMContextTypeInternet = ''7E5E2A7E-4E6F-7272-736B-656E7E5E2A7E''"

text \<open>The format of an identifier, a digit pair (written \<open>x\<close>) or a dash at a time.\<close>

definition uuid_format :: string where "uuid_format = ''xxxx-xx-xx-xx-xxxxxx''"

fun scan_format :: "string \<Rightarrow> string \<Rightarrow> int list" where
  "scan_format [] s = []"
| "scan_format (f # fs) s =
     (if f = CHR ''-'' then (case s of c # r \<Rightarrow> if c = CHR ''-'' then scan_format fs r else [] | [] \<Rightarrow> [])
      else (case scan_X2 s of None \<Rightarrow> [] | Some (v, r) \<Rightarrow> v # scan_format fs r))"

text \<open>
  \<open>None\<close>: the text is longer than the buffer, or a conversion fails and the code reads numbers
  that were never set.
\<close>

definition str2uuid :: "string \<Rightarrow> byte list option" where
  "str2uuid s = (let d = scan_format uuid_format (map tolower s) in
     if 36 < length s \<or> length d \<noteq> 16 then None else Some (map of_int d))"

definition lower_hex :: "byte \<Rightarrow> string" where
  "lower_hex b = map tolower (hex_byte b)"

fun print_format :: "string \<Rightarrow> byte list \<Rightarrow> string" where
  "print_format [] d = []"
| "print_format (f # fs) d =
     (if f = CHR ''-'' then CHR ''-'' # print_format fs d
      else (case d of [] \<Rightarrow> [] | b # bs \<Rightarrow> lower_hex b @ print_format fs bs))"

definition uuid2str :: "byte list \<Rightarrow> string" where
  "uuid2str d = print_format uuid_format d"

section \<open>Wide strings and addresses\<close>

text \<open>
  \<open>wchar2char\<close> from position \<open>pos\<close> of the block: the characters stored before the NUL. \<open>dst_len\<close>
  is the size of the destination.
\<close>

definition wchar2char :: "byte list \<Rightarrow> nat \<Rightarrow> nat \<Rightarrow> nat \<Rightarrow> string option" where
  "wchar2char blk pos src_size dst_len = do {
     bs \<leftarrow> those (map (\<lambda>i. rd8 blk (pos + i * 2)) [0..<min (dst_len - 1) (src_size div 2)]);
     Some (takeWhile (\<lambda>c. c \<noteq> CHR 0x00) (map (\<lambda>b. char_of (unat b)) bs)) }"

definition wide :: "string \<Rightarrow> byte list" where
  "wide s = concat (map (\<lambda>c. [of_char c, 0]) s)"

text \<open>What \<open>char2wchar\<close> stores; its value is the number of these bytes.\<close>

definition char2wchar :: "string \<Rightarrow> nat \<Rightarrow> byte list" where
  "char2wchar src dst_len = wide (take (dst_len div 2) src)"

definition mbim2qmi_ipv4addr :: "u32 \<Rightarrow> u32" where
  "mbim2qmi_ipv4addr addr = drop_bit 24 addr OR (drop_bit 8 addr AND 0xff00)
     OR (push_bit 8 addr AND 0xff0000) OR push_bit 24 addr"

section \<open>State\<close>

text \<open>
  What happens around one command: the arrivals before it, what \<open>write\<close> returns (\<open>None\<close>: all
  bytes are taken), and the rounds of the timed wait.
\<close>

datatype mb_arrival = MbMessage "byte list" | MbGone

record mbim_env =
  mb_before :: "mb_arrival list"
  mb_written :: "int option"
  mb_rounds :: "(mb_arrival list \<times> int) list"

text \<open>
  The file-scope variables of \<open>mbim-cm.c\<close>. \<open>reader_alive\<close> is \<open>s_tid_reader \<noteq> 0\<close>. The last fields
  are not in the code: the requests handed to \<open>write\<close>, the events told to the main thread, the
  coming environment, whether \<open>socketpair\<close> succeeds, and what uninitialised memory holds.
\<close>

record mbim =
  mbim_fd :: int
  reader_alive :: bool
  mbTransactionId :: u32
  mbim_apn :: "string option"
  mbim_user :: "string option"
  mbim_pd :: "string option"
  mbim_iptype :: int
  mbim_auth :: int
  mbim_sessionID :: int
  mbim_pRequest :: "byte list option"
  mbim_pResponse :: "byte list option"
  qmi_over_mbim_support :: bool
  qmi_over_mbim_sk :: bool
  qmi_over_mbim_nas :: byte
  mbim_ms_version :: byte
  ReadyState :: u32
  RegisterState :: u32
  PacketServiceState :: u32
  ActivationState :: u32
  oldReadyState :: u32
  oldRegisterState :: u32
  oldPacketServiceState :: u32
  oldActivationState :: u32
  mbim_sent :: "byte list list"
  mbim_events :: "ril_event list"
  mbim_envs :: "mbim_env list"
  socketpair_ok :: bool
  uninit :: "nat \<Rightarrow> byte"

definition mbim_default_timeout :: u32 where "mbim_default_timeout = 30000"

section \<open>Composition\<close>

definition compose_open_command :: "u32 \<Rightarrow> mbim \<Rightarrow> byte list \<times> mbim" where
  "compose_open_command MaxControlTransfer s =
     (le32 1 @ le32 16 @ le32 (mbTransactionId s) @ le32 MaxControlTransfer,
      s\<lparr>mbTransactionId := mbTransactionId s + 1\<rparr>)"

definition compose_close_command :: "mbim \<Rightarrow> byte list \<times> mbim" where
  "compose_close_command s =
     (le32 2 @ le32 12 @ le32 (mbTransactionId s), s\<lparr>mbTransactionId := mbTransactionId s + 1\<rparr>)"

text \<open>\<open>info\<close> is \<open>pInformationBuffer\<close> with its \<open>n\<close> bytes. Without one the block is left as it is.\<close>

definition compose_basic_connect_command ::
  "u32 \<Rightarrow> u32 \<Rightarrow> byte list option \<Rightarrow> nat \<Rightarrow> mbim \<Rightarrow> (byte list \<times> mbim) option" where
  "compose_basic_connect_command CID CommandType info n s = do {
     u \<leftarrow> str2uuid UUID_BASIC_CONNECT;
     let head = le32 3 @ le32 (of_nat (48 + n)) @ le32 (mbTransactionId s) @ le32 1 @ le32 0 @ u
       @ le32 CID @ le32 CommandType;
     Some (head @ (case info of Some b \<Rightarrow> le32 (of_nat n) @ b | None \<Rightarrow> le32 0 @ map (uninit s) [0..<n]),
       s\<lparr>mbTransactionId := mbTransactionId s + 1\<rparr>) }"

definition compose_service_command ::
  "string \<Rightarrow> u32 \<Rightarrow> u32 \<Rightarrow> byte list option \<Rightarrow> nat \<Rightarrow> mbim \<Rightarrow> (byte list \<times> mbim) option" where
  "compose_service_command service CID CommandType info n s = do {
     (req, s) \<leftarrow> compose_basic_connect_command CID CommandType info n s;
     u \<leftarrow> str2uuid service;
     Some (overwrite 20 u req, s) }"

definition compose_basic_connect_ext_command ::
  "u32 \<Rightarrow> u32 \<Rightarrow> byte list option \<Rightarrow> nat \<Rightarrow> mbim \<Rightarrow> (byte list \<times> mbim) option" where
  "compose_basic_connect_ext_command = compose_service_command UUID_BASIC_CONNECT_EXT"

definition compose_qmi_over_mbim_command ::
  "u32 \<Rightarrow> u32 \<Rightarrow> byte list option \<Rightarrow> nat \<Rightarrow> mbim \<Rightarrow> (byte list \<times> mbim) option" where
  "compose_qmi_over_mbim_command = compose_service_command uuid_ext_qmux"

end
