(* ===== verification/MbimSlot.thy ===== *)
theory MbimSlot
  imports MbimMsg
begin

text \<open>
  The request slot of the MBIM client: \<open>mbim_recv_command\<close>, which the reader thread calls for
  every message, \<open>mbim_send_command\<close>, which the main thread calls for every command, and
  \<open>mbim_check_err\<close>. As in \<open>QmiSlot\<close> the reader runs inside the rounds of the timed wait, since
  both hold \<open>mbim_command_mutex\<close>. A message is what can be read at \<open>pResponse\<close>: the bytes of the
  receive buffer. \<open>None\<close> is a read outside it or outside an answer, or an environment that is too
  short. The functions \<open>mbim_dump\<close>, which only log, are left out.
\<close>

section \<open>The reader\<close>

definition tell_mbim :: "ril_event \<Rightarrow> mbim \<Rightarrow> mbim" where
  "tell_mbim e s = s\<lparr>mbim_events := mbim_events s @ [e]\<rparr>"

definition basic_connect :: "byte list \<Rightarrow> bool option" where
  "basic_connect u = do { b \<leftarrow> str2uuid UUID_BASIC_CONNECT; Some (u = b) }"

text \<open>The event for an indication of the basic service, by its CID.\<close>

definition indication_event :: "byte list \<Rightarrow> u32 \<Rightarrow> mbim \<Rightarrow> ril_event option option" where
  "indication_event m cid s =
     (if cid = 2 then do {
        st \<leftarrow> rd32 m 44;
        Some (if oldReadyState s \<noteq> st then Some RIL_UNSOL_RESPONSE_VOICE_NETWORK_STATE_CHANGED else None) }
      else if cid = 9 then do {
        st \<leftarrow> rd32 m 48;
        Some (if oldRegisterState s \<noteq> st then Some RIL_UNSOL_RESPONSE_VOICE_NETWORK_STATE_CHANGED else None) }
      else if cid = 10 then do {
        st \<leftarrow> rd32 m 48;
        Some (if oldPacketServiceState s \<noteq> st then Some RIL_UNSOL_RESPONSE_VOICE_NETWORK_STATE_CHANGED else None) }
      else if cid = 12 then do {
        session \<leftarrow> rd32 m 44;
        if session = of_int (mbim_sessionID s) then do {
          st \<leftarrow> rd32 m 48;
          Some (if oldActivationState s \<noteq> st then Some RIL_UNSOL_DATA_CALL_LIST_CHANGED else None) }
        else Some None }
      else Some None)"

definition mbim_indication :: "byte list \<Rightarrow> mbim \<Rightarrow> mbim option" where
  "mbim_indication m s = do {
     u \<leftarrow> rdn m 20 16;
     basic \<leftarrow> basic_connect u;
     if \<not> basic then Some s
     else do {
       cid \<leftarrow> rd32 m 36;
       ev \<leftarrow> indication_event m cid s;
       Some (case ev of None \<Rightarrow> s | Some e \<Rightarrow> tell_mbim e s) } }"

definition mb_answers :: "byte list option \<Rightarrow> byte list \<Rightarrow> bool option" where
  "mb_answers req m = (case req of None \<Rightarrow> Some False
     | Some q \<Rightarrow> do { t \<leftarrow> rd32 q 8; u \<leftarrow> rd32 m 8; Some (t = u) })"

text \<open>The copy is as long as the message says. A further answer replaces it.\<close>

definition mbim_recv_command :: "byte list option \<Rightarrow> mbim \<Rightarrow> mbim option" where
  "mbim_recv_command pResponse s = (case pResponse of None \<Rightarrow> Some s
     | Some m \<Rightarrow> do {
         mine \<leftarrow> mb_answers (mbim_pRequest s) m;
         if mine then do {
           len \<leftarrow> rd32 m 4;
           c \<leftarrow> rdn m 0 (unat len);
           Some (s\<lparr>mbim_pResponse := Some c\<rparr>) }
         else do {
           ty \<leftarrow> rd32 m 0;
           if ty = 0x80000007 then mbim_indication m s else Some s } })"

text \<open>The end of the reader thread, \<open>__quit\<close>.\<close>

definition mbim_reader_quit :: "mbim \<Rightarrow> mbim option" where
  "mbim_reader_quit s = do {
     s \<leftarrow> mbim_recv_command None (s\<lparr>mbim_fd := - 1\<rparr>);
     Some ((tell_mbim RIL_INDICATE_DEVICE_DISCONNECTED s)\<lparr>reader_alive := False\<rparr>) }"

definition mbim_arrive :: "mb_arrival \<Rightarrow> mbim \<Rightarrow> mbim option" where
  "mbim_arrive a s = (if reader_alive s
     then (case a of MbMessage m \<Rightarrow> mbim_recv_command (Some m) s | MbGone \<Rightarrow> mbim_reader_quit s)
     else Some s)"

fun mbim_arrivals :: "mb_arrival list \<Rightarrow> mbim \<Rightarrow> mbim option" where
  "mbim_arrivals [] s = Some s"
| "mbim_arrivals (a # as) s = do { s \<leftarrow> mbim_arrive a s; mbim_arrivals as s }"

section \<open>Sending\<close>

fun mbim_wait_rounds ::
  "u32 \<Rightarrow> u32 \<Rightarrow> u32 \<Rightarrow> int \<Rightarrow> (mb_arrival list \<times> int) list \<Rightarrow> mbim \<Rightarrow> (int \<times> mbim) option" where
  "mbim_wait_rounds msecs t i ret [] s = (if i < msecs then None else Some (ret, s))"
| "mbim_wait_rounds msecs t i ret ((as, r) # rs) s =
     (if i < msecs then do {
        s \<leftarrow> mbim_arrivals as s;
        if r \<noteq> ETIMEDOUT then Some (r, s) else mbim_wait_rounds msecs t (i + t) r rs s }
      else Some (ret, s))"

text \<open>Every caller gives a time; without one the wait would have no end.\<close>

definition mbim_wait :: "u32 \<Rightarrow> (mb_arrival list \<times> int) list \<Rightarrow> mbim \<Rightarrow> (int \<times> mbim) option" where
  "mbim_wait msecs rounds s = (if msecs = 0 then None
     else let t = msecs div 4 in mbim_wait_rounds msecs (if t = 0 then 1 else t) 0 0 rounds s)"

text \<open>
  The identifier starts again when it would need more than three bytes. The comparison is with
  the identifier as stored in the request.
\<close>

definition renew_tid :: "byte list \<Rightarrow> mbim \<Rightarrow> (byte list \<times> mbim) option" where
  "renew_tid req s = do {
     tid \<leftarrow> rd32 req 8;
     Some (if tid = 0xFFFFFF + 1 then (overwrite 8 (le32 1) req, s\<lparr>mbTransactionId := 2\<rparr>) else (req, s)) }"

definition mbim_exchange :: "byte list \<Rightarrow> u32 \<Rightarrow> mbim_env \<Rightarrow> mbim \<Rightarrow> (int \<times> byte list option \<times> mbim) option" where
  "mbim_exchange req msecs en s = do {
     (req, s) \<leftarrow> renew_tid req s;
     len \<leftarrow> rd32 req 4;
     data \<leftarrow> rdn req 0 (unat len);
     let ret = (case mb_written en of None \<Rightarrow> int (unat len) | Some r \<Rightarrow> r);
     let s = s\<lparr>mbim_pRequest := Some req, mbim_pResponse := None, mbim_sent := mbim_sent s @ [data]\<rparr>;
     (ret, done, s) \<leftarrow> (if ret > 0 \<and> ret = int (unat len) then do {
         (ret, s) \<leftarrow> mbim_wait msecs (mb_rounds en) s;
         Some (ret, if ret = 0 then mbim_pResponse s else None, s) }
       else Some (ret, None, s));
     Some (ret, done, s\<lparr>mbim_pRequest := None, mbim_pResponse := None\<rparr>) }"

text \<open>The result, \<open>*ppCmdDone\<close> and the state; \<open>malloc\<close> succeeds, so there is a request.\<close>

definition mbim_send_command :: "byte list \<Rightarrow> u32 \<Rightarrow> mbim \<Rightarrow> (int \<times> byte list option \<times> mbim) option" where
  "mbim_send_command req msecs s = (case mbim_envs s of [] \<Rightarrow> None
     | en # rest \<Rightarrow> do {
         s \<leftarrow> mbim_arrivals (mb_before en) (s\<lparr>mbim_envs := rest\<rparr>);
         if mbim_fd s \<le> 0 then Some (- ENODEV, None, s)
         else if \<not> reader_alive s then Some (- EINVAL, None, s)
         else mbim_exchange req msecs en s })"

section \<open>Errors\<close>

text \<open>\<open>mbim_open_state\<close>, which is always 0, is left out.\<close>

definition mbim_status_code :: "byte list \<Rightarrow> int option" where
  "mbim_status_code r = do {
     ty \<leftarrow> rd32 r 0;
     if ty = 0x80000001 \<or> ty = 0x80000002 \<or> ty = 0x80000004 then map_option sint (rd32 r 12)
     else if ty = 0x80000003 then map_option sint (rd32 r 40)
     else Some 0 }"

text \<open>The value that \<open>mbim_check_err\<close> returns from the function, if it does.\<close>

definition mbim_check_err :: "int \<Rightarrow> byte list option \<Rightarrow> int option option" where
  "mbim_check_err err pCmdDone = do {
     status \<leftarrow> (case pCmdDone of None \<Rightarrow> Some 0 | Some r \<Rightarrow> mbim_status_code r);
     Some (if err \<noteq> 0 then Some err else if status \<noteq> 0 then Some status
       else if pCmdDone = None then Some 8888 else None) }"

text \<open>
  The frame of every command: send, check. \<open>Inl\<close> is the error the function returns with, \<open>Inr\<close>
  the answer it goes on with, where \<open>err\<close> is 0.
\<close>

definition mbim_transact :: "u32 \<Rightarrow> byte list \<times> mbim \<Rightarrow> ((int + byte list) \<times> mbim) option" where
  "mbim_transact msecs c = (case c of (req, s) \<Rightarrow> do {
     (err, r, s) \<leftarrow> mbim_send_command req msecs s;
     e \<leftarrow> mbim_check_err err r;
     Some (case e of Some e \<Rightarrow> (Inl e, s) | None \<Rightarrow> (case r of Some r \<Rightarrow> (Inr r, s) | None \<Rightarrow> (Inl 8888, s))) })"

end
