(* ===== verification/MbimRequests.thy ===== *)
theory MbimRequests
  imports MbimSlot
begin

text \<open>
  The commands of the MBIM client, \<open>mbim-cm.c\<close> from \<open>mbim_open_device\<close> to \<open>mbim_update_state\<close>.
  An answer to a command has its information buffer, of the length at position 44, from position
  48 on; offsets in it count from its start.
\<close>

section \<open>States\<close>

text \<open>The value of \<open>mbim_update_state\<close>, the number of changes, is used by no caller.\<close>

definition mbim_update_state :: "mbim \<Rightarrow> mbim" where
  "mbim_update_state s = s\<lparr>oldReadyState := ReadyState s, oldRegisterState := RegisterState s,
     oldPacketServiceState := PacketServiceState s, oldActivationState := ActivationState s\<rparr>"

text \<open>What a command does with a good answer that carries information, and its result 0.\<close>

definition with_info :: "((int + byte list) \<times> mbim) \<Rightarrow> (byte list \<Rightarrow> mbim \<Rightarrow> mbim option) \<Rightarrow> (int \<times> mbim) option" where
  "with_info a f = (case a of (Inl e, s) \<Rightarrow> Some (e, s)
     | (Inr r, s) \<Rightarrow> do {
         len \<leftarrow> rd32 r 44;
         s \<leftarrow> (if len \<noteq> 0 then f r s else Some s);
         Some (0, s) })"

section \<open>The device\<close>

definition open_status :: "(int + byte list) \<times> mbim \<Rightarrow> (int \<times> mbim) option" where
  "open_status a = (case a of (Inl e, s) \<Rightarrow> Some (e, s)
     | (Inr r, s) \<Rightarrow> do { st \<leftarrow> rd32 r 12; Some (sint st, s) })"

definition mbim_open_device :: "u32 \<Rightarrow> mbim \<Rightarrow> (int \<times> mbim) option" where
  "mbim_open_device MaxControlTransfer s = do {
     a \<leftarrow> mbim_transact 3000 (compose_open_command MaxControlTransfer s);
     open_status a }"

definition mbim_close_device :: "mbim \<Rightarrow> (int \<times> mbim) option" where
  "mbim_close_device s = do {
     a \<leftarrow> mbim_transact mbim_default_timeout (compose_close_command s);
     open_status a }"

definition mbim_ms_version_query :: "mbim \<Rightarrow> (int \<times> mbim) option" where
  "mbim_ms_version_query s = do {
     c \<leftarrow> compose_basic_connect_ext_command 15 0 (Some [0, 1, 0, 2]) 4 s;
     a \<leftarrow> mbim_transact mbim_default_timeout c;
     with_info a (\<lambda>r s. do { v \<leftarrow> rd8 r 51; Some (s\<lparr>mbim_ms_version := v\<rparr>) }) }"

text \<open>Whether one of the CIDs is \<open>MBIM_CID_MS_VERSION\<close>.\<close>

fun scan_cids :: "byte list \<Rightarrow> nat list \<Rightarrow> bool \<Rightarrow> bool option" where
  "scan_cids r [] v2 = Some v2"
| "scan_cids r (pos # ps) v2 = do { cid \<leftarrow> rd32 r pos; scan_cids r ps (v2 \<or> cid = 15) }"

text \<open>One service; the flags are \<open>mbim_v2_support\<close> and \<open>qmi_over_mbim_support\<close>.\<close>

definition scan_service :: "byte list \<Rightarrow> nat \<Rightarrow> bool \<times> bool \<Rightarrow> (bool \<times> bool) option" where
  "scan_service r pos fl = do {
     u \<leftarrow> rdn r pos 16;
     if strcaseeq UUID_BASIC_CONNECT_EXT (uuid2str u) then do {
       n \<leftarrow> rd32 r (pos + 24);
       v2 \<leftarrow> scan_cids r (map (\<lambda>i. pos + 28 + 4 * i) [0..<unat n]) (fst fl);
       Some (v2, snd fl) }
     else Some (if strcaseeq uuid_ext_qmux (uuid2str u) then (fst fl, True) else fl) }"

fun scan_services :: "byte list \<Rightarrow> nat list \<Rightarrow> bool \<times> bool \<Rightarrow> (bool \<times> bool) option" where
  "scan_services r [] fl = Some fl"
| "scan_services r (i # is) fl = do {
     offset \<leftarrow> rd32 r (56 + 8 * i);
     fl \<leftarrow> scan_service r (48 + unat offset) fl;
     scan_services r is fl }"

definition read_services :: "byte list \<Rightarrow> mbim \<Rightarrow> (bool \<times> mbim) option" where
  "read_services r s = do {
     len \<leftarrow> rd32 r 44;
     if len = 0 then Some (False, s)
     else do {
       n \<leftarrow> rd32 r 48;
       (v2, qmux) \<leftarrow> scan_services r [0..<unat n] (False, qmi_over_mbim_support s);
       Some (v2, s\<lparr>qmi_over_mbim_support := qmux\<rparr>) } }"

definition mbim_device_services_query :: "mbim \<Rightarrow> (int \<times> mbim) option" where
  "mbim_device_services_query s = do {
     c \<leftarrow> compose_basic_connect_command 16 0 None 0 s;
     a \<leftarrow> mbim_transact mbim_default_timeout c;
     case a of (Inl e, s) \<Rightarrow> Some (e, s)
     | (Inr r, s) \<Rightarrow> do {
         (v2, s) \<leftarrow> read_services r s;
         s \<leftarrow> (if v2 then map_option snd (mbim_ms_version_query s) else Some s);
         Some (0, s) } }"

text \<open>A text that the answer refers to, when it has one, through a buffer of 32 characters.\<close>

definition device_text :: "byte list \<Rightarrow> nat \<Rightarrow> string option option" where
  "device_text r pos = do {
     offset \<leftarrow> rd32 r pos;
     if offset = 0 then Some None
     else do {
       n \<leftarrow> rd32 r (pos + 4);
       if n = 0 then Some None
       else map_option Some (wchar2char r (48 + unat offset) (unat n) 32) } }"

definition read_caps :: "byte list \<Rightarrow> PROFILE_T \<Rightarrow> PROFILE_T option" where
  "read_caps r p = do {
     _ \<leftarrow> device_text r 88;
     fw \<leftarrow> device_text r 96;
     _ \<leftarrow> device_text r 104;
     Some (case fw of None \<Rightarrow> p | Some t \<Rightarrow> p\<lparr>BaseBandVersion := t\<rparr>) }"

definition mbim_device_caps_query :: "PROFILE_T \<Rightarrow> mbim \<Rightarrow> (int \<times> PROFILE_T \<times> mbim) option" where
  "mbim_device_caps_query p s = do {
     c \<leftarrow> compose_basic_connect_command 1 0 None 0 s;
     a \<leftarrow> mbim_transact mbim_default_timeout c;
     case a of (Inl e, s) \<Rightarrow> Some (e, p, s)
     | (Inr r, s) \<Rightarrow> do {
         len \<leftarrow> rd32 r 44;
         p \<leftarrow> (if len \<noteq> 0 then read_caps r p else Some p);
         Some (0, p, s) } }"

section \<open>Radio, SIM and network\<close>

definition mbim_set_radio_state :: "u32 \<Rightarrow> mbim \<Rightarrow> (int \<times> mbim) option" where
  "mbim_set_radio_state st s = do {
     c \<leftarrow> compose_basic_connect_command 3 1 (Some (le32 st)) 4 s;
     a \<leftarrow> mbim_transact mbim_default_timeout c;
     with_info a (\<lambda>r s. do { _ \<leftarrow> rd32 r 48; _ \<leftarrow> rd32 r 52; Some s }) }"

text \<open>The two identities are read for the log.\<close>

definition read_subscriber :: "byte list \<Rightarrow> mbim \<Rightarrow> mbim option" where
  "read_subscriber r s = do {
     o1 \<leftarrow> rd32 r 52; n1 \<leftarrow> rd32 r 56;
     _ \<leftarrow> wchar2char r (48 + unat o1) (unat n1) 32;
     o2 \<leftarrow> rd32 r 60; n2 \<leftarrow> rd32 r 64;
     _ \<leftarrow> wchar2char r (48 + unat o2) (unat n2) 32;
     st \<leftarrow> rd32 r 48;
     Some (mbim_update_state (s\<lparr>ReadyState := st\<rparr>)) }"

definition mbim_subscriber_status_query :: "mbim \<Rightarrow> (int \<times> mbim) option" where
  "mbim_subscriber_status_query s = do {
     c \<leftarrow> compose_basic_connect_command 2 0 None 0 s;
     a \<leftarrow> mbim_transact mbim_default_timeout c;
     with_info a read_subscriber }"

definition read_register :: "byte list \<Rightarrow> mbim \<Rightarrow> mbim option" where
  "read_register r s = do { st \<leftarrow> rd32 r 52; Some (mbim_update_state (s\<lparr>RegisterState := st\<rparr>)) }"

definition mbim_register_state_query :: "mbim \<Rightarrow> (int \<times> mbim) option" where
  "mbim_register_state_query s = do {
     c \<leftarrow> compose_basic_connect_command 9 0 None 0 s;
     a \<leftarrow> mbim_transact mbim_default_timeout c;
     with_info a read_register }"

definition read_packet_service :: "byte list \<Rightarrow> mbim \<Rightarrow> mbim option" where
  "read_packet_service r s = do { st \<leftarrow> rd32 r 52; Some (mbim_update_state (s\<lparr>PacketServiceState := st\<rparr>)) }"

text \<open>The second form of the answer has the data class, for the log.\<close>

definition mbim_packet_service_query :: "mbim \<Rightarrow> (int \<times> mbim) option" where
  "mbim_packet_service_query s = do {
     c \<leftarrow> compose_basic_connect_command 10 0 None 0 s;
     a \<leftarrow> mbim_transact mbim_default_timeout c;
     with_info a (\<lambda>r s. do {
       s \<leftarrow> read_packet_service r s;
       len \<leftarrow> rd32 r 44;
       if len = 32 then do { _ \<leftarrow> rd32 r 56; Some s } else Some s }) }"

definition mbim_packet_service_set :: "u32 \<Rightarrow> mbim \<Rightarrow> (int \<times> mbim) option" where
  "mbim_packet_service_set action s = do {
     c \<leftarrow> compose_basic_connect_command 10 1 (Some (le32 action)) 4 s;
     a \<leftarrow> mbim_transact mbim_default_timeout c;
     with_info a read_packet_service }"

section \<open>The call\<close>

definition read_connect :: "byte list \<Rightarrow> mbim \<Rightarrow> mbim option" where
  "read_connect r s = do { st \<leftarrow> rd32 r 52; Some (mbim_update_state (s\<lparr>ActivationState := st\<rparr>)) }"

text \<open>Only the session of the structure is set; the rest is what the stack holds.\<close>

definition stack_struct :: "int \<Rightarrow> mbim \<Rightarrow> byte list" where
  "stack_struct sessionID s = le32 (of_int sessionID) @ map (uninit s) [4..<60]"

definition mbim_query_connect :: "int \<Rightarrow> mbim \<Rightarrow> (int \<times> mbim) option" where
  "mbim_query_connect sessionID s = do {
     c \<leftarrow> compose_basic_connect_command 12 0 (Some (stack_struct sessionID s)) 60 s;
     a \<leftarrow> mbim_transact mbim_default_timeout c;
     with_info a read_connect }"

definition align_32 :: "nat \<Rightarrow> nat" where
  "align_32 len = (if len mod 4 = 0 then len else len + (4 - len mod 4))"

definition c_strlen :: "string option \<Rightarrow> nat" where
  "c_strlen s = (case s of None \<Rightarrow> 0 | Some t \<Rightarrow> length t)"

definition connect_buflen :: "mbim \<Rightarrow> nat" where
  "connect_buflen s = align_32 (align_32 (align_32 (2 * c_strlen (mbim_apn s))
     + 2 * c_strlen (mbim_user s)) + 2 * c_strlen (mbim_pd s))"

text \<open>
  One text: its offset and size fields, the offset after it and the buffer. The new offset is
  the number of bytes stored, aligned (the one after the last text is not used).
\<close>

definition place_text :: "string option \<Rightarrow> nat \<Rightarrow> byte list \<Rightarrow> byte list \<times> nat \<times> byte list" where
  "place_text t offset data = (case t of
       Some (c # cs) \<Rightarrow>
         (let w = char2wchar (c # cs) (length data - offset)
          in (le32 (of_nat (offset + 60)) @ le32 (of_nat (2 * length (c # cs))), align_32 (length w),
              overwrite offset w data))
     | _ \<Rightarrow> (le32 0 @ le32 0, offset, data))"

text \<open>The fields of the three texts, and the data buffer.\<close>

definition mbim_populate_connect_data :: "mbim \<Rightarrow> byte list \<times> byte list" where
  "mbim_populate_connect_data s =
     (case place_text (mbim_apn s) 0 (replicate (connect_buflen s) 0) of (f1, offset, data) \<Rightarrow>
      case place_text (mbim_user s) offset data of (f2, offset, data) \<Rightarrow>
      case place_text (mbim_pd s) offset data of (f3, _, data) \<Rightarrow> (f1 @ f2 @ f3, data))"

definition connect_info :: "bool \<Rightarrow> int \<Rightarrow> mbim \<Rightarrow> byte list option" where
  "connect_info onoff sessionID s = do {
     u \<leftarrow> str2uuid UUID_MBIMContextTypeInternet;
     case mbim_populate_connect_data s of (flds, data) \<Rightarrow>
       Some (le32 (of_int sessionID) @ le32 (if onoff then 1 else 0) @ flds @ le32 0
         @ le32 (of_int (mbim_auth s)) @ le32 (of_int (mbim_iptype s)) @ u @ data) }"

definition mbim_set_connect :: "bool \<Rightarrow> int \<Rightarrow> mbim \<Rightarrow> (int \<times> mbim) option" where
  "mbim_set_connect onoff sessionID s = do {
     info \<leftarrow> connect_info onoff sessionID s;
     c \<leftarrow> compose_basic_connect_command 12 1 (Some info) (60 + connect_buflen s) s;
     a \<leftarrow> mbim_transact (mbim_default_timeout * 10) c;
     with_info a read_connect }"

section \<open>The addresses\<close>

definition at_offset :: "byte list \<Rightarrow> nat \<Rightarrow> nat option" where
  "at_offset r field = do { off \<leftarrow> rd32 r field; Some (48 + unat off) }"

text \<open>The address at an offset given in a field, when the flag says that there is one.\<close>

definition v4_at :: "bool \<Rightarrow> byte list \<Rightarrow> nat \<Rightarrow> u32 option option" where
  "v4_at present r field = (if present
     then do { pos \<leftarrow> at_offset r field; a \<leftarrow> rd32 r pos; Some (Some (mbim2qmi_ipv4addr a)) } else Some None)"

text \<open>The mask of a prefix; the shifts are undefined unless the prefix is between 1 and 32.\<close>

definition prefix_mask :: "byte \<Rightarrow> u32 option" where
  "prefix_mask n = (if n = 0 \<or> 32 < unat n then None
     else Some (push_bit (32 - unat n) (drop_bit (32 - unat n) 0xFFFFFFFF)))"

definition second_dns :: "byte list \<Rightarrow> nat \<Rightarrow> nat \<Rightarrow> (nat \<Rightarrow> 'a option) \<Rightarrow> 'a option option" where
  "second_dns r count_field pos rd = do {
     n \<leftarrow> rd32 r count_field;
     if n = 2 then do { a \<leftarrow> rd pos; Some (Some a) } else Some None }"

definition v4_dns :: "bool \<Rightarrow> byte list \<Rightarrow> (u32 \<times> u32 option) option option" where
  "v4_dns present r = (if \<not> present then Some None
     else do {
       pos \<leftarrow> at_offset r 88;
       d1 \<leftarrow> rd32 r pos;
       d2 \<leftarrow> second_dns r 84 (pos + 4) (\<lambda>i. map_option mbim2qmi_ipv4addr (rd32 r i));
       Some (Some (mbim2qmi_ipv4addr d1, d2)) })"

text \<open>\<open>None\<close> in the pair keeps the old value, as a pointer that stayed NULL does.\<close>

definition set_v4 :: "u32 \<Rightarrow> u32 option \<Rightarrow> u32 \<Rightarrow> (u32 \<times> u32 option) option \<Rightarrow> u32 \<Rightarrow> IPV4_T \<Rightarrow> IPV4_T" where
  "set_v4 addr gw msk dns mtu v = v\<lparr>Address := addr, SubnetMask := msk, Mtu := mtu,
     Gateway := (case gw of None \<Rightarrow> Gateway v | Some g \<Rightarrow> g),
     DnsPrimary := (case dns of None \<Rightarrow> DnsPrimary v | Some (d, _) \<Rightarrow> d),
     DnsSecondary := (case dns of Some (_, Some d) \<Rightarrow> d | _ \<Rightarrow> DnsSecondary v)\<rparr>"

text \<open>The IPv4 part; \<open>mtu\<close> is the local, which the IPv6 part goes on with.\<close>

definition v4_settings :: "byte list \<Rightarrow> u32 \<Rightarrow> u32 \<Rightarrow> IPV4_T \<Rightarrow> (u32 \<times> IPV4_T) option" where
  "v4_settings r avail mtu v = do {
     pos \<leftarrow> at_offset r 64;
     plen \<leftarrow> rd32 r pos;
     gw \<leftarrow> v4_at (avail AND 2 \<noteq> 0) r 76;
     dns \<leftarrow> v4_dns (avail AND 4 \<noteq> 0) r;
     mtu \<leftarrow> (if avail AND 8 \<noteq> 0 then rd32 r 100 else Some mtu);
     a \<leftarrow> rd32 r (pos + 4);
     msk \<leftarrow> prefix_mask (ucast plen);
     Some (mtu, set_v4 (mbim2qmi_ipv4addr a) gw (mbim2qmi_ipv4addr msk) dns (mbim2qmi_ipv4addr mtu) v) }"

definition ip_config_v4 :: "byte list \<Rightarrow> u32 \<Rightarrow> PROFILE_T \<Rightarrow> (u32 \<times> PROFILE_T) option" where
  "ip_config_v4 r mtu p = do {
     avail \<leftarrow> rd32 r 52;
     if avail AND 1 = 0 then Some (mtu, p)
     else do { (mtu, v) \<leftarrow> v4_settings r avail mtu (ipv4 p); Some (mtu, p\<lparr>ipv4 := v\<rparr>) } }"

definition v6_at :: "bool \<Rightarrow> byte list \<Rightarrow> nat \<Rightarrow> byte list option option" where
  "v6_at present r field = (if present
     then do { pos \<leftarrow> at_offset r field; a \<leftarrow> rdn r pos 16; Some (Some a) } else Some None)"

definition v6_dns :: "bool \<Rightarrow> byte list \<Rightarrow> (byte list \<times> byte list option) option option" where
  "v6_dns present r = (if \<not> present then Some None
     else do {
       pos \<leftarrow> at_offset r 96;
       d1 \<leftarrow> rdn r pos 16;
       d2 \<leftarrow> second_dns r 92 (pos + 16) (\<lambda>i. rdn r i 16);
       Some (Some (d1, d2)) })"

definition set_v6 :: "byte list \<Rightarrow> byte list option \<Rightarrow> byte \<Rightarrow> (byte list \<times> byte list option) option \<Rightarrow> u32 \<Rightarrow> IPV6_T \<Rightarrow> IPV6_T" where
  "set_v6 addr gw plen dns mtu v = v\<lparr>Address6 := addr,
     Gateway6 := (case gw of None \<Rightarrow> Gateway6 v | Some g \<Rightarrow> g),
     DnsPrimary6 := (case dns of None \<Rightarrow> DnsPrimary6 v | Some (d, _) \<Rightarrow> d),
     DnsSecondary6 := (case dns of Some (_, Some d) \<Rightarrow> d | _ \<Rightarrow> DnsSecondary6 v),
     PrefixLengthIPAddr := plen, PrefixLengthGateway := plen, Mtu6 := mtu\<rparr>"

definition v6_settings :: "byte list \<Rightarrow> u32 \<Rightarrow> u32 \<Rightarrow> IPV6_T \<Rightarrow> IPV6_T option" where
  "v6_settings r avail mtu v = do {
     pos \<leftarrow> at_offset r 72;
     plen \<leftarrow> rd32 r pos;
     gw \<leftarrow> v6_at (avail AND 2 \<noteq> 0) r 80;
     dns \<leftarrow> v6_dns (avail AND 4 \<noteq> 0) r;
     mtu \<leftarrow> (if avail AND 8 \<noteq> 0 then rd32 r 104 else Some mtu);
     a \<leftarrow> rdn r (pos + 4) 16;
     Some (set_v6 a gw (ucast plen) dns (mbim2qmi_ipv4addr mtu) v) }"

definition ip_config_v6 :: "byte list \<Rightarrow> u32 \<Rightarrow> PROFILE_T \<Rightarrow> PROFILE_T option" where
  "ip_config_v6 r mtu p = do {
     avail \<leftarrow> rd32 r 56;
     if avail AND 1 = 0 then Some p
     else do { v \<leftarrow> v6_settings r avail mtu (ipv6 p); Some (p\<lparr>ipv6 := v\<rparr>) } }"

definition read_ip_config :: "byte list \<Rightarrow> PROFILE_T \<Rightarrow> PROFILE_T option" where
  "read_ip_config r p = do { (mtu, p) \<leftarrow> ip_config_v4 r 1500 p; ip_config_v6 r mtu p }"

definition ip_config_answer :: "PROFILE_T \<Rightarrow> (int + byte list) \<times> mbim \<Rightarrow> (int \<times> PROFILE_T \<times> mbim) option" where
  "ip_config_answer p a = (case a of (Inl e, s) \<Rightarrow> Some (e, p, s)
     | (Inr r, s) \<Rightarrow> do {
         len \<leftarrow> rd32 r 44;
         p \<leftarrow> (if len \<noteq> 0 then read_ip_config r p else Some p);
         Some (0, p, s) })"

definition mbim_ip_config :: "PROFILE_T \<Rightarrow> int \<Rightarrow> mbim \<Rightarrow> (int \<times> PROFILE_T \<times> mbim) option" where
  "mbim_ip_config p sessionID s = do {
     c \<leftarrow> compose_basic_connect_command 15 0 (Some (stack_struct sessionID s)) 60 s;
     a \<leftarrow> mbim_transact mbim_default_timeout c;
     ip_config_answer p a }"

text \<open>The configuration is stored behind a header that announces no information.\<close>

definition mbim_proxy_configure :: "string \<Rightarrow> mbim \<Rightarrow> (int \<times> mbim) option" where
  "mbim_proxy_configure dev s = do {
     (req, s) \<leftarrow> compose_basic_connect_command 1 1 None (12 + length dev * 2) s;
     u \<leftarrow> str2uuid UUID_LIBMBIM_PROXY;
     let w = char2wchar dev (length dev * 2);
     let req = overwrite 48 (le32 12 @ le32 (of_nat (length w)) @ le32 15 @ w) (overwrite 20 u req);
     a \<leftarrow> mbim_transact mbim_default_timeout (req, s);
     Some (case a of (Inl e, s) \<Rightarrow> (e, s) | (Inr _, s) \<Rightarrow> (0, s)) }"

end
