(* ===== verification/MbimSlotProps.thy ===== *)
theory MbimSlotProps
  imports MbimRequests
begin

text \<open>
  What an exchange with an MBIM device guarantees: an answer belongs to the request that was sent,
  and the transaction identifiers that reach the device fit three bytes.
\<close>

section \<open>What arrivals leave alone\<close>

text \<open>The fields that only the main thread writes.\<close>

definition main_fields :: "mbim \<Rightarrow> mbim" where
  "main_fields s = s\<lparr>mbim_fd := 0, reader_alive := False, mbim_pResponse := None, mbim_events := []\<rparr>"

lemma main_fields_eqD:
  assumes "main_fields s' = main_fields s"
  shows "mbim_pRequest s' = mbim_pRequest s" "mbTransactionId s' = mbTransactionId s"
    "mbim_sent s' = mbim_sent s" "mbim_envs s' = mbim_envs s" "ActivationState s' = ActivationState s"
    "RegisterState s' = RegisterState s" "PacketServiceState s' = PacketServiceState s" "ReadyState s' = ReadyState s"
    "mbim_sessionID s' = mbim_sessionID s" "mbim_apn s' = mbim_apn s" "mbim_user s' = mbim_user s" "mbim_pd s' = mbim_pd s"
  using arg_cong [OF assms, of mbim_pRequest] arg_cong [OF assms, of mbTransactionId]
    arg_cong [OF assms, of mbim_sent] arg_cong [OF assms, of mbim_envs] arg_cong [OF assms, of ActivationState]
    arg_cong [OF assms, of RegisterState] arg_cong [OF assms, of PacketServiceState] arg_cong [OF assms, of ReadyState]
    arg_cong [OF assms, of mbim_sessionID] arg_cong [OF assms, of mbim_apn] arg_cong [OF assms, of mbim_user]
    arg_cong [OF assms, of mbim_pd]
  by (simp_all add: main_fields_def)

text \<open>An answer to \<open>req\<close> among the arrivals: the copy of a message with its identifier.\<close>

definition mbim_copy :: "byte list \<Rightarrow> byte list option" where
  "mbim_copy m = do { len \<leftarrow> rd32 m 4; rdn m 0 (unat len) }"

definition answer_among :: "byte list \<Rightarrow> mb_arrival list \<Rightarrow> byte list \<Rightarrow> bool" where
  "answer_among req as r \<longleftrightarrow>
     (\<exists>m. MbMessage m \<in> set as \<and> mb_answers (Some req) m = Some True \<and> mbim_copy m = Some r)"

definition slot_from :: "byte list \<Rightarrow> mb_arrival list \<Rightarrow> mbim \<Rightarrow> bool" where
  "slot_from req as s \<longleftrightarrow> mbim_pRequest s = Some req \<and>
     (\<forall>r. mbim_pResponse s = Some r \<longrightarrow> answer_among req as r)"

lemma slot_from_mono: "slot_from req as s \<Longrightarrow> set as \<subseteq> set bs \<Longrightarrow> slot_from req bs s"
  unfolding slot_from_def answer_among_def by blast

lemma indication_fields:
  assumes "mbim_indication m s = Some s'"
  shows "main_fields s' = main_fields s" "mbim_pResponse s' = mbim_pResponse s"
    "mbim_fd s' = mbim_fd s" "reader_alive s' = reader_alive s"
proof -
  have "s' = s \<or> (\<exists>e. s' = tell_mbim e s)"
    using assms by (auto simp: mbim_indication_def bind_eq_Some_conv split: if_splits option.splits)
  then show "main_fields s' = main_fields s" "mbim_pResponse s' = mbim_pResponse s"
    "mbim_fd s' = mbim_fd s" "reader_alive s' = reader_alive s"
    by (auto simp: main_fields_def tell_mbim_def)
qed

lemma recv_command_cases:
  assumes "mbim_recv_command (Some m) s = Some s'"
  obtains (answer) c where "mb_answers (mbim_pRequest s) m = Some True" "mbim_copy m = Some c"
      "s' = s\<lparr>mbim_pResponse := Some c\<rparr>"
    | (other) "s' = s"
    | (indicated) "mbim_indication m s = Some s'"
proof -
  obtain mine where mine: "mb_answers (mbim_pRequest s) m = Some mine"
    using assms by (auto simp: mbim_recv_command_def bind_eq_Some_conv)
  show ?thesis
  proof (cases mine)
    case True
    then show ?thesis using assms mine answer
      by (auto simp: mbim_recv_command_def mbim_copy_def bind_eq_Some_conv)
  next
    case False
    then show ?thesis using assms mine other indicated
      by (auto simp: mbim_recv_command_def bind_eq_Some_conv split: if_splits)
  qed
qed

lemma arrive_fields:
  assumes "mbim_arrive a s = Some s'"
  shows "main_fields s' = main_fields s"
proof (cases "reader_alive s")
  case True
  show ?thesis
  proof (cases a)
    case (MbMessage m)
    then have "mbim_recv_command (Some m) s = Some s'" using assms True by (simp add: mbim_arrive_def)
    then show ?thesis
      by (cases rule: recv_command_cases) (simp_all add: main_fields_def [of "_\<lparr>mbim_pResponse := _\<rparr>"] indication_fields,
        simp_all add: main_fields_def)
  next
    case MbGone
    then show ?thesis using assms True
      by (auto simp: mbim_arrive_def mbim_reader_quit_def mbim_recv_command_def main_fields_def tell_mbim_def)
  qed
qed (use assms in \<open>simp add: mbim_arrive_def\<close>)

lemma arrive_slot:
  assumes "mbim_arrive a s = Some s'" "slot_from req as s"
  shows "slot_from req (as @ [a]) s'"
proof -
  have q: "mbim_pRequest s' = Some req"
    using main_fields_eqD(1) [OF arrive_fields [OF assms(1)]] assms(2) by (simp add: slot_from_def)
  have same: "mbim_pResponse s' = mbim_pResponse s \<Longrightarrow> ?thesis"
    using assms(2) q by (auto simp: slot_from_def answer_among_def)
  show ?thesis
  proof (cases "reader_alive s")
    case True
    show ?thesis
    proof (cases a)
      case (MbMessage m)
      then have "mbim_recv_command (Some m) s = Some s'" using assms True by (simp add: mbim_arrive_def)
      then show ?thesis
      proof (cases rule: recv_command_cases)
        case (answer c)
        then show ?thesis using assms(2) MbMessage q by (auto simp: slot_from_def answer_among_def)
      qed (use same indication_fields(2) in simp_all)
    next
      case MbGone
      then have "mbim_pResponse s' = mbim_pResponse s" using assms(1) True
        by (auto simp: mbim_arrive_def mbim_reader_quit_def mbim_recv_command_def tell_mbim_def)
      then show ?thesis by (rule same)
    qed
  qed (use same assms(1) in \<open>simp add: mbim_arrive_def\<close>)
qed

lemma arrivals_fields: "mbim_arrivals as s = Some s' \<Longrightarrow> main_fields s' = main_fields s"
  by (induction as arbitrary: s) (auto simp: bind_eq_Some_conv dest: arrive_fields)

lemma arrivals_slot: "mbim_arrivals as s = Some s' \<Longrightarrow> slot_from req bs s \<Longrightarrow> slot_from req (bs @ as) s'"
proof (induction as arbitrary: s bs)
  case (Cons a as)
  then obtain s1 where s1: "mbim_arrive a s = Some s1" "mbim_arrivals as s1 = Some s'"
    by (auto simp: bind_eq_Some_conv)
  from Cons.IH [OF s1(2) arrive_slot [OF s1(1) Cons.prems(2)]] show ?case by simp
qed simp

lemma rounds_slot:
  "mbim_wait_rounds msecs t i ret rounds s = Some (w, s') \<Longrightarrow> slot_from req bs s \<Longrightarrow>
   slot_from req (bs @ concat (map fst rounds)) s' \<and> main_fields s' = main_fields s"
proof (induction msecs t i ret rounds s arbitrary: bs rule: mbim_wait_rounds.induct)
  case (2 msecs t i ret as r rs s)
  show ?case
  proof (cases "i < msecs")
    case True
    with "2.prems"(1) obtain s1 where s1: "mbim_arrivals as s = Some s1" by (auto simp: bind_eq_Some_conv)
    note ok = arrivals_slot [OF s1 "2.prems"(2)] and fields = arrivals_fields [OF s1]
    show ?thesis
    proof (cases "r = ETIMEDOUT")
      case False
      with True s1 "2.prems"(1) have "s' = s1" by simp
      with ok fields show ?thesis by (auto elim: slot_from_mono)
    next
      case timeout: True
      with True s1 "2.prems"(1) have "mbim_wait_rounds msecs t (i + t) r rs s1 = Some (w, s')" by simp
      from "2.IH" [OF True s1 _ this ok] timeout fields show ?thesis by simp
    qed
  next
    case False
    with "2.prems" show ?thesis by (auto elim: slot_from_mono)
  qed
qed (auto split: if_splits)

lemma wait_slot:
  assumes "mbim_wait msecs rounds s = Some (w, s')" "slot_from req [] s"
  shows "slot_from req (concat (map fst rounds)) s' \<and> main_fields s' = main_fields s"
proof (cases "msecs = 0")
  case False
  then obtain t where "mbim_wait_rounds msecs t 0 0 rounds s = Some (w, s')"
    using assms(1) by (auto simp: mbim_wait_def Let_def)
  from rounds_slot [OF this assms(2)] show ?thesis by simp
qed (use assms in \<open>simp add: mbim_wait_def\<close>)

section \<open>One exchange\<close>

lemma renew_tid_fields:
  assumes "renew_tid req s = Some (req', s')"
  shows "main_fields s' = main_fields (s\<lparr>mbTransactionId := mbTransactionId s'\<rparr>)"
    "rd32 req 8 = Some 0x1000000 \<and> req' = overwrite 8 (le32 1) req \<and> mbTransactionId s' = 2 \<or>
     rd32 req 8 \<noteq> Some 0x1000000 \<and> req' = req \<and> mbTransactionId s' = mbTransactionId s"
proof -
  obtain t where t: "rd32 req 8 = Some t" using assms by (auto simp: renew_tid_def bind_eq_Some_conv)
  show "main_fields s' = main_fields (s\<lparr>mbTransactionId := mbTransactionId s'\<rparr>)"
    using assms t by (auto simp: renew_tid_def main_fields_def split: if_splits)
  show "rd32 req 8 = Some 0x1000000 \<and> req' = overwrite 8 (le32 1) req \<and> mbTransactionId s' = 2 \<or>
     rd32 req 8 \<noteq> Some 0x1000000 \<and> req' = req \<and> mbTransactionId s' = mbTransactionId s"
    using assms t by (auto simp: renew_tid_def split: if_splits)
qed

lemma exchange_parts:
  assumes "mbim_exchange req msecs en s = Some (ret, dn, s')"
  obtains req' s1 len data where "renew_tid req s = Some (req', s1)" "rd32 req' 4 = Some len"
    "rdn req' 0 (unat len) = Some data"
    "main_fields s' = main_fields (s1\<lparr>mbim_pRequest := None, mbim_sent := mbim_sent s1 @ [data]\<rparr>)"
    "\<And>r. dn = Some r \<Longrightarrow> ret = 0 \<and> answer_among req' (concat (map fst (mb_rounds en))) r"
proof -
  obtain req' s1 len data where req: "renew_tid req s = Some (req', s1)" "rd32 req' 4 = Some len"
      "rdn req' 0 (unat len) = Some data"
    using assms by (auto simp: mbim_exchange_def bind_eq_Some_conv)
  define s2 where "s2 = s1\<lparr>mbim_pRequest := Some req', mbim_pResponse := None, mbim_sent := mbim_sent s1 @ [data]\<rparr>"
  let ?w = "case mb_written en of None \<Rightarrow> int (unat len) | Some r \<Rightarrow> r"
  have slot: "slot_from req' [] s2" by (simp add: s2_def slot_from_def)
  show thesis
  proof (cases "?w > 0 \<and> ?w = int (unat len)")
    case True
    then obtain s3 where s3: "mbim_wait msecs (mb_rounds en) s2 = Some (ret, s3)"
        "dn = (if ret = 0 then mbim_pResponse s3 else None)"
        "s' = s3\<lparr>mbim_pRequest := None, mbim_pResponse := None\<rparr>"
      using assms req by (auto simp: mbim_exchange_def Let_def bind_eq_Some_conv s2_def)
    from wait_slot [OF s3(1) slot] have w: "slot_from req' (concat (map fst (mb_rounds en))) s3"
      "main_fields s3 = main_fields s2" by auto
    have "main_fields s' = (main_fields s3)\<lparr>mbim_pRequest := None\<rparr>" by (simp add: s3 main_fields_def)
    also have "\<dots> = main_fields (s1\<lparr>mbim_pRequest := None, mbim_sent := mbim_sent s1 @ [data]\<rparr>)"
      unfolding w(2) by (simp add: s2_def main_fields_def)
    finally show thesis
      using that [OF req] w(1) s3(2) by (auto simp: slot_from_def split: if_splits)
  next
    case False
    then have "dn = None" "s' = s2\<lparr>mbim_pRequest := None, mbim_pResponse := None\<rparr>"
      using assms req by (auto simp: mbim_exchange_def Let_def bind_eq_Some_conv s2_def)
    then show thesis using that [OF req] by (simp add: s2_def main_fields_def)
  qed
qed

text \<open>A command is refused, or it is an exchange.\<close>

lemma send_command_cases:
  assumes "mbim_send_command req msecs s = Some (ret, dn, s')"
  obtains (refused) en rest where "mbim_envs s = en # rest" "ret < 0" "dn = None"
      "main_fields s' = main_fields (s\<lparr>mbim_envs := rest\<rparr>)" "mbim_fd s' \<le> 0 \<or> \<not> reader_alive s'"
    | (exchanged) en rest s0 where "mbim_envs s = en # rest" "main_fields s0 = main_fields (s\<lparr>mbim_envs := rest\<rparr>)"
      "mbim_fd s0 > 0" "reader_alive s0" "mbim_exchange req msecs en s0 = Some (ret, dn, s')"
      "mbim_arrivals (mb_before en) (s\<lparr>mbim_envs := rest\<rparr>) = Some s0"
proof -
  obtain en rest s0 where s0: "mbim_envs s = en # rest" "mbim_arrivals (mb_before en) (s\<lparr>mbim_envs := rest\<rparr>) = Some s0"
    using assms by (auto simp: mbim_send_command_def bind_eq_Some_conv split: list.splits)
  note f = arrivals_fields [OF s0(2)]
  show thesis
  proof (cases "mbim_fd s0 \<le> 0 \<or> \<not> reader_alive s0")
    case True
    then have "s' = s0" "dn = None" "ret < 0"
      using assms s0 by (auto simp: mbim_send_command_def ENODEV_def EINVAL_def split: if_splits)
    with True f s0 show thesis using refused by blast
  next
    case False
    with assms s0 f show thesis using exchanged by (auto simp: mbim_send_command_def)
  qed
qed

text \<open>A modem that answers, one that is unplugged, and a client at its start.\<close>

definition mb_done :: "u32 \<Rightarrow> byte list \<Rightarrow> byte list" where
  "mb_done tid info = le32 0x80000003 @ le32 (of_nat (48 + length info)) @ le32 tid @ le32 1 @ le32 0
     @ replicate 16 0 @ le32 0 @ le32 0 @ le32 (of_nat (length info)) @ info"

definition mb_replies :: "byte list \<Rightarrow> mbim_env" where
  "mb_replies m = \<lparr>mb_before = [], mb_written = None, mb_rounds = [([MbMessage m], 0)]\<rparr>"

definition mb_unplugged :: mbim_env where
  "mb_unplugged = \<lparr>mb_before = [MbGone], mb_written = None, mb_rounds = []\<rparr>"

definition mbim_idle :: "mbim_env list \<Rightarrow> mbim" where
  "mbim_idle envs = \<lparr>mbim_fd = 5, reader_alive = True, mbTransactionId = 1, mbim_apn = None, mbim_user = None,
     mbim_pd = None, mbim_iptype = 0, mbim_auth = 0, mbim_sessionID = 0, mbim_pRequest = None,
     mbim_pResponse = None, qmi_over_mbim_support = False, qmi_over_mbim_sk = False, qmi_over_mbim_nas = 0,
     mbim_ms_version = 1, ReadyState = 0, RegisterState = 0, PacketServiceState = 0, ActivationState = 0,
     oldReadyState = 0, oldRegisterState = 0, oldPacketServiceState = 0, oldActivationState = 0,
     mbim_sent = [], mbim_events = [], mbim_envs = envs, socketpair_ok = True, uninit = (\<lambda>_. 0)\<rparr>"

text \<open>
  Property C12 (safety): an answer that a command returns belongs to it. It is a complete copy of a
  message that arrived while the command was waited for, and the message carries the transaction
  identifier of the request that was handed to the device last.
\<close>

theorem mbim_answer_belongs:
  assumes "mbim_send_command req msecs s = Some (ret, Some r, s')" "12 \<le> length req"
    "rd32 req 4 = Some (of_nat (length req))" "length req < 2 ^ 32"
  shows "ret = 0 \<and> (\<exists>en q m. mbim_envs s = en # mbim_envs s' \<and> mbim_sent s' = mbim_sent s @ [q] \<and>
     MbMessage m \<in> set (concat (map fst (mb_rounds en))) \<and> rd32 m 8 = rd32 q 8 \<and> mbim_copy m = Some r)"
  using assms(1)
proof (cases rule: send_command_cases)
  case (exchanged en rest s0)
  show ?thesis
  proof (rule exchange_parts [OF exchanged(5)])
    fix req' s1 len data
    assume e: "renew_tid req s0 = Some (req', s1)" "rd32 req' 4 = Some len" "rdn req' 0 (unat len) = Some data"
      "main_fields s' = main_fields (s1\<lparr>mbim_pRequest := None, mbim_sent := mbim_sent s1 @ [data]\<rparr>)"
      and r: "\<And>x. Some r = Some x \<Longrightarrow> ret = 0 \<and> answer_among req' (concat (map fst (mb_rounds en))) x"
    obtain m where m: "MbMessage m \<in> set (concat (map fst (mb_rounds en)))" "mb_answers (Some req') m = Some True"
        "mbim_copy m = Some r"
      using r [OF refl] unfolding answer_among_def by blast
    have same: "rd32 req' 4 = rd32 req 4" "length req' = length req"
      using renew_tid_fields(2) [OF e(1)] assms(2)
      by (auto simp: overwrite_def rd32_def rd8_def nth_append)
    then have "unat len = length req'" using e(2) assms(3,4) by (simp add: unat_of_nat)
    then have "data = req'" using e(3) by (simp add: rdn_def)
    moreover have "mbim_sent s' = mbim_sent s @ [data]" "mbim_envs s' = rest"
      using main_fields_eqD(3,4) [OF e(4)] main_fields_eqD(3,4) [OF renew_tid_fields(1) [OF e(1)]]
        main_fields_eqD(3,4) [OF exchanged(2)] by simp_all
    ultimately show ?thesis using m r [OF refl] exchanged(1)
      by (auto simp: mb_answers_def bind_eq_Some_conv)
  qed
qed simp

definition open_sent :: "byte list" where
  "open_sent = fst (compose_open_command 4096 (mbim_idle []))"

definition open_answered :: "byte list" where
  "open_answered = le32 0x80000001 @ le32 16 @ le32 1 @ le32 0"

lemma mbim_answer_belongs_witness:
  "\<exists>s' en q m. mbim_send_command open_sent 3000 (mbim_idle [mb_replies open_answered]) = Some (0, Some open_answered, s') \<and>
     mbim_envs (mbim_idle [mb_replies open_answered]) = en # mbim_envs s' \<and>
     mbim_sent s' = mbim_sent (mbim_idle [mb_replies open_answered]) @ [q] \<and>
     MbMessage m \<in> set (concat (map fst (mb_rounds en))) \<and> rd32 m 8 = rd32 q 8 \<and> mbim_copy m = Some open_answered"
proof -
  have "(case mbim_send_command open_sent 3000 (mbim_idle [mb_replies open_answered]) of
      Some (e, Some r, s') \<Rightarrow> e = 0 \<and> r = open_answered | _ \<Rightarrow> False)"
    by code_simp
  then obtain s' where s': "mbim_send_command open_sent 3000 (mbim_idle [mb_replies open_answered]) =
      Some (0, Some open_answered, s')"
    by (auto split: option.splits)
  have l: "length open_sent = 16" by code_simp
  have "rd32 open_sent 4 = Some 16" by code_simp
  then have "12 \<le> length open_sent" "rd32 open_sent 4 = Some (of_nat (length open_sent))" "length open_sent < 2 ^ 32"
    by (simp_all add: l)
  from mbim_answer_belongs [OF s' this] s' show ?thesis by blast
qed

end
