(* ===== verification/MbimOps.thy ===== *)
theory MbimOps
  imports MbimRequests ConnStart
begin

text \<open>
  The MBIM client as a device of the connection manager: its start and end, its table of request
  functions (each with the prefix \<open>mbim_\<close>), and the thread that reads the device.
\<close>

section \<open>Start and end\<close>

fun open_tries :: "nat \<Rightarrow> int \<Rightarrow> mbim \<Rightarrow> (int \<times> mbim) option" where
  "open_tries 0 retval s = Some (retval, s)"
| "open_tries (Suc n) retval s = do {
     (retval, s) \<leftarrow> mbim_open_device 4096 s;
     if retval \<noteq> ETIMEDOUT then Some (retval, s) else open_tries n retval s }"

definition through_libmbim :: "PROFILE_T \<Rightarrow> mbim \<Rightarrow> (int \<times> mbim) option" where
  "through_libmbim p s = (if proxy p = ''mbim-proxy'' then mbim_proxy_configure (qmichannel p) s else Some (0, s))"

definition prepare_device :: "PROFILE_T \<Rightarrow> mbim \<Rightarrow> (int \<times> PROFILE_T \<times> mbim) option" where
  "prepare_device p s = do {
     (retval, p, s) \<leftarrow> mbim_device_caps_query p s;
     if retval \<noteq> 0 then Some (retval, p, s)
     else do {
       (retval, s) \<leftarrow> mbim_device_services_query (mbim_update_state s);
       if retval \<noteq> 0 then Some (retval, p, s)
       else do {
         (retval, s) \<leftarrow> mbim_set_radio_state 1 (mbim_update_state s);
         if retval \<noteq> 0 then Some (retval, p, s)
         else let s = mbim_update_state s in
           Some (0, p, if qmi_over_mbim_support s \<and> socketpair_ok s then s\<lparr>qmi_over_mbim_sk := True\<rparr> else s) } } }"

definition mbim_init :: "PROFILE_T \<Rightarrow> mbim \<Rightarrow> (int \<times> PROFILE_T \<times> mbim) option" where
  "mbim_init p s = do {
     (retval, s) \<leftarrow> through_libmbim p s;
     if retval \<noteq> 0 then Some (retval, p, s)
     else do {
       (retval, s) \<leftarrow> open_tries 10 retval s;
       if retval \<noteq> 0 then Some (retval, p, s) else prepare_device p s } }"

text \<open>
  Without \<open>CONFIG_CELLINFO\<close> there is no client to release. The two sockets are closed, but the
  variable keeps their numbers.
\<close>

definition mbim_deinit :: "mbim \<Rightarrow> mbim option" where
  "mbim_deinit s = map_option snd (mbim_close_device s)"

section \<open>Requests\<close>

definition mbim_requestBaseBandVersion :: "PROFILE_T \<Rightarrow> mbim \<Rightarrow> (int \<times> PROFILE_T \<times> mbim) option" where
  "mbim_requestBaseBandVersion p s = Some (0, p, s)"

definition sim_of_ready :: "u32 \<Rightarrow> SIM_Status" where
  "sim_of_ready st = (if st = 0 then SIM_NOT_READY else if st = 1 then SIM_READY else if st = 3 then SIM_BAD
     else if st = 6 then SIM_PIN else SIM_ABSENT)"

definition mbim_requestGetSIMStatus :: "SIM_Status \<Rightarrow> mbim \<Rightarrow> (int \<times> SIM_Status \<times> mbim) option" where
  "mbim_requestGetSIMStatus st s = do {
     (retval, s) \<leftarrow> mbim_subscriber_status_query s;
     if retval \<noteq> 0 then Some (retval, SIM_ABSENT, s)
     else let s = mbim_update_state s in Some (retval, sim_of_ready (ReadyState s), s) }"

text \<open>A registered device that is not attached is asked to attach; the outcome is not looked at.\<close>

definition ask_attach :: "int \<Rightarrow> mbim \<Rightarrow> (int \<times> byte \<times> mbim) option" where
  "ask_attach retval s = do { (_, s) \<leftarrow> mbim_packet_service_set 0 s; Some (retval, 0, s) }"

definition mbim_requestRegistrationState :: "byte \<Rightarrow> mbim \<Rightarrow> (int \<times> byte \<times> mbim) option" where
  "mbim_requestRegistrationState at s = do {
     (retval, s) \<leftarrow> mbim_register_state_query s;
     if retval \<noteq> 0 then Some (retval, 0, s)
     else let s = mbim_update_state s in
       if RegisterState s \<noteq> 3 \<and> RegisterState s \<noteq> 4 then Some (retval, 0, s)
       else do {
         (retval, s) \<leftarrow> mbim_packet_service_query s;
         if retval \<noteq> 0 then Some (retval, 1, s)
         else if PacketServiceState s = 2 then Some (retval, 1, s)
         else ask_attach retval s } }"

definition call_settings :: "PROFILE_T \<Rightarrow> mbim \<Rightarrow> mbim" where
  "call_settings p s = s\<lparr>mbim_apn := (if apn p \<noteq> None then apn p else mbim_apn s),
     mbim_user := (if user p \<noteq> None then user p else mbim_user s),
     mbim_pd := (if pd p \<noteq> None then pd p else mbim_pd s),
     mbim_auth := (if auth p \<noteq> 0 then auth p else mbim_auth s),
     mbim_iptype := (if enable_ipv4 p \<and> enable_ipv6 p then 4 else if enable_ipv6 p then 2
       else if enable_ipv4 p then 1 else mbim_iptype s)\<rparr>"

definition mbim_requestSetupDataCall :: "PROFILE_T \<Rightarrow> int \<Rightarrow> mbim \<Rightarrow> (int \<times> PROFILE_T \<times> mbim) option" where
  "mbim_requestSetupDataCall p fam s = do {
     (retval, s) \<leftarrow> mbim_set_connect True (mbim_sessionID s) (call_settings p s);
     Some (retval, p, s) }"

definition connection_status :: "u32 \<Rightarrow> byte" where
  "connection_status st = (if st = 0 then 0 else if st = 1 then QWDS_PKT_DATA_CONNECTED
     else QWDS_PKT_DATA_DISCONNECTED)"

definition mbim_requestQueryDataCall :: "byte \<Rightarrow> int \<Rightarrow> mbim \<Rightarrow> (int \<times> byte \<times> mbim) option" where
  "mbim_requestQueryDataCall st fam s = do {
     (retval, s) \<leftarrow> mbim_query_connect (mbim_sessionID s) s;
     Some (retval, if retval \<noteq> 0 then QWDS_PKT_DATA_DISCONNECTED else connection_status (ActivationState s), s) }"

definition mbim_requestDeactivateDefaultPDP :: "PROFILE_T \<Rightarrow> int \<Rightarrow> mbim \<Rightarrow> (int \<times> mbim) option" where
  "mbim_requestDeactivateDefaultPDP p fam s = mbim_set_connect False (mbim_sessionID s) s"

definition mbim_requestGetIPAddress :: "PROFILE_T \<Rightarrow> int \<Rightarrow> mbim \<Rightarrow> (int \<times> PROFILE_T \<times> mbim) option" where
  "mbim_requestGetIPAddress p fam s = mbim_ip_config p (mbim_sessionID s) s"

definition mbim_ops :: "mbim request_ops" where
  "mbim_ops = \<lparr>which_ops = mbim_request_ops,
     opBaseBandVersion = Some mbim_requestBaseBandVersion,
     opSetEthMode = None, opSetLoopBackState = None,
     opGetSIMStatus = Some mbim_requestGetSIMStatus,
     opEnterSimPin = None, opSetProfile = None, opGetProfile = None,
     opRegistrationState = mbim_requestRegistrationState,
     opSetupDataCall = mbim_requestSetupDataCall,
     opQueryDataCall = mbim_requestQueryDataCall,
     opDeactivateDefaultPDP = mbim_requestDeactivateDefaultPDP,
     opGetIPAddress = mbim_requestGetIPAddress,
     opGetICCID = None, opGetIMSI = None, opGetSignalInfo = None,
     opGetCellInfoList = None, opGetCoexWWANState = None,
     dev_init = Some mbim_init, dev_deinit = Some mbim_deinit,
     dev_reboots = (\<lambda>s. False)\<rparr>"

section \<open>QMI over MBIM\<close>

text \<open>A QMI request inside a command; \<open>wr\<close> is what \<open>write\<close> to the socket returns.\<close>

definition tunnel_answer :: "int \<Rightarrow> (int + byte list) \<times> mbim \<Rightarrow> (int \<times> byte list option \<times> mbim) option" where
  "tunnel_answer wr a = (case a of (Inl e, s) \<Rightarrow> Some (e, None, s)
     | (Inr r, s) \<Rightarrow> do {
         len \<leftarrow> rd32 r 44;
         if len = 0 then Some (- 1, None, s)
         else do {
           data \<leftarrow> rdn r 48 (unat len);
           Some (if wr = int (unat len) then 0 else - 1, Some data, s) } })"

definition qmi_over_mbim_qmidev_send :: "int \<Rightarrow> byte list \<Rightarrow> mbim \<Rightarrow> (int \<times> byte list option \<times> mbim) option" where
  "qmi_over_mbim_qmidev_send wr pQMI s = do {
     qlen \<leftarrow> rd16 pQMI 1;
     ty \<leftarrow> rd8 pQMI 4;
     let pQMI = (if ty = QMUX_TYPE_NAS then pQMI[5 := qmi_over_mbim_nas s] else pQMI);
     cid \<leftarrow> rd8 pQMI 5;
     if ty \<noteq> QMUX_TYPE_CTL \<and> cid = 0 then Some (- ENODEV, None, s)
     else do {
       b \<leftarrow> rdn pQMI 0 (unat qlen + 1);
       c \<leftarrow> compose_qmi_over_mbim_command 1 1 (Some b) (unat qlen + 1) s;
       a \<leftarrow> mbim_transact mbim_default_timeout c;
       tunnel_answer wr a } }"

section \<open>The reader thread\<close>

text \<open>
  \<open>mbim_proxy_read\<close>: the header, then what it announces; the count of the second \<open>read\<close> is a
  \<open>size_t\<close>. As in \<open>qmi_proxy_read\<close>, \<open>None\<close> when the second read does not fit the buffer.
\<close>

definition mbim_proxy_rest :: "u32 \<Rightarrow> 64 word" where
  "mbim_proxy_rest MessageLength = ucast MessageLength - 12"

definition mbim_proxy_read ::
  "byte list option \<Rightarrow> (64 word \<Rightarrow> byte list option) \<Rightarrow> byte list \<Rightarrow> (int \<times> byte list) option" where
  "mbim_proxy_read r1 r2 buf = (case r1 of
       None \<Rightarrow> Some (- 1, buf)
     | Some h \<Rightarrow>
         let buf1 = overwrite 0 h buf in
         if length h = 12 then do {
           len \<leftarrow> rd32 buf1 4;
           if unat len \<le> length buf then
             (case r2 (mbim_proxy_rest len) of
                None \<Rightarrow> Some (12 - 1, buf1)
              | Some d \<Rightarrow> if length buf < 12 + length d then None
                          else Some (12 + int (length d), overwrite 12 d buf1))
           else Some (12, buf1) }
         else Some (int (length h), buf1))"

text \<open>
  What \<open>poll\<close> reports for one descriptor: an error, nothing, or that it can be read, with the
  result of the read and the buffer, or the command of the main thread. A read of the tunnel's
  socket gives a QMI message (or fails).
\<close>

datatype mbim_poll_fd =
    FdError
  | FdQuiet
  | FdDevice "int \<times> byte list"
  | FdControl control_read
  | FdTunnel "byte list option"

datatype mbim_poll = MbPollTimeout | MbPollFailed | MbPollReady "mbim_poll_fd list"

text \<open>\<open>handed\<close> are the calls of \<open>mbim_recv_command\<close>, \<open>tunnelled\<close> those of \<open>QmiThreadRecvQMI\<close>.\<close>

record mbim_thread =
  mbim_quits :: bool
  mbim_running :: bool
  mbim_buf :: "byte list"
  handed :: "byte list option list"
  tunnelled :: "byte list list"
  mbim_told :: "ril_event list"

definition mbim_thread_quit :: "mbim_thread \<Rightarrow> mbim_thread" where
  "mbim_thread_quit t = t\<lparr>mbim_running := False, handed := handed t @ [None],
     mbim_told := mbim_told t @ [RIL_INDICATE_DEVICE_DISCONNECTED]\<rparr>"

text \<open>The session and the proxy that a profile leads to.\<close>

definition mbim_thread_profile :: "PROFILE_T \<Rightarrow> mbim \<Rightarrow> PROFILE_T \<times> mbim" where
  "mbim_thread_profile p s =
     (if 1 < qmap_mode p \<and> qmapnet_adapter p \<noteq> []
      then (if proxy p = [] then p\<lparr>proxy := ''quectel-mbim-proxy''\<rparr> else p, s\<lparr>mbim_sessionID := pdp p\<rparr>)
      else (p, s))"

definition mbim_read_thread_start :: "int \<Rightarrow> byte list \<Rightarrow> mbim_thread" where
  "mbim_read_thread_start fd buf =
     (let t = \<lparr>mbim_quits = False, mbim_running = True, mbim_buf = buf, handed = [], tunnelled = [], mbim_told = []\<rparr>
      in if fd \<le> 0 then mbim_thread_quit t else t\<lparr>mbim_told := [RIL_INDICATE_DEVICE_CONNECTED]\<rparr>)"

text \<open>The descriptors of one turn in their order; a failed read of the device ends the turn.\<close>

fun mbim_thread_fds :: "mbim_poll_fd list \<Rightarrow> mbim_thread \<Rightarrow> mbim_thread" where
  "mbim_thread_fds [] t = t"
| "mbim_thread_fds (e # es) t = (case e of
       FdError \<Rightarrow> mbim_thread_quit t
     | FdQuiet \<Rightarrow> mbim_thread_fds es t
     | FdDevice (n, b) \<Rightarrow>
         if n \<le> 0 then t\<lparr>mbim_buf := b\<rparr>
         else mbim_thread_fds es (t\<lparr>mbim_buf := b, handed := handed t @ [Some b]\<rparr>)
     | FdControl c \<Rightarrow>
         if c = CtlQuit then mbim_thread_quit t
         else mbim_thread_fds es (if c = CtlStop then t\<lparr>mbim_quits := True\<rparr> else t)
     | FdTunnel None \<Rightarrow> mbim_thread_fds es t
     | FdTunnel (Some d) \<Rightarrow>
         mbim_thread_fds es (t\<lparr>mbim_buf := overwrite 0 d (mbim_buf t),
           tunnelled := tunnelled t @ [overwrite 0 d (mbim_buf t)]\<rparr>))"

text \<open>A wait without a limit does not end by itself, so a timeout is always the one of the end.\<close>

definition mbim_read_thread_step :: "mbim_poll \<Rightarrow> mbim_thread \<Rightarrow> mbim_thread" where
  "mbim_read_thread_step e t = (if \<not> mbim_running t then t else case e of
       MbPollTimeout \<Rightarrow> if mbim_quits t then mbim_thread_quit t else t
     | MbPollFailed \<Rightarrow> mbim_thread_quit t
     | MbPollReady es \<Rightarrow> mbim_thread_fds es t)"

end
