(* ===== verification/ConnMbim.thy ===== *)
theory ConnMbim
  imports MbimOps ConnAtc MbimSlotProps
begin

text \<open>
  The connection manager over MBIM: the table \<open>mbim_request_ops\<close> as an instance of the contract
  of \<open>ConnInv\<close>, and what its runs keep.
\<close>

section \<open>The contract\<close>

lemma mbim_ops_sel [simp]:
  "which_ops mbim_ops = mbim_request_ops" "opSetupDataCall mbim_ops = mbim_requestSetupDataCall"
  "opQueryDataCall mbim_ops = mbim_requestQueryDataCall" "opGetIPAddress mbim_ops = mbim_requestGetIPAddress"
  "opDeactivateDefaultPDP mbim_ops = mbim_requestDeactivateDefaultPDP"
  by (simp_all add: mbim_ops_def)

lemma mbim_setup_profile: "mbim_requestSetupDataCall p fam s = Some (e, p', s') \<Longrightarrow> p' = p"
  by (auto simp: mbim_requestSetupDataCall_def bind_eq_Some_conv)

lemma families_addresses [simp]: "families (p\<lparr>ipv4 := v\<rparr>) = families p" "families (p\<lparr>ipv6 := w\<rparr>) = families p"
  by (simp_all add: families_def)

lemma ip_config_v4_families:
  assumes "ip_config_v4 r mtu p = Some (mtu', p')"
  shows "families p' = families p"
proof -
  obtain avail where avail: "rd32 r 52 = Some avail"
    using assms by (cases "rd32 r 52") (simp_all add: ip_config_v4_def)
  show ?thesis
  proof (cases "avail AND 1 = 0")
    case False
    with assms avail obtain v where "p' = p\<lparr>ipv4 := v\<rparr>"
      by (cases "v4_settings r avail mtu (ipv4 p)") (auto simp: ip_config_v4_def simp del: and_one_eq one_and_eq)
    then show ?thesis by simp
  qed (use assms avail in \<open>simp add: ip_config_v4_def\<close>)
qed

lemma ip_config_v6_families:
  assumes "ip_config_v6 r mtu p = Some p'"
  shows "families p' = families p"
proof -
  obtain avail where avail: "rd32 r 56 = Some avail"
    using assms by (cases "rd32 r 56") (simp_all add: ip_config_v6_def)
  show ?thesis
  proof (cases "avail AND 1 = 0")
    case False
    with assms avail obtain v where "p' = p\<lparr>ipv6 := v\<rparr>"
      by (cases "v6_settings r avail mtu (ipv6 p)") (auto simp: ip_config_v6_def simp del: and_one_eq one_and_eq)
    then show ?thesis by simp
  qed (use assms avail in \<open>simp add: ip_config_v6_def\<close>)
qed

lemma read_ip_config_families: "read_ip_config r p = Some p' \<Longrightarrow> families p' = families p"
  by (auto simp: read_ip_config_def bind_eq_Some_conv dest!: ip_config_v4_families ip_config_v6_families)

lemma ip_config_answer_families: "ip_config_answer p a = Some (e, p', s) \<Longrightarrow> families p' = families p"
  by (auto simp: ip_config_answer_def bind_eq_Some_conv split: sum.splits if_splits prod.splits
      dest: read_ip_config_families)

lemma mbim_address_families:
  "mbim_requestGetIPAddress p fam s = Some (e, p', s') \<Longrightarrow> families p' = families p"
  by (auto simp: mbim_requestGetIPAddress_def mbim_ip_config_def bind_eq_Some_conv dest: ip_config_answer_families)

interpretation mbim_table: call_table mbim_ops
  by unfold_locales (auto dest: mbim_setup_profile mbim_address_families)

section \<open>Property\<close>

text \<open>
  The interface follows the calls over MBIM, from the start of the
  program. Whatever an MBIM modem answers, indicates or leaves unanswered, and in whatever order
  events and signals arrive: when \<open>qmi_main\<close> enters its loop and as long as it runs, only an
  enabled family counts as connected, the last configuration of the interface is the recorded
  one and names only enabled families, and after the loop the interface is down.
\<close>

theorem mbim_interface_follows_calls:
  assumes "qmi_main_start mbim_ops en m0 = Some (Inr m)" "clean_interface m0"
    "qmi_main_run mbim_ops ss m = Some m'"
  shows "manager_inv m' \<and> families (profile m') = families (profile m)"
  using main_start_inv [OF assms(1,2)] mbim_table.run_inv [OF assms(3)] by blast

text \<open>A modem that answers the start, and is then unplugged.\<close>

definition mb_healthy :: "mbim_env list" where
  "mb_healthy = [mb_replies (le32 0x80000001 @ le32 16 @ le32 1 @ le32 0), mb_replies (mb_done 2 []),
     mb_replies (mb_done 3 []), mb_replies (mb_done 4 [])] @ replicate 12 mb_unplugged"

definition m_mbim :: "mbim main" where
  "m_mbim = \<lparr>profile = profile0, transport = mbim_idle mb_healthy, SIMStatus = SIM_READY, PSAttached = 1,
     IPv4ConnectionStatus = 0, IPv6ConnectionStatus = 0, SetupCallFail = 0, SetupCallAllowTime = 0,
     s_link = - 1, sig_queue = [], to_dev = [], alarm_s = 0, net_acts = [], clocks = [0], wan_ip = None,
     g_donot_exit_when_modem_hangup = False, brothers_killed = False, in_loop = True\<rparr>"

lemma mbim_interface_follows_calls_witness:
  "\<exists>m m'. qmi_main_start mbim_ops connected_env m_mbim = Some (Inr m) \<and>
    qmi_main_run mbim_ops [UnixSignal False, Poll PollError] m = Some m' \<and>
    manager_inv m' \<and> s_link m' = 0 \<and> net_acts m' = [UdhcpcStop]"
proof -
  have "(case qmi_main_start mbim_ops connected_env m_mbim of
      Some (Inr m) \<Rightarrow> (case qmi_main_run mbim_ops [UnixSignal False, Poll PollError] m of
        Some m' \<Rightarrow> s_link m' = 0 \<and> net_acts m' = [UdhcpcStop] | None \<Rightarrow> False)
    | _ \<Rightarrow> False)"
    by code_simp
  then obtain m m' where m: "qmi_main_start mbim_ops connected_env m_mbim = Some (Inr m)"
      "qmi_main_run mbim_ops [UnixSignal False, Poll PollError] m = Some m'" "s_link m' = 0" "net_acts m' = [UdhcpcStop]"
    by (auto split: option.splits sum.splits)
  have "clean_interface m_mbim" by (simp add: clean_interface_def m_mbim_def)
  from mbim_interface_follows_calls [OF m(1) this m(2)] m show ?thesis by blast
qed

end
