(* ===== verification/ConnTransport.thy ===== *)
theory ConnTransport
  imports ConnStart
begin

text \<open>
  Invariants of a transport under the connection manager: what every request function of a table
  keeps of the transport's state, every run of the manager keeps, from the start of the program.
  The rules below are a small Hoare calculus for the option monad, with \<open>pred_option\<close> as the
  statement that a result, if there is one, satisfies a predicate.
\<close>

section \<open>Rules\<close>

lemma keeps_bind:
  "pred_option Q r \<Longrightarrow> (\<And>x. Q x \<Longrightarrow> pred_option P (f x)) \<Longrightarrow> pred_option P (Option.bind r f)"
  by (cases r) simp_all

lemma keeps_bind2:
  "pred_option (\<lambda>(e, x). Q x) r \<Longrightarrow> (\<And>e x. Q x \<Longrightarrow> pred_option P (f e x)) \<Longrightarrow>
   pred_option P (Option.bind r (\<lambda>(e, x). f e x))"
  by (cases r) auto

lemma keeps_if:
  "(c \<Longrightarrow> pred_option P a) \<Longrightarrow> (\<not> c \<Longrightarrow> pred_option P b) \<Longrightarrow> pred_option P (if c then a else b)"
  by simp

section \<open>The contract\<close>

locale table_invariant =
  fixes ops :: "'s request_ops" and I :: "'s \<Rightarrow> bool"
  assumes setup_I: "I s \<Longrightarrow> pred_option (\<lambda>(e, p, s). I s) (opSetupDataCall ops p fam s)"
    and address_I: "I s \<Longrightarrow> pred_option (\<lambda>(e, p, s). I s) (opGetIPAddress ops p fam s)"
    and stop_I: "I s \<Longrightarrow> pred_option (\<lambda>(e, s). I s) (opDeactivateDefaultPDP ops p fam s)"
    and registration_I: "I s \<Longrightarrow> pred_option (\<lambda>(e, a, s). I s) (opRegistrationState ops a s)"
    and query_I: "I s \<Longrightarrow> pred_option (\<lambda>(e, st, s). I s) (opQueryDataCall ops st fam s)"
    and version_I: "opBaseBandVersion ops = Some g \<Longrightarrow> I s \<Longrightarrow> pred_option (\<lambda>(e, p, s). I s) (g p s)"
    and eth_I: "opSetEthMode ops = Some g \<Longrightarrow> I s \<Longrightarrow> pred_option (\<lambda>(e, p, s). I s) (g p s)"
    and get_profile_I: "opGetProfile ops = Some g \<Longrightarrow> I s \<Longrightarrow> pred_option (\<lambda>(e, p, s). I s) (g p s)"
    and init_I: "dev_init ops = Some g \<Longrightarrow> I s \<Longrightarrow> pred_option (\<lambda>(e, p, s). I s) (g p s)"
    and loopback_I: "opSetLoopBackState ops = Some l \<Longrightarrow> I s \<Longrightarrow> pred_option (\<lambda>(e, s). I s) (l b n s)"
    and sim_I: "opGetSIMStatus ops = Some h \<Longrightarrow> I s \<Longrightarrow> pred_option (\<lambda>(e, st, s). I s) (h sim s)"
    and pin_I: "opEnterSimPin ops = Some k \<Longrightarrow> I s \<Longrightarrow> pred_option (\<lambda>(e, s). I s) (k pin s)"
    and set_profile_I: "opSetProfile ops = Some j \<Longrightarrow> I s \<Longrightarrow> pred_option (\<lambda>(e, s). I s) (j p s)"
    and iccid_I: "opGetICCID ops = Some i \<Longrightarrow> I s \<Longrightarrow> pred_option I (i s)"
    and imsi_I: "opGetIMSI ops = Some i \<Longrightarrow> I s \<Longrightarrow> pred_option I (i s)"
    and signal_I: "opGetSignalInfo ops = Some i \<Longrightarrow> I s \<Longrightarrow> pred_option I (i s)"
    and cell_I: "opGetCellInfoList ops = Some i \<Longrightarrow> I s \<Longrightarrow> pred_option I (i s)"
    and coex_I: "opGetCoexWWANState ops = Some i \<Longrightarrow> I s \<Longrightarrow> pred_option I (i s)"
    and deinit_I: "dev_deinit ops = Some i \<Longrightarrow> I s \<Longrightarrow> pred_option I (i s)"
begin

abbreviation J :: "'s main \<Rightarrow> bool" where "J m \<equiv> I (transport m)"
abbreviation J2 :: "'a \<times> 's main \<Rightarrow> bool" where "J2 \<equiv> \<lambda>(e, m). J m"

subsection \<open>Requests\<close>

lemma do_setup_I: "J m \<Longrightarrow> pred_option J2 (do_setup ops fam m)"
  unfolding do_setup_def by (rule keeps_bind [OF setup_I]) auto

lemma do_address_I: "J m \<Longrightarrow> pred_option J2 (do_address ops fam m)"
  unfolding do_address_def by (rule keeps_bind [OF address_I]) auto

lemma do_stop_I: "J m \<Longrightarrow> pred_option J (do_stop ops fam m)"
  unfolding do_stop_def by (rule keeps_bind [OF stop_I]) auto

lemma do_registration_I: "J m \<Longrightarrow> pred_option J (do_registration ops m)"
  unfolding do_registration_def by (rule keeps_bind [OF registration_I]) auto

lemma do_query_v4_I: "J m \<Longrightarrow> pred_option J2 (do_query_v4 ops m)"
  unfolding do_query_v4_def by (rule keeps_bind [OF query_I]) auto

lemma do_query_v6_I: "J m \<Longrightarrow> pred_option J (do_query_v6 ops m)"
  unfolding do_query_v6_def by (rule keeps_bind [OF query_I]) auto

lemma do_info_I:
  "J m \<Longrightarrow> (\<And>i s. f = Some i \<Longrightarrow> I s \<Longrightarrow> pred_option I (i s)) \<Longrightarrow> pred_option J (do_info f m)"
  unfolding do_info_def by (cases f) (auto intro!: keeps_bind [of I])

lemma do_profile_I:
  "J m \<Longrightarrow> (\<And>g p s. f = Some g \<Longrightarrow> I s \<Longrightarrow> pred_option (\<lambda>(e, p, s). I s) (g p s)) \<Longrightarrow>
   pred_option J2 (do_profile f m)"
  unfolding do_profile_def by (cases f) (auto intro!: keeps_bind [of "\<lambda>(e, p, s). I s"])

lemmas request_I = do_setup_I do_address_I do_stop_I do_registration_I do_query_v4_I do_query_v6_I

lemma clock_I: "J m \<Longrightarrow> pred_option J2 (clock_msec m)"
  by (simp add: clock_msec_def split: list.split)

lemma link_I [simp]: "transport (usbnet_link_change ops link m) = transport m"
  by (simp add: usbnet_link_change_def Let_def)

lemma quit_I [simp]: "transport (main_quit ops m) = transport m"
  by (simp add: main_quit_def)

lemma send_I [simp]: "transport (send_signo_to_main g m) = transport m"
  "transport (main_send_event_to_qmidevice e m) = transport m"
  by (simp_all add: send_signo_to_main_def main_send_event_to_qmidevice_def)

subsection \<open>Handlers\<close>

lemma retry_auth_I: "J m \<Longrightarrow> pred_option J2 (retry_auth ops e m)"
  unfolding retry_auth_def Let_def
  by (auto intro!: keeps_if keeps_bind2 [OF do_setup_I])

lemma start_v4_I: "J m \<Longrightarrow> pred_option J (start_v4 ops m)"
  unfolding start_v4_def
  by (intro keeps_if keeps_bind2 [OF do_setup_I] keeps_bind2 [OF retry_auth_I] keeps_bind2 [OF do_address_I])
    (auto)

lemma start_v6_I: "J m \<Longrightarrow> pred_option J (start_v6 ops m)"
  unfolding start_v6_def
  by (intro keeps_if keeps_bind2 [OF do_setup_I] keeps_bind2 [OF do_address_I]) auto

lemma start_result_I: "J m \<Longrightarrow> pred_option J (start_result m)"
  unfolding start_result_def Let_def
  by (intro keeps_if keeps_bind2 [OF clock_I]) auto

lemma sig_event_start_I: "J m \<Longrightarrow> pred_option J (sig_event_start ops m)"
  unfolding sig_event_start_def
  by (intro keeps_if keeps_bind2 [OF clock_I] keeps_bind [OF start_v4_I] keeps_bind [OF start_v6_I] start_result_I) auto

lemma check_ipv4_address_I: "J m \<Longrightarrow> pred_option J2 (check_ipv4_address ops m)"
  unfolding check_ipv4_address_def Let_def
  by (intro keeps_if keeps_bind2 [OF do_address_I]) auto

lemma fetch_address_I: "J m \<Longrightarrow> pred_option J (fetch_address ops m)"
  unfolding fetch_address_def by (intro keeps_if keeps_bind2 [OF do_address_I]) auto

lemma verify_address_I: "J m \<Longrightarrow> pred_option J (verify_address ops m)"
  unfolding verify_address_def
  by (intro keeps_if keeps_bind2 [OF check_ipv4_address_I] keeps_bind [OF do_stop_I]) auto

lemma check_v4_I: "J m \<Longrightarrow> pred_option J (check_v4 ops m)"
  unfolding check_v4_def
  by (intro keeps_if keeps_bind2 [OF do_query_v4_I] keeps_bind [OF fetch_address_I] verify_address_I) auto

lemma check_v6_I: "J m \<Longrightarrow> pred_option J (check_v6 ops m)"
  unfolding check_v6_def by (intro keeps_if do_query_v6_I) auto

lemma check_link_I [simp]: "transport (check_link ops m) = transport m"
  by (simp add: check_link_def)

lemma sig_event_check_I: "J m \<Longrightarrow> pred_option J (sig_event_check ops m)"
  unfolding sig_event_check_def Let_def
  by (rule keeps_bind [OF do_info_I], assumption, erule (1) signal_I,
      rule keeps_bind [OF do_info_I], assumption, erule (1) cell_I,
      rule keeps_bind [OF do_info_I], assumption, erule (1) coex_I)
    (auto intro!: keeps_bind [of J] do_registration_I check_v4_I check_v6_I)

lemma sig_event_stop_I: "J m \<Longrightarrow> pred_option J (sig_event_stop ops m)"
  unfolding sig_event_stop_def
  by (auto intro!: keeps_bind [of J] do_stop_I do_info_I deinit_I)

lemma handle_signo_I: "J m \<Longrightarrow> pred_option J (handle_signo ops m)"
  unfolding handle_signo_def Let_def
  by (auto split: list.split signo.split intro!: sig_event_start_I sig_event_check_I sig_event_stop_I)

lemma network_changed_I: "J m \<Longrightarrow> pred_option J (network_changed ops m)"
  unfolding network_changed_def
  by (intro keeps_bind [OF do_registration_I] keeps_if keeps_bind2 [OF clock_I]) auto

lemma loopback_config_I: "J m \<Longrightarrow> pred_option J (loopback_config ind m)"
  unfolding loopback_config_def Let_def
  by (cases "rd8 ind 7"; cases "rd32 ind 11") simp_all

lemma list_changed_I:
  "J m \<Longrightarrow> pred_option J (if connected m
     then do { (c, m) \<leftarrow> clock_msec m; Some (m\<lparr>SetupCallAllowTime := c + 1000\<rparr>) } else Some m)"
  by (intro keeps_if keeps_bind2 [OF clock_I]) auto

lemma handle_event_I:
  assumes "J m"
  shows "pred_option J (handle_event ops e m)"
proof (cases "e = RIL_UNSOL_DATA_CALL_LIST_CHANGED")
  case True
  show ?thesis
    unfolding handle_event_def True ril_event.case by (rule keeps_bind [OF list_changed_I [OF assms]]) simp
next
  case False
  then show ?thesis
    using assms by (cases e) (auto simp: handle_event_def intro!: network_changed_I loopback_config_I)
qed

lemma serve_fd_I: "J m \<Longrightarrow> (\<And>m. J m \<Longrightarrow> pred_option J (h m)) \<Longrightarrow> pred_option J (serve_fd ops ev h m)"
  by (simp add: serve_fd_def Let_def)

lemma poll_step_I: "J m \<Longrightarrow> pred_option J (poll_step ops r m)"
  by (cases r) (auto simp: poll_step_def intro!: keeps_bind [of J] keeps_if serve_fd_I handle_signo_I handle_event_I)

lemma main_step_I: "J m \<Longrightarrow> pred_option J (qmi_main_step ops s m)"
  by (cases s) (auto simp: qmi_main_step_def ql_sigaction_def poll_step_I)

lemma main_run_I: "J m \<Longrightarrow> pred_option J (qmi_main_run ops ss m)"
  by (induction ss arbitrary: m) (auto intro!: keeps_bind [of J] main_step_I)

subsection \<open>The start\<close>

lemma sim_wait_I:
  assumes f: "\<And>st s. I s \<Longrightarrow> pred_option (\<lambda>(e, st, s). I s) (f st s)"
    and "sim_wait f st s = Some r" "I s"
  shows "case r of (e, st, s) \<Rightarrow> I s"
proof -
  have "f' = f \<longrightarrow> I s \<longrightarrow> (case r of (e, st, s) \<Rightarrow> I s)" if "sim_wait f' st s = Some r" for f' st s r
  proof (rule sim_wait.raw_induct [OF _ that])
    fix wait f' st s r
    assume IH: "\<And>f' st s r. wait f' st s = Some r \<Longrightarrow> f' = f \<longrightarrow> I s \<longrightarrow> (case r of (e, st, s) \<Rightarrow> I s)"
      and step: "Option.bind (f' st s) (\<lambda>(e, st, s). if e = 0x19 then wait f' st s else Some (e, st, s)) = Some r"
    show "f' = f \<longrightarrow> I s \<longrightarrow> (case r of (e, st, s) \<Rightarrow> I s)"
    proof (intro impI)
      assume "f' = f" "I s"
      then obtain e1 st1 s1 where "f st s = Some (e1, st1, s1)" "I s1"
        using step f [of s st] by (auto simp: bind_eq_Some_conv)
      with IH [of f st1 s1 r] step \<open>f' = f\<close> show "case r of (e, st, s) \<Rightarrow> I s" by (auto split: if_splits)
    qed
  qed
  with assms(2,3) show ?thesis by blast
qed

lemma enter_pin_I: "J m \<Longrightarrow> pred_option J (enter_pin ops m)"
  by (auto simp: enter_pin_def split: option.split SIM_Status.split intro!: keeps_bind2 [OF pin_I])

lemma start_sim_I:
  assumes "J m"
  shows "pred_option J (start_sim ops m)"
proof (cases "opGetSIMStatus ops")
  case (Some f)
  have "pred_option (\<lambda>(e, st, s). I s) (sim_wait f (SIMStatus m) (transport m))"
    using sim_wait_I [OF sim_I [OF Some] _ assms] by (cases "sim_wait f (SIMStatus m) (transport m)") auto
  then show ?thesis
    using Some by (auto simp: start_sim_def intro!: keeps_bind [of "\<lambda>(e, st, s). I s"] enter_pin_I)
qed (use assms in \<open>simp add: start_sim_def\<close>)

lemma start_identity_I: "J m \<Longrightarrow> pred_option J (start_identity ops m)"
  unfolding start_identity_def
  by (intro keeps_if keeps_bind [OF do_info_I] do_info_I iccid_I imsi_I) auto

lemma start_loopback_I: "J m \<Longrightarrow> pred_option J (start_loopback ops m)"
  by (auto simp: start_loopback_def split: option.split intro!: keeps_bind2 [OF loopback_I])

lemma start_profile_I: "J m \<Longrightarrow> pred_option J (start_profile ops m)"
  unfolding start_profile_def
  by (intro keeps_if keeps_bind2 [OF do_profile_I] get_profile_I)
    (auto split: option.split intro!: keeps_bind2 [OF set_profile_I])

lemma start_leftover_I: "J m \<Longrightarrow> pred_option J (start_leftover ops m)"
  unfolding start_leftover_def by (intro keeps_if keeps_bind2 [OF do_query_v4_I] do_stop_I) auto

lemma start_device_I: "J m \<Longrightarrow> pred_option J2 (start_device ops m)"
  unfolding start_device_def by (intro keeps_bind2 [OF do_profile_I] init_I) auto

lemma versions_I:
  "J m \<Longrightarrow> pred_option J2 (do_profile (opBaseBandVersion ops) m)"
  "J m \<Longrightarrow> pred_option J2 (do_profile (opSetEthMode ops) m)"
  by (rule do_profile_I, assumption, erule (1) version_I)
    (rule do_profile_I, assumption, erule (1) eth_I)

lemma main_start_I:
  assumes "J m"
  shows "pred_option (\<lambda>r. case r of Inl (e, m) \<Rightarrow> J m | Inr m \<Rightarrow> J m) (qmi_main_start ops en m)"
  unfolding qmi_main_start_def Let_def
  by (rule keeps_bind2 [OF clock_I [OF assms]])
    (auto simp: qmi_main_locals_def intro!: keeps_if keeps_bind2 [OF start_device_I] keeps_bind2 [OF versions_I(1)]
      keeps_bind2 [OF versions_I(2)] keeps_bind [of J] start_loopback_I start_sim_I start_identity_I start_profile_I
      do_registration_I start_leftover_I)

lemma run_from_start_I:
  assumes "J m0" "qmi_main_start ops en m0 = Some (Inr m)" "qmi_main_run ops ss m = Some m'"
  shows "J m'"
  using main_start_I [OF assms(1), of en] main_run_I [of m ss] assms(2,3) by simp

end

end
