(* ===== verification/MbimIds.thy ===== *)
theory MbimIds
  imports MbimSlotProps ConnMbim ConnTransport MbimProxyRoute
begin

text \<open>
  The transaction identifiers of the MBIM client in a run of the whole program: what every request
  of the table keeps (an instance of the contract of \<open>ConnTransport\<close>), hence every run. The MBIM
  proxy keeps its client's slot in the upper byte of an identifier and relies on this.
\<close>

section \<open>The invariant\<close>

definition small_tid :: "u32 \<Rightarrow> bool" where
  "small_tid t \<longleftrightarrow> 1 \<le> t \<and> t \<le> 0xFFFFFF"

definition sent_ok :: "mbim \<Rightarrow> bool" where
  "sent_ok s \<longleftrightarrow> (\<forall>q \<in> set (mbim_sent s). \<forall>t. rd32 q 8 = Some t \<longrightarrow> small_tid t)"

definition device_there :: "mbim \<Rightarrow> bool" where
  "device_there s \<longleftrightarrow> 0 < mbim_fd s \<and> reader_alive s"

definition ids_ok :: "mbim \<Rightarrow> bool" where
  "ids_ok s \<longleftrightarrow> sent_ok s \<and> (device_there s \<longrightarrow> 1 \<le> mbTransactionId s \<and> mbTransactionId s \<le> 0x1000000)"

text \<open>A composed request, whose identifier is the one before the variable's.\<close>

definition composed :: "byte list \<Rightarrow> mbim \<Rightarrow> bool" where
  "composed req s \<longleftrightarrow> sent_ok s \<and> 12 \<le> length req \<and> (\<exists>t. rd32 req 8 = Some t \<and> mbTransactionId s = t + 1 \<and>
     (device_there s \<longrightarrow> 1 \<le> t \<and> t \<le> 0x1000000))"

lemma ids_ok_update [simp]:
  "ids_ok (s\<lparr>ReadyState := a\<rparr>) = ids_ok s" "ids_ok (s\<lparr>RegisterState := a\<rparr>) = ids_ok s"
  "ids_ok (s\<lparr>PacketServiceState := a\<rparr>) = ids_ok s" "ids_ok (s\<lparr>ActivationState := a\<rparr>) = ids_ok s"
  "ids_ok (s\<lparr>mbim_ms_version := v\<rparr>) = ids_ok s" "ids_ok (s\<lparr>qmi_over_mbim_support := b\<rparr>) = ids_ok s"
  "ids_ok (s\<lparr>qmi_over_mbim_sk := b\<rparr>) = ids_ok s" "ids_ok (mbim_update_state s) = ids_ok s"
  "ids_ok (call_settings p s) = ids_ok s"
  by (simp_all add: ids_ok_def sent_ok_def device_there_def mbim_update_state_def call_settings_def)

section \<open>Composition and exchange\<close>

lemma rd32_tid: "rd32 (le32 a @ le32 b @ le32 t @ r) 8 = Some t"
  using rd32_append2 [of "le32 a @ le32 b" "le32 t @ r" 0] by (simp add: rd32_le32)

lemma composed_step:
  assumes "ids_ok s" "rd32 req 8 = Some (mbTransactionId s)" "12 \<le> length req"
  shows "composed req (s\<lparr>mbTransactionId := mbTransactionId s + 1\<rparr>)"
  using assms by (auto simp: composed_def ids_ok_def sent_ok_def device_there_def)

lemma compose_open_composed: "ids_ok s \<Longrightarrow> compose_open_command n s = (req, s') \<Longrightarrow> composed req s'"
  by (auto simp: compose_open_command_def rd32_tid intro!: composed_step)

lemma compose_close_composed: "ids_ok s \<Longrightarrow> compose_close_command s = (req, s') \<Longrightarrow> composed req s'"
  using rd32_tid [of 2 12 "mbTransactionId s" "[]"]
  by (auto simp: compose_close_command_def intro!: composed_step)

lemma compose_composed:
  "ids_ok s \<Longrightarrow> pred_option (\<lambda>(req, s). composed req s) (compose_basic_connect_command cid ty info n s)"
  by (cases "str2uuid UUID_BASIC_CONNECT")
    (auto simp: compose_basic_connect_command_def Let_def rd32_tid intro!: composed_step)

lemma composed_overwrite:
  assumes "composed req s" "12 \<le> i" "i + length d \<le> length req"
  shows "composed (overwrite i d req) s"
proof -
  have "rd32 (overwrite i d req) 8 = rd32 req 8"
    using assms(2,3) by (simp add: rd32_def rd8_def overwrite_def nth_append)
  then show ?thesis using assms by (simp add: composed_def)
qed

lemma arrive_there: "mbim_arrive a s = Some s' \<Longrightarrow> device_there s' \<Longrightarrow> device_there s"
proof (cases "reader_alive s")
  case True
  assume a: "mbim_arrive a s = Some s'" "device_there s'"
  show "device_there s"
  proof (cases a)
    case (MbMessage m)
    then have "mbim_recv_command (Some m) s = Some s'" using a True by (simp add: mbim_arrive_def)
    then show ?thesis
      by (cases rule: recv_command_cases) (use a(2) indication_fields in \<open>auto simp: device_there_def\<close>)
  next
    case MbGone
    then show ?thesis using a True
      by (auto simp: mbim_arrive_def mbim_reader_quit_def mbim_recv_command_def tell_mbim_def device_there_def)
  qed
qed (simp add: mbim_arrive_def device_there_def)

lemma arrivals_there: "mbim_arrivals as s = Some s' \<Longrightarrow> device_there s' \<Longrightarrow> device_there s"
  by (induction as arbitrary: s) (auto simp: bind_eq_Some_conv dest: arrive_there)

lemma renew_small:
  assumes "renew_tid req s = Some (req', s')" "rd32 req 8 = Some t" "1 \<le> t" "t \<le> 0x1000000" "12 \<le> length req"
    "mbTransactionId s = t + 1"
  shows "\<exists>t'. rd32 req' 8 = Some t' \<and> small_tid t'" "1 \<le> mbTransactionId s'" "mbTransactionId s' \<le> 0x1000000"
proof -
  consider (wrap) "t = 0x1000000" "req' = overwrite 8 (le32 1) req" "mbTransactionId s' = 2"
    | (same) "t \<noteq> 0x1000000" "req' = req" "mbTransactionId s' = mbTransactionId s"
    using renew_tid_fields(2) [OF assms(1)] assms(2) by auto
  then have "(\<exists>t'. rd32 req' 8 = Some t' \<and> small_tid t') \<and> 1 \<le> mbTransactionId s' \<and> mbTransactionId s' \<le> 0x1000000"
  proof cases
    case wrap
    have "rd32 req' 8 = Some 1"
      unfolding wrap(2) using rd32_put_tid [OF assms(5), of 1] by (simp add: put_tid_def)
    then show ?thesis using wrap(3) by (simp add: small_tid_def)
  next
    case same
    then have "t < 0x1000000" using assms(4) by simp
    then have "unat t < 0x1000000" by (simp add: word_less_nat_alt)
    moreover have "1 \<le> unat t" using assms(3) by (simp add: word_le_nat_alt)
    ultimately have "small_tid t" "1 \<le> t + 1" "t + 1 \<le> 0x1000000"
      by (simp_all add: small_tid_def word_le_nat_alt unat_word_ariths)
    with same assms(2,6) show ?thesis by simp
  qed
  then show "\<exists>t'. rd32 req' 8 = Some t' \<and> small_tid t'" "1 \<le> mbTransactionId s'" "mbTransactionId s' \<le> 0x1000000"
    by auto
qed

lemma rdn_prefix: "rdn b 0 n = Some d \<Longrightarrow> rd32 d i = Some w \<Longrightarrow> rd32 b i = Some w"
  using rd32_mono [of "take n b" i w "drop n b"] by (auto simp: rdn_def split: if_splits)

lemma send_ids:
  assumes "mbim_send_command req msecs s = Some (ret, dn, s')" "composed req s"
  shows "ids_ok s'"
  using assms(1)
proof (cases rule: send_command_cases)
  case (refused en rest)
  then have "mbim_sent s' = mbim_sent s" using main_fields_eqD(3) [OF refused(4)] by simp
  then show ?thesis using refused(5) assms(2) by (auto simp: ids_ok_def composed_def sent_ok_def device_there_def)
next
  case (exchanged en rest s0)
  obtain t where t: "rd32 req 8 = Some t" "mbTransactionId s = t + 1" "device_there s \<Longrightarrow> 1 \<le> t \<and> t \<le> 0x1000000"
    and c: "sent_ok s" "12 \<le> length req" using assms(2) unfolding composed_def by auto
  show ?thesis
  proof (rule exchange_parts [OF exchanged(5)])
    fix req' s1 len data
    assume e: "renew_tid req s0 = Some (req', s1)" "rdn req' 0 (unat len) = Some data"
      "main_fields s' = main_fields (s1\<lparr>mbim_pRequest := None, mbim_sent := mbim_sent s1 @ [data]\<rparr>)"
    have "device_there s"
      using arrivals_there [OF exchanged(6)] exchanged(3,4) by (simp add: device_there_def)
    then have small: "1 \<le> t" "t \<le> 0x1000000" using t(3) by auto
    have tid0: "mbTransactionId s0 = t + 1" "mbim_sent s0 = mbim_sent s"
      using main_fields_eqD(2,3) [OF exchanged(2)] t(2) by simp_all
    note r = renew_small [OF e(1) t(1) small c(2) tid0(1)]
    have "mbim_sent s' = mbim_sent s @ [data]" "mbTransactionId s' = mbTransactionId s1"
      using main_fields_eqD(2,3) [OF e(3)] main_fields_eqD(3) [OF renew_tid_fields(1) [OF e(1)]] tid0(2) by simp_all
    then show ?thesis
      using c(1) r rdn_prefix [OF e(2)] by (auto simp: ids_ok_def sent_ok_def)
  qed
qed

section \<open>Every request keeps it\<close>

abbreviation ok2 :: "'a \<times> mbim \<Rightarrow> bool" where "ok2 \<equiv> \<lambda>(e, s). ids_ok s"
abbreviation ok3 :: "'a \<times> 'b \<times> mbim \<Rightarrow> bool" where "ok3 \<equiv> \<lambda>(e, p, s). ids_ok s"

lemma keeps_option: "(\<And>x. r = Some x \<Longrightarrow> P x) \<Longrightarrow> pred_option P r"
  by (cases r) auto

lemma keeps_any: "(\<And>x. r = Some x \<Longrightarrow> pred_option P (f x)) \<Longrightarrow> pred_option P (Option.bind r f)"
  by (cases r) auto

lemma transact_ids:
  assumes "composed req s"
  shows "pred_option ok2 (mbim_transact msecs (req, s))"
proof -
  have send: "pred_option ok3 (mbim_send_command req msecs s)"
    using send_ids [OF _ assms] by (intro keeps_option) auto
  show ?thesis
    unfolding mbim_transact_def prod.case
    by (rule keeps_bind [OF send]) (auto intro!: keeps_any split: option.split)
qed

lemma with_info_ids:
  "ok2 a \<Longrightarrow> (\<And>r s. ids_ok s \<Longrightarrow> pred_option ids_ok (f r s)) \<Longrightarrow> pred_option ok2 (with_info a f)"
  by (cases a; cases "fst a") (auto simp: with_info_def intro!: keeps_bind [of "\<lambda>_. True"] keeps_bind [of ids_ok],
    auto simp: pred_option_def)

text \<open>The frame of a command: compose, exchange, go on.\<close>

lemma command_ids:
  assumes "ids_ok s" "\<And>a. ok2 a \<Longrightarrow> pred_option P (f a)"
  shows "pred_option P (do { c \<leftarrow> compose_basic_connect_command cid ty info n s;
    a \<leftarrow> mbim_transact msecs c; f a })"
  by (rule keeps_bind [OF compose_composed [OF assms(1)]], rule keeps_bind [of ok2])
    (use assms(2) in \<open>auto intro: transact_ids\<close>)

lemma open_status_ids: "ok2 a \<Longrightarrow> pred_option ok2 (open_status a)"
  by (cases a; cases "fst a") (auto simp: open_status_def intro!: keeps_bind [of "\<lambda>_. True"], auto simp: pred_option_def)

lemma open_device_ids: "ids_ok s \<Longrightarrow> pred_option ok2 (mbim_open_device n s)"
  unfolding mbim_open_device_def
  by (rule keeps_bind [of ok2], cases "compose_open_command n s")
    (auto intro!: transact_ids compose_open_composed open_status_ids)

lemma close_device_ids: "ids_ok s \<Longrightarrow> pred_option ok2 (mbim_close_device s)"
  unfolding mbim_close_device_def
  by (rule keeps_bind [of ok2], cases "compose_close_command s")
    (auto intro!: transact_ids compose_close_composed open_status_ids)

lemma str2uuid_length: "str2uuid t = Some u \<Longrightarrow> length u = 16"
  by (auto simp: str2uuid_def Let_def split: if_splits)

lemma compose_length:
  "compose_basic_connect_command cid ty info n s = Some (req, s') \<Longrightarrow>
   48 \<le> length req \<and> (info = None \<longrightarrow> length req = 48 + n)"
  by (auto simp: compose_basic_connect_command_def Let_def bind_eq_Some_conv dest!: str2uuid_length split: option.splits)

lemma service_composed:
  assumes "ids_ok s"
  shows "pred_option (\<lambda>(req, s). composed req s) (compose_service_command service cid ty info n s)"
proof (rule keeps_option)
  fix x assume "compose_service_command service cid ty info n s = Some x"
  then obtain req s' u where c: "compose_basic_connect_command cid ty info n s = Some (req, s')"
      "str2uuid service = Some u" "x = (overwrite 20 u req, s')"
    by (auto simp: compose_service_command_def bind_eq_Some_conv)
  have "composed req s'" using compose_composed [OF assms, of cid ty info n] c(1) by simp
  then have "composed (overwrite 20 u req) s'"
    by (rule composed_overwrite) (use compose_length [OF c(1)] str2uuid_length [OF c(2)] in simp_all)
  then show "case x of (req, s) \<Rightarrow> composed req s" using c(3) by simp
qed

lemma ms_version_ids: "ids_ok s \<Longrightarrow> pred_option ok2 (mbim_ms_version_query s)"
  unfolding mbim_ms_version_query_def compose_basic_connect_ext_command_def
  by (rule keeps_bind [OF service_composed], assumption, rule keeps_bind [of ok2])
    (auto intro!: transact_ids with_info_ids keeps_any)

lemma read_services_ids: "ids_ok s \<Longrightarrow> pred_option (\<lambda>(v, s). ids_ok s) (read_services r s)"
  unfolding read_services_def by (auto intro!: keeps_any keeps_if)

lemma device_services_ids: "ids_ok s \<Longrightarrow> pred_option ok2 (mbim_device_services_query s)"
  unfolding mbim_device_services_query_def
proof (rule command_ids)
  fix a :: "(int + byte list) \<times> mbim"
  assume a: "ok2 a"
  show "pred_option ok2 (case a of (Inl e, s) \<Rightarrow> Some (e, s)
     | (Inr r, s) \<Rightarrow> do { (v2, s) \<leftarrow> read_services r s;
         s \<leftarrow> (if v2 then map_option snd (mbim_ms_version_query s) else Some s); Some (0, s) })"
  proof (cases a)
    case (Pair x s)
    have q: "pred_option ids_ok (if v2 then map_option snd (mbim_ms_version_query s) else Some s)" if "ids_ok s" for v2 s
      using ms_version_ids [OF that] that by (cases "mbim_ms_version_query s") auto
    show ?thesis
      using a Pair by (cases x) (auto intro!: keeps_bind2 [OF read_services_ids] keeps_bind [OF q])
  qed
qed

lemma caps_ids: "ids_ok s \<Longrightarrow> pred_option ok3 (mbim_device_caps_query p s)"
  unfolding mbim_device_caps_query_def
  by (rule command_ids) (auto split: sum.split intro!: keeps_any)

lemma radio_ids: "ids_ok s \<Longrightarrow> pred_option ok2 (mbim_set_radio_state st s)"
  unfolding mbim_set_radio_state_def by (rule command_ids) (auto intro!: with_info_ids keeps_any)

lemma read_ids:
  "ids_ok s \<Longrightarrow> pred_option ids_ok (read_subscriber r s)" "ids_ok s \<Longrightarrow> pred_option ids_ok (read_register r s)"
  "ids_ok s \<Longrightarrow> pred_option ids_ok (read_packet_service r s)" "ids_ok s \<Longrightarrow> pred_option ids_ok (read_connect r s)"
  by (auto simp: read_subscriber_def read_register_def read_packet_service_def read_connect_def intro!: keeps_any)

lemma packet_service_ids: "ids_ok s \<Longrightarrow> pred_option ok2 (mbim_packet_service_query s)"
  unfolding mbim_packet_service_query_def
proof (rule command_ids, assumption, rule with_info_ids, assumption)
  fix r s assume "ids_ok s"
  then show "pred_option ids_ok (do { s \<leftarrow> read_packet_service r s; len \<leftarrow> rd32 r 44;
       if len = 32 then do { _ \<leftarrow> rd32 r 56; Some s } else Some s })"
    by (rule keeps_bind [OF read_ids(3)]) (auto intro!: keeps_any keeps_if)
qed

lemma query_ids:
  "ids_ok s \<Longrightarrow> pred_option ok2 (mbim_subscriber_status_query s)"
  "ids_ok s \<Longrightarrow> pred_option ok2 (mbim_register_state_query s)"
  "ids_ok s \<Longrightarrow> pred_option ok2 (mbim_packet_service_set b s)"
  "ids_ok s \<Longrightarrow> pred_option ok2 (mbim_query_connect i s)"
  unfolding mbim_subscriber_status_query_def mbim_register_state_query_def
    mbim_packet_service_set_def mbim_query_connect_def
  by (rule command_ids; auto intro!: with_info_ids read_ids)+

lemma set_connect_ids: "ids_ok s \<Longrightarrow> pred_option ok2 (mbim_set_connect b i s)"
  unfolding mbim_set_connect_def
  by (rule keeps_any, rule command_ids) (auto intro!: with_info_ids read_ids)

lemma ip_config_ids: "ids_ok s \<Longrightarrow> pred_option ok3 (mbim_ip_config p i s)"
  unfolding mbim_ip_config_def
  by (rule command_ids) (auto simp: ip_config_answer_def split: sum.split prod.split intro!: keeps_any)

section \<open>The table and its runs\<close>

lemma open_tries_ids: "ids_ok s \<Longrightarrow> pred_option ok2 (open_tries n e s)"
  by (induction n arbitrary: e s) (auto intro!: keeps_bind2 [OF open_device_ids])

lemma proxy_configure_ids:
  assumes "ids_ok s"
  shows "pred_option ok2 (mbim_proxy_configure dev s)"
  unfolding mbim_proxy_configure_def Let_def
proof (rule keeps_any)
  fix x assume x: "compose_basic_connect_command 1 1 None (12 + length dev * 2) s = Some x"
  obtain req s1 where x1: "x = (req, s1)" by (cases x)
  have c: "composed req s1" using compose_composed [OF assms, of 1 1 None "12 + length dev * 2"] x x1 by simp
  have l: "length req = 60 + length dev * 2" using compose_length [of 1 1 None _ s req s1] x x1 by simp
  have w: "length (char2wchar dev (length dev * 2)) = length dev * 2"
    by (simp add: char2wchar_def wide_def length_concat comp_def sum_list_triv)
  show "pred_option ok2 (case x of (req, s) \<Rightarrow> do {
     u \<leftarrow> str2uuid UUID_LIBMBIM_PROXY;
     a \<leftarrow> mbim_transact mbim_default_timeout (overwrite 48 (le32 12 @ le32 (of_nat (length (char2wchar dev (length dev * 2))))
       @ le32 15 @ char2wchar dev (length dev * 2)) (overwrite 20 u req), s);
     Some (case a of (Inl e, s) \<Rightarrow> (e, s) | (Inr _, s) \<Rightarrow> (0, s)) })"
    unfolding x1 prod.case
  proof (rule keeps_any)
    fix u assume u: "str2uuid UUID_LIBMBIM_PROXY = Some u"
    have "composed (overwrite 20 u req) s1"
      by (rule composed_overwrite [OF c]) (use str2uuid_length [OF u] l in simp_all)
    then have "composed (overwrite 48 (le32 12 @ le32 (of_nat (length (char2wchar dev (length dev * 2))))
       @ le32 15 @ char2wchar dev (length dev * 2)) (overwrite 20 u req)) s1"
      by (rule composed_overwrite) (use str2uuid_length [OF u] l w in simp_all)
    from transact_ids [OF this]
    show "pred_option ok2 (do { a \<leftarrow> mbim_transact mbim_default_timeout (overwrite 48 (le32 12 @
        le32 (of_nat (length (char2wchar dev (length dev * 2)))) @ le32 15 @ char2wchar dev (length dev * 2))
        (overwrite 20 u req), s1); Some (case a of (Inl e, s) \<Rightarrow> (e, s) | (Inr _, s) \<Rightarrow> (0, s)) })"
      by (rule keeps_bind) (auto split: sum.splits)
  qed
qed

lemma prepare_ids: "ids_ok s \<Longrightarrow> pred_option ok3 (prepare_device p s)"
  unfolding prepare_device_def Let_def
  by (rule keeps_bind [OF caps_ids], assumption)
    (auto split: if_splits intro!: keeps_if keeps_bind2 [OF device_services_ids] keeps_bind2 [OF radio_ids])

lemma mbim_init_ids: "ids_ok s \<Longrightarrow> pred_option ok3 (mbim_init p s)"
  unfolding mbim_init_def through_libmbim_def
  by (rule keeps_bind2 [of ids_ok])
    (auto intro!: proxy_configure_ids keeps_bind2 [OF open_tries_ids] prepare_ids)

lemma registration_ids: "ids_ok s \<Longrightarrow> pred_option ok3 (mbim_requestRegistrationState a s)"
  unfolding mbim_requestRegistrationState_def ask_attach_def Let_def
  by (rule keeps_bind2 [OF query_ids(2)], assumption)
    (auto intro!: keeps_if keeps_bind2 [OF packet_service_ids] keeps_bind2 [OF query_ids(3)])

interpretation mbim_identifiers: table_invariant mbim_ops ids_ok
proof
  fix s p fam a st g h sim i
  assume s: "ids_ok s"
  show "pred_option ok3 (opSetupDataCall mbim_ops p fam s)" using s
    by (auto simp: mbim_requestSetupDataCall_def intro!: keeps_bind2 [OF set_connect_ids])
  show "pred_option ok3 (opGetIPAddress mbim_ops p fam s)" using s
    by (simp add: mbim_requestGetIPAddress_def ip_config_ids)
  show "pred_option ok2 (opDeactivateDefaultPDP mbim_ops p fam s)" using s
    by (simp add: mbim_requestDeactivateDefaultPDP_def set_connect_ids)
  show "pred_option ok3 (opRegistrationState mbim_ops a s)" using s
    by (simp add: mbim_ops_def registration_ids)
  show "pred_option ok3 (opQueryDataCall mbim_ops st fam s)" using s
    by (auto simp: mbim_requestQueryDataCall_def intro!: keeps_bind2 [OF query_ids(4)])
  show "pred_option ok3 (g p s)" if "opBaseBandVersion mbim_ops = Some g" using that s
    by (auto simp: mbim_ops_def mbim_requestBaseBandVersion_def)
  show "pred_option ok3 (g p s)" if "dev_init mbim_ops = Some g" using that s
    by (auto simp: mbim_ops_def mbim_init_ids)
  show "pred_option ok3 (h sim s)" if "opGetSIMStatus mbim_ops = Some h" using that s
    by (auto simp: mbim_ops_def mbim_requestGetSIMStatus_def Let_def intro!: keeps_bind2 [OF query_ids(1)])
  show "pred_option ids_ok (i s)" if "dev_deinit mbim_ops = Some i" using that s close_device_ids [OF s]
    by (cases "mbim_close_device s") (auto simp: mbim_ops_def mbim_deinit_def)
qed (simp_all add: mbim_ops_def)

text \<open>
  Property C11 (bounds): in one pass through \<open>qmi_main\<close> over MBIM, its start and its loop, that
  begins with the counter between 1 and \<open>0x1000000\<close>, as the first pass of the program does with 1,
  every transaction identifier that is written to the device is between 1 and \<open>0xFFFFFF\<close>, however
  many commands there are, whatever the device answers and whenever it goes away: the upper byte,
  which the MBIM proxy uses for the number of its client, is never touched. (The counter is kept
  for a later pass. Commands that are refused because the device is gone still count, so a pass
  can leave it above the range, and then the next pass is not covered.)
\<close>

theorem mbim_identifiers_fit_proxy:
  assumes "qmi_main_start mbim_ops en m0 = Some (Inr m)" "qmi_main_run mbim_ops ss m = Some m'"
    and "mbim_sent (transport m0) = []" "1 \<le> mbTransactionId (transport m0)"
    "mbTransactionId (transport m0) \<le> 0x1000000"
    and "q \<in> set (mbim_sent (transport m'))" "rd32 q 8 = Some t"
  shows "1 \<le> t \<and> t \<le> 0xFFFFFF"
proof -
  have "ids_ok (transport m0)" using assms(3-5) by (simp add: ids_ok_def sent_ok_def)
  from mbim_identifiers.run_from_start_I [OF this assms(1,2)] assms(6,7) show ?thesis
    by (auto simp: ids_ok_def sent_ok_def small_tid_def)
qed

text \<open>The program over MBIM up to its loop, and the identifiers it has used.\<close>

lemma m_mbim_started:
  "\<exists>m m'. qmi_main_start mbim_ops connected_env m_mbim = Some (Inr m) \<and>
    qmi_main_run mbim_ops [UnixSignal False] m = Some m' \<and>
    map (\<lambda>q. rd32 q 8) (mbim_sent (transport m')) = [Some 1, Some 2, Some 3, Some 4]"
proof -
  have "(case qmi_main_start mbim_ops connected_env m_mbim of
      Some (Inr m) \<Rightarrow> (case qmi_main_run mbim_ops [UnixSignal False] m of
        Some m' \<Rightarrow> map (\<lambda>q. rd32 q 8) (mbim_sent (transport m')) = [Some 1, Some 2, Some 3, Some 4] | None \<Rightarrow> False)
    | _ \<Rightarrow> False)"
    by code_simp
  then show ?thesis by (auto split: option.splits sum.splits)
qed

lemma mbim_identifiers_fit_proxy_witness:
  "\<exists>m m' q. qmi_main_start mbim_ops connected_env m_mbim = Some (Inr m) \<and>
    qmi_main_run mbim_ops [UnixSignal False] m = Some m' \<and> q \<in> set (mbim_sent (transport m')) \<and>
    rd32 q 8 = Some 4 \<and> 1 \<le> (4 :: u32) \<and> (4 :: u32) \<le> 0xFFFFFF"
proof -
  obtain m m' where m: "qmi_main_start mbim_ops connected_env m_mbim = Some (Inr m)"
      "qmi_main_run mbim_ops [UnixSignal False] m = Some m'"
      "map (\<lambda>q. rd32 q 8) (mbim_sent (transport m')) = [Some 1, Some 2, Some 3, Some 4]"
    using m_mbim_started by (elim exE conjE) (rule that)
  have "Some 4 \<in> set (map (\<lambda>q. rd32 q 8) (mbim_sent (transport m')))" unfolding m(3) by simp
  then obtain q where q: "q \<in> set (mbim_sent (transport m'))" "rd32 q 8 = Some 4" by auto
  have "1 \<le> (4 :: u32) \<and> (4 :: u32) \<le> 0xFFFFFF"
    by (rule mbim_identifiers_fit_proxy [OF m(1,2) _ _ _ q]) (simp_all add: m_mbim_def mbim_idle_def)
  with m q show ?thesis by blast
qed

end
