(* ===== verification/MbimCall.thy ===== *)
theory MbimCall
  imports ConnMbim ConnCheck
begin

text \<open>
  A check of the call over MBIM, end to end: the one command that is sent, the modem's answer, the
  connection states that follow from it, and the interface.
\<close>

section \<open>Fields of commands and answers\<close>

lemma rd32_behind: "rd32 (le32 a @ xs) (4 + n) = rd32 xs n"
  using rd32_append2 [of "le32 a" xs n] by simp

lemma rd32_at4: "rd32 (le32 a @ le32 b @ xs) 4 = Some b"
  using rd32_behind [of a "le32 b @ xs" 0] by (simp add: rd32_le32)

lemma rd32_at8: "rd32 (le32 a @ le32 b @ le32 c @ xs) 8 = Some c"
  using rd32_behind [of a "le32 b @ le32 c @ xs" 4] by (simp add: rd32_at4)

lemma mb_done_fields:
  fixes tid sid st :: u32 and rest :: "byte list"
  assumes "length rest < 2 ^ 16"
  defines "r \<equiv> mb_done tid (le32 sid @ le32 st @ rest)"
  shows "rd32 r 0 = Some 0x80000003" "rd32 r 4 = Some (of_nat (length r))" "rd32 r 8 = Some tid"
    "rd32 r 40 = Some 0" "rd32 r 44 = Some (of_nat (8 + length rest))" "rd32 r 52 = Some st"
    "length r = 56 + length rest"
proof -
  let ?i = "le32 sid @ le32 st @ rest"
  let ?t = "le32 0 @ le32 0 @ le32 (of_nat (length ?i)) @ ?i"
  have r: "r = (le32 0x80000003 @ le32 (of_nat (48 + length ?i)) @ le32 tid @ le32 1 @ le32 0 @ replicate 16 0) @ ?t"
    by (simp add: r_def mb_done_def)
  show len: "length r = 56 + length rest" by (simp add: r)
  show "rd32 r 0 = Some 0x80000003" "rd32 r 4 = Some (of_nat (length r))" "rd32 r 8 = Some tid"
    unfolding len by (simp_all add: r rd32_le32 rd32_at4 rd32_at8)
  have tail: "rd32 r (36 + n) = rd32 ?t n" for n
    unfolding r using rd32_append2 [of "le32 0x80000003 @ le32 (of_nat (48 + length ?i)) @ le32 tid @ le32 1 @ le32 0 @ replicate 16 0" ?t n]
    by simp
  show "rd32 r 40 = Some 0" using tail [of 4] by (simp add: rd32_at4)
  show "rd32 r 44 = Some (of_nat (8 + length rest))" using tail [of 8] by (simp add: rd32_at8)
  have "rd32 ?t 16 = rd32 (le32 (of_nat (length ?i)) @ ?i) 8"
    using rd32_behind [of 0 "le32 0 @ le32 (of_nat (length ?i)) @ ?i" 12] rd32_behind [of 0 "le32 (of_nat (length ?i)) @ ?i" 8] by simp
  then show "rd32 r 52 = Some st" using tail [of 16] by (simp add: rd32_at8)
qed

text \<open>The query of the connection as it is sent.\<close>

definition connect_query :: "mbim \<Rightarrow> byte list \<Rightarrow> bool" where
  "connect_query s q \<longleftrightarrow> length q = 108 \<and> rd32 q 0 = Some 3 \<and> rd32 q 8 = Some (mbTransactionId s) \<and>
     rd32 q 36 = Some 12 \<and> rd32 q 40 = Some 0 \<and> rd32 q 48 = Some (of_int (mbim_sessionID s))"

lemma basic_uuid: "\<exists>u. str2uuid UUID_BASIC_CONNECT = Some u \<and> length u = 16"
proof -
  have "map_option length (str2uuid UUID_BASIC_CONNECT) = Some 16" by code_simp
  then show ?thesis by auto
qed

lemma connect_query_composed:
  "\<exists>q. compose_basic_connect_command 12 0 (Some (stack_struct (mbim_sessionID s) s)) 60 s =
      Some (q, s\<lparr>mbTransactionId := mbTransactionId s + 1\<rparr>) \<and> connect_query s q \<and> rd32 q 4 = Some 108"
proof -
  obtain u where u: "str2uuid UUID_BASIC_CONNECT = Some u" "length u = 16" using basic_uuid by blast
  let ?h = "le32 3 @ le32 108 @ le32 (mbTransactionId s) @ le32 1 @ le32 0 @ u"
  let ?t = "le32 12 @ le32 0 @ le32 60 @ le32 (of_int (mbim_sessionID s)) @ map (uninit s) [4..<60]"
  have tail: "rd32 (?h @ ?t) (36 + n) = rd32 ?t n" for n
    using rd32_append2 [of ?h ?t n] u(2) by simp
  have t8: "rd32 ?t 12 = Some (of_int (mbim_sessionID s))"
    using rd32_behind [of 12 "le32 0 @ le32 60 @ le32 (of_int (mbim_sessionID s)) @ map (uninit s) [4..<60]" 8] by (simp add: rd32_at8)
  have "connect_query s (?h @ ?t)"
    using tail [of 0] tail [of 4] tail [of 12] t8 u(2)
    by (simp add: connect_query_def rd32_le32 rd32_at4 rd32_at8)
  moreover have "rd32 (?h @ ?t) 4 = Some 108" by (simp add: rd32_at4)
  moreover have "compose_basic_connect_command 12 0 (Some (stack_struct (mbim_sessionID s) s)) 60 s =
      Some (?h @ ?t, s\<lparr>mbTransactionId := mbTransactionId s + 1\<rparr>)"
    by (simp add: compose_basic_connect_command_def stack_struct_def u)
  ultimately show ?thesis by blast
qed

section \<open>The query of the call\<close>

text \<open>A modem at the other end, and what it answers to the next command.\<close>

definition answers_next :: "byte list \<Rightarrow> mbim_env list \<Rightarrow> mbim \<Rightarrow> bool" where
  "answers_next r es s \<longleftrightarrow> 0 < mbim_fd s \<and> reader_alive s \<and> mbTransactionId s \<noteq> 0x1000000 \<and> mbim_envs s = mb_replies r # es"

lemma query_connect_answered:
  assumes "answers_next (mb_done (mbTransactionId s) (le32 sid @ le32 st @ rest)) es s" "length rest < 2 ^ 16"
  shows "\<exists>q s'. mbim_query_connect (mbim_sessionID s) s = Some (0, s') \<and> ActivationState s' = st \<and>
    mbim_sent s' = mbim_sent s @ [q] \<and> connect_query s q \<and> mbim_envs s' = es"
proof -
  let ?r = "mb_done (mbTransactionId s) (le32 sid @ le32 st @ rest)"
  note f = mb_done_fields [OF assms(2), of "mbTransactionId s" sid st]
  have s: "0 < mbim_fd s" "reader_alive s" "mbTransactionId s \<noteq> 0x1000000" "mbim_envs s = mb_replies ?r # es"
    using assms(1) by (simp_all add: answers_next_def)
  obtain q where q: "compose_basic_connect_command 12 0 (Some (stack_struct (mbim_sessionID s) s)) 60 s =
      Some (q, s\<lparr>mbTransactionId := mbTransactionId s + 1\<rparr>)" "connect_query s q" "rd32 q 4 = Some 108"
    using connect_query_composed by blast
  have q8: "rd32 q 8 = Some (mbTransactionId s)" "length q = 108" using q(2) by (simp_all add: connect_query_def)
  let ?s = "s\<lparr>mbTransactionId := mbTransactionId s + 1, mbim_envs := es\<rparr>"
  let ?w = "?s\<lparr>mbim_pRequest := Some q, mbim_pResponse := None, mbim_sent := mbim_sent s @ [q]\<rparr>"
  have small: "unat (of_nat n :: u32) = n" if "n < 2 ^ 17" for n using that by (simp add: unat_of_nat)
  have "unat (of_nat (length ?r) :: u32) = length ?r" by (rule small) (use f(7) assms(2) in simp)
  then have whole: "rdn ?r 0 (unat (of_nat (length ?r) :: u32)) = Some ?r" by (simp only:) (simp add: rdn_def)
  have arrive: "mbim_arrivals [MbMessage ?r] ?w = Some (?w\<lparr>mbim_pResponse := Some ?r\<rparr>)"
    using s(2) q8 f(2,3) whole by (simp add: mbim_arrive_def mbim_recv_command_def mb_answers_def)
  have "mbim_wait mbim_default_timeout [([MbMessage ?r], 0)] ?w = Some (0, ?w\<lparr>mbim_pResponse := Some ?r\<rparr>)"
    using arrive by (simp add: mbim_wait_def mbim_default_timeout_def Let_def ETIMEDOUT_def del: mbim_arrivals.simps)
  then have sent: "mbim_send_command q mbim_default_timeout (s\<lparr>mbTransactionId := mbTransactionId s + 1\<rparr>) =
      Some (0, Some ?r, ?w\<lparr>mbim_pRequest := None, mbim_pResponse := None\<rparr>)"
    using s q8 q(3) by (simp add: mbim_send_command_def mbim_exchange_def renew_tid_def mb_replies_def rdn_def Let_def)
  have "mbim_check_err 0 (Some ?r) = Some None"
    using f(1,4) by (simp add: mbim_check_err_def mbim_status_code_def)
  then have answer: "mbim_transact mbim_default_timeout (q, s\<lparr>mbTransactionId := mbTransactionId s + 1\<rparr>) =
      Some (Inr ?r, ?w\<lparr>mbim_pRequest := None, mbim_pResponse := None\<rparr>)"
    using sent by (simp add: mbim_transact_def)
  have "(of_nat (8 + length rest) :: u32) \<noteq> 0"
    using small [of "8 + length rest"] assms(2) by fastforce
  then have "mbim_query_connect (mbim_sessionID s) s =
      Some (0, mbim_update_state (?w\<lparr>mbim_pRequest := None, mbim_pResponse := None, ActivationState := st\<rparr>))"
    using q(1) answer f(5,6) by (simp add: mbim_query_connect_def with_info_def read_connect_def)
  then show ?thesis using q(2) by (simp add: mbim_update_state_def)
qed

section \<open>The check\<close>

lemma link_change_transport: "transport (usbnet_link_change ops link m) = transport m"
  by (auto simp: usbnet_link_change_def udhcpc_start_def Let_def split: option.split)

lemma check_link_transport: "transport (check_link ops m) = transport m"
  by (simp add: check_link_def link_change_transport)

lemma signal_transport: "transport (send_signo_to_main g m) = transport m"
  by (simp add: send_signo_to_main_def)

text \<open>The states of a call by its activation state: 0 is unknown, 1 activated.\<close>

definition call_state :: "u32 \<Rightarrow> byte" where
  "call_state st = (if st = 0 then 0 else if st = 1 then 2 else 1)"

text \<open>
  Property C10 (functional): a check over MBIM follows the modem. With an IPv4 call that is not known to be
  lost, a check sends exactly one command, the query of the program's session. An answer with
  activation state 1 makes the call connected, 0 unknown, and any other state, also activating,
  disconnected; IPv6 shares the call when it is enabled and was not lost. The interface
  is then configured for the families that are connected (16, 64 or 80), goes down when both are
  disconnected, and stays as it was otherwise; and the next dial is due at once exactly when an
  enabled family is disconnected. The modem is attached and answers this command,
  and the call has its address.
\<close>

theorem mbim_check_follows_modem:
  fixes m :: "mbim main"
  defines "s \<equiv> transport m"
  assumes "answers_next (mb_done (mbTransactionId s) (le32 sid @ le32 st @ rest)) es s" "length rest < 2 ^ 16"
    and "PSAttached m = 1" "enable_ipv4 (profile m)" "IPv4ConnectionStatus m \<noteq> 1" "st = 1 \<longrightarrow> Address (ipv4 (profile m)) \<noteq> 0"
  shows "\<exists>m' q. sig_event_check mbim_ops m = Some m' \<and>
    mbim_sent (transport m') = mbim_sent s @ [q] \<and> connect_query s q \<and>
    IPv4ConnectionStatus m' = call_state st \<and>
    IPv6ConnectionStatus m' = (if enable_ipv6 (profile m) \<and> IPv6ConnectionStatus m \<noteq> 1 then call_state st else 1) \<and>
    s_link m' = expected_link (IPv4ConnectionStatus m') (IPv6ConnectionStatus m') (s_link m) \<and>
    net_acts m' = net_acts m @ expected_acts (s_link m) (s_link m') \<and>
    sig_queue m' = sig_queue m @ (if st \<notin> {0, 1} \<or> enable_ipv6 (profile m) \<and> IPv6ConnectionStatus m = 1 then [SIG_EVENT_START] else [])"
proof -
  obtain q s' where q: "mbim_query_connect (mbim_sessionID s) s = Some (0, s')" "ActivationState s' = st"
      "mbim_sent s' = mbim_sent s @ [q]" "connect_query s q"
    using query_connect_answered [OF assms(2,3)] by blast
  let ?v4 = "call_state st"
  let ?v6 = "if enable_ipv6 (profile m) \<and> IPv6ConnectionStatus m \<noteq> 1 then ?v4 else 1"
  let ?a = "m\<lparr>IPv4ConnectionStatus := ?v4, transport := s'\<rparr>"
  let ?b = "?a\<lparr>IPv6ConnectionStatus := ?v6\<rparr>"
  let ?m = "if disconnected (check_link mbim_ops ?b) then send_signo_to_main SIG_EVENT_START (check_link mbim_ops ?b)
    else check_link mbim_ops ?b"
  have st: "connection_status (ActivationState s') = ?v4"
    by (simp add: q(2) connection_status_def call_state_def QWDS_PKT_DATA_CONNECTED_def QWDS_PKT_DATA_DISCONNECTED_def)
  have "do_query_v4 mbim_ops m = Some (0, ?a)"
    using q(1) st by (simp add: do_query_v4_def mbim_requestQueryDataCall_def s_def)
  moreover have "fetch_address mbim_ops ?a = Some ?a"
    using assms(7) by (simp add: fetch_address_def call_state_def QWDS_PKT_DATA_CONNECTED_def)
  moreover have "verify_address mbim_ops ?a = Some ?a"
    by (simp add: verify_address_def check_ipv4_address_def Let_def)
  ultimately have v4: "check_v4 mbim_ops m = Some ?a"
    using assms(5,6) by (simp add: check_v4_def QWDS_PKT_DATA_DISCONNECTED_def)
  have v6: "check_v6 mbim_ops ?a = Some ?b"
    using assms(5) by (simp add: check_v6_def shared_call_def QWDS_PKT_DATA_DISCONNECTED_def)
  have info: "do_info (opGetSignalInfo mbim_ops) m = Some m" "do_info (opGetCellInfoList mbim_ops) m = Some m"
      "do_info (opGetCoexWWANState mbim_ops) m = Some m"
    by (simp_all add: do_info_def mbim_ops_def)
  have check: "sig_event_check mbim_ops m = Some ?m"
    using assms(4) v4 v6 by (simp add: sig_event_check_def info Let_def)
  have sent: "transport ?m = s'" by (simp add: check_link_transport signal_transport)
  have on: "families (profile ?m) = families (profile m)" by (simp add: check_link_families)
  have status: "IPv4ConnectionStatus ?m = ?v4" "IPv6ConnectionStatus ?m = ?v6" by simp_all
  have lost: "call_lost (enable_ipv4 (profile ?m)) (enable_ipv6 (profile ?m)) (IPv4ConnectionStatus ?m) (IPv6ConnectionStatus ?m) \<longleftrightarrow>
      st \<notin> {0, 1} \<or> enable_ipv6 (profile m) \<and> IPv6ConnectionStatus m = 1"
    using on assms(5) unfolding status by (auto simp: call_lost_def families_def call_state_def)
  note r = check_result(1-3) [OF check]
  show ?thesis
    using check q(3,4) r status sent unfolding lost
    by (intro exI [of _ ?m] exI [of _ q] conjI) (simp_all only:)
qed

text \<open>A dual-stack call of which only IPv4 was known: the modem says that it is active, and then that it is not.\<close>

definition m_dual :: "u32 \<Rightarrow> mbim main" where
  "m_dual st = m_mbim\<lparr>profile := profile0\<lparr>enable_ipv4 := True, enable_ipv6 := True, ipv4 := ipv4_zero\<lparr>Address := 0x0A000001\<rparr>\<rparr>,
     transport := mbim_idle [mb_replies (mb_done 1 (le32 0 @ le32 st @ replicate 28 0))],
     IPv4ConnectionStatus := 2, s_link := 16\<rparr>"

lemma mbim_check_follows_modem_witness:
  "(\<exists>m'. sig_event_check mbim_ops (m_dual 1) = Some m' \<and> s_link m' = 80 \<and> net_acts m' = [UdhcpcStart 80] \<and> sig_queue m' = []) \<and>
   (\<exists>m'. sig_event_check mbim_ops (m_dual 3) = Some m' \<and> s_link m' = 0 \<and> net_acts m' = [UdhcpcStop] \<and> sig_queue m' = [SIG_EVENT_START])"
proof -
  have m: "PSAttached (m_dual st) = 1" "enable_ipv4 (profile (m_dual st))" "IPv4ConnectionStatus (m_dual st) \<noteq> 1"
      "st = 1 \<longrightarrow> Address (ipv4 (profile (m_dual st))) \<noteq> 0" "enable_ipv6 (profile (m_dual st))"
      "IPv6ConnectionStatus (m_dual st) = 0" "s_link (m_dual st) = 16" "net_acts (m_dual st) = []" "sig_queue (m_dual st) = []" for st
    by (simp_all add: m_dual_def m_mbim_def)
  have a: "answers_next (mb_done (mbTransactionId (transport (m_dual st))) (le32 0 @ le32 st @ replicate 28 0)) [] (transport (m_dual st))" for st
    by (simp add: answers_next_def m_dual_def mbim_idle_def)
  have l: "length (replicate 28 0 :: byte list) < 2 ^ 16" by simp
  note r = mbim_check_follows_modem [OF a l m(1-4), unfolded m(6-9)]
  show ?thesis using r [of 1] r [of 3] m(5)
    by (auto simp: call_state_def expected_link_def expected_acts_def)
qed

end
