(* ===== verification/QrtrProxy.thy ===== *)
theory QrtrProxy
  imports QmiProxy
begin

text \<open>
  The QRTR proxy (\<open>quectel-qrtr-proxy.c\<close>): it speaks the router protocol of the modem's
  inter-processor link on one side and QMI on the other. It learns the modem's services from
  their announcements, gives every client identifier a port of its own, and answers the control
  requests of its clients itself.

  The linked lists of the code are lists in the order of the links. The receive buffer keeps
  stale bytes behind a short read; \<open>None\<close> is a read or copy outside it. The results of the
  senders are ignored by every caller, so they are not kept: a write is recorded with what it
  writes, the number of uninitialised bytes that pad a packet, and whether the descriptor was
  writable (\<open>qr_ready\<close>). Allocations succeed.
\<close>

section \<open>State\<close>

record qrtr_client =
  qc_QMIType :: byte
  qc_ClientId :: byte
  qc_node_id :: u32
  qc_port_id :: u32

record qrtr_connection =
  qr_ClientFd :: int
  qr_clients :: "qrtr_client list"

record qrtr_service =
  srv_service :: u32
  srv_version :: u32
  srv_instance :: u32
  srv_node :: u32
  srv_port :: u32
  srv_src_node_id :: u32
  srv_src_port_id :: u32

datatype qr_send = DevPacket "byte list" nat bool | ClientMsg int "byte list" bool

record qrtr =
  qr_dev_fd :: int
  qr_server_fd :: int
  qr_connections :: "qrtr_connection list"
  qrtr_server_list :: "qrtr_service list"
  client_bitmap :: "byte list"
  port_bitmap :: "byte list"
  node_modem :: u32
  node_myself :: u32
  qr_quit :: bool
  rx_buf :: "byte list"
  qr_closed :: "int list"
  qr_sends :: "qr_send list"
  qr_ready :: "nat \<Rightarrow> bool"

definition CLIENT_IDS :: nat where "CLIENT_IDS = 0xf0"
definition PORT_IDS :: nat where "PORT_IDS = 0xff0"
definition RX_BUF :: nat where "RX_BUF = 8192"

definition QRTR_NODE_BCAST :: u32 where "QRTR_NODE_BCAST = 0xffffffff"
definition QRTR_PORT_CTRL :: u32 where "QRTR_PORT_CTRL = 0xfffffffe"

definition QRTR_TYPE_DATA :: u32 where "QRTR_TYPE_DATA = 1"
definition QRTR_TYPE_HELLO :: u32 where "QRTR_TYPE_HELLO = 2"
definition QRTR_TYPE_NEW_SERVER :: u32 where "QRTR_TYPE_NEW_SERVER = 4"
definition QRTR_TYPE_DEL_SERVER :: u32 where "QRTR_TYPE_DEL_SERVER = 5"
definition QRTR_TYPE_DEL_CLIENT :: u32 where "QRTR_TYPE_DEL_CLIENT = 6"
definition QRTR_TYPE_RESUME_TX :: u32 where "QRTR_TYPE_RESUME_TX = 7"

definition find_qrtr_service :: "byte \<Rightarrow> qrtr \<Rightarrow> qrtr_service option" where
  "find_qrtr_service t p = List.find (\<lambda>s. srv_service s = ucast t) (qrtr_server_list p)"

section \<open>Identifiers and ports\<close>

text \<open>The first free entry from 1 on, marked with its index, which a byte cuts to 8 bits.\<close>

definition alloc_entry :: "byte list \<Rightarrow> nat \<times> byte list" where
  "alloc_entry b = (case List.find (\<lambda>i. b ! i = 0) [1..<length b] of
       Some i \<Rightarrow> (i, b[i := of_nat i]) | None \<Rightarrow> (0, b))"

definition free_entry :: "nat \<Rightarrow> byte list \<Rightarrow> byte list" where
  "free_entry i b = (if i < length b \<and> unat (b ! i) = i then b[i := 0] else b)"

definition alloc_client_id :: "qrtr \<Rightarrow> nat \<times> qrtr" where
  "alloc_client_id p = (let (i, b) = alloc_entry (client_bitmap p) in (i, p\<lparr>client_bitmap := b\<rparr>))"

definition free_client_id :: "nat \<Rightarrow> qrtr \<Rightarrow> qrtr" where
  "free_client_id i p = p\<lparr>client_bitmap := free_entry i (client_bitmap p)\<rparr>"

definition alloc_port_id :: "qrtr \<Rightarrow> nat \<times> qrtr" where
  "alloc_port_id p = (let (i, b) = alloc_entry (port_bitmap p) in (i, p\<lparr>port_bitmap := b\<rparr>))"

definition free_port_id :: "nat \<Rightarrow> qrtr \<Rightarrow> qrtr" where
  "free_port_id i p = p\<lparr>port_bitmap := free_entry i (port_bitmap p)\<rparr>"

section \<open>Sending\<close>

definition align_4 :: "nat \<Rightarrow> nat" where "align_4 n = (n + 3) div 4 * 4"

definition qr_send_to_client :: "byte list \<Rightarrow> int \<Rightarrow> qrtr \<Rightarrow> qrtr option" where
  "qr_send_to_client pQMI fd p = do {
     len \<leftarrow> rd16 pQMI 1;
     let ok = qr_ready p (length (qr_sends p));
     if ok \<and> length pQMI < unat len + 1 then None
     else Some (p\<lparr>qr_sends := qr_sends p @ [ClientMsg fd (take (unat len + 1) pQMI) ok]\<rparr>) }"

definition send_qrtr_to_dev :: "byte list \<Rightarrow> qrtr \<Rightarrow> qrtr" where
  "send_qrtr_to_dev pkt p = p\<lparr>qr_sends := qr_sends p @
     [DevPacket pkt (align_4 (length pkt) - length pkt) (qr_ready p (length (qr_sends p)))]\<rparr>"

text \<open>A packet with its 32-byte header; addresses are pairs of node and port.\<close>

definition qrtr_packet :: "byte list \<Rightarrow> u32 \<Rightarrow> u32 \<times> u32 \<Rightarrow> u32 \<times> u32 \<Rightarrow> bool \<Rightarrow> byte list" where
  "qrtr_packet data ty from dst confirm = le32 1 @ le32 ty @ le32 (fst from) @ le32 (snd from)
     @ le32 (of_bool confirm) @ le32 (of_nat (length data)) @ le32 (fst dst) @ le32 (snd dst) @ data"

definition qrtr_node_enqueue ::
  "byte list \<Rightarrow> u32 \<Rightarrow> u32 \<times> u32 \<Rightarrow> u32 \<times> u32 \<Rightarrow> bool \<Rightarrow> qrtr \<Rightarrow> qrtr" where
  "qrtr_node_enqueue data ty from dst confirm p = send_qrtr_to_dev (qrtr_packet data ty from dst confirm) p"

text \<open>A control packet body with the address of a client; the union is 16 bytes.\<close>

definition ctrl_pkt :: "u32 \<Rightarrow> u32 \<Rightarrow> u32 \<Rightarrow> byte list" where
  "ctrl_pkt cmd nd pt = le32 cmd @ le32 nd @ le32 pt @ replicate 8 0"

definition send_ctrl_hello :: "u32 \<Rightarrow> u32 \<Rightarrow> qrtr \<Rightarrow> qrtr" where
  "send_ctrl_hello nd pt p = qrtr_node_enqueue (ctrl_pkt QRTR_TYPE_HELLO 0 0) QRTR_TYPE_HELLO
     (node_myself p, QRTR_PORT_CTRL) (nd, pt) False p"

definition ctrl_cmd_del_client :: "u32 \<Rightarrow> u32 \<Rightarrow> byte \<Rightarrow> qrtr \<Rightarrow> qrtr" where
  "ctrl_cmd_del_client nd pt t p =
     (let to_node = (case find_qrtr_service t p of Some s \<Rightarrow> srv_src_node_id s | None \<Rightarrow> QRTR_NODE_BCAST)
      in qrtr_node_enqueue (ctrl_pkt QRTR_TYPE_DEL_CLIENT nd pt) QRTR_TYPE_DATA (nd, pt) (to_node, QRTR_PORT_CTRL) False p)"

section \<open>Services\<close>

text \<open>
  The announcement stands behind the header in the buffer. For a removal the code unlinks the
  node it has just allocated, not the one in the list.
\<close>

definition handle_server_change :: "qrtr \<Rightarrow> qrtr option" where
  "handle_server_change p = do {
     let b = rx_buf p;
     ty \<leftarrow> rd32 b 4; src_node \<leftarrow> rd32 b 8; src_port \<leftarrow> rd32 b 12;
     sv \<leftarrow> rd32 b 36; inst \<leftarrow> rd32 b 40; nd \<leftarrow> rd32 b 44; pt \<leftarrow> rd32 b 48;
     if nd \<noteq> node_modem p then Some p
     else let s = \<lparr>srv_service = sv, srv_version = inst AND 0xff, srv_instance = drop_bit 8 inst,
                    srv_node = nd, srv_port = pt, srv_src_node_id = src_node, srv_src_port_id = src_port\<rparr>
       in Some (if ty = QRTR_TYPE_NEW_SERVER then p\<lparr>qrtr_server_list := qrtr_server_list p @ [s]\<rparr> else p) }"

section \<open>Connections\<close>

fun update_first :: "('a \<Rightarrow> bool) \<Rightarrow> ('a \<Rightarrow> 'a) \<Rightarrow> 'a list \<Rightarrow> 'a list" where
  "update_first P f [] = []"
| "update_first P f (x # xs) = (if P x then f x # xs else x # update_first P f xs)"

definition set_clients :: "int \<Rightarrow> qrtr_client list \<Rightarrow> qrtr \<Rightarrow> qrtr" where
  "set_clients fd cs p = p\<lparr>qr_connections :=
     update_first (\<lambda>c. qr_ClientFd c = fd) (qr_clients_update (\<lambda>_. cs)) (qr_connections p)\<rparr>"

text \<open>The client is kept also when no identifier was left, with identifier 0.\<close>

definition alloc_qrtr_client_id :: "qrtr_connection \<Rightarrow> byte \<Rightarrow> qrtr \<Rightarrow> byte \<times> qrtr" where
  "alloc_qrtr_client_id con t p =
     (let (i, p) = alloc_client_id p; (pt, p) = alloc_port_id p;
          c = \<lparr>qc_QMIType = t, qc_ClientId = of_nat i, qc_node_id = 1, qc_port_id = of_nat pt\<rparr>
      in (of_nat i, set_clients (qr_ClientFd con) (qr_clients con @ [c]) p))"

definition has_id :: "byte \<Rightarrow> byte \<Rightarrow> qrtr_client \<Rightarrow> bool" where
  "has_id t i c \<longleftrightarrow> t = qc_QMIType c \<and> i = qc_ClientId c"

text \<open>What is left of a connection's clients when one is released, and the state then.\<close>

definition release_client :: "byte \<Rightarrow> byte \<Rightarrow> qrtr_client list \<Rightarrow> qrtr \<Rightarrow> qrtr_client list \<times> qrtr" where
  "release_client t i cs p = (case List.find (has_id t i) cs of None \<Rightarrow> (cs, p)
     | Some c \<Rightarrow> (remove_first (has_id t i) cs,
         free_port_id (unat (qc_port_id c)) (free_client_id (unat (qc_ClientId c))
           (ctrl_cmd_del_client (qc_node_id c) (qc_port_id c) (qc_QMIType c) p))))"

definition release_qrtr_client_id :: "qrtr_connection \<Rightarrow> byte \<Rightarrow> byte \<Rightarrow> qrtr \<Rightarrow> qrtr" where
  "release_qrtr_client_id con t i p =
     (let (cs, p) = release_client t i (qr_clients con) p in set_clients (qr_ClientFd con) cs p)"

definition accept_qrtr_connection :: "int \<Rightarrow> qrtr \<Rightarrow> qrtr" where
  "accept_qrtr_connection clientfd p =
     p\<lparr>qr_connections := qr_connections p @ [\<lparr>qr_ClientFd = clientfd, qr_clients = []\<rparr>]\<rparr>"

text \<open>Releasing the head until the list is empty.\<close>

function release_all :: "qrtr_client list \<Rightarrow> qrtr \<Rightarrow> qrtr" where
  "release_all [] p = p"
| "release_all (c # cs) p =
     (let (cs', p') = release_client (qc_QMIType c) (qc_ClientId c) (c # cs) p in release_all cs' p')"
  by pat_completeness auto
termination
  by (relation "measure (\<lambda>(cs, p). length cs)") (auto simp: release_client_def has_id_def)

definition cleanup_qrtr_connection :: "int \<Rightarrow> qrtr \<Rightarrow> qrtr" where
  "cleanup_qrtr_connection fd p = (case List.find (\<lambda>c. qr_ClientFd c = fd) (qr_connections p) of None \<Rightarrow> p
     | Some con \<Rightarrow> let p = release_all (qr_clients con) p in
         p\<lparr>qr_closed := qr_closed p @ [fd],
           qr_connections := remove_first (\<lambda>c. qr_ClientFd c = fd) (qr_connections p)\<rparr>)"

section \<open>Packets from the modem\<close>

text \<open>The log names the type of every packet from a table of 12 entries.\<close>

definition dump_qrtr :: "byte list \<Rightarrow> bool option" where
  "dump_qrtr b = do { ty \<leftarrow> rd32 b 4; if ty < 12 then Some True else None }"

definition to_client_msg :: "qrtr_client \<Rightarrow> byte list \<Rightarrow> byte list" where
  "to_client_msg c data = [0x01] @ le16 (of_nat (length data + 6 - 1)) @ [0x00, qc_QMIType c, qc_ClientId c] @ data"

text \<open>A data packet for every client that has the address it is sent to.\<close>

fun data_to_clients :: "u32 \<Rightarrow> u32 \<Rightarrow> byte list \<Rightarrow> int \<Rightarrow> qrtr_client list \<Rightarrow> qrtr \<Rightarrow> qrtr option" where
  "data_to_clients nd pt data fd [] p = Some p"
| "data_to_clients nd pt data fd (c # cs) p = do {
     p \<leftarrow> (if qc_node_id c = nd \<and> qc_port_id c = pt then qr_send_to_client (to_client_msg c data) fd p else Some p);
     data_to_clients nd pt data fd cs p }"

fun data_to_connections :: "u32 \<Rightarrow> u32 \<Rightarrow> byte list \<Rightarrow> qrtr_connection list \<Rightarrow> qrtr \<Rightarrow> qrtr option" where
  "data_to_connections nd pt data [] p = Some p"
| "data_to_connections nd pt data (con # cons) p = do {
     p \<leftarrow> data_to_clients nd pt data (qr_ClientFd con) (qr_clients con) p;
     data_to_connections nd pt data cons p }"

definition is_client_of :: "u32 \<Rightarrow> u32 \<Rightarrow> qrtr_connection list \<Rightarrow> bool" where
  "is_client_of nd pt cons \<longleftrightarrow> list_ex (\<lambda>con. list_ex (\<lambda>c. qc_node_id c = nd \<and> qc_port_id c = pt) (qr_clients con)) cons"

text \<open>
  The payload is copied only when there is a client for it; it has the announced size, which
  the check of the loop compares with the bytes read only modulo \<open>2 ^ 32\<close>.
\<close>

definition recv_qrtr_data :: "qrtr \<Rightarrow> qrtr option" where
  "recv_qrtr_data p = do {
     let b = rx_buf p;
     src_node \<leftarrow> rd32 b 8; src_port \<leftarrow> rd32 b 12; confirm \<leftarrow> rd32 b 16; size \<leftarrow> rd32 b 20;
     nd \<leftarrow> rd32 b 24; pt \<leftarrow> rd32 b 28;
     p \<leftarrow> (if is_client_of nd pt (qr_connections p) then do {
             data \<leftarrow> rdn b 32 (unat size); data_to_connections nd pt data (qr_connections p) p }
           else Some p);
     Some (if confirm \<noteq> 0
       then qrtr_node_enqueue (ctrl_pkt QRTR_TYPE_RESUME_TX nd pt) QRTR_TYPE_RESUME_TX (nd, pt) (src_node, src_port) False p
       else p) }"

definition recv_qrtr_from_dev :: "qrtr \<Rightarrow> qrtr option" where
  "recv_qrtr_from_dev p = do {
     ty \<leftarrow> rd32 (rx_buf p) 4;
     if ty = QRTR_TYPE_HELLO then do {
       nd \<leftarrow> rd32 (rx_buf p) 8; pt \<leftarrow> rd32 (rx_buf p) 12; Some (send_ctrl_hello nd pt p) }
     else if ty = QRTR_TYPE_NEW_SERVER \<or> ty = QRTR_TYPE_DEL_SERVER then handle_server_change p
     else if ty = QRTR_TYPE_DATA then recv_qrtr_data p
     else Some p }"

section \<open>Messages from a client\<close>

text \<open>The answer the proxy makes itself: a result code and one more TLV.\<close>

definition ctl_answer :: "byte \<Rightarrow> u16 \<Rightarrow> u16 \<Rightarrow> u16 \<Rightarrow> byte list \<Rightarrow> byte list" where
  "ctl_answer tid ty res err tlv2 = [0x01] @ le16 (of_nat (13 + length tlv2 + 6 - 1)) @ [0x00, QMUX_TYPE_CTL, 0x00]
     @ [0x01, tid] @ le16 ty @ le16 (of_nat (7 + length tlv2))
     @ [0x02] @ le16 4 @ le16 res @ le16 err @ tlv2"

definition QMICTL_GET_VERSION_REQ :: u16 where "QMICTL_GET_VERSION_REQ = 0x0021"
definition QMICTL_GET_CLIENT_ID_REQ :: u16 where "QMICTL_GET_CLIENT_ID_REQ = 0x0022"
definition QMICTL_RELEASE_CLIENT_ID_REQ :: u16 where "QMICTL_RELEASE_CLIENT_ID_REQ = 0x0023"

definition answer_get_client_id :: "qrtr_connection \<Rightarrow> int \<Rightarrow> byte \<Rightarrow> qrtr \<Rightarrow> qrtr option" where
  "answer_get_client_id con fd tid p = do {
     t \<leftarrow> rd8 (rx_buf p) 15;
     let (i, p) = (case find_qrtr_service t p of Some _ \<Rightarrow> alloc_qrtr_client_id con t p | None \<Rightarrow> (0, p));
     qr_send_to_client (ctl_answer tid QMICTL_GET_CLIENT_ID_REQ (if i \<noteq> 0 then 0 else 1) (if i \<noteq> 0 then 0 else 3)
       ([0x01] @ le16 2 @ [t, i])) fd p }"

definition answer_release_client_id :: "qrtr_connection \<Rightarrow> int \<Rightarrow> byte \<Rightarrow> qrtr \<Rightarrow> qrtr option" where
  "answer_release_client_id con fd tid p = do {
     t \<leftarrow> rd8 (rx_buf p) 15; i \<leftarrow> rd8 (rx_buf p) 16;
     let p = release_qrtr_client_id con t i p;
     qr_send_to_client (ctl_answer tid QMICTL_RELEASE_CLIENT_ID_REQ 0 0 ([0x01] @ le16 2 @ [t, i])) fd p }"

definition recv_ctl_from_client :: "qrtr_connection \<Rightarrow> int \<Rightarrow> qrtr \<Rightarrow> qrtr option" where
  "recv_ctl_from_client con fd p = do {
     ty \<leftarrow> rd16 (rx_buf p) 8;
     tid \<leftarrow> rd8 (rx_buf p) 7;
     if ty = QMICTL_SYNC_REQ then Some p
     else if ty = QMICTL_GET_CLIENT_ID_REQ then answer_get_client_id con fd tid p
     else if ty = QMICTL_RELEASE_CLIENT_ID_REQ then answer_release_client_id con fd tid p
     else if ty = QMICTL_GET_VERSION_REQ then
       qr_send_to_client (ctl_answer tid ty 0 0 ([0x01] @ le16 1 @ [0])) fd p
     else Some p }"

text \<open>
  A message of a service goes to the port of the service, from the port of the client. The
  length of the payload is computed without sign: an announced length below 5 wraps.
\<close>

definition recv_svc_from_client :: "qrtr_connection \<Rightarrow> byte \<Rightarrow> qrtr \<Rightarrow> qrtr option" where
  "recv_svc_from_client con t p = do {
     i \<leftarrow> rd8 (rx_buf p) 5; len \<leftarrow> rd16 (rx_buf p) 1;
     case List.find (has_id t i) (qr_clients con) of None \<Rightarrow> Some p
     | Some c \<Rightarrow> (case find_qrtr_service t p of None \<Rightarrow> Some p
         | Some s \<Rightarrow>
             if srv_service s = 0 then Some p
             else if unat len + 1 < 6 then None
             else do {
               data \<leftarrow> rdn (rx_buf p) 6 (unat len + 1 - 6);
               Some (qrtr_node_enqueue data QRTR_TYPE_DATA (qc_node_id c, qc_port_id c) (srv_node s, srv_port s) False p) }) }"

text \<open>Without any connection the search leaves its result unset.\<close>

definition qr_recv_qmi_from_client :: "int \<Rightarrow> qrtr \<Rightarrow> (int \<times> qrtr) option" where
  "qr_recv_qmi_from_client fd p =
     (case List.find (\<lambda>c. qr_ClientFd c = fd) (qr_connections p) of
        None \<Rightarrow> if qr_connections p = [] then None else Some (- 1, p)
      | Some con \<Rightarrow> do {
          t \<leftarrow> rd8 (rx_buf p) 4;
          p \<leftarrow> (if t = QMUX_TYPE_CTL then recv_ctl_from_client con fd p else recv_svc_from_client con t p);
          Some (0, p) })"

section \<open>The loop\<close>

definition qr_read :: "byte list \<Rightarrow> qrtr \<Rightarrow> qrtr" where
  "qr_read data p = p\<lparr>rx_buf := overwrite 0 data (rx_buf p)\<rparr>"

definition qr_serve_device :: "byte list \<Rightarrow> qrtr \<Rightarrow> (after \<times> qrtr) option" where
  "qr_serve_device data p =
     (if data = [] then Some (Exit, p)
      else let p = qr_read data p in do {
        size \<leftarrow> rd32 (rx_buf p) 20;
        if length data \<noteq> unat ((size + 32 + 3) AND NOT 3) then Some (Continue, p)
        else do {
          _ \<leftarrow> dump_qrtr (rx_buf p);
          p \<leftarrow> recv_qrtr_from_dev p;
          Some (Continue, p) } })"

definition qr_serve_client :: "int \<Rightarrow> byte list \<Rightarrow> qrtr \<Rightarrow> (after \<times> qrtr) option" where
  "qr_serve_client fd data p =
     (if data = [] then Some (Break, cleanup_qrtr_connection fd p)
      else let p = qr_read data p in do {
        len \<leftarrow> rd16 (rx_buf p) 1;
        if length data \<noteq> unat len + 1 then Some (Continue, p)
        else do { (_, p) \<leftarrow> qr_recv_qmi_from_client fd p; Some (Continue, p) } })"

definition qr_serve_pollfd :: "int \<Rightarrow> fd_event \<Rightarrow> qrtr \<Rightarrow> (after \<times> qrtr) option" where
  "qr_serve_pollfd fd ev p = (case ev of
       Quiet \<Rightarrow> Some (Continue, p)
     | Failed \<Rightarrow> Some (if fd = qr_dev_fd p then (Exit, p)
         else if fd = qr_server_fd p then (Continue, p)
         else (Continue, cleanup_qrtr_connection fd p))
     | Readable acc data \<Rightarrow>
         if fd = qr_server_fd p then Some (Continue, accept_qrtr_connection acc p)
         else if fd = qr_dev_fd p then qr_serve_device data p
         else qr_serve_client fd data p)"

fun qr_serve_pollfds :: "(int \<times> fd_event) list \<Rightarrow> qrtr \<Rightarrow> (bool \<times> qrtr) option" where
  "qr_serve_pollfds [] p = Some (True, p)"
| "qr_serve_pollfds ((fd, ev) # es) p = do {
     (a, p) \<leftarrow> qr_serve_pollfd fd ev p;
     (case a of Continue \<Rightarrow> qr_serve_pollfds es p | Break \<Rightarrow> Some (True, p) | Exit \<Rightarrow> Some (False, p)) }"

definition qr_pollfds :: "qrtr \<Rightarrow> int list" where
  "qr_pollfds p = take 32 (qr_dev_fd p #
     (if 0 < qr_server_fd p then [qr_server_fd p] else []) @ map qr_ClientFd (qr_connections p))"

text \<open>One round of the loop: \<open>poll\<close> fails, or there is an event for each descriptor.\<close>

definition qr_round :: "fd_event list option \<Rightarrow> qrtr \<Rightarrow> (bool \<times> qrtr) option" where
  "qr_round r p = (case r of None \<Rightarrow> Some (False, p)
     | Some evs \<Rightarrow> qr_serve_pollfds (zip (qr_pollfds p) evs) p)"

text \<open>The label at the end of the loop: every connection is cleaned up.\<close>

lemma find_Some_ex: "List.find P xs = Some x \<Longrightarrow> x \<in> set xs \<and> P x"
  by (induction xs) (auto split: if_splits)

lemma release_client_fields [simp]:
  "qr_connections (snd (release_client t i cs p)) = qr_connections p"
  by (simp add: release_client_def free_port_id_def free_client_id_def ctrl_cmd_del_client_def Let_def
      qrtr_node_enqueue_def send_qrtr_to_dev_def split: option.split)

lemma release_all_connections [simp]: "qr_connections (release_all cs p) = qr_connections p"
  by (induction cs p rule: release_all.induct) (auto simp: split_def Let_def)

function qr_loop_exit :: "qrtr \<Rightarrow> qrtr" where
  "qr_loop_exit p = (case qr_connections p of [] \<Rightarrow> p
     | con # _ \<Rightarrow> qr_loop_exit (cleanup_qrtr_connection (qr_ClientFd con) p))"
  by pat_completeness auto
termination
  by (relation "measure (\<lambda>p. length (qr_connections p))")
    (auto simp: cleanup_qrtr_connection_def Let_def split: list.splits)

declare qr_loop_exit.simps [simp del]

fun qrtr_proxy_loop :: "fd_event list option list \<Rightarrow> qrtr \<Rightarrow> (bool \<times> qrtr) option" where
  "qrtr_proxy_loop [] p = Some (True, p)"
| "qrtr_proxy_loop (r # rs) p =
     (if qr_dev_fd p \<le> 0 \<or> qr_quit p then Some (False, qr_loop_exit p)
      else do {
        (go, p) \<leftarrow> qr_round r p;
        if go then qrtr_proxy_loop rs p else Some (False, qr_loop_exit p) })"

section \<open>Starting\<close>

text \<open>
  The start says hello and waits up to ten seconds for a service, while the loop runs: each
  second is the list of its rounds. \<open>alive\<close> says that the loop has not ended.
\<close>

fun wait_for_service :: "nat \<Rightarrow> fd_event list option list list \<Rightarrow> bool \<Rightarrow> qrtr \<Rightarrow> (bool \<times> bool \<times> qrtr) option" where
  "wait_for_service 0 w alive p = Some (False, alive, p)"
| "wait_for_service (Suc n) w alive p = (case w of [] \<Rightarrow> None
     | rs # w \<Rightarrow> do {
         (alive, p) \<leftarrow> (if alive then qrtr_proxy_loop rs p else Some (False, p));
         if qrtr_server_list p \<noteq> [] then Some (True, alive, p) else wait_for_service n w alive p })"

definition qrtr_proxy_init :: "fd_event list option list list \<Rightarrow> qrtr \<Rightarrow> (int \<times> bool \<times> qrtr) option" where
  "qrtr_proxy_init w p = do {
     (done, alive, p) \<leftarrow> wait_for_service 10 w True (send_ctrl_hello QRTR_NODE_BCAST QRTR_PORT_CTRL p);
     Some (if done then 0 else - 1, alive, p) }"

text \<open>
  One turn of \<open>main\<close> for an opened device. \<open>server\<close> is what creating the socket returns and
  \<open>rs\<close> are the rounds up to the end of the loop, which \<open>main\<close> waits for.
\<close>

definition qrtr_session ::
  "int \<Rightarrow> fd_event list option list list \<Rightarrow> int \<Rightarrow> fd_event list option list \<Rightarrow> qrtr \<Rightarrow> qrtr option" where
  "qrtr_session dev w server rs p = do {
     (e, alive, p) \<leftarrow> qrtr_proxy_init w (p\<lparr>qr_dev_fd := dev, qr_connections := [], qrtr_server_list := []\<rparr>);
     p \<leftarrow> (if e = 0 then let p = p\<lparr>qr_server_fd := server\<rparr> in
              if alive then do { (go, p) \<leftarrow> qrtr_proxy_loop rs p; if go then None else Some p } else Some p
           else Some p);
     Some (p\<lparr>qr_server_fd := - 1\<rparr>) }"

end
