(* ===== verification/QrtrProxyProps.thy ===== *)
theory QrtrProxyProps
  imports QrtrProxy "HOL-Library.Multiset"
begin

text \<open>
  What the QRTR proxy's tables promise. The two bitmaps mirror the clients of all connections;
  the table of ports has byte entries although ports go up to 4079, so port 256 can be given out
  any number of times. A counting argument shows that it is given only to clients that were
  refused an identifier: the clients that got one have ports of their own in every run.
\<close>

section \<open>A bitmap and the clients it stands for\<close>

definition users :: "('a \<Rightarrow> nat) \<Rightarrow> nat \<Rightarrow> 'a multiset \<Rightarrow> nat" where
  "users f i M = size {#c \<in># M. f c = i#}"

lemma users_simps [simp]:
  "users f i {#} = 0" "users f i (add_mset c M) = users f i M + of_bool (f c = i)"
  by (simp_all add: users_def)

lemma size_by_value:
  assumes "finite A"
  shows "size {#c \<in># M. f c \<in> A#} = (\<Sum>i\<in>A. users f i M)"
  using assms by (induction M) (simp_all add: sum.distrib of_bool_def)

text \<open>Below \<open>n\<close>, the entries that are set are the numbers in use, each used once.\<close>

definition tracks :: "('a \<Rightarrow> nat) \<Rightarrow> nat \<Rightarrow> byte list \<Rightarrow> 'a multiset \<Rightarrow> bool" where
  "tracks f n b M \<longleftrightarrow> n \<le> length b \<and>
     (\<forall>i\<in>{1..<n}. b ! i \<in> {0, of_nat i} \<and> users f i M = of_bool (b ! i \<noteq> 0))"

lemma tracks_gone:
  assumes "tracks f n b R" "tracks f n b0 (add_mset c (N + R))" "f c \<in> {1..<n}"
  shows "b ! f c = 0"
proof -
  have "users f (f c) R = of_bool (b ! f c \<noteq> 0)" using assms(1,3) unfolding tracks_def by blast
  moreover have "users f (f c) (add_mset c (N + R)) = of_bool (b0 ! f c \<noteq> 0)"
    using assms(2,3) unfolding tracks_def by blast
  then have "Suc (users f (f c) N + users f (f c) R) \<le> 1" by (simp add: users_def)
  ultimately show ?thesis by (auto split: if_splits)
qed

definition used :: "nat \<Rightarrow> byte list \<Rightarrow> nat" where
  "used n b = card {i \<in> {1..<n}. b ! i \<noteq> 0}"

lemma tracks_used:
  assumes "tracks f n b M"
  shows "size {#c \<in># M. f c \<in> {1..<n}#} = used n b"
proof -
  have "(\<Sum>i\<in>{1..<n}. users f i M) = (\<Sum>i\<in>{1..<n}. of_bool (b ! i \<noteq> 0))"
    by (rule sum.cong) (use assms in \<open>auto simp: tracks_def\<close>)
  also have "\<dots> = used n b"
    by (simp only: used_def of_bool_def sum.If_cases finite_atLeastLessThan sum_constant) (simp add: Int_def)
  finally show ?thesis by (simp add: size_by_value del: atLeastLessThan_iff)
qed

lemma used_full: "used n b < n - 1 \<longleftrightarrow> (\<exists>i \<in> {1..<n}. b ! i = 0)"
proof
  assume "used n b < n - 1"
  then have "{i \<in> {1..<n}. b ! i \<noteq> 0} \<noteq> {1..<n}" unfolding used_def by (metis card_atLeastLessThan less_irrefl)
  then show "\<exists>i \<in> {1..<n}. b ! i = 0" by blast
next
  assume "\<exists>i \<in> {1..<n}. b ! i = 0"
  then have "{i \<in> {1..<n}. b ! i \<noteq> 0} \<subset> {1..<n}" by blast
  then show "used n b < n - 1"
    unfolding used_def using psubset_card_mono [OF finite_atLeastLessThan] by (metis card_atLeastLessThan)
qed

lemma used_le: "used n b \<le> n - 1"
  unfolding used_def by (rule order_trans [OF card_mono [of "{1..<n}"]]) auto

lemma of_nat_byte: "0 < i \<Longrightarrow> i < 256 \<Longrightarrow> (of_nat i :: byte) \<noteq> 0"
  by (simp add: word_of_nat_eq_0_iff nat_dvd_not_less)

lemma tracks_add:
  assumes "tracks f n b M" "n \<le> 256" "1 \<le> f c" "f c < n" "b ! f c = 0"
  shows "tracks f n (b[f c := of_nat (f c)]) (add_mset c M)"
proof -
  have "(of_nat (f c) :: byte) \<noteq> 0" by (rule of_nat_byte) (use assms in auto)
  then show ?thesis using assms by (auto simp: tracks_def nth_list_update)
qed

lemma tracks_add_other: "tracks f n b M \<Longrightarrow> f c = 0 \<or> n \<le> f c \<Longrightarrow> tracks f n b (add_mset c M)"
  by (auto simp: tracks_def)

lemma tracks_entry:
  assumes "tracks f n b (add_mset c M)" "1 \<le> f c" "f c < n"
  shows "b ! f c = of_nat (f c)"
proof -
  have "f c \<in> {1..<n}" using assms(2,3) by simp
  with assms(1) have "b ! f c \<in> {0, of_nat (f c)}" "users f (f c) (add_mset c M) = of_bool (b ! f c \<noteq> 0)"
    unfolding tracks_def by blast+
  then show ?thesis by (auto split: if_splits)
qed

lemma tracks_sub:
  assumes "tracks f n b (add_mset c M)" "f c < n"
  shows "tracks f n (b[f c := 0]) M"
  using assms by (auto simp: tracks_def nth_list_update)

lemma tracks_sub_other: "tracks f n b (add_mset c M) \<Longrightarrow> f c = 0 \<or> n \<le> f c \<Longrightarrow> tracks f n b M"
  by (auto simp: tracks_def)

section \<open>The tables of the proxy\<close>

definition cid :: "qrtr_client \<Rightarrow> nat" where "cid c = unat (qc_ClientId c)"
definition port :: "qrtr_client \<Rightarrow> nat" where "port c = unat (qc_port_id c)"

text \<open>At most 16 of the clients without an identifier hold one of the 255 real ports.\<close>

definition client_ok :: "qrtr_client \<Rightarrow> bool" where
  "client_ok c \<longleftrightarrow> cid c < 240 \<and> 1 \<le> port c \<and> port c \<le> 256 \<and> (port c = 256 \<longrightarrow> cid c = 0) \<and> qc_node_id c = 1"

definition table_ok :: "qrtr_client multiset \<Rightarrow> byte list \<Rightarrow> byte list \<Rightarrow> bool" where
  "table_ok M cb pb \<longleftrightarrow> length cb = CLIENT_IDS \<and> length pb = PORT_IDS \<and> cb ! 0 = 0 \<and> pb ! 256 = 0 \<and>
     tracks cid 240 cb M \<and> tracks port 256 pb M \<and> (\<forall>c\<in>#M. client_ok c) \<and>
     size {#c \<in># M. cid c = 0 \<and> port c < 256#} \<le> 16"

lemma size_filter_split: "size {#c \<in># M. P c#} = size {#c \<in># M. Q c \<and> P c#} + size {#c \<in># M. \<not> Q c \<and> P c#}"
  by (induction M) auto

lemma size_filter_le: "\<forall>c\<in>#M. P c \<longrightarrow> Q c \<Longrightarrow> size {#c \<in># M. P c#} \<le> size {#c \<in># M. Q c#}"
  by (induction M) auto

lemma size_filter_eq: "\<forall>c\<in>#M. P c \<longleftrightarrow> Q c \<Longrightarrow> size {#c \<in># M. P c#} = size {#c \<in># M. Q c#}"
  by (simp add: size_filter_le eq_iff)

text \<open>The ports in use are those of the clients with an identifier and of the others.\<close>

lemma ports_used:
  assumes "table_ok M cb pb"
  shows "used 256 pb = used 240 cb + size {#c \<in># M. cid c = 0 \<and> port c < 256#}"
proof -
  have ok: "\<forall>c\<in>#M. client_ok c" using assms by (simp add: table_ok_def)
  have "used 256 pb = size {#c \<in># M. port c \<in> {1..<256}#}"
    using assms tracks_used [of port 256 pb M] by (simp only: table_ok_def)
  also have "\<dots> = size {#c \<in># M. cid c = 0 \<and> port c \<in> {1..<256}#} + size {#c \<in># M. \<not> cid c = 0 \<and> port c \<in> {1..<256}#}"
    by (rule size_filter_split)
  also have "size {#c \<in># M. cid c = 0 \<and> port c \<in> {1..<256}#} = size {#c \<in># M. cid c = 0 \<and> port c < 256#}"
    by (rule size_filter_eq) (use ok in \<open>auto simp: client_ok_def\<close>)
  also have "size {#c \<in># M. \<not> cid c = 0 \<and> port c \<in> {1..<256}#} = size {#c \<in># M. cid c \<in> {1..<240}#}"
    by (rule size_filter_eq) (use ok in \<open>fastforce simp: client_ok_def\<close>)
  also have "\<dots> = used 240 cb"
    using assms tracks_used [of cid 240 cb M] by (simp only: table_ok_def)
  finally show ?thesis by simp
qed

lemma find_None_all: "List.find P xs = None \<Longrightarrow> \<forall>x\<in>set xs. \<not> P x"
  by (induction xs) (auto split: if_splits)

lemma alloc_entry_cases:
  assumes "alloc_entry b = (i, b')"
  obtains (full) "i = 0" "b' = b" "\<forall>j\<in>{1..<length b}. b ! j \<noteq> 0"
  | (found) "1 \<le> i" "i < length b" "b ! i = 0" "b' = b[i := of_nat i]" "\<forall>j\<in>{1..<i}. b ! j \<noteq> 0"
proof (cases "List.find (\<lambda>i. b ! i = 0) [1..<length b]")
  case None
  then show thesis using assms full find_None_all [OF None] by (auto simp: alloc_entry_def)
next
  case (Some k)
  then obtain n where n: "n < length [1..<length b]" "b ! ([1..<length b] ! n) = 0" "k = [1..<length b] ! n"
      "\<forall>m<n. b ! ([1..<length b] ! m) \<noteq> 0"
    by (auto simp: find_Some_iff)
  then have k: "k = Suc n" "k < length b" by simp_all
  have "\<forall>j\<in>{1..<k}. b ! j \<noteq> 0"
  proof
    fix j assume j: "j \<in> {1..<k}"
    then have "j - 1 < n" "[1..<length b] ! (j - 1) = j" using k by auto
    then show "b ! j \<noteq> 0" using n(4) by metis
  qed
  then show thesis using found assms n k Some by (auto simp: alloc_entry_def)
qed

lemma unat_of_nat_byte: "i < 256 \<Longrightarrow> unat (of_nat i :: byte) = i"
  by (simp add: unat_of_nat)

lemma unat_of_nat_u32: "i < 2 ^ 32 \<Longrightarrow> unat (of_nat i :: u32) = i"
  by (simp add: unat_of_nat)

text \<open>A new client keeps the tables: with an identifier it gets a real port.\<close>

lemma table_alloc:
  assumes ok: "table_ok M cb pb" and cb: "alloc_entry cb = (i, cb')" and pb: "alloc_entry pb = (k, pb')"
    and c: "c = \<lparr>qc_QMIType = t, qc_ClientId = of_nat i, qc_node_id = 1, qc_port_id = of_nat k\<rparr>"
  shows "table_ok (add_mset c M) cb' pb'"
proof -
  let ?bad = "size {#c \<in># M. cid c = 0 \<and> port c < 256#}"
  have len: "length cb = 240" "length pb = 4080" and z: "pb ! 256 = 0" "cb ! 0 = 0" and bad: "?bad \<le> 16"
    and tr: "tracks cid 240 cb M" "tracks port 256 pb M"
    using ok by (simp_all add: table_ok_def CLIENT_IDS_def PORT_IDS_def)
  have k: "1 \<le> k" "k < 4080" "pb ! k = 0" "pb' = pb[k := of_nat k]" "\<forall>j\<in>{1..<k}. pb ! j \<noteq> 0"
    using pb len z by (auto elim!: alloc_entry_cases)
  have k256: "k \<le> 256" using k(5) z(1) by (meson atLeastLessThan_iff linorder_not_le one_le_numeral)
  have i: "i < 240" using cb len by (auto elim!: alloc_entry_cases)
  have cp: "cid c = i" "port c = k"
    using c i k256 by (simp_all add: cid_def port_def unat_of_nat_byte unat_of_nat_u32)
  have free: "used 256 pb < 255" if "k < 256"
    using used_full [of 256 pb] k that by auto
  have full: "used 256 pb = 255" if "k = 256"
  proof -
    have "\<not> used 256 pb < 256 - 1" using used_full [of 256 pb] k(5) that by auto
    moreover have "used 256 pb \<le> 256 - 1" by (rule used_le)
    ultimately show ?thesis by simp
  qed
  have trp: "tracks port 256 pb' (add_mset c M)"
  proof (cases "k = 256")
    case True
    then have "pb' = pb" using k(4) z(1) len by (simp add: list_update_same_conv)
    then show ?thesis using tracks_add_other [OF tr(2), of c] cp True by simp
  next
    case False
    then show ?thesis using tracks_add [OF tr(2), of c] cp k k256 by simp
  qed
  from cb show ?thesis
  proof (cases rule: alloc_entry_cases)
    case full
    then have "\<not> used 240 cb < 240 - 1" using used_full [of 240 cb] len by auto
    then have "?bad < 16" if "k < 256" using free [OF that] ports_used [OF ok] by simp
    moreover have "tracks cid 240 cb' (add_mset c M)"
      using tracks_add_other [OF tr(1), of c] cp full by simp
    ultimately show ?thesis using ok trp full cp k k256 bad c by (auto simp: table_ok_def client_ok_def PORT_IDS_def nth_list_update)
  next
    case found
    then have "used 240 cb < 239" using used_full [of 240 cb] i by auto
    then have k': "k < 256" using full k256 ports_used [OF ok] bad by fastforce
    moreover have "tracks cid 240 cb' (add_mset c M)"
      using tracks_add [OF tr(1), of c] cp found i by simp
    ultimately show ?thesis using ok trp found cp k i bad c by (auto simp: table_ok_def client_ok_def nth_list_update)
  qed
qed

lemma table_free:
  assumes ok: "table_ok (add_mset c M) cb pb"
  shows "table_ok M (free_entry (cid c) cb) (free_entry (port c) pb)"
proof -
  have cl: "client_ok c" and len: "length cb = 240" "length pb = 4080" and z: "cb ! 0 = 0" "pb ! 256 = 0"
    and tr: "tracks cid 240 cb (add_mset c M)" "tracks port 256 pb (add_mset c M)"
    using ok by (auto simp: table_ok_def CLIENT_IDS_def PORT_IDS_def)
  have id: "free_entry (cid c) cb = cb[cid c := 0]"
  proof (cases "cid c = 0")
    case True
    then show ?thesis using z len by (simp add: free_entry_def list_update_same_conv)
  next
    case False
    then have "cb ! cid c = of_nat (cid c)" using tracks_entry [OF tr(1)] cl by (simp add: client_ok_def)
    then show ?thesis using cl len by (simp add: free_entry_def client_ok_def unat_of_nat_byte)
  qed
  have pt: "free_entry (port c) pb = pb[port c := 0]"
  proof (cases "port c = 256")
    case True
    then show ?thesis using z len list_update_id [of pb 256] by (simp add: free_entry_def)
  next
    case False
    then have "port c < 256" "1 \<le> port c" using cl by (simp_all add: client_ok_def)
    then have "pb ! port c = of_nat (port c)" using tracks_entry [OF tr(2)] by simp
    then show ?thesis using \<open>port c < 256\<close> len by (simp add: free_entry_def unat_of_nat_byte)
  qed
  have "tracks cid 240 (cb[cid c := 0]) M" using tracks_sub [OF tr(1)] cl by (simp add: client_ok_def)
  moreover have "tracks port 256 (pb[port c := 0]) M"
  proof (cases "port c = 256")
    case True
    then show ?thesis using tracks_sub_other [OF tr(2)] z len list_update_id [of pb 256] by simp
  next
    case False
    then show ?thesis using tracks_sub [OF tr(2)] cl by (simp add: client_ok_def)
  qed
  moreover have "size {#c \<in># M. cid c = 0 \<and> port c < 256#} \<le> 16"
    using ok by (auto simp: table_ok_def split: if_splits)
  moreover have "cb[cid c := 0] ! 0 = 0" "pb[port c := 0] ! 256 = 0"
    using z len cl by (simp_all add: nth_list_update client_ok_def)
  ultimately show ?thesis using ok by (auto simp: table_ok_def id pt)
qed

section \<open>Every operation keeps the tables\<close>

definition clients_of :: "qrtr_connection list \<Rightarrow> qrtr_client multiset" where
  "clients_of cons = mset (concat (map qr_clients cons))"

definition qr_ok :: "qrtr \<Rightarrow> bool" where
  "qr_ok p \<longleftrightarrow> table_ok (clients_of (qr_connections p)) (client_bitmap p) (port_bitmap p)"

text \<open>What sending leaves alone.\<close>

definition same_tables :: "qrtr \<Rightarrow> qrtr \<Rightarrow> bool" where
  "same_tables p q \<longleftrightarrow> qr_connections q = qr_connections p \<and> client_bitmap q = client_bitmap p \<and>
     port_bitmap q = port_bitmap p \<and> qrtr_server_list q = qrtr_server_list p"

lemma same_tables_refl [simp]: "same_tables p p"
  by (simp add: same_tables_def)

lemma same_tables_trans: "same_tables p q \<Longrightarrow> same_tables q r \<Longrightarrow> same_tables p r"
  by (simp add: same_tables_def)

lemma qr_ok_same: "same_tables p q \<Longrightarrow> qr_ok q \<longleftrightarrow> qr_ok p"
  by (simp add: same_tables_def qr_ok_def)

lemma qr_send_same: "qr_send_to_client m fd p = Some q \<Longrightarrow> same_tables p q"
  by (auto simp: qr_send_to_client_def same_tables_def bind_eq_Some_conv Let_def split: if_splits)

lemma enqueue_same [simp]: "same_tables p (qrtr_node_enqueue data ty from dst confirm p)"
  by (simp add: qrtr_node_enqueue_def send_qrtr_to_dev_def same_tables_def)

lemma hello_same [simp]: "same_tables p (send_ctrl_hello nd pt p)"
  by (simp add: send_ctrl_hello_def)

lemma del_client_same [simp]: "same_tables p (ctrl_cmd_del_client nd pt t p)"
  by (simp add: ctrl_cmd_del_client_def Let_def)

lemma data_to_clients_same: "data_to_clients nd pt data fd cs p = Some q \<Longrightarrow> same_tables p q"
  by (induction nd pt data fd cs p rule: data_to_clients.induct)
    (fastforce simp: bind_eq_Some_conv dest: qr_send_same intro: same_tables_trans split: if_splits)+

lemma data_to_connections_same: "data_to_connections nd pt data cons p = Some q \<Longrightarrow> same_tables p q"
  by (induction nd pt data cons p rule: data_to_connections.induct)
    (fastforce simp: bind_eq_Some_conv dest: data_to_clients_same intro: same_tables_trans)+

lemma recv_qrtr_data_same: "recv_qrtr_data p = Some q \<Longrightarrow> same_tables p q"
  by (auto simp: recv_qrtr_data_def bind_eq_Some_conv Let_def dest!: data_to_connections_same
      intro: same_tables_trans split: if_splits)

lemma handle_server_change_tables:
  "handle_server_change p = Some q \<Longrightarrow> qr_connections q = qr_connections p \<and>
     client_bitmap q = client_bitmap p \<and> port_bitmap q = port_bitmap p \<and> prefix (qrtr_server_list p) (qrtr_server_list q)"
  by (auto simp: handle_server_change_def bind_eq_Some_conv Let_def split: if_splits)

lemma remove_first_mset: "List.find P cs = Some c \<Longrightarrow> mset cs = add_mset c (mset (remove_first P cs))"
  by (induction cs) (auto split: if_splits)

lemma free_port_fields [simp]:
  "qr_connections (free_port_id i p) = qr_connections p" "client_bitmap (free_port_id i p) = client_bitmap p"
  "port_bitmap (free_port_id i p) = free_entry i (port_bitmap p)" "qrtr_server_list (free_port_id i p) = qrtr_server_list p"
  "qr_sends (free_port_id i p) = qr_sends p"
  by (simp_all add: free_port_id_def)

lemma free_client_fields [simp]:
  "qr_connections (free_client_id i p) = qr_connections p" "port_bitmap (free_client_id i p) = port_bitmap p"
  "client_bitmap (free_client_id i p) = free_entry i (client_bitmap p)"
  "qrtr_server_list (free_client_id i p) = qrtr_server_list p" "qr_sends (free_client_id i p) = qr_sends p"
  by (simp_all add: free_client_id_def)

lemma release_client_table:
  assumes "release_client t i cs p = (cs', p')" "table_ok (mset cs + R) (client_bitmap p) (port_bitmap p)"
  shows "table_ok (mset cs' + R) (client_bitmap p') (port_bitmap p') \<and> qr_connections p' = qr_connections p \<and>
    qrtr_server_list p' = qrtr_server_list p"
proof (cases "List.find (has_id t i) cs")
  case None
  then show ?thesis using assms by (simp add: release_client_def)
next
  case (Some c)
  have same: "same_tables p (ctrl_cmd_del_client (qc_node_id c) (qc_port_id c) (qc_QMIType c) p)" by simp
  show ?thesis
    using assms Some same table_free [of c "mset (remove_first (has_id t i) cs) + R"] remove_first_mset [OF Some]
    by (auto simp: release_client_def same_tables_def cid_def port_def)
qed

lemma release_all_table:
  "table_ok (mset cs + R) (client_bitmap p) (port_bitmap p) \<Longrightarrow>
     table_ok R (client_bitmap (release_all cs p)) (port_bitmap (release_all cs p)) \<and>
     qrtr_server_list (release_all cs p) = qrtr_server_list p"
proof (induction cs p rule: release_all.induct)
  case (2 c cs p)
  obtain cs' p' where r: "release_client (qc_QMIType c) (qc_ClientId c) (c # cs) p = (cs', p')" by fastforce
  from release_client_table [OF r 2(2)] 2(1) [OF r [symmetric]] r show ?case by simp
qed simp

lemma clients_of_split:
  assumes "List.find P cons = Some con"
  shows "\<exists>R. clients_of cons = mset (qr_clients con) + R \<and> clients_of (remove_first P cons) = R \<and>
    (\<forall>cs. clients_of (update_first P (qr_clients_update (\<lambda>_. cs)) cons) = mset cs + R)"
  using assms
proof (induction cons)
  case (Cons x cons)
  show ?case
  proof (cases "P x")
    case True
    then show ?thesis using Cons.prems by (auto simp: clients_of_def)
  next
    case False
    then obtain R where "clients_of cons = mset (qr_clients con) + R" "clients_of (remove_first P cons) = R"
      "\<forall>cs. clients_of (update_first P (qr_clients_update (\<lambda>_. cs)) cons) = mset cs + R"
      using Cons by auto
    then show ?thesis using False by (intro exI [of _ "mset (qr_clients x) + R"]) (simp add: clients_of_def)
  qed
qed simp

lemma set_clients_fields [simp]:
  "client_bitmap (set_clients fd cs p) = client_bitmap p" "port_bitmap (set_clients fd cs p) = port_bitmap p"
  "qrtr_server_list (set_clients fd cs p) = qrtr_server_list p" "qr_sends (set_clients fd cs p) = qr_sends p"
  by (simp_all add: set_clients_def)

text \<open>The connection a handler works on.\<close>

definition con_of :: "int \<Rightarrow> qrtr \<Rightarrow> qrtr_connection option" where
  "con_of fd p = List.find (\<lambda>c. qr_ClientFd c = fd) (qr_connections p)"

lemma con_of_fd: "con_of fd p = Some con \<Longrightarrow> qr_ClientFd con = fd"
  by (auto simp: con_of_def dest: find_Some_ex)

lemma alloc_keeps:
  assumes "con_of fd p = Some con" "qr_ok p"
  shows "qr_ok (snd (alloc_qrtr_client_id con t p))"
proof -
  obtain R where R: "clients_of (qr_connections p) = mset (qr_clients con) + R"
    "\<And>cs. clients_of (update_first (\<lambda>c. qr_ClientFd c = fd) (qr_clients_update (\<lambda>_. cs)) (qr_connections p)) = mset cs + R"
    using clients_of_split assms(1) unfolding con_of_def by blast
  obtain i cb k pb where a: "alloc_entry (client_bitmap p) = (i, cb)" "alloc_entry (port_bitmap p) = (k, pb)"
    by fastforce
  from table_alloc [OF _ a refl, of "clients_of (qr_connections p)" t] assms(2) show ?thesis
    by (simp add: alloc_qrtr_client_id_def alloc_client_id_def alloc_port_id_def a qr_ok_def set_clients_def
        R con_of_fd [OF assms(1)])
qed

lemma release_keeps:
  assumes "con_of fd p = Some con" "qr_ok p"
  shows "qr_ok (release_qrtr_client_id con t i p)"
proof -
  obtain R where R: "clients_of (qr_connections p) = mset (qr_clients con) + R"
    "\<And>cs. clients_of (update_first (\<lambda>c. qr_ClientFd c = fd) (qr_clients_update (\<lambda>_. cs)) (qr_connections p)) = mset cs + R"
    using clients_of_split assms(1) unfolding con_of_def by blast
  obtain cs p' where r: "release_client t i (qr_clients con) p = (cs, p')" by fastforce
  from release_client_table [OF r, of R] assms(2) R show ?thesis
    by (simp add: release_qrtr_client_id_def r qr_ok_def set_clients_def con_of_fd [OF assms(1)])
qed

lemma cleanup_keeps:
  assumes "qr_ok p"
  shows "qr_ok (cleanup_qrtr_connection fd p)"
proof (cases "con_of fd p")
  case None
  then show ?thesis using assms by (simp add: cleanup_qrtr_connection_def con_of_def)
next
  case (Some con)
  then obtain R where R: "clients_of (qr_connections p) = mset (qr_clients con) + R"
    "clients_of (remove_first (\<lambda>c. qr_ClientFd c = fd) (qr_connections p)) = R"
    using clients_of_split unfolding con_of_def by blast
  from release_all_table [of "qr_clients con" R p] assms R Some show ?thesis
    by (simp add: cleanup_qrtr_connection_def con_of_def qr_ok_def Let_def)
qed

section \<open>Every run keeps the tables and the services\<close>

text \<open>
  The invariant of a run: the tables, and that the list of services only grows at its end.
\<close>

definition qr_keeps :: "qrtr \<Rightarrow> qrtr \<Rightarrow> bool" where
  "qr_keeps p q \<longleftrightarrow> (qr_ok p \<longrightarrow> qr_ok q) \<and> prefix (qrtr_server_list p) (qrtr_server_list q)"

lemma qr_keeps_refl [simp]: "qr_keeps p p"
  by (simp add: qr_keeps_def)

lemma qr_keeps_trans: "qr_keeps p q \<Longrightarrow> qr_keeps q r \<Longrightarrow> qr_keeps p r"
  by (auto simp: qr_keeps_def intro: prefix_order.trans)

lemma qr_keeps_same: "same_tables p q \<Longrightarrow> qr_keeps p q"
  using qr_ok_same [of p q] by (simp add: qr_keeps_def same_tables_def)

lemma recv_from_dev_keeps: "recv_qrtr_from_dev p = Some q \<Longrightarrow> qr_keeps p q"
proof -
  have "qr_keeps p q" if "handle_server_change p = Some q"
    using handle_server_change_tables [OF that] by (simp add: qr_keeps_def qr_ok_def)
  then show "recv_qrtr_from_dev p = Some q \<Longrightarrow> qr_keeps p q"
    by (auto simp: recv_qrtr_from_dev_def bind_eq_Some_conv dest: recv_qrtr_data_same intro: qr_keeps_same split: if_splits)
qed

lemma release_services [simp]: "qrtr_server_list (release_qrtr_client_id con t i p) = qrtr_server_list p"
  using del_client_same by (auto simp: release_qrtr_client_id_def release_client_def same_tables_def split: option.split)

lemma alloc_services [simp]: "qrtr_server_list (snd (alloc_qrtr_client_id con t p)) = qrtr_server_list p"
  by (simp add: alloc_qrtr_client_id_def alloc_client_id_def alloc_port_id_def split_def Let_def)

lemma release_all_services [simp]: "qrtr_server_list (release_all cs p) = qrtr_server_list p"
proof (induction cs p rule: release_all.induct)
  case (2 c cs p)
  have "qrtr_server_list (snd (release_client t i xs p)) = qrtr_server_list p" for t i xs
    using del_client_same by (auto simp: release_client_def same_tables_def split: option.split)
  then show ?case using 2 by (simp add: split_def Let_def)
qed simp

lemma cleanup_run: "qr_keeps p (cleanup_qrtr_connection fd p)"
  using cleanup_keeps [of p fd] by (auto simp: qr_keeps_def cleanup_qrtr_connection_def Let_def split: option.split)

lemma accept_run: "qr_keeps p (accept_qrtr_connection fd p)"
  by (simp add: qr_keeps_def accept_qrtr_connection_def qr_ok_def clients_of_def)

lemma read_run: "qr_keeps p (qr_read data p)"
  by (simp add: qr_keeps_def qr_read_def qr_ok_def)

lemma ctl_run:
  assumes "recv_ctl_from_client con fd p = Some q" "con_of fd p = Some con"
  shows "qr_keeps p q"
proof -
  have "qr_keeps p q" if a: "answer_get_client_id con fd tid p = Some q" for tid
  proof -
    obtain t where t: "rd8 (rx_buf p) 15 = Some t" using a by (auto simp: answer_get_client_id_def bind_eq_Some_conv)
    obtain i p1 where p1: "(case find_qrtr_service t p of Some _ \<Rightarrow> alloc_qrtr_client_id con t p | None \<Rightarrow> (0, p)) = (i, p1)"
      by fastforce
    moreover have "qr_keeps p (snd (alloc_qrtr_client_id con t p))"
      using alloc_keeps [OF assms(2)] by (simp add: qr_keeps_def)
    ultimately have "qr_keeps p p1" by (auto split: option.splits)
    moreover have "qr_keeps p1 q" using a t p1 by (auto simp: answer_get_client_id_def dest: qr_send_same intro: qr_keeps_same)
    ultimately show ?thesis by (rule qr_keeps_trans)
  qed
  moreover have "qr_keeps p q" if "answer_release_client_id con fd tid p = Some q" for tid
  proof -
    have "qr_keeps p (release_qrtr_client_id con t i p)" for t i
      using release_keeps [OF assms(2)] by (simp add: qr_keeps_def)
    then show ?thesis
      using that by (auto simp: answer_release_client_id_def bind_eq_Some_conv Let_def dest!: qr_send_same intro: qr_keeps_trans [OF _ qr_keeps_same])
  qed
  ultimately show ?thesis
    using assms(1) by (auto simp: recv_ctl_from_client_def bind_eq_Some_conv dest: qr_send_same intro: qr_keeps_same split: if_splits)
qed

lemma svc_run: "recv_svc_from_client con t p = Some q \<Longrightarrow> qr_keeps p q"
proof -
  assume q: "recv_svc_from_client con t p = Some q"
  then obtain i len where "rd8 (rx_buf p) 5 = Some i" "rd16 (rx_buf p) 1 = Some len"
    by (auto simp: recv_svc_from_client_def bind_eq_Some_conv)
  with q show "qr_keeps p q"
    by (cases "List.find (has_id t i) (qr_clients con)"; cases "find_qrtr_service t p")
      (auto simp: recv_svc_from_client_def bind_eq_Some_conv intro: qr_keeps_same split: if_split_asm)
qed

lemma from_client_run: "qr_recv_qmi_from_client fd p = Some (r, q) \<Longrightarrow> qr_keeps p q"
  by (auto simp: qr_recv_qmi_from_client_def con_of_def [symmetric] bind_eq_Some_conv
      intro: ctl_run svc_run split: option.splits if_splits)

lemma serve_device_run: "qr_serve_device data p = Some (a, q) \<Longrightarrow> qr_keeps p q"
  using read_run [of p data]
  by (auto simp: qr_serve_device_def bind_eq_Some_conv Let_def
      dest!: recv_from_dev_keeps intro: qr_keeps_trans split: if_splits)

lemma serve_client_run: "qr_serve_client fd data p = Some (a, q) \<Longrightarrow> qr_keeps p q"
  using read_run [of p data] cleanup_run [of p fd]
  by (auto simp: qr_serve_client_def bind_eq_Some_conv Let_def
      dest!: from_client_run intro: qr_keeps_trans split: if_splits)

lemma serve_pollfd_run: "qr_serve_pollfd fd ev p = Some (a, q) \<Longrightarrow> qr_keeps p q"
  using cleanup_run [of p fd] accept_run [of p]
  by (auto simp: qr_serve_pollfd_def dest: serve_device_run serve_client_run split: fd_event.splits if_splits)

lemma serve_pollfds_run: "qr_serve_pollfds es p = Some (go, q) \<Longrightarrow> qr_keeps p q"
proof (induction es arbitrary: p)
  case (Cons e es)
  obtain fd ev where e: "e = (fd, ev)" by fastforce
  then obtain a p1 where s: "qr_serve_pollfd fd ev p = Some (a, p1)" using Cons.prems by (auto simp: bind_eq_Some_conv)
  then have "qr_keeps p p1" by (rule serve_pollfd_run)
  moreover have "qr_keeps p1 q" using Cons e s by (cases a) auto
  ultimately show ?case by (rule qr_keeps_trans)
qed simp

lemma round_run: "qr_round r p = Some (go, q) \<Longrightarrow> qr_keeps p q"
  by (auto simp: qr_round_def dest: serve_pollfds_run split: option.splits)

lemma exit_run: "qr_keeps p (qr_loop_exit p)"
  by (induction p rule: qr_loop_exit.induct)
    (subst qr_loop_exit.simps, auto intro: qr_keeps_trans cleanup_run split: list.split)

lemma loop_run: "qrtr_proxy_loop rs p = Some (go, q) \<Longrightarrow> qr_keeps p q"
proof (induction rs arbitrary: p)
  case (Cons r rs)
  show ?case
  proof (cases "qr_dev_fd p \<le> 0 \<or> qr_quit p")
    case True
    then show ?thesis using Cons.prems exit_run by auto
  next
    case False
    then obtain b p1 where s: "qr_round r p = Some (b, p1)" using Cons.prems by (auto simp: bind_eq_Some_conv)
    then have "qr_keeps p p1" by (rule round_run)
    moreover have "qr_keeps p1 q" using Cons False s exit_run by (cases b) auto
    ultimately show ?thesis by (rule qr_keeps_trans)
  qed
qed simp

section \<open>Packets and their sizes\<close>

lemma and_not_3: "unat (w AND NOT 3 :: u32) = unat w div 4 * 4"
proof -
  have "w AND NOT 3 = push_bit 2 (drop_bit 2 w)"
  proof (rule bit_eqI)
    fix n
    have m: "(3::u32) = mask 2" by (simp add: mask_eq_exp_minus_1)
    have "bit (w AND NOT (mask 2)) n = bit (push_bit 2 (drop_bit 2 w)) n" 
    proof (cases "2 \<le> n")
      case True
      then have "2 + (n - 2) = n" by simp
      then show ?thesis using True by (auto simp: bit_simps simp del: add_2_eq_Suc)
    qed (auto simp: bit_simps)
    then show "bit (w AND NOT 3) n = bit (push_bit 2 (drop_bit 2 w)) n" by (simp only: m)
  qed
  also have "\<dots> = w div 4 * 4" by (simp add: drop_bit_eq_div push_bit_eq_mult)
  also have "unat \<dots> = unat w div 4 * 4"
  proof -
    have "unat w div 4 * 4 \<le> unat w" by simp
    moreover have "unat w < 2 ^ 32" using unsigned_less [of w] by simp
    ultimately show ?thesis by (simp add: unat_word_ariths unat_div)
  qed
  finally show ?thesis .
qed

lemma packet_size: "n \<le> 8192 \<Longrightarrow> unat ((of_nat n + 32 + 3 :: u32) AND NOT 3) = align_4 (32 + n)"
proof -
  assume n: "n \<le> 8192"
  have e: "(of_nat n + 32 + 3 :: u32) = of_nat (n + 35)" by simp
  have "unat (of_nat (n + 35) :: u32) = n + 35" using n by (simp add: unat_of_nat del: of_nat_add)
  then show ?thesis unfolding e and_not_3 by (simp add: align_4_def add.commute)
qed

lemma rd32_skip: "4 \<le> n \<Longrightarrow> rd32 (le32 a @ xs) n = rd32 xs (n - 4)"
  using rd32_append2 [of "le32 a" xs "n - 4"] by simp

lemma packet_reads:
  assumes "b = qrtr_packet data ty from dst confirm @ ys" "length data < 2 ^ 32"
  shows "rd32 b 4 = Some ty" "rd32 b 8 = Some (fst from)" "rd32 b 12 = Some (snd from)"
    "rd32 b 16 = Some (of_bool confirm)" "rd32 b 20 = Some (of_nat (length data))"
    "rd32 b 24 = Some (fst dst)" "rd32 b 28 = Some (snd dst)" "rdn b 32 (length data) = Some data"
proof -
  show "rd32 b 4 = Some ty" "rd32 b 8 = Some (fst from)" "rd32 b 12 = Some (snd from)"
    "rd32 b 16 = Some (of_bool confirm)" "rd32 b 20 = Some (of_nat (length data))"
    "rd32 b 24 = Some (fst dst)" "rd32 b 28 = Some (snd dst)"
    by (simp_all add: assms(1) qrtr_packet_def rd32_skip rd32_le32 del: of_bool_eq)
  show "rdn b 32 (length data) = Some data"
    by (simp add: assms(1) qrtr_packet_def rdn_def le32_def)
qed

section \<open>Starting\<close>

text \<open>The proxy before its first client.\<close>

definition qrtr_fresh :: "int \<Rightarrow> int \<Rightarrow> qrtr_service list \<Rightarrow> qrtr" where
  "qrtr_fresh dev server services = \<lparr>qr_dev_fd = dev, qr_server_fd = server, qr_connections = [],
     qrtr_server_list = services, client_bitmap = replicate CLIENT_IDS 0, port_bitmap = replicate PORT_IDS 0,
     node_modem = 3, node_myself = 1, qr_quit = False, rx_buf = replicate RX_BUF 0, qr_closed = [],
     qr_sends = [], qr_ready = (\<lambda>_. True)\<rparr>"

lemma tracks_none: "n \<le> m \<Longrightarrow> tracks f n (replicate m 0) {#}"
  by (simp add: tracks_def)

lemma qrtr_fresh_ok: "qr_ok (qrtr_fresh dev server services)"
  using tracks_none [of 240 CLIENT_IDS cid] tracks_none [of 256 PORT_IDS port]
  by (simp add: qr_ok_def qrtr_fresh_def table_ok_def clients_of_def CLIENT_IDS_def PORT_IDS_def)

lemma alloc_entry_first: "1 < n \<Longrightarrow> alloc_entry (replicate n 0) = (1, (replicate n 0)[1 := 1])"
  by (simp add: alloc_entry_def upt_rec)

text \<open>A first client, on descriptor 7, with an identifier for service 1.\<close>

definition qrtr_one :: qrtr where
  "qrtr_one = snd (alloc_qrtr_client_id \<lparr>qr_ClientFd = 7, qr_clients = []\<rparr> 1
     (accept_qrtr_connection 7 (qrtr_fresh 3 4 [])))"

definition client_one :: qrtr_client where
  "client_one = \<lparr>qc_QMIType = 1, qc_ClientId = 1, qc_node_id = 1, qc_port_id = 1\<rparr>"

lemma qrtr_one_ok: "qr_ok qrtr_one"
  unfolding qrtr_one_def
  by (rule alloc_keeps [where fd = 7])
    (use accept_run [of "qrtr_fresh 3 4 []" 7] qrtr_fresh_ok in
      \<open>auto simp: qr_keeps_def con_of_def accept_qrtr_connection_def qrtr_fresh_def\<close>)

lemma qrtr_one_fields:
  "qr_connections qrtr_one = [\<lparr>qr_ClientFd = 7, qr_clients = [client_one]\<rparr>]" "qr_sends qrtr_one = []"
  "qr_ready qrtr_one = (\<lambda>_. True)"
  by (simp_all add: qrtr_one_def alloc_qrtr_client_id_def alloc_client_id_def alloc_port_id_def
      accept_qrtr_connection_def qrtr_fresh_def alloc_entry_first CLIENT_IDS_def PORT_IDS_def set_clients_def
      client_one_def)

section \<open>Who gets a packet\<close>

lemma data_to_clients_append:
  "data_to_clients nd pt data fd (xs @ ys) = (\<lambda>p. do { p \<leftarrow> data_to_clients nd pt data fd xs p; data_to_clients nd pt data fd ys p })"
proof (induction xs)
  case (Cons x xs)
  show ?case by (rule ext) (simp add: Cons)
qed simp

lemma data_to_connections_append:
  "data_to_connections nd pt data (xs @ ys) = (\<lambda>p. do { p \<leftarrow> data_to_connections nd pt data xs p; data_to_connections nd pt data ys p })"
proof (induction xs)
  case (Cons x xs)
  show ?case by (rule ext) (simp add: Cons)
qed simp

lemma data_to_no_client: "\<forall>c\<in>set cs. qc_port_id c \<noteq> pt \<Longrightarrow> data_to_clients nd pt data fd cs p = Some p"
  by (induction cs) auto

lemma data_to_no_connection:
  "\<forall>con\<in>set cons. \<forall>c\<in>set (qr_clients con). qc_port_id c \<noteq> pt \<Longrightarrow> data_to_connections nd pt data cons p = Some p"
  by (induction cons) (auto simp: data_to_no_client)

lemma to_client_msg_length:
  assumes "length data + 6 \<le> 65536"
  shows "qr_send_to_client (to_client_msg c data) fd p =
    Some (p\<lparr>qr_sends := qr_sends p @ [ClientMsg fd (to_client_msg c data) (qr_ready p (length (qr_sends p)))]\<rparr>)"
proof -
  have "rd16 (to_client_msg c data) 1 = Some (of_nat (length data + 5))"
    by (simp add: to_client_msg_def rd16_def rd8_def le16_def)
  moreover have "unat (of_nat (length data + 5) :: u16) = length data + 5"
    using assms by (simp add: unat_of_nat del: of_nat_add)
  moreover have "length (to_client_msg c data) = length data + 6" by (simp add: to_client_msg_def)
  ultimately show ?thesis by (simp add: qr_send_to_client_def Let_def del: of_nat_add)
qed

text \<open>A client with an identifier is the only one with its port.\<close>

lemma port_of_one:
  assumes "qr_ok p" "qr_connections p = A @ con # B" "qr_clients con = xs @ c # ys" "cid c \<noteq> 0"
  shows "\<forall>d\<in>set xs \<union> set ys. qc_port_id d \<noteq> qc_port_id c"
    "\<forall>k\<in>set A \<union> set B. \<forall>d\<in>set (qr_clients k). qc_port_id d \<noteq> qc_port_id c" "qc_node_id c = 1"
proof -
  let ?M = "mset xs + mset ys + clients_of A + clients_of B"
  have M: "clients_of (qr_connections p) = add_mset c ?M"
    using assms(2,3) by (simp add: clients_of_def ac_simps)
  have c: "client_ok c" and tr: "tracks port 256 (port_bitmap p) (add_mset c ?M)"
    using assms(1) M by (auto simp: qr_ok_def table_ok_def)
  then have pc: "port c \<in> {1..<256}" using assms(4) by (auto simp: client_ok_def)
  then have "users port (port c) (add_mset c ?M) = of_bool (port_bitmap p ! port c \<noteq> 0)"
    using tr unfolding tracks_def by blast
  then have "users port (port c) ?M = 0" by (cases "port_bitmap p ! port c = 0") simp_all
  then have "\<forall>d\<in>#?M. port d \<noteq> port c" by (auto simp: users_def)
  then have "\<forall>d\<in>#?M. qc_port_id d \<noteq> qc_port_id c" by (metis port_def)
  then show "\<forall>d\<in>set xs \<union> set ys. qc_port_id d \<noteq> qc_port_id c"
    "\<forall>k\<in>set A \<union> set B. \<forall>d\<in>set (qr_clients k). qc_port_id d \<noteq> qc_port_id c"
    by (auto simp: clients_of_def)
  show "qc_node_id c = 1" using c by (simp add: client_ok_def)
qed

lemma data_reaches_one:
  assumes "qr_ok p" "con \<in> set (qr_connections p)" "c \<in> set (qr_clients con)" "cid c \<noteq> 0" "length data + 6 \<le> 65536"
  shows "data_to_connections 1 (qc_port_id c) data (qr_connections p) q = Some (q\<lparr>qr_sends := qr_sends q @
    [ClientMsg (qr_ClientFd con) (to_client_msg c data) (qr_ready q (length (qr_sends q)))]\<rparr>)"
proof -
  obtain A B where cons: "qr_connections p = A @ con # B" using assms(2) by (meson split_list)
  obtain xs ys where cs: "qr_clients con = xs @ c # ys" using assms(3) by (meson split_list)
  note u = port_of_one [OF assms(1) cons cs assms(4)]
  have others: "data_to_connections 1 (qc_port_id c) data A r = Some r" "data_to_connections 1 (qc_port_id c) data B r = Some r"
    "data_to_clients 1 (qc_port_id c) data fd xs r = Some r" "data_to_clients 1 (qc_port_id c) data fd ys r = Some r" for r fd
    using u by (blast intro: data_to_no_connection data_to_no_client)+
  show ?thesis
    by (simp add: cons cs data_to_connections_append data_to_clients_append others u(3) to_client_msg_length assms(5))
qed

text \<open>
  Property C15 (safety): in every run of the proxy, a data packet of the modem for the port of
  a client that was given an identifier is written once, to the connection of that client and to
  no other, as a QMI message with the service and the identifier of the client. The byte table
  of the ports gives out port 256 again and again, but never to such a client.
\<close>

theorem qrtr_answer_reaches_owner:
  assumes run: "qrtr_proxy_loop rs p0 = Some (go, p)" "qr_ok p0"
    and c: "con \<in> set (qr_connections p)" "c \<in> set (qr_clients con)" "qc_ClientId c \<noteq> 0"
    and pkt: "pkt = qrtr_packet data QRTR_TYPE_DATA src (1, qc_port_id c) False @ pad"
      "length pkt = align_4 (32 + length data)" "length pkt \<le> RX_BUF"
  shows "\<exists>p'. qr_serve_device pkt p = Some (Continue, p') \<and> qr_sends p' = qr_sends p @
    [ClientMsg (qr_ClientFd con) (to_client_msg c data) (qr_ready p (length (qr_sends p)))]"
proof -
  have ok: "qr_ok (qr_read pkt p)" using loop_run [OF run(1)] run(2) read_run by (auto simp: qr_keeps_def)
  have id: "cid c \<noteq> 0" using c(3) by (simp add: cid_def unat_eq_0)
  have n: "length data \<le> 8160" using pkt by (simp add: align_4_def RX_BUF_def)
  have b: "rx_buf (qr_read pkt p) = qrtr_packet data QRTR_TYPE_DATA src (1, qc_port_id c) False @ pad @ drop (length pkt) (rx_buf p)"
    by (simp add: qr_read_def overwrite_def pkt(1))
  note rd = packet_reads [OF b]
  have size: "length pkt = unat ((of_nat (length data) + 32 + 3 :: u32) AND NOT 3)"
    using packet_size [of "length data"] n pkt(2) by simp
  have match: "is_client_of 1 (qc_port_id c) (qr_connections (qr_read pkt p))"
  proof -
    obtain A B where "qr_connections (qr_read pkt p) = A @ con # B" using c(1) by (auto simp: qr_read_def dest: split_list)
    moreover obtain xs ys where "qr_clients con = xs @ c # ys" using c(2) by (meson split_list)
    ultimately have "qc_node_id c = 1" using port_of_one(3) ok id by blast
    then show ?thesis using c by (auto simp: is_client_of_def list_ex_iff qr_read_def)
  qed
  have "con \<in> set (qr_connections (qr_read pkt p))" using c(1) by (simp add: qr_read_def)
  note one = data_reaches_one [OF ok this c(2) id]
  have "recv_qrtr_data (qr_read pkt p) = Some (qr_read pkt p\<lparr>qr_sends := qr_sends p @
      [ClientMsg (qr_ClientFd con) (to_client_msg c data) (qr_ready p (length (qr_sends p)))]\<rparr>)"
    using one n match rd by (simp add: recv_qrtr_data_def Let_def unat_of_nat_u32) (simp add: qr_read_def)
  moreover have "pkt \<noteq> []" using pkt by (auto simp: qrtr_packet_def le32_def)
  ultimately show ?thesis using rd n size
    by (auto simp: qr_serve_device_def Let_def dump_qrtr_def recv_qrtr_from_dev_def
        QRTR_TYPE_DATA_def QRTR_TYPE_HELLO_def QRTR_TYPE_NEW_SERVER_def QRTR_TYPE_DEL_SERVER_def)
qed

lemma qrtr_answer_reaches_owner_witness:
  "\<exists>p'. qr_serve_device (qrtr_packet [5, 6, 7] QRTR_TYPE_DATA (3, 20) (1, 1) False @ [0]) qrtr_one = Some (Continue, p') \<and>
     qr_sends p' = [ClientMsg 7 (to_client_msg client_one [5, 6, 7]) True]"
  using qrtr_answer_reaches_owner [of "[]" qrtr_one True qrtr_one "\<lparr>qr_ClientFd = 7, qr_clients = [client_one]\<rparr>"
      client_one "qrtr_packet [5, 6, 7] QRTR_TYPE_DATA (3, 20) (1, 1) False @ [0]" "[5, 6, 7]" "(3, 20)" "[0]"]
    qrtr_one_ok
  by (simp add: qrtr_one_fields client_one_def) (simp add: qrtr_packet_def align_4_def RX_BUF_def)

section \<open>Requests\<close>

text \<open>
  A message of a client for a service the modem has announced goes to the port of the service,
  from the port of the client, with the payload of the message.
\<close>

lemma qrtr_request_reaches_service:
  assumes "con_of fd p = Some con" "List.find (has_id t (qc_ClientId c)) (qr_clients con) = Some c" "t \<noteq> 0"
    and "find_qrtr_service t p = Some s" "length data + 6 \<le> 65536"
  shows "\<exists>p'. qr_serve_client fd (to_client_msg c data) p = Some (Continue, p') \<and>
    qr_sends p' = qr_sends p @ [DevPacket
      (qrtr_packet data QRTR_TYPE_DATA (qc_node_id c, qc_port_id c) (srv_node s, srv_port s) False)
      (align_4 (32 + length data) - (32 + length data)) (qr_ready p (length (qr_sends p)))]"
proof -
  have t: "t = qc_QMIType c" using find_Some_ex [OF assms(2)] by (simp add: has_id_def)
  have s: "srv_service s = ucast t" using find_Some_ex [OF assms(4) [unfolded find_qrtr_service_def]] by simp
  have "unat t < 2 ^ 8" using unsigned_less [of t] by simp
  then have "unat (ucast t :: u32) = unat t" by (simp add: unsigned_ucast_eq take_bit_nat_eq_self_iff)
  then have s0: "srv_service s \<noteq> 0" using assms(3) s by (metis unat_eq_zero unsigned_0)
  have length: "length (to_client_msg c data) = length data + 6" by (simp add: to_client_msg_def)
  define b where "b = to_client_msg c data @ drop (length data + 6) (rx_buf p)"
  define r where "r = qr_read (to_client_msg c data) p"
  have r: "rx_buf r = b" "qr_sends r = qr_sends p" "qr_ready r = qr_ready p"
    by (simp_all add: r_def b_def qr_read_def overwrite_def length)
  have rd: "rd16 b 1 = Some (of_nat (length data + 5))" "rd8 b 4 = Some t" "rd8 b 5 = Some (qc_ClientId c)"
    "rdn b 6 (length data) = Some data"
    by (simp_all add: b_def to_client_msg_def rd16_def rd8_def rdn_def le16_def t)
  have len: "unat (of_nat (length data + 5) :: u16) = length data + 5"
    using assms(5) by (simp add: unat_of_nat del: of_nat_add)
  have svc: "find_qrtr_service t r = Some s" "con_of fd r = Some con"
    using assms(1,4) by (simp_all add: find_qrtr_service_def con_of_def qr_read_def r_def)
  let ?q = "qrtr_node_enqueue data QRTR_TYPE_DATA (qc_node_id c, qc_port_id c) (srv_node s, srv_port s) False r"
  have "recv_svc_from_client con t r = Some ?q"
    using rd len assms(2) svc s0 by (simp add: recv_svc_from_client_def r del: of_nat_add)
  then have "qr_recv_qmi_from_client fd r = Some (0, ?q)"
    using svc rd assms(3) by (simp add: qr_recv_qmi_from_client_def con_of_def [symmetric] r QMUX_TYPE_CTL_def)
  then have "qr_serve_client fd (to_client_msg c data) p = Some (Continue, ?q)"
    using rd len length by (auto simp: qr_serve_client_def Let_def r_def [symmetric] r simp del: of_nat_add)
  then show ?thesis
    by (simp add: qrtr_node_enqueue_def send_qrtr_to_dev_def r qrtr_packet_def)
qed

section \<open>Services\<close>

lemma find_prefix: "List.find P xs = Some x \<Longrightarrow> prefix xs ys \<Longrightarrow> List.find P ys = Some x"
proof (induction xs arbitrary: ys)
  case (Cons a xs)
  then show ?case by (cases ys) (auto split: if_splits)
qed simp

text \<open>
  Property C35 (error): the proxy never forgets a service and never takes a new port for it: what
  it found for a service once, it finds for the rest of the session, although the modem takes the
  service back or announces it on another port. The removal unlinks the node it has just made
  instead of the one in the list.
\<close>

theorem service_never_changes:
  assumes "qrtr_proxy_loop rs p = Some (go, q)" "find_qrtr_service t p = Some s"
  shows "find_qrtr_service t q = Some s"
  using loop_run [OF assms(1)] assms(2) by (auto simp: qr_keeps_def find_qrtr_service_def intro: find_prefix)

definition announcement :: "u32 \<Rightarrow> u32 \<Rightarrow> byte list" where
  "announcement ty pt = qrtr_packet (le32 ty @ le32 1 @ le32 0x101 @ le32 3 @ le32 pt) ty (3, QRTR_PORT_CTRL) (1, QRTR_PORT_CTRL) False"

definition service_one :: "u32 \<Rightarrow> qrtr_service" where
  "service_one pt = \<lparr>srv_service = 1, srv_version = 1, srv_instance = 1, srv_node = 3, srv_port = pt,
     srv_src_node_id = 3, srv_src_port_id = QRTR_PORT_CTRL\<rparr>"

definition moved_rounds :: "fd_event list option list" where
  "moved_rounds = [Some [Readable 0 (announcement QRTR_TYPE_DEL_SERVER 20)],
     Some [Readable 0 (announcement QRTR_TYPE_NEW_SERVER 21)]]"

lemma announcement_served:
  assumes "qr_dev_fd p \<noteq> qr_server_fd p" "node_modem p = 3" "ty = QRTR_TYPE_NEW_SERVER \<or> ty = QRTR_TYPE_DEL_SERVER"
  shows "\<exists>b. qr_serve_pollfd (qr_dev_fd p) (Readable 0 (announcement ty pt)) p = Some (Continue,
    p\<lparr>rx_buf := b, qrtr_server_list := qrtr_server_list p @ (if ty = QRTR_TYPE_NEW_SERVER then [service_one pt] else [])\<rparr>)"
proof -
  define b where "b = announcement ty pt @ drop 52 (rx_buf p)"
  have b: "qr_read (announcement ty pt) p = p\<lparr>rx_buf := b\<rparr>"
    by (simp add: b_def qr_read_def overwrite_def announcement_def qrtr_packet_def)
  have rd: "rd32 b 4 = Some ty" "rd32 b 8 = Some 3" "rd32 b 12 = Some QRTR_PORT_CTRL" "rd32 b 20 = Some 20"
    "rd32 b 36 = Some 1" "rd32 b 40 = Some 0x101" "rd32 b 44 = Some 3" "rd32 b 48 = Some pt"
    by (simp_all add: b_def announcement_def qrtr_packet_def rd32_skip rd32_le32 del: of_bool_eq)
  have len: "length (announcement ty pt) = 52" "announcement ty pt \<noteq> []"
    by (simp_all add: announcement_def qrtr_packet_def le32_def)
  have change: "handle_server_change (p\<lparr>rx_buf := b\<rparr>) = Some (p\<lparr>rx_buf := b,
      qrtr_server_list := qrtr_server_list p @ (if ty = QRTR_TYPE_NEW_SERVER then [service_one pt] else [])\<rparr>)"
    using assms(2) by (simp add: handle_server_change_def rd Let_def service_one_def)
  have "ty \<noteq> QRTR_TYPE_HELLO" "ty < 12"
    using assms(3) by (auto simp: QRTR_TYPE_HELLO_def QRTR_TYPE_NEW_SERVER_def QRTR_TYPE_DEL_SERVER_def)
  then have recv: "recv_qrtr_from_dev (p\<lparr>rx_buf := b\<rparr>) = handle_server_change (p\<lparr>rx_buf := b\<rparr>)"
    "dump_qrtr b = Some True"
    using assms(3) by (simp_all add: recv_qrtr_from_dev_def dump_qrtr_def rd)
  have "qr_serve_device (announcement ty pt) p = Some (Continue, p\<lparr>rx_buf := b,
      qrtr_server_list := qrtr_server_list p @ (if ty = QRTR_TYPE_NEW_SERVER then [service_one pt] else [])\<rparr>)"
    by (simp add: qr_serve_device_def b rd len recv change Let_def)
  then show ?thesis using assms(1) by (auto simp: qr_serve_pollfd_def)
qed

lemma moved_run:
  assumes "qr_dev_fd p = 5" "qr_server_fd p = 6" "node_modem p = 3" "qr_connections p = []" "\<not> qr_quit p"
    "qrtr_server_list p = [service_one 20]"
  shows "\<exists>q. qrtr_proxy_loop moved_rounds p = Some (True, q) \<and> qrtr_server_list q = [service_one 20, service_one 21]"
proof -
  have types: "QRTR_TYPE_DEL_SERVER \<noteq> QRTR_TYPE_NEW_SERVER" by (simp add: QRTR_TYPE_DEL_SERVER_def QRTR_TYPE_NEW_SERVER_def)
  obtain b where b: "qr_serve_pollfd 5 (Readable 0 (announcement QRTR_TYPE_DEL_SERVER 20)) p =
      Some (Continue, p\<lparr>rx_buf := b, qrtr_server_list := [service_one 20]\<rparr>)"
    using announcement_served [of p QRTR_TYPE_DEL_SERVER 20] assms types by auto
  obtain b' where b': "qr_serve_pollfd 5 (Readable 0 (announcement QRTR_TYPE_NEW_SERVER 21)) (p\<lparr>rx_buf := b, qrtr_server_list := [service_one 20]\<rparr>) =
      Some (Continue, p\<lparr>rx_buf := b', qrtr_server_list := [service_one 20, service_one 21]\<rparr>)"
    using announcement_served [of "p\<lparr>rx_buf := b, qrtr_server_list := [service_one 20]\<rparr>" QRTR_TYPE_NEW_SERVER 21] assms by auto
  show ?thesis
    using assms by (simp add: moved_rounds_def qr_round_def qr_pollfds_def b b')
qed

lemma service_never_changes_witness:
  "\<exists>q. qrtr_proxy_loop moved_rounds (qrtr_fresh 5 6 [service_one 20]) = Some (True, q) \<and>
     qrtr_server_list q = [service_one 20, service_one 21] \<and> find_qrtr_service 1 q = Some (service_one 20)"
proof -
  let ?p = "qrtr_fresh 5 6 [service_one 20]"
  have p: "qr_dev_fd ?p = 5" "qr_server_fd ?p = 6" "node_modem ?p = 3" "qr_connections ?p = []" "\<not> qr_quit ?p"
    "qrtr_server_list ?p = [service_one 20]" "find_qrtr_service 1 ?p = Some (service_one 20)"
    by (simp_all add: find_qrtr_service_def qrtr_fresh_def service_one_def)
  from moved_run [OF p(1-6)] obtain q where q: "qrtr_proxy_loop moved_rounds ?p = Some (True, q)"
    "qrtr_server_list q = [service_one 20, service_one 21]" by blast
  from service_never_changes [OF q(1) p(7)] q show ?thesis by blast
qed

section \<open>Departures\<close>

definition del_packet :: "qrtr \<Rightarrow> qrtr_client \<Rightarrow> byte list" where
  "del_packet p c = qrtr_packet (ctrl_pkt QRTR_TYPE_DEL_CLIENT (qc_node_id c) (qc_port_id c)) QRTR_TYPE_DATA
     (qc_node_id c, qc_port_id c)
     (case find_qrtr_service (qc_QMIType c) p of Some s \<Rightarrow> srv_src_node_id s | None \<Rightarrow> QRTR_NODE_BCAST, QRTR_PORT_CTRL) False"

lemma release_all_sends:
  "\<exists>oks. length oks = length cs \<and> qr_sends (release_all cs p) =
     qr_sends p @ map2 (\<lambda>c ok. DevPacket (del_packet p c) 0 ok) cs oks"
proof (induction cs arbitrary: p)
  case (Cons c cs)
  let ?q = "ctrl_cmd_del_client (qc_node_id c) (qc_port_id c) (qc_QMIType c) p"
  let ?p = "free_port_id (unat (qc_port_id c)) (free_client_id (unat (qc_ClientId c)) ?q)"
  have step: "release_all (c # cs) p = release_all cs ?p"
    by (simp add: release_client_def has_id_def)
  have same: "same_tables p ?q" by simp
  have sent: "qr_sends ?q = qr_sends p @ [DevPacket (del_packet p c) 0 (qr_ready p (length (qr_sends p)))]"
    by (simp add: ctrl_cmd_del_client_def del_packet_def qrtr_node_enqueue_def send_qrtr_to_dev_def
        qrtr_packet_def ctrl_pkt_def align_4_def Let_def)
  have del: "del_packet ?p = del_packet p"
    using same by (intro ext) (simp add: del_packet_def find_qrtr_service_def same_tables_def)
  from Cons [of ?p] obtain oks where "length oks = length cs"
    "qr_sends (release_all cs ?p) = qr_sends ?p @ map2 (\<lambda>c ok. DevPacket (del_packet p c) 0 ok) cs oks"
    by (auto simp: del)
  then show ?case
    by (intro exI [of _ "qr_ready p (length (qr_sends p)) # oks"]) (simp add: step sent del: release_all.simps)
qed simp

text \<open>
  Property C16 (functional): when a client leaves, the modem is told of every identifier its
  connection held, in order, each by one packet, and nothing else is written; the connection is
  gone, and the identifiers and the ports of the clients that had one can be given out again.
\<close>

theorem qrtr_departure_releases:
  assumes "qr_ok p" "con_of fd p = Some con"
  shows "(\<exists>oks. length oks = length (qr_clients con) \<and> qr_sends (cleanup_qrtr_connection fd p) =
      qr_sends p @ map2 (\<lambda>c ok. DevPacket (del_packet p c) 0 ok) (qr_clients con) oks) \<and>
    qr_connections (cleanup_qrtr_connection fd p) = remove_first (\<lambda>c. qr_ClientFd c = fd) (qr_connections p) \<and>
    (\<forall>c\<in>set (qr_clients con). qc_ClientId c \<noteq> 0 \<longrightarrow>
      client_bitmap (cleanup_qrtr_connection fd p) ! unat (qc_ClientId c) = 0 \<and>
      port_bitmap (cleanup_qrtr_connection fd p) ! unat (qc_port_id c) = 0)"
proof -
  let ?q = "cleanup_qrtr_connection fd p"
  have cons: "qr_connections ?q = remove_first (\<lambda>c. qr_ClientFd c = fd) (qr_connections p)"
    using assms(2) by (simp add: cleanup_qrtr_connection_def con_of_def Let_def)
  have sends: "\<exists>oks. length oks = length (qr_clients con) \<and> qr_sends ?q =
      qr_sends p @ map2 (\<lambda>c ok. DevPacket (del_packet p c) 0 ok) (qr_clients con) oks"
    using release_all_sends [of "qr_clients con" p] assms(2)
    by (simp add: cleanup_qrtr_connection_def con_of_def Let_def)
  obtain R where R: "clients_of (qr_connections p) = mset (qr_clients con) + R" "clients_of (qr_connections ?q) = R"
    using clients_of_split assms(2) unfolding cons con_of_def by blast
  have q: "table_ok R (client_bitmap ?q) (port_bitmap ?q)"
    using cleanup_keeps [OF assms(1), of fd] R by (simp add: qr_ok_def)
  have p: "table_ok (mset (qr_clients con) + R) (client_bitmap p) (port_bitmap p)"
    using assms(1) R by (simp add: qr_ok_def)
  have "\<forall>c\<in>set (qr_clients con). qc_ClientId c \<noteq> 0 \<longrightarrow>
      client_bitmap ?q ! unat (qc_ClientId c) = 0 \<and> port_bitmap ?q ! unat (qc_port_id c) = 0"
  proof (intro ballI impI)
    fix c assume c: "c \<in> set (qr_clients con)" "qc_ClientId c \<noteq> 0"
    have ok: "client_ok c" using p c by (auto simp: table_ok_def)
    have "cid c \<noteq> 0" using c by (simp add: cid_def unat_eq_0)
    then have range: "cid c \<in> {1..<240}" "port c \<in> {1..<256}" using ok by (auto simp: client_ok_def)
    have split: "mset (qr_clients con) + R = add_mset c (mset (qr_clients con) - {#c#} + R)" using c by simp
    from p q range show "client_bitmap ?q ! unat (qc_ClientId c) = 0 \<and> port_bitmap ?q ! unat (qc_port_id c) = 0"
      unfolding table_ok_def split cid_def [symmetric] port_def [symmetric] by (blast intro: tracks_gone)
  qed
  then show ?thesis using cons sends by simp
qed

lemma qrtr_departure_releases_witness:
  "\<exists>oks. length oks = 1 \<and> qr_sends (cleanup_qrtr_connection 7 qrtr_one) =
      map2 (\<lambda>c ok. DevPacket (del_packet qrtr_one c) 0 ok) [client_one] oks"
  using qrtr_departure_releases [OF qrtr_one_ok, of 7 "\<lparr>qr_ClientFd = 7, qr_clients = [client_one]\<rparr>"]
  by (simp add: con_of_def qrtr_one_fields)

end
