(* ===== verification/AtcProxy.thy ===== *)
theory AtcProxy
  imports AtcDevice QmiProxy
begin

text \<open>
  The AT proxy (\<open>quectel-atc-proxy.c\<close>): a server in front of the AT channel. A client sends a
  command line; while the proxy waits for its final response, the channel hands every line of
  the modem to the proxy's handler of unsolicited lines, which writes it to the clients.

  A connection is its descriptor. Before each command stands what the reader thread processed
  since the last one. What \<open>poll\<close> and \<open>write\<close> return for the successive writes to clients is
  \<open>px_io\<close>: whether the descriptor was writable, and the result. \<open>None\<close> is undefined behaviour (a
  line longer than the handler's buffer, a freed connection, a command without its end) or a
  command that has not returned.
\<close>

section \<open>State and writing\<close>

record atc_px =
  px_chan :: at_chan
  px_dev_fd :: int
  px_server_fd :: int
  px_fds :: "int list"
  current_client_fd :: "int option"
  px_quit :: bool
  px_reset :: bool
  px_asr :: bool
  px_envs :: "(rd_event list \<times> at_env) list"
  px_handshakes :: "at_env list list"
  px_writes :: "(int \<times> string \<times> bool) list"
  px_io :: "nat \<Rightarrow> bool \<times> int"
  px_closed :: "int list"

definition send_atc_to_client :: "int \<Rightarrow> string \<Rightarrow> atc_px \<Rightarrow> int \<times> atc_px" where
  "send_atc_to_client fd s p = (let (pollout, ret) = px_io p (length (px_writes p)) in
     (ret, p\<lparr>px_writes := px_writes p @ [(fd, s, pollout)]\<rparr>))"

definition px_drop :: "int \<Rightarrow> atc_px \<Rightarrow> atc_px" where
  "px_drop fd p = p\<lparr>px_fds := remove1 fd (px_fds p), px_closed := px_closed p @ [fd]\<rparr>"

section \<open>Lines of the modem\<close>

definition crlf :: string where "crlf = [CHR 0x0D, CHR 0x0A]"

text \<open>The handler copies into 1024 bytes, the terminating NUL included.\<close>

definition px_text :: "string \<Rightarrow> string option \<Rightarrow> string option" where
  "px_text s sms_pdu = (let buf = s @ crlf @ (case sms_pdu of None \<Rightarrow> [] | Some pdu \<Rightarrow> pdu @ crlf)
     in if length buf < 1024 then Some buf else None)"

fun px_broadcast :: "string \<Rightarrow> int list \<Rightarrow> atc_px \<Rightarrow> atc_px" where
  "px_broadcast buf [] p = p"
| "px_broadcast buf (fd # fds) p = px_broadcast buf fds
     (if 0 < fd then (let (ret, p) = send_atc_to_client fd buf p in if ret < 0 then px_drop fd p else p) else p)"

text \<open>
  The client whose command is running gets the line, or all of them do. A current client
  that could not be written to is freed, but stays current.
\<close>

definition px_onUnsolicited :: "string \<Rightarrow> string option \<Rightarrow> atc_px \<Rightarrow> atc_px option" where
  "px_onUnsolicited s sms_pdu p = do {
     buf \<leftarrow> px_text s sms_pdu;
     case current_client_fd p of
       Some fd \<Rightarrow> if fd \<notin> set (px_fds p) then None
         else let (ret, p) = send_atc_to_client fd buf p in Some (if ret < 0 then px_drop fd p else p)
     | None \<Rightarrow> Some (px_broadcast buf (px_fds p) p) }"

text \<open>The handler's part of what the channel did.\<close>

fun px_lines :: "at_out list \<Rightarrow> atc_px \<Rightarrow> atc_px option" where
  "px_lines [] p = Some p"
| "px_lines (Unsol s # es) p = do { p \<leftarrow> px_onUnsolicited s None p; px_lines es p }"
| "px_lines (UnsolSms s pdu # es) p = do { p \<leftarrow> px_onUnsolicited s (Some pdu) p; px_lines es p }"
| "px_lines (_ # es) p = px_lines es p"

definition px_new_out :: "at_chan \<Rightarrow> at_chan \<Rightarrow> at_out list" where
  "px_new_out c c' = drop (length (out c)) (out c')"

text \<open>
  One command: first the lines that came before it, with no current client, then the command
  itself with the current client \<open>cur\<close>.
\<close>

definition px_command ::
  "int option \<Rightarrow> (at_env \<Rightarrow> at_chan \<Rightarrow> send_res) \<Rightarrow> atc_px \<Rightarrow> (int \<times> at_response option \<times> atc_px) option" where
  "px_command cur send p = (case px_envs p of [] \<Rightarrow> None
     | (evs, en) # rest \<Rightarrow> do {
         let c0 = fold rd_step evs (px_chan p);
         p \<leftarrow> px_lines (px_new_out (px_chan p) c0) (p\<lparr>px_envs := rest, px_chan := c0\<rparr>);
         (case send en c0 of
            Returned err r c \<Rightarrow> do {
              p \<leftarrow> px_lines (px_new_out c0 c) (p\<lparr>px_chan := c, current_client_fd := cur\<rparr>);
              Some (err, r, p\<lparr>current_client_fd := None\<rparr>) }
          | _ \<Rightarrow> None) })"

section \<open>Connections\<close>

definition accept_atc_connection :: "int \<Rightarrow> atc_px \<Rightarrow> atc_px" where
  "accept_atc_connection clientfd p = p\<lparr>px_fds := px_fds p @ [clientfd]\<rparr>"

definition cleanup_atc_connection :: "int \<Rightarrow> atc_px \<Rightarrow> atc_px" where
  "cleanup_atc_connection clientfd p = (if clientfd \<in> set (px_fds p)
     then (px_drop clientfd p)\<lparr>current_client_fd :=
       (if current_client_fd p = Some clientfd then None else current_client_fd p)\<rparr> else p)"

section \<open>Preparing the modem\<close>

text \<open>Here the error code is that of the handshake, so only the response counts.\<close>

definition px_probe_style :: "atc_px \<Rightarrow> atc_px option" where
  "px_probe_style p = do {
     (_, r, p) \<leftarrow> px_command None (at_send_command_singleline False ''AT+QNETDEVSTATUS=?'' ''+QNETDEVSTATUS:'' True) p;
     Some (if at_response_error 0 r then p\<lparr>px_asr := True\<rparr> else p) }"

definition px_set_nat :: "int \<Rightarrow> atc_px \<Rightarrow> atc_px option" where
  "px_set_nat new_nat p = do {
     (err, r, p) \<leftarrow> px_command None (at_send_command False (''AT+QCFG='' @ quoted ''NAT'' @ '','' @ dec_int new_nat) True) p;
     if at_response_error err r then Some p
     else do { (_, _, p) \<leftarrow> px_command None (at_send_command False ''at+cfun=1,1'' False) p; Some p } }"

definition px_check_nat :: "atc_px \<Rightarrow> (int \<times> atc_px) option" where
  "px_check_nat p = do {
     (err, r, p) \<leftarrow> px_command None (at_send_command_singleline False (''AT+QCFG='' @ quoted ''NAT'') ''+QCFG:'' True) p;
     case good_response err r of None \<Rightarrow> Some (err, p)
     | Some r \<Rightarrow> do {
         l \<leftarrow> first_line r;
         let (n, vals) = at_tok_scanf (Some l) ''%s%d'';
         let new_nat = (if px_asr p then 1 else 0);
         p \<leftarrow> (if n = 2 \<and> scan_int vals 1 0 \<noteq> new_nat then px_set_nat new_nat p else Some p);
         Some (0, p) } }"

definition px_handshake :: "atc_px \<Rightarrow> (int \<times> atc_px) option" where
  "px_handshake p = (case px_handshakes p of [] \<Rightarrow> None
     | h # hs \<Rightarrow> if length h < 8 then None else (case at_handshake False h (px_chan p) of
         Returned err _ c \<Rightarrow> do {
           p \<leftarrow> px_lines (px_new_out (px_chan p) c) (p\<lparr>px_chan := c, px_handshakes := hs\<rparr>);
           Some (err, p) }
       | _ \<Rightarrow> None))"

definition atc_proxy_init :: "atc_px \<Rightarrow> (int \<times> atc_px) option" where
  "atc_proxy_init p = do {
     (err, p) \<leftarrow> px_handshake p;
     if err \<noteq> 0 then Some (err, p)
     else do {
       (_, _, p) \<leftarrow> px_command None (at_send_command_singleline False (''AT+QCFG='' @ quoted ''usbnet'') ''+QCFG:'' False) p;
       (_, _, p) \<leftarrow> px_command None (at_send_command_multiline False ''AT+QNETDEVCTL=?'' ''+QNETDEVCTL:'' False) p;
       (_, _, p) \<leftarrow> px_command None (at_send_command False ''AT+CGREG=2'' False) p;
       (_, _, p) \<leftarrow> px_command None (at_send_command False ''AT+CEREG=2'' False) p;
       (_, _, p) \<leftarrow> px_command None (at_send_command False ''AT+C5GREG=2'' False) p;
       p \<leftarrow> px_probe_style p;
       px_check_nat p } }"

text \<open>Up to six tries; \<open>gone\<close> says for each failure whether the device has vanished by then.\<close>

fun px_init_tries :: "nat \<Rightarrow> bool list \<Rightarrow> atc_px \<Rightarrow> atc_px option" where
  "px_init_tries retry_times gone p = do {
     (err, p) \<leftarrow> atc_proxy_init p;
     if err = 0 then Some p
     else (case gone of [] \<Rightarrow> None
       | g # gone \<Rightarrow> if 5 \<le> retry_times \<or> g then Some p else px_init_tries (retry_times + 1) gone p) }"

section \<open>The loop\<close>

text \<open>
  An event of a descriptor: nothing, an error or hang-up, a connection, or readable. The device
  is left to the channel's reader. For a client there comes what was read (nothing when the read
  failed), and the descriptor that stands in the entry behind the polled ones, which the code
  compares with its connections instead of the entry it serves.
\<close>

datatype px_event = PxQuiet | PxErr | PxAccept int | PxRead int string

text \<open>\<open>full\<close>: all 66 entries are in use, so that the entry behind them is outside the array.\<close>

definition px_serve_client :: "bool \<Rightarrow> int \<Rightarrow> int \<Rightarrow> string \<Rightarrow> atc_px \<Rightarrow> (after \<times> atc_px) option" where
  "px_serve_client full fd behind data p =
     (if data = [] then Some (Break, cleanup_atc_connection fd p)
      else if full then None
      else if 4096 \<le> length data \<and> nul \<notin> set data then None
      else do {
        (_, _, p) \<leftarrow> px_command (if behind \<in> set (px_fds p) then Some behind else None)
          (at_send_command False (takeWhile (\<lambda>c. c \<noteq> nul) data) False) p;
        Some (Continue, p) })"

definition px_serve :: "bool \<Rightarrow> int \<Rightarrow> px_event \<Rightarrow> atc_px \<Rightarrow> (after \<times> atc_px) option" where
  "px_serve full fd e p = (case e of
       PxQuiet \<Rightarrow> Some (Continue, p)
     | PxErr \<Rightarrow> Some (if fd = px_dev_fd p then (Exit, p)
         else if fd = px_server_fd p then (Continue, p)
         else (Continue, cleanup_atc_connection fd p))
     | PxAccept new \<Rightarrow> Some (Continue, if fd = px_server_fd p then accept_atc_connection new p else p)
     | PxRead behind data \<Rightarrow>
         if fd = px_server_fd p then Some (Continue, p)
         else if fd = px_dev_fd p then Some (if px_reset p then Exit else Continue, p)
         else px_serve_client full fd behind data p)"

fun px_serve_fds :: "bool \<Rightarrow> (int \<times> px_event) list \<Rightarrow> atc_px \<Rightarrow> (bool \<times> atc_px) option" where
  "px_serve_fds full [] p = Some (True, p)"
| "px_serve_fds full ((fd, e) # es) p = do {
     (a, p) \<leftarrow> px_serve full fd e p;
     (case a of Continue \<Rightarrow> px_serve_fds full es p | Break \<Rightarrow> Some (True, p) | Exit \<Rightarrow> Some (False, p)) }"

definition px_pollfds :: "atc_px \<Rightarrow> int list" where
  "px_pollfds p = take (2 + 64) (px_dev_fd p # (if 0 < px_server_fd p then [px_server_fd p] else []) @ px_fds p)"

definition px_turn :: "px_event list option \<Rightarrow> atc_px \<Rightarrow> (bool \<times> atc_px) option" where
  "px_turn r p = (case r of None \<Rightarrow> Some (False, p)
     | Some evs \<Rightarrow> px_serve_fds (length (px_pollfds p) = 66) (zip (px_pollfds p) evs) p)"

text \<open>The label at the end closes the channel and every connection.\<close>

definition px_exit :: "atc_px \<Rightarrow> atc_px" where
  "px_exit p = p\<lparr>px_chan := at_close (px_chan p), px_closed := px_closed p @ px_fds p, px_fds := [],
     current_client_fd := None\<rparr>"

fun atc_proxy_loop :: "px_event list option list \<Rightarrow> atc_px \<Rightarrow> (bool \<times> atc_px) option" where
  "atc_proxy_loop [] p = Some (True, p)"
| "atc_proxy_loop (r # rs) p =
     (if px_dev_fd p \<le> 0 \<or> px_quit p then Some (False, px_exit p)
      else do {
        (go, p) \<leftarrow> px_turn r p;
        if go then atc_proxy_loop rs p else Some (False, px_exit p) })"

text \<open>
  One turn of \<open>main\<close> for an opened device, while the loop does not see the device fail before the
  server is made; without a server the loop is cancelled.
\<close>

definition atc_proxy_session ::
  "int \<Rightarrow> bool list \<Rightarrow> int \<Rightarrow> px_event list option list \<Rightarrow> atc_px \<Rightarrow> atc_px option" where
  "atc_proxy_session dev gone server rs p = do {
     let p = p\<lparr>px_dev_fd := dev, px_fds := [], px_chan := (at_open dev True True (px_chan p))\<lparr>s_onTimeout := True, s_onReaderClosed := True\<rparr>\<rparr>;
     p \<leftarrow> px_init_tries 0 gone p;
     let p = p\<lparr>px_server_fd := server\<rparr>;
     p \<leftarrow> (if server = - 1 then Some p
           else do { (go, p) \<leftarrow> atc_proxy_loop rs p; if go then None else Some p });
     Some (p\<lparr>px_server_fd := - 1, px_reset := False\<rparr>) }"

section \<open>Where the lines of an answer go\<close>

text \<open>While a plain command is pending on a proxied channel, every line reaches the handler.\<close>

definition final :: "string \<Rightarrow> bool" where
  "final l \<longleftrightarrow> isFinalResponseSuccess l \<or> isFinalResponseError l"

definition proxied :: "at_chan \<Rightarrow> bool" where
  "proxied c \<longleftrightarrow> s_atc_proxy c \<and> s_unsolHandler c \<and> s_raw_data c = None"

lemma proxied_lines:
  assumes "proxied c" "s_type c = NO_RESULT" "s_smsPDU c = None" "sp_response c = Some r" "\<forall>l\<in>set ls. \<not> final l"
  shows "fold rd_step (map RdLine ls) c = c\<lparr>out := out c @ map Unsol ls\<rparr>"
  using assms
proof (induction ls arbitrary: c)
  case (Cons l ls)
  have "rd_step (RdLine l) c = c\<lparr>out := out c @ [Unsol l]\<rparr>"
    using Cons.prems by (simp add: rd_step_def processLine_plain final_def matches_def handleUnsolicited_def emit_def proxied_def)
  then show ?case using Cons.IH [of "c\<lparr>out := out c @ [Unsol l]\<rparr>"] Cons.prems by (simp add: proxied_def)
qed simp

lemma proxied_final:
  assumes "proxied c" "s_type c = NO_RESULT" "s_smsPDU c = None" "sp_response c = Some r" "final l"
  shows "\<exists>r'. finalResponse r' \<noteq> None \<and>
    rd_step (RdLine l) c = c\<lparr>sp_response := Some r', out := out c @ [Unsol l, CondSignal]\<rparr>"
proof -
  let ?r = "r\<lparr>success := (if isFinalResponseSuccess l then 1 else 0), finalResponse := Some l\<rparr>"
  have "rd_step (RdLine l) c = c\<lparr>sp_response := Some ?r, out := out c @ [Unsol l, CondSignal]\<rparr>"
    using assms by (cases "isFinalResponseSuccess l") (simp_all add: rd_step_def processLine_def final_def
        handleFinalResponse_def proxyCopy_def handleUnsolicited_def emit_def proxied_def)
  then show ?thesis by (intro exI [of _ ?r]) simp
qed

lemma proxied_command:
  assumes c: "proxied c" "sp_response c = None" "\<not> s_readerClosed c"
    and w: "fst (writeline (env_write en) cmd c) = Some 0"
    and env: "env_rounds en = [(map RdLine (ls @ [f]), False)]" "\<forall>l\<in>set ls. \<not> final l" "final f"
  shows "\<exists>c'. at_send_command False cmd False en c = Returned 0 None c' \<and>
    px_new_out c c' = [CondWait 15000] @ map Unsol (ls @ [f]) @ [CondSignal]"
proof -
  let ?c = "emit (CondWait 15000) (c\<lparr>s_type := NO_RESULT, s_responsePrefix := [], s_smsPDU := None, sp_response := Some at_response_new\<rparr>)"
  have p: "proxied ?c" "s_type ?c = NO_RESULT" "s_smsPDU ?c = None" "sp_response ?c = Some at_response_new"
    "out ?c = out c @ [CondWait 15000]"
    using c by (simp_all add: proxied_def emit_def)
  let ?d = "?c\<lparr>out := out ?c @ map Unsol ls\<rparr>"
  have d: "fold rd_step (map RdLine ls) ?c = ?d" by (rule proxied_lines [OF p(1-4) env(2)])
  have pd: "proxied ?d" "s_type ?d = NO_RESULT" "s_smsPDU ?d = None" "sp_response ?d = Some at_response_new"
    using p by (simp_all add: proxied_def)
  obtain r' where r': "finalResponse r' \<noteq> None"
    "rd_step (RdLine f) ?d = ?d\<lparr>sp_response := Some r', out := out ?d @ [Unsol f, CondSignal]\<rparr>"
    using proxied_final [OF pd env(3)] by blast
  let ?e = "?d\<lparr>sp_response := Some r', out := out ?d @ [Unsol f, CondSignal]\<rparr>"
  have e: "fold rd_step (map RdLine (ls @ [f])) ?c = ?e" by (simp add: d r'(2))
  have wait: "wait_loop 15000 (env_rounds en)
      (c\<lparr>s_type := NO_RESULT, s_responsePrefix := [], s_smsPDU := None, sp_response := Some at_response_new\<rparr>) = (Woken, ?e)"
    using c(3) r'(1) by (simp only: env(1) wait_loop.simps e) (auto simp: at_response_new_def emit_def)
  show ?thesis
    using c w wait by (simp add: at_send_command_def at_send_command_full_def at_send_command_full_nolock_def
        clearPendingCommand_def emit_def px_new_out_def at_error_defs)
qed

text \<open>Writing the lines, while no write fails.\<close>

definition targets :: "atc_px \<Rightarrow> int list" where
  "targets p = (case current_client_fd p of Some fd \<Rightarrow> [fd] | None \<Rightarrow> px_fds p)"

definition written :: "atc_px \<Rightarrow> (int \<times> string) list" where
  "written p = map (\<lambda>(fd, s, _). (fd, s)) (px_writes p)"

definition px_healthy :: "atc_px \<Rightarrow> bool" where
  "px_healthy p \<longleftrightarrow> (\<forall>n. 0 \<le> snd (px_io p n)) \<and> (\<forall>fd\<in>set (px_fds p). 0 < fd) \<and>
     (\<forall>fd. current_client_fd p = Some fd \<longrightarrow> fd \<in> set (px_fds p))"

text \<open>What writing leaves alone.\<close>

definition px_same :: "atc_px \<Rightarrow> atc_px \<Rightarrow> bool" where
  "px_same p q \<longleftrightarrow> (\<exists>w. q = p\<lparr>px_writes := w\<rparr>)"

lemma px_same_refl [simp]: "px_same p p"
  unfolding px_same_def by (intro exI [of _ "px_writes p"]) simp

lemma px_same_trans: "px_same p q \<Longrightarrow> px_same q r \<Longrightarrow> px_same p r"
  by (auto simp: px_same_def)

lemma px_same_keeps: "px_same p q \<Longrightarrow> px_healthy p \<Longrightarrow> px_healthy q \<and> targets q = targets p \<and> px_fds q = px_fds p"
  by (auto simp: px_same_def px_healthy_def targets_def split: option.split)

lemma send_ok:
  assumes "send_atc_to_client fd s p = (ret, q)" "px_healthy p"
  shows "px_same p q" "written q = written p @ [(fd, s)]" "0 \<le> ret"
proof -
  obtain b k where "px_io p (length (px_writes p)) = (b, k)" by fastforce
  moreover have "0 \<le> snd (px_io p (length (px_writes p)))" using assms(2) by (simp add: px_healthy_def)
  ultimately show "px_same p q" "written q = written p @ [(fd, s)]" "0 \<le> ret"
    using assms(1) by (auto simp: send_atc_to_client_def px_same_def written_def)
qed

lemma broadcast_ok:
  assumes "px_healthy p" "\<forall>fd\<in>set fds. 0 < fd"
  shows "px_same p (px_broadcast s fds p) \<and> written (px_broadcast s fds p) = written p @ map (\<lambda>fd. (fd, s)) fds"
  using assms
proof (induction fds arbitrary: p)
  case (Cons fd fds)
  obtain ret q where q: "send_atc_to_client fd s p = (ret, q)" by fastforce
  note ok = send_ok [OF q Cons.prems(1)]
  have "px_same q (px_broadcast s fds q) \<and> written (px_broadcast s fds q) = written q @ map (\<lambda>fd. (fd, s)) fds"
    using Cons.IH [of q] Cons.prems px_same_keeps [OF ok(1)] by simp
  then show ?case using Cons.prems ok q by (auto intro: px_same_trans)
qed simp

lemma line_ok:
  assumes "px_healthy p" "length s < 1022"
  shows "\<exists>q. px_onUnsolicited s None p = Some q \<and> px_same p q \<and> written q = written p @ map (\<lambda>fd. (fd, s @ crlf)) (targets p)"
proof (cases "current_client_fd p")
  case None
  then show ?thesis
    using broadcast_ok [of p "px_fds p" "s @ crlf"] assms
    by (auto simp: px_onUnsolicited_def px_text_def crlf_def targets_def px_healthy_def)
next
  case (Some fd)
  obtain ret q where q: "send_atc_to_client fd (s @ crlf) p = (ret, q)" by fastforce
  show ?thesis
    using send_ok [OF q assms(1)] Some assms q
    by (auto simp: px_onUnsolicited_def px_text_def crlf_def targets_def px_healthy_def)
qed

lemma lines_ok:
  assumes "px_healthy p" "\<forall>l\<in>set ls. length l < 1022"
  shows "\<exists>q. px_lines (map Unsol ls) p = Some q \<and> px_same p q \<and>
    written q = written p @ concat (map (\<lambda>l. map (\<lambda>fd. (fd, l @ crlf)) (targets p)) ls)"
  using assms
proof (induction ls arbitrary: p)
  case (Cons l ls)
  obtain q where q: "px_onUnsolicited l None p = Some q" "px_same p q"
      "written q = written p @ map (\<lambda>fd. (fd, l @ crlf)) (targets p)"
    using line_ok [of p l] Cons.prems by auto
  moreover have "px_healthy q" "targets q = targets p" using px_same_keeps [OF q(2)] Cons.prems by auto
  ultimately show ?case using Cons.IH [of q] Cons.prems by (fastforce intro: px_same_trans)
qed simp

lemma px_lines_append: "px_lines (es @ es') = (\<lambda>p. do { p \<leftarrow> px_lines es p; px_lines es' p })"
proof (induction es)
  case (Cons e es)
  show ?case by (rule ext, cases e) (simp_all add: Cons)
qed simp

text \<open>
  Property C36 (error): a client's command is sent, and every line of the modem's answer, the
  final response included, is written in order; but not to that client: the code looks up the
  descriptor that stands behind the polled entries. If a connection has that descriptor, it gets
  the answer; otherwise every client gets it.
\<close>

theorem at_answer_goes_to:
  assumes p: "px_healthy p" "current_client_fd p = None"
    and c: "proxied (px_chan p)" "sp_response (px_chan p) = None" "\<not> s_readerClosed (px_chan p)"
    and env: "px_envs p = ([], en) # rest" "env_rounds en = [(map RdLine (ls @ [f]), False)]"
      "fst (writeline (env_write en) cmd (px_chan p)) = Some 0"
    and lines: "\<forall>l\<in>set ls. \<not> final l" "final f" "\<forall>l\<in>set (ls @ [f]). length l < 1022"
    and cmd: "cmd \<noteq> []" "nul \<notin> set cmd" "length cmd < 4096"
  shows "\<exists>q. px_serve_client False fd behind cmd p = Some (Continue, q) \<and> px_fds q = px_fds p \<and>
    written q = written p @ concat (map (\<lambda>l. map (\<lambda>k. (k, l @ crlf))
      (if behind \<in> set (px_fds p) then [behind] else px_fds p)) (ls @ [f]))"
proof -
  obtain c' where c': "at_send_command False cmd False en (px_chan p) = Returned 0 None c'"
    "px_new_out (px_chan p) c' = [CondWait 15000] @ map Unsol (ls @ [f]) @ [CondSignal]"
    using proxied_command [OF c env(3,2) lines(1,2)] by blast
  let ?cur = "if behind \<in> set (px_fds p) then Some behind else None"
  let ?p = "p\<lparr>px_envs := rest, px_chan := c', current_client_fd := ?cur\<rparr>"
  have t: "px_healthy ?p" "targets ?p = (if behind \<in> set (px_fds p) then [behind] else px_fds p)" "written ?p = written p"
    using p by (simp_all add: px_healthy_def targets_def written_def)
  obtain q where q: "px_lines (map Unsol (ls @ [f])) ?p = Some q" "px_same ?p q"
    "written q = written ?p @ concat (map (\<lambda>l. map (\<lambda>fd. (fd, l @ crlf)) (targets ?p)) (ls @ [f]))"
    using lines_ok [OF t(1) lines(3)] by blast
  have "px_lines ([CondWait 15000] @ map Unsol (ls @ [f]) @ [CondSignal]) ?p = Some q"
    using q(1) by (simp only: px_lines_append px_lines.simps Option.bind.simps append.simps)
  then have cmd': "px_command ?cur (at_send_command False cmd False) p = Some (0, None, q\<lparr>current_client_fd := None\<rparr>)"
    using c' env(1) by (simp add: px_command_def Let_def px_new_out_def)
  have str: "takeWhile (\<lambda>c. c \<noteq> nul) cmd = cmd" using cmd(2) by (auto simp: takeWhile_eq_all_conv)
  have "px_serve_client False fd behind cmd p = Some (Continue, q\<lparr>current_client_fd := None\<rparr>)"
    using cmd cmd' by (simp add: px_serve_client_def str)
  moreover have "px_fds q = px_fds p" using q(2) by (auto simp: px_same_def)
  ultimately show ?thesis using q(3) t by (simp add: written_def)
qed

text \<open>Two clients; the one on descriptor 8 asks, both get the answer.\<close>

definition px_example :: atc_px where
  "px_example = \<lparr>px_chan = \<lparr>s_fd = 3, s_atc_proxy = True, s_unsolHandler = True, s_type = NO_RESULT,
       s_responsePrefix = [], s_smsPDU = None, s_raw_data = None, sp_response = None, s_readerClosed = False,
       s_onTimeout = True, s_onReaderClosed = True, out = []\<rparr>,
     px_dev_fd = 3, px_server_fd = 4, px_fds = [7, 8], current_client_fd = None, px_quit = False, px_reset = False,
     px_asr = False, px_envs = [([], \<lparr>env_write = [Wrote 4], env_rounds = [(map RdLine ([''+CSQ: 20''] @ [''OK'']), False)]\<rparr>)],
     px_handshakes = [], px_writes = [], px_io = (\<lambda>_. (True, 1)), px_closed = []\<rparr>"

lemma at_answer_goes_to_witness:
  "\<exists>q. px_serve_client False 8 0 ''ATI'' px_example = Some (Continue, q) \<and>
     written q = [(7, ''+CSQ: 20'' @ crlf), (8, ''+CSQ: 20'' @ crlf), (7, ''OK'' @ crlf), (8, ''OK'' @ crlf)]"
proof -
  have "fst (writeline [Wrote 4] ''ATI'' (px_chan px_example)) = Some 0"
    by (simp add: px_example_def writeline_def cr_def writer_code_def)
  moreover have "\<not> final ''+CSQ: 20''" "final ''OK''" by code_simp+
  ultimately show ?thesis
    using at_answer_goes_to [of px_example "\<lparr>env_write = [Wrote 4], env_rounds = [(map RdLine ([''+CSQ: 20''] @ [''OK'']), False)]\<rparr>"
        "[]" "[''+CSQ: 20'']" "''OK''" "''ATI''" 8 0]
    by (auto simp: px_healthy_def px_example_def proxied_def written_def nul_def)
qed

text \<open>
  A client that is current and cannot be written to is closed and freed, but not forgotten:
  the next line of the answer is written through the freed connection.
\<close>

lemma freed_client_is_used:
  assumes "current_client_fd p = Some fd" "distinct (px_fds p)" "fd \<in> set (px_fds p)"
    and "snd (px_io p (length (px_writes p))) < 0" "length l < 1022"
  shows "px_lines [Unsol l, Unsol l'] p = None"
proof -
  obtain b k where k: "px_io p (length (px_writes p)) = (b, k)" by fastforce
  then show ?thesis
    using assms by (cases "px_text l' None")
      (auto simp: px_onUnsolicited_def px_text_def crlf_def send_atc_to_client_def px_drop_def)
qed

end
