(* ===== verification/SysFs.thy ===== *)
theory SysFs
  imports CLib
begin

text \<open>
  The file system as the program sees it (sysfs, /proc and /dev): what \<open>access\<close>, \<open>fopen\<close> and
  \<open>fread\<close>, \<open>opendir\<close> and \<open>readdir\<close>, and \<open>readlink\<close> give for a path, and the helpers of
  \<open>qmap_bridge_mode.c\<close> and \<open>device.c\<close> that read through them. The answers for a path do not
  change during one detection. \<open>None\<close> as the result of a helper is undefined behaviour.
\<close>

section \<open>The environment\<close>

text \<open>
  \<open>fs_access\<close> is 0 or the error number; \<open>fs_file\<close> the content of a file that can be opened;
  \<open>fs_dir\<close> the names in the order of \<open>readdir\<close>; \<open>fs_link\<close> the target of a link.
\<close>

record fs =
  fs_access :: "string \<Rightarrow> int"
  fs_file :: "string \<Rightarrow> string option"
  fs_dir :: "string \<Rightarrow> string list option"
  fs_link :: "string \<Rightarrow> string option"

definition ENOENT :: int where "ENOENT = 2"

definition NUL :: char where "NUL = CHR 0x00"

text \<open>The C string in a buffer, and \<open>snprintf\<close> into a buffer of \<open>n\<close> bytes.\<close>

definition cstr :: "string \<Rightarrow> string" where "cstr b = takeWhile (\<lambda>c. c \<noteq> NUL) b"

definition snprintf :: "nat \<Rightarrow> string \<Rightarrow> string" where "snprintf n s = take (n - 1) s"

section \<open>Reading files and directories\<close>

text \<open>The number of bytes read and the buffer of \<open>n\<close> bytes, cleared behind them.\<close>

definition ql_fread :: "fs \<Rightarrow> string \<Rightarrow> nat \<Rightarrow> nat \<times> string" where
  "ql_fread f path n = (case fs_file f path of
       None \<Rightarrow> (0, replicate n NUL)
     | Some s \<Rightarrow> (min n (length s), take n s @ replicate (n - length s) NUL))"

text \<open>\<open>fgets\<close> into a buffer of \<open>n\<close> bytes: a line with its newline, cut to \<open>n - 1\<close>, and the rest.\<close>

definition fgets :: "nat \<Rightarrow> string \<Rightarrow> (string \<times> string) option" where
  "fgets n s = (if s = [] then None else
     let l = takeWhile (\<lambda>c. c \<noteq> CHR 0x0A) s;
         l = take (n - 1) (if length l < length s then l @ [CHR 0x0A] else l)
     in Some (l, drop (length l) s))"

lemma fgets_shorter: "1 < n \<Longrightarrow> fgets n s = Some (l, r) \<Longrightarrow> length r < length s"
  by (cases s) (auto simp: fgets_def Let_def split: if_splits)

definition CM_INVALID_VAL :: int where "CM_INVALID_VAL = - 1"

text \<open>
  The number on the first line. The value is cut to an \<open>int\<close> before it is compared with the
  limits of \<open>long\<close> (64 bits on the armv8 target), so no value is refused. Without a digit the file is closed twice: \<open>None\<close>.
\<close>

definition file_get_value :: "fs \<Rightarrow> string \<Rightarrow> nat \<Rightarrow> int option" where
  "file_get_value f fname base = (case fs_file f fname of
       None \<Rightarrow> Some CM_INVALID_VAL
     | Some s \<Rightarrow> (case fgets 33 s of
           None \<Rightarrow> Some CM_INVALID_VAL
         | Some (l, _) \<Rightarrow> (case strtol base l of (num, ok) \<Rightarrow> if ok then Some (c_int num) else None)))"

text \<open>The first child that has the prefix, cut to 31 characters; empty when there is none.\<close>

definition dir_get_child :: "fs \<Rightarrow> string \<Rightarrow> string \<Rightarrow> string" where
  "dir_get_child f dirname pre = (case fs_dir f dirname of
       None \<Rightarrow> []
     | Some es \<Rightarrow> (case find (\<lambda>n. \<not> prefix ''.'' n \<and> prefix pre n) es of
           None \<Rightarrow> [] | Some n \<Rightarrow> take 31 n))"

text \<open>
  \<open>sscanf(buff, "%15[^=]=%15s")\<close>: the key, and the value when the key is followed by \<open>=\<close>.
\<close>

definition scan_conf :: "string \<Rightarrow> string \<times> string" where
  "scan_conf l = (let k = take 15 (takeWhile (\<lambda>c. c \<noteq> CHR ''='') (cstr l)); r = drop (length k) (cstr l)
     in (k, if k \<noteq> [] \<and> prefix ''='' r
            then take 15 (takeWhile (\<lambda>c. \<not> isspace c) (dropWhile isspace (tl r))) else []))"

text \<open>The first line whose key begins with \<open>key\<close>, in any case.\<close>

function conf_lines :: "string \<Rightarrow> string \<Rightarrow> int" where
  "conf_lines key s = (case fgets 127 s of None \<Rightarrow> CM_INVALID_VAL
     | Some (l, r) \<Rightarrow> (case scan_conf l of (k, v) \<Rightarrow>
         if strcaseeq (take (length key) k) key then atoi v else conf_lines key r))"
  by pat_completeness auto
termination by (relation "measure (\<lambda>(key, s). length s)") (auto dest: fgets_shorter [rotated])

declare conf_lines.simps [simp del]

definition conf_get_val :: "fs \<Rightarrow> string \<Rightarrow> string \<Rightarrow> int" where
  "conf_get_val f fname key = (case fs_file f fname of None \<Rightarrow> CM_INVALID_VAL | Some s \<Rightarrow> conf_lines key s)"

text \<open>\<open>readlink\<close> into a buffer of \<open>n\<close> bytes, terminated there: undefined when the buffer is full.\<close>

definition readlink :: "fs \<Rightarrow> nat \<Rightarrow> string \<Rightarrow> string option option" where
  "readlink f n path = (case fs_link f path of None \<Rightarrow> Some None
     | Some t \<Rightarrow> if n \<le> length t then None else Some (Some t))"

text \<open>What follows the last slash at a position that is not 0, and else the text without its first character.\<close>

definition after_slash :: "string \<Rightarrow> string" where
  "after_slash t = (let r = takeWhile (\<lambda>c. c \<noteq> CHR ''/'') (rev t) in rev (if length r < length t then r else take (length t - 1) r))"

section \<open>Lemmas\<close>

lemma readlink_Some: "readlink f n path = Some (Some t) \<longleftrightarrow> fs_link f path = Some t \<and> length t < n"
  by (auto simp: readlink_def split: option.splits)

lemma find_in: "find P xs = Some x \<Longrightarrow> x \<in> set xs \<and> P x"
  by (induction xs) (auto split: if_splits)

lemma dir_get_child_in:
  assumes "dir_get_child f d pre \<noteq> []"
  shows "\<exists>es n. fs_dir f d = Some es \<and> n \<in> set es \<and> prefix pre n \<and> dir_get_child f d pre = take 31 n"
proof -
  obtain es n where "fs_dir f d = Some es" "find (\<lambda>n. \<not> prefix ''.'' n \<and> prefix pre n) es = Some n"
    using assms by (auto simp: dir_get_child_def split: option.splits)
  then show ?thesis using find_in [of "\<lambda>n. \<not> prefix ''.'' n \<and> prefix pre n" es n] by (auto simp: dir_get_child_def)
qed

lemma dir_get_child_short: "length (dir_get_child f d pre) \<le> 31"
  by (auto simp: dir_get_child_def split: option.splits)

lemma ql_fread_length: "ql_fread f path n = (k, b) \<Longrightarrow> length b = n"
  by (auto simp: ql_fread_def split: option.splits)

end
