(* ===== verification/AddrConf.thy ===== *)
theory AddrConf
  imports AtcAddr Profile
begin

text \<open>
  Configuring the network interface (\<open>udhcpc.c\<close>, the variant the Makefile builds, and
  \<open>update_resolv_conf\<close> of \<open>util.c\<close>). What the code does to the system is a list of actions: the
  shell commands it runs, the DHCP client, the files of the driver it writes, the MTU it sets.
  What the system answers is the record \<open>addr_env\<close>. The file \<open>/etc/resolv.conf\<close> is the list of
  what successive \<open>fgets\<close> give, without the newlines. \<open>None\<close> is an undefined shift.
\<close>

section \<open>System and state\<close>

text \<open>
  \<open>e_if_addr n\<close> is the address of the interface at its \<open>n\<close>-th reading (0 when it has none), in
  memory order; \<open>e_raw_ip\<close> the first character of the driver's raw-IP file, if there is one;
  \<open>e_link_read\<close> what the driver's link file gives back; \<open>e_stale_routes\<close> how often a default
  route could be deleted; \<open>e_bridge\<close> what \<open>ql_bridge_mode_detect\<close> returns.
\<close>

record addr_env =
  e_ip_tool :: bool
  e_link_file :: bool
  e_link_read :: "string option"
  e_mtu :: "int option"
  e_up :: bool
  e_bridge :: bool
  e_if_addr :: "nat \<Rightarrow> u32"
  e_raw_ip :: "char option"
  e_stale_routes :: nat

datatype addr_act = Shell string | Udhcpc string | LinkState string | SetMtu string u32 | RawIp string | AskRoutes string

record addr_st =
  acts :: "addr_act list"
  resolv :: "string list"

datatype call_ops = QmiOps | AtcOps | MbimOps

definition act :: "addr_act list \<Rightarrow> addr_st \<Rightarrow> addr_st" where
  "act as s = s\<lparr>acts := acts s @ as\<rparr>"

text \<open>\<open>snprintf\<close> into the 128 bytes of a command.\<close>

definition cmd :: "string \<Rightarrow> string" where "cmd t = take 127 t"

definition ql_system :: "string \<Rightarrow> addr_st \<Rightarrow> addr_st" where
  "ql_system t = act [Shell (cmd t)]"

section \<open>Texts\<close>

definition qmi2addr :: "u32 \<Rightarrow> u32" where
  "qmi2addr x = drop_bit 24 x OR (drop_bit 8 x AND 0xff00) OR (push_bit 8 x AND 0xff0000) OR push_bit 24 x"

text \<open>The most significant octet comes first.\<close>

definition ipv4Str :: "u32 \<Rightarrow> string" where
  "ipv4Str a = dec_nat (unat (octet a 3)) @ CHR ''.'' # dec_nat (unat (octet a 2)) @ CHR ''.''
     # dec_nat (unat (octet a 1)) @ CHR ''.'' # dec_nat (unat (octet a 0))"

definition low_hex_digit :: "nat \<Rightarrow> char" where
  "low_hex_digit d = (if d < 10 then char_of (48 + d) else char_of (87 + d))"

fun low_hex :: "nat \<Rightarrow> string" where
  "low_hex n = (if n < 16 then [low_hex_digit n] else low_hex (n div 16) @ [low_hex_digit (n mod 16)])"

declare low_hex.simps [simp del]

fun ipv6_groups :: "byte list \<Rightarrow> string list" where
  "ipv6_groups (x # y # bs) = low_hex (unat x * 256 + unat y) # ipv6_groups bs"
| "ipv6_groups _ = []"

fun join_colon :: "string list \<Rightarrow> string" where
  "join_colon [] = []"
| "join_colon [g] = g"
| "join_colon (g # h # gs) = g @ CHR '':'' # join_colon (h # gs)"

definition ipv6Str :: "byte list \<Rightarrow> string" where
  "ipv6Str a = join_colon (ipv6_groups a)"

text \<open>The first byte of an array is not 0.\<close>

definition first_set :: "byte list \<Rightarrow> bool" where
  "first_set b = (case b of [] \<Rightarrow> False | x # _ \<Rightarrow> x \<noteq> 0)"

section \<open>The name servers\<close>

text \<open>
  At most 16 lines of others are read; the lines with the interface's tag among those read are
  left out. Without new servers and without such lines the file is not written.
\<close>

definition dns_tag :: "int \<Rightarrow> string \<Rightarrow> string" where
  "dns_tag ipver ifname = take 63 (''# IPV'' @ dec_int ipver @ '' '' @ ifname)"

fun read_dns :: "string \<Rightarrow> nat \<Rightarrow> string list \<Rightarrow> bool \<times> string list" where
  "read_dns tag 0 lines = (False, [])"
| "read_dns tag (Suc n) [] = (False, [])"
| "read_dns tag (Suc n) (l # lines) = (if strstr l tag
     then (case read_dns tag (Suc n) lines of (_, info) \<Rightarrow> (True, info))
     else (case read_dns tag n lines of (found, info) \<Rightarrow> (found, l # info)))"

definition server_line :: "string \<Rightarrow> string option \<Rightarrow> string list" where
  "server_line tag d = (case d of None \<Rightarrow> [] | Some a \<Rightarrow> [''nameserver '' @ a @ '' '' @ tag])"

definition resolv_after :: "string \<Rightarrow> string option \<Rightarrow> string option \<Rightarrow> string list \<Rightarrow> string list" where
  "resolv_after tag dns1 dns2 lines = (case read_dns tag 16 lines of (found, info) \<Rightarrow>
     if dns1 = None \<and> \<not> found then lines else server_line tag dns1 @ server_line tag dns2 @ info)"

definition update_resolv_conf :: "int \<Rightarrow> string \<Rightarrow> string option \<Rightarrow> string option \<Rightarrow> addr_st \<Rightarrow> addr_st" where
  "update_resolv_conf ipver ifname dns1 dns2 s =
     s\<lparr>resolv := resolv_after (dns_tag ipver ifname) dns1 dns2 (resolv s)\<rparr>"

section \<open>The interface\<close>

definition ifc_set_state :: "addr_env \<Rightarrow> string \<Rightarrow> bool \<Rightarrow> addr_st \<Rightarrow> addr_st" where
  "ifc_set_state e ifname state = ql_system
     ((if e_ip_tool e then ''ip link set dev '' else ''ifconfig '') @ ifname @ '' '' @ (if state then ''up'' else ''down''))"

definition ql_set_mtu :: "addr_env \<Rightarrow> string \<Rightarrow> u32 \<Rightarrow> addr_st \<Rightarrow> addr_st" where
  "ql_set_mtu e ifname mtu = (case e_mtu e of
       Some m \<Rightarrow> if m \<noteq> sint mtu then act [SetMtu ifname mtu] else act [] | None \<Rightarrow> act [])"

text \<open>
  What the link file gives back is read over the text just written. It says that the link of
  every context is off when it begins with a 0 of its own line. A read that fails (\<open>None\<close>) gives -1
  as a \<open>size_t\<close>, which is more than 1, so the text just written is looked at.
\<close>

definition all_links_off :: "string \<Rightarrow> string option \<Rightarrow> bool" where
  "all_links_off text r \<longleftrightarrow> (let buf = (case r of None \<Rightarrow> text | Some t \<Rightarrow> t @ drop (length t) text) in
     (case r of None \<Rightarrow> True | Some t \<Rightarrow> 1 < length t) \<and> (take 2 buf = [CHR ''0'', CHR 0x0A] \<or>
       map tolower (take 4 buf) = [CHR ''0'', CHR ''x'', CHR ''0'', CHR 0x0A]))"

definition ql_set_driver_link_state :: "addr_env \<Rightarrow> PROFILE_T \<Rightarrow> bool \<Rightarrow> addr_st \<Rightarrow> addr_st" where
  "ql_set_driver_link_state e p link s =
     (if \<not> e_link_file e then s
      else let st = (if qmap_mode p \<le> 1 then of_bool link else (if link then 0 else 0x80) + (muxid p AND 0x7F));
               text = dec_int st @ [CHR 0x0A];
               s = act [LinkState text] s
        in if \<not> link \<and> qmapnet_adapter p \<noteq> [] \<and> qmapnet_adapter p \<noteq> usbnet_adapter p
             \<and> all_links_off text (e_link_read e)
           then ifc_set_state e (usbnet_adapter p) False s else s)"

definition prefix_bits :: "u32 \<Rightarrow> nat" where
  "prefix_bits m = length (filter (bit m) [0..<32])"

text \<open>Without the tool \<open>ip\<close> the mask is computed again, by shifts that are undefined for 0.\<close>

definition update_ipv4_address :: "addr_env \<Rightarrow> string \<Rightarrow> string \<Rightarrow> string \<Rightarrow> nat \<Rightarrow> addr_st \<Rightarrow> addr_st option" where
  "update_ipv4_address e ifname ip gw pfx s =
     (if e_ip_tool e then Some
        (ql_system (''ip -4 route add default via '' @ gw @ '' dev '' @ ifname)
        (ql_system (''ip -4 address add '' @ ip @ ''/'' @ dec_nat pfx @ '' dev '' @ ifname)
        (ql_system (''ip -4 address flush dev '' @ ifname) s)))
      else if pfx = 0 \<or> 32 < pfx then None
      else let m = push_bit (32 - pfx) (drop_bit (32 - pfx) 0xFFFFFFFF) in Some
        (ql_system (''route add default gw '' @ gw @ '' dev '' @ ifname)
        (act (replicate (e_stale_routes e + 1) (Shell (cmd (''route del default dev '' @ ifname))))
        (ql_system (''ifconfig '' @ ifname @ '' '' @ ip @ '' netmask '' @ ipv4Str m) s))))"

definition update_ipv6_address :: "addr_env \<Rightarrow> string \<Rightarrow> string \<Rightarrow> nat \<Rightarrow> addr_st \<Rightarrow> addr_st" where
  "update_ipv6_address e ifname ip pfx s =
     (if e_ip_tool e then
        ql_system (''ip -6 route add default dev '' @ ifname)
        (ql_system (''ip -6 address add '' @ ip @ ''/'' @ dec_nat pfx @ '' dev '' @ ifname)
        (ql_system (''ip -6 address flush dev '' @ ifname) s))
      else
        ql_system (''route -A inet6 add default dev '' @ ifname)
        (ql_system (''ifconfig '' @ ifname @ '' '' @ ip @ ''/'' @ dec_nat pfx) s))"

definition by_qmi_v4 :: "addr_env \<Rightarrow> string \<Rightarrow> IPV4_T \<Rightarrow> addr_st \<Rightarrow> addr_st option" where
  "by_qmi_v4 e ifname v s = (if Address v = 0 then Some s else do {
     s \<leftarrow> update_ipv4_address e ifname (ipv4Str (Address v)) (ipv4Str (Gateway v)) (prefix_bits (SubnetMask v)) s;
     Some (if DnsPrimary v = 0 then s
       else update_resolv_conf 4 ifname (Some (ipv4Str (DnsPrimary v)))
         (Some (ipv4Str (if DnsSecondary v \<noteq> 0 then DnsSecondary v else DnsPrimary v))) s) })"

definition by_qmi_v6 :: "addr_env \<Rightarrow> string \<Rightarrow> IPV6_T \<Rightarrow> addr_st \<Rightarrow> addr_st" where
  "by_qmi_v6 e ifname v s = (if \<not> first_set (Address6 v) \<or> PrefixLengthIPAddr v = 0 then s
     else let s = update_ipv6_address e ifname (ipv6Str (Address6 v)) (unat (PrefixLengthIPAddr v)) s
       in if \<not> first_set (DnsPrimary6 v) then s
          else update_resolv_conf 6 ifname (Some (ipv6Str (DnsPrimary6 v)))
            (Some (ipv6Str (if first_set (DnsSecondary6 v) then DnsSecondary6 v else DnsPrimary6 v))) s)"

definition update_ip_address_by_qmi ::
  "addr_env \<Rightarrow> string \<Rightarrow> IPV4_T option \<Rightarrow> IPV6_T option \<Rightarrow> addr_st \<Rightarrow> addr_st option" where
  "update_ip_address_by_qmi e ifname v4 v6 s = do {
     s \<leftarrow> (case v4 of None \<Rightarrow> Some s | Some v \<Rightarrow> by_qmi_v4 e ifname v s);
     Some (case v6 of None \<Rightarrow> s | Some v \<Rightarrow> by_qmi_v6 e ifname v s) }"

section \<open>Start and stop\<close>

definition the_ifname :: "PROFILE_T \<Rightarrow> string" where
  "the_ifname p = (if qmapnet_adapter p \<noteq> [] then qmapnet_adapter p else usbnet_adapter p)"

text \<open>A DHCP client that found no address may need the driver in raw-IP mode.\<close>

definition ql_raw_ip_mode_check :: "addr_env \<Rightarrow> string \<Rightarrow> u32 \<Rightarrow> addr_st \<Rightarrow> bool \<times> addr_st" where
  "ql_raw_ip_mode_check e ifname ip s =
     (if e_if_addr e 0 = qmi2addr ip then (False, s)
      else (case e_raw_ip e of None \<Rightarrow> (False, s)
        | Some c \<Rightarrow> if c = CHR ''0'' \<or> c = CHR ''N''
            then (True, ifc_set_state e ifname True (act [RawIp ''Y''] (ifc_set_state e ifname False s)))
            else (False, s)))"

definition dhcp_client :: "string \<Rightarrow> addr_act" where
  "dhcp_client ifname = Udhcpc (cmd (''busybox udhcpc -f -n -q -t 5 -i '' @ ifname))"

definition ask_routes :: "string \<Rightarrow> addr_act" where
  "ask_routes ifname = AskRoutes (cmd (''route -n | grep '' @ ifname @ '' | awk '' @ [CHR 0x27] @ ''{print $1}'' @ [CHR 0x27]
     @ '' | grep 0.0.0.0''))"

text \<open>DHCP, and what follows it for a QMI modem: a second try, then the address of the modem.\<close>

definition dhcp_v4 :: "call_ops \<Rightarrow> addr_env \<Rightarrow> string \<Rightarrow> PROFILE_T \<Rightarrow> addr_st \<Rightarrow> (PROFILE_T \<times> addr_st) option" where
  "dhcp_v4 ops e ifname p s =
     (let s = act [dhcp_client ifname] s in
      case ops of
        AtcOps \<Rightarrow> Some (p\<lparr>udhcpc_ip := e_if_addr e 0\<rparr>, s)
      | MbimOps \<Rightarrow> Some (p, s)
      | QmiOps \<Rightarrow> do {
          let (changed, s) = ql_raw_ip_mode_check e ifname (Address (ipv4 p)) s;
          let s = (if changed then act [dhcp_client ifname] s else s);
          s \<leftarrow> (if e_if_addr e 1 = qmi2addr (Address (ipv4 p)) then Some s
                else update_ip_address_by_qmi e ifname (Some (ipv4 p)) None s);
          Some (p, act [ask_routes ifname] s) })"

definition addr_start_v4 :: "call_ops \<Rightarrow> addr_env \<Rightarrow> string \<Rightarrow> PROFILE_T \<Rightarrow> addr_st \<Rightarrow> (PROFILE_T \<times> addr_st) option" where
  "addr_start_v4 ops e ifname p s =
     (if Address (ipv4 p) = 0 then Some (p, s)
      else if no_dhcp p \<or> idProduct (usb_dev p) = 0x0316 \<or> ops = MbimOps
      then map_option (Pair p) (update_ip_address_by_qmi e ifname (Some (ipv4 p)) None s)
      else dhcp_v4 ops e ifname p s)"

definition addr_start_v6 :: "addr_env \<Rightarrow> string \<Rightarrow> PROFILE_T \<Rightarrow> addr_st \<Rightarrow> addr_st option" where
  "addr_start_v6 e ifname p s = (let v = ipv6 p in
     if \<not> first_set (Address6 v) \<or> PrefixLengthIPAddr v = 0 then Some s
     else do {
       s \<leftarrow> update_ip_address_by_qmi e ifname None (Some v) s;
       Some (if first_set (DnsPrimary6 v) \<or> first_set (DnsSecondary6 v)
         then update_resolv_conf 6 ifname
           (if first_set (DnsPrimary6 v) then Some (ipv6Str (DnsPrimary6 v)) else None)
           (if first_set (DnsSecondary6 v) then Some (ipv6Str (DnsSecondary6 v)) else None) s
         else s) })"

definition bring_up :: "addr_env \<Rightarrow> string \<Rightarrow> PROFILE_T \<Rightarrow> addr_st \<Rightarrow> addr_st" where
  "bring_up e ifname p s =
     (let s = (if rawIP p \<noteq> 0 \<and> Address (ipv4 p) \<noteq> 0 \<and> Mtu (ipv4 p) \<noteq> 0 then ql_set_mtu e ifname (Mtu (ipv4 p)) s else s);
          s = (if ifname \<noteq> usbnet_adapter p
               then let s = ifc_set_state e (usbnet_adapter p) True s in
                 if e_up e then ifc_set_state e ifname False s else s
               else s)
      in ifc_set_state e ifname True s)"

definition start_interface :: "call_ops \<Rightarrow> addr_env \<Rightarrow> PROFILE_T \<Rightarrow> addr_st \<Rightarrow> (PROFILE_T \<times> addr_st) option" where
  "start_interface ops e p s =
     (let ifname = the_ifname p;
          s = bring_up e ifname p (ql_set_driver_link_state e p True s) in
      if e_bridge e then Some (p, s)
      else do {
        (p, s) \<leftarrow> addr_start_v4 ops e ifname p s;
        s \<leftarrow> addr_start_v6 e ifname p s;
        Some (p, s) })"

definition stop_interface :: "addr_env \<Rightarrow> PROFILE_T \<Rightarrow> addr_st \<Rightarrow> PROFILE_T \<times> addr_st" where
  "stop_interface e p s =
     (let ifname = the_ifname p; s = ql_set_driver_link_state e p False s;
          s = ql_system ((if e_ip_tool e then ''ip addr flush dev '' @ ifname else ''ifconfig '' @ ifname @ '' 0.0.0.0'')) s
      in (p\<lparr>udhcpc_ip := 0\<rparr>, ifc_set_state e ifname False s))"

end
