(* ===== verification/QmapMode.thy ===== *)
theory QmapMode
  imports SysFs QmiReq AddrConf
begin

text \<open>
  The multiplexing mode of the network driver (\<open>qmap_bridge_mode.c\<close>): which mode the driver is
  in, which multiplexer identifier the call is bound to and which network interface carries it,
  and the bridge mode. The file system is the environment of \<open>SysFs\<close>, the driver's answer to the
  ioctl an argument; the files written are the result, as pairs of a path and a content. \<open>None\<close>
  is an access outside an array.
\<close>

section \<open>What the driver reports\<close>

text \<open>
  \<open>RMNET_INFO\<close> with the mode and the tables of 8 names and identifiers; the driver terminates
  every name inside its row. A driver without the ioctl leaves everything 0.
\<close>

record rmnet_modes = RMNET_INFO +
  rmnet_qmap_mode :: u32
  rmnet_ifname :: "string list"
  rmnet_mux_id :: "byte list"

type_synonym writes = "(string \<times> string) list"

text \<open>Reading an array at an \<open>int\<close>.\<close>

definition nth_int :: "'a list \<Rightarrow> int \<Rightarrow> 'a option" where
  "nth_int xs i = (if 0 \<le> i \<and> i < int (length xs) then Some (xs ! nat i) else None)"

definition offset_id :: "PROFILE_T \<Rightarrow> int" where
  "offset_id p = (if qmap_mode p = 1 then 0 else if muxid p = 0 then pdp p - 1 else muxid p - 0x81)"

definition from_driver_info :: "rmnet_modes \<Rightarrow> PROFILE_T \<Rightarrow> PROFILE_T option" where
  "from_driver_info d p = (let p = p\<lparr>qmap_mode := sint (rmnet_qmap_mode d)\<rparr> in
     if qmap_mode p = 0 then Some p else do {
       m \<leftarrow> nth_int (rmnet_mux_id d) (offset_id p);
       n \<leftarrow> nth_int (rmnet_ifname d) (offset_id p);
       Some (p\<lparr>muxid := uint m, qmapnet_adapter := take 31 n,
         qmap_size := sint (rmnet_rx_urb_size d), qmap_version := sint (rmnet_qmap_version d)\<rparr>) })"

section \<open>The mode file\<close>

definition class_net :: "string \<Rightarrow> string \<Rightarrow> string" where
  "class_net ifname file = ''/sys/class/net/'' @ ifname @ file"

definition qmap_mode_paths :: "PROFILE_T \<Rightarrow> string list" where
  "qmap_mode_paths p = [class_net (usbnet_adapter p) ''/qmap_mode'',
     ''/sys/module/'' @ driver_name p @ ''/parameters/qmap_mode'',
     class_net (usbnet_adapter p) ''/device/driver/module/parameters/qmap_mode'']"

text \<open>The search ends (\<open>None\<close>) when a file is there and cannot be read; \<open>Some None\<close> when there is no file.\<close>

fun first_readable :: "fs \<Rightarrow> string list \<Rightarrow> string option option" where
  "first_readable f [] = Some None"
| "first_readable f (x # xs) = (if fs_access f x = 0 then Some (Some x)
     else if fs_access f x \<noteq> ENOENT then None else first_readable f xs)"

definition mode_binding :: "PROFILE_T \<Rightarrow> int \<Rightarrow> int \<times> string" where
  "mode_binding p m =
     (if 1 < m
      then let mux = (if muxid p = 0 then pdp p + 0x80 else muxid p)
        in (mux, snprintf 32 (take 16 (usbnet_adapter p) @ ''.'' @ dec_int (mux - 0x80)))
      else if m = 1 then (0x81, usbnet_adapter p)
      else (muxid p, qmapnet_adapter p))"

definition by_mode_file :: "fs \<Rightarrow> string \<Rightarrow> PROFILE_T \<Rightarrow> PROFILE_T" where
  "by_mode_file f path p = (case ql_fread f path 128 of (n, b) \<Rightarrow>
     if n = 0 then p
     else let m = atoi (cstr b)
       in p\<lparr>qmap_mode := m, muxid := fst (mode_binding p m), qmapnet_adapter := snd (mode_binding p m)\<rparr>)"

section \<open>The multiplexer file of the upstream driver\<close>

text \<open>
  The two digits at a place of the file, five characters a line, as the code reads them. A \<open>char\<close>
  is unsigned on the armv8 target; the file holds digits.
\<close>

definition hex2 :: "string \<Rightarrow> int \<Rightarrow> int option" where
  "hex2 b i = do { x \<leftarrow> nth_int b (5 * i + 2); y \<leftarrow> nth_int b (5 * i + 3);
     Some ((int (of_char x) - 48) * 16 + (int (of_char y) - 48)) }"

definition qmimux :: "int \<Rightarrow> string" where
  "qmimux i = snprintf 32 (''qmimux'' @ dec_int i)"

definition by_add_mux :: "fs \<Rightarrow> PROFILE_T \<Rightarrow> PROFILE_T option" where
  "by_add_mux f p = (case ql_fread f (class_net (usbnet_adapter p) ''/qmi/add_mux'') 128 of (n, b) \<Rightarrow>
     if n < 5 then Some p
     else let p = p\<lparr>qmap_mode := int (n div 5)\<rparr> in
       if 1 < qmap_mode p then
         (if muxid p = 0
          then do { m \<leftarrow> hex2 b (pdp p - 1); Some (p\<lparr>muxid := m, qmapnet_adapter := qmimux (pdp p - 1)\<rparr>) }
          else do { m \<leftarrow> hex2 b (muxid p - 0x81); Some (p\<lparr>muxid := m, qmapnet_adapter := qmimux (m - 0x81)\<rparr>) })
       else if qmap_mode p = 1 then do { m \<leftarrow> hex2 b 0; Some (p\<lparr>muxid := m, qmapnet_adapter := qmimux 0\<rparr>) }
       else Some p)"

definition qmidev_is_qmiwwan :: "string \<Rightarrow> bool" where
  "qmidev_is_qmiwwan ch = prefix ''/dev/cdc-wdm'' ch"

definition qmidev_is_gobinet :: "string \<Rightarrow> bool" where
  "qmidev_is_gobinet ch = prefix ''/dev/qcqmi'' ch"

definition from_files :: "fs \<Rightarrow> PROFILE_T \<Rightarrow> PROFILE_T option" where
  "from_files f p = (case first_readable f (qmap_mode_paths p) of
       None \<Rightarrow> Some p
     | Some (Some path) \<Rightarrow> Some (by_mode_file f path p)
     | Some None \<Rightarrow>
         if qmidev_is_qmiwwan (qmichannel p) \<and> fs_access f (''/sys/class/net/qmimux'' @ dec_int (pdp p - 1)) = 0
         then by_add_mux f p else Some p)"

section \<open>The detection\<close>

text \<open>The name of the driver behind the interface, from the link in sysfs.\<close>

definition driver_of :: "fs \<Rightarrow> PROFILE_T \<Rightarrow> string option" where
  "driver_of f p = (case readlink f 510 (class_net (usbnet_adapter p) ''/device/driver'') of
       Some (Some t) \<Rightarrow> if CHR ''/'' \<in> set t then Some (take 31 (rev (takeWhile (\<lambda>c. c \<noteq> CHR ''/'') (rev t)))) else None
     | _ \<Rightarrow> None)"

definition default_size :: "fs \<Rightarrow> PROFILE_T \<Rightarrow> int" where
  "default_size f p = (if qmap_size p \<noteq> 0 then qmap_size p
     else let path = class_net (usbnet_adapter p) ''/qmap_size''; (n, b) = ql_fread f path 32
       in if fs_access f path = 0 \<and> 0 < n then atoi (cstr b) else 16 * 1024)"

definition qmap_defaults :: "fs \<Rightarrow> PROFILE_T \<Rightarrow> PROFILE_T" where
  "qmap_defaults f p = (if qmap_mode p = 0 then p
     else p\<lparr>qmap_size := default_size f p, qmap_version := (if qmap_version p = 0 then 0x05 else qmap_version p)\<rparr>)"

text \<open>All 16 bytes of the buffer are written; those behind the text are what \<open>stack\<close> held.\<close>

definition ql_set_driver_bridge_mode :: "string \<Rightarrow> PROFILE_T \<Rightarrow> writes" where
  "ql_set_driver_bridge_mode stack p =
     (let t = (if 0 \<le> enable_bridge p \<and> enable_bridge p < 10 then ''0'' else []) @ dec_int (enable_bridge p) @ [CHR 0x0A, NUL]
      in [(class_net (if qmap_mode p \<noteq> 0 then qmapnet_adapter p else usbnet_adapter p) ''/bridge_mode'',
           t @ drop (length t) stack)])"

definition ql_qmi_qmap_mode_detect :: "string \<Rightarrow> fs \<Rightarrow> rmnet_modes \<Rightarrow> PROFILE_T \<Rightarrow> (PROFILE_T \<times> writes) option" where
  "ql_qmi_qmap_mode_detect stack f d p = do {
     name \<leftarrow> driver_of f p;
     let p = p\<lparr>driver_name := name, rmnet_info := RMNET_INFO.truncate d\<rparr>;
     p \<leftarrow> (if rmnet_size d \<noteq> 0 then from_driver_info d p else from_files f p);
     let p = qmap_defaults f p;
     Some (p, ql_set_driver_bridge_mode stack p) }"

text \<open>Over MBIM the contexts are VLANs of the interface, or interfaces of the PCIe driver.\<close>

definition ql_mbim_usb_vlan_mode_detect :: "fs \<Rightarrow> PROFILE_T \<Rightarrow> PROFILE_T" where
  "ql_mbim_usb_vlan_mode_detect f p =
     (let name = usbnet_adapter p @ ''.'' @ dec_int (pdp p) in
      if fs_access f (class_net name []) = 0
      then p\<lparr>qmap_mode := 4, muxid := pdp p, qmapnet_adapter := take 31 name\<rparr> else p)"

definition ql_mbim_mhi_qmap_mode_detect :: "rmnet_modes \<Rightarrow> PROFILE_T \<Rightarrow> PROFILE_T option" where
  "ql_mbim_mhi_qmap_mode_detect d p =
     (let p = p\<lparr>rmnet_info := RMNET_INFO.truncate d\<rparr> in
      if rmnet_size d = 0 then Some p
      else let p = p\<lparr>qmap_mode := sint (rmnet_qmap_mode d)\<rparr> in
        if qmap_mode p = 0 then Some p else do {
          n \<leftarrow> nth_int (rmnet_ifname d) (if qmap_mode p = 1 then 0 else pdp p - 1);
          Some (p\<lparr>muxid := pdp p, qmapnet_adapter := n,
            qmap_size := sint (rmnet_rx_urb_size d), qmap_version := sint (rmnet_qmap_version d)\<rparr>) })"

definition DRV_INVALID :: int where "DRV_INVALID = 0"
definition SOFTWARE_QMI :: int where "SOFTWARE_QMI = 1"
definition SOFTWARE_MBIM :: int where "SOFTWARE_MBIM = 2"
definition SOFTWARE_ECM_RNDIS_NCM :: int where "SOFTWARE_ECM_RNDIS_NCM = 3"
definition SOFTWARE_QRTR :: int where "SOFTWARE_QRTR = 4"

lemmas software_simps = DRV_INVALID_def SOFTWARE_QMI_def SOFTWARE_MBIM_def SOFTWARE_ECM_RNDIS_NCM_def
  SOFTWARE_QRTR_def HARDWARE_PCIE_def HARDWARE_USB_def HARDWARE_IPA_def

definition ql_qmap_mode_detect :: "string \<Rightarrow> fs \<Rightarrow> rmnet_modes \<Rightarrow> PROFILE_T \<Rightarrow> (PROFILE_T \<times> writes) option" where
  "ql_qmap_mode_detect stack f d p =
     (if software_interface p = SOFTWARE_MBIM then
        if hardware_interface p = HARDWARE_USB then Some (ql_mbim_usb_vlan_mode_detect f p, [])
        else if hardware_interface p = HARDWARE_PCIE then map_option (\<lambda>p. (p, [])) (ql_mbim_mhi_qmap_mode_detect d p)
        else Some (p, [])
      else if software_interface p = SOFTWARE_QMI then ql_qmi_qmap_mode_detect stack f d p
      else Some (p, []))"

section \<open>Bridge mode and raw-IP mode\<close>

text \<open>Where the driver keeps the bridge mode and its address: with the interface or with the module.\<close>

definition bridge_files :: "fs \<Rightarrow> PROFILE_T \<Rightarrow> (string \<times> string) option" where
  "bridge_files f p =
     (let i = class_net (the_ifname p); m = (\<lambda>x. ''/sys/module/'' @ driver_name p @ ''/parameters'' @ x);
          r = fs_access f (i ''/bridge_ipv4'')
      in if r = 0 then Some (i ''/bridge_mode'', i ''/bridge_ipv4'')
         else if r = ENOENT \<and> fs_access f (m ''/bridge_mode'') = 0 then Some (m ''/bridge_mode'', m ''/bridge_ipv4'')
         else None)"

definition ql_bridge_mode_detect :: "fs \<Rightarrow> PROFILE_T \<Rightarrow> bool \<times> writes" where
  "ql_bridge_mode_detect f p = (case bridge_files f p of None \<Rightarrow> (False, [])
     | Some (mode, ip) \<Rightarrow> (case ql_fread f mode 64 of (n, b) \<Rightarrow>
         if n = 0 \<or> hd b = CHR ''0'' then (False, [])
         else (True, [(ip, ''0x'' @ low_hex (unat (Address (ipv4 p))) @
           (if strstr ip ''/sys/class/net/'' \<or> qmap_mode p = 0 \<or> qmap_mode p = 1 then [] else CHR '':'' # dec_int (muxid p)))])))"

text \<open>The result, and whether the file is opened for writing and written; \<open>ok\<close> is whether both succeed.\<close>

definition ql_enable_qmi_wwan_rawip_mode :: "bool \<Rightarrow> fs \<Rightarrow> PROFILE_T \<Rightarrow> int \<times> writes" where
  "ql_enable_qmi_wwan_rawip_mode ok f p =
     (if \<not> qmidev_is_qmiwwan (qmichannel p) then (0, [])
      else let path = class_net (usbnet_adapter p) ''/qmi/rawip''; (n, b) = ql_fread f path 4 in
        if n = 0 \<or> hd b = CHR ''1'' \<or> hd b = CHR ''Y'' then (0, [])
        else if ok then (0, [(path, ''Y'')]) else (1, []))"

datatype qmi_device_ops = gobi_qmidev_ops | qmiwwan_qmidev_ops | mbim_dev_ops | atc_dev_ops

definition ql_driver_type_detect :: "PROFILE_T \<Rightarrow> qmi_device_ops" where
  "ql_driver_type_detect p = (if qmidev_is_gobinet (qmichannel p) then gobi_qmidev_ops else qmiwwan_qmidev_ops)"

end
