(* ===== verification/DeviceScan.thy ===== *)
theory DeviceScan
  imports QmapMode
begin

text \<open>
  Finding the modem (\<open>device.c\<close>) in the file system of \<open>SysFs\<close>: the walk over the USB devices,
  their interfaces, drivers, control channels and serial ports, the PCIe devices, and the fixed
  names of the AT device. \<open>None\<close> is undefined behaviour.
\<close>

section \<open>A USB device and its interface\<close>

record usb_interface_info =
  bNumEndpoints :: int
  bInterfaceClass :: int
  bInterfaceSubClass :: int
  bInterfaceProtocol :: int
  intf_driver :: string

definition usb_dev_zero :: usb_device_info where
  "usb_dev_zero = \<lparr>idVendor = 0, idProduct = 0, busnum = 0, devnum = 0, bNumInterfaces = 0\<rparr>"

definition query_usb_device_info :: "fs \<Rightarrow> string \<Rightarrow> usb_device_info option" where
  "query_usb_device_info f path = do {
     v \<leftarrow> file_get_value f (path @ ''/idVendor'') 16;
     let d = usb_dev_zero\<lparr>idVendor := v\<rparr>;
     if v = CM_INVALID_VAL then Some d else do {
       pr \<leftarrow> file_get_value f (path @ ''/idProduct'') 16;
       bus \<leftarrow> file_get_value f (path @ ''/busnum'') 10;
       dev \<leftarrow> file_get_value f (path @ ''/devnum'') 10;
       num \<leftarrow> file_get_value f (path @ ''/bNumInterfaces'') 10;
       Some (d\<lparr>idProduct := pr, busnum := bus, devnum := dev, bNumInterfaces := num\<rparr>) } }"

text \<open>The number of endpoints is read into the class, which is then read over it.\<close>

definition query_usb_interface_info :: "fs \<Rightarrow> string \<Rightarrow> usb_interface_info option" where
  "query_usb_interface_info f path = do {
     _ \<leftarrow> file_get_value f (path @ ''/bNumEndpoints'') 16;
     c \<leftarrow> file_get_value f (path @ ''/bInterfaceClass'') 16;
     s \<leftarrow> file_get_value f (path @ ''/bInterfaceSubClass'') 16;
     pr \<leftarrow> file_get_value f (path @ ''/bInterfaceProtocol'') 16;
     t \<leftarrow> readlink f 128 (path @ ''/driver'');
     Some \<lparr>bNumEndpoints = 0, bInterfaceClass = c, bInterfaceSubClass = s, bInterfaceProtocol = pr,
       intf_driver = (case t of None \<Rightarrow> [] | Some l \<Rightarrow> take 31 (after_slash l))\<rparr> }"

text \<open>The kind of interface, and whether it is RNDIS, which a static variable remembers.\<close>

definition get_driver_type :: "usb_interface_info \<Rightarrow> bool \<Rightarrow> int \<times> bool" where
  "get_driver_type i rndis =
     (if bInterfaceClass i = 0xff then (SOFTWARE_QMI, rndis)
      else if bInterfaceClass i = 2 then
        (if bInterfaceSubClass i = 0x0e then SOFTWARE_MBIM
         else if bInterfaceSubClass i = 0x06 \<or> bInterfaceSubClass i = 0x0d then SOFTWARE_ECM_RNDIS_NCM
         else DRV_INVALID, rndis)
      else if bInterfaceClass i = 0xe0 \<and> bInterfaceSubClass i = 1 \<and> bInterfaceProtocol i = 3
      then (SOFTWARE_ECM_RNDIS_NCM, True) else (DRV_INVALID, rndis))"

section \<open>The control channel\<close>

text \<open>The device number that \<open>mknod\<close> is given.\<close>

definition device_number :: "u32 \<Rightarrow> u32 \<Rightarrow> u32" where
  "device_number major minor = push_bit 8 (major AND 0xfff) OR (minor AND 0xff) OR push_bit 12 (minor AND 0xfff00)"

text \<open>The name of the device file, and the device files made for a driver without one.\<close>

definition detect_path_cdc_wdm_or_qcqmi :: "fs \<Rightarrow> string \<Rightarrow> string \<times> (string \<times> u32) list" where
  "detect_path_cdc_wdm_or_qcqmi f path =
     (if fs_access f path \<noteq> 0 then ([], [])
      else (case find (\<lambda>d. fs_access f (path @ d) = 0) [''/GobiQMI'', ''/usbmisc'', ''/usb''] of
          None \<Rightarrow> ([], [])
        | Some d \<Rightarrow> let tmp = dir_get_child f (path @ d) [] in
            if tmp = [] then ([], [])
            else let devname = snprintf 37 (''/dev/'' @ tmp); uevent = path @ d @ ''/'' @ tmp @ ''/uevent'';
                major = conf_get_val f uevent ''MAJOR''; minor = conf_get_val f uevent ''MINOR''
              in (devname, if fs_access f devname = ENOENT \<and> major \<noteq> CM_INVALID_VAL \<and> minor \<noteq> CM_INVALID_VAL
                    then [(devname, device_number (of_int major) (of_int minor))] else [])))"

text \<open>The interface with the AT port of a Quectel modem that works as a network adapter.\<close>

definition at_interface :: "usb_device_info \<Rightarrow> bool \<Rightarrow> int option" where
  "at_interface d rndis = (if idVendor d \<noteq> 0x2c7c then None
     else if idProduct d \<in> {0x0901, 0x0902, 0x8101} then Some 2
     else if idProduct d = 0x0900 then Some 4
     else if idProduct d \<in> {0x6026, 0x6005, 0x6002, 0x6001} then Some 3
     else if idProduct d = 0x6007 then Some (if rndis then 5 else 3)
     else None)"

text \<open>The serial port is a child \<open>tty...\<close> of the interface, or of its directory \<open>tty\<close>.\<close>

definition tty_of :: "fs \<Rightarrow> string \<Rightarrow> string" where
  "tty_of f path = (let n = dir_get_child f path ''tty'' in if n = ''tty'' then dir_get_child f (path @ ''/tty'') ''tty'' else n)"

section \<open>The walk over the USB devices\<close>

definition usb_root :: string where "usb_root = ''/sys/bus/usb/devices''"

definition usb_path :: "string \<Rightarrow> string" where "usb_path n = usb_root @ ''/'' @ n"

definition intf_path :: "string \<Rightarrow> int \<Rightarrow> string" where "intf_path n i = usb_path n @ '':1.'' @ dec_int i"

text \<open>
  What is kept of the walk: the device and the interface looked at last, the static variable
  \<open>RDNIS_MODEL\<close>, and the device files made.
\<close>

record scan =
  sc_dev :: usb_device_info
  usb_intf :: usb_interface_info
  RDNIS_MODEL :: bool
  mknods :: "(string \<times> u32) list"

text \<open>The first interface with a network card. The bound is an \<open>int\<close>.\<close>

definition find_netcard :: "fs \<Rightarrow> string \<Rightarrow> int \<Rightarrow> (int \<times> string) option option" where
  "find_netcard f n num = (if 2 ^ 31 \<le> num + 8 then None
     else Some (map_option (\<lambda>i. (int i, dir_get_child f (intf_path n (int i) @ ''/net'') []))
       (find (\<lambda>i. dir_get_child f (intf_path n (int i) @ ''/net'') [] \<noteq> []) [0..<nat (num + 8)])))"

text \<open>The control channel of an interface, by its kind.\<close>

definition channel_of :: "fs \<Rightarrow> string \<Rightarrow> int \<Rightarrow> scan \<Rightarrow> string \<times> scan" where
  "channel_of f n i s = (case get_driver_type (usb_intf s) (RDNIS_MODEL s) of (ty, rndis) \<Rightarrow>
     let s = s\<lparr>RDNIS_MODEL := rndis\<rparr> in
     if ty = SOFTWARE_QMI \<or> ty = SOFTWARE_MBIM then
       (case detect_path_cdc_wdm_or_qcqmi f (intf_path n i) of (dev, nods) \<Rightarrow> (dev, s\<lparr>mknods := mknods s @ nods\<rparr>))
     else if ty = SOFTWARE_ECM_RNDIS_NCM then
       (case at_interface (sc_dev s) rndis of None \<Rightarrow> ([], s) | Some a \<Rightarrow> (tty_of f (intf_path n a), s))
     else ([], s))"

text \<open>The names of the driver on old kernels; the wanted interface is not compared there.\<close>

definition old_names :: "fs \<Rightarrow> string \<Rightarrow> bool" where
  "old_names f n \<longleftrightarrow> fs_access f (usb_path n @ '':1.4/net:usb0'') = 0 \<and> fs_access f (usb_path n @ '':1.4/GobiQMI:qcqmi0'') = 0"

text \<open>A device with a network card on its interface \<open>k\<close>: the names to use if it has a channel.\<close>

definition take_device :: "fs \<Rightarrow> string \<Rightarrow> int \<Rightarrow> string \<Rightarrow> scan \<Rightarrow> ((string \<times> string) option \<times> scan) option" where
  "take_device f n k netcard s = do {
     i \<leftarrow> query_usb_interface_info f (intf_path n k);
     let (dev, s) = channel_of f n k (s\<lparr>usb_intf := i\<rparr>);
     Some (if dev = [] then None
       else Some (snprintf 32 (if hd dev = CHR ''/'' then dev else ''/dev/'' @ dev), snprintf 32 netcard), s) }"

text \<open>One device: its channel and network card if it is the modem.\<close>

definition scan_device :: "fs \<Rightarrow> string \<Rightarrow> string \<Rightarrow> scan \<Rightarrow> ((string \<times> string) option \<times> scan) option" where
  "scan_device f want n s = do {
     d \<leftarrow> query_usb_device_info f (usb_path n);
     let s = s\<lparr>sc_dev := d\<rparr>;
     if idVendor d = CM_INVALID_VAL then Some (None, s) else do {
       c \<leftarrow> find_netcard f n (bNumInterfaces d);
       (case c of
          None \<Rightarrow> if old_names f n
            then do { i \<leftarrow> query_usb_interface_info f (usb_path n @ '':1.4'');
                      Some (Some (''/dev/qcqmi0'', ''usb0''), s\<lparr>usb_intf := i\<rparr>) }
            else Some (None, s)
        | Some (k, netcard) \<Rightarrow>
            if want \<noteq> [] \<and> want \<noteq> netcard then Some (None, s) else take_device f n k netcard s) } }"

fun scan_devices :: "fs \<Rightarrow> string \<Rightarrow> string list \<Rightarrow> scan \<Rightarrow> ((string \<times> string) option \<times> scan) option" where
  "scan_devices f want [] s = Some (None, s)"
| "scan_devices f want (n # ns) s = (if prefix ''u'' n then scan_devices f want ns s
     else do {
       (r, s) \<leftarrow> scan_device f want n s;
       if r = None then scan_devices f want ns s else Some (r, s) })"

definition qmidevice_detect :: "fs \<Rightarrow> string \<Rightarrow> scan \<Rightarrow> ((string \<times> string) option \<times> scan) option" where
  "qmidevice_detect f want s = (case fs_dir f usb_root of None \<Rightarrow> Some (None, s) | Some ns \<Rightarrow> scan_devices f want ns s)"

section \<open>PCIe devices\<close>

definition mhi_q_root :: string where "mhi_q_root = ''/sys/bus/mhi_q/devices''"
definition mhi_root :: string where "mhi_root = ''/sys/bus/mhi/devices''"

text \<open>What was found: the channel, the network card and the kind of the channel.\<close>

type_synonym mhi_found = "string \<times> string \<times> int"

definition mhi_sibling :: "string \<Rightarrow> string \<Rightarrow> string \<Rightarrow> string" where
  "mhi_sibling root n x = snprintf 256 (root @ ''/'' @ take 13 n @ x)"

text \<open>The channel of a device of the Quectel driver: QMI or QRTR before MBIM.\<close>

definition mhi_q_channel :: "fs \<Rightarrow> string \<Rightarrow> (string \<times> int) option" where
  "mhi_q_channel f n = (let g = mhi_sibling mhi_q_root n; ok = (\<lambda>x. fs_access f (g x) = 0) in
     if ok ''_IPCR'' then Some (g ''_IPCR'', SOFTWARE_QMI)
     else if ok ''_QMI0'' then Some (g ''_QMI0'', SOFTWARE_QMI)
     else if ok ''_MBIM'' then Some (g ''_MBIM'', SOFTWARE_MBIM) else None)"

text \<open>One entry; a channel name that does not fit its 32 bytes is undefined.\<close>

definition mhi_entry :: "fs \<Rightarrow> string \<Rightarrow> string \<Rightarrow> string \<Rightarrow> mhi_found option option" where
  "mhi_entry f root want n =
     (if \<not> strstr n ''_IP_HW0'' then Some None
      else let netcard = dir_get_child f (snprintf 256 (root @ ''/'' @ take 32 n @ ''/net'')) [] in
        if netcard = [] \<or> want \<noteq> [] \<and> netcard \<noteq> want then Some None
        else if root = mhi_root then
          Some (if fs_access f (mhi_sibling root n ''_IPCR'') = 0 then Some (''qrtr-3'', netcard, SOFTWARE_QRTR) else None)
        else (case mhi_q_channel f n of None \<Rightarrow> Some None
          | Some (path, ty) \<Rightarrow> let dev = dir_get_child f (path @ ''/mhi_uci_q'') [] in
              if dev = [] then Some None
              else if 26 < length dev then None
              else Some (Some (''/dev/'' @ dev, netcard, ty))))"

fun mhi_entries :: "fs \<Rightarrow> string \<Rightarrow> string \<Rightarrow> string list \<Rightarrow> mhi_found option option" where
  "mhi_entries f root want [] = Some None"
| "mhi_entries f root want (n # ns) = do {
     r \<leftarrow> mhi_entry f root want n;
     if r = None then mhi_entries f root want ns else Some r }"

definition mhi_bus :: "fs \<Rightarrow> string \<Rightarrow> string \<Rightarrow> mhi_found option option" where
  "mhi_bus f root want = (case fs_dir f root of None \<Rightarrow> Some None | Some ns \<Rightarrow> mhi_entries f root want ns)"

text \<open>The second bus is walked even when the first had the device, for the same network card.\<close>

definition mhidevice_detect :: "fs \<Rightarrow> string \<Rightarrow> mhi_found option option" where
  "mhidevice_detect f want = do {
     a \<leftarrow> mhi_bus f mhi_q_root want;
     b \<leftarrow> mhi_bus f mhi_root (case a of None \<Rightarrow> want | Some (_, c, _) \<Rightarrow> c);
     Some (if b = None then a else b) }"

section \<open>The AT device\<close>

text \<open>The channel if there is one, the network card and the profile; the card's name is set before the channel is looked for.\<close>

definition atdevice_detect :: "fs \<Rightarrow> PROFILE_T \<Rightarrow> string option \<times> PROFILE_T" where
  "atdevice_detect f p =
     (if fs_access f ''/sys/class/net/sipa_dummy0'' \<noteq> 0 then (None, p)
      else let p = p\<lparr>qmapnet_adapter := snprintf 32 (''pcie'' @ dec_int (pdp p - 1))\<rparr> in
        if fs_access f ''/dev/stty_nr31'' \<noteq> 0 then (None, p)
        else (Some ''/dev/stty_nr31'', p\<lparr>software_interface := SOFTWARE_ECM_RNDIS_NCM\<rparr>))"

end
