(* ===== verification/ConnRun.thy ===== *)
theory ConnRun
  imports DeviceScan CmdLine
begin

text \<open>
  The program around the connection manager: \<open>main\<close> and \<open>quectel_CM\<close> of \<open>main.c\<close>, which find the
  modem, choose the tables and run \<open>qmi_main\<close> again after a hang-up; \<open>kill_brothers\<close>, which ends
  other instances; and \<open>getpid_by_pdp\<close> of \<open>util.c\<close> for the option \<open>-k\<close>. The run of \<open>qmi_main\<close> over
  the chosen tables is an argument here; \<open>ConnMgr\<close> and the theories of the tables are about it.
  \<open>None\<close> is undefined behaviour.
\<close>

section \<open>One round\<close>

text \<open>What a round does: no device, the exit for a missing APN, an interface without a table, or a run.\<close>

datatype cm_step = NoDevice | ExitNoApn | Unsupported | RunMain call_ops qmi_device_ops

text \<open>
  The state that survives a round: the walk over the devices, the profile and
  \<open>g_donot_exit_when_modem_hangup\<close>. A round has its file system, the driver's answer, the bytes
  on the stack, what the run returns (its value, the flag and the profile), and whether SIGINT or
  SIGTERM arrives outside the run and before the loop is tested: in a round without a run, after
  the run, or in the three seconds of \<open>sleep\<close>. The handler \<open>ql_sigaction\<close> then clears the flag.
  (A signal in the search before a run has no effect here: \<open>qmi_main\<close> clears the flag itself.)
\<close>

record cm =
  cm_scan :: scan
  cm_profile :: PROFILE_T
  donot_exit :: bool

record cm_round =
  r_fs :: fs
  r_driver :: rmnet_modes
  r_stack :: string
  r_run :: "call_ops \<Rightarrow> qmi_device_ops \<Rightarrow> PROFILE_T \<Rightarrow> int \<times> bool \<times> PROFILE_T"
  r_signal :: bool

text \<open>The channel and the network card, from the first of the three searches that finds a device.\<close>

definition find_device :: "fs \<Rightarrow> scan \<Rightarrow> PROFILE_T \<Rightarrow> ((string \<times> string) option \<times> scan \<times> PROFILE_T) option" where
  "find_device f s p = do {
     (r, s) \<leftarrow> qmidevice_detect f (expect_adapter p) (s\<lparr>sc_dev := usb_dev p\<rparr>);
     let p = p\<lparr>usb_dev := sc_dev s\<rparr>;
     (case r of Some x \<Rightarrow> Some (Some x, s, p\<lparr>hardware_interface := HARDWARE_USB\<rparr>)
      | None \<Rightarrow> do {
          m \<leftarrow> mhidevice_detect f (expect_adapter p);
          Some (case m of
              Some (ch, net, ty) \<Rightarrow> (Some (ch, net), s, p\<lparr>software_interface := ty, hardware_interface := HARDWARE_PCIE\<rparr>)
            | None \<Rightarrow> (case atdevice_detect f p of
                  (Some ch, p) \<Rightarrow> (Some (ch, ''sipa_dummy0''), s, p\<lparr>hardware_interface := HARDWARE_PCIE\<rparr>)
                | (None, p) \<Rightarrow> (None, s, p))) }) }"

definition choose_tables :: "PROFILE_T \<Rightarrow> cm_step" where
  "choose_tables p =
     (if software_interface p = SOFTWARE_MBIM then (if apn p = None \<or> apn p = Some [] then ExitNoApn else RunMain MbimOps mbim_dev_ops)
      else if software_interface p = SOFTWARE_QMI then
        RunMain QmiOps (if qmidev_is_gobinet (qmichannel p) then gobi_qmidev_ops else qmiwwan_qmidev_ops)
      else if software_interface p = SOFTWARE_ECM_RNDIS_NCM then RunMain AtcOps atc_dev_ops
      else Unsupported)"

text \<open>The part of \<open>quectel_CM\<close> before the run, with the files that the detection writes.\<close>

definition quectel_CM_start :: "cm_round \<Rightarrow> scan \<Rightarrow> PROFILE_T \<Rightarrow> (cm_step \<times> scan \<times> PROFILE_T \<times> writes) option" where
  "quectel_CM_start e s p = do {
     (r, s, p) \<leftarrow> find_device (r_fs e) s p;
     (case r of None \<Rightarrow> Some (NoDevice, s, p, [])
      | Some (ch, net) \<Rightarrow> do {
          let p = p\<lparr>qmichannel := ch, usbnet_adapter := net\<rparr>;
          let (p, s) = (if hardware_interface p = HARDWARE_USB
            then (case get_driver_type (usb_intf s) (RDNIS_MODEL s) of (ty, rndis) \<Rightarrow>
              (p\<lparr>software_interface := ty\<rparr>, s\<lparr>RDNIS_MODEL := rndis\<rparr>))
            else (p, s));
          (p, w) \<leftarrow> ql_qmap_mode_detect (r_stack e) (r_fs e) (r_driver e) p;
          Some (choose_tables p, s, p, w) }) }"

text \<open>The value of \<open>quectel_CM\<close> and the state after it, or the status of the process that exits.\<close>

definition quectel_CM :: "cm_round \<Rightarrow> cm \<Rightarrow> (int + int \<times> cm) option" where
  "quectel_CM e m = do {
     (x, s, p, _) \<leftarrow> quectel_CM_start e (cm_scan m) (cm_profile m);
     let m = m\<lparr>cm_scan := s, cm_profile := p\<rparr>;
     Some (case x of
         ExitNoApn \<Rightarrow> Inl (- 404)
       | RunMain ops dev \<Rightarrow> (case r_run e ops dev p of (ret, again, p) \<Rightarrow>
           Inr (ret, m\<lparr>cm_profile := p, donot_exit := again\<rparr>))
       | _ \<Rightarrow> Inr (0, m)) }"

text \<open>
  The loop of \<open>main\<close>, whose test reads the flag after \<open>sleep\<close>. When the rounds end first it is
  still waiting, in the state given.
\<close>

datatype main_result = StillRunning cm | ExitStatus int

fun cm_rounds :: "cm_round list \<Rightarrow> cm \<Rightarrow> main_result option" where
  "cm_rounds [] m = Some (StillRunning m)"
| "cm_rounds (e # es) m = do {
     r \<leftarrow> quectel_CM e m;
     (case r of Inl st \<Rightarrow> Some (ExitStatus st)
      | Inr (ret, m) \<Rightarrow> if donot_exit m \<and> \<not> r_signal e then cm_rounds es m else Some (ExitStatus ret)) }"

section \<open>Hanging up the call of another instance\<close>

text \<open>Reading a command line into the buffer; the bytes between the arguments become spaces.\<close>

definition read_cmdline :: "string \<Rightarrow> string \<Rightarrow> string" where
  "read_cmdline content buf = (let n = min (length content) 512;
     b = take n content @ drop n buf
     in map (\<lambda>c. if c = NUL then CHR '' '' else c) (take (n - 1) b) @ drop (n - 1) b)"

text \<open>
  The processes in the order of \<open>glob\<close>, each with what its \<open>cmdline\<close> holds when it can be opened.
  The first that cannot be opened ends the search. A full buffer has no end: \<open>None\<close>.
\<close>

fun search_pid :: "string \<Rightarrow> string \<Rightarrow> string \<Rightarrow> (string \<times> string option) list \<Rightarrow> int option" where
  "search_pid prog flt buf [] = Some (- 1)"
| "search_pid prog flt buf ((d, None) # ps) = Some (- 1)"
| "search_pid prog flt buf ((d, Some content) # ps) = (let b = read_cmdline content buf in
     if NUL \<notin> set b then None
     else if strstr (cstr b) prog \<and> strstr (cstr b) flt then Some (atoi d)
     else search_pid prog flt b ps)"

definition getpid_by_pdp :: "int \<Rightarrow> string \<Rightarrow> (string \<times> string option) list option \<Rightarrow> int option" where
  "getpid_by_pdp k prog g = (case g of None \<Rightarrow> Some (- 1)
     | Some ps \<Rightarrow> search_pid prog (snprintf 16 (''-n '' @ dec_int k)) (replicate 512 NUL) ps)"

definition basename :: "string \<Rightarrow> string" where
  "basename t = rev (takeWhile (\<lambda>c. c \<noteq> CHR ''/'') (rev t))"

text \<open>The value and the process that is sent SIGINT; \<open>k\<close> is what \<open>kill\<close> returns.\<close>

definition kill_data_call_pdp ::
  "(int \<Rightarrow> int) \<Rightarrow> (string \<times> string option) list option \<Rightarrow> int \<Rightarrow> string \<Rightarrow> (int \<times> int option) option" where
  "kill_data_call_pdp k g n self = do {
     pid \<leftarrow> getpid_by_pdp n (basename self) g;
     Some (if 0 < pid then (k pid, Some pid) else (- 1, None)) }"

text \<open>\<open>main\<close>: the status of the process, and whom it interrupted.\<close>

definition main_program :: "(int \<Rightarrow> int) \<Rightarrow> (string \<times> string option) list option \<Rightarrow> cm_round list
    \<Rightarrow> string \<Rightarrow> string list \<Rightarrow> cm \<Rightarrow> (main_result \<times> int option) option" where
  "main_program k g es self args m = (case parse_user_input args (cm_profile m) of
       None \<Rightarrow> Some (ExitStatus 0, None)
     | Some (p, _) \<Rightarrow>
         if kill_pdp p \<noteq> 0 then map_option (\<lambda>(r, pid). (ExitStatus r, pid)) (kill_data_call_pdp k g (kill_pdp p) self)
         else map_option (\<lambda>r. (r, None)) (cm_rounds es (m\<lparr>cm_profile := p\<rparr>)))"

section \<open>Ending other instances\<close>

datatype signal_sent = SigTerm int | SigKill int

text \<open>
  SIGTERM once a second while the process is there, 15 times at most; then SIGKILL if it is
  there at one more look. \<open>alive n\<close> is what the \<open>n\<close>-th look says.
\<close>

fun term_rounds :: "(nat \<Rightarrow> bool) \<Rightarrow> nat \<Rightarrow> nat \<Rightarrow> nat \<times> nat" where
  "term_rounds alive 0 n = (0, n)"
| "term_rounds alive (Suc t) n = (if alive n then (case term_rounds alive t (n + 1) of (k, n) \<Rightarrow> (k + 1, n)) else (0, n + 1))"

definition end_process :: "(nat \<Rightarrow> bool) \<Rightarrow> int \<Rightarrow> signal_sent list" where
  "end_process alive pid = (case term_rounds alive 15 0 of (k, n) \<Rightarrow>
     replicate k (SigTerm pid) @ (if alive n then [SigKill pid] else []))"

text \<open>A descriptor of the process is the channel; a link that fills the buffer is undefined.\<close>

fun holds_channel :: "fs \<Rightarrow> string \<Rightarrow> string \<Rightarrow> string list \<Rightarrow> nat option" where
  "holds_channel f ch dir [] = Some 0"
| "holds_channel f ch dir (n # ns) = do {
     t \<leftarrow> readlink f 256 (take 256 dir @ ''/'' @ n);
     k \<leftarrow> holds_channel f ch dir ns;
     Some (k + of_bool (t = Some ch \<and> ch \<noteq> [])) }"

definition is_brother_process :: "fs \<Rightarrow> (int \<Rightarrow> nat \<Rightarrow> bool) \<Rightarrow> int \<Rightarrow> string \<Rightarrow> string \<Rightarrow> signal_sent list option" where
  "is_brother_process f alive me ch n =
     (if \<not> list_all isdigit n then Some []
      else do {
        t \<leftarrow> readlink f 256 (''/proc/'' @ n @ ''/exe'');
        if t = None \<or> t = Some [] \<or> me \<le> atoi n then Some []
        else do {
          k \<leftarrow> (case fs_dir f (''/proc/'' @ n @ ''/fd'') of None \<Rightarrow> Some 0 | Some ns \<Rightarrow> holds_channel f ch (''/proc/'' @ n @ ''/fd'') ns);
          Some (if k = 0 then [] else end_process (alive (atoi n)) (atoi n)) } })"

fun brothers :: "fs \<Rightarrow> (int \<Rightarrow> nat \<Rightarrow> bool) \<Rightarrow> int \<Rightarrow> string \<Rightarrow> string list \<Rightarrow> signal_sent list option" where
  "brothers f alive me ch [] = Some []"
| "brothers f alive me ch (n # ns) = do {
     a \<leftarrow> is_brother_process f alive me ch n;
     b \<leftarrow> brothers f alive me ch ns;
     Some (a @ b) }"

definition kill_brothers :: "fs \<Rightarrow> (int \<Rightarrow> nat \<Rightarrow> bool) \<Rightarrow> int \<Rightarrow> string \<Rightarrow> signal_sent list option" where
  "kill_brothers f alive me ch = do {
     self \<leftarrow> readlink f 256 ''/proc/self/exe'';
     if self = None \<or> self = Some [] then Some []
     else (case fs_dir f ''/proc'' of None \<Rightarrow> Some [] | Some ns \<Rightarrow> brothers f alive me ch ns) }"

end
