(* ===== verification/AddrProps.thy ===== *)
theory AddrProps
  imports AddrConf AtcProps MbimRequests
begin

text \<open>
  What configuring the interface does with the addresses the three kinds of modem report, and what
  it does to the list of name servers.
\<close>

section \<open>Octets\<close>

lemma byte_eqI:
  assumes "\<And>n. n \<in> {0, 1, 2, 3, 4, 5, 6, 7} \<Longrightarrow> bit x n = bit y n"
  shows "x = (y :: byte)"
proof (rule bit_word_eqI)
  fix n assume "n < LENGTH(8)"
  then have "n \<in> {0, 1, 2, 3, 4, 5, 6, 7}" by auto
  then show "bit x n = bit y n" by (rule assms)
qed

lemma octet_qmi2addr:
  "octet (qmi2addr a) 0 = octet a 3" "octet (qmi2addr a) 1 = octet a 2"
  "octet (qmi2addr a) 2 = octet a 1" "octet (qmi2addr a) 3 = octet a 0"
proof -
  show "octet (qmi2addr a) 0 = octet a 3"
    by (rule byte_eqI) (auto simp: octet_def qmi2addr_def bit_simps)
  show "octet (qmi2addr a) 1 = octet a 2"
    by (rule byte_eqI) (auto simp: octet_def qmi2addr_def bit_simps)
  show "octet (qmi2addr a) 2 = octet a 1"
    by (rule byte_eqI) (auto simp: octet_def qmi2addr_def bit_simps)
  show "octet (qmi2addr a) 3 = octet a 0"
    by (rule byte_eqI) (auto simp: octet_def qmi2addr_def bit_simps)
qed

lemma ipv4Str_dotted: "ipv4Str a = dotted (qmi2addr a)"
  using octet_qmi2addr by (simp add: ipv4Str_def dotted_def)

lemma qmi2addr_twice: "qmi2addr (qmi2addr a) = a"
proof -
  have "of_le32 (octet b 0) (octet b 1) (octet b 2) (octet b 3) = b" for b
    using of_le32_le32 [of b] by (simp add: octet_def)
  from this [of "qmi2addr (qmi2addr a)"] this [of a] show ?thesis by (simp only: octet_qmi2addr)
qed

lemma mbim2qmi_is_qmi2addr: "mbim2qmi_ipv4addr a = qmi2addr a"
  by (simp add: mbim2qmi_ipv4addr_def qmi2addr_def)

lemma dec_nat_short: "n < 10 ^ Suc k \<Longrightarrow> length (dec_nat n) \<le> Suc k"
proof (induction k arbitrary: n)
  case 0
  then show ?case by (simp add: dec_nat.simps [of n])
next
  case (Suc k)
  then have "n div 10 < 10 ^ Suc k" by (simp add: less_mult_imp_div_less)
  then show ?case using Suc.IH [of "n div 10"] by (subst dec_nat.simps) simp
qed

lemma dotted_short: "length (dotted a) \<le> 15"
proof -
  have o: "length (dec_nat (unat (octet a i))) \<le> 3" for i
  proof -
    have "unat (octet a i) < 2 ^ 8" using unsigned_less [of "octet a i"] by simp
    then show ?thesis using dec_nat_short [of "unat (octet a i)" 2] by simp
  qed
  show ?thesis using o [of 0] o [of 1] o [of 2] o [of 3] by (simp add: dotted_def)
qed

section \<open>The prefix\<close>

lemma prefix_bits_le: "prefix_bits m \<le> 32"
  unfolding prefix_bits_def by (rule order_trans [OF length_filter_le]) simp

text \<open>
  The mask the MBIM client stores is the mask of the prefix with its bytes reversed; counting its
  bits gives the prefix back.
\<close>

lemma prefix_survives:
  assumes "prefix_mask n = Some m"
  shows "prefix_bits (mbim2qmi_ipv4addr m) = unat n"
proof -
  have all: "list_all (\<lambda>k. case prefix_mask (of_nat k) of None \<Rightarrow> False
      | Some m \<Rightarrow> prefix_bits (mbim2qmi_ipv4addr m) = k) [1..<33]"
    by code_simp
  have "n \<noteq> 0" "unat n \<le> 32" using assms by (auto simp: prefix_mask_def split: if_splits)
  then have "unat n \<in> set [1..<33]" by (auto simp: Suc_le_eq unat_gt_0)
  then have "case prefix_mask (of_nat (unat n)) of None \<Rightarrow> False
      | Some m \<Rightarrow> prefix_bits (mbim2qmi_ipv4addr m) = unat n"
    using all unfolding list_all_iff by blast
  then show ?thesis using assms by simp
qed

section \<open>The address reaches the interface\<close>

text \<open>The command that adds an address, as long as it fits the buffer.\<close>

definition add_address :: "string \<Rightarrow> u32 \<Rightarrow> u32 \<Rightarrow> addr_act" where
  "add_address ifname a m = Shell (''ip -4 address add '' @ dotted a @ ''/'' @ dec_nat (prefix_bits m) @ '' dev '' @ ifname)"

lemma cmd_short: "length t \<le> 127 \<Longrightarrow> cmd t = t"
  by (simp add: cmd_def)

lemma act_acts [simp]: "acts (act as s) = acts s @ as"
  by (simp add: act_def)

lemma ql_system_acts: "acts (ql_system t s) = acts s @ [Shell (cmd t)]"
  by (simp add: ql_system_def act_def)

lemma v4_sets_address:
  assumes "e_ip_tool e" "length ifname \<le> 32" "Address v \<noteq> 0"
  shows "\<exists>s'. by_qmi_v4 e ifname v s = Some s' \<and> add_address ifname (qmi2addr (Address v)) (SubnetMask v) \<in> set (acts s')"
proof -
  let ?t = "''ip -4 address add '' @ dotted (qmi2addr (Address v)) @ ''/'' @ dec_nat (prefix_bits (SubnetMask v)) @ '' dev '' @ ifname"
  have "length (dec_nat (prefix_bits (SubnetMask v))) \<le> 2"
    using dec_nat_short [of "prefix_bits (SubnetMask v)" 1] prefix_bits_le [of "SubnetMask v"] by simp
  then have "length ?t \<le> 127" using assms(2) dotted_short [of "qmi2addr (Address v)"] by simp
  then have "cmd ?t = ?t" by (rule cmd_short)
  then show ?thesis
    using assms by (simp add: by_qmi_v4_def update_ipv4_address_def ipv4Str_dotted ql_system_acts add_address_def
        update_resolv_conf_def)
qed

lemma acts_grow:
  "set (acts s) \<subseteq> set (acts (act as s))" "set (acts s) \<subseteq> set (acts (ql_system t s))"
  "set (acts s) \<subseteq> set (acts (update_resolv_conf k ifname d1 d2 s))"
  "set (acts s) \<subseteq> set (acts (update_ipv6_address e ifname ip pfx s))"
  by (auto simp: act_def ql_system_def update_resolv_conf_def update_ipv6_address_def)

lemma addr_start_v6_grows: "addr_start_v6 e ifname p s = Some s' \<Longrightarrow> set (acts s) \<subseteq> set (acts s')"
  using acts_grow by (auto simp: addr_start_v6_def update_ip_address_by_qmi_def by_qmi_v6_def Let_def
      update_resolv_conf_def update_ipv6_address_def act_def ql_system_def split: if_splits)

lemma address_is_added:
  assumes "e_ip_tool e" "\<not> e_bridge e" "Address (ipv4 p) \<noteq> 0" "length (the_ifname p) \<le> 32"
    and "ops = MbimOps \<or> ops = QmiOps \<or> no_dhcp p"
  shows "\<exists>p' s'. start_interface ops e p s = Some (p', s') \<and>
    (add_address (the_ifname p) (qmi2addr (Address (ipv4 p))) (SubnetMask (ipv4 p)) \<in> set (acts s') \<or>
     ops = QmiOps \<and> \<not> no_dhcp p \<and> e_if_addr e 1 = qmi2addr (Address (ipv4 p)))"
proof -
  let ?s = "bring_up e (the_ifname p) p (ql_set_driver_link_state e p True s)"
  let ?a = "add_address (the_ifname p) (qmi2addr (Address (ipv4 p))) (SubnetMask (ipv4 p))"
  have set: "\<exists>s'. update_ip_address_by_qmi e (the_ifname p) (Some (ipv4 p)) None t = Some s' \<and> ?a \<in> set (acts s')" for t
    using v4_sets_address [OF assms(1,4,3), of t] by (auto simp: update_ip_address_by_qmi_def)
  have "\<exists>p' s'. addr_start_v4 ops e (the_ifname p) p ?s = Some (p', s') \<and> (?a \<in> set (acts s') \<or>
     ops = QmiOps \<and> \<not> no_dhcp p \<and> e_if_addr e 1 = qmi2addr (Address (ipv4 p)))"
  proof (cases "no_dhcp p \<or> idProduct (usb_dev p) = 0x0316 \<or> ops = MbimOps")
    case True
    then show ?thesis using set [of ?s] assms(3) by (auto simp: addr_start_v4_def)
  next
    case False
    then have ops: "ops = QmiOps" using assms(5) by auto
    obtain ch t where t: "ql_raw_ip_mode_check e (the_ifname p) (Address (ipv4 p))
        (act [dhcp_client (the_ifname p)] ?s) = (ch, t)" by fastforce
    show ?thesis
    proof (cases "e_if_addr e 1 = qmi2addr (Address (ipv4 p))")
      case True
      then show ?thesis using False ops assms(3) by (auto simp: addr_start_v4_def dhcp_v4_def Let_def t)
    next
      case no: False
      show ?thesis
        using False ops assms(3) no set [of "if ch then act [dhcp_client (the_ifname p)] t else t"]
        by (auto simp: addr_start_v4_def dhcp_v4_def Let_def t)
    qed
  qed
  then obtain p' s1 where s1: "addr_start_v4 ops e (the_ifname p) p ?s = Some (p', s1)" "?a \<in> set (acts s1) \<or>
     ops = QmiOps \<and> \<not> no_dhcp p \<and> e_if_addr e 1 = qmi2addr (Address (ipv4 p))" by blast
  have "addr_start_v6 e (the_ifname p) p' s1 \<noteq> None"
    by (simp add: addr_start_v6_def update_ip_address_by_qmi_def Let_def)
  then obtain s2 where "addr_start_v6 e (the_ifname p) p' s1 = Some s2" by blast
  then show ?thesis using s1 assms(2) addr_start_v6_grows by (fastforce simp: start_interface_def Let_def)
qed

text \<open>
  Property C17 (functional): bringing the interface up gives it the address the modem reported.
  With the tool \<open>ip\<close>, no bridge, and an address in the profile, the start returns for every modem
  and one of the commands it runs adds that address with the length of the mask; only when DHCP is
  used this is left out, for a QMI modem exactly when the interface already has the address.
\<close>

theorem interface_gets_address:
  assumes "e_ip_tool e" "\<not> e_bridge e" "Address (ipv4 p) \<noteq> 0" "length (the_ifname p) \<le> 32"
    and "ops = MbimOps \<or> ops = QmiOps \<or> no_dhcp p"
  shows "\<exists>p' s'. start_interface ops e p s = Some (p', s') \<and>
    (add_address (the_ifname p) (qmi2addr (Address (ipv4 p))) (SubnetMask (ipv4 p)) \<in> set (acts s') \<or>
     ops = QmiOps \<and> \<not> no_dhcp p \<and> e_if_addr e 1 = qmi2addr (Address (ipv4 p)))"
  using assms by (rule address_is_added)

definition ip_env :: addr_env where
  "ip_env = \<lparr>e_ip_tool = True, e_link_file = False, e_link_read = Some [], e_mtu = None, e_up = False, e_bridge = False,
     e_if_addr = (\<lambda>_. 0), e_raw_ip = None, e_stale_routes = 0\<rparr>"

definition wan_profile :: "u32 \<Rightarrow> PROFILE_T" where
  "wan_profile a = profile0\<lparr>usbnet_adapter := ''wwan0'', qmapnet_adapter := [], no_dhcp := True,
     ipv4 := \<lparr>Address = a, Gateway = 0x0A000001, SubnetMask = 0xFFFFFF00, DnsPrimary = 0, DnsSecondary = 0, Mtu = 0\<rparr>\<rparr>"

lemma interface_gets_address_witness:
  "\<exists>p' s'. start_interface QmiOps ip_env (wan_profile 0x0A000007) \<lparr>acts = [], resolv = []\<rparr> = Some (p', s') \<and>
    Shell ''ip -4 address add 10.0.0.7/24 dev wwan0'' \<in> set (acts s')"
proof -
  have "add_address ''wwan0'' (qmi2addr 0x0A000007) 0xFFFFFF00 = Shell ''ip -4 address add 10.0.0.7/24 dev wwan0''"
    by code_simp
  then show ?thesis
    using interface_gets_address [of ip_env "wan_profile 0x0A000007" QmiOps "\<lparr>acts = [], resolv = []\<rparr>"]
    by (simp add: ip_env_def wan_profile_def the_ifname_def)
qed

section \<open>Addresses of AT modems\<close>

text \<open>
  Property C37 (error): with \<open>-n\<close>-style configuration without DHCP, an AT modem's interface gets
  the reversed address. The AT client stores the reported address in memory order, the
  configuration prints the most significant octet first: the address that is added is the one
  whose octets are those of the reported address backwards.
\<close>

theorem at_address_is_reversed:
  assumes "\<not> asr_style_atc a" "CHR '':'' \<notin> set tag" "v \<noteq> 0" "s_pdp a = pdp p"
    and "length (tag @ '': '' @ dotted v @ CHR '','' # rest) \<le> 1023"
    and "atc_command (at_send_command_singleline False (''AT+QNETDEVSTATUS='' @ dec_int (pdp p)) ''+QNETDEVSTATUS'' True) a
       = Some (0, Some (line_response (tag @ '': '' @ dotted v @ CHR '','' # rest)), a')"
    and "e_ip_tool e" "\<not> e_bridge e" "no_dhcp p" "length (the_ifname p) \<le> 32"
  shows "\<exists>p1 p2 s'. atc_requestGetIPAddress p fam a = Some (0, p1, a') \<and>
    start_interface AtcOps e p1 s = Some (p2, s') \<and>
    add_address (the_ifname p) (qmi2addr v) (SubnetMask (ipv4 p)) \<in> set (acts s')"
proof -
  have "at_netdevstatus (pdp p) a = Some (0, v, a')"
    by (rule netdevstatus_reports [OF disjI1 [OF refl] assms(2,5,6)])
  then have get: "atc_requestGetIPAddress p fam a = Some (0, store_address v p, a')"
    using assms(1,3) by (simp add: atc_requestGetIPAddress_def ask_address_def)
  have p1: "Address (ipv4 (store_address v p)) = v" "SubnetMask (ipv4 (store_address v p)) = SubnetMask (ipv4 p)"
    "no_dhcp (store_address v p)" "the_ifname (store_address v p) = the_ifname p"
    using assms(3,9) by (simp_all add: store_address_def the_ifname_def)
  from address_is_added [of e "store_address v p" AtcOps s] p1 assms(3,7,8,9,10) get show ?thesis by fastforce
qed

lemma at_address_is_reversed_witness:
  "\<exists>a' p1 p2 s'. atc_requestGetIPAddress (wan_profile 0) 4 (at_idle [modem_says [''+QNETDEVSTATUS: 10.0.0.7,x'', ''OK'']]) =
      Some (0, p1, a') \<and>
    start_interface AtcOps ip_env p1 \<lparr>acts = [], resolv = []\<rparr> = Some (p2, s') \<and>
    Shell ''ip -4 address add 7.0.0.10/24 dev wwan0'' \<in> set (acts s')"
proof -
  have d: "dotted 0x0700000A = ''10.0.0.7''" by code_simp
  let ?l = "''+QNETDEVSTATUS'' @ '': '' @ dotted 0x0700000A @ CHR '','' # ''x''"
  let ?a = "at_idle [modem_says [''+QNETDEVSTATUS: 10.0.0.7,x'', ''OK'']]"
  have pdp: "pdp (wan_profile 0) = 1" "s_pdp ?a = 1" "\<not> asr_style_atc ?a" by code_simp+
  have "(case atc_command (at_send_command_singleline False (''AT+QNETDEVSTATUS='' @ dec_int 1) ''+QNETDEVSTATUS'' True) ?a of
      Some (e, r, a') \<Rightarrow> e = 0 \<and> r = Some (line_response ''+QNETDEVSTATUS: 10.0.0.7,x'') | _ \<Rightarrow> False)"
    by code_simp
  then obtain a' where a': "atc_command (at_send_command_singleline False (''AT+QNETDEVSTATUS='' @ dec_int 1) ''+QNETDEVSTATUS'' True) ?a =
      Some (0, Some (line_response ?l), a')"
    by (auto simp: d split: option.splits prod.splits)
  have len: "length ?l \<le> 1023" by (simp add: d)
  have add: "add_address ''wwan0'' (qmi2addr 0x0700000A) 0xFFFFFF00 = Shell ''ip -4 address add 7.0.0.10/24 dev wwan0''"
    by code_simp
  from at_address_is_reversed [OF pdp(3) _ _ _ len, of "wan_profile 0" a' ip_env 4 "\<lparr>acts = [], resolv = []\<rparr>"] a' pdp
  show ?thesis by (auto simp: add ip_env_def wan_profile_def the_ifname_def)
qed

section \<open>Addresses of MBIM modems\<close>

lemma the_ifname_v6:
  assumes "ip_config_v6 r mtu p = Some q"
  shows "ipv4 q = ipv4 p \<and> the_ifname q = the_ifname p"
proof -
  obtain avail where avail: "rd32 r 56 = Some avail"
    using assms unfolding ip_config_v6_def by (auto simp only: bind_eq_Some_conv)
  have "q = p \<or> (\<exists>v. q = p\<lparr>ipv6 := v\<rparr>)"
  proof (cases "avail AND 1 = 0")
    case True
    then show ?thesis using assms avail by (simp only: ip_config_v6_def Option.bind.bind_lunit refl if_True option.inject simp_thms)
  next
    case False
    then show ?thesis using assms avail by (cases "v6_settings r avail mtu (ipv6 p)") (auto simp add: ip_config_v6_def simp del: and_one_eq one_and_eq)
  qed
  then show ?thesis by (auto simp: the_ifname_def)
qed

lemma v4_settings_address:
  assumes "v4_settings r avail mtu v = Some (mtu', v')" "rd32 r 64 = Some off"
    "rd32 r (48 + unat off) = Some plen" "rd32 r (48 + unat off + 4) = Some a"
  shows "Address v' = mbim2qmi_ipv4addr a" "\<exists>m. prefix_mask (ucast plen) = Some m \<and> SubnetMask v' = mbim2qmi_ipv4addr m"
proof -
  from assms obtain gw dns mtu1 m where "prefix_mask (ucast plen) = Some m"
      "v' = set_v4 (mbim2qmi_ipv4addr a) gw (mbim2qmi_ipv4addr m) dns (mbim2qmi_ipv4addr mtu1) v"
    by (simp add: v4_settings_def at_offset_def bind_eq_Some_conv) blast
  then show "Address v' = mbim2qmi_ipv4addr a" "\<exists>m. prefix_mask (ucast plen) = Some m \<and> SubnetMask v' = mbim2qmi_ipv4addr m"
    by (simp_all add: set_v4_def)
qed

text \<open>
  Property C18 (roundtrip): the IPv4 address and the prefix in an MBIM modem's answer reach the
  interface as they are. The client reverses the bytes of the address and of the mask it makes of
  the prefix; printing the address reverses them back, and counting the bits of the mask gives the
  prefix.
\<close>

theorem mbim_address_reaches_interface:
  assumes "read_ip_config r p = Some p'" "rd32 r 52 = Some avail" "avail AND 1 \<noteq> 0" "rd32 r 64 = Some off"
    and "rd32 r (48 + unat off) = Some plen" "rd32 r (48 + unat off + 4) = Some a" "a \<noteq> 0"
    and "e_ip_tool e" "\<not> e_bridge e" "length (the_ifname p) \<le> 32"
  shows "\<exists>p2 s'. start_interface MbimOps e p' s = Some (p2, s') \<and>
    Shell (''ip -4 address add '' @ dotted a @ ''/'' @ dec_nat (unat (ucast plen :: byte)) @ '' dev '' @ the_ifname p)
      \<in> set (acts s')"
proof -
  obtain mtu q where q: "ip_config_v4 r 1500 p = Some (mtu, q)" "ip_config_v6 r mtu q = Some p'"
    using assms(1) by (auto simp: read_ip_config_def bind_eq_Some_conv)
  then obtain mtu' v where v: "v4_settings r avail 1500 (ipv4 p) = Some (mtu', v)" "q = p\<lparr>ipv4 := v\<rparr>"
    using assms(2,3) by (auto simp: ip_config_v4_def bind_eq_Some_conv simp del: and_one_eq one_and_eq split: if_splits)
  obtain m where m: "prefix_mask (ucast plen) = Some m" "SubnetMask v = mbim2qmi_ipv4addr m" "Address v = mbim2qmi_ipv4addr a"
    using v4_settings_address [OF v(1) assms(4,5,6)] by blast
  have p': "ipv4 p' = v" "the_ifname p' = the_ifname p" using the_ifname_v6 [OF q(2)] v(2) by (simp_all add: the_ifname_def)
  have "Address v \<noteq> 0"
  proof
    assume "Address v = 0"
    then have "qmi2addr a = 0" by (simp add: m(3) mbim2qmi_is_qmi2addr)
    moreover have "qmi2addr 0 = 0" by (simp add: qmi2addr_def)
    ultimately show False using assms(7) qmi2addr_twice [of a] by simp
  qed
  then obtain p2 s' where "start_interface MbimOps e p' s = Some (p2, s')"
      "add_address (the_ifname p) (qmi2addr (Address v)) (SubnetMask v) \<in> set (acts s')"
    using address_is_added [of e p' MbimOps s] assms(8,9,10) p' by auto
  then show ?thesis
    using prefix_survives [OF m(1)] by (auto simp: add_address_def m(2,3) mbim2qmi_is_qmi2addr qmi2addr_twice)
qed

definition mbim_addresses :: "byte list" where
  "mbim_addresses = replicate 52 0 @ le32 1 @ replicate 8 0 @ le32 60 @ replicate 40 0 @ le32 24 @ [10, 0, 0, 7]"

lemma mbim_address_reaches_interface_witness:
  "\<exists>p' p2 s'. read_ip_config mbim_addresses (wan_profile 0) = Some p' \<and>
    start_interface MbimOps ip_env p' \<lparr>acts = [], resolv = []\<rparr> = Some (p2, s') \<and>
    Shell ''ip -4 address add 10.0.0.7/24 dev wwan0'' \<in> set (acts s')"
proof -
  have rd: "rd32 mbim_addresses 52 = Some 1" "rd32 mbim_addresses 64 = Some 60"
    "rd32 mbim_addresses (48 + unat (60 :: u32)) = Some 24" "rd32 mbim_addresses (48 + unat (60 :: u32) + 4) = Some 0x0700000A"
    by code_simp+
  have "read_ip_config mbim_addresses (wan_profile 0) \<noteq> None" by code_simp
  then obtain p' where p': "read_ip_config mbim_addresses (wan_profile 0) = Some p'" by blast
  have t: "''ip -4 address add '' @ dotted 0x0700000A @ ''/'' @ dec_nat (unat (ucast (24 :: u32) :: byte)) @ '' dev '' @ ''wwan0'' =
    ''ip -4 address add 10.0.0.7/24 dev wwan0''" by code_simp
  have if_name: "the_ifname (wan_profile 0) = ''wwan0''" by (simp add: the_ifname_def wan_profile_def)
  from mbim_address_reaches_interface [OF p' rd(1) _ rd(2,3,4), of ip_env "\<lparr>acts = [], resolv = []\<rparr>"] p' show ?thesis
    unfolding if_name t by (auto simp: ip_env_def)
qed

section \<open>Name servers\<close>

lemma read_dns_info: "snd (read_dns tag n lines) = take n (filter (\<lambda>l. \<not> strstr l tag) lines)"
  by (induction tag n lines rule: read_dns.induct) (auto simp: split_def Let_def)

lemma resolv_after_some:
  "resolv_after tag (Some d) d2 lines =
     server_line tag (Some d) @ server_line tag d2 @ take 16 (filter (\<lambda>l. \<not> strstr l tag) lines)"
  using read_dns_info [of tag 16 lines] by (simp add: resolv_after_def split_def)

lemma strstr_append: "strstr (xs @ t @ ys) t"
proof (induction xs)
  case Nil
  have "prefix t (t @ ys)" by simp
  then show ?case by (cases "t @ ys") auto
qed auto

lemma server_line_tagged: "l \<in> set (server_line tag d) \<Longrightarrow> strstr l tag"
  using strstr_append [of "''nameserver '' @ x @ '' ''" tag "[]" for x]
  by (auto simp: server_line_def split: option.splits)

lemma strstr_behind: "strstr s t \<Longrightarrow> strstr (xs @ s) t"
proof (induction xs)
  case (Cons x xs)
  then show ?case by simp
qed simp

lemma filter_server_line:
  assumes "strstr tag t"
  shows "filter (\<lambda>l. \<not> strstr l t) (server_line tag d) = []"
proof (cases d)
  case (Some a)
  have "strstr ((''nameserver '' @ a @ '' '') @ tag) t" using assms by (rule strstr_behind)
  then show ?thesis using Some by (simp add: server_line_def)
qed (simp add: server_line_def)

lemma filter_take_16: "filter P (take n (filter P xs)) = take n (filter P xs)"
  by (auto simp: filter_id_conv dest: in_set_takeD)

lemma strstr_self: "strstr t t"
  using strstr_append [of "[]" t "[]"] by simp

text \<open>
  The name servers of an interface never pile up. After an update the
  file starts with the new servers of the interface, and setting others later gives what it would
  have given at once; of the lines of others the first 16 stay, in their order, and no more.
\<close>

theorem name_servers_replaced:
  "resolv_after tag (Some d1) d2 lines = server_line tag (Some d1) @ server_line tag d2 @
     take 16 (filter (\<lambda>l. \<not> strstr l tag) lines)"
  "resolv_after tag (Some d3) d4 (resolv_after tag (Some d1) d2 lines) = resolv_after tag (Some d3) d4 lines"
  using filter_server_line [OF strstr_self [of tag]]
  by (simp_all add: resolv_after_some filter_take_16)

text \<open>
  Setting the name servers of an interface throws away those of every
  interface whose name continues its name, such as those of \<open>wwan0_1\<close> for \<open>wwan0\<close>, which the
  program itself creates for further data calls.
\<close>

theorem name_servers_of_sibling_lost:
  assumes "length (''# IPV'' @ dec_int k @ '' '' @ ifname @ sfx) \<le> 63"
  shows "resolv_after (dns_tag k ifname) (Some d1) d2 (A @ server_line (dns_tag k (ifname @ sfx)) (Some d) @ B) =
    resolv_after (dns_tag k ifname) (Some d1) d2 (A @ B)"
proof -
  have "dns_tag k (ifname @ sfx) = [] @ dns_tag k ifname @ sfx" using assms by (simp add: dns_tag_def)
  then have "strstr (dns_tag k (ifname @ sfx)) (dns_tag k ifname)" by (simp only: strstr_append)
  then show ?thesis by (simp add: resolv_after_some filter_server_line)
qed

lemma name_servers_of_sibling_lost_witness:
  "resolv_after (dns_tag 4 ''wwan0'') (Some ''10.0.0.1'') None
     ([''search lan''] @ server_line (dns_tag 4 (''wwan0'' @ ''_1'')) (Some ''10.9.0.1'') @ []) =
   [''nameserver 10.0.0.1 # IPV4 wwan0'', ''search lan'']"
proof -
  have "length (''# IPV'' @ dec_int 4 @ '' '' @ ''wwan0'' @ ''_1'') \<le> 63" by code_simp
  moreover have "resolv_after (dns_tag 4 ''wwan0'') (Some ''10.0.0.1'') None ([''search lan''] @ []) =
    [''nameserver 10.0.0.1 # IPV4 wwan0'', ''search lan'']" by code_simp
  ultimately show ?thesis using name_servers_of_sibling_lost by metis
qed

end
