(* ===== verification/QmapProps.thy ===== *)
theory QmapProps
  imports QmapMode AddrProps
begin

text \<open>
  What the detection of the multiplexing mode gives: a context has its own multiplexer
  identifier and interface, which the link state of \<open>AddrConf\<close> then names; detecting again, as
  \<open>main\<close> does after a hang-up, changes nothing, except with the upstream driver.
\<close>

section \<open>Detecting again\<close>

text \<open>The identifiers of the driver's table are consecutive from 0x81 on.\<close>

definition ids_in_order :: "rmnet_modes \<Rightarrow> bool" where
  "ids_in_order d \<longleftrightarrow> length (rmnet_mux_id d) = 8 \<and> (\<forall>i<8. uint (rmnet_mux_id d ! i) = 0x81 + int i)"

lemma nth_int_Some: "nth_int xs i = Some x \<longleftrightarrow> 0 \<le> i \<and> i < int (length xs) \<and> x = xs ! nat i"
  by (auto simp: nth_int_def)

lemma ids_nth: "ids_in_order d \<Longrightarrow> nth_int (rmnet_mux_id d) i = Some m \<Longrightarrow> uint m = 0x81 + i"
  by (auto simp: ids_in_order_def nth_int_Some)

lemma default_size_again [simp]:
  "default_size f (p\<lparr>qmap_size := default_size f p, qmap_version := v\<rparr>) = default_size f p"
  by (simp add: default_size_def)

text \<open>A second pass over the defaults finds them set.\<close>

lemma qmap_defaults_again [simp]: "qmap_defaults f (qmap_defaults f p) = qmap_defaults f p"
  by (simp add: qmap_defaults_def)

lemma from_driver_info_sizes:
  assumes "ids_in_order d" "from_driver_info d p = Some p'" "sint (rmnet_qmap_mode d) \<noteq> 0"
  shows "from_driver_info d (p'\<lparr>qmap_size := n, qmap_version := v\<rparr>) = Some p'"
proof -
  let ?p = "p\<lparr>qmap_mode := sint (rmnet_qmap_mode d)\<rparr>"
  obtain m i where mi: "nth_int (rmnet_mux_id d) (offset_id ?p) = Some m" "nth_int (rmnet_ifname d) (offset_id ?p) = Some i"
      "p' = ?p\<lparr>muxid := uint m, qmapnet_adapter := take 31 i,
         qmap_size := sint (rmnet_rx_urb_size d), qmap_version := sint (rmnet_qmap_version d)\<rparr>"
    using assms(2,3) by (auto simp: from_driver_info_def Let_def bind_eq_Some_conv)
  have m: "uint m = 0x81 + offset_id ?p" by (rule ids_nth [OF assms(1) mi(1)])
  have pos: "0 \<le> offset_id ?p" using mi(1) by (simp add: nth_int_Some)
  have "offset_id (p'\<lparr>qmap_size := n, qmap_version := v, qmap_mode := sint (rmnet_qmap_mode d)\<rparr>) = offset_id ?p"
    using m pos unfolding mi(3) offset_id_def [of "_\<lparr>qmap_size := n, qmap_version := v, qmap_mode := _\<rparr>"]
    by (simp add: offset_id_def)
  then show ?thesis using mi(1,2) assms(3) by (simp add: from_driver_info_def mi(3))
qed

lemma from_driver_info_again:
  assumes "ids_in_order d" "from_driver_info d p = Some p'"
  shows "from_driver_info d (qmap_defaults f p') = Some p'"
proof (cases "sint (rmnet_qmap_mode d) = 0")
  case True
  then show ?thesis using assms(2) by (auto simp: from_driver_info_def qmap_defaults_def)
next
  case False
  have "qmap_mode p' = sint (rmnet_qmap_mode d)"
    using assms(2) False by (auto simp: from_driver_info_def Let_def bind_eq_Some_conv)
  then show ?thesis using from_driver_info_sizes [OF assms False] False by (simp add: qmap_defaults_def)
qed

text \<open>The upstream driver's file of multiplexers is read.\<close>

definition reads_add_mux :: "fs \<Rightarrow> PROFILE_T \<Rightarrow> bool" where
  "reads_add_mux f p \<longleftrightarrow> first_readable f (qmap_mode_paths p) = Some None \<and> qmidev_is_qmiwwan (qmichannel p) \<and>
     fs_access f (''/sys/class/net/qmimux'' @ dec_int (pdp p - 1)) = 0"

lemma mode_binding_again:
  "mode_binding (p\<lparr>qmap_mode := m, muxid := fst (mode_binding p m), qmapnet_adapter := snd (mode_binding p m), qmap_size := n, qmap_version := v\<rparr>) m =
    mode_binding p m"
  "mode_binding (p\<lparr>qmap_mode := m, muxid := fst (mode_binding p m), qmapnet_adapter := snd (mode_binding p m)\<rparr>) m =
    mode_binding p m"
  by (auto simp: mode_binding_def Let_def) (simp_all add: eq_neg_iff_add_eq_0 [symmetric])

lemma by_mode_file_again:
  "by_mode_file f path ((by_mode_file f path p)\<lparr>qmap_size := n, qmap_version := v\<rparr>) =
    (by_mode_file f path p)\<lparr>qmap_size := n, qmap_version := v\<rparr>"
  "by_mode_file f path (by_mode_file f path p) = by_mode_file f path p"
  by (cases "ql_fread f path 128", simp add: by_mode_file_def mode_binding_again Let_def)+

lemma qmap_places [simp]: "qmap_mode_paths (by_mode_file f path p) = qmap_mode_paths p"
  by (cases "ql_fread f path 128") (simp add: qmap_mode_paths_def by_mode_file_def Let_def)

lemma qmap_defaults_fields [simp]:
  "usbnet_adapter (qmap_defaults f p) = usbnet_adapter p" "qmichannel (qmap_defaults f p) = qmichannel p"
  "pdp (qmap_defaults f p) = pdp p" "driver_name (qmap_defaults f p) = driver_name p"
  "qmap_mode (qmap_defaults f p) = qmap_mode p" "muxid (qmap_defaults f p) = muxid p"
  "qmapnet_adapter (qmap_defaults f p) = qmapnet_adapter p"
  "qmap_mode_paths (qmap_defaults f p) = qmap_mode_paths p"
  by (simp_all add: qmap_mode_paths_def qmap_defaults_def)

lemma by_mode_file_defaults:
  assumes "p' = by_mode_file f path p"
  shows "by_mode_file f path (qmap_defaults f p') = qmap_defaults f p'"
  by (simp add: qmap_defaults_def assms by_mode_file_again)

lemma from_files_again:
  assumes "from_files f p = Some p'" "\<not> reads_add_mux f p"
  shows "from_files f (qmap_defaults f p') = Some (qmap_defaults f p')"
proof (cases "first_readable f (qmap_mode_paths p)")
  case None
  then show ?thesis using assms(1) by (simp add: from_files_def)
next
  case (Some r)
  show ?thesis
  proof (cases r)
    case None
    then show ?thesis using assms Some by (auto simp: from_files_def reads_add_mux_def split: if_splits)
  next
    case (Some path)
    note found = \<open>first_readable f (qmap_mode_paths p) = Some r\<close> Some
    have p': "p' = by_mode_file f path p" using assms(1) found by (simp add: from_files_def)
    then show ?thesis using found by_mode_file_defaults [OF p'] by (simp add: from_files_def)
  qed
qed

text \<open>What the detection leaves alone.\<close>

definition same_place :: "PROFILE_T \<Rightarrow> PROFILE_T \<Rightarrow> bool" where
  "same_place p q \<longleftrightarrow> usbnet_adapter p = usbnet_adapter q \<and> qmichannel p = qmichannel q \<and> pdp p = pdp q \<and>
     driver_name p = driver_name q \<and> enable_bridge p = enable_bridge q \<and> rmnet_info p = rmnet_info q"

lemma same_placeD: "same_place p q \<Longrightarrow> reads_add_mux f p = reads_add_mux f q" "same_place p q \<Longrightarrow> driver_of f p = driver_of f q"
  by (simp_all add: same_place_def reads_add_mux_def qmap_mode_paths_def driver_of_def)

lemma detect_same_place:
  "from_driver_info d p = Some p' \<Longrightarrow> same_place p' p"
  "from_files f p = Some p' \<Longrightarrow> same_place p' p"
  "same_place (qmap_defaults f p) p"
  by (auto simp: same_place_def from_driver_info_def from_files_def by_mode_file_def by_add_mux_def qmap_defaults_def
      Let_def bind_eq_Some_conv split: if_splits option.splits prod.splits)

lemma same_place_trans: "same_place p q \<Longrightarrow> same_place q r \<Longrightarrow> same_place p r"
  by (simp add: same_place_def)

lemma driver_name_unchanged: "p\<lparr>driver_name := driver_name p, rmnet_info := rmnet_info p\<rparr> = (p :: PROFILE_T)"
  by simp

text \<open>
  Property C22 (equivalence): detecting the multiplexing mode again, as the program does when the modem
  comes back after a hang-up, gives the same mode, multiplexer identifier, interface, sizes and
  the same write, although the identifier it found is then taken for one the user chose. It holds
  for the drivers that report a table with the identifiers 0x81, 0x82 and so on, and for those
  with a mode file; the upstream driver is the exception.
\<close>

theorem detection_is_repeatable:
  assumes "ql_qmi_qmap_mode_detect stack f d p = Some (p', w)"
    and "if rmnet_size d \<noteq> 0 then ids_in_order d else \<not> reads_add_mux f p'"
  shows "ql_qmi_qmap_mode_detect stack f d p' = Some (p', w)"
proof -
  obtain name q where name: "driver_of f p = Some name"
      and q: "(if rmnet_size d \<noteq> 0
          then from_driver_info d (p\<lparr>driver_name := name, rmnet_info := RMNET_INFO.truncate d\<rparr>)
          else from_files f (p\<lparr>driver_name := name, rmnet_info := RMNET_INFO.truncate d\<rparr>)) = Some q"
      and p': "p' = qmap_defaults f q" and w: "w = ql_set_driver_bridge_mode stack p'"
    using assms(1) unfolding ql_qmi_qmap_mode_detect_def Let_def bind_eq_Some_conv by blast
  let ?p = "p\<lparr>driver_name := name, rmnet_info := RMNET_INFO.truncate d\<rparr>"
  have same: "same_place q ?p" using q detect_same_place by (auto split: if_splits)
  have place: "same_place p' ?p" using detect_same_place(3) same unfolding p' by (rule same_place_trans)
  have again: "p'\<lparr>driver_name := name, rmnet_info := RMNET_INFO.truncate d\<rparr> = p'"
  proof -
    have "driver_name p' = name" "rmnet_info p' = RMNET_INFO.truncate d" using place by (simp_all add: same_place_def)
    then show ?thesis by (metis (no_types) driver_name_unchanged)
  qed
  have "driver_of f p' = Some name" using same_placeD(2) [OF place] name by (simp add: driver_of_def)
  moreover have "(if rmnet_size d \<noteq> 0 then from_driver_info d p' else from_files f p') = Some (if rmnet_size d \<noteq> 0 then q else p')"
    using q assms(2) from_driver_info_again [of d ?p q f] from_files_again [of f ?p q] same_placeD(1) [OF place, of f]
    by (simp add: p' split: if_splits)
  ultimately show ?thesis
    using w by (simp add: ql_qmi_qmap_mode_detect_def Let_def again split: if_splits) (simp_all add: p')
qed

text \<open>A driver with four identifiers in order, and a modem on it.\<close>

definition four_ids :: rmnet_modes where
  "four_ids = \<lparr>rmnet_size = 1, rmnet_rx_urb_size = 0x4000, rmnet_ep_type = 2, rmnet_iface_id = 4, rmnet_qmap_version = 9,
     rmnet_dl_minimum_padding = 0, rmnet_qmap_mode = 4, rmnet_ifname = map (\<lambda>i. ''wwan0_'' @ dec_nat i) [1..<9],
     rmnet_mux_id = [0x81, 0x82, 0x83, 0x84, 0x85, 0x86, 0x87, 0x88]\<rparr>"

definition qmi_wwan_q :: fs where
  "qmi_wwan_q = \<lparr>fs_access = (\<lambda>x. ENOENT), fs_file = (\<lambda>x. None), fs_dir = (\<lambda>x. None),
     fs_link = (\<lambda>x. if x = ''/sys/class/net/wwan0/device/driver'' then Some ''../qmi_wwan_q'' else None)\<rparr>"

lemma four_ids_in_order: "ids_in_order four_ids"
proof -
  have "list_all (\<lambda>i. uint (rmnet_mux_id four_ids ! i) = 0x81 + int i) [0..<8]" by code_simp
  then show ?thesis by (simp add: ids_in_order_def list_all_iff) (simp add: four_ids_def)
qed

lemma detection_is_repeatable_witness:
  "\<exists>p. ql_qmi_qmap_mode_detect [] qmi_wwan_q four_ids (profile0\<lparr>pdp := 2\<rparr>) = Some (p, ql_set_driver_bridge_mode [] p) \<and>
     muxid p = 0x82 \<and> qmapnet_adapter p = ''wwan0_2'' \<and>
     ql_qmi_qmap_mode_detect [] qmi_wwan_q four_ids p = Some (p, ql_set_driver_bridge_mode [] p)"
proof -
  have two: "digit_char 2 = CHR ''2''" by code_simp
  obtain p where p: "ql_qmi_qmap_mode_detect [] qmi_wwan_q four_ids (profile0\<lparr>pdp := 2\<rparr>) = Some (p, ql_set_driver_bridge_mode [] p)"
      "muxid p = 0x82" "qmapnet_adapter p = ''wwan0_2''"
    by (simp add: ql_qmi_qmap_mode_detect_def driver_of_def readlink_def qmi_wwan_q_def class_net_def profile0_def
        four_ids_def from_driver_info_def nth_int_def offset_id_def qmap_defaults_def default_size_def dec_nat.simps two two [unfolded numeral_2_eq_2]
        upt_rec Let_def)
  then show ?thesis
    using detection_is_repeatable [OF p(1)] four_ids_in_order by (auto simp: four_ids_def)
qed

section \<open>The upstream driver\<close>

lemma hex2_negative: "i < 0 \<Longrightarrow> hex2 b i = None"
  by (auto simp: hex2_def nth_int_def bind_eq_None_conv)

text \<open>
  Property C38 (error): with the upstream driver the second detection reads in front of its buffer.
  When the file lists two or more multiplexers, the first detection binds the call to the
  identifier in the file's line of the context; if that is below 0x81, as in the example of the
  comment, it is then taken for an interface index of the user, and the place of its line lies
  before the buffer.
\<close>

theorem second_detection_reads_outside:
  assumes "ql_qmi_qmap_mode_detect stack f d p = Some (p', w)"
    and "rmnet_size d = 0" "reads_add_mux f p'" "1 < qmap_mode p'" "10 \<le> fst (ql_fread f (class_net (usbnet_adapter p) ''/qmi/add_mux'') 128)"
    and "muxid p' \<noteq> 0" "muxid p' < 0x81"
  shows "ql_qmi_qmap_mode_detect stack f d p' = None"
proof -
  obtain name q where name: "driver_of f p = Some name"
      and q: "from_files f (p\<lparr>driver_name := name, rmnet_info := RMNET_INFO.truncate d\<rparr>) = Some q"
      and p': "p' = qmap_defaults f q"
    using assms(1,2) unfolding ql_qmi_qmap_mode_detect_def Let_def bind_eq_Some_conv by auto
  let ?q = "p'\<lparr>driver_name := name, rmnet_info := RMNET_INFO.truncate d\<rparr>"
  have place: "same_place p' (p\<lparr>driver_name := name, rmnet_info := RMNET_INFO.truncate d\<rparr>)"
    using detect_same_place(2) [OF q] detect_same_place(3) unfolding p' by (metis same_place_trans)
  have "driver_of f p' = Some name" using same_placeD(2) [OF place] name by (simp add: driver_of_def)
  moreover have "same_place ?q p'" using place by (simp add: same_place_def)
  then have "reads_add_mux f ?q" using assms(3) same_placeD(1) by blast
  moreover have "hex2 b (muxid p' - 0x81) = None" for b using assms(7) by (simp add: hex2_negative)
  moreover have "by_add_mux f ?q = None"
    using assms(5,6,7) place by (auto simp: by_add_mux_def same_place_def Let_def hex2_negative split: prod.split)
  ultimately show ?thesis
    using assms(2) by (simp add: ql_qmi_qmap_mode_detect_def from_files_def reads_add_mux_def)
qed

text \<open>The two multiplexers of the comment in the code, and the default context.\<close>

definition upstream :: fs where
  "upstream = \<lparr>fs_access = (\<lambda>x. if x = ''/sys/class/net/qmimux0'' then 0 else ENOENT),
     fs_file = (\<lambda>x. if x = ''/sys/class/net/wwan0/qmi/add_mux'' then Some (''0x11'' @ [CHR 0x0A] @ ''0x22'' @ [CHR 0x0A]) else None),
     fs_dir = (\<lambda>x. None),
     fs_link = (\<lambda>x. if x = ''/sys/class/net/wwan0/device/driver'' then Some ''../qmi_wwan'' else None)\<rparr>"

definition no_ids :: rmnet_modes where
  "no_ids = \<lparr>rmnet_size = 0, rmnet_rx_urb_size = 0, rmnet_ep_type = 0, rmnet_iface_id = 0, rmnet_qmap_version = 0,
     rmnet_dl_minimum_padding = 0, rmnet_qmap_mode = 0, rmnet_ifname = replicate 8 [], rmnet_mux_id = replicate 8 0\<rparr>"

lemma second_detection_reads_outside_witness:
  "\<exists>p w. ql_qmi_qmap_mode_detect [] upstream no_ids profile0 = Some (p, w) \<and> muxid p = 0x11 \<and> qmapnet_adapter p = ''qmimux0'' \<and>
     ql_qmi_qmap_mode_detect [] upstream no_ids p = None"
proof -
  have zero: "digit_char 0 = CHR ''0''" by code_simp
  note defs = upstream_def class_net_def profile0_def no_ids_def
  have r: "ql_fread upstream (class_net ''wwan0'' ''/qmi/add_mux'') 128 = (10, ''0x11'' @ [CHR 0x0A] @ ''0x22'' @ [CHR 0x0A] @ replicate 118 NUL)"
    by (simp add: ql_fread_def upstream_def class_net_def)
  have b: "hex2 (''0x11'' @ [CHR 0x0A] @ ''0x22'' @ [CHR 0x0A] @ replicate 118 NUL) 0 = Some 0x11"
    by (simp add: hex2_def nth_int_def)
  obtain p w where p: "ql_qmi_qmap_mode_detect [] upstream no_ids profile0 = Some (p, w)"
      "muxid p = 0x11" "qmapnet_adapter p = ''qmimux0''" "qmap_mode p = 2" "same_place p (profile0\<lparr>driver_name := ''qmi_wwan''\<rparr>)"
    using r b
    by (simp add: ql_qmi_qmap_mode_detect_def driver_of_def readlink_def class_net_def profile0_def same_place_def
        upstream_def no_ids_def from_files_def qmap_mode_paths_def qmidev_is_qmiwwan_def by_add_mux_def qmimux_def snprintf_def
        qmap_defaults_def ENOENT_def dec_int_def dec_nat.simps zero Let_def RMNET_INFO.truncate_def)
  have "reads_add_mux upstream p"
    using p(5) by (simp add: reads_add_mux_def same_place_def profile0_def qmap_mode_paths_def upstream_def class_net_def ENOENT_def
        qmidev_is_qmiwwan_def dec_int_def dec_nat.simps zero)
  moreover have "usbnet_adapter profile0 = ''wwan0''" by (simp add: profile0_def)
  ultimately show ?thesis
    using second_detection_reads_outside [OF p(1)] p r by (auto simp: no_ids_def)
qed

section \<open>The context of a call\<close>

lemma atoi_line:
  assumes "n < 2 ^ 31"
  shows "atoi (dec_nat n @ [CHR 0x0A]) = int n"
proof -
  obtain c cs where c: "dec_nat n = c # cs" "isdig 10 c" by (rule dec_nat_Cons)
  have ws: "dropWhile isspace (dec_nat n @ [CHR 0x0A]) = dec_nat n @ [CHR 0x0A]" using c by (simp add: isdig_not_special)
  have sg: "strto_sign (dec_nat n @ [CHR 0x0A]) = (False, dec_nat n @ [CHR 0x0A])"
    using c by (simp add: strto_sign_def isdig_not_special)
  have "\<not> isdig 10 (CHR 0x0A)" by code_simp
  then have tw: "takeWhile (isdig 10) (dec_nat n @ [CHR 0x0A]) = dec_nat n"
    by (auto simp: takeWhile_dec_nat dest: dec_nat_digits intro!: takeWhile_all)
  have "strtol 10 (dec_nat n @ [CHR 0x0A]) = (int n, True)"
    using assms by (simp add: strtol_def strto_scan_def ws sg tw digits_val_dec_nat)
  then show ?thesis using assms by (simp add: atoi_def c_int_id)
qed

lemma dec_nat_no_NUL: "NUL \<notin> set (dec_nat n)"
proof
  assume "NUL \<in> set (dec_nat n)"
  then have "isdig 10 NUL" by (rule dec_nat_digits)
  moreover have "\<not> isdig 10 NUL" by code_simp
  ultimately show False by simp
qed

lemma mode_file_value:
  assumes "fs_file f path = Some (dec_nat n @ [CHR 0x0A])" "n < 2 ^ 31"
  obtains k b where "ql_fread f path 128 = (k, b)" "k \<noteq> 0" "atoi (cstr b) = int n"
proof -
  have "length (dec_nat n) \<le> 10" using dec_nat_short [of n 9] assms(2) by simp
  then have r: "ql_fread f path 128 = (length (dec_nat n) + 1, (dec_nat n @ [CHR 0x0A]) @ replicate (127 - length (dec_nat n)) NUL)"
    using assms(1) by (simp add: ql_fread_def)
  have "cstr ((dec_nat n @ [CHR 0x0A]) @ replicate k NUL) = dec_nat n @ [CHR 0x0A]" for k
    unfolding cstr_def using dec_nat_no_NUL [of n]
    by (subst takeWhile_append2) (auto simp: NUL_def takeWhile_replicate)
  then show thesis using that r atoi_line [OF assms(2)] by simp
qed

lemma muxid_low_bits: "0 \<le> k \<Longrightarrow> k < 128 \<Longrightarrow> (128 + k) AND 0x7F = (k :: int)"
proof -
  assume k: "0 \<le> k" "k < 128"
  have m: "(0x7F :: int) = mask 7" by (simp add: mask_eq_exp_minus_1)
  have "(128 + k) AND 0x7F = (128 + k) mod 2 ^ 7" unfolding m by (simp only: take_bit_eq_mask [symmetric] take_bit_eq_mod)
  then show ?thesis using k by simp
qed

text \<open>
  Property C19 (functional): a context gets a multiplexer and an interface of its own, and the driver
  is told about this one. With a driver whose mode file says that it multiplexes and no choice by
  the user, the call of the context numbered \<open>k\<close> is bound to identifier 0x80 + k and the interface
  \<open><card>.k\<close>, and when the call comes up or goes down, the first thing the driver is told is
  the link state of number \<open>k\<close>.
\<close>

theorem context_gets_its_multiplexer:
  assumes "rmnet_size d = 0" "driver_of f p = Some name"
    and "first_readable f (qmap_mode_paths (p\<lparr>driver_name := name\<rparr>)) = Some (Some path)"
    and "fs_file f path = Some (dec_nat n @ [CHR 0x0A])" "1 < n" "n < 2 ^ 31"
    and "muxid p = 0" "0 < pdp p" "pdp p < 128" "length (usbnet_adapter p) \<le> 16"
    and "e_link_file e"
  shows "\<exists>p' w. ql_qmi_qmap_mode_detect stack f d p = Some (p', w) \<and> muxid p' = 0x80 + pdp p \<and>
    the_ifname p' = usbnet_adapter p @ ''.'' @ dec_int (pdp p) \<and>
    ql_set_driver_link_state e p' True s = act [LinkState (dec_int (pdp p) @ [CHR 0x0A])] s \<and>
    (\<exists>more. ql_set_driver_link_state e p' False s = act (LinkState (dec_int (0x80 + pdp p) @ [CHR 0x0A]) # more) s)"
proof -
  obtain k b where r: "ql_fread f path 128 = (k, b)" "k \<noteq> 0" "atoi (cstr b) = int n"
    using mode_file_value [OF assms(4,6)] by blast
  let ?p = "p\<lparr>driver_name := name, rmnet_info := RMNET_INFO.truncate d\<rparr>"
  have paths: "qmap_mode_paths ?p = qmap_mode_paths (p\<lparr>driver_name := name\<rparr>)" by (simp add: qmap_mode_paths_def)
  have len: "length (dec_int (pdp p)) \<le> 3" using dec_nat_short [of "nat (pdp p)" 2] assms(8,9) by (simp add: dec_int_def)
  let ?q = "by_mode_file f path ?p"
  have q: "from_files f ?p = Some ?q" using assms(3) by (simp add: from_files_def paths)
  have fields: "muxid ?q = 0x80 + pdp p" "qmapnet_adapter ?q = usbnet_adapter p @ ''.'' @ dec_int (pdp p)"
      "qmap_mode ?q = int n" "usbnet_adapter ?q = usbnet_adapter p"
    using r assms(5,7,10) len by (simp_all add: by_mode_file_def mode_binding_def snprintf_def Let_def)
  let ?r = "qmap_defaults f ?q"
  have bits: "(128 + pdp p) AND 0x7F = pdp p" using assms(8,9) by (simp add: muxid_low_bits)
  have "ql_qmi_qmap_mode_detect stack f d p = Some (?r, ql_set_driver_bridge_mode stack ?r)"
    using assms(1,2) q by (simp add: ql_qmi_qmap_mode_detect_def Let_def)
  moreover have "the_ifname ?r = usbnet_adapter p @ ''.'' @ dec_int (pdp p)" using fields by (simp add: the_ifname_def)
  moreover have "ql_set_driver_link_state e ?r True s = act [LinkState (dec_int (pdp p) @ [CHR 0x0A])] s"
    using assms(5,11) fields bits by (simp add: ql_set_driver_link_state_def Let_def)
  moreover have "\<exists>more. ql_set_driver_link_state e ?r False s = act (LinkState (dec_int (0x80 + pdp p) @ [CHR 0x0A]) # more) s"
    using assms(5,11) fields bits
    by (auto simp: ql_set_driver_link_state_def Let_def ifc_set_state_def ql_system_def act_def)
  ultimately show ?thesis using fields by auto
qed

definition four_modes :: fs where
  "four_modes = qmi_wwan_q\<lparr>fs_access := (\<lambda>x. 0), fs_file := (\<lambda>x. Some (dec_nat 4 @ [CHR 0x0A]))\<rparr>"

lemma context_gets_its_multiplexer_witness:
  "\<exists>p w. ql_qmi_qmap_mode_detect [] four_modes no_ids (profile0\<lparr>pdp := 3\<rparr>) = Some (p, w) \<and>
     muxid p = 0x83 \<and> the_ifname p = ''wwan0.3''"
proof -
  let ?p = "profile0\<lparr>pdp := 3\<rparr>"
  let ?e = "\<lparr>e_ip_tool = True, e_link_file = True, e_link_read = Some [], e_mtu = None, e_up = True, e_bridge = False,
      e_if_addr = (\<lambda>_. 0), e_raw_ip = None, e_stale_routes = 0\<rparr>"
  have three: "dec_int 3 = ''3''" by code_simp
  have driver: "driver_of four_modes ?p = Some ''qmi_wwan_q''"
    by (simp add: driver_of_def readlink_def four_modes_def qmi_wwan_q_def class_net_def profile0_def)
  have path: "first_readable four_modes (qmap_mode_paths (?p\<lparr>driver_name := ''qmi_wwan_q''\<rparr>)) =
      Some (Some ''/sys/class/net/wwan0/qmap_mode'')"
    by (simp add: four_modes_def qmap_mode_paths_def class_net_def profile0_def)
  have content: "fs_file four_modes ''/sys/class/net/wwan0/qmap_mode'' = Some (dec_nat 4 @ [CHR 0x0A])" by (simp add: four_modes_def)
  have no_table: "rmnet_size no_ids = 0" by (simp add: no_ids_def)
  have p: "muxid ?p = 0" "0 < pdp ?p" "pdp ?p < 128" "length (usbnet_adapter ?p) \<le> 16" "usbnet_adapter ?p = ''wwan0''" "pdp ?p = 3"
    by (simp_all add: profile0_def)
  have "e_link_file ?e" by simp
  from context_gets_its_multiplexer [OF no_table driver path content _ _ p(1-4) this, of "[]" "\<lparr>acts = [], resolv = []\<rparr>"]
  show ?thesis unfolding p(5,6) three by auto
qed

end
