(* ===== verification/ConnRunProps.thy ===== *)
theory ConnRunProps
  imports ConnRun QmapProps
begin

text \<open>
  What the program around the connection manager does: the modem it finds is one device, the
  tables follow the kind of its interface, a hang-up is waited out, and only older instances on
  the same channel are ended.
\<close>

section \<open>The modem that is found\<close>

lemma bit_below:
  assumes "(w :: u32) < 2 ^ n" "n < 32" "bit w k"
  shows "k < n"
proof -
  have "bit (w AND mask n) k" using assms by (simp add: less_mask_eq)
  then show ?thesis by (simp add: bit_simps)
qed

text \<open>The device number is taken apart by the kernel as it was put together.\<close>

lemma device_number_parts:
  assumes "major < 0x1000" "minor < 0x100000"
  shows "drop_bit 8 (device_number major minor AND 0xfff00) = major"
    "(device_number major minor AND 0xff) OR (drop_bit 12 (device_number major minor) AND 0xfff00) = minor"
proof -
  have m: "(0xfff00 :: u32) = push_bit 8 (mask 12)" "(0xff :: u32) = mask 8" "(0xfff :: u32) = mask 12"
    by (simp_all add: mask_eq_exp_minus_1)
  have bits: "bit major n \<Longrightarrow> n < 12" "bit minor n \<Longrightarrow> n < 20" for n
    using bit_below [of major 12 n] bit_below [of minor 20 n] assms by simp_all
  show "drop_bit 8 (device_number major minor AND 0xfff00) = major"
    unfolding device_number_def m
    by (rule bit_word_eqI) (auto simp: bit_simps dest: bits)
  show "(device_number major minor AND 0xff) OR (drop_bit 12 (device_number major minor) AND 0xfff00) = minor"
    unfolding device_number_def m
    by (rule bit_word_eqI) (auto simp: bit_simps dest: bits)
qed

text \<open>A number file without a digit makes the program close the file twice.\<close>

lemma no_digit_closes_twice: "file_get_value (f\<lparr>fs_file := (\<lambda>_. Some [CHR 0x0A])\<rparr>) path 16 = None"
  by (simp add: file_get_value_def fgets_def strtol_def strto_scan_def strto_sign_def strto_prefix_def isspace_def)

lemma detect_path_child:
  assumes "detect_path_cdc_wdm_or_qcqmi f path = (dev, nods)" "dev \<noteq> []"
  shows "\<exists>dir cs c. dir \<in> {''/GobiQMI'', ''/usbmisc'', ''/usb''} \<and> fs_dir f (path @ dir) = Some cs \<and> c \<in> set cs \<and>
    dev = ''/dev/'' @ take 31 c"
proof -
  obtain d where d: "find (\<lambda>d. fs_access f (path @ d) = 0) [''/GobiQMI'', ''/usbmisc'', ''/usb''] = Some d"
      "dir_get_child f (path @ d) [] \<noteq> []" "dev = snprintf 37 (''/dev/'' @ dir_get_child f (path @ d) [])"
    using assms by (auto simp: detect_path_cdc_wdm_or_qcqmi_def Let_def simp del: find.simps split: if_splits option.splits)
  have "d \<in> set [''/GobiQMI'', ''/usbmisc'', ''/usb'']" using find_in [OF d(1)] by blast
  moreover obtain es n where "fs_dir f (path @ d) = Some es" "n \<in> set es" "dir_get_child f (path @ d) [] = take 31 n"
    using dir_get_child_in [OF d(2)] by blast
  ultimately show ?thesis using d(3) by (auto simp: snprintf_def)
qed

lemma tty_child:
  assumes "tty_of f path \<noteq> []"
  shows "\<exists>dir cs c. dir \<in> {[], ''/tty''} \<and> fs_dir f (path @ dir) = Some cs \<and> c \<in> set cs \<and> prefix ''tty'' c \<and> tty_of f path = take 31 c"
proof -
  let ?dir = "if dir_get_child f path ''tty'' = ''tty'' then ''/tty'' else []"
  have t: "tty_of f path = dir_get_child f (path @ ?dir) ''tty''" by (simp add: tty_of_def Let_def)
  then obtain cs c where "fs_dir f (path @ ?dir) = Some cs" "c \<in> set cs" "prefix ''tty'' c" "tty_of f path = take 31 c"
    using dir_get_child_in [of f "path @ ?dir" "''tty''"] assms by metis
  moreover have "?dir \<in> {[], ''/tty''}" by simp
  ultimately show ?thesis by blast
qed

lemma snprintf_short: "length t < n \<Longrightarrow> snprintf n t = t"
  by (simp add: snprintf_def)

lemma channel_child:
  assumes "channel_of f n i s = (dev, s')" "dev \<noteq> []"
  shows "sc_dev s' = sc_dev s \<and> usb_intf s' = usb_intf s \<and>
    (\<exists>j dir cs c. fs_dir f (intf_path n j @ dir) = Some cs \<and> c \<in> set cs \<and>
      snprintf 32 (if hd dev = CHR ''/'' then dev else ''/dev/'' @ dev) = snprintf 32 (''/dev/'' @ take 31 c))"
proof -
  obtain ty rndis where ty: "get_driver_type (usb_intf s) (RDNIS_MODEL s) = (ty, rndis)" by fastforce
  show ?thesis
  proof (cases "ty = SOFTWARE_QMI \<or> ty = SOFTWARE_MBIM")
    case True
    obtain d nods where d: "detect_path_cdc_wdm_or_qcqmi f (intf_path n i) = (d, nods)" by fastforce
    have dev: "dev = d" "s' = s\<lparr>RDNIS_MODEL := rndis, mknods := mknods s @ nods\<rparr>"
      using assms(1) ty True d by (auto simp: channel_of_def Let_def)
    obtain dir cs c where "fs_dir f (intf_path n i @ dir) = Some cs" "c \<in> set cs" "d = ''/dev/'' @ take 31 c"
      using detect_path_child [OF d] assms(2) dev(1) by blast
    then show ?thesis using dev by auto
  next
    case False
    obtain a where a: "dev = tty_of f (intf_path n a)" "s' = s\<lparr>RDNIS_MODEL := rndis\<rparr>"
      using assms ty False by (auto simp: channel_of_def Let_def split: if_splits option.splits)
    obtain dir cs c where c: "fs_dir f (intf_path n a @ dir) = Some cs" "c \<in> set cs" "prefix ''tty'' c" "dev = take 31 c"
      using tty_child [of f "intf_path n a"] assms(2) unfolding a(1) by blast
    have "hd dev = CHR ''t''" using c(3,4) by (auto simp: prefix_def)
    then have "snprintf 32 (if hd dev = CHR ''/'' then dev else ''/dev/'' @ dev) = snprintf 32 (''/dev/'' @ take 31 c)"
      using c(4) by simp
    then show ?thesis using a(2) c(1,2) by auto
  qed
qed

text \<open>One device of the walk, as the result of \<open>scan_device\<close> describes it.\<close>

lemma scan_device_found:
  assumes "scan_device f want n s = Some (Some (ch, net), s')"
  shows "query_usb_device_info f (usb_path n) = Some (sc_dev s') \<and> idVendor (sc_dev s') \<noteq> CM_INVALID_VAL \<and>
    (old_names f n \<and> ch = ''/dev/qcqmi0'' \<and> net = ''usb0'' \<or>
     (\<exists>k cards card j dir cs c. fs_dir f (intf_path n k @ ''/net'') = Some cards \<and> card \<in> set cards \<and> net = take 31 card \<and>
        (want = [] \<or> want = net) \<and> query_usb_interface_info f (intf_path n k) = Some (usb_intf s') \<and>
        fs_dir f (intf_path n j @ dir) = Some cs \<and> c \<in> set cs \<and> ch = snprintf 32 (''/dev/'' @ take 31 c)))"
proof -
  obtain d where d: "query_usb_device_info f (usb_path n) = Some d" "idVendor d \<noteq> CM_INVALID_VAL"
    using assms by (auto simp: scan_device_def bind_eq_Some_conv Let_def split: if_splits)
  obtain c where c: "find_netcard f n (bNumInterfaces d) = Some c"
    using assms d by (auto simp: scan_device_def bind_eq_Some_conv Let_def)
  show ?thesis
  proof (cases c)
    case None
    then have "old_names f n" "ch = ''/dev/qcqmi0''" "net = ''usb0''" "sc_dev s' = d"
      using assms d c by (auto simp: scan_device_def bind_eq_Some_conv Let_def split: if_splits)
    then show ?thesis using d by blast
  next
    case (Some kn)
    obtain k card where kn: "kn = (k, card)" by fastforce
    have card: "card = dir_get_child f (intf_path n k @ ''/net'') []" "card \<noteq> []"
      using c Some kn by (auto simp: find_netcard_def dest!: find_in split: if_splits)
    have want: "want = [] \<or> want = card" and taken: "take_device f n k card (s\<lparr>sc_dev := d\<rparr>) = Some (Some (ch, net), s')"
      using assms d c Some kn by (auto simp: scan_device_def Let_def split: if_splits)
    obtain i where i1: "query_usb_interface_info f (intf_path n k) = Some i" using taken by (auto simp: take_device_def bind_eq_Some_conv)
    obtain dev t where i2: "channel_of f n k (s\<lparr>sc_dev := d, usb_intf := i\<rparr>) = (dev, t)" by fastforce
    have i3: "dev \<noteq> []" "s' = t" "net = snprintf 32 card" "ch = snprintf 32 (if hd dev = CHR ''/'' then dev else ''/dev/'' @ dev)"
      using taken i1 i2 by (auto simp: take_device_def simp del: if_split split: if_split_asm)
    note i = i1 want i2 i3
    obtain es m where m: "fs_dir f (intf_path n k @ ''/net'') = Some es" "m \<in> set es" "card = take 31 m"
      using dir_get_child_in [of f "intf_path n k @ ''/net''" "[]"] card by metis
    have net: "net = card" using i(6) m(3) by (simp add: snprintf_short)
    obtain j dir cs e where e: "fs_dir f (intf_path n j @ dir) = Some cs" "e \<in> set cs" "ch = snprintf 32 (''/dev/'' @ take 31 e)"
        "sc_dev s' = d" "usb_intf s' = i"
      using channel_child [OF i(3,4)] i(5,7) by auto
    have "net = take 31 m" "want = [] \<or> want = net" "query_usb_interface_info f (intf_path n k) = Some (usb_intf s')"
      using net m(3) i(1,2) e(5) by simp_all
    then have "\<exists>k cards card j dir cs c. fs_dir f (intf_path n k @ ''/net'') = Some cards \<and> card \<in> set cards \<and> net = take 31 card \<and>
        (want = [] \<or> want = net) \<and> query_usb_interface_info f (intf_path n k) = Some (usb_intf s') \<and>
        fs_dir f (intf_path n j @ dir) = Some cs \<and> c \<in> set cs \<and> ch = snprintf 32 (''/dev/'' @ take 31 c)"
      using m(1,2) e(1,2,3)
      by (intro exI [of _ k] exI [of _ es] exI [of _ m] exI [of _ j] exI [of _ dir] exI [of _ cs] exI [of _ e] conjI)
    then show ?thesis using d unfolding e(4) by (intro conjI disjI2)
  qed
qed

lemma scan_devices_found:
  "scan_devices f want ns s = Some (Some r, s') \<Longrightarrow>
    \<exists>n t. n \<in> set ns \<and> \<not> prefix ''u'' n \<and> scan_device f want n t = Some (Some r, s')"
proof (induction ns arbitrary: s)
  case (Cons n ns)
  then show ?case by (auto simp: bind_eq_Some_conv split: if_splits prod.splits) blast+
qed simp

text \<open>
  Property C20 (safety): the modem that the program finds is one USB device. Its network card and its
  control channel, a device file or a serial port, are children of interfaces of the same device
  in the list of USB devices, the recorded identity and interface are the ones read from that
  device, and a card the user asked for with \<open>-i\<close> is the one taken. The two fixed names of old
  kernels are the exception to the last.
\<close>

theorem detected_modem_is_one_device:
  assumes "qmidevice_detect f want s = Some (Some (ch, net), s')"
  shows "\<exists>ns n. fs_dir f usb_root = Some ns \<and> n \<in> set ns \<and> \<not> prefix ''u'' n \<and>
    query_usb_device_info f (usb_path n) = Some (sc_dev s') \<and> idVendor (sc_dev s') \<noteq> CM_INVALID_VAL \<and>
    (old_names f n \<and> ch = ''/dev/qcqmi0'' \<and> net = ''usb0'' \<or>
     (\<exists>k cards card j dir cs c. fs_dir f (intf_path n k @ ''/net'') = Some cards \<and> card \<in> set cards \<and> net = take 31 card \<and>
        (want = [] \<or> want = net) \<and> query_usb_interface_info f (intf_path n k) = Some (usb_intf s') \<and>
        fs_dir f (intf_path n j @ dir) = Some cs \<and> c \<in> set cs \<and> ch = snprintf 32 (''/dev/'' @ take 31 c)))"
proof -
  obtain ns where ns: "fs_dir f usb_root = Some ns" "scan_devices f want ns s = Some (Some (ch, net), s')"
    using assms by (auto simp: qmidevice_detect_def split: option.splits)
  obtain n t where n: "n \<in> set ns" "\<not> prefix ''u'' n" "scan_device f want n t = Some (Some (ch, net), s')"
    using scan_devices_found [OF ns(2)] by blast
  show ?thesis using ns(1) n(1,2) scan_device_found [OF n(3)] by (intro exI [of _ ns] exI [of _ n]) simp
qed

text \<open>A USB stick with a QMI interface, and the walk before it.\<close>

definition stick :: fs where
  "stick = \<lparr>fs_access = (\<lambda>_. 0),
     fs_file = (\<lambda>x. if x = ''/sys/bus/usb/devices/1-1/idVendor'' then Some ''2c7c''
       else if x = ''/sys/bus/usb/devices/1-1/bNumInterfaces'' then Some ''1''
       else if x = ''/sys/bus/usb/devices/1-1:1.0/bInterfaceClass'' then Some ''ff'' else None),
     fs_dir = (\<lambda>x. if x = ''/sys/bus/usb/devices'' then Some [''usb1'', ''1-1'']
       else if x = ''/sys/bus/usb/devices/1-1:1.0/net'' then Some [''.'', ''wwan0'']
       else if x = ''/sys/bus/usb/devices/1-1:1.0/GobiQMI'' then Some [''qcqmi0''] else None),
     fs_link = (\<lambda>_. None)\<rparr>"

definition scan0 :: scan where
  "scan0 = \<lparr>sc_dev = usb_dev_zero, usb_intf = \<lparr>bNumEndpoints = 0, bInterfaceClass = 0, bInterfaceSubClass = 0,
     bInterfaceProtocol = 0, intf_driver = []\<rparr>, RDNIS_MODEL = False, mknods = []\<rparr>"

lemma stick_found: "map_option fst (qmidevice_detect stick [] scan0) = Some (Some (''/dev/qcqmi0'', ''wwan0''))"
  by code_simp

lemma detected_modem_is_one_device_witness:
  "\<exists>s'. qmidevice_detect stick [] scan0 = Some (Some (''/dev/qcqmi0'', ''wwan0''), s') \<and>
     (\<exists>ns n. fs_dir stick usb_root = Some ns \<and> n \<in> set ns \<and> query_usb_device_info stick (usb_path n) = Some (sc_dev s'))"
proof -
  obtain s' where s': "qmidevice_detect stick [] scan0 = Some (Some (''/dev/qcqmi0'', ''wwan0''), s')"
    using stick_found by auto
  show ?thesis using detected_modem_is_one_device [OF s'] s' by blast
qed

section \<open>The tables\<close>

text \<open>What the detection of the mode leaves alone.\<close>

definition same_kind :: "PROFILE_T \<Rightarrow> PROFILE_T \<Rightarrow> bool" where
  "same_kind q p \<longleftrightarrow> software_interface q = software_interface p \<and> hardware_interface q = hardware_interface p \<and>
     qmichannel q = qmichannel p \<and> apn q = apn p"

lemma same_kind_trans: "same_kind r q \<Longrightarrow> same_kind q p \<Longrightarrow> same_kind r p"
  by (simp add: same_kind_def)

lemma from_driver_info_kind: "from_driver_info d p = Some q \<Longrightarrow> same_kind q p"
  by (auto simp: from_driver_info_def same_kind_def Let_def bind_eq_Some_conv split: if_splits)

lemma by_mode_file_kind: "same_kind (by_mode_file f path p) p"
  by (cases "ql_fread f path 128") (simp add: by_mode_file_def same_kind_def Let_def)

lemma by_add_mux_kind: "by_add_mux f p = Some q \<Longrightarrow> same_kind q p"
  by (cases "ql_fread f (class_net (usbnet_adapter p) ''/qmi/add_mux'') 128")
    (auto simp: by_add_mux_def same_kind_def Let_def bind_eq_Some_conv split: if_splits)

lemma from_files_kind: "from_files f p = Some q \<Longrightarrow> same_kind q p"
  by (auto simp: from_files_def same_kind_def by_mode_file_kind [unfolded same_kind_def]
      dest!: by_add_mux_kind split: option.splits if_splits)

lemma qmap_defaults_kind: "same_kind (qmap_defaults f p) p"
  by (simp add: qmap_defaults_def same_kind_def)

lemma qmi_detect_kind:
  assumes "ql_qmi_qmap_mode_detect stack f d p = Some (p', w)"
  shows "same_kind p' p"
proof -
  obtain name q where q: "(if rmnet_size d \<noteq> 0
        then from_driver_info d (p\<lparr>driver_name := name, rmnet_info := RMNET_INFO.truncate d\<rparr>)
        else from_files f (p\<lparr>driver_name := name, rmnet_info := RMNET_INFO.truncate d\<rparr>)) = Some q"
      "p' = qmap_defaults f q"
    using assms unfolding ql_qmi_qmap_mode_detect_def Let_def bind_eq_Some_conv by blast
  have "same_kind q (p\<lparr>driver_name := name, rmnet_info := RMNET_INFO.truncate d\<rparr>)"
    using q(1) from_driver_info_kind from_files_kind by (metis (full_types))
  then show ?thesis using qmap_defaults_kind [of f q] by (simp add: q(2) same_kind_def)
qed

lemma qmap_detect_keeps:
  assumes "ql_qmap_mode_detect stack f d p = Some (p', w)"
  shows "same_kind p' p"
proof -
  have "ql_mbim_mhi_qmap_mode_detect d p = Some q \<Longrightarrow> same_kind q p" for q
    by (auto simp: ql_mbim_mhi_qmap_mode_detect_def same_kind_def Let_def bind_eq_Some_conv split: if_splits)
  moreover have "same_kind (ql_mbim_usb_vlan_mode_detect f p) p"
    by (simp add: ql_mbim_usb_vlan_mode_detect_def same_kind_def Let_def)
  moreover have "same_kind p p" by (simp add: same_kind_def)
  ultimately show ?thesis
    using assms by (auto simp: ql_qmap_mode_detect_def dest: qmi_detect_kind split: if_splits)
qed

lemma driver_type_class:
  "fst (get_driver_type i rndis) = (if bInterfaceClass i = 0xff then SOFTWARE_QMI
     else if bInterfaceClass i = 2 \<and> bInterfaceSubClass i = 0x0e then SOFTWARE_MBIM
     else if bInterfaceClass i = 2 \<and> bInterfaceSubClass i \<in> {0x06, 0x0d} \<or>
       bInterfaceClass i = 0xe0 \<and> bInterfaceSubClass i = 1 \<and> bInterfaceProtocol i = 3 then SOFTWARE_ECM_RNDIS_NCM
     else DRV_INVALID)"
  by (simp add: get_driver_type_def)

lemma software_distinct [simp]:
  "SOFTWARE_QMI \<noteq> SOFTWARE_MBIM" "SOFTWARE_QMI \<noteq> SOFTWARE_ECM_RNDIS_NCM" "SOFTWARE_MBIM \<noteq> SOFTWARE_ECM_RNDIS_NCM"
  "DRV_INVALID \<noteq> SOFTWARE_QMI" "DRV_INVALID \<noteq> SOFTWARE_MBIM" "DRV_INVALID \<noteq> SOFTWARE_ECM_RNDIS_NCM"
  "SOFTWARE_MBIM \<noteq> SOFTWARE_QMI" "SOFTWARE_ECM_RNDIS_NCM \<noteq> SOFTWARE_QMI" "SOFTWARE_ECM_RNDIS_NCM \<noteq> SOFTWARE_MBIM"
  "SOFTWARE_QMI \<noteq> DRV_INVALID" "SOFTWARE_MBIM \<noteq> DRV_INVALID" "SOFTWARE_ECM_RNDIS_NCM \<noteq> DRV_INVALID"
  by (simp_all add: software_simps)

lemma choose_tables_kind:
  assumes "choose_tables p = RunMain ops dev"
  shows "case ops of QmiOps \<Rightarrow> software_interface p = SOFTWARE_QMI \<and> dev = ql_driver_type_detect p
    | MbimOps \<Rightarrow> software_interface p = SOFTWARE_MBIM \<and> apn p \<noteq> None \<and> apn p \<noteq> Some []
    | AtcOps \<Rightarrow> software_interface p = SOFTWARE_ECM_RNDIS_NCM"
proof -
  consider "software_interface p = SOFTWARE_MBIM" | "software_interface p = SOFTWARE_QMI" "software_interface p \<noteq> SOFTWARE_MBIM"
    | "software_interface p = SOFTWARE_ECM_RNDIS_NCM" "software_interface p \<noteq> SOFTWARE_QMI" "software_interface p \<noteq> SOFTWARE_MBIM"
    using assms by (auto simp: choose_tables_def split: if_split_asm)
  then show ?thesis
  proof cases
    case 1
    then have "ops = MbimOps" "apn p \<noteq> None" "apn p \<noteq> Some []"
      using assms by (auto simp: choose_tables_def split: if_split_asm)
    then show ?thesis using 1 by simp
  next
    case 2
    then have "ops = QmiOps" "dev = ql_driver_type_detect p" using assms by (simp_all add: choose_tables_def ql_driver_type_detect_def)
    then show ?thesis using 2 by simp
  next
    case 3
    then have "ops = AtcOps" using assms by (simp add: choose_tables_def)
    then show ?thesis using 3 by simp
  qed
qed

text \<open>
  The table of requests follows the kind of the modem's interface: vendor specific is QMI, the
  communication class with the MBIM subclass is MBIM and needs an APN, Ethernet, NCM and RNDIS
  are AT commands.
\<close>

theorem table_follows_interface:
  assumes "quectel_CM_start e s p = Some (RunMain ops dev, s', p', w)" "hardware_interface p' = HARDWARE_USB"
  shows "case ops of
      QmiOps \<Rightarrow> bInterfaceClass (usb_intf s') = 0xff \<and> dev = ql_driver_type_detect p'
    | MbimOps \<Rightarrow> bInterfaceClass (usb_intf s') = 2 \<and> bInterfaceSubClass (usb_intf s') = 0x0e \<and> apn p' \<noteq> None \<and> apn p' \<noteq> Some []
    | AtcOps \<Rightarrow> bInterfaceClass (usb_intf s') = 2 \<and> bInterfaceSubClass (usb_intf s') \<in> {0x06, 0x0d} \<or>
        bInterfaceClass (usb_intf s') = 0xe0 \<and> bInterfaceSubClass (usb_intf s') = 1 \<and> bInterfaceProtocol (usb_intf s') = 3"
proof -
  obtain ch net s1 p1 where f: "find_device (r_fs e) s p = Some (Some (ch, net), s1, p1)"
    using assms(1) by (auto simp: quectel_CM_start_def bind_eq_Some_conv split: option.splits prod.splits)
  let ?p = "p1\<lparr>qmichannel := ch, usbnet_adapter := net\<rparr>"
  obtain ty rndis where ty: "get_driver_type (usb_intf s1) (RDNIS_MODEL s1) = (ty, rndis)" by fastforce
  let ?q = "if hardware_interface p1 = HARDWARE_USB then (?p\<lparr>software_interface := ty\<rparr>, s1\<lparr>RDNIS_MODEL := rndis\<rparr>) else (?p, s1)"
  have r: "ql_qmap_mode_detect (r_stack e) (r_fs e) (r_driver e) (fst ?q) = Some (p', w)"
      "choose_tables p' = RunMain ops dev" "s' = snd ?q"
    using assms(1) f ty by (simp_all add: quectel_CM_start_def bind_eq_Some_conv Let_def split: if_splits prod.splits)
  have kind: "same_kind p' (fst ?q)" by (rule qmap_detect_keeps [OF r(1)])
  then have usb: "hardware_interface p1 = HARDWARE_USB" using assms(2) by (auto simp: same_kind_def split: if_splits)
  have "software_interface p' = ty" using kind usb by (simp add: same_kind_def)
  then show ?thesis
    using choose_tables_kind [OF r(2)] driver_type_class [of "usb_intf s1" "RDNIS_MODEL s1"] ty r(3) usb
    by (cases ops) (simp_all split: if_split_asm)
qed

section \<open>Waiting for the modem\<close>

section \<open>Waiting for the modem\<close>

text \<open>
  Interface \<open>i\<close> of device \<open>d\<close> has no control channel: no directory of a character device and, for
  a Quectel device, no serial port.
\<close>

definition no_channel :: "fs \<Rightarrow> string \<Rightarrow> int \<Rightarrow> usb_device_info \<Rightarrow> bool" where
  "no_channel f n i d \<longleftrightarrow> (\<forall>x\<in>{''/GobiQMI'', ''/usbmisc'', ''/usb''}. fs_access f (intf_path n i @ x) \<noteq> 0) \<and>
     (idVendor d = 0x2c7c \<longrightarrow> (\<forall>a\<in>{2, 3, 4, 5}. tty_of f (intf_path n a) = []))"

text \<open>
  A name in the list of USB devices that is not the modem: it has no \<open>idVendor\<close> (\<open>.\<close>, \<open>..\<close>, an
  interface), or it is a device, such as a hub, none of whose interfaces has a network card, or a
  device with a card but no channel, such as an Ethernet adapter or a modem that is still
  starting. The number files that are there hold numbers.
\<close>

definition other_device :: "fs \<Rightarrow> string \<Rightarrow> bool" where
  "other_device f n \<longleftrightarrow> (case query_usb_device_info f (usb_path n) of None \<Rightarrow> False
     | Some d \<Rightarrow> idVendor d = CM_INVALID_VAL \<or>
         bNumInterfaces d + 8 < 2 ^ 31 \<and> \<not> old_names f n \<and>
         (\<forall>i. dir_get_child f (intf_path n i @ ''/net'') [] \<noteq> [] \<longrightarrow>
            query_usb_interface_info f (intf_path n i) \<noteq> None \<and> no_channel f n i d))"

text \<open>A file system without a modem: other USB devices, PCIe entries that are not its network part, no AT device.\<close>

definition no_modem :: "fs \<Rightarrow> bool" where
  "no_modem f \<longleftrightarrow>
     (\<forall>ns n. fs_dir f usb_root = Some ns \<and> n \<in> set ns \<longrightarrow> prefix ''u'' n \<or> other_device f n) \<and>
     (\<forall>root\<in>{mhi_q_root, mhi_root}. \<forall>ns n. fs_dir f root = Some ns \<and> n \<in> set ns \<longrightarrow>
        \<not> strstr n ''_IP_HW0'' \<or> dir_get_child f (snprintf 256 (root @ ''/'' @ take 32 n @ ''/net'')) [] = []) \<and>
     fs_access f ''/sys/class/net/sipa_dummy0'' \<noteq> 0"

lemma no_channel_of:
  assumes "no_channel f n k (sc_dev s)"
  shows "fst (channel_of f n k s) = []"
proof -
  have nofile: "fst (detect_path_cdc_wdm_or_qcqmi f (intf_path n k)) = []"
    using assms by (simp add: detect_path_cdc_wdm_or_qcqmi_def no_channel_def)
  have tty: "at_interface (sc_dev s) r = Some a \<Longrightarrow> tty_of f (intf_path n a) = []" for r a
    using assms by (auto simp: at_interface_def no_channel_def split: if_splits)
  show ?thesis
    using nofile tty by (auto simp: channel_of_def Let_def split: prod.splits option.splits)
qed

lemma other_device_scanned:
  assumes "other_device f n"
  shows "\<exists>s'. scan_device f want n s = Some (None, s')"
proof -
  obtain d where d: "query_usb_device_info f (usb_path n) = Some d"
    using assms by (auto simp: other_device_def split: option.splits)
  show ?thesis
  proof (cases "idVendor d = CM_INVALID_VAL")
    case True
    then show ?thesis using d by (simp add: scan_device_def)
  next
    case False
    then have o: "bNumInterfaces d + 8 < 2 ^ 31" "\<not> old_names f n"
        "\<And>i. dir_get_child f (intf_path n i @ ''/net'') [] \<noteq> [] \<Longrightarrow>
          query_usb_interface_info f (intf_path n i) \<noteq> None \<and> no_channel f n i d"
      using assms d by (auto simp: other_device_def)
    obtain c where c: "find_netcard f n (bNumInterfaces d) = Some c" using o(1) by (simp add: find_netcard_def)
    have taken: "\<exists>s'. take_device f n k card (s\<lparr>sc_dev := d\<rparr>) = Some (None, s')" if "c = Some (k, card)" for k card
    proof -
      have "dir_get_child f (intf_path n k @ ''/net'') [] \<noteq> []"
        using c that by (auto simp: find_netcard_def dest!: find_in split: if_splits)
      then obtain i where i: "query_usb_interface_info f (intf_path n k) = Some i" "no_channel f n k d" using o(3) by blast
      then have "fst (channel_of f n k (s\<lparr>sc_dev := d, usb_intf := i\<rparr>)) = []" by (intro no_channel_of) simp
      then show ?thesis using i(1) by (auto simp: take_device_def Let_def split: prod.splits)
    qed
    show ?thesis
    proof (cases c)
      case None
      then show ?thesis using d c False o(2) by (simp add: scan_device_def)
    next
      case (Some kc)
      obtain k card where "kc = (k, card)" by fastforce
      then show ?thesis using d c False Some taken [of k card] by (auto simp: scan_device_def Let_def)
    qed
  qed
qed

lemma other_devices_scanned:
  "\<forall>n\<in>set ns. prefix ''u'' n \<or> other_device f n \<Longrightarrow> \<exists>s'. scan_devices f want ns s = Some (None, s')"
proof (induction ns arbitrary: s)
  case (Cons n ns)
  have rest: "\<exists>s'. scan_devices f want ns t = Some (None, s')" for t using Cons by simp
  show ?case
  proof (cases "prefix ''u'' n")
    case False
    then obtain t where "scan_device f want n s = Some (None, t)" using Cons.prems other_device_scanned by fastforce
    then show ?thesis using False rest by simp
  qed (use rest in simp)
qed simp

lemma no_mhi_modem:
  "\<forall>n\<in>set ns. \<not> strstr n ''_IP_HW0'' \<or> dir_get_child f (snprintf 256 (root @ ''/'' @ take 32 n @ ''/net'')) [] = [] \<Longrightarrow>
    mhi_entries f root want ns = Some None"
  by (induction ns) (auto simp: mhi_entry_def Let_def)

text \<open>Waiting changes what was looked at last, and nothing that the user set.\<close>

definition looked_at :: "scan \<Rightarrow> cm \<Rightarrow> cm" where
  "looked_at s m = m\<lparr>cm_scan := s, cm_profile := (cm_profile m)\<lparr>usb_dev := sc_dev s\<rparr>\<rparr>"

lemma looked_at_again [simp]: "looked_at s (looked_at t m) = looked_at s m" "donot_exit (looked_at s m) = donot_exit m"
  by (simp_all add: looked_at_def)

lemma no_modem_round:
  assumes "no_modem (r_fs e)"
  shows "\<exists>s. quectel_CM e m = Some (Inr (0, looked_at s m))"
proof -
  let ?f = "r_fs e" and ?p = "cm_profile m" and ?s = "(cm_scan m)\<lparr>sc_dev := usb_dev (cm_profile m)\<rparr>"
  have "\<exists>s. qmidevice_detect ?f (expect_adapter ?p) ?s = Some (None, s)"
    using assms other_devices_scanned [of _ ?f] by (auto simp: qmidevice_detect_def no_modem_def split: option.splits)
  then obtain s where s: "qmidevice_detect ?f (expect_adapter ?p) ?s = Some (None, s)" ..
  have "mhi_bus ?f root want = Some None" if "root = mhi_q_root \<or> root = mhi_root" for root want
    using assms that no_mhi_modem by (auto simp: mhi_bus_def no_modem_def split: option.splits)
  then have "mhidevice_detect ?f want = Some None" for want by (simp add: mhidevice_detect_def)
  moreover have "atdevice_detect ?f q = (None, q)" for q using assms by (simp add: atdevice_detect_def no_modem_def)
  ultimately have "find_device ?f (cm_scan m) ?p = Some (None, s, ?p\<lparr>usb_dev := sc_dev s\<rparr>)" using s by (simp add: find_device_def)
  then have "quectel_CM e m = Some (Inr (0, looked_at s m))"
    by (simp add: quectel_CM_def quectel_CM_start_def looked_at_def)
  then show ?thesis ..
qed

text \<open>
  Property C21 (liveness): after a hang-up the program waits for the modem. In any number of rounds whose
  file system shows other USB devices, hubs, network adapters, PCIe entries, but no modem, it keeps
  going, and enters the next round with every option and setting of its profile but the identity of
  the device looked at last. SIGINT or SIGTERM in one of these rounds ends the wait and the program, with
  status 0; and when no run has asked to be repeated, the first round without a modem does.
\<close>

theorem waits_for_modem:
  assumes "\<forall>e\<in>set es. no_modem (r_fs e)" "es \<noteq> []"
  shows "if donot_exit m \<and> (\<forall>e\<in>set es. \<not> r_signal e)
    then \<exists>s. cm_rounds (es @ later) m = cm_rounds later (looked_at s m)
    else cm_rounds (es @ later) m = Some (ExitStatus 0)"
  using assms
proof (induction es arbitrary: m)
  case (Cons a es)
  obtain s where a: "quectel_CM a m = Some (Inr (0, looked_at s m))" using Cons.prems no_modem_round by fastforce
  show ?case
  proof (cases "es = [] \<or> \<not> donot_exit m \<or> r_signal a")
    case True
    then show ?thesis using a by auto
  next
    case False
    then have more: "cm_rounds ((a # es) @ later) m = cm_rounds (es @ later) (looked_at s m)" and go: "donot_exit m" "\<not> r_signal a"
      using a by simp_all
    have "if donot_exit m \<and> (\<forall>e\<in>set es. \<not> r_signal e)
        then \<exists>t. cm_rounds (es @ later) (looked_at s m) = cm_rounds later (looked_at t m)
        else cm_rounds (es @ later) (looked_at s m) = Some (ExitStatus 0)"
      using Cons.IH [of "looked_at s m"] Cons.prems False by (simp only: looked_at_again) auto
    then show ?thesis unfolding more using go by (simp only: list.set ball_simps) simp
  qed
qed simp

text \<open>A board with a root hub, a hub and an Ethernet adapter behind it, and no modem.\<close>

definition board :: fs where
  "board = \<lparr>fs_access = (\<lambda>_. ENOENT),
     fs_file = (\<lambda>x. if x = ''/sys/bus/usb/devices/1-1/idVendor'' then Some ''0424''
       else if x = ''/sys/bus/usb/devices/1-1/bNumInterfaces'' then Some '' 1''
       else if x = ''/sys/bus/usb/devices/1-1.1/idVendor'' then Some ''0424''
       else if x = ''/sys/bus/usb/devices/1-1.1/bNumInterfaces'' then Some '' 1''
       else if x = ''/sys/bus/usb/devices/1-1.1:1.0/bInterfaceClass'' then Some ''ff'' else None),
     fs_dir = (\<lambda>x. if x = ''/sys/bus/usb/devices'' then Some [''.'', ''..'', ''usb1'', ''1-1'', ''1-1:1.0'', ''1-1.1'', ''1-1.1:1.0'']
       else if x = ''/sys/bus/usb/devices/1-1.1:1.0/net'' then Some [''.'', ''..'', ''eth0'']
       else if x = ''/sys/bus/mhi/devices'' then Some [''.'', ''..''] else None),
     fs_link = (\<lambda>_. None)\<rparr>"

lemma board_devices:
  "map (\<lambda>n. map_option (\<lambda>d. (idVendor d, bNumInterfaces d)) (query_usb_device_info board (usb_path n)))
     [''.'', ''..'', ''1-1'', ''1-1:1.0'', ''1-1.1'', ''1-1.1:1.0''] =
   [Some (- 1, 0), Some (- 1, 0), Some (0x424, 1), Some (- 1, 0), Some (0x424, 1), Some (- 1, 0)]"
  by code_simp

lemma board_adapter: "query_usb_interface_info board (usb_root @ ''/1-1.1:1.0'') \<noteq> None"
  by code_simp

lemma board_no_modem: "no_modem board"
proof -
  have cards: "dir_get_child board x [] \<noteq> [] \<Longrightarrow>
      x \<in> {usb_root, usb_root @ ''/1-1.1:1.0/net'', mhi_root}" for x
    by (auto simp: dir_get_child_def board_def usb_root_def mhi_root_def split: if_splits)
  have only: "n = ''1-1.1'' \<and> intf_path n i = usb_root @ ''/1-1.1:1.0''"
    if "dir_get_child board (intf_path n i @ ''/net'') [] \<noteq> []" "n \<in> {''1-1'', ''1-1.1''}" for n i
    using cards [OF that(1)] that(2) by (auto simp: intf_path_def usb_path_def usb_root_def mhi_root_def)
  have "other_device board n" if n: "n \<in> set [''.'', ''..'', ''1-1'', ''1-1:1.0'', ''1-1.1'', ''1-1.1:1.0'']" for n
  proof -
    obtain d where d: "query_usb_device_info board (usb_path n) = Some d"
        "idVendor d = CM_INVALID_VAL \<or> n \<in> {''1-1'', ''1-1.1''} \<and> idVendor d = 0x424 \<and> bNumInterfaces d = 1"
      using board_devices n by (auto simp: CM_INVALID_VAL_def)
    have "\<not> old_names board n" "no_channel board n i d \<longleftrightarrow> idVendor d = 0x2c7c \<longrightarrow> (\<forall>a\<in>{2, 3, 4, 5}. tty_of board (intf_path n a) = [])" for i
      by (simp_all add: old_names_def no_channel_def board_def ENOENT_def)
    then show ?thesis
      using d only board_adapter by (fastforce simp: other_device_def)
  qed
  moreover have "\<not> strstr n ''_IP_HW0''" if "n \<in> {''.'', ''..''}" for n using that by auto
  ultimately show ?thesis
    by (auto simp: no_modem_def board_def usb_root_def mhi_root_def mhi_q_root_def ENOENT_def)
qed

lemma waits_for_modem_witness:
  "\<exists>e m. apn (cm_profile m) = Some ''internet'' \<and>
     (\<exists>n. cm_rounds [e, e, e] m = Some (StillRunning n) \<and> donot_exit n \<and> apn (cm_profile n) = Some ''internet'') \<and>
     cm_rounds [e, e\<lparr>r_signal := True\<rparr>, e] m = Some (ExitStatus 0)"
proof -
  let ?e = "\<lparr>r_fs = board, r_driver = four_ids, r_stack = [], r_run = (\<lambda>ops dev p. (0, True, p)), r_signal = False\<rparr>"
  let ?m = "\<lparr>cm_scan = scan0, cm_profile = profile0\<lparr>apn := Some ''internet''\<rparr>, donot_exit = True\<rparr>"
  have "no_modem (r_fs ?e)" by (simp add: board_no_modem)
  then have f: "\<forall>e\<in>set [?e, ?e, ?e]. no_modem (r_fs e)" "\<forall>e\<in>set [?e, ?e\<lparr>r_signal := True\<rparr>, ?e]. no_modem (r_fs e)" by simp_all
  have "\<exists>s. cm_rounds ([?e, ?e, ?e] @ []) ?m = cm_rounds [] (looked_at s ?m)" using waits_for_modem [OF f(1), of ?m "[]"] by (simp del: cm_rounds.simps)
  then obtain s where "cm_rounds [?e, ?e, ?e] ?m = Some (StillRunning (looked_at s ?m))" by auto
  moreover have "cm_rounds [?e, ?e\<lparr>r_signal := True\<rparr>, ?e] ?m = Some (ExitStatus 0)"
    using waits_for_modem [OF f(2), of ?m "[]"] by (simp del: cm_rounds.simps)
  moreover have "donot_exit (looked_at s ?m) \<and> apn (cm_profile (looked_at s ?m)) = Some ''internet''" by (simp add: looked_at_def)
  moreover have "apn (cm_profile ?m) = Some ''internet''" by simp
  ultimately show ?thesis by blast
qed

section \<open>A modem behind QRTR\<close>

text \<open>
  The search finds such a modem in every build, but without \<open>CONFIG_QRTR\<close> there is no table for
  it: the round ends with 0, and \<open>qmi_main\<close> is not run.
\<close>

theorem qrtr_modem_is_not_used:
  assumes "find_device (r_fs e) (cm_scan m) (cm_profile m) = Some (Some (''qrtr-3'', net), s, p)"
    and "software_interface p = SOFTWARE_QRTR" "hardware_interface p = HARDWARE_PCIE"
  shows "quectel_CM e m = Some (Inr (0, m\<lparr>cm_scan := s, cm_profile := p\<lparr>qmichannel := ''qrtr-3'', usbnet_adapter := net\<rparr>\<rparr>))"
  using assms
  by (simp add: quectel_CM_def quectel_CM_start_def ql_qmap_mode_detect_def choose_tables_def software_simps Let_def)

section \<open>Other instances\<close>

lemma holds_channel_link:
  "holds_channel f ch dir ns = Some (Suc k) \<Longrightarrow> \<exists>n\<in>set ns. fs_link f (take 256 dir @ ''/'' @ n) = Some ch"
proof (induction ns arbitrary: k)
  case (Cons n ns)
  then obtain t j where t: "readlink f 256 (take 256 dir @ ''/'' @ n) = Some t" "holds_channel f ch dir ns = Some j"
      "j + of_bool (t = Some ch \<and> ch \<noteq> []) = Suc k"
    by (auto simp: bind_eq_Some_conv)
  show ?case
  proof (cases j)
    case 0
    then have "t = Some ch" using t(3) by (auto simp: of_bool_def split: if_splits)
    then show ?thesis using t(1) by (simp add: readlink_Some)
  next
    case (Suc i)
    then show ?thesis using Cons.IH t(2) by auto
  qed
qed simp

lemma end_process_pid: "x \<in> set (end_process alive pid) \<Longrightarrow> x = SigTerm pid \<or> x = SigKill pid"
  by (auto simp: end_process_def split: prod.splits if_splits)

lemma brother_found:
  assumes "is_brother_process f alive me ch n = Some sigs" "x \<in> set sigs"
  shows "\<exists>pid fds d. atoi n = pid \<and> list_all isdigit n \<and> pid < me \<and> (x = SigTerm pid \<or> x = SigKill pid) \<and>
    fs_dir f (''/proc/'' @ n @ ''/fd'') = Some fds \<and> d \<in> set fds \<and>
    fs_link f (take 256 (''/proc/'' @ n @ ''/fd'') @ ''/'' @ d) = Some ch"
proof -
  obtain k where k: "list_all isdigit n" "atoi n < me" "k \<noteq> 0" "sigs = end_process (alive (atoi n)) (atoi n)"
      "(case fs_dir f (''/proc/'' @ n @ ''/fd'') of None \<Rightarrow> Some 0 | Some ns \<Rightarrow> holds_channel f ch (''/proc/'' @ n @ ''/fd'') ns) = Some k"
    using assms by (auto simp: is_brother_process_def bind_eq_Some_conv not_le split: if_splits)
  obtain fds j where "fs_dir f (''/proc/'' @ n @ ''/fd'') = Some fds" "holds_channel f ch (''/proc/'' @ n @ ''/fd'') fds = Some (Suc j)"
    using k(3,5) by (cases k) (auto split: option.splits)
  then show ?thesis using holds_channel_link k(1,2,4) end_process_pid assms(2) by blast
qed

text \<open>
  Only an instance that is older and has the channel open is sent a signal.
\<close>

theorem only_brothers_are_ended:
  assumes "kill_brothers f alive me ch = Some sigs" "x \<in> set sigs"
  shows "\<exists>n pid fds d. atoi n = pid \<and> list_all isdigit n \<and> pid < me \<and> (x = SigTerm pid \<or> x = SigKill pid) \<and>
    fs_dir f (''/proc/'' @ n @ ''/fd'') = Some fds \<and> d \<in> set fds \<and>
    fs_link f (take 256 (''/proc/'' @ n @ ''/fd'') @ ''/'' @ d) = Some ch"
proof -
  have found: "\<exists>n a. is_brother_process f alive me ch n = Some a \<and> x \<in> set a" if "brothers f alive me ch ns = Some sigs" for ns
    using assms(2) that by (induction ns arbitrary: sigs) (auto simp: bind_eq_Some_conv, blast+)
  have "sigs \<noteq> []" using assms(2) by auto
  then obtain ns where "brothers f alive me ch ns = Some sigs"
    using assms(1) by (cases "fs_dir f ''/proc''") (auto simp: kill_brothers_def bind_eq_Some_conv split: if_splits)
  from found [OF this] show ?thesis using brother_found by blast
qed

end
