(* ===== verification/Spec2Isabelle.thy ===== *)
theory Spec2Isabelle
  imports AtReader ConnQmi CmdLine QmiProxyRoute QmiProxySafe GobiNet AtcProps MbimProxyRoute MbimIds MbimCall QrtrProxyProps AtcProxy ConnRunProps
begin

text \<open>
  A verification library for the cellular connection manager of the gateway firmware,
  \<open>src/feeds/lorawan-gateway/quectel-cm/src/\<close> (the file names below are relative to it).

  \<^bold>\<open>The program.\<close> \<open>main.c\<close> parses the command line into a profile, finds the modem and runs
  \<open>qmi_main\<close>: a loop over signals it sends itself and events of a reader thread, which sets a
  data call up, watches it, redials it and configures the network interface. It works through
  one of three tables of request functions. The QMI table (\<open>QMIThread.c\<close>) composes binary messages, sends
  them through a device (\<open>QmiWwanCM.c\<close> or \<open>GobiNetCM.c\<close>) and waits in a request slot that the
  device's reader thread fills. The AT table (\<open>atc.c\<close>) sends text commands through a channel
  (\<open>atchannel.c\<close>) whose reader thread splits and classifies the modem's lines, which a
  tokenizer (\<open>at_tok.c\<close>) reads. The MBIM table (\<open>mbim-cm.c\<close>) composes MBIM commands, cuts
  them into fragments and waits in a slot of its own. When a call is up, \<open>udhcpc.c\<close> gives the
  interface the address, the routes and the name servers. Four servers share one device among
  several clients: \<open>quectel-qmi-proxy.c\<close>, \<open>quectel-mbim-proxy.c\<close>, \<open>quectel-atc-proxy.c\<close>, and
  \<open>quectel-qrtr-proxy.c\<close>, which offers a modem behind QRTR sockets as a QMI device.

  \<^bold>\<open>The theories\<close>, bottom up:
  \<^item> \<open>Prelude\<close>: bytes, little-endian fields, checked reads, and the contracts \<open>stepper\<close> and
    \<open>started_stepper\<close> of a component that is driven by events. \<open>CLib\<close>: the string and number
    functions of the C library. \<open>Profile\<close>: \<open>PROFILE_T\<close> of \<open>QMIThread.h\<close> as a record.
  \<^item> \<open>AtTok\<close> (\<open>at_tok.c\<close>), \<open>AtChannel\<close> (commands, responses and line processing of
    \<open>atchannel.c\<close>), \<open>AtReader\<close> (its line splitter, reader loop and raw writer).
  \<^item> \<open>QmiMsg\<close> (TLVs and composition of messages), \<open>QmiSlot\<close> (the request slot and the timed
    wait), \<open>QmiBuild\<close> (the request bodies), \<open>QmiAnswer\<close> (answers and their well-formedness),
    \<open>QmiReq\<close>, \<open>QmiCall\<close>, \<open>QmiProf\<close>, \<open>QmiReg\<close>, \<open>QmiRegSpec\<close> (the request functions and what they
    do), all from \<open>QMIThread.c\<close>; \<open>QmiWwan\<close> (\<open>QmiWwanCM.c\<close>) and \<open>GobiNet\<close> (\<open>GobiNetCM.c\<close>).
  \<^item> \<open>CmdLine\<close> (\<open>parse_user_input\<close>), \<open>ConnMgr\<close> (\<open>qmi_main\<close>, its start, its handlers and its
    loop, over any table of requests), \<open>ConnInv\<close> (the contract \<open>call_table\<close> of a table and the
    invariant of every run), \<open>ConnStart\<close> (the start reaches the loop with the invariant),
    \<open>ConnCheck\<close> (which steps change the interface, and to what, for any table), \<open>ConnQmi\<close> (the QMI table as an instance).
  \<^item> \<open>AtcDevice\<close>, \<open>AtcRequests\<close>, \<open>AtcData\<close> (\<open>atc.c\<close>), \<open>AtcAddr\<close> (the notations of addresses),
    \<open>ConnAtc\<close> (the AT table as an instance of \<open>call_table\<close>), \<open>AtNotify\<close> (which lines around a
    command are its answer, and which are notifications), \<open>AtcProps\<close> (what the AT requests
    make of a modem's answers).
  \<^item> \<open>MbimMsg\<close> (messages, fragments, strings), \<open>MbimSlot\<close> and \<open>MbimSlotProps\<close> (the slot, the
    reader thread and the wait), \<open>MbimRequests\<close> (bodies and answers), \<open>MbimOps\<close> (the request
    functions), all from \<open>mbim-cm.c\<close>; \<open>ConnMbim\<close> (the MBIM table as an instance of
    \<open>call_table\<close>), \<open>ConnTransport\<close> (the contract \<open>table_invariant\<close>: what every function of a table
    keeps of its transport holds in every run of the manager), \<open>MbimIds\<close> (the transaction
    identifiers of a run, through that contract), \<open>MbimCall\<close> (a check over MBIM, from the command
    to the interface).
  \<^item> \<open>AddrConf\<close> (\<open>udhcpc.c\<close> and the resolver file of \<open>util.c\<close>), \<open>AddrProps\<close> (the address that
    the modem reports reaches the interface, over each table).
  \<^item> \<open>SysFs\<close> (the file system as an environment, and the readers of \<open>device.c\<close> and
    \<open>qmap_bridge_mode.c\<close>), \<open>QmapMode\<close> and \<open>QmapProps\<close> (\<open>qmap_bridge_mode.c\<close>: the multiplexing
    mode and the identifier and interface of a context), \<open>DeviceScan\<close> (\<open>device.c\<close>: the search
    for the modem), \<open>ConnRun\<close> and \<open>ConnRunProps\<close> (\<open>main\<close>, \<open>quectel_CM\<close> with the choice of the
    tables, the rounds after a hang-up, and the signals to other instances).
  \<^item> \<open>QmiProxy\<close> (\<open>quectel-qmi-proxy.c\<close>), \<open>QmiProxySpec\<close> (an abstract first-in first-out server,
    and that the loop implements it), \<open>QmiProxyProps\<close> (the order of control requests), \<open>QmiProxyRoute\<close> (who
    gets an answer, and what a departure releases), \<open>QmiProxySafe\<close> (every read of the loop stays inside its message).
    \<open>MbimProxy\<close>, \<open>MbimProxyProps\<close>, \<open>MbimProxyRoute\<close> (\<open>quectel-mbim-proxy.c\<close>), \<open>QrtrProxy\<close>,
    \<open>QrtrProxyProps\<close> (\<open>quectel-qrtr-proxy.c\<close>), \<open>AtcProxy\<close> (\<open>quectel-atc-proxy.c\<close>).

  \<^bold>\<open>How code corresponds to definitions.\<close> A definition has the name of its function; where two
  files use one name, the AT client's functions have the prefix \<open>atc_\<close>. File-scope variables
  and thread state are records (\<open>at_chan\<close>, \<open>qmi_dev\<close>, \<open>proxy\<close>, \<open>atc\<close>, \<open>main\<close>), threaded through every
  operation; a handler is one definition from entry to every return. Results of system calls,
  answers of the modem, the clock, and the interleaving of threads at their synchronisation
  points are arguments (the environment), over which the theorems quantify. A result \<open>None\<close> is
  undefined behaviour of the code (a read outside a buffer, a NULL or uninitialised read) or an
  environment that ends before the code returns; theorems that code returns say so explicitly.
  Packed message fields are bytes and words of their width; \<open>int\<close> values from the tokenizer
  are reduced to 32 bits as the code's conversions do.

  \<^bold>\<open>What the lemmas show.\<close>
  \<^item> Connection manager: every check leaves the interface configured for the connected families,
    with the configurations written out as numbers, and no other step changes it (proved for any
    table, stated for QMI, and for MBIM from the modem's answer on); redial times.
  \<^item> Request slot and channel: an answer is matched with its request, in time, and the wait
    ends; multi-line replies are collected; the lines around a command are divided into its answer
    and notifications, which reach the main thread.
  \<^item> Parsers: TLVs, runtime settings, command lines, addresses and lines round-trip; the line
    splitter gives the same lines however the output is cut into reads.
  \<^item> Proxies: well-formed runs (of the QMI proxy while its clients send no control message of less
    than ten bytes, of the MBIM proxy without \<open>-v\<close>; both conditions are shown to be needed),
    refinement of the abstract server, routing of every answer to the client that owns the request,
    release of a client's state when it leaves (for the QMI proxy while it has no request waiting).
    The MBIM identifiers of a pass of \<open>qmi_main\<close> leave the upper bits that the MBIM proxy uses.
  \<^item> Addresses: what a QMI, AT or MBIM modem answers is the address the interface is given.
  \<^item> Device: the modem found is one device and its interface decides the table; a context has a
    multiplexer identifier of its own, and detecting again changes nothing; a hang-up is
    waited out while the system shows other devices, until a signal ends the wait.
  \<^item> Errors: the places where the code does something else than its comments say, each as a
    theorem with a run that shows it.

  \<^bold>\<open>Bounds and fuel.\<close> Loops of the code that are bounded (15 status questions, 8 handshakes, the
  quarters of a timed wait, the 1023 characters of the scanner) have their bounds. Loops that
  may not end are \<open>partial_function\<close>s (repeated SIM and profile questions) or recursions over
  the environment, where running out is \<open>None\<close> or the result \<open>NotReturned\<close>; no theorem uses an
  arbitrary fuel.

  \<^bold>\<open>Not modelled.\<close> The netlink requests of \<open>rmnetctl.c\<close> and the code behind \<open>CONFIG_QRTR\<close>
  (\<open>qrtr.c\<close> is not in the Makefile); the
  variants of address configuration that no build of the repository compiles
  (\<open>udhcpc_netlink.c\<close>, \<open>udhcpc_script.c\<close>); requests behind build switches that the default
  build leaves off; the creation of sockets; the tables and dump functions that only name types
  for the log; the header files of wire structures, whose layout is written out in the builders
  and readers; the hardware information program (an EEPROM dump); and the services in other
  languages.
\<close>

end
